(* ===== verification/Prelude.thy ===== *)
theory Prelude
  imports Complex_Main "HOL-Library.AList"
begin

text \<open>
  The vocabulary every component of the router shares.

  \<^item> Python values: \<open>str\<close> is \<open>string\<close> (its characters are the code points below 256),
    \<open>int\<close> is \<open>int\<close>, \<open>float\<close> is \<open>pyfloat\<close> (an exact rational, or an infinity, or NaN;
    IEEE rounding is not modelled), a \<open>dict\<close> is an association list in insertion order
    (\<open>AList.update\<close> overwrites in place or appends, as Python does), and \<open>os.environ\<close> is a map.
  \<^item> Exceptions are values of \<open>exn\<close>; a call that may raise returns \<open>exn + 'a\<close>.
  \<^item> The string methods and the parts of \<open>urllib.parse.urlsplit\<close> the code uses.
  \<^item> The collections \<open>frame\<close> (which state an operation leaves alone) and \<open>pystr\<close>
    (evaluation of string methods), and lemmas on lists and dictionaries.
\<close>

named_theorems frame "which parts of the state an operation leaves unchanged"
named_theorems pystr "definitions of the string methods, for evaluating closed terms"

section \<open>Exceptions and results\<close>

datatype exn =
    HTTPError int string string  \<comment> \<open>\<open>urllib.error.HTTPError\<close>: code, reason, response body\<close>
  | ConnError string string   \<comment> \<open>\<open>http.client.HTTPException\<close> or \<open>OSError\<close>: class, text\<close>
  | PyError string string     \<comment> \<open>any other \<open>Exception\<close>: class, text\<close>
  | BudgetStop string string  \<comment> \<open>\<open>request_budget.BudgetStop\<close>: reason, in-flight label\<close>

abbreviation ValueError :: "string \<Rightarrow> exn" where
  "ValueError m \<equiv> PyError ''ValueError'' m"

abbreviation TypeError :: "string \<Rightarrow> exn" where
  "TypeError m \<equiv> PyError ''TypeError'' m"

definition bindE :: "'e + 'a \<Rightarrow> ('a \<Rightarrow> 'e + 'b) \<Rightarrow> 'e + 'b" where
  "bindE r f = (case r of Inl e \<Rightarrow> Inl e | Inr a \<Rightarrow> f a)"

lemma bindE_simps [simp]: "bindE (Inl e) f = Inl e" "bindE (Inr a) f = f a"
  by (simp_all add: bindE_def)

lemma bindE_Inr_iff: "bindE r f = Inr b \<longleftrightarrow> (\<exists>a. r = Inr a \<and> f a = Inr b)"
  by (cases r) auto

section \<open>Environment variables\<close>

type_synonym env = "string \<Rightarrow> string option"

definition env_get :: "env \<Rightarrow> string \<Rightarrow> string \<Rightarrow> string" where
  "env_get e k d = (case e k of None \<Rightarrow> d | Some v \<Rightarrow> v)"

section \<open>Strings\<close>

definition py_space :: "char \<Rightarrow> bool" where
  "py_space c = (let n = (of_char c :: nat) in
     (9 \<le> n \<and> n \<le> 13) \<or> (28 \<le> n \<and> n \<le> 32) \<or> n = 133 \<or> n = 160)"

definition rstrip_by :: "(char \<Rightarrow> bool) \<Rightarrow> string \<Rightarrow> string" where
  "rstrip_by P s = rev (dropWhile P (rev s))"

definition strip_by :: "(char \<Rightarrow> bool) \<Rightarrow> string \<Rightarrow> string" where
  "strip_by P s = rstrip_by P (dropWhile P s)"

definition strip :: "string \<Rightarrow> string" where
  "strip s = strip_by py_space s"

definition lower_char :: "char \<Rightarrow> char" where
  "lower_char c = (let n = (of_char c :: nat) in
     if (65 \<le> n \<and> n \<le> 90) \<or> (192 \<le> n \<and> n \<le> 222 \<and> n \<noteq> 215) then char_of (n + 32) else c)"

definition lower :: "string \<Rightarrow> string" where
  "lower s = map lower_char s"

definition startswith :: "string \<Rightarrow> string \<Rightarrow> bool" where
  "startswith p s = (take (length p) s = p)"

definition endswith :: "string \<Rightarrow> string \<Rightarrow> bool" where
  "endswith p s = startswith (rev p) (rev s)"

text \<open>\<open>find_sub p s\<close> is the text before and after the first occurrence of \<open>p\<close> in \<open>s\<close>.\<close>

fun find_sub :: "string \<Rightarrow> string \<Rightarrow> (string \<times> string) option" where
  "find_sub p [] = (if p = [] then Some ([], []) else None)"
| "find_sub p (c # s) =
     (if startswith p (c # s) then Some ([], drop (length p) (c # s))
      else map_option (\<lambda>(a, b). (c # a, b)) (find_sub p s))"

definition str_in :: "string \<Rightarrow> string \<Rightarrow> bool" where
  "str_in p s = (find_sub p s \<noteq> None)"

text \<open>\<open>s.partition(c)\<close> and \<open>s.rpartition(c)\<close> for a one-character separator.\<close>

definition partition_at :: "char \<Rightarrow> string \<Rightarrow> string \<times> bool \<times> string" where
  "partition_at c s =
     (case find_sub [c] s of None \<Rightarrow> (s, False, []) | Some (a, b) \<Rightarrow> (a, True, b))"

definition rpartition_at :: "char \<Rightarrow> string \<Rightarrow> string \<times> bool \<times> string" where
  "rpartition_at c s =
     (case find_sub [c] (rev s) of None \<Rightarrow> ([], False, s) | Some (a, b) \<Rightarrow> (rev b, True, rev a))"

fun split_on :: "char \<Rightarrow> string \<Rightarrow> string list" where
  "split_on c [] = [[]]"
| "split_on c (x # xs) =
     (if x = c then [] # split_on c xs
      else case split_on c xs of [] \<Rightarrow> [[x]] | y # ys \<Rightarrow> (x # y) # ys)"

fun join :: "string \<Rightarrow> string list \<Rightarrow> string" where
  "join sep [] = []"
| "join sep [x] = x"
| "join sep (x # y # zs) = x @ sep @ join sep (y # zs)"

definition ascii_digit :: "char \<Rightarrow> bool" where
  "ascii_digit c = (let n = (of_char c :: nat) in 48 \<le> n \<and> n \<le> 57)"

definition ascii_upper :: "char \<Rightarrow> bool" where
  "ascii_upper c = (let n = (of_char c :: nat) in 65 \<le> n \<and> n \<le> 90)"

definition ascii_lower :: "char \<Rightarrow> bool" where
  "ascii_lower c = (let n = (of_char c :: nat) in 97 \<le> n \<and> n \<le> 122)"

definition ascii_alnum :: "char \<Rightarrow> bool" where
  "ascii_alnum c = (ascii_digit c \<or> ascii_upper c \<or> ascii_lower c)"

definition digit_val :: "char \<Rightarrow> nat" where
  "digit_val c = of_char c - 48"

text \<open>\<open>int(s)\<close> for a string of ASCII digits.\<close>

definition digits_val :: "string \<Rightarrow> nat" where
  "digits_val s = foldl (\<lambda>n c. 10 * n + digit_val c) 0 s"

fun show_nat :: "nat \<Rightarrow> string" where
  "show_nat n = (if n < 10 then [char_of (48 + n)] else show_nat (n div 10) @ [char_of (48 + n mod 10)])"

declare show_nat.simps [simp del]

definition show_int :: "int \<Rightarrow> string" where
  "show_int i = (if i < 0 then ''-'' @ show_nat (nat (- i)) else show_nat (nat i))"

lemmas [pystr] = strip_def strip_by_def rstrip_by_def lower_def startswith_def endswith_def
  str_in_def partition_at_def rpartition_at_def env_get_def

section \<open>Floats\<close>

datatype pyfloat = Fin rat | PInf | NInf | NaN

fun isfinite :: "pyfloat \<Rightarrow> bool" where
  "isfinite (Fin _) = True"
| "isfinite _ = False"

text \<open>An \<open>int\<close> of this size or more makes \<open>float(i)\<close> raise \<open>OverflowError\<close>.\<close>

definition float_overflows :: "int \<Rightarrow> bool" where
  "float_overflows i = (2 ^ 1024 - 2 ^ 970 \<le> \<bar>i\<bar>)"

lemma float_overflows_small [simp]:
  assumes "\<bar>i\<bar> < 2 ^ 1000"
  shows "\<not> float_overflows i"
proof -
  have "(2::int) ^ 1000 \<le> 2 ^ 1024 - 2 ^ 970" by simp
  with assms show ?thesis by (simp add: float_overflows_def)
qed

text \<open>\<open>round(x, n)\<close>: to \<open>n\<close> decimals, ties to the even neighbour.\<close>

definition round_even :: "rat \<Rightarrow> int" where
  "round_even y = (let f = \<lfloor>y\<rfloor>; d = y - of_int f in
     if d < 1/2 then f else if 1/2 < d then f + 1 else if even f then f else f + 1)"

definition py_round :: "nat \<Rightarrow> rat \<Rightarrow> rat" where
  "py_round n x = of_int (round_even (x * 10 ^ n)) / 10 ^ n"

text \<open>\<open>int(x)\<close> truncates towards zero.\<close>

definition py_trunc :: "rat \<Rightarrow> int" where
  "py_trunc x = (if x < 0 then \<lceil>x\<rceil> else \<lfloor>x\<rfloor>)"

lemma round_even_int [simp]: "round_even (of_int i) = i"
  by (simp add: round_even_def)

lemma round_even_near: "\<bar>of_int (round_even y) - y\<bar> \<le> 1/2"
proof -
  have "of_int \<lfloor>y\<rfloor> \<le> y" "y < of_int \<lfloor>y\<rfloor> + 1" by linarith+
  then show ?thesis by (auto simp: round_even_def Let_def abs_le_iff split: if_splits)
qed

lemma py_trunc_nonneg: "0 \<le> x \<Longrightarrow> 0 \<le> py_trunc x"
  by (simp add: py_trunc_def)

section \<open>Dictionaries\<close>

type_synonym 'v dict = "(string \<times> 'v) list"

abbreviation dget :: "'v dict \<Rightarrow> string \<Rightarrow> 'v option" where
  "dget d k \<equiv> map_of d k"

abbreviation dset :: "string \<Rightarrow> 'v \<Rightarrow> 'v dict \<Rightarrow> 'v dict" where
  "dset k v d \<equiv> AList.update k v d"

abbreviation dpop :: "string \<Rightarrow> 'v dict \<Rightarrow> 'v dict" where
  "dpop k d \<equiv> AList.delete k d"

abbreviation has_key :: "'v dict \<Rightarrow> string \<Rightarrow> bool" where
  "has_key d k \<equiv> k \<in> set (map fst d)"

definition dupdate :: "'v dict \<Rightarrow> 'v dict \<Rightarrow> 'v dict" where
  "dupdate d e = foldl (\<lambda>d (k, v). dset k v d) d e"

lemma dget_dset [simp]: "dget (dset k v d) k' = (if k' = k then Some v else dget d k')"
  by (simp add: update_conv')

lemma dget_dpop [simp]: "dget (dpop k d) k' = (if k' = k then None else dget d k')"
  by (simp add: delete_conv')

lemma length_dset: "length (dset k v d) = (if has_key d k then length d else Suc (length d))"
  by (induction d) auto

lemma length_dpop_le: "length (dpop k d) \<le> length d"
  by (induction d) auto

lemma length_dpop_less: "has_key d k \<Longrightarrow> length (dpop k d) < length d"
proof (induction d)
  case Nil
  then show ?case by simp
next
  case (Cons p d)
  obtain a v where p: "p = (a, v)" by (cases p)
  show ?case
  proof (cases "a = k")
    case True
    with p show ?thesis using length_dpop_le [of k d] by simp
  next
    case False
    with p Cons show ?thesis by simp
  qed
qed

lemma distinct_dset: "distinct (map fst d) \<Longrightarrow> distinct (map fst (dset k v d))"
  by (rule distinct_update)

lemma distinct_dpop: "distinct (map fst d) \<Longrightarrow> distinct (map fst (dpop k d))"
  by (rule distinct_delete)

lemma dget_dupdate:
  "dget (dupdate d e) k = (case dget (rev e) k of Some v \<Rightarrow> Some v | None \<Rightarrow> dget d k)"
  by (induction e arbitrary: d) (auto simp: dupdate_def map_add_def split: option.splits)

lemma dget_filter_neq: "dget (filter (\<lambda>(k, v). k \<noteq> a) d) k' = (if k' = a then None else dget d k')"
  by (induction d) auto

section \<open>Lists\<close>

fun index_of :: "('a \<Rightarrow> bool) \<Rightarrow> 'a list \<Rightarrow> nat option" where
  "index_of P [] = None"
| "index_of P (x # xs) = (if P x then Some 0 else map_option Suc (index_of P xs))"

lemma index_of_Some: "index_of P xs = Some i \<Longrightarrow> i < length xs \<and> P (xs ! i)"
  by (induction xs arbitrary: i) (auto split: if_splits)

lemma insort_key_set: "set (insort_key f x xs) = insert x (set xs)"
  by (rule set_insort_key)

lemma filter_length_bound: "length (filter P xs) \<le> length xs"
  by (rule length_filter_le)

section \<open>URLs\<close>

text \<open>What \<open>urllib.parse.urlsplit\<close> returns, and its \<open>hostname\<close> and \<open>port\<close> attributes.\<close>

record url =
  u_scheme :: string
  u_netloc :: string
  u_path :: string
  u_query :: string
  u_fragment :: string

definition scheme_char :: "char \<Rightarrow> bool" where
  "scheme_char c = (ascii_alnum c \<or> c \<in> set ''+-.'')"

definition netloc_end :: "char \<Rightarrow> bool" where
  "netloc_end c = (c \<in> set ''/?#'')"

definition urlsplit :: "string \<Rightarrow> exn + url" where
  "urlsplit s0 =
     (let s1 = filter (\<lambda>c. of_char c \<notin> {9::nat, 10, 13}) (dropWhile (\<lambda>c. (of_char c :: nat) \<le> 32) s0);
          (pre, colon, post) = partition_at (CHR '':'') s1;
          has_scheme = (colon \<and> pre \<noteq> [] \<and> \<not> ascii_digit (hd pre) \<and> ascii_alnum (hd pre)
                        \<and> list_all scheme_char pre);
          scheme = (if has_scheme then lower pre else []);
          r1 = (if has_scheme then post else s1);
          has_net = startswith ''//'' r1;
          netloc = (if has_net then takeWhile (\<lambda>c. \<not> netloc_end c) (drop 2 r1) else []);
          r2 = (if has_net then dropWhile (\<lambda>c. \<not> netloc_end c) (drop 2 r1) else r1);
          (r3, _, frag) = partition_at (CHR ''#'') r2;
          (path, _, query) = partition_at (CHR ''?'') r3
      in if (CHR ''['' \<in> set netloc) \<noteq> (CHR '']'' \<in> set netloc)
         then Inl (ValueError ''Invalid IPv6 URL'')
         else Inr \<lparr>u_scheme = scheme, u_netloc = netloc, u_path = path, u_query = query,
                   u_fragment = frag\<rparr>)"

definition hostinfo :: "url \<Rightarrow> string \<times> string option" where
  "hostinfo u =
     (let (_, _, info) = rpartition_at (CHR ''@'') (u_netloc u);
          (_, open_br, bracketed) = partition_at (CHR ''['') info;
          (host, port) =
            (if open_br
             then (let (h, _, p) = partition_at (CHR '']'') bracketed;
                       (_, _, q) = partition_at (CHR '':'') p in (h, q))
             else (let (h, _, p) = partition_at (CHR '':'') info in (h, p)))
      in (host, if port = [] then None else Some port))"

definition u_hostname :: "url \<Rightarrow> string option" where
  "u_hostname u =
     (let h = fst (hostinfo u); (a, pct, zone) = partition_at (CHR ''%'') h
      in if h = [] then None else Some (lower a @ (if pct then ''%'' else []) @ zone))"

definition u_port :: "url \<Rightarrow> exn + nat option" where
  "u_port u =
     (case snd (hostinfo u) of
        None \<Rightarrow> Inr None
      | Some p \<Rightarrow>
          if \<not> list_all ascii_digit p then Inl (ValueError ''Port could not be cast to integer value'')
          else if 65535 < digits_val p then Inl (ValueError ''Port out of range 0-65535'')
          else Inr (Some (digits_val p)))"

definition u_userinfo :: "url \<Rightarrow> string option" where
  "u_userinfo u = (let (a, b, _) = rpartition_at (CHR ''@'') (u_netloc u) in if b then Some a else None)"

lemma u_port_range: "u_port u = Inr (Some p) \<Longrightarrow> p \<le> 65535"
  by (auto simp: u_port_def split: option.splits if_splits)

end
