(* ===== verification/Json.thy ===== *)
theory Json
  imports Prelude "HOL-Library.List_Lexorder" "HOL-Library.Char_ord" "HOL-Library.Multiset"
begin

text \<open>
  JSON values as Python's \<open>json\<close> module reads and writes them, \<open>json.dumps\<close> in the option sets
  the code uses, UTF-8, and the structure-limit walk that three modules of \<open>router_control\<close> share
  (\<open>app.enforce_json_structure_limit\<close>, \<open>verification.parse_bundle\<close>, \<open>local_store._parse_manifest\<close>).
  The walk keeps an explicit stack; \<open>within_limits_iff\<close> shows that it accepts a value exactly
  when a plain recursive count of its nodes and its nesting is within the two limits.
  The text of a finite float (\<open>float.__repr__\<close>) is the option \<open>o_float\<close>.
\<close>

datatype json =
    JNull
  | JBool bool
  | JInt int
  | JFloat pyfloat
  | JStr string
  | JArr "json list"
  | JObj "(string \<times> json) list"

type_synonym jdict = "json dict"

section \<open>Access\<close>

fun is_obj :: "json \<Rightarrow> bool" where
  "is_obj (JObj _) = True" | "is_obj _ = False"

fun is_arr :: "json \<Rightarrow> bool" where
  "is_arr (JArr _) = True" | "is_arr _ = False"

fun is_str :: "json \<Rightarrow> bool" where
  "is_str (JStr _) = True" | "is_str _ = False"

text \<open>\<open>d.get(k)\<close>: \<open>None\<close> for a missing key, as for a stored \<open>null\<close>.\<close>

definition dget_or_null :: "jdict \<Rightarrow> string \<Rightarrow> json" where
  "dget_or_null d k = (case dget d k of None \<Rightarrow> JNull | Some v \<Rightarrow> v)"

fun jget :: "json \<Rightarrow> string \<Rightarrow> json" where
  "jget (JObj d) k = dget_or_null d k"
| "jget _ k = JNull"

fun obj_items :: "json \<Rightarrow> jdict" where
  "obj_items (JObj d) = d" | "obj_items _ = []"

text \<open>Python's truth value of a JSON value.\<close>

fun truthy :: "json \<Rightarrow> bool" where
  "truthy JNull = False"
| "truthy (JBool b) = b"
| "truthy (JInt i) = (i \<noteq> 0)"
| "truthy (JFloat f) = (f \<noteq> Fin 0)"
| "truthy (JStr s) = (s \<noteq> [])"
| "truthy (JArr xs) = (xs \<noteq> [])"
| "truthy (JObj d) = (d \<noteq> [])"

definition opt_str :: "string option \<Rightarrow> json" where
  "opt_str x = (case x of None \<Rightarrow> JNull | Some s \<Rightarrow> JStr s)"

definition opt_int :: "int option \<Rightarrow> json" where
  "opt_int x = (case x of None \<Rightarrow> JNull | Some i \<Rightarrow> JInt i)"

lemma dget_or_null_dset [simp]:
  "dget_or_null (dset k v d) k' = (if k' = k then v else dget_or_null d k')"
  by (simp add: dget_or_null_def)

section \<open>Nodes, nesting, children\<close>

fun jkids :: "json \<Rightarrow> json list" where
  "jkids (JArr xs) = xs"
| "jkids (JObj d) = map snd d"
| "jkids _ = []"

fun jnodes :: "json \<Rightarrow> nat" and jnodes_list :: "json list \<Rightarrow> nat"
  and jnodes_items :: "(string \<times> json) list \<Rightarrow> nat" where
  "jnodes (JArr xs) = Suc (jnodes_list xs)"
| "jnodes (JObj d) = Suc (jnodes_items d)"
| "jnodes _ = 1"
| "jnodes_list [] = 0"
| "jnodes_list (x # xs) = jnodes x + jnodes_list xs"
| "jnodes_items [] = 0"
| "jnodes_items ((k, v) # d) = jnodes v + jnodes_items d"

fun jheight :: "json \<Rightarrow> nat" and jheight_list :: "json list \<Rightarrow> nat"
  and jheight_items :: "(string \<times> json) list \<Rightarrow> nat" where
  "jheight (JArr xs) = jheight_list xs"
| "jheight (JObj d) = jheight_items d"
| "jheight _ = 0"
| "jheight_list [] = 0"
| "jheight_list (x # xs) = max (Suc (jheight x)) (jheight_list xs)"
| "jheight_items [] = 0"
| "jheight_items ((k, v) # d) = max (Suc (jheight v)) (jheight_items d)"

lemma jnodes_list_sum: "jnodes_list xs = sum_list (map jnodes xs)"
  by (induction xs) auto

lemma jnodes_items_sum: "jnodes_items d = sum_list (map (jnodes \<circ> snd) d)"
  by (induction d) auto

lemma jnodes_kids: "jnodes j = Suc (sum_list (map jnodes (jkids j)))"
  by (cases j) (auto simp: jnodes_list_sum jnodes_items_sum)

lemma jnodes_pos [simp]: "0 < jnodes j"
  by (simp add: jnodes_kids)

lemma jheight_list_le: "jheight_list xs \<le> h \<longleftrightarrow> (\<forall>x \<in> set xs. Suc (jheight x) \<le> h)"
  by (induction xs) auto

lemma jheight_items_le: "jheight_items d \<le> h \<longleftrightarrow> (\<forall>x \<in> set (map snd d). Suc (jheight x) \<le> h)"
  by (induction d) auto

lemma jheight_kids_le: "jheight j \<le> h \<longleftrightarrow> (\<forall>x \<in> set (jkids j). Suc (jheight x) \<le> h)"
  by (cases j) (auto simp: jheight_list_le jheight_items_le)

lemma sum_list_kids: "sum_list (map jnodes (jkids j)) < jnodes j"
  by (simp add: jnodes_kids [of j])

section \<open>The structure-limit walk\<close>

text \<open>
  The head of the list is the top of the Python list \<open>stack\<close>: \<open>stack.pop()\<close> takes it, and
  \<open>stack.extend(children)\<close> leaves the last child on top. \<open>False\<close> is the raise.
\<close>

function walk :: "nat \<Rightarrow> nat \<Rightarrow> (json \<times> nat) list \<Rightarrow> nat \<Rightarrow> bool" where
  "walk max_depth max_nodes [] nodes = True"
| "walk max_depth max_nodes ((item, depth) # stack) nodes =
     (if max_depth < depth \<or> max_nodes < Suc nodes + length stack then False
      else walk max_depth max_nodes
             (rev (map (\<lambda>child. (child, Suc depth)) (jkids item)) @ stack) (Suc nodes))"
  by pat_completeness auto
termination
  by (relation "measure (\<lambda>(_, _, stack, _). sum_list (map (jnodes \<circ> fst) stack))")
     (auto simp: comp_def rev_map [symmetric] sum_list_kids)

definition within_limits :: "nat \<Rightarrow> nat \<Rightarrow> json \<Rightarrow> bool" where
  "within_limits max_depth max_nodes value = walk max_depth max_nodes [(value, 0)] 0"

lemma length_le_jnodes: "length st \<le> sum_list (map (jnodes \<circ> fst) st)"
proof (induction st)
  case Nil
  then show ?case by simp
next
  case (Cons p st)
  have "1 \<le> jnodes (fst p)" by (simp add: Suc_leI)
  with Cons show ?case by simp
qed

lemma walk_iff:
  "walk D N st n \<longleftrightarrow>
     (st = [] \<or> n + sum_list (map (jnodes \<circ> fst) st) \<le> N)
     \<and> (\<forall>(j, d) \<in> set st. d + jheight j \<le> D)"
proof (induction D N st n rule: walk.induct)
  case (1 D N n)
  then show ?case by simp
next
  case (2 D N j d st n)
  let ?kids = "rev (map (\<lambda>child. (child, Suc d)) (jkids j))"
  have sum: "sum_list (map (jnodes \<circ> fst) (?kids @ st)) + 1
      = sum_list (map (jnodes \<circ> fst) ((j, d) # st))"
    by (simp add: jnodes_kids [of j] comp_def flip: rev_map)
  have depth: "(\<forall>x \<in> set (jkids j). Suc d + jheight x \<le> D) \<and> d \<le> D \<longleftrightarrow> d + jheight j \<le> D"
    using jheight_kids_le [of j "D - d"] by auto
  show ?case
  proof (cases "D < d \<or> N < Suc n + length st")
    case True
    have "Suc n + length st \<le> n + sum_list (map (jnodes \<circ> fst) ((j, d) # st))"
      using length_le_jnodes [of "(j, d) # st"] by simp
    with True have "n + sum_list (map (jnodes \<circ> fst) ((j, d) # st)) \<le> N \<Longrightarrow> \<not> d + jheight j \<le> D"
      by linarith
    moreover from True have "\<not> walk D N ((j, d) # st) n" by simp
    ultimately show ?thesis by (auto simp: comp_def simp del: walk.simps)
  next
    case False
    have "?kids @ st = [] \<or> Suc n + sum_list (map (jnodes \<circ> fst) (?kids @ st)) \<le> N
        \<longleftrightarrow> n + sum_list (map (jnodes \<circ> fst) ((j, d) # st)) \<le> N"
      using sum False by (cases "?kids @ st = []") auto
    moreover have "(\<forall>(i, e) \<in> set (?kids @ st). e + jheight i \<le> D)
        \<longleftrightarrow> (\<forall>(i, e) \<in> set ((j, d) # st). e + jheight i \<le> D)"
      using depth False by (simp add: ball_Un)
    ultimately show ?thesis
      using False "2.IH" by (simp add: comp_def)
  qed
qed

lemma within_limits_iff: "within_limits D N j \<longleftrightarrow> jnodes j \<le> N \<and> jheight j \<le> D"
  by (simp add: within_limits_def walk_iff)

section \<open>\<open>json.dumps\<close>\<close>

record dump_opts =
  o_sort :: bool              \<comment> \<open>\<open>sort_keys\<close>\<close>
  o_ascii :: bool             \<comment> \<open>\<open>ensure_ascii\<close>\<close>
  o_isep :: string            \<comment> \<open>item separator\<close>
  o_ksep :: string            \<comment> \<open>key separator\<close>
  o_float :: "rat \<Rightarrow> string"   \<comment> \<open>\<open>float.__repr__\<close> of a finite float\<close>

definition compact :: "(rat \<Rightarrow> string) \<Rightarrow> dump_opts" where
  "compact fr = \<lparr>o_sort = False, o_ascii = True, o_isep = '','', o_ksep = '':'', o_float = fr\<rparr>"

definition compact_sorted :: "(rat \<Rightarrow> string) \<Rightarrow> dump_opts" where
  "compact_sorted fr = (compact fr)\<lparr>o_sort := True\<rparr>"

definition default_opts :: "(rat \<Rightarrow> string) \<Rightarrow> dump_opts" where
  "default_opts fr = \<lparr>o_sort = False, o_ascii = True, o_isep = '', '', o_ksep = '': '', o_float = fr\<rparr>"

definition hex_digit :: "nat \<Rightarrow> char" where
  "hex_digit n = (if n < 10 then char_of (48 + n) else char_of (87 + n))"

definition esc_char :: "bool \<Rightarrow> char \<Rightarrow> string" where
  "esc_char ascii c = (let n = (of_char c :: nat) in
     if n = 34 then [char_of (92::nat), CHR ''\"'']
     else if n = 92 then [char_of (92::nat), char_of (92::nat)]
     else if n = 10 then [char_of (92::nat), CHR ''n'']
     else if n = 13 then [char_of (92::nat), CHR ''r'']
     else if n = 9 then [char_of (92::nat), CHR ''t'']
     else if n = 12 then [char_of (92::nat), CHR ''f'']
     else if n = 8 then [char_of (92::nat), CHR ''b'']
     else if n < 32 \<or> (ascii \<and> 126 < n)
       then char_of (92::nat) # ''u00'' @ [hex_digit (n div 16), hex_digit (n mod 16)]
     else [c])"

definition dump_str :: "bool \<Rightarrow> string \<Rightarrow> string" where
  "dump_str ascii s = ''\"'' @ concat (map (esc_char ascii) s) @ ''\"''"

fun dump_float :: "(rat \<Rightarrow> string) \<Rightarrow> pyfloat \<Rightarrow> string" where
  "dump_float fr (Fin q) = fr q"
| "dump_float fr PInf = ''Infinity''"
| "dump_float fr NInf = ''-Infinity''"
| "dump_float fr NaN = ''NaN''"

fun sort_json :: "json \<Rightarrow> json" and sort_list :: "json list \<Rightarrow> json list"
  and sort_items :: "(string \<times> json) list \<Rightarrow> (string \<times> json) list" where
  "sort_json (JArr xs) = JArr (sort_list xs)"
| "sort_json (JObj d) = JObj (sort_key fst (sort_items d))"
| "sort_json j = j"
| "sort_list [] = []"
| "sort_list (x # xs) = sort_json x # sort_list xs"
| "sort_items [] = []"
| "sort_items ((k, v) # d) = (k, sort_json v) # sort_items d"

fun dump_val :: "dump_opts \<Rightarrow> json \<Rightarrow> string" and dump_vals :: "dump_opts \<Rightarrow> json list \<Rightarrow> string list"
  and dump_items :: "dump_opts \<Rightarrow> (string \<times> json) list \<Rightarrow> string list" where
  "dump_val opts JNull = ''null''"
| "dump_val opts (JBool b) = (if b then ''true'' else ''false'')"
| "dump_val opts (JInt i) = show_int i"
| "dump_val opts (JFloat f) = dump_float (o_float opts) f"
| "dump_val opts (JStr s) = dump_str (o_ascii opts) s"
| "dump_val opts (JArr xs) = ''['' @ join (o_isep opts) (dump_vals opts xs) @ '']''"
| "dump_val opts (JObj d) = ''{'' @ join (o_isep opts) (dump_items opts d) @ ''}''"
| "dump_vals opts [] = []"
| "dump_vals opts (x # xs) = dump_val opts x # dump_vals opts xs"
| "dump_items opts [] = []"
| "dump_items opts ((k, v) # d) = (dump_str (o_ascii opts) k @ o_ksep opts @ dump_val opts v) # dump_items opts d"

definition dumps :: "dump_opts \<Rightarrow> json \<Rightarrow> string" where
  "dumps opts j = dump_val opts (if o_sort opts then sort_json j else j)"

text \<open>With \<open>allow_nan=False\<close> a non-finite float anywhere raises \<open>ValueError\<close>.\<close>

fun json_finite :: "json \<Rightarrow> bool" and json_finite_list :: "json list \<Rightarrow> bool"
  and json_finite_items :: "(string \<times> json) list \<Rightarrow> bool" where
  "json_finite (JFloat f) = isfinite f"
| "json_finite (JArr xs) = json_finite_list xs"
| "json_finite (JObj d) = json_finite_items d"
| "json_finite _ = True"
| "json_finite_list [] = True"
| "json_finite_list (x # xs) = (json_finite x \<and> json_finite_list xs)"
| "json_finite_items [] = True"
| "json_finite_items ((k, v) # d) = (json_finite v \<and> json_finite_items d)"

definition dumps_finite :: "dump_opts \<Rightarrow> json \<Rightarrow> exn + string" where
  "dumps_finite opts j =
     (if json_finite j then Inr (dumps opts j)
      else Inl (ValueError ''Out of range float values are not JSON compliant''))"

text \<open>\<open>str.encode("utf-8")\<close>: a byte string is a \<open>string\<close> whose characters are the bytes.\<close>

definition utf8 :: "string \<Rightarrow> string" where
  "utf8 s = concat (map (\<lambda>c. let n = (of_char c :: nat) in
     if n < 128 then [c] else [char_of (192 + n div 64), char_of (128 + n mod 64)]) s)"

lemma utf8_ascii: "list_all (\<lambda>c. (of_char c :: nat) < 128) s \<Longrightarrow> utf8 s = s"
  by (induction s) (auto simp: utf8_def)

section \<open>Sorting keys does not change what a dictionary holds\<close>

lemma sort_items_map: "sort_items d = map (\<lambda>(k, v). (k, sort_json v)) d"
  by (induction d) auto

lemma map_fst_sort_items [simp]: "map fst (sort_items d) = map fst d"
  by (induction d) auto

lemma dget_perm:
  assumes "mset d = mset e" "distinct (map fst d)"
  shows "dget d k = dget e k"
proof -
  have "mset (map fst d) = mset (map fst e)" using assms(1) by (metis mset_map)
  then have "distinct (map fst e)" using assms(2) mset_eq_imp_distinct_iff by blast
  moreover have "set d = set e" using assms(1) by (rule mset_eq_setD)
  ultimately show ?thesis using assms(2) by (metis map_of_inject_set)
qed

lemma dget_sort_key: "distinct (map fst d) \<Longrightarrow> dget (sort_key fst d) k = dget d k"
  by (rule dget_perm [symmetric]) auto

lemma dget_sort_items: "dget (sort_items d) k = map_option sort_json (dget d k)"
  by (induction d) auto

lemma jget_sort_json:
  assumes "distinct (map fst d)"
  shows "jget (sort_json (JObj d)) k = sort_json (jget (JObj d) k)"
  using assms by (simp add: dget_or_null_def dget_sort_key dget_sort_items split: option.splits)

lemma sorted_sort_json: "sorted (map fst (obj_items (sort_json (JObj d))))"
  by simp

end
