(* ===== verification/Providers.thy ===== *)
theory Providers
  imports Json
begin

text \<open>
  The provider registry and the logical model routes of \<open>szl_router/core.py\<close>: the class
  \<open>Provider\<close> with its methods (the environment is an argument), the tables \<open>PROVIDERS\<close>,
  \<open>MODEL_ROUTES\<close> and \<open>EMBED_ROUTES\<close> with their entries in the source's order, the tier of a
  provider, and the resolution of a requested model to its routes. The lemmas say that every route
  names a registered provider, that each logical model lists the owned hardware first, and what a
  \<open>provider:model\<close> override resolves to.
\<close>

section \<open>Base URLs\<close>

text \<open>\<open>u.split("://", 1)[-1]\<close>\<close>

definition after_scheme :: "string \<Rightarrow> string" where
  "after_scheme u = (case find_sub ''://'' u of None \<Rightarrow> u | Some (_, rest) \<Rightarrow> rest)"

definition normalize_base :: "string \<Rightarrow> string" where
  "normalize_base url =
     (let u = rstrip_by (\<lambda>c. c = CHR ''/'') (strip url)
      in if u = [] then []
         else if CHR ''/'' \<notin> set (after_scheme u) then u @ ''/v1''
         else u)"

section \<open>Providers\<close>

record provider =
  p_name :: string
  base_url_env :: string
  base_url_default :: string
  key_env :: string
  p_sovereign :: bool
  p_energy_source :: string
  p_note :: string
  enable_env :: string

definition base_url :: "env \<Rightarrow> provider \<Rightarrow> string" where
  "base_url e p =
     (let v = (if base_url_env p = [] then [] else strip (env_get e (base_url_env p) []))
      in if v \<noteq> [] then normalize_base v
         else if base_url_default p \<noteq> [] then normalize_base (base_url_default p) else [])"

definition api_key :: "env \<Rightarrow> provider \<Rightarrow> string option" where
  "api_key e p =
     (if key_env p = [] then None
      else let k = strip (env_get e (key_env p) []) in if k = [] then None else Some k)"

definition available :: "env \<Rightarrow> provider \<Rightarrow> bool" where
  "available e p =
     (if enable_env p \<noteq> [] \<and>
         lower (env_get e (enable_env p) []) \<notin> {''1'', ''true'', ''yes'', ''on''} then False
      else if base_url e p = [] then False
      else if key_env p \<noteq> [] then api_key e p \<noteq> None
      else True)"

definition mk_provider ::
  "string \<Rightarrow> string \<Rightarrow> string \<Rightarrow> string \<Rightarrow> bool \<Rightarrow> string \<Rightarrow> string \<Rightarrow> string \<Rightarrow> provider" where
  "mk_provider n be bd ke sov es nt ee =
     \<lparr>p_name = n, base_url_env = be, base_url_default = bd, key_env = ke, p_sovereign = sov,
      p_energy_source = es, p_note = nt, enable_env = ee\<rparr>"

definition PROVIDERS :: "provider dict" where
  "PROVIDERS = [
    (''local_ollama'', mk_provider ''local_ollama'' [] ''http://127.0.0.1:11434/v1'' []
       True ''self-hosted'' ''Loopback Ollama; explicit local model, energy unmeasured.''
       ''SZL_LOCAL_OLLAMA_ENABLE''),
    (''box_gpu'', mk_provider ''box_gpu'' ''A11OY_MODEL_BASE_URL'' [] ''A11OY_GPU_TOKEN''
       True ''self-hosted'' ''Tailscale Ollama on our own GPU node.'' []),
    (''nvidia_gpu'', mk_provider ''nvidia_gpu'' ''NVIDIA_GPU_BASE_URL'' [] ''NVIDIA_GPU_TOKEN''
       True ''self-hosted''
       ''Founder's rented NVIDIA GPU (vLLM/NIM/Ollama). Set the two envs to arm.'' []),
    (''omen_gpu'', mk_provider ''omen_gpu'' ''OMEN_GPU_BASE_URL'' [] ''OMEN_GPU_TOKEN''
       True ''self-hosted''
       (''Always-on HOME node (OMEN RTX 4060 Ti 8GB) on the founder tailnet. '' @
        ''Set OMEN_GPU_BASE_URL=http://<omen-host>:11434/v1 to arm. Preferred '' @
        ''for low-latency small jobs + embeddings so the TRAVELING laptop is not '' @
        ''the sole worker. Each sovereign node is a SEPARATE worker '' @
        \<comment> \<open>an em dash in the source: the one character of the table above code point 255\<close>
        ''- placement + sequential failover only; VRAM is NEVER fused/combined.'') []),
    (''groq'', mk_provider ''groq'' ''GROQ_BASE_URL'' ''https://api.groq.com/openai/v1''
       ''GROQ_API_KEY'' False ''grid''
       ''Cloud inference candidate; model pricing and quota unverified.'' []),
    (''nvidia_nim'', mk_provider ''nvidia_nim'' ''NVIDIA_NIM_BASE_URL''
       ''https://integrate.api.nvidia.com/v1'' ''NVIDIA_NIM_API_KEY'' False ''grid''
       ''NVIDIA-hosted NIM catalog; model pricing and quota unverified.'' []),
    (''zhipu'', mk_provider ''zhipu'' ''ZHIPU_BASE_URL'' ''https://open.bigmodel.cn/api/paas/v4''
       ''ZHIPU_API_KEY'' False ''grid''
       ''GLM API candidate; model pricing, quota, and terms unverified.'' []),
    (''siliconflow'', mk_provider ''siliconflow'' ''SILICONFLOW_BASE_URL''
       ''https://api.siliconflow.com/v1'' ''SILICONFLOW_API_KEY'' False ''grid''
       ''Inference API candidate; model pricing, quota, and terms unverified.'' []),
    (''cerebras'', mk_provider ''cerebras'' ''CEREBRAS_BASE_URL'' ''https://api.cerebras.ai/v1''
       ''CEREBRAS_API_KEY'' False ''grid''
       ''Cloud inference candidate; model pricing and quota unverified.'' []),
    (''openrouter'', mk_provider ''openrouter'' ''OPENROUTER_BASE_URL''
       ''https://openrouter.ai/api/v1'' ''OPENROUTER_API_KEY'' False ''grid''
       ''Aggregator candidate; :free suffix does not qualify pricing or quota.'' []),
    (''google'', mk_provider ''google'' ''GEMINI_BASE_URL''
       ''https://generativelanguage.googleapis.com/v1beta/openai'' ''GEMINI_API_KEY'' False ''grid''
       ''Gemini API candidate; pricing, quota, terms, and data use unverified.'' []),
    (''moonshot'', mk_provider ''moonshot'' ''MOONSHOT_BASE_URL'' ''https://api.moonshot.ai/v1''
       ''KIMI_API_KEY'' False ''grid''
       ''Kimi paid cloud candidate; routing blocked until pricing and strict pre-call spend reservation are qualified.'' [])]"

definition tier_of :: "provider \<Rightarrow> string" where
  "tier_of p =
     (if p_sovereign p then ''sovereign''
      else if p_name p = ''moonshot'' then ''paid-grid''
      else ''unqualified-grid'')"

section \<open>Routes\<close>

type_synonym route = "string \<times> string"

definition MODEL_ROUTES :: "route list dict" where
  "MODEL_ROUTES = [
    (''szl-large'', [
      (''box_gpu'', ''llama3.1:8b''), (''nvidia_gpu'', ''llama3.1:8b''), (''omen_gpu'', ''llama3.1:8b''),
      (''groq'', ''deepseek-r1-distill-llama-70b''), (''nvidia_nim'', ''deepseek-ai/deepseek-r1''),
      (''cerebras'', ''gpt-oss-120b''), (''openrouter'', ''qwen/qwen3-next-80b-a3b-instruct:free''),
      (''google'', ''gemini-2.5-flash''), (''groq'', ''llama-3.3-70b-versatile''),
      (''nvidia_nim'', ''meta/llama-3.3-70b-instruct''), (''moonshot'', ''kimi-k2.5'')]),
    (''szl-fast'', [
      (''omen_gpu'', ''llama3.1:8b''), (''box_gpu'', ''llama3.1:8b''), (''nvidia_gpu'', ''llama3.1:8b''),
      (''cerebras'', ''gpt-oss-120b''), (''groq'', ''llama-3.1-8b-instant''),
      (''nvidia_nim'', ''meta/llama-3.1-8b-instruct''),
      (''openrouter'', ''meta-llama/llama-3.3-70b-instruct:free'')]),
    (''szl-coder'', [
      (''box_gpu'', ''qwen2.5-coder:7b''), (''nvidia_gpu'', ''qwen2.5-coder:7b''),
      (''omen_gpu'', ''qwen2.5-coder:7b''), (''groq'', ''deepseek-r1-distill-llama-70b''),
      (''openrouter'', ''qwen/qwen3-next-80b-a3b-instruct:free''),
      (''nvidia_nim'', ''deepseek-ai/deepseek-coder-6.7b-instruct''),
      (''groq'', ''llama-3.3-70b-versatile'')])]"

definition EMBED_ROUTES :: "route list dict" where
  "EMBED_ROUTES = [
    (''bge-large'', [(''omen_gpu'', ''bge-large''), (''box_gpu'', ''bge-large''),
                     (''nvidia_gpu'', ''bge-large'')])]"

definition DEFAULT_MODEL :: string where
  "DEFAULT_MODEL = ''szl-large''"

text \<open>
  \<open>default_routes\<close> is the table entry for the default model; both lookups below fall back to an
  entry that exists, so Python's \<open>KeyError\<close> cannot happen (\<open>default_route_exists\<close>).
\<close>

definition table_routes :: "route list dict \<Rightarrow> string \<Rightarrow> route list" where
  "table_routes t k = (case dget t k of None \<Rightarrow> [] | Some r \<Rightarrow> r)"

definition resolve_routes :: "string \<Rightarrow> route list" where
  "resolve_routes model =
     (if has_key MODEL_ROUTES model then table_routes MODEL_ROUTES model
      else let (prov, colon, up) = partition_at (CHR '':'') model
           in if colon \<and> has_key PROVIDERS prov then [(prov, up)]
              else table_routes MODEL_ROUTES DEFAULT_MODEL)"

definition resolve_embed_routes :: "string \<Rightarrow> route list" where
  "resolve_embed_routes model =
     (if has_key EMBED_ROUTES model then table_routes EMBED_ROUTES model
      else let (prov, colon, up) = partition_at (CHR '':'') model
           in if colon \<and> has_key PROVIDERS prov then [(prov, up)]
              else table_routes EMBED_ROUTES ''bge-large'')"

section \<open>\<open>status()\<close>\<close>

definition routes_json :: "route list \<Rightarrow> json" where
  "routes_json rs = JArr (map (\<lambda>(p, m). JArr [JStr p, JStr m]) rs)"

definition or_null :: "string \<Rightarrow> json" where
  "or_null s = (if s = [] then JNull else JStr s)"

definition status_row :: "env \<Rightarrow> string \<times> provider \<Rightarrow> json" where
  "status_row e np = (let (name, p) = np in JObj [
     (''provider'', JStr name),
     (''available'', JBool (available e p)),
     (''sovereign'', JBool (p_sovereign p)),
     (''tier'', JStr (tier_of p)),
     (''energy_source'', JStr (p_energy_source p)),
     (''base_url'', or_null (base_url e p)),
     (''needs_key'', JBool (key_env p \<noteq> [])),
     (''note'', JStr (p_note p))])"

definition core_status :: "env \<Rightarrow> json" where
  "core_status e = JObj [
     (''providers'', JArr (map (status_row e) PROVIDERS)),
     (''logical_models'', JObj (map (\<lambda>(k, v). (k, routes_json v)) MODEL_ROUTES)),
     (''embed_models'', JObj (map (\<lambda>(k, v). (k, routes_json v)) EMBED_ROUTES)),
     (''default_model'', JStr DEFAULT_MODEL)]"

section \<open>Facts about the registry\<close>

definition sovereign_name :: "string \<Rightarrow> bool" where
  "sovereign_name n = (case dget PROVIDERS n of None \<Rightarrow> False | Some p \<Rightarrow> tier_of p = ''sovereign'')"

lemma tier_sovereign_iff [simp]: "tier_of p = ''sovereign'' \<longleftrightarrow> p_sovereign p"
  by (simp add: tier_of_def)

lemma providers_names: "(n, p) \<in> set PROVIDERS \<Longrightarrow> p_name p = n"
  by (auto simp: PROVIDERS_def mk_provider_def)

lemma dget_providers_name: "dget PROVIDERS n = Some p \<Longrightarrow> p_name p = n"
  by (rule providers_names) (rule map_of_SomeD)

lemma distinct_providers: "distinct (map fst PROVIDERS)"
  by (simp add: PROVIDERS_def)

lemma sovereign_names:
  "sovereign_name n \<longleftrightarrow> n \<in> {''local_ollama'', ''box_gpu'', ''nvidia_gpu'', ''omen_gpu''}"
  by (simp add: sovereign_name_def PROVIDERS_def mk_provider_def tier_of_def)

lemma default_route_exists: "has_key MODEL_ROUTES DEFAULT_MODEL"
  by (simp add: MODEL_ROUTES_def DEFAULT_MODEL_def)

lemma table_routes_in: "table_routes t k \<noteq> [] \<Longrightarrow> (k, table_routes t k) \<in> set t"
  by (auto simp: table_routes_def split: option.splits dest: map_of_SomeD)

lemma logical_route_providers:
  "(k, rs) \<in> set MODEL_ROUTES \<or> (k, rs) \<in> set EMBED_ROUTES \<Longrightarrow> r \<in> set rs \<Longrightarrow> has_key PROVIDERS (fst r)"
  by (auto simp: MODEL_ROUTES_def EMBED_ROUTES_def PROVIDERS_def)

lemma logical_routes_nonempty: "has_key MODEL_ROUTES m \<Longrightarrow> table_routes MODEL_ROUTES m \<noteq> []"
  by (auto simp: MODEL_ROUTES_def table_routes_def)

lemma embed_routes_nonempty: "has_key EMBED_ROUTES m \<Longrightarrow> table_routes EMBED_ROUTES m \<noteq> []"
  by (auto simp: EMBED_ROUTES_def table_routes_def)

lemma default_routes: "table_routes MODEL_ROUTES DEFAULT_MODEL \<noteq> []"
  by (rule logical_routes_nonempty) (rule default_route_exists)

lemma default_embed_routes: "table_routes EMBED_ROUTES ''bge-large'' \<noteq> []"
  by (simp add: EMBED_ROUTES_def table_routes_def)

lemma resolve_routes_registered:
  assumes "r \<in> set (resolve_routes m)"
  shows "has_key PROVIDERS (fst r)"
proof -
  have tab: "\<And>k. r \<in> set (table_routes MODEL_ROUTES k) \<Longrightarrow> has_key PROVIDERS (fst r)"
    using table_routes_in logical_route_providers by (metis empty_iff empty_set)
  obtain prov colon up where "partition_at (CHR '':'') m = (prov, colon, up)"
    by (metis prod_cases3)
  with assms tab show ?thesis
    by (auto simp: resolve_routes_def split: if_splits)
qed

lemma resolve_embed_routes_registered:
  assumes "r \<in> set (resolve_embed_routes m)"
  shows "has_key PROVIDERS (fst r)"
proof -
  have tab: "\<And>k. r \<in> set (table_routes EMBED_ROUTES k) \<Longrightarrow> has_key PROVIDERS (fst r)"
    using table_routes_in logical_route_providers by (metis empty_iff empty_set)
  obtain prov colon up where "partition_at (CHR '':'') m = (prov, colon, up)"
    by (metis prod_cases3)
  with assms tab show ?thesis
    by (auto simp: resolve_embed_routes_def split: if_splits)
qed

lemma resolve_routes_nonempty: "resolve_routes m \<noteq> []"
  using logical_routes_nonempty default_routes
  by (auto simp: resolve_routes_def split: prod.splits)

lemma resolve_embed_routes_nonempty: "resolve_embed_routes m \<noteq> []"
  using embed_routes_nonempty default_embed_routes
  by (auto simp: resolve_embed_routes_def split: prod.splits)

lemma sovereign_before:
  "sorted_wrt (\<lambda>r r'. sovereign_name (fst r') \<longrightarrow> sovereign_name (fst r)) (resolve_routes m)"
proof -
  have "list_all (\<lambda>(k, rs). sorted_wrt (\<lambda>r r'. sovereign_name (fst r') \<longrightarrow> sovereign_name (fst r)) rs)
      MODEL_ROUTES"
    by (simp add: MODEL_ROUTES_def sovereign_names)
  then have tab: "\<And>k. sorted_wrt (\<lambda>r r'. sovereign_name (fst r') \<longrightarrow> sovereign_name (fst r))
      (table_routes MODEL_ROUTES k)"
    by (metis (mono_tags, lifting) case_prodD list_all_iff sorted_wrt.simps(1) table_routes_in)
  show ?thesis
    by (auto simp: resolve_routes_def tab split: prod.splits)
qed

lemma sorted_split:
  assumes "sorted_wrt (\<lambda>x y. P y \<longrightarrow> P x) xs"
  shows "\<exists>us vs. xs = us @ vs \<and> list_all P us \<and> list_all (Not \<circ> P) vs"
proof (intro exI conjI)
  show "xs = takeWhile P xs @ dropWhile P xs" by simp
  show "list_all P (takeWhile P xs)" by (auto simp: list_all_iff dest: set_takeWhileD)
  have "sorted_wrt (\<lambda>x y. P y \<longrightarrow> P x) (dropWhile P xs)"
    using assms by (metis sorted_wrt_append takeWhile_dropWhile_id)
  then show "list_all (Not \<circ> P) (dropWhile P xs)"
  proof (cases "dropWhile P xs")
    case Nil
    then show ?thesis unfolding Nil by simp
  next
    case (Cons y ys)
    then have "\<not> P y" by (simp add: dropWhile_eq_Cons_conv)
    with Cons \<open>sorted_wrt _ (dropWhile P xs)\<close> show ?thesis by (auto simp: list_all_iff)
  qed
qed

text \<open>
  Sovereign first: whatever a requested model resolves to is a non-empty list of owned-hardware
  routes followed by third-party routes, with none of the first kind after one of the second.
\<close>

theorem sovereign_first:
  "resolve_routes m \<noteq> [] \<and> (\<exists>owned grid. resolve_routes m = owned @ grid
     \<and> list_all (sovereign_name \<circ> fst) owned \<and> list_all (Not \<circ> sovereign_name \<circ> fst) grid)"
  using sorted_split [of "sovereign_name \<circ> fst" "resolve_routes m"] sovereign_before [of m]
  by (simp add: resolve_routes_nonempty comp_assoc)

section \<open>Facts about base URLs\<close>

lemma rstrip_last: "rstrip_by P s \<noteq> [] \<Longrightarrow> \<not> P (last (rstrip_by P s))"
  by (simp add: rstrip_by_def last_rev hd_dropWhile)

lemma find_sub_Some: "find_sub p s = Some (a, b) \<Longrightarrow> s = a @ p @ b"
proof (induction s arbitrary: a)
  case Nil
  then show ?case by (simp split: if_splits)
next
  case (Cons c s)
  show ?case
  proof (cases "startswith p (c # s)")
    case True
    with Cons.prems have "a = []" "b = drop (length p) (c # s)" by simp_all
    with True show ?thesis
      unfolding startswith_def by (metis append_Nil append_take_drop_id)
  next
    case False
    with Cons.prems obtain a' where "find_sub p s = Some (a', b)" "a = c # a'"
      by auto
    with Cons.IH show ?thesis by simp
  qed
qed

lemma normalize_base_nonslash:
  "normalize_base u \<noteq> [] \<Longrightarrow> last (normalize_base u) \<noteq> CHR ''/''"
  using rstrip_last [of "\<lambda>c. c = CHR ''/''" "strip u"]
  by (auto simp: normalize_base_def Let_def)

lemma base_url_nonslash: "base_url e p \<noteq> [] \<Longrightarrow> last (base_url e p) \<noteq> CHR ''/''"
  using normalize_base_nonslash by (auto simp: base_url_def Let_def split: if_splits)

lemma available_base_url: "available e p \<Longrightarrow> base_url e p \<noteq> []"
  by (auto simp: available_def split: if_splits)

end
