(* ===== verification/World.thy ===== *)
theory World
  imports Providers
begin

text \<open>
  The state the gateway's request path reads and writes.

  \<open>sys\<close> is what one call cannot change: the environment, the constants read from it at import
  time, and the environment's answers: the \<open>k\<close>-th reading of \<open>time.time()\<close>, the \<open>k\<close>-th random
  draw, the reply to the \<open>k\<close>-th request put on a wire, \<open>json.loads\<close> on bytes and
  \<open>bytes.decode("utf-8")\<close>. Nothing is assumed of these functions.

  \<open>world\<close> is the module-level state of \<open>szl_router/core.py\<close> (idle connections, cooldowns, the
  embeddings cache, the request-budget context variable) together with logs of the effects: every
  request written to a connection (\<open>w_wire\<close>), every sleep, every connection closed, every receipt
  handed to the sink.
\<close>

section \<open>The wire\<close>

record conn =
  c_id :: nat
  c_tls :: bool
  c_host :: string
  c_port :: nat
  c_timeout :: json

record wire_req =
  q_conn :: nat
  q_tls :: bool
  q_host :: string
  q_port :: nat
  q_path :: string
  q_body :: string
  q_headers :: "string dict"
  q_timeout :: json

record resp =
  r_status :: int
  r_reason :: string
  r_version :: nat
  r_headers :: "string dict"
  r_body :: "exn + string"    \<comment> \<open>\<open>resp.read()\<close>, which can raise\<close>

text \<open>\<open>conn.request(...)\<close> followed by \<open>conn.getresponse()\<close>.\<close>

datatype wire_res = WFail exn | WResp resp

section \<open>Attempts\<close>

record attempt =
  at_provider :: string
  at_model :: string
  at_ok :: bool
  at_status :: "int option"
  at_error :: "string option"
  at_latency :: "int option"

definition mk_attempt ::
  "string \<Rightarrow> string \<Rightarrow> bool \<Rightarrow> int option \<Rightarrow> string option \<Rightarrow> int option \<Rightarrow> attempt" where
  "mk_attempt pr m ok st er lat =
     \<lparr>at_provider = pr, at_model = m, at_ok = ok, at_status = st, at_error = er, at_latency = lat\<rparr>"

lemma mk_attempt_simps [simp]:
  "at_provider (mk_attempt pr m ok st er lat) = pr"
  "at_model (mk_attempt pr m ok st er lat) = m"
  "at_ok (mk_attempt pr m ok st er lat) = ok"
  "at_status (mk_attempt pr m ok st er lat) = st"
  "at_error (mk_attempt pr m ok st er lat) = er"
  "at_latency (mk_attempt pr m ok st er lat) = lat"
  by (simp_all add: mk_attempt_def)

text \<open>\<open>a.__dict__\<close>\<close>

definition attempt_json :: "attempt \<Rightarrow> json" where
  "attempt_json a = JObj [
     (''provider'', JStr (at_provider a)), (''upstream_model'', JStr (at_model a)),
     (''ok'', JBool (at_ok a)), (''status'', opt_int (at_status a)),
     (''error'', opt_str (at_error a)), (''latency_ms'', opt_int (at_latency a))]"

section \<open>The fixed part\<close>

record sys =
  s_env :: env
  s_loads :: "string \<Rightarrow> exn + json"
  s_decode :: "string \<Rightarrow> string option"
  s_float :: "string \<Rightarrow> pyfloat option"   \<comment> \<open>\<open>float(s)\<close>, \<open>None\<close> for \<open>ValueError\<close>\<close>
  s_frepr :: "rat \<Rightarrow> string"
  s_time :: "nat \<Rightarrow> rat"
  s_unif :: "nat \<Rightarrow> rat"                \<comment> \<open>the draw of \<open>random.uniform\<close>, as a share of the range\<close>
  s_net :: "nat \<Rightarrow> wire_req \<Rightarrow> wire_res"
  s_retry_max :: int                    \<comment> \<open>\<open>_RETRY_MAX_ATTEMPTS\<close>\<close>
  s_retry_base :: rat                   \<comment> \<open>\<open>_RETRY_BASE_DELAY\<close>\<close>
  s_retry_cap :: rat                    \<comment> \<open>\<open>_RETRY_MAX_DELAY\<close>\<close>
  s_embed_ttl :: rat                    \<comment> \<open>\<open>_EMBED_CACHE_TTL\<close>\<close>
  s_embed_max :: int                    \<comment> \<open>\<open>_EMBED_CACHE_MAX\<close>\<close>
  s_scope_key :: string                 \<comment> \<open>\<open>_EMBED_CACHE_SCOPE_KEY\<close>, random bytes\<close>

section \<open>The changing part\<close>

type_synonym pool_key = "string \<times> string \<times> nat"

record world =
  w_tick :: nat                          \<comment> \<open>readings of \<open>time.time()\<close> so far\<close>
  w_draws :: nat
  w_slept :: "rat list"
  w_wire :: "wire_req list"              \<comment> \<open>every request sent, oldest first\<close>
  w_idle :: "(pool_key \<times> conn list) list"  \<comment> \<open>\<open>_ConnectionPool._idle\<close>\<close>
  w_next :: nat                          \<comment> \<open>connections created so far\<close>
  w_closed :: "nat list"
  w_budgeted :: bool                     \<comment> \<open>\<open>_REQUEST_BUDGET.get() is not None\<close>\<close>
  w_cool :: "pyfloat dict"                 \<comment> \<open>\<open>_COOLDOWN_UNTIL\<close>\<close>
  w_ecache :: "(rat \<times> json) dict"        \<comment> \<open>\<open>_EMBED_CACHE\<close>\<close>
  w_sink :: "(string \<times> json) list"      \<comment> \<open>receipts handed to the sink thread, with the URL\<close>

definition read_time :: "sys \<Rightarrow> world \<Rightarrow> rat \<times> world" where
  "read_time s w = (s_time s (w_tick w), w\<lparr>w_tick := Suc (w_tick w)\<rparr>)"

definition time_sleep :: "rat \<Rightarrow> world \<Rightarrow> world" where
  "time_sleep d w = w\<lparr>w_slept := w_slept w @ [d]\<rparr>"

lemma read_time_frame [frame]:
  "read_time s w = (t, w') \<Longrightarrow> w_wire w' = w_wire w"
  "read_time s w = (t, w') \<Longrightarrow> w_idle w' = w_idle w"
  "read_time s w = (t, w') \<Longrightarrow> w_next w' = w_next w"
  "read_time s w = (t, w') \<Longrightarrow> w_closed w' = w_closed w"
  "read_time s w = (t, w') \<Longrightarrow> w_budgeted w' = w_budgeted w"
  "read_time s w = (t, w') \<Longrightarrow> w_cool w' = w_cool w"
  "read_time s w = (t, w') \<Longrightarrow> w_ecache w' = w_ecache w"
  "read_time s w = (t, w') \<Longrightarrow> w_sink w' = w_sink w"
  by (auto simp: read_time_def)

end
