(* ===== verification/Pool.thy ===== *)
theory Pool
  imports World
begin

text \<open>
  The keep-alive connection pool of \<open>szl_router/core.py\<close> (class \<open>_ConnectionPool\<close>): \<open>checkout\<close>,
  \<open>release\<close> and \<open>request_json\<close>, over the idle map of the world. A bucket is a Python list whose
  last element is popped first. The lock makes \<open>checkout\<close> and \<open>release\<close> atomic, so each is one
  function on the world.

  The lemmas: the pool stays within its two bounds and never files one connection twice
  (\<open>pool_ok\<close>); one call puts at most two requests on the wire, and at most one while a request
  budget is active; a request that ends with a parsed body leaves no closed connection in the
  pool, and one whose body does not parse can.
\<close>

definition POOL_MAX_PER_HOST :: nat where "POOL_MAX_PER_HOST = 4"
definition POOL_MAX_HOSTS :: nat where "POOL_MAX_HOSTS = 16"

section \<open>Operations\<close>

definition new_conn :: "string \<Rightarrow> string \<Rightarrow> nat \<Rightarrow> json \<Rightarrow> world \<Rightarrow> conn \<times> world" where
  "new_conn scheme host port tmo w =
     (\<lparr>c_id = w_next w, c_tls = (scheme = ''https''), c_host = host, c_port = port, c_timeout = tmo\<rparr>,
      w\<lparr>w_next := Suc (w_next w)\<rparr>)"

definition close_conn :: "conn \<Rightarrow> world \<Rightarrow> world" where
  "close_conn c w = w\<lparr>w_closed := c_id c # w_closed w\<rparr>"

definition checkout :: "string \<Rightarrow> string \<Rightarrow> nat \<Rightarrow> json \<Rightarrow> world \<Rightarrow> conn \<times> world" where
  "checkout scheme host port tmo w =
     (let key = (scheme, host, port) in
      case map_of (w_idle w) key of
        Some (c # cs) \<Rightarrow>
          ((last (c # cs))\<lparr>c_timeout := tmo\<rparr>,
           w\<lparr>w_idle := AList.update key (butlast (c # cs)) (w_idle w)\<rparr>)
      | _ \<Rightarrow> new_conn scheme host port tmo w)"

definition release :: "string \<Rightarrow> string \<Rightarrow> nat \<Rightarrow> conn \<Rightarrow> world \<Rightarrow> world" where
  "release scheme host port c w =
     (let key = (scheme, host, port) in
      if map_of (w_idle w) key = None \<and> POOL_MAX_HOSTS \<le> length (w_idle w)
      then close_conn c w
      else let bucket = (case map_of (w_idle w) key of None \<Rightarrow> [] | Some b \<Rightarrow> b);
               w' = w\<lparr>w_idle := AList.update key bucket (w_idle w)\<rparr>  \<comment> \<open>\<open>setdefault\<close>\<close>
           in if POOL_MAX_PER_HOST \<le> length bucket then close_conn c w'
              else w'\<lparr>w_idle := AList.update key (bucket @ [c]) (w_idle w')\<rparr>)"

definition header_values :: "string dict \<Rightarrow> string \<Rightarrow> string list" where
  "header_values hs name = map snd (filter (\<lambda>(k, _). lower k = lower name) hs)"

definition getheader :: "string dict \<Rightarrow> string \<Rightarrow> string" where
  "getheader hs name = join '', '' (header_values hs name)"

definition can_keep_alive :: "resp \<Rightarrow> bool" where
  "can_keep_alive r =
     (let conn_hdr = lower (getheader (r_headers r) ''Connection'') in
      if str_in ''close'' conn_hdr then False
      else if r_version r = 10 \<and> \<not> str_in ''keep-alive'' conn_hdr then False
      else True)"

definition wire_send :: "sys \<Rightarrow> conn \<Rightarrow> string \<Rightarrow> string \<Rightarrow> string dict \<Rightarrow> world \<Rightarrow> wire_res \<times> world" where
  "wire_send s c path data headers w =
     (let q = \<lparr>q_conn = c_id c, q_tls = c_tls c, q_host = c_host c, q_port = c_port c,
               q_path = path, q_body = data, q_headers = headers, q_timeout = c_timeout c\<rparr>
      in (s_net s (length (w_wire w)) q, w\<lparr>w_wire := w_wire w @ [q]\<rparr>))"

text \<open>\<open>except (http.client.HTTPException, OSError)\<close>; \<open>HTTPError\<close> is an \<open>OSError\<close>.\<close>

fun is_transport :: "exn \<Rightarrow> bool" where
  "is_transport (ConnError _ _) = True"
| "is_transport (HTTPError _ _ _) = True"
| "is_transport _ = False"

text \<open>The outer handlers: an \<open>HTTPError\<close> passes, anything else closes the connection first.\<close>

definition outer_raise :: "exn \<Rightarrow> conn \<Rightarrow> world \<Rightarrow> (exn + json) \<times> world" where
  "outer_raise e c w = (Inl e, case e of HTTPError _ _ _ \<Rightarrow> w | _ \<Rightarrow> close_conn c w)"

text \<open>The part of \<open>request_json\<close> after a response has arrived on connection \<open>c\<close>.\<close>

definition read_response ::
  "sys \<Rightarrow> string \<Rightarrow> string \<Rightarrow> nat \<Rightarrow> conn \<Rightarrow> resp \<Rightarrow> world \<Rightarrow> (exn + json) \<times> world" where
  "read_response s scheme host port c r w =
     (case r_body r of
        Inl e \<Rightarrow> outer_raise e c w
      | Inr body \<Rightarrow>
          if 400 \<le> r_status r
          then (Inl (HTTPError (r_status r) (r_reason r) body), close_conn c w)
          else
            let w' = (if can_keep_alive r then release scheme host port c w else close_conn c w)
            in case s_loads s body of
                 Inl e \<Rightarrow> outer_raise e c w'
               | Inr v \<Rightarrow> (Inr v, w'))"

text \<open>The first send failed: give up under a budget, otherwise one fresh connection.\<close>

definition resend ::
  "sys \<Rightarrow> string \<Rightarrow> string \<Rightarrow> nat \<Rightarrow> string \<Rightarrow> string \<Rightarrow> string dict \<Rightarrow> json \<Rightarrow> exn \<Rightarrow> conn
     \<Rightarrow> world \<Rightarrow> (exn + json) \<times> world" where
  "resend s scheme host port path data headers tmo e c w0 =
     (let w1 = close_conn c w0 in
      if w_budgeted w1 then outer_raise e c w1
      else let (c', w2) = new_conn scheme host port tmo w1;
               (res, w3) = wire_send s c' path data headers w2
           in case res of
                WFail e' \<Rightarrow> outer_raise e' c' w3
              | WResp r \<Rightarrow> read_response s scheme host port c' r w3)"

text \<open>Scheme, host, port and request target of a URL.\<close>

definition request_target :: "string \<Rightarrow> exn + string \<times> string \<times> nat \<times> string" where
  "request_target the_url =
     bindE (urlsplit the_url) (\<lambda>u.
     bindE (u_port u) (\<lambda>p.
       let scheme = u_scheme u;
           fallback = (if scheme = ''https'' then 443 else 80)
       in Inr (scheme,
               case u_hostname u of None \<Rightarrow> [] | Some h \<Rightarrow> h,
               case p of None \<Rightarrow> fallback | Some n \<Rightarrow> if n = 0 then fallback else n,
               (if u_path u = [] then ''/'' else u_path u)
                 @ (if u_query u = [] then [] else ''?'' @ u_query u))))"

definition dispatch ::
  "sys \<Rightarrow> string \<Rightarrow> string \<Rightarrow> nat \<Rightarrow> string \<Rightarrow> string \<Rightarrow> string dict \<Rightarrow> json \<Rightarrow> world
     \<Rightarrow> (exn + json) \<times> world" where
  "dispatch s scheme host port path data headers tmo w =
     (let (c, w1) = checkout scheme host port tmo w;
          (res, w2) = wire_send s c path data headers w1
      in case res of
           WFail e \<Rightarrow>
             if is_transport e then resend s scheme host port path data headers tmo e c w2
             else outer_raise e c w2
         | WResp r \<Rightarrow> read_response s scheme host port c r w2)"

definition request_json ::
  "sys \<Rightarrow> string \<Rightarrow> string \<Rightarrow> string dict \<Rightarrow> json \<Rightarrow> world \<Rightarrow> (exn + json) \<times> world" where
  "request_json s the_url data headers tmo w =
     (case request_target the_url of
        Inl e \<Rightarrow> (Inl e, w)
      | Inr (scheme, host, port, path) \<Rightarrow> dispatch s scheme host port path data headers tmo w)"

section \<open>The pool's invariant\<close>

definition idle_ids :: "world \<Rightarrow> nat list" where
  "idle_ids w = map c_id (concat (map snd (w_idle w)))"

text \<open>
  The bounds of the two limits, no connection filed twice, and every connection that is idle or
  closed has been created.
\<close>

definition pool_ok :: "world \<Rightarrow> bool" where
  "pool_ok w \<longleftrightarrow> distinct (map fst (w_idle w)) \<and> length (w_idle w) \<le> POOL_MAX_HOSTS
     \<and> list_all (\<lambda>(k, b). length b \<le> POOL_MAX_PER_HOST) (w_idle w)
     \<and> distinct (idle_ids w)
     \<and> (\<forall>i \<in> set (idle_ids w) \<union> set (w_closed w). i < w_next w)"

text \<open>No idle connection has been closed.\<close>

definition pool_clean :: "world \<Rightarrow> bool" where
  "pool_clean w \<longleftrightarrow> set (idle_ids w) \<inter> set (w_closed w) = {}"

text \<open>A connection in a caller's hands: created and not filed as idle; open if not closed.\<close>

definition in_hand :: "conn \<Rightarrow> world \<Rightarrow> bool" where
  "in_hand c w \<longleftrightarrow> c_id c < w_next w \<and> c_id c \<notin> set (idle_ids w)"

definition open_hand :: "conn \<Rightarrow> world \<Rightarrow> bool" where
  "open_hand c w \<longleftrightarrow> in_hand c w \<and> c_id c \<notin> set (w_closed w)"

lemma idle_ids_frame [simp]:
  "idle_ids (w\<lparr>w_next := n\<rparr>) = idle_ids w" "idle_ids (w\<lparr>w_closed := l\<rparr>) = idle_ids w"
  "idle_ids (w\<lparr>w_wire := q\<rparr>) = idle_ids w"
  by (simp_all add: idle_ids_def)

lemma idle_ids_mset: "mset (idle_ids w) = image_mset c_id (mset (concat (map snd (w_idle w))))"
  by (simp only: idle_ids_def mset_map)

lemma mset_concat_update:
  "distinct (map fst d) \<Longrightarrow>
   mset (concat (map snd (AList.update k b d))) + mset (case map_of d k of None \<Rightarrow> [] | Some b0 \<Rightarrow> b0)
     = mset (concat (map snd d)) + mset b"
proof (induction d)
  case Nil
  then show ?case by simp
next
  case (Cons p d)
  then show ?case
    by (cases p) (auto simp: map_of_eq_None_iff ac_simps split: option.splits)
qed

lemma list_all_update:
  "list_all P d \<Longrightarrow> P (k, b) \<Longrightarrow> list_all P (AList.update k b d)"
  by (induction d) auto

lemma length_update_le:
  "length (AList.update k b d) = (if map_of d k = None then Suc (length d) else length d)"
  by (induction d) (auto split: if_splits)

lemma map_of_list_all: "list_all P d \<Longrightarrow> map_of d k = Some b \<Longrightarrow> P (k, b)"
  by (auto simp: list_all_iff dest: map_of_SomeD)

lemma checkout_cases:
  assumes "checkout scheme host port tmo w = (c, w')"
  obtains (reused) cs d where "map_of (w_idle w) (scheme, host, port) = Some (cs @ [d])"
      "c = d\<lparr>c_timeout := tmo\<rparr>"
      "w' = w\<lparr>w_idle := AList.update (scheme, host, port) cs (w_idle w)\<rparr>"
    | (fresh) "new_conn scheme host port tmo w = (c, w')"
proof (cases "map_of (w_idle w) (scheme, host, port)")
  case None
  with assms fresh show ?thesis by (simp add: checkout_def)
next
  case (Some b)
  show ?thesis
  proof (cases b)
    case Nil
    with Some assms fresh show ?thesis by (simp add: checkout_def)
  next
    case (Cons x xs)
    then have "b \<noteq> []" by simp
    have "c = (last b)\<lparr>c_timeout := tmo\<rparr>"
      "w' = w\<lparr>w_idle := AList.update (scheme, host, port) (butlast b) (w_idle w)\<rparr>"
      using assms Some Cons by (auto simp: checkout_def)
    moreover have "map_of (w_idle w) (scheme, host, port) = Some (butlast b @ [last b])"
      using Some \<open>b \<noteq> []\<close> by simp
    ultimately show ?thesis by (rule reused [rotated])
  qed
qed

lemma new_conn_ok:
  assumes "pool_ok w" "new_conn scheme host port tmo w = (c, w')"
  shows "pool_ok w'" "open_hand c w'" "pool_clean w' = pool_clean w"
  using assms
  by (auto simp: new_conn_def pool_ok_def open_hand_def in_hand_def pool_clean_def less_Suc_eq)

lemma close_conn_ok:
  assumes "pool_ok w" "in_hand c w"
  shows "pool_ok (close_conn c w)" "in_hand c (close_conn c w)"
    "pool_clean (close_conn c w) = pool_clean w"
  using assms by (auto simp: close_conn_def pool_ok_def in_hand_def pool_clean_def)

lemma checkout_ok:
  assumes "pool_ok w" "checkout scheme host port tmo w = (c, w')"
  shows "pool_ok w' \<and> in_hand c w' \<and> (pool_clean w \<longrightarrow> pool_clean w' \<and> open_hand c w')"
  using assms(2)
proof (cases rule: checkout_cases)
  case (reused cs d)
  let ?k = "(scheme, host, port)"
  have dist: "distinct (map fst (w_idle w))" using assms(1) by (simp add: pool_ok_def)
  have "mset (concat (map snd (w_idle w')))  + mset (cs @ [d]) = mset (concat (map snd (w_idle w))) + mset cs"
    using mset_concat_update [OF dist, of ?k cs] reused by simp
  then have conns: "mset (concat (map snd (w_idle w))) = add_mset d (mset (concat (map snd (w_idle w'))))"
    by simp
  then have ids: "mset (idle_ids w) = add_mset (c_id c) (mset (idle_ids w'))"
    using reused(2) by (simp only: idle_ids_mset conns) simp
  then have set_ids: "set (idle_ids w) = insert (c_id c) (set (idle_ids w'))"
    by (metis set_mset_add_mset_insert set_mset_mset)
  have "distinct (c_id c # idle_ids w')"
    using ids assms(1) mset_eq_imp_distinct_iff [of "idle_ids w" "c_id c # idle_ids w'"]
    by (simp add: pool_ok_def)
  moreover have "length cs \<le> POOL_MAX_PER_HOST"
    using assms(1) map_of_list_all [OF _ reused(1)] by (fastforce simp: pool_ok_def)
  then have "list_all (\<lambda>(k, b). length b \<le> POOL_MAX_PER_HOST) (w_idle w')"
    using assms(1) reused(3) by (auto simp: pool_ok_def intro: list_all_update)
  ultimately show ?thesis
    using assms(1) reused set_ids
    by (auto simp: pool_ok_def in_hand_def open_hand_def pool_clean_def length_update_le
        intro: distinct_update)
next
  case fresh
  with assms(1) new_conn_ok show ?thesis by (auto simp: open_hand_def)
qed

lemma release_ok:
  assumes "pool_ok w" "in_hand c w"
  shows "pool_ok (release scheme host port c w)
    \<and> (pool_clean w \<and> open_hand c w \<longrightarrow> pool_clean (release scheme host port c w))"
proof -
  let ?k = "(scheme, host, port)"
  let ?b = "case map_of (w_idle w) ?k of None \<Rightarrow> [] | Some b \<Rightarrow> b"
  let ?full = "map_of (w_idle w) ?k = None \<and> POOL_MAX_HOSTS \<le> length (w_idle w)"
  have dist: "distinct (map fst (w_idle w))" using assms(1) by (simp add: pool_ok_def)
  have upd: "AList.update ?k b' (AList.update ?k ?b (w_idle w)) = AList.update ?k b' (w_idle w)" for b'
    by (induction "w_idle w") auto
  define w1 where "w1 = w\<lparr>w_idle := AList.update ?k ?b (w_idle w)\<rparr>"
  define w2 where "w2 = w\<lparr>w_idle := AList.update ?k (?b @ [c]) (w_idle w)\<rparr>"
  have ids1: "mset (idle_ids w1) = mset (idle_ids w)"
    using mset_concat_update [OF dist, of ?k ?b] by (simp only: w1_def idle_ids_mset) simp
  have "mset (concat (map snd (w_idle w2))) = add_mset c (mset (concat (map snd (w_idle w))))"
    using mset_concat_update [OF dist, of ?k "?b @ [c]"] by (simp add: w2_def)
  then have ids2: "mset (idle_ids w2) = add_mset (c_id c) (mset (idle_ids w))"
    by (simp only: idle_ids_mset) simp
  have set1: "set (idle_ids w1) = set (idle_ids w)" "distinct (idle_ids w1) = distinct (idle_ids w)"
    by (rule mset_eq_setD [OF ids1]) (rule mset_eq_imp_distinct_iff [OF ids1])
  have set2: "set (idle_ids w2) = insert (c_id c) (set (idle_ids w))"
    by (metis ids2 set_mset_add_mset_insert set_mset_mset)
  have dist2: "distinct (idle_ids w2) = distinct (c_id c # idle_ids w)"
    using ids2 by (intro mset_eq_imp_distinct_iff) simp
  have rel: "release scheme host port c w =
      (if ?full then close_conn c w else if POOL_MAX_PER_HOST \<le> length ?b then close_conn c w1 else w2)"
    by (simp add: release_def Let_def w1_def w2_def upd)
  show ?thesis
  proof (cases ?full)
    case True
    with rel close_conn_ok [OF assms] show ?thesis by simp
  next
    case False
    have bnd: "length ?b \<le> POOL_MAX_PER_HOST"
      using assms(1) map_of_list_all by (fastforce simp: pool_ok_def split: option.splits)
    have ok1: "pool_ok w1"
      using assms(1) False bnd set1
      by (auto simp: pool_ok_def w1_def length_update_le intro!: list_all_update distinct_update)
    have hand1: "in_hand c w1" "pool_clean w1 = pool_clean w"
      using assms(2) set1 by (auto simp: in_hand_def pool_clean_def w1_def)
    show ?thesis
    proof (cases "POOL_MAX_PER_HOST \<le> length ?b")
      case True
      with False rel have "release scheme host port c w = close_conn c w1" by auto
      with close_conn_ok [OF ok1 hand1(1)] hand1(2) show ?thesis by simp
    next
      case room: False
      have "pool_ok w2"
        using assms False room dist2 set2
        by (auto simp: pool_ok_def in_hand_def w2_def length_update_le
            intro!: list_all_update distinct_update)
      moreover have "pool_clean w \<and> open_hand c w \<longrightarrow> pool_clean w2"
        using set2 by (auto simp: pool_clean_def open_hand_def w2_def)
      ultimately show ?thesis using rel False room by simp
    qed
  qed
qed

section \<open>One request\<close>

lemma wire_send_frame:
  assumes "wire_send s c path data headers w = (res, w')"
  shows "pool_ok w' = pool_ok w" "in_hand d w' = in_hand d w" "open_hand d w' = open_hand d w"
    "pool_clean w' = pool_clean w"
  using assms
  by (auto simp: wire_send_def Let_def pool_ok_def in_hand_def open_hand_def pool_clean_def)

lemma outer_raise_ok:
  assumes "pool_ok w" "in_hand c w" "outer_raise e c w = (r, w')"
  shows "pool_ok w' \<and> r = Inl e"
  using assms close_conn_ok [OF assms(1,2)] by (auto simp: outer_raise_def split: exn.splits)

lemma close_after_release_ok:
  assumes "pool_ok w" "c_id c < w_next w"
  shows "pool_ok (close_conn c w)"
  using assms by (auto simp: close_conn_def pool_ok_def)

lemma release_next [simp]: "w_next (release scheme host port c w) = w_next w"
  by (simp add: release_def close_conn_def Let_def)

lemma read_response_ok:
  assumes "pool_ok w" "in_hand c w" "read_response s scheme host port c r w = (x, w')"
  shows "pool_ok w' \<and> (pool_clean w \<and> open_hand c w \<and> (\<exists>v. x = Inr v) \<longrightarrow> pool_clean w')"
proof -
  define w1 where "w1 = (if can_keep_alive r then release scheme host port c w else close_conn c w)"
  have w1: "pool_ok w1" "pool_clean w \<and> open_hand c w \<longrightarrow> pool_clean w1"
    "c_id c < w_next w1"
    using release_ok [OF assms(1,2)] close_conn_ok [OF assms(1,2)] assms(2)
    by (auto simp: w1_def in_hand_def close_conn_def split: if_splits)
  have raised: "pool_ok (snd (outer_raise e c w1))" for e
    using w1 close_after_release_ok by (auto simp: outer_raise_def split: exn.splits)
  show ?thesis
  proof (cases "r_body r")
    case (Inl e)
    with assms outer_raise_ok show ?thesis by (fastforce simp: read_response_def)
  next
    case (Inr body)
    show ?thesis
    proof (cases "400 \<le> r_status r")
      case True
      with Inr assms close_conn_ok [OF assms(1,2)] show ?thesis by (auto simp: read_response_def)
    next
      case False
      show ?thesis
      proof (cases "s_loads s body")
        case (Inl e)
        with Inr False assms(3) have "outer_raise e c w1 = (x, w')"
          by (simp add: read_response_def w1_def Let_def)
        with raised [of e] show ?thesis by (auto simp: outer_raise_def)
      next
        case (Inr v)
        with \<open>r_body r = Inr body\<close> False assms(3) w1 show ?thesis
          by (auto simp: read_response_def w1_def Let_def)
      qed
    qed
  qed
qed

lemma resend_ok:
  assumes "pool_ok w" "in_hand c w"
    "resend s scheme host port path data headers tmo e c w = (x, w')"
  shows "pool_ok w' \<and> (pool_clean w \<and> (\<exists>v. x = Inr v) \<longrightarrow> pool_clean w')"
proof -
  let ?w1 = "close_conn c w"
  note w1 = close_conn_ok [OF assms(1,2)]
  show ?thesis
  proof (cases "w_budgeted ?w1")
    case True
    with assms(3) w1 outer_raise_ok show ?thesis by (fastforce simp: resend_def)
  next
    case False
    obtain c' w2 where n: "new_conn scheme host port tmo ?w1 = (c', w2)" by fastforce
    obtain res w3 where snd: "wire_send s c' path data headers w2 = (res, w3)" by fastforce
    note w2 = new_conn_ok [OF w1(1) n]
    note fr = wire_send_frame [OF snd]
    have w3: "pool_ok w3" "in_hand c' w3" "open_hand c' w3" "pool_clean w3 = pool_clean w"
      using w2 fr w1(3) by (auto simp: open_hand_def)
    have x: "(case res of WFail e' \<Rightarrow> outer_raise e' c' w3
        | WResp r \<Rightarrow> read_response s scheme host port c' r w3) = (x, w')"
      using assms(3) False n snd by (simp add: resend_def)
    show ?thesis
    proof (cases res)
      case (WFail e')
      with x outer_raise_ok [OF w3(1,2)] show ?thesis by fastforce
    next
      case (WResp r)
      with x read_response_ok [OF w3(1,2)] w3(3,4) show ?thesis by fastforce
    qed
  qed
qed

lemma request_json_cases:
  assumes "request_json s the_url data headers tmo w = (x, w')"
  obtains (bad_url) e where "x = Inl e" "w' = w"
    | (sent) scheme host port path where "request_target the_url = Inr (scheme, host, port, path)"
        "dispatch s scheme host port path data headers tmo w = (x, w')"
  using assms bad_url sent by (auto simp: request_json_def split: sum.splits)

lemma dispatch_ok:
  assumes "pool_ok w" "dispatch s scheme host port path data headers tmo w = (x, w')"
  shows "pool_ok w' \<and> (pool_clean w \<and> (\<exists>v. x = Inr v) \<longrightarrow> pool_clean w')"
proof -
  obtain c w1 where co: "checkout scheme host port tmo w = (c, w1)" by fastforce
  obtain res w2 where snd: "wire_send s c path data headers w1 = (res, w2)" by fastforce
  note w1 = checkout_ok [OF assms(1) co]
  note fr = wire_send_frame [OF snd]
  have w2: "pool_ok w2" "in_hand c w2" "pool_clean w \<longrightarrow> pool_clean w2 \<and> open_hand c w2"
    using w1 fr by auto
  show ?thesis
  proof (cases res)
    case (WFail e)
    with assms(2) co snd resend_ok [OF w2(1,2)] outer_raise_ok [OF w2(1,2)] w2(3) show ?thesis
      by (cases "is_transport e") (fastforce simp: dispatch_def)+
  next
    case (WResp r)
    with assms(2) co snd read_response_ok [OF w2(1,2)] w2(3) show ?thesis
      by (fastforce simp: dispatch_def)
  qed
qed

lemma request_json_pool_ok:
  "pool_ok w \<Longrightarrow> request_json s u data headers tmo w = (x, w') \<Longrightarrow> pool_ok w'"
  using dispatch_ok by (auto elim!: request_json_cases)

lemma request_json_clean:
  "pool_ok w \<Longrightarrow> pool_clean w \<Longrightarrow> request_json s u data headers tmo w = (Inr v, w') \<Longrightarrow> pool_clean w'"
  using dispatch_ok by (auto elim!: request_json_cases)

section \<open>What a request puts on the wire\<close>

text \<open>Between two worlds the wire log only grows, by at most \<open>n\<close> requests that all satisfy \<open>P\<close>.\<close>

definition wire_grows :: "(wire_req \<Rightarrow> bool) \<Rightarrow> nat \<Rightarrow> world \<Rightarrow> world \<Rightarrow> bool" where
  "wire_grows P n w w' \<longleftrightarrow> (\<exists>qs. w_wire w' = w_wire w @ qs \<and> length qs \<le> n \<and> list_all P qs)"

lemma wire_grows_refl [simp]: "wire_grows P n w w"
  by (auto simp: wire_grows_def)

lemma wire_grows_same: "w_wire w' = w_wire w \<Longrightarrow> wire_grows P n w w'"
  by (auto simp: wire_grows_def)

lemma wire_grows_trans:
  "wire_grows P n w w' \<Longrightarrow> wire_grows P m w' w'' \<Longrightarrow> n + m \<le> k \<Longrightarrow> wire_grows P k w w''"
  unfolding wire_grows_def
proof (elim exE conjE)
  fix qs rs
  assume "w_wire w' = w_wire w @ qs" "w_wire w'' = w_wire w' @ rs"
    "length qs \<le> n" "length rs \<le> m" "list_all P qs" "list_all P rs" "n + m \<le> k"
  then show "\<exists>xs. w_wire w'' = w_wire w @ xs \<and> length xs \<le> k \<and> list_all P xs"
    by (intro exI [of _ "qs @ rs"]) auto
qed

lemma wire_grows_mono: "wire_grows P n w w' \<Longrightarrow> n \<le> m \<Longrightarrow> wire_grows P m w w'"
  by (auto simp: wire_grows_def)

lemma wire_grows_P: "wire_grows P n w w' \<Longrightarrow> (\<And>q. P q \<Longrightarrow> Q q) \<Longrightarrow> wire_grows Q n w w'"
  unfolding wire_grows_def by (auto simp: list_all_iff)

lemma wire_grows_length: "wire_grows P n w w' \<Longrightarrow> length (w_wire w') \<le> length (w_wire w) + n"
  by (auto simp: wire_grows_def)

text \<open>
  A request bearing these headers and this body, on a connection to this origin; and the same for
  the origin a URL names. The pool keeps a connection under its own origin (\<open>pool_origin\<close>), so a
  reused connection carries a provider's credentials to no other host.
\<close>

definition req_is :: "string \<Rightarrow> string \<Rightarrow> nat \<Rightarrow> string \<Rightarrow> string \<Rightarrow> string dict \<Rightarrow> wire_req \<Rightarrow> bool" where
  "req_is scheme host port path data headers q \<longleftrightarrow>
     q_tls q = (scheme = ''https'') \<and> q_host q = host \<and> q_port q = port \<and> q_path q = path
     \<and> q_body q = data \<and> q_headers q = headers"

definition sent_to :: "string \<Rightarrow> string \<Rightarrow> string dict \<Rightarrow> wire_req \<Rightarrow> bool" where
  "sent_to the_url data headers q =
     (case request_target the_url of
        Inl _ \<Rightarrow> False
      | Inr (scheme, host, port, path) \<Rightarrow> req_is scheme host port path data headers q)"

definition conn_for :: "string \<Rightarrow> string \<Rightarrow> nat \<Rightarrow> conn \<Rightarrow> bool" where
  "conn_for scheme host port c \<longleftrightarrow> c_tls c = (scheme = ''https'') \<and> c_host c = host \<and> c_port c = port"

definition pool_origin :: "world \<Rightarrow> bool" where
  "pool_origin w \<longleftrightarrow>
     list_all (\<lambda>((scheme, host, port), b). list_all (conn_for scheme host port) b) (w_idle w)"

lemma pool_origin_bucket:
  "pool_origin w \<Longrightarrow> map_of (w_idle w) (scheme, host, port) = Some b \<Longrightarrow> list_all (conn_for scheme host port) b"
  unfolding pool_origin_def by (drule (1) map_of_list_all) simp

lemma pool_origin_update:
  "pool_origin w \<Longrightarrow> list_all (conn_for scheme host port) b \<Longrightarrow>
   pool_origin (w\<lparr>w_idle := AList.update (scheme, host, port) b (w_idle w)\<rparr>)"
  unfolding pool_origin_def by (simp add: list_all_update)

lemma close_conn_frame [simp, frame]: "w_wire (close_conn c w) = w_wire w"
  "w_budgeted (close_conn c w) = w_budgeted w" "pool_origin (close_conn c w) = pool_origin w"
  by (simp_all add: close_conn_def pool_origin_def)

lemma release_frame [simp, frame]: "w_wire (release scheme host port c w) = w_wire w"
  "w_budgeted (release scheme host port c w) = w_budgeted w"
  by (simp_all add: release_def Let_def)

lemma release_origin:
  assumes "pool_origin w" "conn_for scheme host port c"
  shows "pool_origin (release scheme host port c w)"
proof -
  let ?b = "case map_of (w_idle w) (scheme, host, port) of None \<Rightarrow> [] | Some b \<Rightarrow> b"
  have b: "list_all (conn_for scheme host port) ?b"
    using pool_origin_bucket [OF assms(1)] by (auto split: option.splits)
  note set1 = pool_origin_update [OF assms(1) b]
  have "list_all (conn_for scheme host port) (?b @ [c])" using b assms(2) by simp
  note set2 = pool_origin_update [OF set1 this]
  show ?thesis using assms(1) set1 set2 by (simp add: release_def Let_def)
qed

lemma new_conn_frame [frame]:
  assumes "new_conn scheme host port tmo w = (c, w')"
  shows "w_wire w' = w_wire w" "w_budgeted w' = w_budgeted w" "pool_origin w' = pool_origin w"
    "conn_for scheme host port c"
  using assms by (auto simp: new_conn_def pool_origin_def conn_for_def)

lemma checkout_frame [frame]:
  assumes "checkout scheme host port tmo w = (c, w')"
  shows "w_wire w' = w_wire w" "w_budgeted w' = w_budgeted w"
    "pool_origin w \<Longrightarrow> pool_origin w' \<and> conn_for scheme host port c"
proof -
  show "w_wire w' = w_wire w" "w_budgeted w' = w_budgeted w"
    using assms by (auto elim!: checkout_cases dest: new_conn_frame)
  assume ok: "pool_origin w"
  show "pool_origin w' \<and> conn_for scheme host port c"
    using assms
  proof (cases rule: checkout_cases)
    case (reused cs d)
    with ok pool_origin_bucket [OF ok reused(1)] show ?thesis
      by (auto simp: conn_for_def intro: pool_origin_update)
  next
    case fresh
    with ok new_conn_frame [OF fresh] show ?thesis by simp
  qed
qed

lemma outer_raise_frame [frame]:
  assumes "outer_raise e c w = (x, w')"
  shows "w_wire w' = w_wire w" "w_budgeted w' = w_budgeted w" "pool_origin w' = pool_origin w"
  using assms by (auto simp: outer_raise_def split: exn.splits)

lemma read_response_frame [frame]:
  assumes "read_response s scheme host port c r w = (x, w')"
  shows "w_wire w' = w_wire w" "w_budgeted w' = w_budgeted w"
    "pool_origin w \<Longrightarrow> conn_for scheme host port c \<Longrightarrow> pool_origin w'"
  using assms
  by (auto simp: read_response_def Let_def outer_raise_def release_origin
      split: sum.splits if_splits exn.splits)

lemma wire_send_grows:
  assumes "wire_send s c path data headers w = (res, w')"
  shows "w_budgeted w' = w_budgeted w" "pool_origin w' = pool_origin w"
    "conn_for scheme host port c \<Longrightarrow> wire_grows (req_is scheme host port path data headers) 1 w w'"
  using assms
  by (auto simp: wire_send_def wire_grows_def Let_def pool_origin_def conn_for_def req_is_def)

lemma resend_grows:
  assumes "resend s scheme host port path data headers tmo e c w = (x, w')" "pool_origin w"
  shows "wire_grows (req_is scheme host port path data headers) (if w_budgeted w then 0 else 1) w w'
    \<and> pool_origin w' \<and> w_budgeted w' = w_budgeted w"
proof (cases "w_budgeted w")
  case True
  with assms outer_raise_frame [of e c "close_conn c w" x w'] show ?thesis
    by (auto simp: resend_def wire_grows_same)
next
  case False
  obtain c' w2 where n: "new_conn scheme host port tmo (close_conn c w) = (c', w2)" by fastforce
  obtain res w3 where snd: "wire_send s c' path data headers w2 = (res, w3)" by fastforce
  note n' = new_conn_frame [OF n]
  note snd' = wire_send_grows [OF snd]
  have fin: "w_wire w' = w_wire w3 \<and> pool_origin w' \<and> w_budgeted w' = w_budgeted w3"
  proof (cases res)
    case (WFail e')
    with assms False n n' snd snd' outer_raise_frame [of e' c' w3 x w'] show ?thesis
      by (simp add: resend_def)
  next
    case (WResp r)
    with assms False n n' snd snd' read_response_frame [of s scheme host port c' r w3 x w'] show ?thesis
      by (simp add: resend_def)
  qed
  with n' snd' False show ?thesis by (simp add: wire_grows_def)
qed

lemma dispatch_grows:
  assumes "dispatch s scheme host port path data headers tmo w = (x, w')" "pool_origin w"
  shows "wire_grows (req_is scheme host port path data headers) (if w_budgeted w then 1 else 2) w w'
    \<and> pool_origin w' \<and> w_budgeted w' = w_budgeted w"
proof -
  let ?P = "req_is scheme host port path data headers"
  obtain c w1 where co: "checkout scheme host port tmo w = (c, w1)" by fastforce
  obtain res w2 where snd: "wire_send s c path data headers w1 = (res, w2)" by fastforce
  note co' = checkout_frame [OF co]
  note snd' = wire_send_grows [OF snd]
  have first: "wire_grows ?P 1 w w2"
    using snd' co' assms(2) by (simp add: wire_grows_def)
  have rest: "wire_grows ?P (if w_budgeted w then 0 else 1) w2 w' \<and> pool_origin w'
      \<and> w_budgeted w' = w_budgeted w"
  proof (cases res)
    case (WFail e)
    with assms co co' snd snd' resend_grows [of s scheme host port path data headers tmo e c w2 x w']
      outer_raise_frame [of e c w2 x w'] show ?thesis
      by (cases "is_transport e") (auto simp: dispatch_def intro: wire_grows_same)
  next
    case (WResp r)
    with assms co co' snd snd' read_response_frame [of s scheme host port c r w2 x w'] show ?thesis
      by (auto simp: dispatch_def intro: wire_grows_same)
  qed
  then show ?thesis
    using wire_grows_trans [OF first, of "if w_budgeted w then 0 else 1" w' "if w_budgeted w then 1 else 2"]
    by auto
qed

lemma request_json_grows:
  assumes "request_json s u data headers tmo w = (x, w')" "pool_origin w"
  shows "wire_grows (sent_to u data headers) (if w_budgeted w then 1 else 2) w w'
    \<and> pool_origin w' \<and> w_budgeted w' = w_budgeted w"
  using assms(1)
proof (cases rule: request_json_cases)
  case (bad_url e)
  with assms show ?thesis by simp
next
  case (sent scheme host port path)
  with dispatch_grows [OF sent(2) assms(2)] show ?thesis
    by (auto simp: sent_to_def [abs_def])
qed

text \<open>The tables a request leaves alone.\<close>

definition same_tables :: "world \<Rightarrow> world \<Rightarrow> bool" where
  "same_tables w w' \<longleftrightarrow> w_cool w' = w_cool w \<and> w_ecache w' = w_ecache w \<and> w_sink w' = w_sink w"

lemma same_tables_pool:
  "same_tables w (close_conn c w)" "same_tables w (release scheme host port c w)"
  "same_tables w (snd (checkout scheme host port tmo w))"
  "same_tables w (snd (new_conn scheme host port tmo w))"
  "same_tables w (snd (wire_send s c path data headers w))"
  "same_tables w (snd (outer_raise e c w))"
  by (auto simp: same_tables_def close_conn_def release_def checkout_def new_conn_def wire_send_def
      outer_raise_def Let_def split: option.splits list.splits exn.splits)

lemma same_tables_refl [simp]: "same_tables w w"
  by (simp add: same_tables_def)

lemma same_tables_trans: "same_tables w w' \<Longrightarrow> same_tables w' w'' \<Longrightarrow> same_tables w w''"
  by (simp add: same_tables_def)

lemma read_response_tables: "same_tables w (snd (read_response s scheme host port c r w))"
  using same_tables_pool same_tables_trans
  by (auto simp: read_response_def Let_def split: sum.splits) (metis+)

lemma resend_tables: "same_tables w (snd (resend s scheme host port path data headers tmo e c w))"
proof -
  obtain c' w2 where n: "new_conn scheme host port tmo (close_conn c w) = (c', w2)" by fastforce
  obtain res w3 where snd: "wire_send s c' path data headers w2 = (res, w3)" by fastforce
  have "same_tables w w2"
    using same_tables_pool(1) same_tables_pool(4) [of "close_conn c w"] n same_tables_trans by (metis snd_conv)
  moreover have "same_tables w2 w3" using same_tables_pool(5) snd by (metis snd_conv)
  ultimately have w3: "same_tables w w3" by (rule same_tables_trans)
  have "same_tables w (snd (outer_raise e c (close_conn c w)))"
    using same_tables_pool(1,6) same_tables_trans by blast
  with n snd same_tables_trans [OF w3 same_tables_pool(6)] same_tables_trans [OF w3 read_response_tables]
  show ?thesis by (simp add: resend_def Let_def split: wire_res.splits)
qed

lemma request_json_tables: "same_tables w (snd (request_json s u data headers tmo w))"
proof (cases "request_target u")
  case (Inl e)
  then show ?thesis by (simp add: request_json_def same_tables_def)
next
  case (Inr q)
  obtain scheme host port path where q: "q = (scheme, host, port, path)" by (cases q)
  obtain c w1 where co: "checkout scheme host port tmo w = (c, w1)" by fastforce
  obtain res w2 where snd: "wire_send s c path data headers w1 = (res, w2)" by fastforce
  have "same_tables w w1" using same_tables_pool(3) co by (metis snd_conv)
  moreover have "same_tables w1 w2" using same_tables_pool(5) snd by (metis snd_conv)
  ultimately have w2: "same_tables w w2" by (rule same_tables_trans)
  show ?thesis
    using Inr q co snd same_tables_trans [OF w2 same_tables_pool(6)]
      same_tables_trans [OF w2 read_response_tables] same_tables_trans [OF w2 resend_tables]
    by (auto simp: request_json_def dispatch_def split: wire_res.splits)
qed

section \<open>The properties\<close>

text \<open>
  C6. The connection pool is sound. Over any request the pool stays within four idle connections a
  host and sixteen hosts, never files a connection twice, and files each under its own origin, so
  every request sent, on a fresh or a reused connection, goes to the host, port and scheme of the
  URL it was meant for; there are at most two of them, and at most one under a budget.
\<close>

theorem request_keeps_pool:
  assumes "pool_ok w" "pool_origin w" "request_json s u data headers tmo w = (x, w')"
  shows "pool_ok w' \<and> pool_origin w' \<and>
    (\<exists>qs. w_wire w' = w_wire w @ qs \<and> list_all (sent_to u data headers) qs
      \<and> length qs \<le> (if w_budgeted w then 1 else 2))"
  using request_json_pool_ok [OF assms(1,3)] request_json_grows [OF assms(3,2)]
  by (auto simp: wire_grows_def)

definition empty_world :: world where
  "empty_world = \<lparr>w_tick = 0, w_draws = 0, w_slept = [], w_wire = [], w_idle = [], w_next = 0, w_closed = [],
     w_budgeted = False, w_cool = [], w_ecache = [], w_sink = []\<rparr>"

definition echo_sys :: "(exn + json) \<Rightarrow> sys" where
  "echo_sys parsed = \<lparr>s_env = (\<lambda>_. None), s_loads = (\<lambda>_. parsed), s_decode = Some, s_float = (\<lambda>_. None),
     s_frepr = (\<lambda>_. ''0.5''), s_time = (\<lambda>_. 0), s_unif = (\<lambda>_. 1),
     s_net = (\<lambda>_ _. WResp \<lparr>r_status = 200, r_reason = ''OK'', r_version = 11, r_headers = [], r_body = Inr []\<rparr>),
     s_retry_max = 3, s_retry_base = 1/4, s_retry_cap = 4, s_embed_ttl = 300, s_embed_max = 1024,
     s_scope_key = ''k''\<rparr>"

theorem request_keeps_pool_witness:
  "let w' = snd (request_json (echo_sys (Inr JNull)) ''http://h/p'' ''d'' [] (JInt 1) empty_world)
   in pool_ok w' \<and> length (w_idle w') = 1"
proof -
  obtain x w' where r: "request_json (echo_sys (Inr JNull)) ''http://h/p'' ''d'' [] (JInt 1) empty_world = (x, w')"
    by fastforce
  have "pool_ok empty_world" "pool_origin empty_world"
    by (simp_all add: pool_ok_def pool_origin_def idle_ids_def empty_world_def POOL_MAX_HOSTS_def)
  with request_keeps_pool r have "pool_ok w'" by blast
  moreover have "length (w_idle (snd (request_json (echo_sys (Inr JNull)) ''http://h/p'' ''d'' [] (JInt 1) empty_world))) = 1"
    by code_simp
  ultimately show ?thesis using r by (simp add: Let_def)
qed

text \<open>
  A request that returns leaves no closed connection among the idle ones.
\<close>

theorem request_keeps_clean:
  assumes "pool_ok w" "pool_clean w" "request_json s u data headers tmo w = (Inr v, w')"
  shows "pool_clean w'"
  using assms by (rule request_json_clean)

theorem request_keeps_clean_witness:
  "pool_clean (snd (request_json (echo_sys (Inr JNull)) ''http://h/p'' ''d'' [] (JInt 1) empty_world))"
proof -
  have "fst (request_json (echo_sys (Inr JNull)) ''http://h/p'' ''d'' [] (JInt 1) empty_world) = Inr JNull"
    by code_simp
  then obtain w' where "request_json (echo_sys (Inr JNull)) ''http://h/p'' ''d'' [] (JInt 1) empty_world = (Inr JNull, w')"
    by (metis prod.collapse)
  moreover have "pool_ok empty_world" "pool_clean empty_world"
    by (simp_all add: pool_ok_def pool_clean_def idle_ids_def empty_world_def POOL_MAX_HOSTS_def)
  ultimately show ?thesis using request_keeps_clean by simp
qed

text \<open>
  A body that does not parse leaves a closed connection in the pool. After a keep-alive 200
  response whose body \<open>json.loads\<close> rejects, the connection has been released to the idle bucket and
  then closed by the outer handler, so the next request to that host is handed a closed connection.
\<close>

theorem unparsable_body_spoils_pool:
  "let (x, w) = request_json (echo_sys (Inl (ValueError ''bad''))) ''http://h/p'' ''d'' [] (JInt 1) empty_world
   in x = Inl (ValueError ''bad'') \<and> idle_ids w = [0] \<and> w_closed w = [0] \<and> \<not> pool_clean w"
proof -
  have "case request_json (echo_sys (Inl (ValueError ''bad''))) ''http://h/p'' ''d'' [] (JInt 1) empty_world of
      (x, w) \<Rightarrow> x = Inl (ValueError ''bad'') \<and> idle_ids w = [0] \<and> w_closed w = [0]"
    by code_simp
  then show ?thesis by (auto simp: pool_clean_def)
qed

end
