(* ===== verification/Budget.thy ===== *)
theory Budget
  imports Json
begin

text \<open>
  \<open>szl_router/request_budget.py\<close>: the attempt counter and absolute deadline of one logical request.

  The object's private fields are the record \<open>budget\<close>; each method is one function on it (the
  lock makes them atomic). The clock is the caller's object: its \<open>k\<close>-th reading is
  \<open>b_clock b k\<close>, an arbitrary Python value. Methods that can raise return \<open>exn + 'a\<close> beside the
  budget as it is afterwards.

  \<open>budget_step\<close> is one call of any method by any thread, so a run of it is any interleaving.
  The lemmas: what \<open>reserve\<close> returns and refuses on each branch, the invariant \<open>budget_ok\<close> of
  every reachable budget, and that a terminal reason is final. The locale \<open>attempt_counter\<close>
  states what a counter of attempts promises and proves the bound on whole runs.
\<close>

definition MAX_ATTEMPT_CEILING :: nat where "MAX_ATTEMPT_CEILING = 16"

definition TERMINAL_REASONS :: "string list" where
  "TERMINAL_REASONS = [''success'', ''tests_failed'', ''attempt_exhausted'', ''deadline_exhausted'',
     ''provider_unavailable'', ''policy_blocked'', ''cost_unknown'', ''cancellation'']"

section \<open>Argument checks\<close>

definition label :: "json \<Rightarrow> string \<Rightarrow> exn + string" where
  "label value name =
     (case value of
        JStr s \<Rightarrow>
          if s = [] \<or> 128 < length s \<or> strip s \<noteq> s
          then Inl (ValueError (name @ '' must be a non-empty string of at most 128 characters''))
          else if list_ex (\<lambda>ch. (of_char ch :: nat) < 32 \<or> (of_char ch :: nat) = 127) s
          then Inl (ValueError (name @ '' must not contain control characters''))
          else Inr s
      | _ \<Rightarrow> Inl (ValueError (name @ '' must be a non-empty string of at most 128 characters'')))"

definition finite_real :: "json \<Rightarrow> string \<Rightarrow> exn + rat" where
  "finite_real value name =
     (case value of
        JInt i \<Rightarrow> if float_overflows i then Inl (PyError ''OverflowError'' ''int too large to convert to float'')
                  else Inr (of_int i)
      | JFloat (Fin q) \<Rightarrow> Inr q
      | _ \<Rightarrow> Inl (ValueError (name @ '' must be a finite number'')))"

definition validate_caller_timeout :: "json \<Rightarrow> exn + rat" where
  "validate_caller_timeout caller_timeout =
     bindE (finite_real caller_timeout ''timeout'') (\<lambda>timeout.
       if timeout \<le> 0 then Inl (ValueError ''timeout must be a finite positive number of seconds'')
       else Inr timeout)"

section \<open>The object\<close>

record budget =
  b_request_id :: string
  b_policy_revision :: string
  b_max :: nat
  b_deadline :: rat
  b_clock :: "nat \<Rightarrow> json"
  b_ticks :: nat                      \<comment> \<open>clock readings so far\<close>
  b_slept :: "rat list"               \<comment> \<open>calls of the sleeper\<close>
  b_reserved :: nat
  b_cancelled :: bool
  b_terminal :: "string option"
  b_in_flight :: string
  b_dispatches :: "(nat \<times> string) list"

definition read_clock :: "budget \<Rightarrow> (exn + rat) \<times> budget" where
  "read_clock b =
     ((case b_clock b (b_ticks b) of
         JInt i \<Rightarrow> if float_overflows i
                   then Inl (PyError ''OverflowError'' ''int too large to convert to float'')
                   else Inr (of_int i)
       | JFloat (Fin q) \<Rightarrow> Inr q
       | _ \<Rightarrow> Inl (ValueError ''clock must return a finite monotonic time'')),
      b\<lparr>b_ticks := Suc (b_ticks b)\<rparr>)"

definition max_attempts_ok :: "json \<Rightarrow> exn + nat" where
  "max_attempts_ok v =
     (case v of
        JInt i \<Rightarrow> if 1 \<le> i \<and> i \<le> int MAX_ATTEMPT_CEILING then Inr (nat i)
                  else Inl (ValueError ''max_attempts must be an int from 1 to 16'')
      | _ \<Rightarrow> Inl (ValueError ''max_attempts must be an int from 1 to 16''))"

definition new_budget :: "json \<Rightarrow> json \<Rightarrow> json \<Rightarrow> json \<Rightarrow> (nat \<Rightarrow> json) \<Rightarrow> exn + budget" where
  "new_budget request_id policy_revision max_attempts deadline clock =
     bindE (label request_id ''request_id'') (\<lambda>rid.
     bindE (label policy_revision ''policy_revision'') (\<lambda>pol.
     bindE (max_attempts_ok max_attempts) (\<lambda>n.
     bindE (finite_real deadline ''deadline'') (\<lambda>d.
       let b = \<lparr>b_request_id = rid, b_policy_revision = pol, b_max = n, b_deadline = d,
                b_clock = clock, b_ticks = 0, b_slept = [], b_reserved = 0, b_cancelled = False,
                b_terminal = None, b_in_flight = ''none'', b_dispatches = []\<rparr>;
           (now, b') = read_clock b
       in bindE now (\<lambda>_. Inr b')))))"

definition stop :: "string \<Rightarrow> budget \<Rightarrow> (exn + 'a) \<times> budget" where
  "stop reason b = (Inl (BudgetStop reason (b_in_flight b)), b\<lparr>b_terminal := Some reason\<rparr>)"

definition refuse_unlocked :: "budget \<Rightarrow> exn option \<times> budget" where
  "refuse_unlocked b =
     (case b_terminal b of
        Some t \<Rightarrow> (Some (BudgetStop t (b_in_flight b)), b)
      | None \<Rightarrow>
          if b_cancelled b
          then (Some (BudgetStop ''cancellation'' (b_in_flight b)), b\<lparr>b_terminal := Some ''cancellation''\<rparr>)
          else (None, b))"

definition reserve :: "json \<Rightarrow> budget \<Rightarrow> (exn + nat \<times> rat) \<times> budget" where
  "reserve caller_timeout b =
     (case validate_caller_timeout caller_timeout of
        Inl e \<Rightarrow> (Inl e, b)
      | Inr timeout \<Rightarrow>
          (case refuse_unlocked b of
             (Some e, b1) \<Rightarrow> (Inl e, b1)
           | (None, b1) \<Rightarrow>
               (case read_clock b1 of
                  (Inl e, b2) \<Rightarrow> (Inl e, b2)
                | (Inr now, b2) \<Rightarrow>
                    if b_deadline b2 \<le> now then stop ''deadline_exhausted'' b2
                    else if b_max b2 \<le> b_reserved b2 then stop ''attempt_exhausted'' b2
                    else
                      let remain = b_deadline b2 - now; send_timeout = min timeout remain in
                      if send_timeout \<le> 0 then stop ''deadline_exhausted'' b2
                      else
                        let attempt = Suc (b_reserved b2) in
                        (Inr (attempt, send_timeout),
                         b2\<lparr>b_reserved := attempt, b_in_flight := ''unknown'',
                            b_dispatches := b_dispatches b2 @ [(attempt, ''unknown'')]\<rparr>))))"

fun set_outcome :: "nat \<Rightarrow> string \<Rightarrow> (nat \<times> string) list \<Rightarrow> (nat \<times> string) list option" where
  "set_outcome n oc [] = None"
| "set_outcome n oc ((k, v) # rows) =
     (if k = n then Some ((k, oc) # rows) else map_option ((#) (k, v)) (set_outcome n oc rows))"

definition note_outcome :: "nat \<Rightarrow> string \<Rightarrow> budget \<Rightarrow> (exn + unit) \<times> budget" where
  "note_outcome attempt outcome b =
     (if attempt < 1 then (Inl (ValueError ''attempt must be a positive int''), b)
      else if outcome \<notin> {''known'', ''unknown''}
      then (Inl (ValueError ''outcome must be known or unknown''), b)
      else case set_outcome attempt outcome (b_dispatches b) of
             None \<Rightarrow> (Inl (ValueError ''attempt was not reserved''), b)
           | Some rows \<Rightarrow>
               (Inr (), b\<lparr>b_dispatches := rows,
                  b_in_flight := (if list_ex (\<lambda>(_, v). v = ''unknown'') rows then ''unknown''
                                  else ''known'')\<rparr>))"

definition allow_backoff :: "json \<Rightarrow> budget \<Rightarrow> (exn + bool) \<times> budget" where
  "allow_backoff delay b =
     (case finite_real delay ''backoff'' of
        Inl e \<Rightarrow> (Inl e, b)
      | Inr d \<Rightarrow>
          if d < 0 then (Inl (ValueError ''backoff must be nonnegative''), b)
          else if b_cancelled b
          then (Inr False, if b_terminal b = None then b\<lparr>b_terminal := Some ''cancellation''\<rparr> else b)
          else if b_terminal b \<noteq> None then (Inr False, b)
          else if b_max b \<le> b_reserved b
          then (Inr False, b\<lparr>b_terminal := Some ''attempt_exhausted''\<rparr>)
          else (case read_clock b of
                  (Inl e, b') \<Rightarrow> (Inl e, b')
                | (Inr now, b') \<Rightarrow>
                    if b_deadline b' - now \<le> d
                    then (Inr False, b'\<lparr>b_terminal := Some ''deadline_exhausted''\<rparr>)
                    else (Inr True, b')))"

definition budget_sleep :: "json \<Rightarrow> budget \<Rightarrow> (exn + unit) \<times> budget" where
  "budget_sleep delay b =
     (case finite_real delay ''backoff'' of
        Inl e \<Rightarrow> (Inl e, b)
      | Inr d \<Rightarrow>
          if d < 0 then (Inl (ValueError ''backoff must be nonnegative''), b)
          else (Inr (), b\<lparr>b_slept := b_slept b @ [d]\<rparr>))"

definition cancel :: "budget \<Rightarrow> budget" where
  "cancel b =
     (let b1 = b\<lparr>b_cancelled := True\<rparr> in
      if b_terminal b1 = None \<and> b_in_flight b1 = ''none''
      then b1\<lparr>b_terminal := Some ''cancellation''\<rparr> else b1)"

definition close :: "string \<Rightarrow> budget \<Rightarrow> (exn + unit) \<times> budget" where
  "close reason b =
     (if reason \<notin> set TERMINAL_REASONS \<or> reason = ''success''
      then (Inl (ValueError ''close() requires a non-success terminal reason''), b)
      else (Inr (), if b_terminal b = None then b\<lparr>b_terminal := Some reason\<rparr> else b))"

definition mark_success :: "budget \<Rightarrow> budget" where
  "mark_success b = (if b_terminal b = None then b\<lparr>b_terminal := Some ''success''\<rparr> else b)"

section \<open>What one call does\<close>

lemma read_clock_frame [simp]:
  "b_request_id (snd (read_clock b)) = b_request_id b"
  "b_policy_revision (snd (read_clock b)) = b_policy_revision b"
  "b_max (snd (read_clock b)) = b_max b"
  "b_deadline (snd (read_clock b)) = b_deadline b"
  "b_reserved (snd (read_clock b)) = b_reserved b"
  "b_cancelled (snd (read_clock b)) = b_cancelled b"
  "b_terminal (snd (read_clock b)) = b_terminal b"
  "b_in_flight (snd (read_clock b)) = b_in_flight b"
  "b_dispatches (snd (read_clock b)) = b_dispatches b"
  by (simp_all add: read_clock_def)

lemma read_clock_pair: "read_clock b = (r, b') \<Longrightarrow> b' = b\<lparr>b_ticks := Suc (b_ticks b)\<rparr>"
  by (auto simp: read_clock_def)

lemma validate_positive: "validate_caller_timeout t = Inr d \<Longrightarrow> 0 < d"
  by (auto simp: validate_caller_timeout_def bindE_Inr_iff split: if_splits)

text \<open>The cases of \<open>reserve\<close>: it granted an attempt, it refused, or an argument or the clock was bad.\<close>

lemma reserve_Inr:
  assumes "reserve t b = (Inr (n, d), b')"
  obtains now timeout where
    "validate_caller_timeout t = Inr timeout" "read_clock b = (Inr now, b\<lparr>b_ticks := Suc (b_ticks b)\<rparr>)"
    "b_terminal b = None" "\<not> b_cancelled b" "now < b_deadline b" "b_reserved b < b_max b"
    "n = Suc (b_reserved b)" "d = min timeout (b_deadline b - now)" "0 < d"
    "b' = b\<lparr>b_ticks := Suc (b_ticks b), b_reserved := n, b_in_flight := ''unknown'',
            b_dispatches := b_dispatches b @ [(n, ''unknown'')]\<rparr>"
proof -
  from assms obtain timeout where v: "validate_caller_timeout t = Inr timeout"
    by (auto simp: reserve_def split: sum.splits)
  with assms have ref: "refuse_unlocked b = (None, b)"
    by (auto simp: reserve_def refuse_unlocked_def split: option.splits if_splits)
  obtain r b2 where rc: "read_clock b = (r, b2)" by fastforce
  have b2: "b2 = b\<lparr>b_ticks := Suc (b_ticks b)\<rparr>" using rc by (rule read_clock_pair)
  from assms v ref rc obtain now where "r = Inr now"
    by (cases r) (auto simp: reserve_def)
  moreover have "b_terminal b = None" "\<not> b_cancelled b"
    using ref by (auto simp: refuse_unlocked_def split: option.splits if_splits)
  ultimately show thesis
    using assms v ref rc b2
    by (intro that [of timeout now])
       (auto simp: reserve_def stop_def Let_def split: if_splits)
qed

lemma reserve_Inl:
  assumes "reserve t b = (Inl e, b')"
  shows "b' = b\<lparr>b_ticks := b_ticks b', b_terminal := b_terminal b'\<rparr>
    \<and> (b_terminal b' = b_terminal b \<or>
       (b_terminal b = None \<and>
        b_terminal b' \<in> Some ` {''cancellation'', ''deadline_exhausted'', ''attempt_exhausted''}))"
  using assms
  by (auto simp: reserve_def refuse_unlocked_def stop_def Let_def dest!: read_clock_pair
      split: sum.splits option.splits if_splits prod.splits)

lemma reserve_terminal:
  "b_terminal b = Some r \<Longrightarrow> validate_caller_timeout t = Inr d \<Longrightarrow>
   reserve t b = (Inl (BudgetStop r (b_in_flight b)), b)"
  by (simp add: reserve_def refuse_unlocked_def)

lemma allow_backoff_frame:
  assumes "allow_backoff d b = (r, b')"
  shows "b' = b\<lparr>b_ticks := b_ticks b', b_terminal := b_terminal b'\<rparr>
    \<and> (b_terminal b' = b_terminal b \<or>
       (b_terminal b = None \<and>
        b_terminal b' \<in> Some ` {''cancellation'', ''deadline_exhausted'', ''attempt_exhausted''}))"
  using assms
  by (auto simp: allow_backoff_def dest!: read_clock_pair
      split: sum.splits option.splits if_splits prod.splits)

lemma allow_backoff_True:
  assumes "allow_backoff d b = (Inr True, b')"
  obtains now delay where "finite_real d ''backoff'' = Inr delay" "fst (read_clock b) = Inr now"
    "now + delay < b_deadline b" "b_reserved b < b_max b" "\<not> b_cancelled b" "b_terminal b = None"
    "b' = b\<lparr>b_ticks := Suc (b_ticks b)\<rparr>"
proof -
  from assms obtain delay where d: "finite_real d ''backoff'' = Inr delay"
    by (auto simp: allow_backoff_def split: sum.splits)
  obtain x b2 where rc: "read_clock b = (x, b2)" by fastforce
  note b2 = read_clock_pair [OF rc]
  from assms d rc b2 show thesis
    by (cases x) (auto simp: allow_backoff_def split: if_splits intro!: that [of delay])
qed

lemma set_outcome_keys: "set_outcome n oc rows = Some rows' \<Longrightarrow> map fst rows' = map fst rows"
  by (induction rows arbitrary: rows') (auto split: if_splits)

lemma set_outcome_values:
  "set_outcome n oc rows = Some rows' \<Longrightarrow> (k, v) \<in> set rows' \<Longrightarrow> v = oc \<or> (k, v) \<in> set rows"
  by (induction rows arbitrary: rows') (auto split: if_splits)

lemma set_outcome_None: "set_outcome n oc rows = None \<longleftrightarrow> n \<notin> set (map fst rows)"
  by (induction n oc rows rule: set_outcome.induct) (auto split: if_splits)

section \<open>Any call, any thread\<close>

inductive budget_step :: "budget \<Rightarrow> budget \<Rightarrow> bool" where
  reserve: "budget_step b (snd (reserve t b))"
| note_outcome: "budget_step b (snd (note_outcome n oc b))"
| allow_backoff: "budget_step b (snd (allow_backoff d b))"
| sleep: "budget_step b (snd (budget_sleep d b))"
| cancel: "budget_step b (cancel b)"
| close: "budget_step b (snd (close r b))"
| mark_success: "budget_step b (mark_success b)"
| read: "budget_step b (snd (read_clock b))"

inductive budget_reachable :: "budget \<Rightarrow> bool" where
  new: "new_budget rid pol n d clock = Inr b \<Longrightarrow> budget_reachable b"
| step: "budget_reachable b \<Longrightarrow> budget_step b b' \<Longrightarrow> budget_reachable b'"

inductive_cases budget_stepE: "budget_step b b'"

definition budget_ok :: "budget \<Rightarrow> bool" where
  "budget_ok b \<longleftrightarrow> 1 \<le> b_max b \<and> b_max b \<le> MAX_ATTEMPT_CEILING \<and> b_reserved b \<le> b_max b
     \<and> map fst (b_dispatches b) = [1..<Suc (b_reserved b)]
     \<and> (\<forall>(k, v) \<in> set (b_dispatches b). v \<in> {''known'', ''unknown''})
     \<and> b_in_flight b = (if b_dispatches b = [] then ''none''
          else if list_ex (\<lambda>(_, v). v = ''unknown'') (b_dispatches b) then ''unknown'' else ''known'')
     \<and> (\<forall>r. b_terminal b = Some r \<longrightarrow> r \<in> set TERMINAL_REASONS)"

lemma new_budget_ok: "new_budget rid pol n d clock = Inr b \<Longrightarrow> budget_ok b"
  by (auto simp: new_budget_def bindE_Inr_iff budget_ok_def max_attempts_ok_def Let_def read_clock_def
      split: json.splits if_splits)

lemma budget_ok_terminal:
  "budget_ok b \<Longrightarrow> r \<in> set TERMINAL_REASONS \<Longrightarrow> budget_ok (b\<lparr>b_terminal := Some r\<rparr>)"
  by (simp add: budget_ok_def)

lemma budget_ok_unread [simp]:
  "budget_ok (b\<lparr>b_ticks := k\<rparr>) = budget_ok b" "budget_ok (b\<lparr>b_slept := l\<rparr>) = budget_ok b"
  "budget_ok (b\<lparr>b_cancelled := c\<rparr>) = budget_ok b" "budget_ok (snd (read_clock b)) = budget_ok b"
  by (simp_all add: budget_ok_def read_clock_def)

lemma budget_ok_frame:
  assumes "budget_ok b" "b' = b\<lparr>b_ticks := k, b_terminal := t\<rparr>"
    "t = b_terminal b \<or> t \<in> Some ` {''cancellation'', ''deadline_exhausted'', ''attempt_exhausted''}"
  shows "budget_ok b'"
proof -
  have "\<forall>r. t = Some r \<longrightarrow> r \<in> set TERMINAL_REASONS"
    using assms(3)
  proof
    assume "t = b_terminal b"
    with assms(1) show ?thesis by (simp add: budget_ok_def)
  qed (auto simp: TERMINAL_REASONS_def)
  with assms(1,2) show ?thesis by (simp add: budget_ok_def)
qed

lemma reserve_ok: "budget_ok b \<Longrightarrow> budget_ok (snd (reserve t b))"
proof (cases "reserve t b")
  case (Pair x b')
  assume ok: "budget_ok b"
  show ?thesis
  proof (cases x)
    case (Inl e)
    with Pair ok show ?thesis
      using reserve_Inl [of t b e b'] budget_ok_frame [of b] by (metis snd_conv)
  next
    case (Inr nd)
    obtain n d where "nd = (n, d)" by (cases nd)
    with Pair Inr have r: "reserve t b = (Inr (n, d), b')" by simp
    show ?thesis
      using r ok by (elim reserve_Inr) (auto simp: budget_ok_def Pair)
  qed
qed

lemma note_outcome_ok: "budget_ok b \<Longrightarrow> budget_ok (snd (note_outcome n oc b))"
proof (cases "set_outcome n oc (b_dispatches b)")
  case None
  assume "budget_ok b"
  with None show ?thesis by (auto simp: note_outcome_def)
next
  case (Some rows)
  assume ok: "budget_ok b"
  have keys: "map fst rows = map fst (b_dispatches b)"
    using Some by (rule set_outcome_keys)
  have "rows \<noteq> []"
    using Some by (cases "b_dispatches b") (auto split: if_splits)
  moreover have "oc \<in> {''known'', ''unknown''} \<Longrightarrow> (\<forall>(k, v) \<in> set rows. v \<in> {''known'', ''unknown''})"
    using set_outcome_values [OF Some] ok by (fastforce simp: budget_ok_def)
  ultimately show ?thesis
    using ok Some keys by (auto simp: note_outcome_def budget_ok_def)
qed

lemma budget_step_ok: "budget_step b b' \<Longrightarrow> budget_ok b \<Longrightarrow> budget_ok b'"
proof (induction rule: budget_step.induct)
  case (reserve b t)
  then show ?case by (rule reserve_ok)
next
  case (note_outcome b n oc)
  then show ?case by (rule note_outcome_ok)
next
  case (allow_backoff b d)
  then show ?case
    using allow_backoff_frame [of d b] budget_ok_frame [of b] by (cases "allow_backoff d b") (metis snd_conv)
next
  case (sleep b d)
  then show ?case by (auto simp: budget_sleep_def split: sum.splits)
next
  case (cancel b)
  then have "budget_ok (b\<lparr>b_cancelled := True\<rparr>)" by simp
  then show ?case
    using budget_ok_terminal [of "b\<lparr>b_cancelled := True\<rparr>" "''cancellation''"]
    by (simp add: cancel_def Let_def TERMINAL_REASONS_def)
next
  case (close b r)
  then show ?case by (simp add: close_def budget_ok_terminal)
next
  case (mark_success b)
  then show ?case
    using budget_ok_terminal [of b "''success''"] by (simp add: mark_success_def TERMINAL_REASONS_def)
next
  case (read b)
  then show ?case by simp
qed


lemma reachable_ok: "budget_reachable b \<Longrightarrow> budget_ok b"
  by (induction rule: budget_reachable.induct) (auto intro: new_budget_ok budget_step_ok)

section \<open>Terminal reasons are final\<close>

lemma budget_step_terminal: "budget_step b b' \<Longrightarrow> b_terminal b = Some r \<Longrightarrow> b_terminal b' = Some r"
proof (induction rule: budget_step.induct)
  case (reserve b t)
  then show ?case
    by (cases "reserve t b") (auto simp: reserve_def refuse_unlocked_def split: sum.splits)
next
  case (note_outcome b n oc)
  then show ?case by (simp add: note_outcome_def split: option.splits)
next
  case (allow_backoff b d)
  then show ?case using allow_backoff_frame [of d b] by (cases "allow_backoff d b") auto
next
  case (sleep b d)
  then show ?case by (simp add: budget_sleep_def split: sum.splits)
qed (simp_all add: cancel_def close_def mark_success_def)

lemma terminal_is_final: "budget_step\<^sup>*\<^sup>* b b' \<Longrightarrow> b_terminal b = Some r \<Longrightarrow> b_terminal b' = Some r"
  by (induction rule: rtranclp_induct) (auto dest: budget_step_terminal)

lemma budget_step_cancelled: "budget_step b b' \<Longrightarrow> b_cancelled b \<Longrightarrow> b_cancelled b'"
proof (induction rule: budget_step.induct)
  case (reserve b t)
  then show ?case
    by (cases "reserve t b") (auto simp: reserve_def refuse_unlocked_def split: sum.splits option.splits)
next
  case (note_outcome b n oc)
  then show ?case by (simp add: note_outcome_def split: option.splits)
next
  case (allow_backoff b d)
  then show ?case using allow_backoff_frame [of d b] by (cases "allow_backoff d b") (metis budget.select_convs(9) budget.surjective budget.update_convs(10) budget.update_convs(6) snd_conv)
next
  case (sleep b d)
  then show ?case by (simp add: budget_sleep_def split: sum.splits)
qed (simp_all add: cancel_def close_def mark_success_def Let_def)

lemma reserve_refuses: "b_terminal b \<noteq> None \<or> b_cancelled b \<Longrightarrow> fst (reserve t b) = Inr x \<Longrightarrow> False"
  by (cases x; cases "reserve t b") (auto elim: reserve_Inr)

section \<open>What a counter of attempts promises\<close>

text \<open>
  The interface a dispatcher relies on: every operation leaves the limit alone, takes at most one
  attempt, never gives one back, and never goes past the limit.
\<close>

locale attempt_counter =
  fixes step :: "'b \<Rightarrow> 'b \<Rightarrow> bool" and used :: "'b \<Rightarrow> nat" and limit :: "'b \<Rightarrow> nat"
  assumes limit_fixed: "step b b' \<Longrightarrow> limit b' = limit b"
    and used_mono: "step b b' \<Longrightarrow> used b \<le> used b'"
    and used_one: "step b b' \<Longrightarrow> used b' \<le> Suc (used b)"
    and used_bound: "step b b' \<Longrightarrow> used b < used b' \<Longrightarrow> used b' \<le> limit b"
begin

lemma run_limit: "step\<^sup>*\<^sup>* b b' \<Longrightarrow> limit b' = limit b"
  by (induction rule: rtranclp_induct) (auto dest: limit_fixed)

lemma run_mono: "step\<^sup>*\<^sup>* b b' \<Longrightarrow> used b \<le> used b'"
  by (induction rule: rtranclp_induct) (auto dest: used_mono intro: le_trans)

lemma run_bound: "step\<^sup>*\<^sup>* b b' \<Longrightarrow> used b \<le> limit b \<Longrightarrow> used b' \<le> limit b"
proof (induction rule: rtranclp_induct)
  case base
  then show ?case by simp
next
  case (step c d)
  show ?case
  proof (cases "used c < used d")
    case True
    with step.hyps show ?thesis using used_bound run_limit by metis
  next
    case False
    with step show ?thesis by simp
  qed
qed

lemma run_left: "step\<^sup>*\<^sup>* b b' \<Longrightarrow> used b \<le> limit b \<Longrightarrow> used b' - used b \<le> limit b - used b"
  using run_bound by (simp add: diff_le_mono)

end

lemma budget_step_counts:
  assumes "budget_step b b'"
  shows "b_max b' = b_max b"
    and "b_reserved b' = b_reserved b \<or> (b_reserved b' = Suc (b_reserved b) \<and> b_reserved b < b_max b)"
  using assms
proof (induction rule: budget_step.induct)
  case (reserve b t)
  {
    case 1
    show ?case using reserve_Inl [of t b]
      by (cases "reserve t b"; cases "fst (reserve t b)") (auto elim!: reserve_Inr dest: arg_cong [where f = b_max])
  next
    case 2
    show ?case using reserve_Inl [of t b]
      by (cases "reserve t b"; cases "fst (reserve t b)") (auto elim!: reserve_Inr dest: arg_cong [where f = b_reserved])
  }
next
  case (allow_backoff b d)
  {
    case 1
    show ?case using allow_backoff_frame [of d b]
      by (cases "allow_backoff d b") (auto dest: arg_cong [where f = b_max])
  next
    case 2
    show ?case using allow_backoff_frame [of d b]
      by (cases "allow_backoff d b") (auto dest: arg_cong [where f = b_reserved])
  }
qed (auto simp: note_outcome_def budget_sleep_def cancel_def close_def mark_success_def Let_def
      split: option.splits sum.splits)

interpretation request_counter: attempt_counter budget_step b_reserved b_max
  by unfold_locales (auto dest: budget_step_counts)

section \<open>The properties\<close>

text \<open>
  C7. The budget's invariant. However threads interleave its methods, a budget that was ever
  constructed keeps its ceiling between 1 and 16, has reserved at most that many attempts, records
  each of them once and in order, derives its in-flight label from the recorded outcomes, and only
  ever holds a documented terminal reason.
\<close>

theorem budget_invariant:
  assumes "budget_reachable b"
  shows "1 \<le> b_max b \<and> b_max b \<le> 16 \<and> b_reserved b \<le> b_max b
    \<and> map fst (b_dispatches b) = [1..<Suc (b_reserved b)]
    \<and> b_in_flight b = (if b_dispatches b = [] then ''none''
        else if list_ex (\<lambda>(k, v). v = ''unknown'') (b_dispatches b) then ''unknown'' else ''known'')
    \<and> (\<forall>r. b_terminal b = Some r \<longrightarrow> r \<in> set TERMINAL_REASONS)"
  using reachable_ok [OF assms] by (auto simp: budget_ok_def MAX_ATTEMPT_CEILING_def)

definition fresh_budget :: budget where
  "fresh_budget = \<lparr>b_request_id = ''r'', b_policy_revision = ''p'', b_max = 2, b_deadline = 9,
     b_clock = (\<lambda>_. JInt 0), b_ticks = 1, b_slept = [], b_reserved = 0, b_cancelled = False,
     b_terminal = None, b_in_flight = ''none'', b_dispatches = []\<rparr>"

lemma fresh_budget_new:
  "new_budget (JStr ''r'') (JStr ''p'') (JInt 2) (JInt 9) (\<lambda>_. JInt 0) = Inr fresh_budget"
  by (simp add: new_budget_def label_def max_attempts_ok_def MAX_ATTEMPT_CEILING_def finite_real_def
      read_clock_def fresh_budget_def pystr py_space_def)

theorem budget_invariant_witness:
  "let b = snd (reserve (JInt 5) fresh_budget) in b_reserved b = 1 \<and> map fst (b_dispatches b) = [1]"
proof -
  have "budget_reachable (snd (reserve (JInt 5) fresh_budget))"
    by (rule budget_reachable.step [OF budget_reachable.new [OF fresh_budget_new] budget_step.reserve])
  moreover have "b_reserved (snd (reserve (JInt 5) fresh_budget)) = 1"
    by (simp add: reserve_def validate_caller_timeout_def finite_real_def refuse_unlocked_def
        read_clock_def fresh_budget_def)
  ultimately show ?thesis using budget_invariant by (auto simp: Let_def)
qed

text \<open>
  What a reservation grants. It is given only to a budget that is neither terminal nor
  cancelled, before the deadline and below the ceiling; it is the next attempt number; its socket
  timeout is positive, at most the caller's, and ends no later than the deadline; and the attempt
  counts as in flight with an unknown outcome from then on.
\<close>

theorem reserve_grant:
  assumes "reserve t b = (Inr (n, d), b')"
  shows "\<exists>now timeout. validate_caller_timeout t = Inr timeout \<and> fst (read_clock b) = Inr now
    \<and> b_terminal b = None \<and> \<not> b_cancelled b \<and> n = Suc (b_reserved b) \<and> n \<le> b_max b
    \<and> 0 < d \<and> d \<le> timeout \<and> now + d \<le> b_deadline b
    \<and> b_reserved b' = n \<and> b_in_flight b' = ''unknown'' \<and> (n, ''unknown'') \<in> set (b_dispatches b')"
  using assms by (rule reserve_Inr) fastforce

theorem reserve_grant_witness:
  "\<exists>b'. reserve (JInt 20) fresh_budget = (Inr (1, 9), b') \<and> b_reserved b' = 1 \<and> b_in_flight b' = ''unknown''"
proof -
  obtain b' where r: "reserve (JInt 20) fresh_budget = (Inr (1, 9), b')"
    by (simp add: reserve_def validate_caller_timeout_def finite_real_def refuse_unlocked_def
        read_clock_def fresh_budget_def)
  with reserve_grant [OF r] show ?thesis by auto
qed

text \<open>
  A terminal reason is final. Once a budget has one, no sequence of calls by any threads
  changes it, and no later reservation is granted; cancelling has the same effect on reservations.
\<close>

theorem terminal_refuses:
  assumes "budget_step\<^sup>*\<^sup>* b b'" and "b_terminal b \<noteq> None \<or> b_cancelled b"
  shows "(\<forall>r. b_terminal b = Some r \<longrightarrow> b_terminal b' = Some r) \<and> (\<exists>e. fst (reserve t b') = Inl e)"
proof -
  have "b_cancelled b \<Longrightarrow> b_cancelled b'"
    using assms(1) by (induction rule: rtranclp_induct) (auto dest: budget_step_cancelled)
  with assms terminal_is_final have "b_terminal b' \<noteq> None \<or> b_cancelled b'" by blast
  then have "\<nexists>x. fst (reserve t b') = Inr x" using reserve_refuses by blast
  then show ?thesis using terminal_is_final [OF assms(1)] by (cases "fst (reserve t b')") auto
qed

theorem terminal_refuses_witness:
  "\<exists>e. fst (reserve (JInt 1) (snd (reserve (JInt 1) (cancel fresh_budget)))) = Inl e"
proof -
  have "budget_step\<^sup>*\<^sup>* (cancel fresh_budget) (snd (reserve (JInt 1) (cancel fresh_budget)))"
    by (rule r_into_rtranclp) (rule budget_step.reserve)
  moreover have "b_cancelled (cancel fresh_budget)" by (simp add: cancel_def Let_def)
  ultimately show ?thesis using terminal_refuses by blast
qed

end
