(* ===== verification/Retry.thy ===== *)
theory Retry
  imports Pool Budget
begin

text \<open>
  Same-provider retry with exponential backoff and full jitter, \<open>_post_with_retry\<close> of
  \<open>szl_router/core.py\<close>, over an arbitrary \<open>poster\<close> (the code passes \<open>_post_chat\<close> or
  \<open>_post_embeddings\<close>). \<open>retry_plain\<close> is the loop without a budget, \<open>budget_iter\<close> one turn of the
  \<open>while True\<close> with one, \<open>budget_loop\<close> the loop; it ends because every turn that goes round again
  has used up an attempt (the termination proof). The callback \<open>on_attempt\<close> is \<open>attempts.append\<close>
  wherever the code passes one, so the attempt list is threaded and the argument is a flag.

  The locale \<open>transport\<close> is what the loops need of a poster; its lemmas count the requests put on
  the wire: without a budget at most two for each of the provider's tries, with one at most one
  for each attempt the budget has granted.
\<close>

section \<open>Pieces\<close>

definition is_retryable_http :: "int \<Rightarrow> bool" where
  "is_retryable_http status = (status \<in> {429, 500, 502, 503, 504})"

definition backoff_sleep_seconds :: "sys \<Rightarrow> nat \<Rightarrow> world \<Rightarrow> rat \<times> world" where
  "backoff_sleep_seconds s attempt w =
     (let ceiling = min (s_retry_cap s) (s_retry_base s * 2 ^ attempt)
      in if 0 < ceiling then (s_unif s (w_draws w) * ceiling, w\<lparr>w_draws := Suc (w_draws w)\<rparr>)
         else (0, w))"

definition latency_ms :: "rat \<Rightarrow> rat \<Rightarrow> int" where
  "latency_ms now started = max 0 (py_trunc ((now - started) * 1000))"

text \<open>\<open>str(e)\<close> and \<open>f"{type(e).__name__}: {e}"\<close>\<close>

fun exn_str :: "exn \<Rightarrow> string" where
  "exn_str (HTTPError code reason _) = ''HTTP Error '' @ show_int code @ '': '' @ reason"
| "exn_str (ConnError c m) = m"
| "exn_str (PyError c m) = m"
| "exn_str (BudgetStop r _) = r"

fun exn_class :: "exn \<Rightarrow> string" where
  "exn_class (HTTPError _ _ _) = ''HTTPError''"
| "exn_class (ConnError c _) = c"
| "exn_class (PyError c _) = c"
| "exn_class (BudgetStop _ _) = ''BudgetStop''"

definition exn_text :: "exn \<Rightarrow> string" where
  "exn_text e = take 200 (exn_class e @ '': '' @ exn_str e)"

definition http_error_text :: "sys \<Rightarrow> exn \<Rightarrow> string" where
  "http_error_text s e =
     (case e of
        HTTPError _ _ body \<Rightarrow>
          (case s_decode s body of Some t \<Rightarrow> take 200 t | None \<Rightarrow> take 200 (exn_str e))
      | _ \<Rightarrow> take 200 (exn_str e))"

definition transport_attempt ::
  "'z provider_scheme \<Rightarrow> json \<Rightarrow> bool \<Rightarrow> int option \<Rightarrow> string option \<Rightarrow> int \<Rightarrow> attempt" where
  "transport_attempt p payload ok status error lat =
     mk_attempt (p_name p) (case jget payload ''model'' of JStr m \<Rightarrow> m | _ \<Rightarrow> []) ok status error (Some lat)"

type_synonym 'z poster = "'z provider_scheme \<Rightarrow> json \<Rightarrow> json \<Rightarrow> world \<Rightarrow> (exn + json) \<times> world"

section \<open>Without a budget\<close>

text \<open>Which exceptions the loop keeps and retries; any other leaves it at once.\<close>

fun retryable :: "exn \<Rightarrow> bool" where
  "retryable (HTTPError code _ _) = is_retryable_http code"
| "retryable (ConnError _ _) = True"
| "retryable _ = False"

text \<open>
  \<open>for attempt in range(_RETRY_MAX_ATTEMPTS)\<close>. With a setting of zero or less the body never
  runs and \<open>raise last_exc\<close> reads an unassigned variable.
\<close>

function retry_plain ::
  "sys \<Rightarrow> 'z poster \<Rightarrow> 'z provider_scheme \<Rightarrow> json \<Rightarrow> json \<Rightarrow> nat \<Rightarrow> world \<Rightarrow> (exn + json) \<times> world" where
  "retry_plain s post p payload tmo attempt w =
     (if int attempt < s_retry_max s
      then case post p payload tmo w of
             (Inr v, w1) \<Rightarrow> (Inr v, w1)
           | (Inl e, w1) \<Rightarrow>
               if \<not> retryable e then (Inl e, w1)
               else if s_retry_max s \<le> int (attempt + 1) then (Inl e, w1)
               else let (d, w2) = backoff_sleep_seconds s attempt w1
                    in retry_plain s post p payload tmo (attempt + 1) (time_sleep d w2)
      else (Inl (PyError ''UnboundLocalError'' ''last_exc''), w))"
  by pat_completeness auto
termination
  by (relation "measure (\<lambda>(s, post, p, payload, tmo, attempt, w). nat (s_retry_max s - int attempt))") auto

declare retry_plain.simps [simp del]

section \<open>With a budget\<close>

type_synonym rstate = "budget \<times> attempt list \<times> world"

datatype turn = Done "exn + json" rstate | Again exn rstate

text \<open>\<open>budget.note_outcome\<close>, then \<open>on_attempt\<close> with the latency read from the budget's clock.\<close>

definition observe ::
  "nat \<Rightarrow> string \<Rightarrow> bool \<Rightarrow> (int \<Rightarrow> attempt) \<Rightarrow> rat \<Rightarrow> budget \<Rightarrow> attempt list
     \<Rightarrow> exn option \<times> budget \<times> attempt list" where
  "observe n oc on row started b attempts =
     (case note_outcome n oc b of
        (Inl e, b1) \<Rightarrow> (Some e, b1, attempts)
      | (Inr _, b1) \<Rightarrow>
          if on
          then case read_clock b1 of
                 (Inl e, b2) \<Rightarrow> (Some e, b2, attempts)
               | (Inr now, b2) \<Rightarrow> (None, b2, attempts @ [row (latency_ms now started)])
          else (None, b1, attempts))"

text \<open>After a failed dispatch that may be retried: back off if the budget allows it.\<close>

definition back_off :: "sys \<Rightarrow> nat \<Rightarrow> exn \<Rightarrow> rstate \<Rightarrow> turn" where
  "back_off s n prev st =
     (let (b, attempts, w) = st;
          (d, w1) = backoff_sleep_seconds s (n - 1) w
      in case allow_backoff (JFloat (Fin d)) b of
           (Inl e, b1) \<Rightarrow> Done (Inl e) (b1, attempts, w1)
         | (Inr False, b1) \<Rightarrow> Done (Inl prev) (b1, attempts, w1)
         | (Inr True, b1) \<Rightarrow>
             (case budget_sleep (JFloat (Fin d)) b1 of
                (Inl e, b2) \<Rightarrow> Done (Inl e) (b2, attempts, w1)
              | (Inr _, b2) \<Rightarrow> Again prev (b2, attempts, w1)))"

text \<open>What follows the poster's return or exception, attempt \<open>n\<close> having started at \<open>started\<close>.\<close>

definition after_post ::
  "sys \<Rightarrow> 'z provider_scheme \<Rightarrow> json \<Rightarrow> bool \<Rightarrow> nat \<Rightarrow> rat \<Rightarrow> exn + json \<Rightarrow> rstate \<Rightarrow> turn" where
  "after_post s p payload on n started res st =
     (let (b, attempts, w) = st in
      case res of
        Inr v \<Rightarrow>
          (case observe n ''known'' on (transport_attempt p payload True (Some 200) None)
                  started b attempts of
             (Some e, b1, a1) \<Rightarrow> Done (Inl e) (b1, a1, w)
           | (None, b1, a1) \<Rightarrow> Done (Inr v) (b1, a1, w))
      | Inl (HTTPError code reason body) \<Rightarrow>
          (case observe n ''known'' on (transport_attempt p payload False (Some code)
                  (Some (http_error_text s (HTTPError code reason body)))) started b attempts of
             (Some e, b1, a1) \<Rightarrow> Done (Inl e) (b1, a1, w)
           | (None, b1, a1) \<Rightarrow>
               if is_retryable_http code then back_off s n (HTTPError code reason body) (b1, a1, w)
               else Done (Inl (HTTPError code reason body)) (b1, a1, w))
      | Inl (ConnError c m) \<Rightarrow>
          (case observe n ''unknown'' on (transport_attempt p payload False None
                  (Some (exn_text (ConnError c m)))) started b attempts of
             (Some e, b1, a1) \<Rightarrow> Done (Inl e) (b1, a1, w)
           | (None, b1, a1) \<Rightarrow> back_off s n (ConnError c m) (b1, a1, w))
      | Inl e0 \<Rightarrow>
          (case observe n ''unknown'' on (transport_attempt p payload False None
                  (Some (exn_text e0))) started b attempts of
             (Some e, b1, a1) \<Rightarrow> Done (Inl e) (b1, a1, w)
           | (None, b1, a1) \<Rightarrow> Done (Inl e0) (b1, a1, w)))"

definition budget_iter ::
  "sys \<Rightarrow> 'z poster \<Rightarrow> 'z provider_scheme \<Rightarrow> json \<Rightarrow> json \<Rightarrow> bool \<Rightarrow> exn option \<Rightarrow> rstate \<Rightarrow> turn" where
  "budget_iter s post p payload tmo on prev st =
     (let (b, attempts, w) = st in
      case reserve tmo b of
        (Inl e, b1) \<Rightarrow>
          Done (Inl (case e of BudgetStop _ _ \<Rightarrow> (case prev of Some l \<Rightarrow> l | None \<Rightarrow> e) | _ \<Rightarrow> e))
               (b1, attempts, w)
      | (Inr (n, send_timeout), b1) \<Rightarrow>
          (case read_clock b1 of
             (Inl e, b2) \<Rightarrow> Done (Inl e) (b2, attempts, w)
           | (Inr started, b2) \<Rightarrow>
               let (res, w1) = post p payload (JFloat (Fin send_timeout)) (w\<lparr>w_budgeted := True\<rparr>)
               in after_post s p payload on n started res
                    (b2, attempts, w1\<lparr>w_budgeted := w_budgeted w\<rparr>)))"

subsection \<open>Every turn uses an attempt\<close>

lemma observe_counts:
  assumes "observe n oc on row started b attempts = (e, b', a')"
  shows "b_max b' = b_max b" "b_reserved b' = b_reserved b"
  using assms
  by (auto simp: observe_def note_outcome_def dest!: read_clock_pair
      split: sum.splits prod.splits option.splits if_splits)

lemma back_off_counts:
  assumes "back_off s n l (b, a, w) = Again e (b', a', w')"
  shows "b_max b' = b_max b" "b_reserved b' = b_reserved b"
  using assms
  by (auto simp: back_off_def budget_sleep_def elim!: allow_backoff_True
      split: sum.splits prod.splits bool.splits if_splits)

text \<open>The shapes of \<open>after_post\<close>: the record of the attempt failed, the call returns, or it backs off.\<close>

lemma after_post_cases:
  assumes "after_post s p payload on n started res (b, a, w) = t"
  obtains (broken) oc st er e b1 a1 where
      "observe n oc on (transport_attempt p payload (\<exists>v. res = Inr v) st er) started b a = (Some e, b1, a1)"
      "t = Done (Inl e) (b1, a1, w)"
    | (returns) oc st er b1 a1 where
      "observe n oc on (transport_attempt p payload (\<exists>v. res = Inr v) st er) started b a = (None, b1, a1)"
      "t = Done res (b1, a1, w)"
    | (retries) oc st er e b1 a1 where "res = Inl e" "retryable e"
      "observe n oc on (transport_attempt p payload (\<exists>v. res = Inr v) st er) started b a = (None, b1, a1)"
      "t = back_off s n e (b1, a1, w)"
proof (cases res)
  case (Inr v)
  show thesis
    using assms Inr broken [of "''known''" "Some 200" None] returns [of "''known''" "Some 200" None]
    by (auto simp: after_post_def split: prod.splits option.splits)
next
  case (Inl e)
  show thesis
  proof (cases e)
    case (HTTPError code reason body)
    let ?er = "Some (http_error_text s (HTTPError code reason body))"
    show thesis
      using assms Inl HTTPError broken [of "''known''" "Some code" ?er]
        returns [of "''known''" "Some code" ?er] retries [of _ "''known''" "Some code" ?er]
      by (auto simp: after_post_def split: prod.splits option.splits if_splits)
  next
    case (ConnError c m)
    let ?er = "Some (exn_text (ConnError c m))"
    show thesis
      using assms Inl ConnError broken [of "''unknown''" None ?er]
        retries [of _ "''unknown''" None ?er]
      by (auto simp: after_post_def split: prod.splits option.splits)
  next
    case (PyError c m)
    let ?er = "Some (exn_text (PyError c m))"
    show thesis
      using assms Inl PyError broken [of "''unknown''" None ?er] returns [of "''unknown''" None ?er]
      by (auto simp: after_post_def split: prod.splits option.splits)
  next
    case (BudgetStop r i)
    let ?er = "Some (exn_text (BudgetStop r i))"
    show thesis
      using assms Inl BudgetStop broken [of "''unknown''" None ?er] returns [of "''unknown''" None ?er]
      by (auto simp: after_post_def split: prod.splits option.splits)
  qed
qed

lemma after_post_Again:
  assumes "after_post s p payload on n started res (b, a, w) = Again e (b', a', w')"
  shows "b_max b' = b_max b \<and> b_reserved b' = b_reserved b"
  using assms
proof (cases rule: after_post_cases)
  case (retries oc st er e' b1 a1)
  then show ?thesis
    using observe_counts [OF retries(3)] back_off_counts [OF retries(4) [symmetric]] by simp
qed auto

lemma budget_iter_Again:
  assumes "budget_iter s post p payload tmo on l (b, a, w) = Again e (b', a', w')"
  shows "b_max b' = b_max b \<and> b_reserved b' = Suc (b_reserved b) \<and> b_reserved b < b_max b"
proof -
  from assms obtain n d b1 where r: "reserve tmo b = (Inr (n, d), b1)"
    by (auto simp: budget_iter_def split: sum.splits prod.splits)
  with assms obtain started b2 res w1 where rc: "read_clock b1 = (Inr started, b2)"
    and ap: "after_post s p payload on n started res (b2, a, w1) = Again e (b', a', w')"
    by (auto simp: budget_iter_def Let_def split: sum.splits prod.splits)
  show ?thesis
    by (rule reserve_Inr [OF r]) (use after_post_Again [OF ap] read_clock_pair [OF rc] in simp)
qed

function budget_loop ::
  "sys \<Rightarrow> 'z poster \<Rightarrow> 'z provider_scheme \<Rightarrow> json \<Rightarrow> json \<Rightarrow> bool \<Rightarrow> exn option \<Rightarrow> rstate \<Rightarrow> (exn + json) \<times> rstate"
  where
  "budget_loop s post p payload tmo on prev st =
     (case budget_iter s post p payload tmo on prev st of
        Done r st' \<Rightarrow> (r, st')
      | Again e st' \<Rightarrow> budget_loop s post p payload tmo on (Some e) st')"
  by pat_completeness auto
termination
proof (relation "measure (\<lambda>(s, post, p, payload, tmo, on, prev, (b, a, w)). b_max b - b_reserved b)",
    goal_cases)
  case 1
  show ?case by simp
next
  case (2 s post p payload tmo on prev st e st')
  obtain b a w b' a' w' where "st = (b, a, w)" "st' = (b', a', w')"
    by (metis prod_cases3)
  with 2 budget_iter_Again [of s post p payload tmo on prev b a w e b' a' w']
  show ?case by (auto simp: diff_less_mono2)
qed

declare budget_loop.simps [simp del]

section \<open>\<open>_post_with_retry\<close>\<close>

definition post_with_retry ::
  "sys \<Rightarrow> 'z poster \<Rightarrow> 'z provider_scheme \<Rightarrow> json \<Rightarrow> json \<Rightarrow> budget option \<Rightarrow> bool \<Rightarrow> attempt list \<Rightarrow> world
     \<Rightarrow> (exn + json) \<times> budget option \<times> attempt list \<times> world" where
  "post_with_retry s post p payload tmo budget on attempts w =
     (case budget of
        None \<Rightarrow>
          if on then (Inl (ValueError ''on_attempt requires a request budget''), None, attempts, w)
          else let (r, w') = retry_plain s post p payload tmo 0 w in (r, None, attempts, w')
      | Some b \<Rightarrow>
          let (r, (b', a', w')) = budget_loop s post p payload tmo on None (b, attempts, w)
          in (r, Some b', a', w'))"

section \<open>What the loops need of a poster\<close>

definition net_ok :: "world \<Rightarrow> bool" where
  "net_ok w \<longleftrightarrow> pool_ok w \<and> pool_origin w"

lemma net_ok_unread [simp]:
  "net_ok (w\<lparr>w_budgeted := x\<rparr>) = net_ok w" "net_ok (w\<lparr>w_draws := n\<rparr>) = net_ok w"
  "net_ok (w\<lparr>w_slept := l\<rparr>) = net_ok w" "net_ok (w\<lparr>w_tick := n\<rparr>) = net_ok w"
  "net_ok (w\<lparr>w_cool := c\<rparr>) = net_ok w" "net_ok (w\<lparr>w_ecache := e\<rparr>) = net_ok w"
  "net_ok (w\<lparr>w_sink := x'\<rparr>) = net_ok w"
  by (simp_all add: net_ok_def pool_ok_def pool_origin_def idle_ids_def)

lemma backoff_frame:
  assumes "backoff_sleep_seconds s n w = (d, w')"
  shows "w_wire w' = w_wire w" "w_budgeted w' = w_budgeted w" "net_ok w' = net_ok w" "same_tables w w'"
  using assms by (auto simp: backoff_sleep_seconds_def Let_def same_tables_def split: if_splits)

lemma time_sleep_frame [simp]:
  "w_wire (time_sleep d w) = w_wire w" "w_budgeted (time_sleep d w) = w_budgeted w"
  "net_ok (time_sleep d w) = net_ok w" "same_tables w (time_sleep d w)"
  by (simp_all add: time_sleep_def same_tables_def)

text \<open>A row of the trail that names this provider and the model of this payload.\<close>

definition row_for :: "'z provider_scheme \<Rightarrow> json \<Rightarrow> attempt \<Rightarrow> bool" where
  "row_for p payload a \<longleftrightarrow> at_provider a = p_name p
     \<and> at_model a = (case jget payload ''model'' of JStr m \<Rightarrow> m | _ \<Rightarrow> [])"

lemma transport_attempt_row [simp]:
  "row_for p payload (transport_attempt p payload ok st er lat)"
  "at_ok (transport_attempt p payload ok st er lat) = ok"
  by (simp_all add: row_for_def transport_attempt_def)

lemma observe_effect:
  assumes "observe n oc on (transport_attempt p payload ok st er) started b a = (e, b', a')"
  shows "budget_step\<^sup>*\<^sup>* b b' \<and> b_reserved b' = b_reserved b \<and>
    (if e = None \<and> on then \<exists>row. a' = a @ [row] \<and> row_for p payload row \<and> at_ok row = ok else a' = a)"
proof -
  obtain x b1 where n: "note_outcome n oc b = (x, b1)" by fastforce
  obtain y b2 where r: "read_clock b1 = (y, b2)" by fastforce
  have 1: "budget_step b b1" using budget_step.note_outcome [of b n oc] n by simp
  have 2: "budget_step b1 b2" using budget_step.read [of b1] r by simp
  have "budget_step\<^sup>*\<^sup>* b b1" "budget_step\<^sup>*\<^sup>* b b2" using 1 2 by auto
  with assms n r observe_counts(2) [OF assms] show ?thesis
    by (cases x; cases on; cases y) (auto simp: observe_def)
qed

lemma back_off_effect:
  assumes "back_off s n e (b, a, w) = t"
  obtains (over) x b' w' where "t = Done (Inl x) (b', a, w')" "budget_step\<^sup>*\<^sup>* b b'"
      "b_reserved b' = b_reserved b" "w_wire w' = w_wire w" "w_budgeted w' = w_budgeted w"
      "net_ok w' = net_ok w" "same_tables w w'"
    | (again) b' w' where "t = Again e (b', a, w')" "budget_step\<^sup>*\<^sup>* b b'"
      "b_reserved b' = b_reserved b" "w_wire w' = w_wire w" "w_budgeted w' = w_budgeted w"
      "net_ok w' = net_ok w" "same_tables w w'"
proof -
  obtain d w1 where d: "backoff_sleep_seconds s (n - 1) w = (d, w1)" by fastforce
  note w1 = backoff_frame [OF d]
  obtain x b1 where al: "allow_backoff (JFloat (Fin d)) b = (x, b1)" by fastforce
  obtain y b2 where sl: "budget_sleep (JFloat (Fin d)) b1 = (y, b2)" by fastforce
  have 1: "budget_step b b1" using budget_step.allow_backoff [of b "JFloat (Fin d)"] al by simp
  have 2: "budget_step b1 b2" using budget_step.sleep [of b1 "JFloat (Fin d)"] sl by simp
  have r1: "b_reserved b1 = b_reserved b"
    using allow_backoff_frame [OF al] by (auto dest: arg_cong [where f = b_reserved])
  have r2: "b_reserved b2 = b_reserved b"
    using sl r1 by (auto simp: budget_sleep_def split: sum.splits if_splits)
  have "budget_step\<^sup>*\<^sup>* b b1" "budget_step\<^sup>*\<^sup>* b b2" using 1 2 by auto
  with assms d w1 al sl r1 r2 that show thesis
    by (cases x; cases y) (auto simp: back_off_def split: bool.splits)
qed

text \<open>
  From one state of the loop to a later one, the trail having grown by \<open>rows\<close>: only budget calls
  were made, at most one request was sent for each attempt reserved.
\<close>

definition ran ::
  "(wire_req \<Rightarrow> bool) \<Rightarrow> 'z provider_scheme \<Rightarrow> json \<Rightarrow> rstate \<Rightarrow> rstate \<Rightarrow> attempt list \<Rightarrow> bool" where
  "ran P p payload st st' rows = (case (st, st') of ((b, a, w), (b', a', w')) \<Rightarrow>
     budget_step\<^sup>*\<^sup>* b b' \<and> b_reserved b \<le> b_reserved b'
     \<and> wire_grows P (b_reserved b' - b_reserved b) w w' \<and> net_ok w' \<and> w_budgeted w' = w_budgeted w
     \<and> same_tables w w' \<and> a' = a @ rows \<and> list_all (row_for p payload) rows)"

text \<open>The rows an outcome leaves: failures, then a success if and only if the call returned.\<close>

definition trail_ok :: "exn + json \<Rightarrow> attempt list \<Rightarrow> nat \<Rightarrow> bool" where
  "trail_ok r rows n =
     (case r of
        Inr _ \<Rightarrow> rows \<noteq> [] \<and> at_ok (last rows) \<and> list_all (Not \<circ> at_ok) (butlast rows) \<and> length rows = n
      | Inl _ \<Rightarrow> list_all (Not \<circ> at_ok) rows \<and> length rows \<le> n \<and> n \<le> Suc (length rows))"

lemma ran_trans:
  "ran P p payload st st' rows \<Longrightarrow> ran P p payload st' st'' rows' \<Longrightarrow> ran P p payload st st'' (rows @ rows')"
  by (auto simp: ran_def same_tables_def split: prod.splits) (erule (1) wire_grows_trans, simp)+

lemma trail_ok_Cons: "\<not> at_ok row \<Longrightarrow> trail_ok r rows n \<Longrightarrow> trail_ok r (row # rows) (Suc n)"
  by (auto simp: trail_ok_def split: sum.splits)

text \<open>
  A call's effect with and without a budget: without one at most \<open>n\<close> requests, with one at most as
  many as the attempts it reserved, and only budget calls on it.
\<close>

type_synonym cstate = "budget option \<times> attempt list \<times> world"

definition adv :: "(wire_req \<Rightarrow> bool) \<Rightarrow> nat \<Rightarrow> cstate \<Rightarrow> cstate \<Rightarrow> bool" where
  "adv P n st st' = (case (st, st') of ((bo, a, w), (bo', a', w')) \<Rightarrow>
     net_ok w' \<and> \<not> w_budgeted w'
     \<and> (case (bo, bo') of
          (None, None) \<Rightarrow> wire_grows P n w w'
        | (Some b, Some b') \<Rightarrow> budget_step\<^sup>*\<^sup>* b b' \<and> b_reserved b \<le> b_reserved b'
            \<and> wire_grows P (b_reserved b' - b_reserved b) w w'
        | _ \<Rightarrow> False))"

lemma adv_trans: "adv P n st st' \<Longrightarrow> adv P m st' st'' \<Longrightarrow> n + m \<le> k \<Longrightarrow> adv P k st st''"
  by (auto simp: adv_def split: prod.splits option.splits)
    (erule (1) wire_grows_trans, simp)+

lemma adv_refl: "net_ok w \<Longrightarrow> \<not> w_budgeted w \<Longrightarrow> adv P n (bo, a, w) (bo, a', w)"
  by (simp add: adv_def split: option.split)

text \<open>A change of the world the wire and the pool do not see.\<close>

lemma adv_quiet:
  "adv P n st (bo, a, w) \<Longrightarrow> w_wire w' = w_wire w \<Longrightarrow> net_ok w' = net_ok w \<Longrightarrow>
   w_budgeted w' = w_budgeted w \<Longrightarrow> adv P n st (bo, a', w')"
  by (auto simp: adv_def wire_grows_def split: prod.splits option.splits)

lemma adv_budget:
  "adv P n st (Some b, a, w) \<Longrightarrow> budget_step b b' \<Longrightarrow> b_reserved b' = b_reserved b \<Longrightarrow>
   adv P n st (Some b', a, w)"
  by (auto simp: adv_def split: prod.splits option.splits)

lemma adv_P: "adv P n st st' \<Longrightarrow> (\<And>q. P q \<Longrightarrow> Q q) \<Longrightarrow> adv Q n st st'"
  by (auto simp: adv_def split: prod.splits option.splits dest: wire_grows_P)

lemma adv_mono: "adv P n st st' \<Longrightarrow> n \<le> m \<Longrightarrow> adv P m st st'"
  by (auto simp: adv_def split: prod.splits option.splits dest: wire_grows_mono)

lemma adv_kind: "adv P n (bo, a, w) (bo', a', w') \<Longrightarrow> (bo' = None) = (bo = None)"
  by (auto simp: adv_def split: option.splits)

text \<open>
  The interface: the requests a call sends all satisfy \<open>sent\<close>, at most one of them under a budget
  and at most two without; the pool's invariants, the budget flag and the tables are kept.
\<close>

locale transport =
  fixes post :: "'z poster" and sent :: "'z provider_scheme \<Rightarrow> json \<Rightarrow> wire_req \<Rightarrow> bool"
  assumes post_sends: "post p payload tmo w = (r, w') \<Longrightarrow> net_ok w \<Longrightarrow>
      wire_grows (sent p payload) (if w_budgeted w then 1 else 2) w w' \<and> net_ok w'
      \<and> w_budgeted w' = w_budgeted w \<and> same_tables w w'"
begin

lemma retry_plain_sends:
  "retry_plain s post p payload tmo k w = (r, w') \<Longrightarrow> net_ok w \<Longrightarrow> \<not> w_budgeted w \<Longrightarrow>
   wire_grows (sent p payload) (2 * nat (s_retry_max s - int k)) w w' \<and> net_ok w' \<and> \<not> w_budgeted w'
   \<and> same_tables w w'"
proof (induction "nat (s_retry_max s - int k)" arbitrary: k w rule: less_induct)
  case less
  let ?n = "nat (s_retry_max s - int k)"
  show ?case
  proof (cases "int k < s_retry_max s")
    case False
    with less.prems show ?thesis by (simp add: retry_plain.simps [of s post p payload tmo k w])
  next
    case True
    obtain x w1 where p: "post p payload tmo w = (x, w1)" by fastforce
    have w1: "wire_grows (sent p payload) 2 w w1" "net_ok w1" "\<not> w_budgeted w1" "same_tables w w1"
      using post_sends [OF p less.prems(2)] less.prems(3) by auto
    have le: "2 \<le> 2 * ?n" using True by simp
    note here = wire_grows_mono [OF w1(1) le]
    show ?thesis
    proof (cases "\<exists>e. x = Inl e \<and> retryable e \<and> int (k + 1) < s_retry_max s")
      case False
      with less.prems(1) True p have "w' = w1"
        by (auto simp: retry_plain.simps [of s post p payload tmo k w] split: sum.splits if_splits)
      with w1 here show ?thesis by simp
    next
      case more: True
      obtain d w2 where d: "backoff_sleep_seconds s k w1 = (d, w2)" by fastforce
      note w2 = backoff_frame [OF d]
      have rec: "retry_plain s post p payload tmo (k + 1) (time_sleep d w2) = (r, w')"
        using less.prems(1) True p more d
        by (auto simp: retry_plain.simps [of s post p payload tmo k w])
      have "nat (s_retry_max s - int (k + 1)) < ?n" using True by simp
      from less.hyps [OF this rec] w1 w2
      have ih: "wire_grows (sent p payload) (2 * nat (s_retry_max s - int (k + 1))) (time_sleep d w2) w'"
        "net_ok w'" "\<not> w_budgeted w'" "same_tables (time_sleep d w2) w'" by auto
      have "2 + 2 * nat (s_retry_max s - int (k + 1)) \<le> 2 * ?n" using True by linarith
      moreover have "wire_grows (sent p payload) (2 * nat (s_retry_max s - int (k + 1))) w1 w'"
        using ih(1) w2(1) by (simp add: wire_grows_def)
      ultimately have "wire_grows (sent p payload) (2 * ?n) w w'"
        using wire_grows_trans [OF w1(1)] by blast
      moreover have "same_tables w w'"
        using w1(4) w2(4) ih(4) by (simp add: same_tables_def time_sleep_def)
      ultimately show ?thesis using ih by blast
    qed
  qed
qed

lemma budget_iter_effect:
  assumes "budget_iter s post p payload tmo on prev (b, a, w) = t" "net_ok w"
  shows "\<exists>rows. (case t of
      Done r (b', a', w') \<Rightarrow> ran (sent p payload) p payload (b, a, w) (b', a', w') rows
        \<and> (on \<longrightarrow> trail_ok r rows (b_reserved b' - b_reserved b))
    | Again e (b', a', w') \<Rightarrow> ran (sent p payload) p payload (b, a, w) (b', a', w') rows
        \<and> b_reserved b' = Suc (b_reserved b) \<and> (on \<longrightarrow> (\<exists>row. rows = [row] \<and> \<not> at_ok row)))"
proof -
  obtain x b1 where res: "reserve tmo b = (x, b1)" by fastforce
  have s1: "budget_step b b1" using budget_step.reserve [of b tmo] res by simp
  show ?thesis
  proof (cases x)
    case (Inl e)
    have "b_reserved b1 = b_reserved b"
      using reserve_Inl [of tmo b e b1] res Inl by (auto dest: arg_cong [where f = b_reserved])
    with assms res Inl s1 show ?thesis
      by (auto simp: budget_iter_def ran_def trail_ok_def)
  next
    case (Inr nd)
    obtain n d where nd: "nd = (n, d)" by (cases nd)
    have r1: "b_reserved b1 = Suc (b_reserved b)"
      using res Inr nd by (auto elim!: reserve_Inr)
    obtain y b2 where rc: "read_clock b1 = (y, b2)" by fastforce
    have s2: "budget_step b1 b2" using budget_step.read [of b1] rc by simp
    have r2: "b_reserved b2 = Suc (b_reserved b)" using r1 read_clock_pair [OF rc] by simp
    have s12: "budget_step\<^sup>*\<^sup>* b b2" using s1 s2 by auto
    show ?thesis
    proof (cases y)
      case (Inl e)
      with assms res Inr nd rc s12 r2 show ?thesis
        by (auto simp: budget_iter_def ran_def trail_ok_def)
    next
      case y: (Inr started)
      obtain rs w1 where po: "post p payload (JFloat (Fin d)) (w\<lparr>w_budgeted := True\<rparr>) = (rs, w1)"
        by fastforce
      have w1: "wire_grows (sent p payload) 1 w w1" "net_ok w1" "same_tables w w1"
        using post_sends [OF po] assms(2) by (auto simp: wire_grows_def same_tables_def)
      let ?w = "w1\<lparr>w_budgeted := w_budgeted w\<rparr>"
      have w2: "wire_grows (sent p payload) 1 w ?w" "net_ok ?w" "same_tables w ?w"
        using w1 by (auto simp: wire_grows_def same_tables_def)
      have ap: "after_post s p payload on n started rs (b2, a, ?w) = t"
        using assms(1) res Inr nd rc y po by (simp add: budget_iter_def)
      show ?thesis
        using ap
      proof (cases rule: after_post_cases)
        case (broken oc st er e b3 a3)
        with observe_effect [OF broken(1)] s12 r2 w2 show ?thesis
          by (auto simp: ran_def trail_ok_def)
      next
        case (returns oc st er b3 a3)
        note ob = observe_effect [OF returns(1)]
        show ?thesis
        proof (cases on)
          case True
          with ob obtain row where "a3 = a @ [row]" "row_for p payload row" "at_ok row = (\<exists>v. rs = Inr v)"
            by auto
          with returns ob s12 r2 w2 show ?thesis
            by (intro exI [of _ "[row]"]) (auto simp: ran_def trail_ok_def split: sum.splits)
        next
          case False
          with returns ob s12 r2 w2 show ?thesis by (auto simp: ran_def)
        qed
      next
        case (retries oc st er e b3 a3)
        note ob = observe_effect [OF retries(3)]
        define rows where "rows = drop (length a) a3"
        have rows: "a3 = a @ rows" "list_all (row_for p payload) rows"
          "on \<longrightarrow> (\<exists>row. rows = [row] \<and> \<not> at_ok row)"
          using ob retries(1) by (auto simp: rows_def split: if_splits)
        have tr: "on \<longrightarrow> trail_ok (Inl e') rows (Suc 0)" for e'
          using rows(3) by (auto simp: trail_ok_def)
        from retries(4) [symmetric] show ?thesis
        proof (cases rule: back_off_effect)
          case (over x b' w')
          with ob s12 r2 w2 rows tr show ?thesis
            by (intro exI [of _ rows]) (auto simp: ran_def same_tables_def wire_grows_def)
        next
          case (again b' w')
          with ob s12 r2 w2 rows show ?thesis
            by (intro exI [of _ rows]) (auto simp: ran_def same_tables_def wire_grows_def)
        qed
      qed
    qed
  qed
qed

lemma budget_loop_effect:
  "budget_loop s post p payload tmo on prev st = (r, st') \<Longrightarrow> net_ok (snd (snd st)) \<Longrightarrow>
   \<exists>rows. ran (sent p payload) p payload st st' rows
     \<and> (on \<longrightarrow> trail_ok r rows (b_reserved (fst st') - b_reserved (fst st)))"
proof (induction "b_max (fst st) - b_reserved (fst st)" arbitrary: prev st rule: less_induct)
  case less
  obtain b a w where st: "st = (b, a, w)" by (cases st)
  obtain t where t: "budget_iter s post p payload tmo on prev st = t" by simp
  have ok: "net_ok w" using less.prems(2) st by simp
  show ?case
  proof (cases t)
    case (Done x st2)
    with less.prems(1) t have "r = x" "st' = st2"
      by (simp_all add: budget_loop.simps [of s post p payload tmo on prev st])
    moreover obtain b2 a2 w2 where "st2 = (b2, a2, w2)" by (cases st2)
    ultimately show ?thesis
      using budget_iter_effect [OF t [unfolded st] ok] Done st by auto
  next
    case (Again e st2)
    have rec: "budget_loop s post p payload tmo on (Some e) st2 = (r, st')"
      using less.prems(1) t Again by (simp add: budget_loop.simps [of s post p payload tmo on prev st])
    obtain b2 a2 w2 where st2: "st2 = (b2, a2, w2)" by (cases st2)
    from budget_iter_effect [OF t [unfolded st] ok] Again st2
    obtain rows where rows: "ran (sent p payload) p payload st st2 rows"
      "b_reserved b2 = Suc (b_reserved b)" "on \<longrightarrow> (\<exists>row. rows = [row] \<and> \<not> at_ok row)"
      using st by auto
    have "b_max b2 - b_reserved b2 < b_max b - b_reserved b"
      using budget_iter_Again [of s post p payload tmo on prev b a w e b2 a2 w2] t st st2 Again
      by (auto simp: diff_less_mono2)
    moreover have "net_ok w2" using rows(1) st st2 by (simp add: ran_def)
    ultimately obtain rows' where rows': "ran (sent p payload) p payload st2 st' rows'"
      "on \<longrightarrow> trail_ok r rows' (b_reserved (fst st') - b_reserved b2)"
      using less.hyps [of st2 "Some e", OF _ rec] st st2 by auto
    obtain b' a' w' where st': "st' = (b', a', w')" by (cases st')
    have "b_reserved b2 \<le> b_reserved b'" using rows'(1) st2 st' by (simp add: ran_def)
    with rows(2) have "b_reserved b' - b_reserved b = Suc (b_reserved b' - b_reserved b2)" by simp
    with rows rows' st st' have "on \<longrightarrow> trail_ok r (rows @ rows') (b_reserved b' - b_reserved b)"
      by (auto intro: trail_ok_Cons)
    with ran_trans [OF rows(1) rows'(1)] st st' show ?thesis by auto
  qed
qed

lemma post_with_retry_effect:
  assumes "post_with_retry s post p payload tmo bo (bo \<noteq> None) a w = (r, bo', a', w')"
    and "net_ok w" "\<not> w_budgeted w"
  shows "adv (sent p payload) (2 * nat (s_retry_max s)) (bo, a, w) (bo', a', w') \<and> same_tables w w'
    \<and> (case (bo, bo') of
         (Some b, Some b') \<Rightarrow> (\<exists>rows. a' = a @ rows \<and> list_all (row_for p payload) rows
            \<and> trail_ok r rows (b_reserved b' - b_reserved b))
       | _ \<Rightarrow> a' = a)"
proof (cases bo)
  case None
  with assms(1) have "retry_plain s post p payload tmo 0 w = (r, w')" "bo' = None" "a' = a"
    by (auto simp: post_with_retry_def split: prod.splits)
  with None retry_plain_sends [OF this(1) assms(2,3)] show ?thesis by (simp add: adv_def)
next
  case (Some b)
  with assms(1) obtain b' where l: "budget_loop s post p payload tmo True None (b, a, w) = (r, (b', a', w'))"
    "bo' = Some b'"
    by (auto simp: post_with_retry_def split: prod.splits)
  obtain rows where "ran (sent p payload) p payload (b, a, w) (b', a', w') rows"
    "trail_ok r rows (b_reserved b' - b_reserved b)"
    using budget_loop_effect [OF l(1)] assms(2) by auto
  with Some l assms(3) show ?thesis by (auto simp: ran_def adv_def)
qed

end

end
