(* ===== verification/Upstream.thy ===== *)
theory Upstream
  imports Retry
begin

text \<open>
  The two posters of \<open>szl_router/core.py\<close>, \<open>_post_chat\<close> and \<open>_post_embeddings\<close>, with the headers
  they send, the provider whose endpoint and credential are frozen for one embeddings call
  (\<open>_ResolvedEmbeddingProvider\<close>), and the failure cooldown table.

  Both posters are shown to be a \<open>transport\<close>: each request they cause goes to the origin of the
  provider's own base URL and bears that provider's key and the encoded payload. The retry loops'
  bounds then hold for them.
\<close>

section \<open>Headers and posters\<close>

definition upstream_headers :: "string option \<Rightarrow> string dict" where
  "upstream_headers key =
     [(''Content-Type'', ''application/json''), (''User-Agent'', ''szl-router/1.0''),
      (''Accept'', ''application/json'')]
     @ (case key of None \<Rightarrow> [] | Some k \<Rightarrow> if k = [] then [] else [(''Authorization'', ''Bearer '' @ k)])"

definition payload_bytes :: "sys \<Rightarrow> json \<Rightarrow> string" where
  "payload_bytes s payload = utf8 (dumps (default_opts (s_frepr s)) payload)"

definition post_chat :: "sys \<Rightarrow> unit poster" where
  "post_chat s p payload tmo w =
     request_json s (base_url (s_env s) p @ ''/chat/completions'') (payload_bytes s payload)
       (upstream_headers (api_key (s_env s) p)) tmo w"

text \<open>\<open>_ResolvedEmbeddingProvider\<close>: the overriding methods read the two frozen fields.\<close>

record frozen_provider = provider +
  resolved_url :: string
  resolved_key :: "string option"

definition capture :: "env \<Rightarrow> provider \<Rightarrow> frozen_provider" where
  "capture e p = provider.extend p
     \<lparr>resolved_url = base_url e p, resolved_key = api_key e p\<rparr>"

definition frozen_available :: "env \<Rightarrow> frozen_provider \<Rightarrow> bool" where
  "frozen_available e p =
     (if enable_env p \<noteq> [] \<and>
         lower (env_get e (enable_env p) []) \<notin> {''1'', ''true'', ''yes'', ''on''} then False
      else if resolved_url p = [] then False
      else if key_env p \<noteq> [] then resolved_key p \<noteq> None
      else True)"

definition post_embeddings :: "sys \<Rightarrow> unit frozen_provider_ext poster" where
  "post_embeddings s p payload tmo w =
     request_json s (resolved_url p @ ''/embeddings'') (payload_bytes s payload)
       (upstream_headers (resolved_key p)) tmo w"

lemma capture_simps [simp]:
  "p_name (capture e p) = p_name p" "p_sovereign (capture e p) = p_sovereign p"
  "p_energy_source (capture e p) = p_energy_source p" "key_env (capture e p) = key_env p"
  "resolved_url (capture e p) = base_url e p" "resolved_key (capture e p) = api_key e p"
  by (simp_all add: capture_def provider.defs)

lemma frozen_available_capture: "frozen_available e (capture e p) = available e p"
  by (simp add: frozen_available_def available_def capture_def provider.defs)

section \<open>Both posters are transports\<close>

definition chat_sent :: "sys \<Rightarrow> provider \<Rightarrow> json \<Rightarrow> wire_req \<Rightarrow> bool" where
  "chat_sent s p payload =
     sent_to (base_url (s_env s) p @ ''/chat/completions'') (payload_bytes s payload)
       (upstream_headers (api_key (s_env s) p))"

definition embeddings_sent :: "sys \<Rightarrow> frozen_provider \<Rightarrow> json \<Rightarrow> wire_req \<Rightarrow> bool" where
  "embeddings_sent s p payload =
     sent_to (resolved_url p @ ''/embeddings'') (payload_bytes s payload) (upstream_headers (resolved_key p))"

lemma request_json_transport:
  assumes "request_json s u data headers tmo w = (r, w')" "net_ok w"
  shows "wire_grows (sent_to u data headers) (if w_budgeted w then 1 else 2) w w' \<and> net_ok w'
    \<and> w_budgeted w' = w_budgeted w \<and> same_tables w w'"
proof -
  have "same_tables w w'" using request_json_tables [of w s u data headers tmo] assms(1) by simp
  with assms request_json_pool_ok [OF _ assms(1)] request_json_grows [OF assms(1)]
  show ?thesis by (simp add: net_ok_def)
qed

interpretation chat_post: transport "post_chat s" "chat_sent s" for s
  by unfold_locales (auto simp: post_chat_def chat_sent_def dest: request_json_transport)

interpretation embeddings_post: transport "post_embeddings s" "embeddings_sent s" for s
  by unfold_locales (auto simp: post_embeddings_def embeddings_sent_def dest: request_json_transport)

section \<open>Failure cooldown\<close>

definition cooldown_seconds :: "sys \<Rightarrow> pyfloat" where
  "cooldown_seconds s =
     (let v = strip (env_get (s_env s) ''SZL_COOLDOWN_SECONDS'' [])
      in if v = [] then Fin 30
         else case s_float s v of Some f \<Rightarrow> f | None \<Rightarrow> Fin 30)"

text \<open>\<open>max(0.0, until - now)\<close>: with NaN the comparison is false and \<open>max\<close> keeps 0.0.\<close>

fun time_left :: "pyfloat \<Rightarrow> rat \<Rightarrow> pyfloat" where
  "time_left (Fin u) now = Fin (max 0 (u - now))"
| "time_left PInf now = PInf"
| "time_left _ now = Fin 0"

fun positive :: "pyfloat \<Rightarrow> bool" where
  "positive (Fin q) = (0 < q)"
| "positive PInf = True"
| "positive _ = False"

definition cooldown_remaining :: "sys \<Rightarrow> string \<Rightarrow> world \<Rightarrow> pyfloat \<times> world" where
  "cooldown_remaining s name w =
     (let until = (case dget (w_cool w) name of None \<Rightarrow> Fin 0 | Some u \<Rightarrow> u);
          (now, w') = read_time s w
      in (time_left until now, w'))"

text \<open>\<open>secs <= 0\<close> returns early; a NaN is not \<open><= 0\<close> and is stored.\<close>

definition set_cooldown :: "sys \<Rightarrow> string \<Rightarrow> world \<Rightarrow> world" where
  "set_cooldown s name w =
     (let store = (\<lambda>until w. w\<lparr>w_cool := dset name until (w_cool w)\<rparr>) in
      case cooldown_seconds s of
        Fin q \<Rightarrow> if q \<le> 0 then w else let (now, w') = read_time s w in store (Fin (now + q)) w'
      | NInf \<Rightarrow> w
      | x \<Rightarrow> let (now, w') = read_time s w in store x w')"

definition clear_cooldown :: "string \<Rightarrow> world \<Rightarrow> world" where
  "clear_cooldown name w = w\<lparr>w_cool := dpop name (w_cool w)\<rparr>"

fun warm_candidate_later :: "sys \<Rightarrow> route list \<Rightarrow> world \<Rightarrow> bool \<times> world" where
  "warm_candidate_later s [] w = (False, w)"
| "warm_candidate_later s ((name, up) # routes) w =
     (case dget PROVIDERS name of
        None \<Rightarrow> warm_candidate_later s routes w
      | Some p \<Rightarrow>
          if available (s_env s) p \<and> tier_of p \<notin> {''unqualified-grid'', ''paid-grid''}
          then let (left, w') = cooldown_remaining s name w
               in if positive left then warm_candidate_later s routes w' else (True, w')
          else warm_candidate_later s routes w)"

subsection \<open>What the table promises\<close>

lemma cooldown_remaining_frame:
  "cooldown_remaining s n w = (x, w') \<Longrightarrow> w' = w\<lparr>w_tick := w_tick w'\<rparr>"
  by (auto simp: cooldown_remaining_def read_time_def)

lemma set_cooldown_frame: "set_cooldown s n w = w\<lparr>w_tick := w_tick (set_cooldown s n w), w_cool := w_cool (set_cooldown s n w)\<rparr>"
  by (auto simp: set_cooldown_def read_time_def split: pyfloat.splits)

lemma warm_candidate_frame: "warm_candidate_later s rs w = (x, w') \<Longrightarrow> w' = w\<lparr>w_tick := w_tick w'\<rparr>"
proof (induction rs arbitrary: w)
  case Nil
  then show ?case by simp
next
  case (Cons r rs)
  obtain name up where r: "r = (name, up)" by (cases r)
  obtain left w1 where cr: "cooldown_remaining s name w = (left, w1)" by fastforce
  have w1: "w1 = w\<lparr>w_tick := w_tick w1\<rparr>" by (rule cooldown_remaining_frame [OF cr])
  have rec: "warm_candidate_later s rs w1 = (x, w') \<Longrightarrow> w' = w\<lparr>w_tick := w_tick w'\<rparr>"
    using Cons.IH [of w1] w1 by (metis world.surjective world.update_convs(1))
  show ?case
    using Cons r cr w1 rec by (auto split: option.splits if_splits)
qed

text \<open>A warm candidate is a route that the loop of \<open>chat\<close> can really use.\<close>

lemma tier_admitted:
  "tier_of p \<noteq> ''unqualified-grid'' \<and> tier_of p \<noteq> ''paid-grid'' \<longleftrightarrow> p_sovereign p"
  by (simp add: tier_of_def)

definition usable :: "sys \<Rightarrow> route \<Rightarrow> bool" where
  "usable s r = (case dget PROVIDERS (fst r) of None \<Rightarrow> False
     | Some p \<Rightarrow> available (s_env s) p \<and> tier_of p = ''sovereign'')"

lemma usable_Some: "dget PROVIDERS n = Some p \<Longrightarrow> usable s (n, m) = (available (s_env s) p \<and> p_sovereign p)"
  by (simp add: usable_def)

lemma warm_candidate_usable:
  "warm_candidate_later s rs w = (True, w') \<Longrightarrow> list_ex (usable s) rs"
proof (induction rs arbitrary: w)
  case Nil
  then show ?case by simp
next
  case (Cons r rs)
  obtain n m where r: "r = (n, m)" by (cases r)
  show ?case
  proof (cases "dget PROVIDERS n")
    case None
    with Cons r show ?thesis by auto
  next
    case (Some p)
    with Cons r usable_Some [OF Some] tier_admitted [of p] show ?thesis
      by (auto split: if_splits prod.splits)
  qed
qed

end
