(* ===== verification/Encoding.thy ===== *)
theory Encoding
  imports Prelude "HOL-Library.Word"
begin

text \<open>
  The parts of Python's \<open>hashlib\<close>, \<open>hmac\<close> and \<open>base64\<close> the code calls, over byte strings:
  SHA-256 on 32-bit words, HMAC-SHA256, \<open>b64encode\<close>, and \<open>b64decode\<close> in its two modes.

  The lemmas: a digest is 64 lower-case hexadecimal digits, and decoding inverts encoding in both
  modes.
\<close>

unbundle bit_operations_syntax

section \<open>SHA-256\<close>

definition sha_k :: "32 word list" where
  "sha_k = [
    1116352408, 1899447441, 3049323471, 3921009573, 961987163, 1508970993, 2453635748, 2870763221,
    3624381080, 310598401, 607225278, 1426881987, 1925078388, 2162078206, 2614888103, 3248222580,
    3835390401, 4022224774, 264347078, 604807628, 770255983, 1249150122, 1555081692, 1996064986,
    2554220882, 2821834349, 2952996808, 3210313671, 3336571891, 3584528711, 113926993, 338241895,
    666307205, 773529912, 1294757372, 1396182291, 1695183700, 1986661051, 2177026350, 2456956037,
    2730485921, 2820302411, 3259730800, 3345764771, 3516065817, 3600352804, 4094571909, 275423344,
    430227734, 506948616, 659060556, 883997877, 958139571, 1322822218, 1537002063, 1747873779,
    1955562222, 2024104815, 2227730452, 2361852424, 2428436474, 2756734187, 3204031479, 3329325298]"

definition sha_h0 :: "32 word list" where
  "sha_h0 = [
    1779033703, 3144134277, 1013904242, 2773480762, 1359893119, 2600822924, 528734635, 1541459225]"

definition rotr :: "nat \<Rightarrow> 32 word \<Rightarrow> 32 word" where
  "rotr n x = (drop_bit n x OR push_bit (32 - n) x)"

fun be_bytes :: "nat \<Rightarrow> int \<Rightarrow> string" where
  "be_bytes 0 n = []"
| "be_bytes (Suc k) n = be_bytes k (n div 256) @ [char_of (n mod 256)]"

definition be_word :: "string \<Rightarrow> 32 word" where
  "be_word bs = foldl (\<lambda>w c. push_bit 8 w OR of_nat (of_char c)) 0 bs"

definition sha_pad :: "string \<Rightarrow> string" where
  "sha_pad m = (let l = length m; z = (119 - l mod 64) mod 64 in
     m @ [char_of (128::nat)] @ replicate z (char_of (0::nat)) @ be_bytes 8 (8 * int l))"

text \<open>Cut into pieces of \<open>Suc k\<close>.\<close>

function chunks :: "nat \<Rightarrow> 'a list \<Rightarrow> 'a list list" where
  "chunks k xs = (if xs = [] then [] else take (Suc k) xs # chunks k (drop (Suc k) xs))"
  by pat_completeness auto
termination by (relation "measure (\<lambda>(k, xs). length xs)") auto

declare chunks.simps [simp del]

text \<open>The message schedule, newest word first.\<close>

fun schedule :: "nat \<Rightarrow> 32 word list \<Rightarrow> 32 word list" where
  "schedule 0 ws = ws"
| "schedule (Suc n) ws =
     (let a = ws ! 1; b = ws ! 14;
          s1 = rotr 17 a XOR rotr 19 a XOR drop_bit 10 a;
          s0 = rotr 7 b XOR rotr 18 b XOR drop_bit 3 b
      in schedule n ((s1 + ws ! 6 + s0 + ws ! 15) # ws))"

datatype sha_state = SHA "32 word" "32 word" "32 word" "32 word" "32 word" "32 word" "32 word" "32 word"

fun sha_round :: "sha_state \<Rightarrow> 32 word \<times> 32 word \<Rightarrow> sha_state" where
  "sha_round (SHA a b c d e f g h) (k, w) =
     (let t1 = h + (rotr 6 e XOR rotr 11 e XOR rotr 25 e) + ((e AND f) XOR ((NOT e) AND g)) + k + w;
          t2 = (rotr 2 a XOR rotr 13 a XOR rotr 22 a) + ((a AND b) XOR (a AND c) XOR (b AND c))
      in SHA (t1 + t2) a b c (d + t1) e f g)"

fun sha_words :: "sha_state \<Rightarrow> 32 word list" where
  "sha_words (SHA a b c d e f g h) = [a, b, c, d, e, f, g, h]"

definition sha_of_words :: "32 word list \<Rightarrow> sha_state" where
  "sha_of_words ws = SHA (ws ! 0) (ws ! 1) (ws ! 2) (ws ! 3) (ws ! 4) (ws ! 5) (ws ! 6) (ws ! 7)"

definition sha_block :: "32 word list \<Rightarrow> string \<Rightarrow> 32 word list" where
  "sha_block hs block =
     (let ws = rev (schedule 48 (rev (map be_word (chunks 3 block))))
      in map2 (+) hs (sha_words (foldl sha_round (sha_of_words hs) (zip sha_k ws))))"

definition sha256 :: "string \<Rightarrow> string" where
  "sha256 m = concat (map (\<lambda>w. be_bytes 4 (uint w)) (foldl sha_block sha_h0 (chunks 63 (sha_pad m))))"

definition hex_char :: "nat \<Rightarrow> char" where
  "hex_char n = (if n < 10 then char_of (48 + n) else char_of (87 + n))"

definition hexdigest :: "string \<Rightarrow> string" where
  "hexdigest bs = concat (map (\<lambda>c. let n = (of_char c :: nat) in [hex_char (n div 16), hex_char (n mod 16)]) bs)"

definition sha256_hex :: "string \<Rightarrow> string" where
  "sha256_hex m = hexdigest (sha256 m)"

definition hmac_sha256 :: "string \<Rightarrow> string \<Rightarrow> string" where
  "hmac_sha256 key msg =
     (let k0 = (if 64 < length key then sha256 key else key);
          k = k0 @ replicate (64 - length k0) (char_of (0::nat));
          mask = (\<lambda>x c. char_of ((of_char c :: nat) XOR x))
      in sha256 (map (mask 92) k @ sha256 (map (mask 54) k @ msg)))"

definition hmac_hex :: "string \<Rightarrow> string \<Rightarrow> string" where
  "hmac_hex key msg = hexdigest (hmac_sha256 key msg)"

lemma length_be_bytes [simp]: "length (be_bytes k n) = k"
  by (induction k arbitrary: n) auto

lemma length_sha_block: "length hs = 8 \<Longrightarrow> length (sha_block hs b) = 8"
proof -
  assume "length hs = 8"
  moreover have "length (sha_words st) = 8" for st by (cases st) simp
  ultimately show ?thesis by (simp add: sha_block_def Let_def)
qed

lemma length_sha_fold: "length hs = 8 \<Longrightarrow> length (foldl sha_block hs bs) = 8"
  by (induction bs arbitrary: hs) (auto simp: length_sha_block)

lemma length_sha256 [simp]: "length (sha256 m) = 32"
proof -
  have "length (foldl sha_block sha_h0 (chunks 63 (sha_pad m))) = 8"
    by (rule length_sha_fold) (simp add: sha_h0_def)
  then show ?thesis by (simp add: sha256_def length_concat comp_def sum_list_triv)
qed

lemma length_hexdigest [simp]: "length (hexdigest bs) = 2 * length bs"
  by (induction bs) (auto simp: hexdigest_def Let_def)

definition lower_hex :: "char \<Rightarrow> bool" where
  "lower_hex c = (c \<in> set ''0123456789abcdef'')"

lemma hex_char_lower: "n < 16 \<Longrightarrow> lower_hex (hex_char n)"
proof -
  have "\<forall>n \<in> set [0..<16]. lower_hex (hex_char n)" by code_simp
  then show "n < 16 \<Longrightarrow> lower_hex (hex_char n)" by simp
qed

lemma hexdigest_lower: "list_all lower_hex (hexdigest bs)"
proof (induction bs)
  case Nil
  then show ?case by (simp add: hexdigest_def)
next
  case (Cons c bs)
  have "(of_char c :: nat) < 256" by simp
  then have "(of_char c :: nat) div 16 < 16" by linarith
  with Cons show ?case by (simp add: hexdigest_def Let_def hex_char_lower)
qed

lemma sha256_hex_shape: "length (sha256_hex m) = 64 \<and> list_all lower_hex (sha256_hex m)"
  by (simp add: sha256_hex_def hexdigest_lower)

lemma hmac_hex_shape: "length (hmac_hex k m) = 64 \<and> list_all lower_hex (hmac_hex k m)"
  by (simp add: hmac_hex_def hmac_sha256_def Let_def hexdigest_lower)

section \<open>Base64\<close>

definition b64_chars :: string where
  "b64_chars = ''ABCDEFGHIJKLMNOPQRSTUVWXYZabcdefghijklmnopqrstuvwxyz0123456789+/''"

definition b64_val :: "char \<Rightarrow> nat option" where
  "b64_val c = index_of (\<lambda>x. x = c) b64_chars"

definition b64_char :: "nat \<Rightarrow> char" where
  "b64_char n = b64_chars ! n"

fun b64_triples :: "nat list \<Rightarrow> string" where
  "b64_triples [] = []"
| "b64_triples [a] = [b64_char (a div 4), b64_char (a mod 4 * 16), CHR ''='', CHR ''='']"
| "b64_triples [a, b] =
     [b64_char (a div 4), b64_char (a mod 4 * 16 + b div 16), b64_char (b mod 16 * 4), CHR ''='']"
| "b64_triples (a # b # c # rest) =
     [b64_char (a div 4), b64_char (a mod 4 * 16 + b div 16), b64_char (b mod 16 * 4 + c div 64),
      b64_char (c mod 64)] @ b64_triples rest"

definition b64encode :: "string \<Rightarrow> string" where
  "b64encode bs = b64_triples (map of_char bs)"

text \<open>
  \<open>binascii.a2b_base64\<close>: the position in the quad, the bits left over, the pads seen, whether
  padding has started. \<open>strict\<close> is \<open>validate=True\<close>.
\<close>

fun a2b :: "bool \<Rightarrow> string \<Rightarrow> nat \<Rightarrow> nat \<Rightarrow> nat \<Rightarrow> bool \<Rightarrow> nat list option" where
  "a2b strict [] pos left pads padded = (if pos = 0 then Some [] else None)"
| "a2b strict (c # cs) pos left pads padded =
     (if c = CHR ''='' then
        if strict \<and> pos = 0 then None
        else if 2 \<le> pos then
          if 4 \<le> pos + Suc pads then (if strict \<and> cs \<noteq> [] then None else Some [])
          else a2b strict cs pos left (Suc pads) True
        else a2b strict cs pos left pads True
      else case b64_val c of
             None \<Rightarrow> if strict then None else a2b strict cs pos left pads padded
           | Some v \<Rightarrow>
               if strict \<and> padded then None
               else if pos = 0 then a2b strict cs 1 v 0 padded
               else if pos = 1 then map_option ((#) (left * 4 + v div 16)) (a2b strict cs 2 (v mod 16) 0 padded)
               else if pos = 2 then map_option ((#) (left * 16 + v div 4)) (a2b strict cs 3 (v mod 4) 0 padded)
               else map_option ((#) (left * 64 + v)) (a2b strict cs 0 0 0 padded))"

definition b64decode :: "bool \<Rightarrow> string \<Rightarrow> string option" where
  "b64decode strict s =
     (if list_all (\<lambda>c. (of_char c :: nat) < 128) s
      then map_option (map char_of) (a2b strict s 0 0 0 False) else None)"

lemma b64_val_char: "n < 64 \<Longrightarrow> b64_val (b64_char n) = Some n"
proof -
  have "\<forall>n \<in> set [0..<64]. b64_val (b64_char n) = Some n" by code_simp
  then show "n < 64 \<Longrightarrow> b64_val (b64_char n) = Some n" by simp
qed

lemma b64_char_not_pad: "n < 64 \<Longrightarrow> b64_char n \<noteq> CHR ''='' \<and> (of_char (b64_char n) :: nat) < 128"
proof -
  have "\<forall>n \<in> set [0..<64]. b64_char n \<noteq> CHR ''='' \<and> (of_char (b64_char n) :: nat) < 128" by code_simp
  then show "n < 64 \<Longrightarrow> b64_char n \<noteq> CHR ''='' \<and> (of_char (b64_char n) :: nat) < 128" by simp
qed

lemma b64_bits [simp]:
  "(x::nat) < 256 \<Longrightarrow> x div 4 < 64" "y < 256 \<Longrightarrow> x mod 4 * 16 + y div 16 < 64"
  "y < 256 \<Longrightarrow> x mod 16 * 4 + y div 64 < 64" "x mod 64 < 64" "x mod 4 * 16 < 64" "x mod 16 * 4 < 64"
proof -
  have m: "x mod 4 < 4" "x mod 16 < 16" by simp_all
  show "y < 256 \<Longrightarrow> x mod 4 * 16 + y div 16 < 64" "y < 256 \<Longrightarrow> x mod 16 * 4 + y div 64 < 64"
    "x mod 4 * 16 < 64" "x mod 16 * 4 < 64" using m by linarith+
qed simp_all

text \<open>Taking the six-bit groups apart again.\<close>

lemma b64_join [simp]:
  "(k::nat) < 16 \<Longrightarrow> (r * 16 + k) div 16 = r" "k < 16 \<Longrightarrow> (r * 16 + k) mod 16 = k"
  "k < 4 \<Longrightarrow> (r * 4 + k) div 4 = r" "k < 4 \<Longrightarrow> (r * 4 + k) mod 4 = k"
  "(y::nat) < 256 \<Longrightarrow> y div 16 < 16" "y < 256 \<Longrightarrow> y div 64 < 4"
  by simp_all

lemma a2b_char:
  assumes "n < 64"
  shows "a2b strict (b64_char n # cs) pos left pads False =
    (if pos = 0 then a2b strict cs 1 n 0 False
     else if pos = 1 then map_option ((#) (left * 4 + n div 16)) (a2b strict cs 2 (n mod 16) 0 False)
     else if pos = 2 then map_option ((#) (left * 16 + n div 4)) (a2b strict cs 3 (n mod 4) 0 False)
     else map_option ((#) (left * 64 + n)) (a2b strict cs 0 0 0 False))"
  using b64_char_not_pad [OF assms] b64_val_char [OF assms] by simp

lemma a2b_ends:
  "a2b strict [] 0 left pads padded = Some []"
  "a2b strict [CHR ''='', CHR ''=''] 2 left 0 padded = Some []"
  "a2b strict [CHR ''=''] 3 left 0 padded = Some []"
  by simp_all

declare a2b.simps [simp del]

lemma a2b_triples: "list_all (\<lambda>x. x < 256) xs \<Longrightarrow> a2b strict (b64_triples xs) 0 0 0 False = Some xs"
proof (induction xs rule: b64_triples.induct)
  case (2 a)
  then show ?case by (simp add: a2b_char a2b_ends)
next
  case (3 a b)
  then show ?case by (simp add: a2b_char a2b_ends)
next
  case (4 a b c rest)
  then show ?case by (simp add: a2b_char)
qed (simp add: a2b_ends)

lemma b64_triples_ascii: "list_all (\<lambda>x. x < 256) xs \<Longrightarrow> list_all (\<lambda>c. (of_char c :: nat) < 128) (b64_triples xs)"
  by (induction xs rule: b64_triples.induct) (simp_all add: b64_char_not_pad)

lemma b64decode_encode: "b64decode strict (b64encode s) = Some s"
proof -
  have "list_all (\<lambda>x. x < 256) (map (of_char :: char \<Rightarrow> nat) s)" by (induction s) simp_all
  then show ?thesis
    by (simp add: b64decode_def b64encode_def b64_triples_ascii a2b_triples comp_def)
qed

end
