(* ===== verification/Validation.thy ===== *)
theory Validation
  imports Json Encoding
begin

text \<open>
  The two response checks of \<open>szl_router/core.py\<close>: \<open>_chat_response_error\<close> and
  \<open>_embedding_response_error\<close>. Each returns \<open>None\<close> for a usable response and the first complaint
  otherwise. An accepted embeddings response is characterised: it has one vector for each input,
  the indices are a permutation of the inputs, and all vectors are finite and of one size.
\<close>

section \<open>Chat\<close>

definition not_null :: "json \<Rightarrow> bool" where
  "not_null j = (j \<noteq> JNull)"

definition output_keys :: "string list" where
  "output_keys = [''content'', ''tool_calls'', ''function_call'', ''refusal'', ''audio'']"

text \<open>One turn of the loop over \<open>choices\<close>.\<close>

definition choice_error :: "json \<Rightarrow> string option" where
  "choice_error choice =
     (let message = jget choice ''message''; tool_calls = jget message ''tool_calls'' in
      if \<not> is_obj message \<or> jget message ''role'' \<noteq> JStr ''assistant''
      then Some ''invalid chat response: every choice must contain an assistant message''
      else if not_null (jget message ''content'') \<and> \<not> is_str (jget message ''content'')
      then Some ''invalid chat response: message content must be a string or null''
      else if \<not> list_ex (has_key (obj_items message)) output_keys
      then Some ''invalid chat response: assistant message has no output field''
      else if not_null tool_calls \<and>
          (case tool_calls of JArr calls \<Rightarrow> list_ex (\<lambda>c. \<not> is_obj c \<or> \<not> truthy c) calls | _ \<Rightarrow> True)
      then Some ''invalid chat response: tool_calls must contain call objects''
      else if not_null (jget message ''refusal'') \<and> \<not> is_str (jget message ''refusal'')
      then Some ''invalid chat response: refusal must be a string or null''
      else if list_ex (\<lambda>k. not_null (jget message k) \<and> \<not> is_obj (jget message k))
                [''function_call'', ''audio'']
      then Some ''invalid chat response: function_call and audio must be objects''
      else None)"

fun choices_error :: "json list \<Rightarrow> string option" where
  "choices_error [] = None"
| "choices_error (c # cs) = (case choice_error c of None \<Rightarrow> choices_error cs | Some e \<Rightarrow> Some e)"

definition chat_response_error :: "json \<Rightarrow> string option" where
  "chat_response_error result =
     (if \<not> is_obj result then Some ''invalid chat response: expected an object''
      else if not_null (jget result ''error'')
      then Some ''invalid chat response: upstream returned an error''
      else case jget result ''choices'' of
             JArr (c # cs) \<Rightarrow> choices_error (c # cs)
           | _ \<Rightarrow> Some ''invalid chat response: choices must be a non-empty array'')"

section \<open>Embeddings\<close>

definition expected_count :: "json \<Rightarrow> nat" where
  "expected_count inp =
     (case inp of
        JArr (x # xs) \<Rightarrow> if is_str x \<or> is_arr x then length (x # xs) else 1
      | _ \<Rightarrow> 1)"

text \<open>\<open>struct.iter_unpack("<f", raw)\<close>: a little-endian float is finite unless its exponent is all ones.\<close>

fun floats_finite :: "string \<Rightarrow> bool" where
  "floats_finite (b0 # b1 # b2 # b3 # rest) =
     (\<not> ((of_char b3 :: nat) mod 128 = 127 \<and> 128 \<le> (of_char b2 :: nat)) \<and> floats_finite rest)"
| "floats_finite _ = True"

fun finite_number :: "json \<Rightarrow> bool" where
  "finite_number (JInt i) = (\<not> float_overflows i)"
| "finite_number (JFloat f) = isfinite f"
| "finite_number _ = False"

text \<open>The size of a vector and whether it is finite, or a complaint.\<close>

definition vector_size :: "bool \<Rightarrow> json \<Rightarrow> string + nat \<times> bool" where
  "vector_size base64 vector =
     (if base64
      then case vector of
             JStr s \<Rightarrow>
               if s = [] then Inl ''invalid embeddings response: expected a base64 vector''
               else (case b64decode True s of
                       None \<Rightarrow> Inl ''invalid embeddings response: invalid base64 vector''
                     | Some raw \<Rightarrow>
                         if raw = [] \<or> length raw mod 4 \<noteq> 0
                         then Inl ''invalid embeddings response: invalid float32 vector length''
                         else Inr (length raw div 4, floats_finite raw))
           | _ \<Rightarrow> Inl ''invalid embeddings response: expected a base64 vector''
      else case vector of
             JArr (v # vs) \<Rightarrow> Inr (length (v # vs), list_all finite_number (v # vs))
           | _ \<Rightarrow> Inl ''invalid embeddings response: expected a non-empty numeric vector'')"

fun rows_error :: "json \<Rightarrow> nat \<Rightarrow> json list \<Rightarrow> int list \<Rightarrow> nat option \<Rightarrow> string option" where
  "rows_error payload n [] indices known = None"
| "rows_error payload n (row # rows) indices known =
     (if \<not> is_obj row then Some ''invalid embeddings response: every vector must be an object''
      else case jget row ''index'' of
        JInt index \<Rightarrow>
          if index < 0 \<or> int n \<le> index \<or> index \<in> set indices
          then Some ''invalid embeddings response: indices must cover each input exactly once''
          else (case vector_size (jget payload ''encoding_format'' = JStr ''base64'') (jget row ''embedding'') of
                  Inl e \<Rightarrow> Some e
                | Inr (sz, fin) \<Rightarrow>
                    if \<not> fin then Some ''invalid embeddings response: vector values must be finite numbers''
                    else if known \<noteq> None \<and> known \<noteq> Some sz
                    then Some ''invalid embeddings response: vector dimensions differ within the batch''
                    else (case jget payload ''dimensions'' of
                            JInt d \<Rightarrow>
                              if 0 < d \<and> int sz \<noteq> d
                              then Some ''invalid embeddings response: vector dimensions do not match the request''
                              else rows_error payload n rows (index # indices) (Some sz)
                          | _ \<Rightarrow> rows_error payload n rows (index # indices) (Some sz)))
      | _ \<Rightarrow> Some ''invalid embeddings response: indices must cover each input exactly once'')"

definition embedding_response_error :: "json \<Rightarrow> json \<Rightarrow> string option" where
  "embedding_response_error result payload =
     (if \<not> is_obj result then Some ''invalid embeddings response: expected an object''
      else if not_null (jget result ''error'')
      then Some ''invalid embeddings response: upstream returned an error''
      else case jget result ''data'' of
        JArr (r # rs) \<Rightarrow>
          (let n = expected_count (jget payload ''input'') in
           if length (r # rs) \<noteq> n
           then Some ''invalid embeddings response: vector count does not match input count''
           else rows_error payload n (r # rs) [] None)
      | _ \<Rightarrow> Some ''invalid embeddings response: data must be a non-empty array'')"

section \<open>What acceptance means\<close>

lemma chat_ok_object: "chat_response_error r = None \<Longrightarrow> \<exists>d. r = JObj d"
  by (cases r) (auto simp: chat_response_error_def split: if_splits)

lemma choices_error_None: "choices_error cs = None \<longleftrightarrow> list_all (\<lambda>c. choice_error c = None) cs"
  by (induction cs) (auto split: option.splits)

lemma embedding_ok_object: "embedding_response_error r p = None \<Longrightarrow> \<exists>d. r = JObj d"
  by (cases r) (auto simp: embedding_response_error_def split: if_splits)

definition row_index :: "json \<Rightarrow> int" where
  "row_index row = (case jget row ''index'' of JInt i \<Rightarrow> i | _ \<Rightarrow> -1)"

definition row_size :: "json \<Rightarrow> json \<Rightarrow> nat option" where
  "row_size payload row =
     (case vector_size (jget payload ''encoding_format'' = JStr ''base64'') (jget row ''embedding'') of
        Inr (sz, True) \<Rightarrow> Some sz | _ \<Rightarrow> None)"

lemma rows_error_step:
  assumes "rows_error payload n (row # rows) indices known = None"
  obtains sz where "row_index row \<notin> set indices" "0 \<le> row_index row" "row_index row < int n"
    "row_size payload row = Some sz" "known = None \<or> known = Some sz"
    "rows_error payload n rows (row_index row # indices) (Some sz) = None"
  using assms
  by (auto simp: row_index_def row_size_def split: if_splits json.splits sum.splits prod.splits)

lemma rows_error_indices:
  "rows_error payload n rows indices known = None \<Longrightarrow>
   distinct (map row_index rows) \<and> set (map row_index rows) \<inter> set indices = {}
   \<and> list_all (\<lambda>r. 0 \<le> row_index r \<and> row_index r < int n) rows"
proof (induction rows arbitrary: indices known)
  case Nil
  then show ?case by simp
next
  case (Cons r rs)
  from Cons.prems Cons.IH show ?case by (elim rows_error_step) fastforce
qed

lemma rows_error_sizes:
  "rows_error payload n rows indices known = None \<Longrightarrow>
   \<exists>sz. list_all (\<lambda>r. row_size payload r = Some sz) rows \<and> (known = None \<or> known = Some sz)"
proof (induction rows arbitrary: indices known)
  case Nil
  then show ?case by auto
next
  case (Cons r rs)
  from Cons.prems show ?case
  proof (rule rows_error_step)
    fix sz
    assume *: "row_size payload r = Some sz" "known = None \<or> known = Some sz"
      "rows_error payload n rs (row_index r # indices) (Some sz) = None"
    from Cons.IH [OF *(3)] * show ?thesis by auto
  qed
qed

lemma indices_cover:
  assumes "distinct is" "\<forall>i \<in> set is. 0 \<le> i \<and> i < int n" "length is = n"
  shows "set is = {0..<int n}"
proof (rule card_subset_eq)
  show "set is \<subseteq> {0..<int n}" using assms(2) by auto
  show "card (set is) = card {0..<int n}" using assms(1,3) by (simp add: distinct_card)
qed simp

lemma embedding_ok:
  assumes "embedding_response_error r p = None"
  obtains rows sz where "jget r ''data'' = JArr rows"
    "length rows = expected_count (jget p ''input'')"
    "distinct (map row_index rows)" "set (map row_index rows) = {0..<int (expected_count (jget p ''input''))}"
    "list_all (\<lambda>row. row_size p row = Some sz) rows"
proof -
  let ?n = "expected_count (jget p ''input'')"
  from assms obtain x xs where rows: "jget r ''data'' = JArr (x # xs)"
    "length (x # xs) = ?n" "rows_error p ?n (x # xs) [] None = None"
    by (auto simp: embedding_response_error_def Let_def simp del: rows_error.simps
        split: if_splits json.splits list.splits)
  note ind = rows_error_indices [OF rows(3)]
  have "set (map row_index (x # xs)) = {0..<int ?n}"
    by (rule indices_cover) (use ind rows(2) in \<open>auto simp: list_all_iff\<close>)
  moreover obtain sz where "list_all (\<lambda>row. row_size p row = Some sz) (x # xs)"
    using rows_error_sizes [OF rows(3)] by blast
  ultimately show thesis using that [of "x # xs" sz] rows ind by blast
qed

end
