(* ===== verification/Scoring.thy ===== *)
theory Scoring
  imports World
begin

text \<open>
  The opt-in model \<open>szl-auto\<close> of \<open>szl_router/core.py\<close>: \<open>_coerce_text\<close>, the lexical heuristic
  \<open>score_complexity\<close> and the block that records its decision. \<open>messages\<close> is any JSON value, as the
  HTTP handler passes it on. The lemmas: the scorer returns for every value, its score is between 0
  and 1, and the model it picks has routes of its own.
\<close>

definition AUTO_MODEL :: string where "AUTO_MODEL = ''szl-auto''"
definition AUTO_SCORER_VERSION :: string where "AUTO_SCORER_VERSION = ''heuristic-v1''"

definition CODE_MARKERS :: "string list" where
  "CODE_MARKERS = [
    replicate 3 (char_of (96::nat)), ''def '', ''return '', ''import '', ''function'', ''class '', ''();'',
    ''});'', ''const '', ''let '', '' var '', ''select '', ''#include'', ''public static'',
    ''console.log'', ''print('', ''</'', ''/>'', ''traceback'', ''stack trace'', ''npm '',
    ''pip install'', ''regex'']"

definition REASONING_MARKERS :: "string list" where
  "REASONING_MARKERS = [
    ''why'', ''explain'', ''compare'', ''analyze'', ''analyse'', ''step by step'', ''prove'', ''derive'',
    ''trade-off'', ''tradeoff'', ''design'', ''architect'', ''evaluate'', ''reason'', ''implications'',
    ''pros and cons'', ''in detail'', ''comprehensive'', ''strategy'', ''optimize'', ''refactor'',
    ''debug'']"

section \<open>Python's \<open>str\<close> of a JSON value\<close>

definition repr_char :: "char \<Rightarrow> char \<Rightarrow> string" where
  "repr_char quote c = (let n = (of_char c :: nat); bs = char_of (92::nat) in
     if c = quote \<or> n = 92 then [bs, c]
     else if n = 10 then [bs, CHR ''n''] else if n = 13 then [bs, CHR ''r''] else if n = 9 then [bs, CHR ''t'']
     else if n < 32 \<or> (127 \<le> n \<and> n \<le> 160) \<or> n = 173
     then [bs, CHR ''x'', hex_digit (n div 16), hex_digit (n mod 16)]
     else [c])"

definition repr_str :: "string \<Rightarrow> string" where
  "repr_str s = (let sq = char_of (39::nat); dq = char_of (34::nat);
       quote = (if sq \<in> set s \<and> dq \<notin> set s then dq else sq)
     in quote # concat (map (repr_char quote) s) @ [quote])"

fun repr_float :: "(rat \<Rightarrow> string) \<Rightarrow> pyfloat \<Rightarrow> string" where
  "repr_float fr (Fin q) = fr q"
| "repr_float fr PInf = ''inf''"
| "repr_float fr NInf = ''-inf''"
| "repr_float fr NaN = ''nan''"

fun py_repr :: "(rat \<Rightarrow> string) \<Rightarrow> json \<Rightarrow> string"
  and py_reprs :: "(rat \<Rightarrow> string) \<Rightarrow> json list \<Rightarrow> string list"
  and py_repr_items :: "(rat \<Rightarrow> string) \<Rightarrow> (string \<times> json) list \<Rightarrow> string list" where
  "py_repr fr JNull = ''None''"
| "py_repr fr (JBool b) = (if b then ''True'' else ''False'')"
| "py_repr fr (JInt i) = show_int i"
| "py_repr fr (JFloat f) = repr_float fr f"
| "py_repr fr (JStr s) = repr_str s"
| "py_repr fr (JArr xs) = ''['' @ join '', '' (py_reprs fr xs) @ '']''"
| "py_repr fr (JObj d) = ''{'' @ join '', '' (py_repr_items fr d) @ ''}''"
| "py_reprs fr [] = []"
| "py_reprs fr (x # xs) = py_repr fr x # py_reprs fr xs"
| "py_repr_items fr [] = []"
| "py_repr_items fr ((k, v) # d) = (repr_str k @ '': '' @ py_repr fr v) # py_repr_items fr d"

definition py_str :: "(rat \<Rightarrow> string) \<Rightarrow> json \<Rightarrow> string" where
  "py_str fr j = (case j of JStr s \<Rightarrow> s | _ \<Rightarrow> py_repr fr j)"

section \<open>The scorer\<close>

definition env_float :: "sys \<Rightarrow> string \<Rightarrow> pyfloat \<Rightarrow> pyfloat" where
  "env_float s name dflt =
     (let raw = env_get (s_env s) name [] in
      if raw = [] then dflt else case s_float s raw of Some f \<Rightarrow> f | None \<Rightarrow> dflt)"

definition coerce_part :: "(rat \<Rightarrow> string) \<Rightarrow> json \<Rightarrow> string" where
  "coerce_part fr p =
     (if is_obj p then (if truthy (jget p ''text'') then py_str fr (jget p ''text'') else [])
      else py_str fr p)"

definition coerce_text :: "(rat \<Rightarrow> string) \<Rightarrow> json \<Rightarrow> string" where
  "coerce_text fr content =
     (case content of
        JNull \<Rightarrow> []
      | JStr s \<Rightarrow> s
      | JArr ps \<Rightarrow> join '' '' (map (coerce_part fr) ps)
      | _ \<Rightarrow> py_str fr content)"

definition last_message :: "json list \<Rightarrow> json" where
  "last_message msgs =
     (let user_msgs = filter (\<lambda>m. is_obj m \<and> jget m ''role'' = JStr ''user'') msgs
      in if user_msgs \<noteq> [] then last user_msgs else if msgs \<noteq> [] then last msgs else JObj [])"

fun float_le :: "pyfloat \<Rightarrow> rat \<Rightarrow> bool" where
  "float_le (Fin q) x = (q \<le> x)"
| "float_le NInf x = True"
| "float_le _ x = False"

definition length_points :: "nat \<Rightarrow> rat \<times> string list" where
  "length_points n_chars =
     (if 1200 < n_chars then (35/100, [''very-long-prompt''])
      else if 400 < n_chars then (20/100, [''long-prompt''])
      else if n_chars < 120 then (-12/100, [''short-prompt''])
      else (0, []))"

text \<open>The score of the text scored, and its signals.\<close>

definition score_points :: "string \<Rightarrow> nat \<Rightarrow> rat \<times> string list" where
  "score_points txt n_msgs =
     (let (pts, sig1) = length_points (length txt);
          deep = (6 \<le> n_msgs);
          reasoning = filter (\<lambda>mk. str_in mk (lower txt)) REASONING_MARKERS;
          many = (3 \<le> length (filter (\<lambda>c. c = CHR ''?'') txt));
          raw = 30/100 + pts + (if deep then 15/100 else 0)
                + (if reasoning \<noteq> [] then min (30/100) (10/100 * of_nat (length reasoning)) else 0)
                + (if many then 10/100 else 0)
      in (max 0 (min 1 (py_round 3 raw)),
          sig1 @ (if deep then [''deep-conversation''] else [])
          @ (if reasoning \<noteq> [] then [''reasoning:'' @ join '','' (take 3 reasoning)] else [])
          @ (if many then [''multi-question''] else [])))"

definition code_hits :: "string \<Rightarrow> string list" where
  "code_hits all_text = filter (\<lambda>mk. str_in mk (lower all_text)) CODE_MARKERS"

definition is_code :: "string \<Rightarrow> bool" where
  "is_code all_text \<longleftrightarrow>
     str_in (replicate 3 (char_of (96::nat))) all_text \<or> 2 \<le> length (code_hits all_text)"

definition choose_model :: "sys \<Rightarrow> string \<Rightarrow> rat \<Rightarrow> string list \<Rightarrow> string list \<times> string" where
  "choose_model s all_text score signals =
     (if is_code all_text
      then ((if code_hits all_text \<noteq> [] then ''code:'' @ join '','' (take 3 (code_hits all_text))
             else ''code-fence'') # signals, ''szl-coder'')
      else if float_le (env_float s ''SZL_AUTO_LARGE_THRESHOLD'' (Fin (1/2))) score
      then (signals, ''szl-large'')
      else (signals, ''szl-fast''))"

definition score_complexity :: "sys \<Rightarrow> json \<Rightarrow> rat \<times> string list \<times> string" where
  "score_complexity s messages =
     (let fr = s_frepr s;
          msgs = (case messages of JArr ms \<Rightarrow> ms | _ \<Rightarrow> []);
          lst = last_message msgs;
          txt = coerce_text fr (if is_obj lst then jget lst ''content'' else lst);
          all_text = join '' '' (map (\<lambda>m. coerce_text fr (jget m ''content'')) (filter is_obj msgs));
          (score, signals) = score_points txt (length msgs)
      in (score, choose_model s all_text score signals))"

definition auto_routing_block :: "rat \<Rightarrow> string list \<Rightarrow> string \<Rightarrow> json" where
  "auto_routing_block score signals chosen = JObj [
     (''router'', JStr AUTO_MODEL),
     (''method'', JStr (AUTO_SCORER_VERSION @ '': deterministic lexical scorer, no LLM call'')),
     (''complexity_score'', JFloat (Fin score)),
     (''signals'', JArr (map JStr signals)),
     (''chosen_logical'', JStr chosen),
     (''note'', JStr (''heuristic ESTIMATE of prompt complexity to pick a '' @
        \<comment> \<open>an em dash in the source\<close>
        ''sovereign-first route - a routing choice, not a quality guarantee''))]"

lemma clamp_unit: "0 \<le> max 0 (min 1 x) \<and> max 0 (min 1 x) \<le> (1::rat)"
  by simp

lemma score_points_range: "0 \<le> fst (score_points txt n) \<and> fst (score_points txt n) \<le> 1"
  unfolding score_points_def Let_def case_prod_unfold fst_conv by (rule clamp_unit)

lemma choose_model_cases: "snd (choose_model s t q sg) \<in> {''szl-coder'', ''szl-large'', ''szl-fast''}"
  unfolding choose_model_def by (simp split: if_split)

lemma score_complexity_shape:
  "\<exists>txt n all_text. score_complexity s m =
     (fst (score_points txt n), choose_model s all_text (fst (score_points txt n)) (snd (score_points txt n)))"
  unfolding score_complexity_def Let_def case_prod_unfold by blast

lemma score_bounds:
  assumes "score_complexity s m = (q, sg, c)"
  shows "0 \<le> q \<and> q \<le> 1 \<and> c \<in> {''szl-coder'', ''szl-large'', ''szl-fast''}"
proof -
  obtain tx n t where "(q, sg, c) = (fst (score_points tx n),
      choose_model s t (fst (score_points tx n)) (snd (score_points tx n)))"
    using score_complexity_shape [of s m] assms by metis
  then show ?thesis
    using score_points_range [of tx n] choose_model_cases by (metis Pair_inject snd_conv)
qed

text \<open>The choice is one of the logical models, and the scorer's own name is not.\<close>

lemma score_choice_routes:
  assumes "score_complexity s m = (q, sg, c)"
  shows "has_key MODEL_ROUTES c \<and> c \<noteq> AUTO_MODEL"
  using score_bounds [OF assms] by (elim conjE insertE) (simp_all add: MODEL_ROUTES_def AUTO_MODEL_def)

end
