(* ===== verification/Spend.thy ===== *)
theory Spend
  imports Scoring Encoding
begin

text \<open>
  \<open>szl_router/spend_guard.py\<close>: the historical price table and estimator, and the advisory ledger, a
  JSON-lines file whose rows are hash-linked. The file is \<open>string option\<close> (\<open>None\<close>: it does not
  exist); \<open>record\<close> returns its new contents. \<open>strict_loads\<close> is \<open>json.loads\<close> on a line.

  The lemmas: a table or flat rate prices every model; what \<open>record\<close> appends is read back as the
  last row; an intact chain stays intact; and an intact chain is determined row by row by its
  digests.
\<close>

section \<open>Float arithmetic\<close>

fun pf_add :: "pyfloat \<Rightarrow> pyfloat \<Rightarrow> pyfloat" where
  "pf_add (Fin a) (Fin b) = Fin (a + b)"
| "pf_add NaN b = NaN"
| "pf_add a NaN = NaN"
| "pf_add PInf NInf = NaN"
| "pf_add NInf PInf = NaN"
| "pf_add (Fin a) b = b"
| "pf_add a b = a"

fun pf_neg :: "pyfloat \<Rightarrow> pyfloat" where
  "pf_neg (Fin a) = Fin (- a)" | "pf_neg PInf = NInf" | "pf_neg NInf = PInf" | "pf_neg NaN = NaN"

text \<open>A finite factor times any float.\<close>

definition pf_scale :: "rat \<Rightarrow> pyfloat \<Rightarrow> pyfloat" where
  "pf_scale q f =
     (case f of Fin x \<Rightarrow> Fin (q * x)
      | _ \<Rightarrow> if q = 0 then NaN else if q < 0 then pf_neg f else f)"

fun pf_less :: "pyfloat \<Rightarrow> pyfloat \<Rightarrow> bool" where
  "pf_less (Fin a) (Fin b) = (a < b)"
| "pf_less (Fin a) PInf = True"
| "pf_less NInf (Fin b) = True"
| "pf_less NInf PInf = True"
| "pf_less _ _ = False"

definition pf_le :: "pyfloat \<Rightarrow> pyfloat \<Rightarrow> bool" where
  "pf_le a b = (pf_less a b \<or> (a = b \<and> a \<noteq> NaN))"

fun pf_round :: "nat \<Rightarrow> pyfloat \<Rightarrow> pyfloat" where
  "pf_round n (Fin q) = Fin (py_round n q)"
| "pf_round n f = f"

text \<open>\<open>"%.nf" % x\<close>\<close>

definition fmt_fixed :: "nat \<Rightarrow> pyfloat \<Rightarrow> string" where
  "fmt_fixed n x =
     (case x of
        Fin q \<Rightarrow>
          (let r = nat \<bar>round_even (q * 10 ^ n)\<bar>; whole = show_nat (r div 10 ^ n);
               frac = show_nat (r mod 10 ^ n)
           in (if q < 0 then ''-'' else []) @ whole
              @ (if n = 0 then [] else CHR ''.'' # replicate (n - length frac) (CHR ''0'') @ frac))
      | PInf \<Rightarrow> ''inf'' | NInf \<Rightarrow> ''-inf'' | NaN \<Rightarrow> ''nan'')"

definition parse_int :: "string \<Rightarrow> int option" where
  "parse_int s =
     (let t = strip s;
          neg = startswith ''-'' t;
          d = (if neg \<or> startswith ''+'' t then drop 1 t else t);
          pieces = split_on (CHR ''_'') d
      in if list_all (\<lambda>p. p \<noteq> [] \<and> list_all ascii_digit p) pieces
         then Some (if neg then - int (digits_val (concat pieces)) else int (digits_val (concat pieces)))
         else None)"

definition py_float :: "sys \<Rightarrow> json \<Rightarrow> exn + pyfloat" where
  "py_float s j =
     (case j of
        JBool b \<Rightarrow> Inr (Fin (if b then 1 else 0))
      | JInt i \<Rightarrow> if float_overflows i then Inl (PyError ''OverflowError'' ''int too large to convert to float'')
                else Inr (Fin (of_int i))
      | JFloat f \<Rightarrow> Inr f
      | JStr t \<Rightarrow> (case s_float s t of Some f \<Rightarrow> Inr f
                  | None \<Rightarrow> Inl (ValueError ''could not convert string to float''))
      | _ \<Rightarrow> Inl (TypeError ''float() argument must be a string or a real number''))"

definition py_int :: "json \<Rightarrow> exn + int" where
  "py_int j =
     (case j of
        JBool b \<Rightarrow> Inr (if b then 1 else 0)
      | JInt i \<Rightarrow> Inr i
      | JFloat (Fin q) \<Rightarrow> Inr (py_trunc q)
      | JFloat NaN \<Rightarrow> Inl (ValueError ''cannot convert float NaN to integer'')
      | JFloat _ \<Rightarrow> Inl (PyError ''OverflowError'' ''cannot convert float infinity to integer'')
      | JStr t \<Rightarrow> (case parse_int t of Some i \<Rightarrow> Inr i
                  | None \<Rightarrow> Inl (ValueError ''invalid literal for int() with base 10''))
      | _ \<Rightarrow> Inl (TypeError ''int() argument must be a string or a real number''))"

section \<open>Rates and estimates\<close>

definition MODEL_RATES :: "(string \<times> rat \<times> rat) list" where
  "MODEL_RATES = [
     (''kimi-k2'', 60/100000, 250/100000), (''moonshot-v1-128k'', 60/100000, 250/100000),
     (''moonshot-v1-32k'', 30/100000, 120/100000), (''moonshot-v1-8k'', 20/100000, 60/100000),
     (''kimi'', 60/100000, 250/100000), (''moonshot'', 60/100000, 250/100000),
     (''gpt-4o-mini'', 15/100000, 60/100000), (''gpt-4o'', 250/100000, 1000/100000),
     (''gpt-4.1-mini'', 40/100000, 160/100000), (''gpt-4.1-nano'', 10/100000, 40/100000),
     (''gpt-4.1'', 200/100000, 800/100000), (''o3-mini'', 110/100000, 440/100000),
     (''o1-mini'', 110/100000, 440/100000),
     (''claude-3-5-haiku'', 80/100000, 400/100000), (''claude-3-5-sonnet'', 300/100000, 1500/100000),
     (''claude-3-7-sonnet'', 300/100000, 1500/100000), (''claude-sonnet'', 300/100000, 1500/100000),
     (''claude-opus'', 1500/100000, 7500/100000), (''claude'', 300/100000, 1500/100000),
     (''deepseek-r1'', 55/100000, 219/100000), (''deepseek'', 27/100000, 110/100000),
     (''glm-4'', 50/100000, 50/100000)]"

definition envf :: "sys \<Rightarrow> string \<Rightarrow> rat \<Rightarrow> pyfloat" where
  "envf s name dflt =
     (let v = strip (env_get (s_env s) name []) in
      if v = [] then Fin dflt else case s_float s v of Some f \<Rightarrow> f | None \<Rightarrow> Fin dflt)"

definition rate_for :: "sys \<Rightarrow> string \<Rightarrow> pyfloat \<times> pyfloat \<times> string" where
  "rate_for s model =
     (let m = strip (lower model); flat = envf s ''SZL_PAID_USD_PER_1K'' (3/1000) in
      if m = [] then (flat, flat, ''flat-fallback'')
      else case find (\<lambda>(sub, _). str_in sub m) MODEL_RATES of
             Some (sub, ri, ro) \<Rightarrow> (Fin ri, Fin ro, ''table:'' @ sub)
           | None \<Rightarrow> (flat, flat, ''flat-fallback''))"

definition tokens :: "json \<Rightarrow> exn + int" where
  "tokens v = (if truthy v then py_int v else Inr 0)"

text \<open>\<open>n / 1000.0\<close>\<close>

definition per_1k :: "int \<Rightarrow> exn + rat" where
  "per_1k n = (if float_overflows n then Inl (PyError ''OverflowError'' ''int too large to convert to float'')
               else Inr (of_int n / 1000))"

definition estimate_detail :: "sys \<Rightarrow> json \<Rightarrow> string \<Rightarrow> exn + json" where
  "estimate_detail s result model =
     (let u = (if truthy result then jget result ''usage'' else JNull);
          usage = (if truthy u then u else JObj []);
          (ri, ro, basis) = rate_for s model;
          pt = jget usage ''prompt_tokens''; ct = jget usage ''completion_tokens'';
          tot = jget usage ''total_tokens''
      in if truthy result \<and> \<not> is_obj result \<or> \<not> is_obj usage
         then Inl (PyError ''AttributeError'' ''object has no attribute get'')
         else if pt \<noteq> JNull \<or> ct \<noteq> JNull
         then bindE (tokens pt) (\<lambda>pt_i. bindE (tokens ct) (\<lambda>ct_i.
              bindE (per_1k pt_i) (\<lambda>p. bindE (per_1k ct_i) (\<lambda>c.
              Inr (JObj [
                (''amount_usd'', JFloat (pf_round 6 (pf_add (pf_scale p ri) (pf_scale c ro)))),
                (''estimated'', JBool True), (''basis'', JStr basis), (''model'', JStr model),
                (''rate_in_per_1k'', JFloat ri), (''rate_out_per_1k'', JFloat ro),
                (''prompt_tokens'', JInt pt_i), (''completion_tokens'', JInt ct_i)])))))
         else if tot \<noteq> JNull
         then bindE (tokens tot) (\<lambda>tot_i. bindE (per_1k tot_i) (\<lambda>t.
              Inr (JObj [
                (''amount_usd'', JFloat (pf_round 6 (pf_scale t (if pf_less ri ro then ro else ri)))),
                (''estimated'', JBool True), (''basis'', JStr (basis @ ''+total-as-output'')),
                (''model'', JStr model), (''rate_in_per_1k'', JFloat ri), (''rate_out_per_1k'', JFloat ro),
                (''total_tokens'', JInt tot_i)])))
         else Inr (JObj [
                (''amount_usd'', JFloat (envf s ''SZL_PAID_CALL_USD'' (1/100))),
                (''estimated'', JBool True), (''basis'', JStr ''flat-per-call-no-usage''),
                (''model'', JStr model)]))"

section \<open>The ledger\<close>

definition GENESIS :: string where "GENESIS = replicate 64 (CHR ''0'')"

definition newline :: char where "newline = CHR 0x0A"

text \<open>Text-mode iteration over a file: a carriage return ends a line too.\<close>

definition ledger_lines :: "string \<Rightarrow> string list" where
  "ledger_lines content =
     filter (\<lambda>l. l \<noteq> [])
       (map strip (split_on newline (map (\<lambda>c. if c = CHR 0x0D then newline else c) content)))"

definition corrupt_row :: json where
  "corrupt_row = JObj [(''amount_usd'', JInt 0), (''digest'', JStr ''CORRUPT''), (''corrupt'', JBool True)]"

definition read_entries :: "sys \<Rightarrow> string option \<Rightarrow> json list" where
  "read_entries s ledger =
     (case ledger of
        None \<Rightarrow> []
      | Some content \<Rightarrow>
          map (\<lambda>l. case s_loads s (utf8 l) of Inr v \<Rightarrow> v | Inl _ \<Rightarrow> corrupt_row) (ledger_lines content))"

definition row_text :: "sys \<Rightarrow> json \<Rightarrow> string" where
  "row_text s body = utf8 (dumps (compact_sorted (s_frepr s)) body)"

definition digest :: "sys \<Rightarrow> string \<Rightarrow> json \<Rightarrow> string" where
  "digest s prev body = sha256_hex (utf8 prev @ row_text s body)"

definition row_body :: "jdict \<Rightarrow> json" where
  "row_body d = JObj (filter (\<lambda>(k, v). k \<noteq> ''digest'') d)"

fun chain_from :: "sys \<Rightarrow> string \<Rightarrow> json list \<Rightarrow> exn + bool" where
  "chain_from s prev [] = Inr True"
| "chain_from s prev (JObj d # es) =
     (if truthy (dget_or_null d ''corrupt'') then Inr False
      else if dget_or_null d ''digest'' \<noteq> JStr (digest s prev (row_body d)) then Inr False
      else chain_from s (digest s prev (row_body d)) es)"
| "chain_from s prev (e # es) = Inl (PyError ''AttributeError'' ''object has no attribute get'')"

definition chain_intact :: "sys \<Rightarrow> json list \<Rightarrow> exn + bool" where
  "chain_intact s entries = chain_from s GENESIS entries"

fun sum_amounts :: "sys \<Rightarrow> pyfloat \<Rightarrow> json list \<Rightarrow> exn + pyfloat" where
  "sum_amounts s acc [] = Inr acc"
| "sum_amounts s acc (JObj d # es) =
     (let v = dget_or_null d ''amount_usd'' in
      bindE (py_float s (if truthy v then v else JInt 0)) (\<lambda>f. sum_amounts s (pf_add acc f) es))"
| "sum_amounts s acc (e # es) = Inl (PyError ''AttributeError'' ''object has no attribute get'')"

definition spent_usd :: "sys \<Rightarrow> json list \<Rightarrow> exn + pyfloat" where
  "spent_usd s entries = bindE (sum_amounts s (Fin 0) entries) (\<lambda>f. Inr (pf_round 6 f))"

text \<open>The advisory check; \<open>kill\<close> says whether the kill file exists.\<close>

definition kill_file :: "sys \<Rightarrow> string" where
  "kill_file s = env_get (s_env s) ''SZL_SPEND_KILL_FILE'' ''/opt/alloyscape/.spend-KILL''"

definition ledger_file :: "sys \<Rightarrow> string" where
  "ledger_file s = env_get (s_env s) ''SZL_SPEND_LEDGER_FILE'' ''/opt/alloyscape/.szl-router-spend.jsonl''"

definition cap_usd :: "sys \<Rightarrow> pyfloat" where
  "cap_usd s = envf s ''SZL_SPEND_CAP_USD'' 25"

definition allow :: "sys \<Rightarrow> bool \<Rightarrow> json list \<Rightarrow> pyfloat \<Rightarrow> exn + bool \<times> string" where
  "allow s kill entries estimated =
     (if kill then Inr (False, ''kill-switch engaged ('' @ kill_file s @ '')'')
      else bindE (spent_usd s entries) (\<lambda>spent.
        let cap = cap_usd s in
        if pf_le cap spent
        then Inr (False, ''cap reached ($'' @ fmt_fixed 4 spent @ '' / $'' @ fmt_fixed 2 cap @ '')'')
        else if estimated \<noteq> Fin 0 \<and> pf_less cap (pf_add spent estimated)
        then Inr (False, ''would exceed cap ($'' @ fmt_fixed 4 spent @ '' + $'' @ fmt_fixed 4 estimated
                         @ '' > $'' @ fmt_fixed 2 cap @ '')'')
        else Inr (True, ''ok'')))"

definition chain_head :: "json list \<Rightarrow> exn + string" where
  "chain_head entries =
     (if entries = [] then Inr GENESIS
      else case last entries of
        JObj d \<Rightarrow>
          (case dget_or_null d ''digest'' of
             JStr p \<Rightarrow> Inr (if p = ''CORRUPT'' \<or> p = [] then GENESIS else p)
           | v \<Rightarrow> if truthy v then Inl (PyError ''AttributeError'' ''object has no attribute encode'')
                  else Inr GENESIS)
      | _ \<Rightarrow> Inl (PyError ''AttributeError'' ''object has no attribute get''))"

definition ledger_opts :: "sys \<Rightarrow> dump_opts" where
  "ledger_opts s = (default_opts (s_frepr s))\<lparr>o_sort := True\<rparr>"

text \<open>The row and the new contents of the file.\<close>

definition record_spend ::
  "sys \<Rightarrow> json \<Rightarrow> string \<Rightarrow> json \<Rightarrow> rat \<Rightarrow> string option \<Rightarrow> exn + json \<times> string" where
  "record_spend s amount source meta now ledger =
     bindE (py_float s (if truthy amount then amount else JInt 0)) (\<lambda>amt.
     bindE (chain_head (read_entries s ledger)) (\<lambda>prev.
       let body = [(''ts'', JFloat (Fin (py_round 3 now))), (''amount_usd'', JFloat (pf_round 6 amt)),
                   (''source'', JStr source), (''estimated'', JBool True)]
                  @ (if truthy meta then [(''meta'', meta)] else []);
           rec = JObj (body @ [(''digest'', JStr (digest s prev (JObj body)))])
       in Inr (rec, (case ledger of None \<Rightarrow> [] | Some c \<Rightarrow> c) @ dumps (ledger_opts s) rec @ [newline])))"

definition spend_state :: "sys \<Rightarrow> bool \<Rightarrow> string \<Rightarrow> json list \<Rightarrow> exn + json" where
  "spend_state s kill generated entries =
     (let cap = cap_usd s in
      bindE (spent_usd s entries) (\<lambda>spent.
      bindE (chain_intact s entries) (\<lambda>intact.
      Inr (JObj [
        (''schema'', JStr ''szl.router_spend/v1''),
        (''cap_usd'', JFloat cap),
        (''spent_usd'', if entries = [] then JInt 0 else JFloat spent),
        (''remaining_usd'', JFloat (pf_round 6 (pf_add cap (pf_neg spent)))),
        (''pct_used'', case cap of
             Fin c \<Rightarrow> if 0 < c then JFloat (pf_round 2 (pf_scale (100 / c) spent)) else JNull
           | PInf \<Rightarrow> JFloat (case spent of Fin _ \<Rightarrow> Fin 0 | _ \<Rightarrow> NaN)
           | _ \<Rightarrow> JNull),
        (''armed'', JBool False),
        (''tripped'', JBool (pf_le cap spent)),
        (''kill_file_engaged'', JBool kill),
        (''kill_file'', JStr (kill_file s)),
        (''entries'', JInt (int (length entries))),
        (''chain'', JObj [(''intact'', JBool intact), (''entries'', JInt (int (length entries)))]),
        (''tail'', JArr (drop (length entries - 8) entries)),
        (''ledger_file'', JStr (ledger_file s)),
        (''generated'', JStr generated)]))))"

section \<open>Canonical text\<close>

lemma sort_key_map_fst: "(\<And>x. fst (g x) = fst x) \<Longrightarrow> sort_key fst (map g xs) = map g (sort_key fst xs)"
proof (induction xs)
  case Nil
  then show ?case by simp
next
  case (Cons x xs)
  have "insort_key fst (g x) (map g ys) = map g (insort_key fst x ys)" for ys
    using Cons.prems by (induction ys) auto
  with Cons show ?case by simp
qed

lemma sort_items_sort_key: "sort_items (sort_key fst d) = sort_key fst (sort_items d)"
  by (simp add: sort_items_map sort_key_map_fst split_def)

lemma sort_json_idem [simp]:
  "sort_json (sort_json j) = sort_json j" "sort_list (sort_list xs) = sort_list xs"
  "sort_items (sort_items d) = sort_items d"
proof (induction j and xs and d rule: sort_json_sort_list_sort_items.induct)
  case (2 d)
  then show ?case by (simp add: sort_items_sort_key sort_key_id_if_sorted)
qed simp_all

lemma sort_items_append: "sort_items (d @ e) = sort_items d @ sort_items e"
  by (simp add: sort_items_map)

lemma row_text_sort [simp]: "row_text s (sort_json j) = row_text s j"
  by (simp add: row_text_def dumps_def compact_sorted_def)

lemma digest_sort [simp]: "digest s p (sort_json j) = digest s p j"
  by (simp add: digest_def)

section \<open>A dumped row is one line\<close>

definition in_line :: "char \<Rightarrow> bool" where
  "in_line c = (c \<noteq> newline \<and> c \<noteq> CHR 0x0D)"

lemma hex_digit_in_line: "n < 16 \<Longrightarrow> in_line (hex_digit n)"
proof -
  have "\<forall>n \<in> set [0..<16]. in_line (hex_digit n)" by code_simp
  then show "n < 16 \<Longrightarrow> in_line (hex_digit n)" by simp
qed

lemma esc_char_in_line: "list_all in_line (esc_char ascii c)"
proof -
  have "(of_char c :: nat) < 256" by simp
  then have "in_line (hex_digit (of_char c div 16))" "in_line (hex_digit (of_char c mod 16))"
    by (simp_all add: hex_digit_in_line)
  moreover have "char_of (92::nat) = CHR 0x5C" by code_simp
  ultimately show ?thesis
    by (auto simp: esc_char_def Let_def in_line_def newline_def)
qed

lemma dump_str_in_line [simp]: "list_all in_line (dump_str ascii t)"
proof -
  have "list_all in_line (concat (map (esc_char ascii) t))"
    using esc_char_in_line by (induction t) auto
  then show ?thesis by (simp add: dump_str_def in_line_def newline_def)
qed

lemma digit_in_line: "n < 10 \<Longrightarrow> in_line (char_of (48 + n :: nat))"
proof -
  have "\<forall>n \<in> set [0..<10]. in_line (char_of (48 + n :: nat))" by code_simp
  then show "n < 10 \<Longrightarrow> in_line (char_of (48 + n :: nat))" by simp
qed

lemma show_nat_in_line: "list_all in_line (show_nat n)"
  by (induction n rule: show_nat.induct)
    (subst show_nat.simps, simp add: digit_in_line)

lemma show_int_in_line [simp]: "list_all in_line (show_int i)"
  by (simp add: show_int_def show_nat_in_line in_line_def newline_def)

lemma join_in_line: "list_all in_line sep \<Longrightarrow> list_all (list_all in_line) xs \<Longrightarrow> list_all in_line (join sep xs)"
  by (induction sep xs rule: join.induct) auto

lemma dump_val_in_line:
  assumes "\<And>q. list_all in_line (o_float opts q)" "list_all in_line (o_isep opts)" "list_all in_line (o_ksep opts)"
  shows "list_all in_line (dump_val opts j)" "list_all (list_all in_line) (dump_vals opts xs)"
    "list_all (list_all in_line) (dump_items opts d)"
proof (induction opts\<equiv>opts j and opts\<equiv>opts xs and opts\<equiv>opts d rule: dump_val_dump_vals_dump_items.induct)
  case (4 f)
  then show ?case by (cases f) (simp_all add: assms(1) in_line_def newline_def)
qed (auto simp: assms join_in_line in_line_def newline_def)

lemma split_on_nonempty [simp]: "split_on c xs \<noteq> []"
  by (induction xs) (auto split: list.splits)

lemma split_on_append: "split_on c (xs @ c # ys) = split_on c xs @ split_on c ys"
  by (induction xs) (auto split: list.splits)

lemma split_on_in_line: "list_all in_line l \<Longrightarrow> split_on newline l = [l]"
  by (induction l) (auto simp: in_line_def)

lemma ledger_lines_append:
  assumes "c = [] \<or> last c = newline" "list_all in_line l" "strip l = l" "l \<noteq> []"
  shows "ledger_lines (c @ l @ [newline]) = ledger_lines c @ [l]"
proof -
  let ?f = "\<lambda>c. if c = CHR 0x0D then newline else c"
  have l: "map ?f l = l" using assms(2) by (induction l) (auto simp: in_line_def)
  have "split_on newline (map ?f l @ [newline]) = [l, []]"
    using split_on_append [of newline l "[]"] split_on_in_line [OF assms(2)] l by simp
  moreover have "strip [] = []" by (simp add: pystr)
  moreover have "c = [] \<or> (\<exists>c'. c = c' @ [newline])"
    using assms(1) append_butlast_last_id by metis
  ultimately show ?thesis
    using assms(3,4) l
    by (auto simp: ledger_lines_def newline_def split_on_append [of "CHR 0x0A", simplified]
        split_on_append)
qed

section \<open>The chain\<close>

definition row_digest :: "json \<Rightarrow> json" where
  "row_digest e = jget e ''digest''"

text \<open>The digest the next row links to.\<close>

definition chain_tip :: "string \<Rightarrow> json list \<Rightarrow> string" where
  "chain_tip p es = (if es = [] then p else case row_digest (last es) of JStr h \<Rightarrow> h | _ \<Rightarrow> [])"

text \<open>One row that may follow the digest \<open>p\<close>.\<close>

definition links :: "sys \<Rightarrow> string \<Rightarrow> json \<Rightarrow> bool" where
  "links s p e \<longleftrightarrow> is_obj e \<and> \<not> truthy (jget e ''corrupt'')
     \<and> row_digest e = JStr (digest s p (row_body (obj_items e)))"

lemma chain_from_Cons:
  "chain_from s p (e # es) = Inr True \<longleftrightarrow>
   links s p e \<and> chain_from s (chain_tip p [e]) es = Inr True"
  by (cases e) (auto simp: links_def row_digest_def chain_tip_def)

lemma chain_tip_Cons: "chain_tip p (e # es) = chain_tip (chain_tip p [e]) es"
  by (simp add: chain_tip_def)

lemma chain_from_snoc:
  "chain_from s p (es @ [e]) = Inr True \<longleftrightarrow> chain_from s p es = Inr True \<and> links s (chain_tip p es) e"
proof (induction es arbitrary: p)
  case Nil
  show ?case by (simp add: chain_from_Cons) (simp add: chain_tip_def)
next
  case (Cons x es)
  then show ?case by (simp add: chain_from_Cons chain_tip_Cons [of p x es])
qed

lemma links_tip: "links s p e \<Longrightarrow> chain_tip q (es @ [e]) = digest s p (row_body (obj_items e))"
  by (simp add: links_def chain_tip_def)

lemma digest_shape: "length (digest s p b) = 64" "list_all lower_hex (digest s p b)"
  using sha256_hex_shape by (simp_all add: digest_def)

lemma intact_head:
  assumes "chain_intact s es = Inr True"
  shows "chain_head es = Inr (chain_tip GENESIS es)"
proof (cases es rule: rev_cases)
  case Nil
  then show ?thesis by (simp add: chain_head_def chain_tip_def)
next
  case (snoc xs e)
  with assms have l: "links s (chain_tip GENESIS xs) e"
    by (simp add: chain_intact_def chain_from_snoc)
  then obtain d where d: "e = JObj d" by (cases e) (auto simp: links_def)
  define h where "h = digest s (chain_tip GENESIS xs) (row_body d)"
  have "dget_or_null d ''digest'' = JStr h" using l d by (simp add: links_def row_digest_def h_def)
  moreover have "length h = 64" by (simp add: h_def digest_shape)
  then have "h \<noteq> ''CORRUPT''" "h \<noteq> []" by auto
  ultimately show ?thesis using snoc d by (simp add: chain_head_def chain_tip_def row_digest_def)
qed

subsection \<open>Appending\<close>

lemma record_spend_row:
  assumes "record_spend s amount source meta now ledger = Inr (rec, content)"
  obtains body prev where
    "chain_head (read_entries s ledger) = Inr prev"
    "distinct (map fst body)" "''digest'' \<notin> fst ` set body" "''corrupt'' \<notin> fst ` set body"
    "rec = JObj (body @ [(''digest'', JStr (digest s prev (JObj body)))])"
    "content = (case ledger of None \<Rightarrow> [] | Some c \<Rightarrow> c) @ dumps (ledger_opts s) rec @ [newline]"
proof -
  from assms obtain amt prev where
    r: "chain_head (read_entries s ledger) = Inr prev" and
    e: "(let body = [(''ts'', JFloat (Fin (py_round 3 now))), (''amount_usd'', JFloat (pf_round 6 amt)),
            (''source'', JStr source), (''estimated'', JBool True)]
           @ (if truthy meta then [(''meta'', meta)] else []);
          rec = JObj (body @ [(''digest'', JStr (digest s prev (JObj body)))])
         in (rec, (case ledger of None \<Rightarrow> [] | Some c \<Rightarrow> c) @ dumps (ledger_opts s) rec @ [newline]))
       = (rec, content)"
    unfolding record_spend_def bindE_Inr_iff Let_def by blast
  show thesis
    by (rule that [OF r, of "[(''ts'', JFloat (Fin (py_round 3 now))), (''amount_usd'', JFloat (pf_round 6 amt)),
            (''source'', JStr source), (''estimated'', JBool True)]
           @ (if truthy meta then [(''meta'', meta)] else [])"])
      (use e in \<open>auto simp: Let_def\<close>)
qed

lemma links_new_row:
  assumes "distinct (map fst body)" "''digest'' \<notin> fst ` set body" "''corrupt'' \<notin> fst ` set body"
  shows "links s p (sort_json (JObj (body @ [(''digest'', JStr (digest s p (JObj body)))])))"
proof -
  let ?d = "body @ [(''digest'', JStr (digest s p (JObj body)))]"
  have dist: "distinct (map fst ?d)" using assms(1,2) by (auto simp: image_iff)
  have no: "dget body ''digest'' = None" "dget body ''corrupt'' = None"
    using assms(2,3) by (auto simp: map_of_eq_None_iff)
  have keep: "filter (\<lambda>(k, v). k \<noteq> ''digest'') (sort_items body) = sort_items body"
    using assms(2) by (force simp: filter_id_conv sort_items_map)
  define r where "r = sort_json (JObj ?d)"
  have "row_body (obj_items r) = sort_json (JObj body)"
    using keep by (simp add: r_def row_body_def filter_sort sort_items_append)
  moreover have get: "jget r k = sort_json (jget (JObj ?d) k)" for k
    unfolding r_def by (rule jget_sort_json [OF dist])
  have "jget r ''corrupt'' = JNull" "jget r ''digest'' = JStr (digest s p (JObj body))"
    unfolding get using no by (simp_all add: dget_or_null_def map_add_def)
  moreover have "is_obj r" by (simp add: r_def)
  ultimately have "links s p r"
    by (simp add: links_def row_digest_def del: sort_json.simps)
  then show ?thesis by (simp only: r_def)
qed

lemma strip_braces: "strip (CHR ''{'' # m @ [CHR ''}'']) = CHR ''{'' # m @ [CHR ''}'']"
  by (simp add: strip_def strip_by_def rstrip_by_def py_space_def)

lemma read_appended:
  assumes "ledger = None \<or> (\<exists>c. ledger = Some c \<and> (c = [] \<or> last c = newline))"
    "\<And>q. list_all in_line (s_frepr s q)"
    "record_spend s amount source meta now ledger = Inr (rec, content)"
    "s_loads s (utf8 (dumps (ledger_opts s) rec)) = Inr v"
  shows "read_entries s (Some content) = read_entries s ledger @ [v]"
proof -
  from assms(3) obtain d where rec: "rec = JObj d" and
    content: "content = (case ledger of None \<Rightarrow> [] | Some c \<Rightarrow> c) @ dumps (ledger_opts s) rec @ [newline]"
    by (elim record_spend_row) blast
  define l where "l = dumps (ledger_opts s) rec"
  have "\<exists>m. l = CHR ''{'' # m @ [CHR ''}'']"
    by (simp add: l_def rec dumps_def ledger_opts_def)
  then have "strip l = l" "l \<noteq> []" using strip_braces by auto
  moreover have "list_all in_line l"
    unfolding l_def dumps_def
    by (rule dump_val_in_line) (simp_all add: ledger_opts_def default_opts_def assms(2) in_line_def newline_def)
  moreover have nil: "ledger_lines [] = []" by (simp add: ledger_lines_def pystr)
  ultimately have "ledger_lines content = (case ledger of None \<Rightarrow> [] | Some c \<Rightarrow> ledger_lines c) @ [l]"
    using assms(1) ledger_lines_append [of _ l] ledger_lines_append [of "[]" l] content l_def
    by (auto split: option.splits)
  with assms(4) show ?thesis
    by (auto simp: read_entries_def l_def split: option.splits)
qed

section \<open>Tampering\<close>

definition entry_text :: "sys \<Rightarrow> json \<Rightarrow> string" where
  "entry_text s e = row_text s (row_body (obj_items e))"

text \<open>The strings hashed for the rows of a ledger, and two ledgers with an actual SHA-256 collision.\<close>

fun hash_inputs :: "sys \<Rightarrow> string \<Rightarrow> json list \<Rightarrow> string list" where
  "hash_inputs s p [] = []"
| "hash_inputs s p (e # es) = (utf8 p @ entry_text s e) # hash_inputs s (chain_tip p [e]) es"

definition collide :: "string list \<Rightarrow> string list \<Rightarrow> bool" where
  "collide xs ys = list_ex (\<lambda>(x, y). x \<noteq> y \<and> sha256_hex x = sha256_hex y) (zip xs ys)"

lemma hash_inputs_snoc:
  "hash_inputs s p (es @ [e]) = hash_inputs s p es @ [utf8 (chain_tip p es) @ entry_text s e]"
proof (induction es arbitrary: p)
  case Nil
  then show ?case by (simp add: chain_tip_def)
next
  case (Cons x es)
  then show ?case by (simp add: chain_tip_Cons [of p x es])
qed

lemma length_hash_inputs [simp]: "length (hash_inputs s p es) = length es"
  by (induction es arbitrary: p) auto

lemma lower_hex_ascii: "lower_hex c \<Longrightarrow> (of_char c :: nat) < 128"
  by (auto simp: lower_hex_def)

lemma lower_hex_utf8: "list_all lower_hex t \<Longrightarrow> utf8 t = t"
  using utf8_ascii lower_hex_ascii by (metis list.pred_mono_strong)

lemma chain_tip_shape:
  "chain_from s p es = Inr True \<Longrightarrow> length p = 64 \<Longrightarrow> list_all lower_hex p \<Longrightarrow>
   length (chain_tip p es) = 64 \<and> list_all lower_hex (chain_tip p es)"
proof (induction es rule: rev_induct)
  case Nil
  then show ?case by (simp add: chain_tip_def)
next
  case (snoc e es)
  then have "links s (chain_tip p es) e" by (simp add: chain_from_snoc)
  then show ?case using digest_shape by (simp add: links_tip [of s "chain_tip p es"])
qed

lemma chain_determined:
  "chain_from s p es = Inr True \<Longrightarrow> chain_from s p es' = Inr True \<Longrightarrow> length es = length es' \<Longrightarrow>
   chain_tip p es = chain_tip p es' \<Longrightarrow> length p = 64 \<Longrightarrow> list_all lower_hex p \<Longrightarrow>
   \<not> collide (hash_inputs s p es) (hash_inputs s p es') \<Longrightarrow>
   map (entry_text s) es = map (entry_text s) es'"
proof (induction es arbitrary: es' rule: rev_induct)
  case Nil
  then show ?case by simp
next
  case (snoc e es)
  from snoc.prems(3) obtain xs x where es': "es' = xs @ [x]" "length xs = length es"
    by (cases es' rule: rev_cases) auto
  have e: "chain_from s p es = Inr True" "links s (chain_tip p es) e"
    and x: "chain_from s p xs = Inr True" "links s (chain_tip p xs) x"
    using snoc.prems(1,2) es' by (simp_all add: chain_from_snoc)
  have nc: "\<not> collide (hash_inputs s p es) (hash_inputs s p xs)"
    "utf8 (chain_tip p es) @ entry_text s e = utf8 (chain_tip p xs) @ entry_text s x
      \<or> sha256_hex (utf8 (chain_tip p es) @ entry_text s e)
        \<noteq> sha256_hex (utf8 (chain_tip p xs) @ entry_text s x)"
    using snoc.prems(7) es' by (auto simp: hash_inputs_snoc collide_def)
  have "sha256_hex (utf8 (chain_tip p es) @ entry_text s e)
      = sha256_hex (utf8 (chain_tip p xs) @ entry_text s x)"
    using snoc.prems(4) es'(1) links_tip [OF e(2)] links_tip [OF x(2)]
    by (simp add: digest_def entry_text_def)
  with nc(2) have eq: "utf8 (chain_tip p es) @ entry_text s e = utf8 (chain_tip p xs) @ entry_text s x"
    by simp
  moreover note chain_tip_shape [OF e(1) snoc.prems(5,6)] chain_tip_shape [OF x(1) snoc.prems(5,6)]
  ultimately have "chain_tip p es = chain_tip p xs" "entry_text s e = entry_text s x"
    by (auto simp: lower_hex_utf8)
  with snoc.IH [OF e(1) x(1)] es' snoc.prems(5,6) nc(1) show ?case by simp
qed

lemma genesis_shape: "length GENESIS = 64" "list_all lower_hex GENESIS"
  by (simp_all add: GENESIS_def lower_hex_def list_all_iff)

section \<open>The properties\<close>

text \<open>
  C8. The ledger keeps its chain. If the file is missing or ends with a newline, no float prints a
  line break and \<open>json.loads\<close> inverts \<open>json.dumps\<close> on the row, then a successful \<open>record\<close> on an
  intact ledger leaves a file that reads back as the old rows followed by the new one, and that
  chain is intact too.
\<close>

theorem record_extends_chain:
  assumes "ledger = None \<or> (\<exists>c. ledger = Some c \<and> (c = [] \<or> last c = newline))"
    and "\<And>q. list_all in_line (s_frepr s q)"
    and "record_spend s amount source meta now ledger = Inr (rec, content)"
    and "s_loads s (utf8 (dumps (ledger_opts s) rec)) = Inr (sort_json rec)"
    and "chain_intact s (read_entries s ledger) = Inr True"
  shows "read_entries s (Some content) = read_entries s ledger @ [sort_json rec]
    \<and> chain_intact s (read_entries s (Some content)) = Inr True"
proof -
  have app: "read_entries s (Some content) = read_entries s ledger @ [sort_json rec]"
    by (rule read_appended [OF assms(1-4)])
  from assms(3) obtain body prev where b: "chain_head (read_entries s ledger) = Inr prev"
    "distinct (map fst body)" "''digest'' \<notin> fst ` set body" "''corrupt'' \<notin> fst ` set body"
    "rec = JObj (body @ [(''digest'', JStr (digest s prev (JObj body)))])"
    by (elim record_spend_row)
  have "prev = chain_tip GENESIS (read_entries s ledger)"
    using b(1) intact_head [OF assms(5)] by simp
  then have "links s (chain_tip GENESIS (read_entries s ledger)) (sort_json rec)"
    using links_new_row [OF b(2-4)] b(5) by simp
  with app assms(5) show ?thesis by (simp add: chain_intact_def chain_from_snoc)
qed

definition witness_sys :: "(string \<Rightarrow> exn + json) \<Rightarrow> sys" where
  "witness_sys loads = \<lparr>s_env = (\<lambda>_. None), s_loads = loads, s_decode = Some, s_float = (\<lambda>_. None),
     s_frepr = (\<lambda>_. ''0.5''), s_time = of_nat, s_unif = (\<lambda>_. 1),
     s_net = (\<lambda>_ _. WFail (ConnError ''OSError'' ''refused'')), s_retry_max = 3, s_retry_base = 1/4,
     s_retry_cap = 4, s_embed_ttl = 300, s_embed_max = 1024, s_scope_key = ''k''\<rparr>"

definition witness_row :: json where
  "witness_row = (let body = [(''ts'', JFloat (Fin 7)), (''amount_usd'', JFloat (Fin (1/2))),
       (''source'', JStr ''kimi''), (''estimated'', JBool True)]
     in JObj (body @ [(''digest'', JStr (digest (witness_sys (\<lambda>_. Inr JNull)) GENESIS (JObj body)))]))"

lemma witness_record:
  "record_spend (witness_sys loads) (JFloat (Fin (1/2))) ''kimi'' JNull 7 None
     = Inr (witness_row, dumps (ledger_opts (witness_sys loads)) witness_row @ [newline])"
proof -
  have r: "py_round 3 7 = 7" "py_round 6 (1/2) = 1/2"
    using round_even_int [of 7000] round_even_int [of 500000] by (simp_all add: py_round_def)
  show ?thesis
    by (simp add: r record_spend_def py_float_def chain_head_def read_entries_def witness_row_def Let_def
        digest_def row_text_def witness_sys_def)
qed

theorem record_extends_chain_witness:
  "\<exists>s content. record_spend s (JFloat (Fin (1/2))) ''kimi'' JNull 7 None = Inr (witness_row, content)
     \<and> read_entries s (Some content) = [sort_json witness_row]
     \<and> chain_intact s (read_entries s (Some content)) = Inr True"
proof -
  let ?s = "witness_sys (\<lambda>_. Inr (sort_json witness_row))"
  have "list_all in_line (s_frepr ?s q)" for q
    by (simp add: witness_sys_def in_line_def newline_def)
  moreover have "s_loads ?s t = Inr (sort_json witness_row)" for t by (simp add: witness_sys_def)
  moreover have "read_entries ?s None = []" by (simp add: read_entries_def)
  ultimately show ?thesis
    using record_extends_chain [OF _ _ witness_record [of "\<lambda>_. Inr (sort_json witness_row)"]] witness_record
    by (intro exI [of _ ?s]) (auto simp: chain_intact_def)
qed

text \<open>
  C9. The ledger is tamper-evident: two intact ledgers with as many rows and the same last digest
  hold the same canonical text in every row, unless the strings they hashed contain an actual
  SHA-256 collision.
\<close>

theorem ledger_tamper_evident:
  assumes "chain_intact s es = Inr True" "chain_intact s es' = Inr True" "length es = length es'"
    and "row_digest (last es) = row_digest (last es')"
  shows "map (entry_text s) es = map (entry_text s) es'
    \<or> collide (hash_inputs s GENESIS es) (hash_inputs s GENESIS es')"
proof -
  have "chain_tip GENESIS es = chain_tip GENESIS es'"
    using assms(3,4) by (auto simp: chain_tip_def)
  with assms(1-3) chain_determined [of s GENESIS es es'] genesis_shape show ?thesis
    by (auto simp: chain_intact_def)
qed

theorem ledger_tamper_evident_witness:
  "let s = witness_sys (\<lambda>_. Inr JNull) in chain_intact s [witness_row] = Inr True
   \<and> (map (entry_text s) [witness_row] = map (entry_text s) [witness_row]
      \<or> collide (hash_inputs s GENESIS [witness_row]) (hash_inputs s GENESIS [witness_row]))"
proof -
  let ?s = "witness_sys (\<lambda>_. Inr JNull)"
  have ok: "chain_intact ?s [witness_row] = Inr True"
    by (simp add: chain_intact_def witness_row_def dget_or_null_def row_body_def Let_def)
  with ledger_tamper_evident [OF ok ok refl refl] show ?thesis by (simp only: Let_def)
qed

end
