(* ===== verification/Failover.thy ===== *)
theory Failover
  imports Upstream Validation Scoring Spend
begin

text \<open>
  What \<open>chat()\<close> and \<open>embed()\<close> of \<open>szl_router/core.py\<close> share: the provenance record, the rows of the
  attempt trail, the handling of a failed or unusable reply, the closing of a budget, and the walk
  over the routes (\<open>failover\<close>).

  The locale \<open>failover_turn\<close> is the contract of one turn of that walk: what it may send and what it
  adds to the trail. Its lemmas follow the whole walk by induction over the routes; \<open>Chat\<close> and
  \<open>Embed\<close> interpret it on their loop bodies.
\<close>

section \<open>Provenance\<close>

record provenance =
  v_served_by :: "string option"
  v_provider :: "string option"
  v_upstream_model :: "string option"
  v_base_url :: "string option"
  v_sovereign :: bool
  v_energy_source :: "string option"
  v_tier :: "string option"
  v_attempts :: "attempt list"
  v_routing :: "json option"
  v_cost :: "json option"
  v_request_id :: "string option"
  v_policy_revision :: "string option"
  v_terminal_reason :: "string option"
  v_attempt_ceiling :: "nat option"
  v_attempts_reserved :: "nat option"

definition new_provenance :: "json option \<Rightarrow> provenance" where
  "new_provenance routing =
     \<lparr>v_served_by = None, v_provider = None, v_upstream_model = None, v_base_url = None,
      v_sovereign = False, v_energy_source = None, v_tier = None, v_attempts = [],
      v_routing = routing, v_cost = None, v_request_id = None, v_policy_revision = None,
      v_terminal_reason = None, v_attempt_ceiling = None, v_attempts_reserved = None\<rparr>"

definition opt_nat :: "nat option \<Rightarrow> json" where
  "opt_nat x = opt_int (map_option int x)"

definition provenance_dict :: "provenance \<Rightarrow> jdict" where
  "provenance_dict v =
     [(''served_by'', opt_str (v_served_by v)),
      (''provider'', opt_str (v_provider v)),
      (''upstream_model'', opt_str (v_upstream_model v)),
      (''base_url'', opt_str (v_base_url v)),
      (''sovereign'', JBool (v_sovereign v)),
      (''energy_source'', opt_str (v_energy_source v)),
      (''tier'', opt_str (v_tier v)),
      (''attempts'', JArr (map attempt_json (v_attempts v)))]
     @ (case v_routing v of None \<Rightarrow> [] | Some r \<Rightarrow> [(''routing'', r)])
     @ (case v_cost v of None \<Rightarrow> [] | Some c \<Rightarrow> [(''cost'', c)])
     @ (if v_request_id v = None then []
        else [(''request_id'', opt_str (v_request_id v)),
              (''policy_revision'', opt_str (v_policy_revision v)),
              (''terminal_reason'', opt_str (v_terminal_reason v)),
              (''attempt_ceiling'', opt_nat (v_attempt_ceiling v)),
              (''attempts_reserved'', opt_nat (v_attempts_reserved v))])"

definition budget_fields :: "budget \<Rightarrow> provenance \<Rightarrow> provenance" where
  "budget_fields b v = v\<lparr>v_request_id := Some (b_request_id b), v_policy_revision := Some (b_policy_revision b),
     v_terminal_reason := b_terminal b, v_attempt_ceiling := Some (b_max b),
     v_attempts_reserved := Some (b_reserved b)\<rparr>"

definition closed_reason :: "attempt list \<Rightarrow> nat \<Rightarrow> string" where
  "closed_reason attempts dispatched =
     (if dispatched \<noteq> 0 then ''provider_unavailable''
      else let errors = map (\<lambda>a. case at_error a of None \<Rightarrow> [] | Some e \<Rightarrow> e) attempts
           in if errors \<noteq> [] \<and> list_all (startswith ''pricing/'') errors then ''policy_blocked''
              else ''provider_unavailable'')"

section \<open>Steps and rows\<close>

datatype step =
    Continue cstate
  | Break cstate
  | Served json provenance cstate
  | Fail exn cstate
  | Cached json cstate

fun step_state :: "step \<Rightarrow> cstate" where
  "step_state (Continue st) = st"
| "step_state (Break st) = st"
| "step_state (Served out v st) = st"
| "step_state (Fail e st) = st"
| "step_state (Cached out st) = st"

text \<open>The outcome of a whole call.\<close>

datatype 'a outcome = Ret 'a | RouterError string "attempt list" "string option" | Raise exn

definition skip_row :: "route \<Rightarrow> string \<Rightarrow> attempt" where
  "skip_row r err = mk_attempt (fst r) (snd r) False None (Some err) None"

text \<open>The two \<open>except\<close> blocks: without a budget they add the row themselves.\<close>

definition failure_row :: "sys \<Rightarrow> route \<Rightarrow> exn \<Rightarrow> int \<Rightarrow> attempt" where
  "failure_row s r e dt =
     (case e of
        HTTPError code _ body \<Rightarrow>
          mk_attempt (fst r) (snd r) False (Some code)
            (Some (case s_decode s body of Some t \<Rightarrow> take 200 t | None \<Rightarrow> exn_str e)) (Some dt)
      | _ \<Rightarrow> mk_attempt (fst r) (snd r) False None (Some (exn_text e)) (Some dt))"

definition elapsed :: "sys \<Rightarrow> rat \<Rightarrow> world \<Rightarrow> int \<times> world" where
  "elapsed s t0 w = (let (t1, w') = read_time s w in (py_trunc ((t1 - t0) * 1000), w'))"

definition terminal_now :: "budget option \<Rightarrow> bool" where
  "terminal_now bo = (case bo of None \<Rightarrow> False | Some b \<Rightarrow> b_terminal b \<noteq> None)"

definition after_failure :: "sys \<Rightarrow> bool \<Rightarrow> route \<Rightarrow> exn \<Rightarrow> rat \<Rightarrow> cstate \<Rightarrow> step" where
  "after_failure s cool r e t0 st =
     (let (bo, a, w) = st;
          (dt, w1) = elapsed s t0 w;
          a1 = (if bo = None then a @ [failure_row s r e dt] else a);
          w2 = (if cool then set_cooldown s (fst r) w1 else w1)
      in if terminal_now bo then Break (bo, a1, w2) else Continue (bo, a1, w2))"

text \<open>A response that is not usable: with a budget the row of the dispatch is rewritten.\<close>

definition set_last :: "('a \<Rightarrow> 'a) \<Rightarrow> 'a list \<Rightarrow> 'a list" where
  "set_last f xs = butlast xs @ [f (last xs)]"

definition bad_answer :: "route \<Rightarrow> string \<Rightarrow> int \<Rightarrow> budget option \<Rightarrow> attempt list \<Rightarrow> attempt list" where
  "bad_answer r detail dt bo a =
     (if bo = None then a @ [mk_attempt (fst r) (snd r) False (Some 200) (Some detail) (Some dt)]
      else set_last (\<lambda>x. x\<lparr>at_ok := False, at_status := Some 200, at_error := Some detail,
                           at_latency := Some dt\<rparr>) a)"

definition good_answer :: "route \<Rightarrow> int \<Rightarrow> budget option \<Rightarrow> attempt list \<Rightarrow> attempt list" where
  "good_answer r dt bo a =
     (if bo = None then a @ [mk_attempt (fst r) (snd r) True (Some 200) None (Some dt)]
      else set_last (\<lambda>x. x\<lparr>at_latency := Some dt\<rparr>) a)"

section \<open>The walk\<close>

text \<open>\<open>turn r later st\<close> is the loop body for the route \<open>r\<close>, with \<open>later\<close> still to come.\<close>

fun failover :: "(route \<Rightarrow> route list \<Rightarrow> cstate \<Rightarrow> step) \<Rightarrow> route list \<Rightarrow> cstate \<Rightarrow> step" where
  "failover turn [] st = Continue st"
| "failover turn (r # later) st =
     (case turn r later st of Continue st' \<Rightarrow> failover turn later st' | x \<Rightarrow> x)"

text \<open>After the loop: close the budget.\<close>

definition finish_budget :: "attempt list \<Rightarrow> budget option \<Rightarrow> budget option \<times> string option" where
  "finish_budget a bo =
     (case bo of
        None \<Rightarrow> (None, None)
      | Some b \<Rightarrow>
          let b1 = (if b_terminal b = None then snd (close (closed_reason a (b_reserved b)) b) else b)
          in (Some b1, b_terminal b1))"

definition failed_text :: "string \<Rightarrow> string \<Rightarrow> string" where
  "failed_text what model = what @ [CHR 0x27] @ model @ [CHR 0x27]"

definition extra_error :: "string \<Rightarrow> string list \<Rightarrow> string \<Rightarrow> json \<Rightarrow> exn option" where
  "extra_error what ks shown extra =
     (case extra of
        JNull \<Rightarrow> None
      | JObj d \<Rightarrow> if list_ex (has_key d) ks
                then Some (ValueError (what @ '' extra cannot override '' @ shown)) else None
      | _ \<Rightarrow> Some (ValueError (what @ '' extra must be an object'')))"

definition timeout_error :: "budget option \<Rightarrow> json \<Rightarrow> exn option" where
  "timeout_error bo tmo =
     (case bo of None \<Rightarrow> None
      | Some _ \<Rightarrow> (case validate_caller_timeout tmo of Inl e \<Rightarrow> Some e | Inr _ \<Rightarrow> None))"

section \<open>What leaves the wire alone\<close>

definition quiet :: "world \<Rightarrow> world \<Rightarrow> bool" where
  "quiet w w' \<longleftrightarrow> w_wire w' = w_wire w \<and> net_ok w' = net_ok w \<and> w_budgeted w' = w_budgeted w"

lemma quiet_trans [trans]: "quiet w w' \<Longrightarrow> quiet w' w'' \<Longrightarrow> quiet w w''"
  by (simp add: quiet_def)

lemma quiet_tick: "w' = w\<lparr>w_tick := n\<rparr> \<Longrightarrow> quiet w w'"
  by (simp add: quiet_def)

lemma quiet_ops:
  "quiet w w" "quiet w (snd (read_time s w))" "quiet w (snd (elapsed s t0 w))"
  "quiet w (set_cooldown s n w)" "quiet w (clear_cooldown n w)"
  by (auto simp: quiet_def read_time_def elapsed_def set_cooldown_def clear_cooldown_def Let_def split: pyfloat.splits)

lemma quiet_cooldown: "cooldown_remaining s n w = (x, w') \<Longrightarrow> quiet w w'"
  by (rule quiet_tick) (rule cooldown_remaining_frame)

lemma quiet_warm: "warm_candidate_later s rs w = (x, w') \<Longrightarrow> quiet w w'"
  by (rule quiet_tick) (rule warm_candidate_frame)

lemma adv_quiet': "adv P n st (bo, a, w) \<Longrightarrow> quiet w w' \<Longrightarrow> adv P n st (bo, a', w')"
  by (rule adv_quiet) (simp_all add: quiet_def)

lemma adv_quiet_first: "quiet w w1 \<Longrightarrow> adv P n (bo, a, w1) st' \<Longrightarrow> adv P n (bo, a', w) st'"
  by (auto simp: adv_def quiet_def wire_grows_def split: prod.splits option.splits)

section \<open>One turn\<close>

definition per_route :: "sys \<Rightarrow> nat" where
  "per_route s = 2 * nat (s_retry_max s)"

lemma after_failure_shape:
  obtains a2 w2 dt where "quiet w w2" "a2 = (if bo = None then a @ [failure_row s r e dt] else a)"
    "after_failure s cool r e t0 (bo, a, w)
       = (if terminal_now bo then Break (bo, a2, w2) else Continue (bo, a2, w2))"
proof -
  obtain dt w1 where el: "elapsed s t0 w = (dt, w1)" by fastforce
  have "quiet w w1" using quiet_ops(3) [of w s t0] el by simp
  then have "quiet w (if cool then set_cooldown s (fst r) w1 else w1)"
    using quiet_trans quiet_ops(4) by simp
  from that [OF this refl] el show thesis by (simp add: after_failure_def Let_def)
qed

lemma after_failure_adv:
  assumes "adv P n st (bo, a, w)"
  shows "adv P n st (step_state (after_failure s cool r e t0 (bo, a, w)))"
  by (rule after_failure_shape [of w bo a s r e cool t0]) (use adv_quiet' [OF assms] in simp)

lemma mark_success_reserved [simp]: "b_reserved (mark_success b) = b_reserved b"
  by (simp add: mark_success_def)

lemma mark_success_terminal [simp]: "\<exists>r. b_terminal (mark_success b) = Some r"
  by (simp add: mark_success_def)

lemma adv_success: "adv P n st (bo, a, w) \<Longrightarrow> adv P n st (map_option mark_success bo, a, w)"
  by (cases bo) (simp_all add: adv_budget [OF _ budget_step.mark_success])

definition route_of :: "attempt \<Rightarrow> route" where
  "route_of a = (at_provider a, at_model a)"

lemma route_of_simps [simp]:
  "route_of (mk_attempt p m ok st er lat) = (p, m)" "route_of (x\<lparr>at_ok := b\<rparr>) = route_of x"
  "route_of (x\<lparr>at_status := st\<rparr>) = route_of x" "route_of (x\<lparr>at_error := er\<rparr>) = route_of x"
  "route_of (x\<lparr>at_latency := lat\<rparr>) = route_of x" "route_of (skip_row r e) = r"
  "at_ok (skip_row r e) = False" "route_of (failure_row s r ex dt) = r" "at_ok (failure_row s r ex dt) = False"
  by (simp_all add: route_of_def skip_row_def failure_row_def split: exn.splits)

lemma set_last_append: "ys \<noteq> [] \<Longrightarrow> set_last f (xs @ ys) = xs @ set_last f ys"
  by (simp add: set_last_def butlast_append)

text \<open>Rows that all name this route, the last one a success and the others not.\<close>

definition won :: "route \<Rightarrow> attempt list \<Rightarrow> bool" where
  "won r rows \<longleftrightarrow> rows \<noteq> [] \<and> list_all (\<lambda>x. route_of x = r) rows \<and> at_ok (last rows)
     \<and> list_all (Not \<circ> at_ok) (butlast rows)"

definition lost :: "route \<Rightarrow> attempt list \<Rightarrow> bool" where
  "lost r rows \<longleftrightarrow> list_all (\<lambda>x. route_of x = r) rows \<and> list_all (Not \<circ> at_ok) rows"

lemma won_lost: "won r rows \<Longrightarrow> lost r (set_last (\<lambda>x. x\<lparr>at_ok := False, at_status := st, at_error := er, at_latency := l\<rparr>) rows)"
  by (cases rows rule: rev_cases) (auto simp: won_def lost_def set_last_def)

lemma won_latency: "won r rows \<Longrightarrow> won r (set_last (\<lambda>x. x\<lparr>at_latency := l\<rparr>) rows)"
  by (cases rows rule: rev_cases) (auto simp: won_def set_last_def)

text \<open>One turn of the loop, as the trail sees it; \<open>hon\<close> is what a served answer must satisfy.\<close>

type_synonym honesty = "route \<Rightarrow> attempt list \<Rightarrow> json \<Rightarrow> provenance \<Rightarrow> bool"

definition turn_ok :: "honesty \<Rightarrow> route \<Rightarrow> cstate \<Rightarrow> step \<Rightarrow> bool" where
  "turn_ok hon r st x = (case (st, step_state x) of ((bo, a, w), (bo', a', w')) \<Rightarrow>
     (bo' = None) = (bo = None) \<and>
     (\<exists>rows. a' = a @ rows \<and>
       (case x of
          Served out v _ \<Rightarrow> won r rows \<and> hon r a' out v
            \<and> (bo = None \<longrightarrow> length rows = 1) \<and> (\<forall>b. bo' = Some b \<longrightarrow> b_terminal b \<noteq> None)
        | Fail _ _ \<Rightarrow> False
        | Cached _ _ \<Rightarrow> rows = []
        | Break _ \<Rightarrow> lost r rows \<and> (bo = None \<longrightarrow> rows = [])
        | Continue _ \<Rightarrow> lost r rows \<and> (bo = None \<longrightarrow> length rows = 1))))"

lemma after_failure_turn:
  assumes "a' = a @ rows" "lost r rows" "(bo' = None) = (bo = None)" "bo = None \<longrightarrow> rows = []"
  shows "turn_ok hon r (bo, a, w) (after_failure s cool r e t0 (bo', a', w'))"
  by (rule after_failure_shape [of w' bo' a' s r e cool t0])
    (use assms in \<open>auto simp: turn_ok_def lost_def terminal_now_def\<close>)

lemma bad_answer_turn:
  assumes "a' = a @ rows" "bo' = None \<longrightarrow> rows = []" "bo' \<noteq> None \<longrightarrow> won r rows"
  shows "\<exists>rows'. bad_answer r detail dt bo' a' = a @ rows' \<and> lost r rows' \<and> (bo' = None \<longrightarrow> length rows' = 1)"
proof (cases bo')
  case None
  with assms show ?thesis by (simp add: bad_answer_def lost_def)
next
  case (Some b)
  then have "won r rows" using assms by simp
  then show ?thesis
    using Some assms(1) won_lost by (auto simp: bad_answer_def won_def set_last_append)
qed

lemma good_answer_turn:
  assumes "a' = a @ rows" "bo' = None \<longrightarrow> rows = []" "bo' \<noteq> None \<longrightarrow> won r rows"
  shows "\<exists>rows'. good_answer r dt bo' a' = a @ rows' \<and> won r rows' \<and> (bo' = None \<longrightarrow> length rows' = 1)"
proof (cases bo')
  case None
  with assms show ?thesis by (simp add: good_answer_def won_def)
next
  case (Some b)
  then have "won r rows" using assms by simp
  moreover from this have "rows \<noteq> []" by (simp add: won_def)
  ultimately show ?thesis
    using Some assms(1) won_latency by (auto simp: good_answer_def set_last_append)
qed

lemma row_for_route:
  assumes "list_all (row_for p payload) rows" "p_name p = fst r" "jget payload ''model'' = JStr (snd r)"
  shows "list_all (\<lambda>x. route_of x = r) rows"
  using assms by (auto simp: row_for_def route_of_def list_all_iff)

section \<open>The whole walk\<close>

text \<open>What the whole loop has added to the trail when it ends without an answer, and with one.\<close>

definition all_lost :: "route list \<Rightarrow> attempt list \<Rightarrow> bool" where
  "all_lost routes rows \<longleftrightarrow> list_all (Not \<circ> at_ok) rows \<and> list_all (\<lambda>x. route_of x \<in> set routes) rows"

definition answered ::
  "honesty \<Rightarrow> route list \<Rightarrow> bool \<Rightarrow> route list \<Rightarrow> route \<Rightarrow> attempt list \<Rightarrow> attempt list \<Rightarrow> attempt list
     \<Rightarrow> json \<Rightarrow> provenance \<Rightarrow> bool" where
  "answered hon routes plain pre r fails rows trail out v \<longleftrightarrow>
     (\<exists>post. routes = pre @ r # post) \<and> all_lost pre fails \<and> won r rows \<and> hon r trail out v
     \<and> (plain \<longrightarrow> map route_of fails = pre \<and> length rows = 1)"

lemma answered_here:
  "won r rows \<Longrightarrow> hon r trail out v \<Longrightarrow> (plain \<longrightarrow> length rows = 1) \<Longrightarrow>
   answered hon (r # rs) plain [] r [] rows trail out v"
  by (simp add: answered_def all_lost_def)

lemma answered_later:
  "answered hon rs plain pre x fails rows trail out v \<Longrightarrow> all_lost [r] rows0 \<Longrightarrow>
   (plain \<longrightarrow> map route_of rows0 = [r]) \<Longrightarrow>
   answered hon (r # rs) plain (r # pre) x (rows0 @ fails) rows trail out v"
  by (auto simp: answered_def all_lost_def list_all_iff)

definition loop_ok :: "honesty \<Rightarrow> route list \<Rightarrow> cstate \<Rightarrow> step \<Rightarrow> bool" where
  "loop_ok hon routes st x = (case (st, step_state x) of ((bo, a, w), (bo', a', w')) \<Rightarrow>
     (bo' = None) = (bo = None) \<and>
     (case x of
        Served out v _ \<Rightarrow>
          (\<exists>pre r fails rows. answered hon routes (bo = None) pre r fails rows a' out v \<and> a' = a @ fails @ rows)
          \<and> (\<forall>b. bo' = Some b \<longrightarrow> b_terminal b \<noteq> None)
      | Fail _ _ \<Rightarrow> False
      | Cached _ _ \<Rightarrow> \<exists>pre r post rows. routes = pre @ r # post \<and> a' = a @ rows \<and> all_lost pre rows
      | Break _ \<Rightarrow> \<exists>rows. a' = a @ rows \<and> all_lost routes rows
          \<and> (bo = None \<longrightarrow> map route_of rows = take (length rows) routes)
      | Continue _ \<Rightarrow> \<exists>rows. a' = a @ rows \<and> all_lost routes rows
          \<and> (bo = None \<longrightarrow> map route_of rows = routes)))"

locale failover_turn =
  fixes turn :: "route \<Rightarrow> route list \<Rightarrow> cstate \<Rightarrow> step" and sent :: "route \<Rightarrow> wire_req \<Rightarrow> bool"
    and n :: nat and hon :: honesty and valid :: bool
  assumes turn_adv: "net_ok w \<Longrightarrow> \<not> w_budgeted w \<Longrightarrow>
      adv (sent r) n (bo, a, w) (step_state (turn r later (bo, a, w)))"
    and turn_trail: "valid \<Longrightarrow> net_ok w \<Longrightarrow> \<not> w_budgeted w \<Longrightarrow>
      turn_ok hon r (bo, a, w) (turn r later (bo, a, w))"
begin

lemma walk_adv:
  assumes "net_ok w" "\<not> w_budgeted w"
  shows "adv (\<lambda>q. list_ex (\<lambda>r. sent r q) routes) (n * length routes) (bo, a, w)
    (step_state (failover turn routes (bo, a, w)))"
  using assms
proof (induction routes arbitrary: bo a w)
  case Nil
  then show ?case by (simp add: adv_refl)
next
  case (Cons r rs)
  let ?P = "\<lambda>q. list_ex (\<lambda>r. sent r q) (r # rs)"
  have first: "adv ?P n (bo, a, w) (step_state (turn r rs (bo, a, w)))"
    using turn_adv [OF Cons.prems] by (rule adv_P) simp
  show ?case
  proof (cases "turn r rs (bo, a, w)")
    case (Continue st)
    obtain bo1 a1 w1 where st: "st = (bo1, a1, w1)" by (cases st)
    have "net_ok w1" "\<not> w_budgeted w1" using first Continue st by (simp_all add: adv_def)
    from Cons.IH [OF this] have "adv ?P (n * length rs) (bo1, a1, w1)
        (step_state (failover turn rs (bo1, a1, w1)))"
      by (rule adv_P) simp
    with first Continue st show ?thesis
      by (auto intro: adv_trans)
  qed (use first in \<open>auto intro: adv_mono\<close>)
qed

lemma walk_ok:
  assumes "net_ok w" "\<not> w_budgeted w"
    and valid
  shows "loop_ok hon routes (bo, a, w) (failover turn routes (bo, a, w))"
  using assms(1,2)
proof (induction routes arbitrary: bo a w)
  case Nil
  then show ?case by (simp add: loop_ok_def all_lost_def)
next
  case (Cons r rs)
  note turn = turn_trail [OF assms(3) Cons.prems, of r bo a rs]
  show ?case
  proof (cases "turn r rs (bo, a, w)")
    case (Continue st)
    obtain bo1 a1 w1 where st: "st = (bo1, a1, w1)" by (cases st)
    have "net_ok w1" "\<not> w_budgeted w1"
      using turn_adv [OF Cons.prems, of r bo a rs] Continue st
      by (simp_all add: adv_def)
    note ih = Cons.IH [OF this, of bo1 a1]
    from turn Continue st obtain rows where rows: "a1 = a @ rows" "lost r rows"
      "bo = None \<longrightarrow> length rows = 1" "(bo1 = None) = (bo = None)"
      by (auto simp: turn_ok_def)
    have one: "bo = None \<longrightarrow> map route_of rows = [r]"
      using rows(2,3) by (cases rows) (auto simp: lost_def)
    have here: "all_lost [r] rows" using rows(2) by (auto simp: lost_def all_lost_def list_all_iff)
    show ?thesis
    proof (cases "failover turn rs (bo1, a1, w1)")
      case (Continue st2)
      obtain bo2 a2 w2 where st2: "st2 = (bo2, a2, w2)" by (cases st2)
      with ih Continue obtain rows2 where "a2 = a1 @ rows2" "all_lost rs rows2"
        "bo1 = None \<longrightarrow> map route_of rows2 = rs" "(bo2 = None) = (bo1 = None)"
        by (auto simp: loop_ok_def)
      with \<open>turn r rs (bo, a, w) = step.Continue st\<close> st st2 Continue rows one here
      show ?thesis
        by (auto simp: loop_ok_def all_lost_def list_all_iff)
    next
      case (Break st2)
      obtain bo2 a2 w2 where st2: "st2 = (bo2, a2, w2)" by (cases st2)
      with ih Break obtain rows2 where "a2 = a1 @ rows2" "all_lost rs rows2"
        "bo1 = None \<longrightarrow> map route_of rows2 = take (length rows2) rs" "(bo2 = None) = (bo1 = None)"
        by (auto simp: loop_ok_def)
      with Continue st st2 Break rows one here show ?thesis
        by (auto simp: loop_ok_def all_lost_def list_all_iff)
    next
      case (Served out v st2)
      obtain bo2 a2 w2 where st2: "st2 = (bo2, a2, w2)" by (cases st2)
      with ih Served obtain pre x lost2 rows2 where s2:
        "answered hon rs (bo1 = None) pre x lost2 rows2 a2 out v" "a2 = a1 @ lost2 @ rows2"
        "\<forall>b. bo2 = Some b \<longrightarrow> b_terminal b \<noteq> None" "(bo2 = None) = (bo1 = None)"
        by (auto simp: loop_ok_def)
      have "answered hon (r # rs) (bo = None) (r # pre) x (rows @ lost2) rows2 a2 out v"
        using answered_later [OF s2(1) here] rows(4) one by simp
      moreover have "a2 = a @ (rows @ lost2) @ rows2" using s2(2) rows(1) by simp
      ultimately have "\<exists>pre x fails rows3. answered hon (r # rs) (bo = None) pre x fails rows3 a2 out v
          \<and> a2 = a @ fails @ rows3" by blast
      moreover have "failover turn (r # rs) (bo, a, w) = Served out v (bo2, a2, w2)"
        using Continue st st2 Served by simp
      ultimately show ?thesis using s2(3,4) rows(4) by (simp add: loop_ok_def)
    next
      case (Fail e st2)
      with ih show ?thesis by (cases st2) (simp add: loop_ok_def)
    next
      case (Cached out st2)
      obtain bo2 a2 w2 where st2: "st2 = (bo2, a2, w2)" by (cases st2)
      with ih Cached obtain pre x post rows2 where c: "rs = pre @ x # post" "a2 = a1 @ rows2" "all_lost pre rows2"
        "(bo2 = None) = (bo1 = None)"
        by (auto simp: loop_ok_def)
      have "r # rs = (r # pre) @ x # post" "a2 = a @ (rows @ rows2)" "all_lost (r # pre) (rows @ rows2)"
        using c rows(1) here by (auto simp: all_lost_def list_all_iff)
      then have "\<exists>pre x post rows3. r # rs = pre @ x # post \<and> a2 = a @ rows3 \<and> all_lost pre rows3"
        by blast
      moreover have "failover turn (r # rs) (bo, a, w) = Cached out (bo2, a2, w2)"
        using Continue st st2 Cached by simp
      ultimately show ?thesis using c(4) rows(4) by (simp add: loop_ok_def)
    qed
  next
    case (Break st)
    obtain bo1 a1 w1 where st: "st = (bo1, a1, w1)" by (cases st)
    with turn Break show ?thesis
      by (auto simp: turn_ok_def loop_ok_def lost_def all_lost_def list_all_iff)
  next
    case (Served out v st)
    obtain bo1 a1 w1 where st: "st = (bo1, a1, w1)" by (cases st)
    with turn Served obtain rows where "a1 = a @ rows" "won r rows" "hon r a1 out v"
      "bo = None \<longrightarrow> length rows = 1" "\<forall>b. bo1 = Some b \<longrightarrow> b_terminal b \<noteq> None"
      "(bo1 = None) = (bo = None)"
      by (auto simp: turn_ok_def)
    moreover from this have "answered hon (r # rs) (bo = None) [] r [] rows a1 out v \<and> a1 = a @ [] @ rows"
      using answered_here [of r rows hon a1 out v "bo = None" rs] by simp
    then have "\<exists>pre x fails rows. answered hon (r # rs) (bo = None) pre x fails rows a1 out v
        \<and> a1 = a @ fails @ rows" by blast
    ultimately show ?thesis using Served st by (simp add: loop_ok_def)
  next
    case (Fail e st)
    with turn show ?thesis by (cases st) (simp add: turn_ok_def)
  next
    case (Cached out st)
    obtain bo1 a1 w1 where st: "st = (bo1, a1, w1)" by (cases st)
    with turn Cached have "a1 = a" "(bo1 = None) = (bo = None)" by (auto simp: turn_ok_def)
    moreover have "\<exists>pre x post rows. r # rs = pre @ x # post \<and> a = a @ rows \<and> all_lost pre rows"
      by (intro exI [of _ "[]"] exI [of _ r] exI [of _ rs]) (simp add: all_lost_def)
    ultimately show ?thesis using Cached st by (simp add: loop_ok_def)
  qed
qed

end

lemma finish_budget_step:
  assumes "finish_budget a bo = (bo', reason)"
  shows "(case (bo, bo') of (None, None) \<Rightarrow> reason = None
    | (Some b, Some b') \<Rightarrow> budget_step\<^sup>*\<^sup>* b b' \<and> b_reserved b' = b_reserved b
        \<and> b_terminal b' = reason \<and> reason \<noteq> None
    | _ \<Rightarrow> False)"
proof (cases bo)
  case None
  with assms show ?thesis by (simp add: finish_budget_def)
next
  case (Some b)
  have "closed_reason a n \<in> set TERMINAL_REASONS \<and> closed_reason a n \<noteq> ''success''" for n
    by (simp add: closed_reason_def TERMINAL_REASONS_def)
  then have "b_terminal (snd (close (closed_reason a n) b)) \<noteq> None
      \<and> b_reserved (snd (close (closed_reason a n) b)) = b_reserved b" for n
    by (simp add: close_def)
  moreover have "budget_step\<^sup>*\<^sup>* b (snd (close r b))" for r
    by (rule r_into_rtranclp) (rule budget_step.close)
  ultimately show ?thesis using assms Some by (auto simp: finish_budget_def Let_def)
qed

lemma adv_sends:
  assumes "adv P n (bo, a, w) (bo', a', w')"
  shows "\<exists>qs. w_wire w' = w_wire w @ qs \<and> list_all P qs
    \<and> (case bo of None \<Rightarrow> length qs \<le> n
       | Some b \<Rightarrow> b_reserved b \<le> b_max b \<longrightarrow> length qs \<le> b_max b - b_reserved b)"
proof (cases bo)
  case None
  with assms show ?thesis by (auto simp: adv_def wire_grows_def split: option.splits)
next
  case (Some b)
  with assms obtain b' where b': "bo' = Some b'" "budget_step\<^sup>*\<^sup>* b b'"
    "wire_grows P (b_reserved b' - b_reserved b) w w'"
    by (auto simp: adv_def split: option.splits)
  have "b_reserved b \<le> b_max b \<Longrightarrow> b_reserved b' - b_reserved b \<le> b_max b - b_reserved b"
    by (rule request_counter.run_left [OF b'(2)])
  with b'(3) Some show ?thesis by (fastforce simp: wire_grows_def)
qed

section \<open>Without a budget\<close>

text \<open>The network and the JSON parser raise their own exceptions, never the budget's.\<close>

fun is_stop :: "exn \<Rightarrow> bool" where
  "is_stop (BudgetStop _ _) = True" | "is_stop _ = False"

definition no_stop :: "sys \<Rightarrow> bool" where
  "no_stop s \<longleftrightarrow>
     (\<forall>k q. case s_net s k q of
        WFail e \<Rightarrow> \<not> is_stop e
      | WResp r \<Rightarrow> (case r_body r of Inl e \<Rightarrow> \<not> is_stop e | Inr _ \<Rightarrow> True))
     \<and> (\<forall>t. case s_loads s t of Inl e \<Rightarrow> \<not> is_stop e | Inr _ \<Rightarrow> True)"

definition stopped :: "exn + 'a \<Rightarrow> bool" where
  "stopped x = (case x of Inl e \<Rightarrow> is_stop e | Inr _ \<Rightarrow> False)"

definition resp_fine :: "resp \<Rightarrow> bool" where
  "resp_fine r = (case r_body r of Inl e \<Rightarrow> \<not> is_stop e | Inr _ \<Rightarrow> True)"

lemma wire_send_fine:
  "no_stop s \<Longrightarrow> fst (wire_send s c path data headers w) = WResp r \<Longrightarrow> resp_fine r"
  "no_stop s \<Longrightarrow> fst (wire_send s c path data headers w) = WFail e \<Longrightarrow> \<not> is_stop e"
  by (auto simp: wire_send_def Let_def no_stop_def resp_fine_def dest!: spec split: wire_res.splits)

lemma outer_raise_stopped: "stopped (fst (outer_raise e c w)) = is_stop e"
  by (simp add: outer_raise_def stopped_def)

lemma read_response_stopped:
  assumes "no_stop s" "resp_fine r"
  shows "\<not> stopped (fst (read_response s scheme host port c r w))"
proof (cases "r_body r")
  case (Inl e)
  with assms show ?thesis by (simp add: read_response_def outer_raise_stopped resp_fine_def)
next
  case (Inr body)
  have "s_loads s body = Inl e \<Longrightarrow> \<not> is_stop e" for e
    using assms(1) by (auto simp: no_stop_def split: sum.splits)
  with Inr show ?thesis
    by (cases "s_loads s body") (simp_all add: read_response_def Let_def outer_raise_stopped, simp_all add: stopped_def)
qed

lemma resend_stopped:
  assumes "no_stop s" "\<not> is_stop e"
  shows "\<not> stopped (fst (resend s scheme host port path data headers tmo e c w))"
proof -
  obtain c' w2 where n: "new_conn scheme host port tmo (close_conn c w) = (c', w2)" by fastforce
  obtain res w3 where snd: "wire_send s c' path data headers w2 = (res, w3)" by fastforce
  note f = wire_send_fine [OF assms(1), of c' path data headers w2]
  show ?thesis
    using assms n snd f read_response_stopped [OF assms(1)]
    by (cases res) (auto simp: resend_def Let_def outer_raise_stopped)
qed

lemma request_json_stopped:
  assumes "no_stop s"
  shows "\<not> stopped (fst (request_json s u data headers tmo w))"
proof (cases "request_target u")
  case (Inl e)
  then have "\<not> is_stop e"
    by (auto simp: request_target_def bindE_def urlsplit_def u_port_def Let_def
        split: sum.splits if_splits option.splits prod.splits)
  with Inl show ?thesis by (simp add: request_json_def stopped_def)
next
  case (Inr q)
  obtain scheme host port path where q: "q = (scheme, host, port, path)" by (cases q)
  obtain c w1 where co: "checkout scheme host port tmo w = (c, w1)" by fastforce
  obtain res w2 where snd: "wire_send s c path data headers w1 = (res, w2)" by fastforce
  note f = wire_send_fine [OF assms, of c path data headers w1]
  show ?thesis
    using Inr q co snd f read_response_stopped [OF assms] resend_stopped [OF assms]
    by (cases res) (auto simp: request_json_def dispatch_def outer_raise_stopped)
qed

lemma retry_plain_stopped:
  assumes "\<And>w. \<not> stopped (fst (post p payload tmo w))"
  shows "\<not> stopped (fst (retry_plain s post p payload tmo k w))"
proof (induction "nat (s_retry_max s - int k)" arbitrary: k w rule: less_induct)
  case less
  obtain x w1 where p: "post p payload tmo w = (x, w1)" by fastforce
  have x: "\<not> stopped x" using assms [of w] p by simp
  obtain d w2 where d: "backoff_sleep_seconds s k w1 = (d, w2)" by fastforce
  show ?case
  proof (cases x)
    case (Inl e)
    with p x d less [of "k + 1" "time_sleep d w2"] show ?thesis
      by (simp add: retry_plain.simps [of s post p payload tmo k w]) (simp add: stopped_def)
  next
    case (Inr v)
    with p show ?thesis
      by (simp add: retry_plain.simps [of s post p payload tmo k w] stopped_def)
  qed
qed

text \<open>Without a budget the walk never breaks off.\<close>

definition unbroken :: "step \<Rightarrow> bool" where
  "unbroken x = (case x of Break _ \<Rightarrow> False | Continue (bo, _, _) \<Rightarrow> bo = None | _ \<Rightarrow> True)"

lemma failover_unbroken:
  assumes "\<And>r later a w. unbroken (turn r later (None, a, w))"
  shows "unbroken (failover turn routes (None, a, w))"
proof (induction routes arbitrary: a w)
  case Nil
  then show ?case by (simp add: unbroken_def)
next
  case (Cons r rs)
  then show ?case
    using assms [of r rs a w] by (cases "turn r rs (None, a, w)") (auto simp: unbroken_def)
qed

text \<open>A walk whose turns never answer from a cache does not either.\<close>

fun is_cached :: "step \<Rightarrow> bool" where
  "is_cached (Cached _ _) = True" | "is_cached _ = False"

lemma failover_not_cached:
  assumes "\<And>r later st. \<not> is_cached (turn r later st)"
  shows "\<not> is_cached (failover turn routes st)"
proof (induction routes arbitrary: st)
  case Nil
  then show ?case by simp
next
  case (Cons r rs)
  then show ?case using assms [of r rs st] by (cases "turn r rs st") auto
qed

end
