(* ===== verification/Chat.thy ===== *)
theory Chat
  imports Failover
begin

text \<open>
  \<open>chat()\<close> of \<open>szl_router/core.py\<close>: the cost block, the fire-and-forget receipt, the body of its loop
  over the routes (\<open>chat_route\<close>) and the call. The body is shown to meet the contract
  \<open>failover_turn\<close>; the properties of the call follow from the walk, each with a call of the model
  evaluated as its witness.
\<close>

section \<open>Cost and receipt\<close>

definition cost_detail :: "sys \<Rightarrow> provider \<Rightarrow> json \<Rightarrow> string \<Rightarrow> exn + json" where
  "cost_detail s p result upstream_model =
     (let tier = tier_of p in
      if tier = ''paid-grid''
      then bindE (estimate_detail s result upstream_model)
             (\<lambda>d. Inr (JObj (dset ''tier'' (JStr tier) (obj_items d))))
      else if tier = ''sovereign''
      then Inr (JObj [(''amount_usd'', JFloat (Fin 0)), (''estimated'', JBool False),
             (''basis'', JStr ''sovereign-owned-metal; no vendor charge; electricity not metered here''),
             (''model'', JStr upstream_model), (''tier'', JStr tier)])
      else Inr (JObj [(''amount_usd'', JNull), (''estimated'', JBool False),
             (''basis'', JStr ''model pricing and quota unverified; vendor charge unknown''),
             (''model'', JStr upstream_model), (''tier'', JStr tier)]))"

text \<open>\<open>str(time.time_ns())\<close> and then \<open>time.time()\<close> read the clock.\<close>

definition emit_route_receipt ::
  "sys \<Rightarrow> string \<Rightarrow> string \<Rightarrow> provenance option \<Rightarrow> attempt list \<Rightarrow> world \<Rightarrow> world" where
  "emit_route_receipt s model decision prov attempts w =
     (let sink = env_get (s_env s) ''SZL_RECEIPT_SINK'' [] in
      if sink = [] then w
      else
        let prov_dict = JObj (case prov of None \<Rightarrow> [] | Some v \<Rightarrow> provenance_dict v);
            served_by = jget prov_dict ''served_by'';
            canonical = utf8 (dumps (compact_sorted (s_frepr s))
              (JObj [(''model'', JStr model), (''decision'', JStr decision), (''served_by'', served_by)]));
            (t_ns, w1) = read_time s w;
            rid = sha256_hex (canonical @ utf8 (show_int (py_trunc (t_ns * 10 ^ 9))));
            (ts, w2) = read_time s w1;
            payload = JObj [
              (''id'', JStr rid), (''ts'', JFloat (Fin ts)), (''organ'', JStr ''szl-router''),
              (''decision'', JStr decision),
              (''governance'', JObj [
                 (''lambda'', JNull),
                 (''gates'', JObj [
                    (''model'', JStr model), (''served_by'', served_by),
                    (''tier'', jget prov_dict ''tier''), (''sovereign'', jget prov_dict ''sovereign''),
                    (''energy_source'', jget prov_dict ''energy_source''),
                    (''attempts'', JInt (int (length attempts)))])]),
              (''energy'', JObj [(''label'', JStr ''UNAVAILABLE''), (''joules'', JNull)])]
        in w2\<lparr>w_sink := w_sink w2 @ [(rstrip_by (\<lambda>c. c = CHR ''/'') sink @ ''/receipts'', payload)]\<rparr>)"

section \<open>The body of the loop\<close>

record chat_args =
  a_model :: string
  a_messages :: json
  a_temperature :: json
  a_max_tokens :: json
  a_timeout :: json
  a_extra :: json

text \<open>\<open>"%.0f" % left\<close>\<close>

definition cooldown_text :: "pyfloat \<Rightarrow> string" where
  "cooldown_text left = ''cooldown-skip ('' @ fmt_fixed 0 left
     @ ''s left after recent failure; warm fallback available)''"

definition chat_payload :: "chat_args \<Rightarrow> string \<Rightarrow> json" where
  "chat_payload args upstream =
     JObj (dupdate
       ([(''model'', JStr upstream), (''messages'', a_messages args)]
        @ (if a_temperature args = JNull then [] else [(''temperature'', a_temperature args)])
        @ (if a_max_tokens args = JNull then [] else [(''max_tokens'', a_max_tokens args)]))
       (obj_items (a_extra args)))"

definition served_provenance ::
  "sys \<Rightarrow> route \<Rightarrow> provider \<Rightarrow> attempt list \<Rightarrow> provenance \<Rightarrow> provenance" where
  "served_provenance s r p a v =
     v\<lparr>v_served_by := Some (fst r @ '':'' @ snd r), v_provider := Some (fst r),
       v_upstream_model := Some (snd r), v_base_url := Some (base_url (s_env s) p),
       v_sovereign := p_sovereign p, v_energy_source := Some (p_energy_source p),
       v_tier := Some (tier_of p), v_attempts := a\<rparr>"

text \<open>The rest of the body once a response has been parsed.\<close>

definition chat_answer ::
  "sys \<Rightarrow> chat_args \<Rightarrow> json option \<Rightarrow> route \<Rightarrow> provider \<Rightarrow> json \<Rightarrow> rat \<Rightarrow> cstate \<Rightarrow> step" where
  "chat_answer s args routing r p result t0 st =
     (let (bo, a, w) = st; (dt, w1) = elapsed s t0 w in
      if bo \<noteq> None \<and> a = [] then Fail (PyError ''IndexError'' ''list index out of range'') (bo, a, w1)
      else case chat_response_error result of
        Some detail \<Rightarrow> Continue (bo, bad_answer r detail dt bo a, set_cooldown s (fst r) w1)
      | None \<Rightarrow>
          let a1 = good_answer r dt bo a;
              bo1 = map_option mark_success bo;
              v0 = (case bo1 of None \<Rightarrow> new_provenance routing | Some b \<Rightarrow> budget_fields b (new_provenance routing));
              w2 = clear_cooldown (fst r) w1;
              v1 = served_provenance s r p a1 v0
          in case cost_detail s p result (snd r) of
               Inl e \<Rightarrow> Fail e (bo1, a1, w2)
             | Inr cost \<Rightarrow>
                 let v = v1\<lparr>v_cost := Some cost\<rparr>;
                     out = JObj (dset ''x_szl_provenance'' (JObj (provenance_dict v)) (obj_items result))
                 in Served out v (bo1, a1, emit_route_receipt s (a_model args) ''served'' (Some v) a1 w2))"

definition chat_dispatch ::
  "sys \<Rightarrow> chat_args \<Rightarrow> json option \<Rightarrow> route \<Rightarrow> provider \<Rightarrow> cstate \<Rightarrow> step" where
  "chat_dispatch s args routing r p st =
     (let (bo, a, w) = st;
          (t0, w1) = read_time s w;
          (res, bo1, a1, w2) = post_with_retry s (post_chat s) p (chat_payload args (snd r))
                                 (a_timeout args) bo (bo \<noteq> None) a w1
      in case res of
           Inl (BudgetStop x y) \<Rightarrow> Break (bo1, a1, w2)
         | Inl e \<Rightarrow> after_failure s True r e t0 (bo1, a1, w2)
         | Inr result \<Rightarrow> chat_answer s args routing r p result t0 (bo1, a1, w2))"

definition chat_route ::
  "sys \<Rightarrow> chat_args \<Rightarrow> json option \<Rightarrow> route \<Rightarrow> route list \<Rightarrow> cstate \<Rightarrow> step" where
  "chat_route s args routing r later st =
     (let (bo, a, w) = st in
      if terminal_now bo then Break st
      else case dget PROVIDERS (fst r) of
        None \<Rightarrow> Continue (bo, a @ [skip_row r ''provider unavailable (no key/url)''], w)
      | Some p \<Rightarrow>
          if \<not> available (s_env s) p
          then Continue (bo, a @ [skip_row r ''provider unavailable (no key/url)''], w)
          else if tier_of p = ''unqualified-grid''
          then Continue (bo, a @ [skip_row r ''pricing/quota unqualified; grid route disabled''], w)
          else if tier_of p = ''paid-grid''
          then Continue (bo, a @ [skip_row r ''pricing/reservation unqualified; paid route disabled''], w)
          else
            let (left, w1) = cooldown_remaining s (fst r) w;
                (warm, w2) = (if positive left then warm_candidate_later s later w1 else (False, w1))
            in if positive left \<and> warm
               then Continue (bo, a @ [skip_row r (cooldown_text left)], w2)
               else chat_dispatch s args routing r p (bo, a, w2))"

section \<open>The call\<close>

definition chat_plan :: "sys \<Rightarrow> chat_args \<Rightarrow> json option \<times> route list" where
  "chat_plan s args =
     (if a_model args = AUTO_MODEL
      then let (score, signals, chosen) = score_complexity s (a_messages args)
           in (Some (auto_routing_block score signals chosen), resolve_routes chosen)
      else (None, resolve_routes (a_model args)))"

definition chat ::
  "sys \<Rightarrow> chat_args \<Rightarrow> budget option \<Rightarrow> world \<Rightarrow> (json \<times> provenance) outcome \<times> budget option \<times> world" where
  "chat s args bo w =
     (case extra_error ''chat'' [''model'', ''messages''] ''model or messages'' (a_extra args) of
        Some e \<Rightarrow> (Raise e, bo, w)
      | None \<Rightarrow>
      case timeout_error bo (a_timeout args) of
        Some e \<Rightarrow> (Raise e, bo, w)
      | None \<Rightarrow>
          let (routing, routes) = chat_plan s args in
          case failover (chat_route s args routing) routes (bo, [], w) of
            Served out v (bo', a, w') \<Rightarrow> (Ret (out, v), bo', w')
          | Fail e (bo', a, w') \<Rightarrow> (Raise e, bo', w')
          | ended \<Rightarrow>
              let (bo', a, w') = step_state ended;
                  (bo2, reason) = finish_budget a bo';
                  w2 = emit_route_receipt s (a_model args) ''all-routes-failed'' None a w'
              in (RouterError (failed_text ''all routes failed for model '' (a_model args)) a reason, bo2, w2))"

section \<open>What one turn sends\<close>

lemma quiet_emit: "quiet w (emit_route_receipt s m d pv a w)"
  by (auto simp: quiet_def read_time_def emit_route_receipt_def Let_def)

text \<open>A request this route may cause: to an armed sovereign provider, with the route's own payload.\<close>

definition route_sent :: "sys \<Rightarrow> chat_args \<Rightarrow> route \<Rightarrow> wire_req \<Rightarrow> bool" where
  "route_sent s args r q =
     (case dget PROVIDERS (fst r) of None \<Rightarrow> False
      | Some p \<Rightarrow> available (s_env s) p \<and> tier_of p = ''sovereign''
          \<and> chat_sent s p (chat_payload args (snd r)) q)"

lemma chat_answer_adv:
  assumes "adv P n st (bo, a, w)"
  shows "adv P n st (step_state (chat_answer s args routing r p result t0 (bo, a, w)))"
proof -
  obtain dt w1 where el: "elapsed s t0 w = (dt, w1)" by fastforce
  have w1: "quiet w w1" using quiet_ops(3) [of w s t0] el by simp
  note q = quiet_trans [OF w1 quiet_ops(4)] quiet_trans [OF w1 quiet_ops(5)]
    quiet_trans [OF quiet_trans [OF w1 quiet_ops(5)] quiet_emit]
  show ?thesis
    using assms el w1 q
    by (auto simp: chat_answer_def Let_def intro!: adv_success intro: adv_quiet'
        split: option.splits sum.splits)
qed

lemma chat_dispatch_adv:
  assumes "net_ok w" "\<not> w_budgeted w"
  shows "adv (chat_sent s p (chat_payload args (snd r))) (per_route s) (bo, a, w)
    (step_state (chat_dispatch s args routing r p (bo, a, w)))"
proof -
  obtain t0 w1 where rt: "read_time s w = (t0, w1)" by fastforce
  have w1: "quiet w w1" using quiet_ops(2) [of w s] rt by simp
  obtain res bo1 a1 w2 where pr: "post_with_retry s (post_chat s) p (chat_payload args (snd r))
      (a_timeout args) bo (bo \<noteq> None) a w1 = (res, bo1, a1, w2)"
    by (metis prod_cases4)
  have "adv (chat_sent s p (chat_payload args (snd r))) (per_route s) (bo, a, w1) (bo1, a1, w2)"
    using chat_post.post_with_retry_effect [OF pr] w1 assms by (simp add: quiet_def per_route_def)
  then have adv: "adv (chat_sent s p (chat_payload args (snd r))) (per_route s) (bo, a, w) (bo1, a1, w2)"
    by (rule adv_quiet_first [OF w1])
  show ?thesis
    using rt pr adv after_failure_adv [OF adv] chat_answer_adv [OF adv]
    by (auto simp: chat_dispatch_def split: sum.splits exn.splits)
qed

lemma chat_route_adv:
  assumes "net_ok w" "\<not> w_budgeted w"
  shows "adv (route_sent s args r) (per_route s) (bo, a, w)
    (step_state (chat_route s args routing r later (bo, a, w)))"
proof -
  have here: "adv (route_sent s args r) (per_route s) (bo, a, w) (bo, a', w')" if "quiet w w'" for a' w'
    using adv_quiet' [OF adv_refl [OF assms] that] .
  note skip = here [OF quiet_ops(1)]
  show ?thesis
  proof (cases "\<not> terminal_now bo \<and> usable s r")
    case False
    then show ?thesis
      using skip tier_admitted
      by (auto simp: chat_route_def Let_def usable_def split: option.splits if_splits)
  next
    case True
    then obtain p where p: "dget PROVIDERS (fst r) = Some p" "available (s_env s) p" "p_sovereign p"
      by (auto simp: usable_def split: option.splits)
    obtain left w1 where cd: "cooldown_remaining s (fst r) w = (left, w1)" by fastforce
    obtain warm w2 where wm: "(if positive left then warm_candidate_later s later w1 else (False, w1)) = (warm, w2)"
      by fastforce
    have "quiet w1 w2" using wm quiet_warm quiet_ops(1) by (auto split: if_splits)
    then have w2: "quiet w w2" using quiet_trans quiet_cooldown [OF cd] by blast
    have "adv (chat_sent s p (chat_payload args (snd r))) (per_route s) (bo, a, w2)
        (step_state (chat_dispatch s args routing r p (bo, a, w2)))"
      using chat_dispatch_adv w2 assms by (simp add: quiet_def)
    then have "adv (route_sent s args r) (per_route s) (bo, a, w2)
        (step_state (chat_dispatch s args routing r p (bo, a, w2)))"
      by (rule adv_P) (simp add: route_sent_def p)
    note go = adv_quiet_first [OF w2 this]
    have "chat_route s args routing r later (bo, a, w) =
        (if positive left \<and> warm then Continue (bo, a @ [skip_row r (cooldown_text left)], w2)
         else chat_dispatch s args routing r p (bo, a, w2))"
      using True p cd wm tier_admitted [of p] by (simp add: chat_route_def)
    then show ?thesis using go here [OF w2] by simp
  qed
qed

section \<open>What one turn adds to the trail\<close>

lemma payload_model:
  assumes "extra_error ''chat'' [''model'', ''messages''] ''model or messages'' (a_extra args) = None"
  shows "jget (chat_payload args up) ''model'' = JStr up"
    "jget (chat_payload args up) ''messages'' = a_messages args"
proof -
  have "dget (rev (obj_items (a_extra args))) ''model'' = None"
    "dget (rev (obj_items (a_extra args))) ''messages'' = None"
    using assms by (auto simp: extra_error_def map_of_eq_None_iff split: json.splits if_splits)
  then show "jget (chat_payload args up) ''model'' = JStr up"
    "jget (chat_payload args up) ''messages'' = a_messages args"
    by (simp_all add: chat_payload_def dget_or_null_def dget_dupdate)
qed

text \<open>What a served answer says, and the answer it is attached to.\<close>

definition honest :: "sys \<Rightarrow> route \<Rightarrow> attempt list \<Rightarrow> json \<Rightarrow> provenance \<Rightarrow> bool" where
  "honest s r a out v \<longleftrightarrow> (\<exists>p result.
     dget PROVIDERS (fst r) = Some p \<and> available (s_env s) p \<and> p_sovereign p
     \<and> v_served_by v = Some (fst r @ '':'' @ snd r) \<and> v_provider v = Some (fst r)
     \<and> v_upstream_model v = Some (snd r) \<and> v_base_url v = Some (base_url (s_env s) p)
     \<and> v_sovereign v \<and> v_tier v = Some ''sovereign'' \<and> v_energy_source v = Some (p_energy_source p)
     \<and> v_attempts v = a \<and> chat_response_error result = None
     \<and> out = JObj (dset ''x_szl_provenance'' (JObj (provenance_dict v)) (obj_items result)))"

lemma cost_sovereign: "p_sovereign p \<Longrightarrow> \<exists>c. cost_detail s p result m = Inr c"
  by (simp add: cost_detail_def tier_of_def)

lemma chat_answer_turn:
  assumes rows: "a' = a @ rows" "bo = None \<longrightarrow> rows = []" "bo \<noteq> None \<longrightarrow> won r rows"
    and kind: "(bo' = None) = (bo = None)"
    and p: "dget PROVIDERS (fst r) = Some p" "available (s_env s) p" "p_sovereign p"
  shows "turn_ok (honest s) r (bo, a, w) (chat_answer s args routing r p result t0 (bo', a', w'))"
proof -
  obtain dt w1 where el: "elapsed s t0 w' = (dt, w1)" by fastforce
  have ne: "\<not> (bo' \<noteq> None \<and> a' = [])" using rows kind by (auto simp: won_def)
  show ?thesis
  proof (cases "chat_response_error result")
    case (Some detail)
    from bad_answer_turn [of a' a rows bo' r detail dt] rows kind
    obtain rows' where "bad_answer r detail dt bo' a' = a @ rows'" "lost r rows'" "bo' = None \<longrightarrow> length rows' = 1"
      by auto
    with el ne Some kind show ?thesis by (auto simp: chat_answer_def turn_ok_def)
  next
    case None
    from good_answer_turn [of a' a rows bo' r dt] rows kind
    obtain rows' where rows': "good_answer r dt bo' a' = a @ rows'" "won r rows'" "bo' = None \<longrightarrow> length rows' = 1"
      by auto
    obtain c where c: "cost_detail s p result (snd r) = Inr c" using cost_sovereign [OF p(3)] by blast
    define v0 where "v0 = (case map_option mark_success bo' of None \<Rightarrow> new_provenance routing
        | Some b \<Rightarrow> budget_fields b (new_provenance routing))"
    define v where "v = (served_provenance s r p (a @ rows') v0)\<lparr>v_cost := Some c\<rparr>"
    define out where "out = JObj (dset ''x_szl_provenance'' (JObj (provenance_dict v)) (obj_items result))"
    have h: "honest s r (a @ rows') out v"
      unfolding honest_def using p None
      by (intro exI [of _ p] exI [of _ result]) (auto simp: v_def served_provenance_def out_def)
    have "chat_answer s args routing r p result t0 (bo', a', w')
        = Served out v (map_option mark_success bo', a @ rows',
            emit_route_receipt s (a_model args) ''served'' (Some v) (a @ rows') (clear_cooldown (fst r) w1))"
      using el ne None c rows'(1) by (simp add: chat_answer_def v_def v0_def out_def Let_def)
    with h rows' kind show ?thesis
      by (auto simp: turn_ok_def)
  qed
qed

lemma chat_dispatch_turn:
  assumes net: "net_ok w" "\<not> w_budgeted w"
    and p: "dget PROVIDERS (fst r) = Some p" "available (s_env s) p" "p_sovereign p"
    and ok: "extra_error ''chat'' [''model'', ''messages''] ''model or messages'' (a_extra args) = None"
  shows "turn_ok (honest s) r (bo, a, w0) (chat_dispatch s args routing r p (bo, a, w))"
proof -
  obtain t0 w1 where rt: "read_time s w = (t0, w1)" by fastforce
  have w1: "quiet w w1" using quiet_ops(2) [of w s] rt by simp
  obtain res bo1 a1 w2 where pr: "post_with_retry s (post_chat s) p (chat_payload args (snd r))
      (a_timeout args) bo (bo \<noteq> None) a w1 = (res, bo1, a1, w2)"
    by (metis prod_cases4)
  have eff: "adv (chat_sent s p (chat_payload args (snd r))) (per_route s) (bo, a, w1) (bo1, a1, w2)"
    "case (bo, bo1) of
         (Some b, Some b') \<Rightarrow> (\<exists>rows. a1 = a @ rows \<and> list_all (row_for p (chat_payload args (snd r))) rows
            \<and> trail_ok res rows (b_reserved b' - b_reserved b))
       | _ \<Rightarrow> a1 = a"
    using chat_post.post_with_retry_effect [OF pr] w1 net by (simp_all add: quiet_def per_route_def)
  have kind: "(bo1 = None) = (bo = None)" using eff(1) by (rule adv_kind)
  have name: "p_name p = fst r" using p(1) by (rule dget_providers_name)
  define rows where "rows = drop (length a) a1"
  have rows: "a1 = a @ rows" "bo = None \<longrightarrow> rows = []"
    "bo \<noteq> None \<longrightarrow> list_all (\<lambda>x. route_of x = r) rows \<and> (\<exists>n. trail_ok res rows n)"
    using eff(2) kind row_for_route [OF _ name payload_model(1) [OF ok]]
    by (auto simp: rows_def split: option.splits)
  have lost: "res = Inl e \<Longrightarrow> lost r rows" for e
    using rows by (cases bo) (auto simp: lost_def trail_ok_def)
  have won: "res = Inr v \<Longrightarrow> bo \<noteq> None \<longrightarrow> won r rows" for v
    using rows by (auto simp: won_def trail_ok_def)
  show ?thesis
  proof (cases res)
    case (Inl e)
    note fail = after_failure_turn [OF rows(1) lost [OF Inl] kind rows(2)]
    show ?thesis
      using rt pr Inl fail lost [OF Inl] rows(1,2) kind
      by (cases e) (auto simp: chat_dispatch_def turn_ok_def [of "honest s" r _ "Break _"])
  next
    case (Inr result)
    then show ?thesis
      using rt pr chat_answer_turn [OF rows(1,2) won [OF Inr] kind p] by (simp add: chat_dispatch_def)
  qed
qed

lemma chat_route_turn:
  assumes net: "net_ok w" "\<not> w_budgeted w"
    and ok: "extra_error ''chat'' [''model'', ''messages''] ''model or messages'' (a_extra args) = None"
  shows "turn_ok (honest s) r (bo, a, w) (chat_route s args routing r later (bo, a, w))"
proof -
  have skip: "turn_ok (honest s) r (bo, a, w) (Continue (bo, a @ [skip_row r e], w'))" for e w'
    by (simp add: turn_ok_def lost_def)
  show ?thesis
  proof (cases "\<not> terminal_now bo \<and> usable s r")
    case False
    then show ?thesis
      using skip tier_admitted
      by (auto simp: chat_route_def Let_def usable_def turn_ok_def [of "honest s" r _ "Break _"] lost_def
          split: option.splits if_splits)
  next
    case True
    then obtain p where p: "dget PROVIDERS (fst r) = Some p" "available (s_env s) p" "p_sovereign p"
      by (auto simp: usable_def split: option.splits)
    obtain left w1 where cd: "cooldown_remaining s (fst r) w = (left, w1)" by fastforce
    obtain warm w2 where wm: "(if positive left then warm_candidate_later s later w1 else (False, w1)) = (warm, w2)"
      by fastforce
    have "quiet w1 w2" using wm quiet_warm quiet_ops(1) by (auto split: if_splits)
    then have "quiet w w2" using quiet_trans quiet_cooldown [OF cd] by blast
    then have "turn_ok (honest s) r (bo, a, w) (chat_dispatch s args routing r p (bo, a, w2))"
      using chat_dispatch_turn [OF _ _ p ok] net by (simp add: quiet_def)
    moreover have "chat_route s args routing r later (bo, a, w) =
        (if positive left \<and> warm then Continue (bo, a @ [skip_row r (cooldown_text left)], w2)
         else chat_dispatch s args routing r p (bo, a, w2))"
      using True p cd wm tier_admitted [of p] by (simp add: chat_route_def)
    ultimately show ?thesis using skip by simp
  qed
qed

interpretation chat_walk: failover_turn "chat_route s args routing" "route_sent s args" "per_route s"
    "honest s" "extra_error ''chat'' [''model'', ''messages''] ''model or messages'' (a_extra args) = None"
  for s args routing
  by unfold_locales (auto intro: chat_route_adv chat_route_turn)

lemma chat_route_not_cached: "\<not> is_cached (chat_route s args routing r later st)"
proof -
  have fail: "\<not> is_cached (after_failure s c r e t0 st')" for c e t0 st'
    by (cases st') (simp add: after_failure_def Let_def split: prod.split)
  have ans: "\<not> is_cached (chat_answer s args routing r p res t0 st')" for p res t0 st'
    by (cases st') (simp add: chat_answer_def Let_def split: prod.split option.split sum.split)
  have "\<not> is_cached (chat_dispatch s args routing r p st')" for p st'
    using fail ans by (cases st') (simp add: chat_dispatch_def Let_def split: prod.split sum.split exn.split)
  then show ?thesis
    by (cases st) (simp add: chat_route_def Let_def split: prod.split option.split)
qed

lemmas chat_walk_not_cached = failover_not_cached [of "chat_route s args routing" for s args routing,
  OF chat_route_not_cached]

section \<open>The routes of a call and its loop\<close>

abbreviation chat_routes :: "sys \<Rightarrow> chat_args \<Rightarrow> route list" where
  "chat_routes s args \<equiv> snd (chat_plan s args)"

definition chat_refused :: "chat_args \<Rightarrow> budget option \<Rightarrow> exn option" where
  "chat_refused args bo =
     (case extra_error ''chat'' [''model'', ''messages''] ''model or messages'' (a_extra args) of
        Some e \<Rightarrow> Some e | None \<Rightarrow> timeout_error bo (a_timeout args))"

lemma chat_cases:
  assumes "chat s args bo w = (out, bo', w')"
  obtains (refused) e where "chat_refused args bo = Some e" "out = Raise e" "bo' = bo" "w' = w"
    | (looped) x where "chat_refused args bo = None"
      "failover (chat_route s args (fst (chat_plan s args))) (chat_routes s args) (bo, [], w) = x"
      "(case x of
          Served j v (bo1, a, w1) \<Rightarrow> out = Ret (j, v) \<and> bo' = bo1 \<and> w' = w1
        | Fail e (bo1, a, w1) \<Rightarrow> out = Raise e \<and> bo' = bo1 \<and> w' = w1
        | ended \<Rightarrow> (\<exists>bo1 a w1 reason. step_state ended = (bo1, a, w1) \<and> finish_budget a bo1 = (bo', reason)
             \<and> out = RouterError (failed_text ''all routes failed for model '' (a_model args)) a reason
             \<and> quiet w1 w'))"
proof (cases "chat_refused args bo")
  case (Some e)
  with assms refused show thesis
    by (auto simp: chat_def chat_refused_def split: option.splits)
next
  case None
  define x where "x = failover (chat_route s args (fst (chat_plan s args))) (chat_routes s args) (bo, [], w)"
  have q: "quiet w1 (emit_route_receipt s m d pv a w1)" for m d pv a w1 by (rule quiet_emit)
  show thesis
    using assms None q
    by (intro looped [OF None x_def [symmetric]])
      (auto simp: chat_def chat_refused_def x_def [symmetric] split_def Let_def
        split: option.splits step.splits)
qed

lemma chat_adv:
  assumes "net_ok w" "\<not> w_budgeted w" "chat s args bo w = (out, bo', w')"
  shows "\<exists>a. adv (\<lambda>q. list_ex (\<lambda>r. route_sent s args r q) (chat_routes s args))
    (per_route s * length (chat_routes s args)) (bo, [], w) (bo', a, w')"
  using assms(3)
proof (cases rule: chat_cases)
  case (refused e)
  then show ?thesis using adv_refl [OF assms(1,2)] by blast
next
  case (looped x)
  let ?P = "\<lambda>q. list_ex (\<lambda>r. route_sent s args r q) (chat_routes s args)"
  let ?n = "per_route s * length (chat_routes s args)"
  have x: "adv ?P ?n (bo, [], w) (step_state x)"
    using chat_walk.walk_adv [OF assms(1,2), of s args "chat_routes s args" bo "[]" "fst (chat_plan s args)"]
      looped(2) by simp
  have ended: "\<exists>a. adv ?P ?n (bo, [], w) (bo', a, w')"
    if st: "step_state x = (bo1, a, w1)" "finish_budget a bo1 = (bo', reason)" "quiet w1 w'"
    for bo1 a w1 reason
  proof -
    have "adv ?P ?n (bo, [], w) (bo1, a, w')" using x st(1,3) by (auto intro: adv_quiet')
    with finish_budget_step [OF st(2)] have "adv ?P ?n (bo, [], w) (bo', a, w')"
      by (auto simp: adv_def split: option.splits)
    then show ?thesis ..
  qed
  show ?thesis
    using looped(3) x ended by (cases x) (auto split: prod.splits)
qed

section \<open>The properties\<close>


text \<open>A world with nothing in it, a reply, and a call that one owned provider serves.\<close>

definition new_world :: world where
  "new_world = \<lparr>w_tick = 0, w_draws = 0, w_slept = [], w_wire = [], w_idle = [], w_next = 0, w_closed = [],
     w_budgeted = False, w_cool = [], w_ecache = [], w_sink = []\<rparr>"

definition demo_reply :: json where
  "demo_reply = JObj [(''choices'', JArr [JObj [(''message'',
     JObj [(''role'', JStr ''assistant''), (''content'', JStr ''hi'')])]])]"

definition demo_sys :: sys where
  "demo_sys = \<lparr>s_env = (\<lambda>k. if k = ''OMEN_GPU_BASE_URL'' then Some ''http://omen'' else if k = ''OMEN_GPU_TOKEN'' then Some ''t'' else None),
     s_loads = (\<lambda>_. Inr demo_reply), s_decode = Some, s_float = (\<lambda>_. None), s_frepr = (\<lambda>_. ''0.5''),
     s_time = (\<lambda>_. 0), s_unif = (\<lambda>_. 1),
     s_net = (\<lambda>_ _. WResp \<lparr>r_status = 200, r_reason = ''OK'', r_version = 11, r_headers = [], r_body = Inr []\<rparr>),
     s_retry_max = 3, s_retry_base = 1/4, s_retry_cap = 4, s_embed_ttl = 300, s_embed_max = 1024,
     s_scope_key = ''k''\<rparr>"

definition demo_args :: chat_args where
  "demo_args = \<lparr>a_model = ''omen_gpu:m'', a_messages = JArr [], a_temperature = JNull,
     a_max_tokens = JNull, a_timeout = JInt 60, a_extra = JNull\<rparr>"

lemma new_world_ok: "net_ok new_world" "\<not> w_budgeted new_world"
  by (simp_all add: net_ok_def pool_ok_def pool_origin_def idle_ids_def new_world_def POOL_MAX_HOSTS_def)

lemma demo_served:
  "case chat demo_sys demo_args None new_world of (out, bo, w) \<Rightarrow>
     length (w_wire w) = 1 \<and> (case out of Ret (j, v) \<Rightarrow> v_sovereign v \<and> length (v_attempts v) = 1 | _ \<Rightarrow> False)"
  by code_simp


lemma chat_served:
  assumes "net_ok w" "\<not> w_budgeted w" "chat s args bo w = (Ret (j, v), bo', w')"
  shows "\<exists>pre r fails rows. answered (honest s) (chat_routes s args) (bo = None) pre r fails rows (v_attempts v) j v
    \<and> v_attempts v = fails @ rows"
  using assms(3)
proof (cases rule: chat_cases)
  case (looped x)
  have ok: "extra_error ''chat'' [''model'', ''messages''] ''model or messages'' (a_extra args) = None"
    using looped(1) by (auto simp: chat_refused_def split: option.splits)
  note l = chat_walk.walk_ok [OF assms(1,2) ok, of s "chat_routes s args" bo "[]" "fst (chat_plan s args)"]
  show ?thesis
  proof (cases x)
    case (Served j2 v2 st)
    obtain bo1 a w1 where st: "st = (bo1, a, w1)" by (cases st)
    with looped(3) Served have eq: "j2 = j" "v2 = v" by auto
    from l looped(2) Served st eq obtain pre r fails rows where
      *: "answered (honest s) (chat_routes s args) (bo = None) pre r fails rows a j v" "a = fails @ rows"
      by (auto simp: loop_ok_def)
    then have "v_attempts v = a" by (auto simp: answered_def honest_def)
    with * show ?thesis by metis
  qed (use looped(3) in auto)
qed simp



section \<open>Failure\<close>

lemma chat_dispatch_plain:
  assumes "no_stop s"
  shows "unbroken (chat_dispatch s args routing r p (None, a, w))"
proof -
  obtain t0 w1 where rt: "read_time s w = (t0, w1)" by fastforce
  obtain res w2 where rp: "retry_plain s (post_chat s) p (chat_payload args (snd r)) (a_timeout args) 0 w1 = (res, w2)"
    by fastforce
  have ns: "\<not> stopped res"
    using retry_plain_stopped [of "post_chat s" p "chat_payload args (snd r)" "a_timeout args" s 0 w1] rp
      request_json_stopped [OF assms] by (simp add: post_chat_def)
  have fail: "unbroken (after_failure s True r e t0 (None, a, w2))" for e
    by (rule after_failure_shape [of w2 None a s r e True t0]) (simp add: unbroken_def terminal_now_def)
  have ans: "unbroken (chat_answer s args routing r p result t0 (None, a, w2))" for result
    by (simp add: chat_answer_def unbroken_def Let_def split: option.split sum.split prod.split)
  have "post_with_retry s (post_chat s) p (chat_payload args (snd r)) (a_timeout args) None False a w1
      = (res, None, a, w2)"
    using rp by (simp add: post_with_retry_def)
  with rt ns fail ans show ?thesis
    by (auto simp: chat_dispatch_def stopped_def split: sum.split exn.split)
qed

lemma chat_route_plain: "no_stop s \<Longrightarrow> unbroken (chat_route s args routing r later (None, a, w))"
  using chat_dispatch_plain
  by (auto simp: chat_route_def terminal_now_def unbroken_def [of "Continue _"] split: option.split prod.split)

lemma chat_loop_plain: "no_stop s \<Longrightarrow> unbroken (failover (chat_route s args routing) routes (None, a, w))"
  by (rule failover_unbroken) (rule chat_route_plain)

text \<open>
  C3. A failure shows its whole trail. If a call without a budget raises \<open>RouterError\<close>, and neither
  the network nor the parser raises the budget's own exception, then the trail has exactly one row
  for each route, in the order of the routes, and none of them is marked as a success.
\<close>

theorem chat_failed_trail:
  assumes "net_ok w" "\<not> w_budgeted w" "no_stop s"
    and "chat s args None w = (RouterError m a reason, bo', w')"
  shows "map route_of a = snd (chat_plan s args) \<and> list_all (Not \<circ> at_ok) a \<and> reason = None"
  using assms(4)
proof (cases rule: chat_cases)
  case (looped x)
  have ok: "extra_error ''chat'' [''model'', ''messages''] ''model or messages'' (a_extra args) = None"
    using looped(1) by (auto simp: chat_refused_def split: option.splits)
  note l = chat_walk.walk_ok [OF assms(1,2) ok, of s "chat_routes s args" None "[]" "fst (chat_plan s args)"]
  have u: "unbroken x" using chat_loop_plain [OF assms(3)] looped(2) by blast
  have nc: "\<not> is_cached x" using chat_walk_not_cached looped(2) by blast
  show ?thesis
  proof (cases x)
    case (Continue st)
    obtain bo1 a1 w1 where st: "st = (bo1, a1, w1)" by (cases st)
    with looped(3) Continue have "finish_budget a bo1 = (bo', reason)" "a1 = a" by auto
    with l looped(2) Continue st show ?thesis
      by (auto simp: loop_ok_def all_lost_def finish_budget_def)
  qed (use u nc looped(3) in \<open>auto simp: unbroken_def\<close>)
qed simp

definition silent_sys :: sys where
  "silent_sys = demo_sys\<lparr>s_net := (\<lambda>_ _. WFail (ConnError ''ConnectionRefusedError'' ''refused''))\<rparr>"

lemma demo_failed:
  "case chat silent_sys demo_args None new_world of (out, bo, w) \<Rightarrow>
     length (w_wire w) = 6 \<and> (case out of RouterError m a r \<Rightarrow> True | _ \<Rightarrow> False)"
  by code_simp

theorem chat_failed_trail_witness:
  "case chat silent_sys demo_args None new_world of (out, bo, w) \<Rightarrow>
     (case out of RouterError m a r \<Rightarrow> map route_of a = snd (chat_plan silent_sys demo_args)
        \<and> list_all (Not \<circ> at_ok) a | _ \<Rightarrow> False)"
proof -
  obtain out bo w' where c: "chat silent_sys demo_args None new_world = (out, bo, w')"
    by (metis prod_cases3)
  with demo_failed obtain m a r where out: "out = RouterError m a r"
    by (cases out) auto
  have "no_stop silent_sys" by (simp add: no_stop_def silent_sys_def demo_sys_def)
  from chat_failed_trail [OF new_world_ok this c [unfolded out]] c out show ?thesis by simp
qed

lemma find_sub_char: "c \<notin> set n \<Longrightarrow> find_sub [c] (n @ c # up) = Some (n, up)"
  by (induction n) (auto simp: startswith_def)

lemma no_colon: "has_key MODEL_ROUTES m \<Longrightarrow> CHR '':'' \<notin> set m" "CHR '':'' \<notin> set AUTO_MODEL"
  by (auto simp: MODEL_ROUTES_def AUTO_MODEL_def)

text \<open>
  A raw override cannot reach a cloud provider. A request for \<open>provider:model\<close> whose provider is
  registered but not owned hardware is refused with an empty wire, whatever keys and URLs the
  environment holds.
\<close>

theorem chat_override_blocked:
  assumes "net_ok w" "\<not> w_budgeted w" "chat s args bo w = (out, bo', w')"
    and "a_model args = n @ '':'' @ up" "CHR '':'' \<notin> set n" "dget PROVIDERS n = Some p" "\<not> p_sovereign p"
  shows "w_wire w' = w_wire w \<and> (\<forall>res. out \<noteq> Ret res)"
proof -
  have part: "partition_at (CHR '':'') (a_model args) = (n, True, up)"
    using assms(4,5) find_sub_char by (simp add: partition_at_def)
  have "CHR '':'' \<in> set (a_model args)" using assms(4) by simp
  then have names: "\<not> has_key MODEL_ROUTES (a_model args)" "a_model args \<noteq> AUTO_MODEL"
    using no_colon(1) no_colon(2) by (blast, metis)
  have "has_key PROVIDERS n" using map_of_SomeD [OF assms(6)] by force
  with names part have routes: "chat_routes s args = [(n, up)]"
    by (simp add: chat_plan_def resolve_routes_def)
  have "route_sent s args (n, up) q = False" for q
    using assms(6,7) by (simp add: route_sent_def)
  with routes chat_adv [OF assms(1-3)] have "\<exists>a. adv (\<lambda>q. False) (per_route s) (bo, [], w) (bo', a, w')"
    by simp
  then have "w_wire w' = w_wire w" using adv_sends by (fastforce simp: list_all_iff)
  moreover have "out \<noteq> Ret (j, v)" for j v
  proof
    assume "out = Ret (j, v)"
    with assms(3) have "chat s args bo w = (Ret (j, v), bo', w')" by simp
    from chat_served [OF assms(1,2) this] routes assms(6,7) show False
      by (auto simp: answered_def honest_def Cons_eq_append_conv)
  qed
  ultimately show ?thesis by auto
qed

definition cloud_sys :: sys where
  "cloud_sys = demo_sys\<lparr>s_env := (\<lambda>k. if k = ''GROQ_API_KEY'' then Some ''gsk'' else None)\<rparr>"

theorem chat_override_blocked_witness:
  "available (s_env cloud_sys) (the (dget PROVIDERS ''groq''))
   \<and> w_wire (snd (snd (chat cloud_sys (demo_args\<lparr>a_model := ''groq:m''\<rparr>) None new_world))) = []"
proof -
  obtain out bo w' where c: "chat cloud_sys (demo_args\<lparr>a_model := ''groq:m''\<rparr>) None new_world = (out, bo, w')"
    by (metis prod_cases3)
  have p: "dget PROVIDERS ''groq'' = Some (the (dget PROVIDERS ''groq''))"
    "\<not> p_sovereign (the (dget PROVIDERS ''groq''))"
    by (simp_all add: PROVIDERS_def mk_provider_def)
  have "available (s_env cloud_sys) (the (dget PROVIDERS ''groq''))" by code_simp
  moreover have "w_wire w' = w_wire new_world"
    using chat_override_blocked [OF new_world_ok c _ _ p(1) p(2), of "''m''"] by simp
  ultimately show ?thesis using c by (simp add: new_world_def)
qed

text \<open>
  C4. A budget is always closed. A call that was given a budget and did not reject its arguments
  ends with a terminal reason on the budget, has used it through its own operations only, and a
  \<open>RouterError\<close> reports that reason; and apart from rejected arguments nothing else is ever raised.
\<close>

theorem chat_closes_budget:
  assumes "net_ok w" "\<not> w_budgeted w" "chat s args bo w = (out, bo', w')"
  shows "(\<exists>e. out = Raise e) = (chat_refused args bo \<noteq> None)
    \<and> (case bo of None \<Rightarrow> bo' = None
       | Some b \<Rightarrow> \<exists>b'. bo' = Some b' \<and> budget_step\<^sup>*\<^sup>* b b' \<and>
           (case out of
              Raise e \<Rightarrow> b' = b
            | Ret res \<Rightarrow> b_terminal b' \<noteq> None
            | RouterError m a reason \<Rightarrow> reason = b_terminal b' \<and> reason \<noteq> None))"
  using assms(3)
proof (cases rule: chat_cases)
  case (refused e)
  then show ?thesis by (simp split: option.split)
next
  case (looped x)
  have ok: "extra_error ''chat'' [''model'', ''messages''] ''model or messages'' (a_extra args) = None"
    using looped(1) by (auto simp: chat_refused_def split: option.splits)
  have l: "loop_ok (honest s) (chat_routes s args) (bo, [], w) x"
    using chat_walk.walk_ok [OF assms(1,2) ok] looped(2) by blast
  have reach: "case bo of None \<Rightarrow> bo' = None | Some b \<Rightarrow> \<exists>b'. bo' = Some b' \<and> budget_step\<^sup>*\<^sup>* b b'"
    using chat_adv [OF assms] by (auto simp: adv_def split: option.splits)
  have ended: "out \<noteq> Raise e \<and> (\<forall>b'. bo' = Some b' \<longrightarrow> (\<exists>m a r. out = RouterError m a (b_terminal b') \<and> b_terminal b' = Some r))"
    if "\<exists>bo1 a w1 reason. step_state x = (bo1, a, w1) \<and> finish_budget a bo1 = (bo', reason)
             \<and> out = RouterError (failed_text ''all routes failed for model '' (a_model args)) a reason
             \<and> quiet w1 w'" for e
    using that by (auto dest!: finish_budget_step split: option.splits)
  have nc: "\<not> is_cached x" using chat_walk_not_cached looped(2) by blast
  show ?thesis
  proof (cases x)
    case (Served j v st)
    with looped(1,3) l reach show ?thesis
      by (cases st) (auto simp: loop_ok_def split: option.splits)
  next
    case (Fail e st)
    with l show ?thesis by (cases st) (simp add: loop_ok_def)
  next
    case (Continue st)
    with looped(1,3) ended reach show ?thesis by (fastforce split: option.splits)
  next
    case (Break st)
    with looped(1,3) ended reach show ?thesis by (fastforce split: option.splits)
  next
    case (Cached j st)
    with nc show ?thesis by simp
  qed
qed

theorem chat_closes_budget_witness:
  "\<exists>b'. fst (snd (chat silent_sys demo_args (Some fresh_budget) new_world)) = Some b'
     \<and> budget_step\<^sup>*\<^sup>* fresh_budget b' \<and> b_terminal b' \<noteq> None"
proof -
  obtain out bo w' where c: "chat silent_sys demo_args (Some fresh_budget) new_world = (out, bo, w')"
    by (metis prod_cases3)
  have "chat_refused demo_args (Some fresh_budget) = None" by code_simp
  with chat_closes_budget [OF new_world_ok c] have "\<nexists>e. out = Raise e" by simp
  with chat_closes_budget [OF new_world_ok c] c show ?thesis
    by (cases out) auto
qed

end
