(* ===== verification/Embed.thy ===== *)
theory Embed
  imports Failover
begin

text \<open>
  \<open>embed()\<close> of \<open>szl_router/core.py\<close>: the canonical request text, the cache key, the cache with its
  expiry and eviction, the marking of a hit, and the loop over the routes with the frozen provider.

  \<open>json.loads\<close> after \<open>json.dumps\<close> of a JSON value is modelled by what it returns: the value itself,
  with its keys sorted where \<open>sort_keys\<close> was set.
\<close>

section \<open>Request identity\<close>

definition embedding_json :: "sys \<Rightarrow> json \<Rightarrow> exn + string" where
  "embedding_json s v =
     (if json_finite v then Inr (dumps (compact_sorted (s_frepr s)) v)
      else Inl (ValueError ''embeddings request must contain only finite JSON values and string object keys''))"

definition auth_scope :: "sys \<Rightarrow> frozen_provider \<Rightarrow> string \<Rightarrow> exn + string" where
  "auth_scope s p scope =
     bindE (embedding_json s (JArr [opt_str (resolved_key p), JStr scope]))
       (\<lambda>t. Inr (hmac_hex (s_scope_key s) (utf8 t)))"

definition cache_identity :: "string \<Rightarrow> json \<Rightarrow> frozen_provider \<Rightarrow> string \<Rightarrow> string \<Rightarrow> string \<Rightarrow> json" where
  "cache_identity model payload p namespace auth route_name = JObj [
     (''schema'', JStr ''szl-embedding-cache/v2''), (''logical_model'', JStr model),
     (''payload'', payload), (''namespace'', JStr namespace), (''auth_scope'', JStr auth),
     (''route'', JObj [
        (''slot'', JStr route_name), (''provider'', JStr (p_name p)),
        (''base_url'', JStr (resolved_url p)), (''key_env'', JStr (key_env p)),
        (''sovereign'', JBool (p_sovereign p)), (''energy_source'', JStr (p_energy_source p))])]"

definition embed_cache_key ::
  "sys \<Rightarrow> string \<Rightarrow> json \<Rightarrow> frozen_provider \<Rightarrow> string \<Rightarrow> string \<Rightarrow> string \<Rightarrow> exn + string" where
  "embed_cache_key s model payload p namespace scope route_name =
     bindE (auth_scope s p scope) (\<lambda>auth.
     bindE (embedding_json s (cache_identity model payload p namespace auth route_name))
       (\<lambda>blob. Inr (sha256_hex (utf8 blob))))"

section \<open>The cache\<close>

definition cache_get :: "sys \<Rightarrow> string \<Rightarrow> world \<Rightarrow> json option \<times> world" where
  "cache_get s key w0 =
     (let (now, w) = read_time s w0 in
      case dget (w_ecache w) key of
        None \<Rightarrow> (None, w)
      | Some (ts, value) \<Rightarrow>
          if s_embed_ttl s \<le> now - ts then (None, w\<lparr>w_ecache := dpop key (w_ecache w)\<rparr>)
          else (Some value, w))"

text \<open>\<open>min(d, key=...)\<close>: the first key, in insertion order, with the smallest timestamp.\<close>

fun oldest :: "(rat \<times> json) dict \<Rightarrow> (string \<times> rat) option" where
  "oldest [] = None"
| "oldest ((k, t, v) # d) =
     (case oldest d of
        None \<Rightarrow> Some (k, t)
      | Some (k', t') \<Rightarrow> if t' < t then Some (k', t') else Some (k, t))"

definition cache_put :: "sys \<Rightarrow> string \<Rightarrow> json \<Rightarrow> world \<Rightarrow> exn option \<times> world" where
  "cache_put s key value w0 =
     (let (now, w) = read_time s w0; c = w_ecache w in
      if s_embed_max s \<le> int (length c) \<and> \<not> has_key c key
      then case oldest c of
             None \<Rightarrow> (Some (ValueError ''min() arg is an empty sequence''), w)
           | Some (k, _) \<Rightarrow> (None, w\<lparr>w_ecache := dset key (now, value) (dpop k c)\<rparr>)
      else (None, w\<lparr>w_ecache := dset key (now, value) c\<rparr>))"

definition cache_clear :: "world \<Rightarrow> world" where
  "cache_clear w = w\<lparr>w_ecache := []\<rparr>"

definition as_cache_hit :: "sys \<Rightarrow> json \<Rightarrow> attempt list \<Rightarrow> json" where
  "as_cache_hit s cached attempts =
     (let out = obj_items cached;
          prov = dget_or_null out ''x_szl_provenance'';
          origin = jget prov ''served_by'';
          text = py_str (s_frepr s) origin;
          out1 = (if is_obj prov \<and> truthy origin \<and> \<not> endswith '':cache'' text
                  then dset ''x_szl_provenance''
                         (JObj (dset ''served_by'' (JStr (text @ '':cache'')) (obj_items prov))) out
                  else out)
      in JObj (dset ''x_szl_cache'' (JObj [
            (''served_by'', JStr ''cache''), (''hit'', JBool True), (''origin_served_by'', origin),
            (''lookup_attempts'', JArr (map attempt_json attempts)),
            (''note'', JStr (''exact-hash embeddings cache hit; vectors byte-identical to the '' @
               ''upstream result; no recompute, no fabrication.''))]) out1))"

section \<open>The call\<close>

record embed_args =
  e_model :: json
  e_input :: json
  e_timeout :: json
  e_extra :: json
  e_use_cache :: bool

text \<open>The checks of the arguments, and the detached request: its input, its extra fields.\<close>

definition embed_request ::
  "sys \<Rightarrow> embed_args \<Rightarrow> budget option \<Rightarrow> exn + string \<times> json \<times> jdict" where
  "embed_request s args bo =
     (case timeout_error bo (e_timeout args) of
        Some e \<Rightarrow> Inl e
      | None \<Rightarrow>
      (case e_model args of
         JStr model \<Rightarrow>
           if model = [] then Inl (ValueError ''embeddings model must be a non-empty string'')
           else (case extra_error ''embeddings'' [''model'', ''input''] ''model or input'' (e_extra args) of
             Some e \<Rightarrow> Inl e
           | None \<Rightarrow>
               bindE (embedding_json s
                   (JObj [(''input'', e_input args), (''extra'', JObj (obj_items (e_extra args)))]))
                 (\<lambda>_. Inr (model, sort_json (e_input args),
                             obj_items (sort_json (JObj (obj_items (e_extra args)))))))
       | _ \<Rightarrow> Inl (ValueError ''embeddings model must be a non-empty string'')))"

definition embed_payload :: "string \<Rightarrow> json \<Rightarrow> jdict \<Rightarrow> json" where
  "embed_payload upstream inp extra = JObj (dupdate [(''model'', JStr upstream), (''input'', inp)] extra)"

definition embed_provenance :: "route \<Rightarrow> frozen_provider \<Rightarrow> attempt list \<Rightarrow> provenance \<Rightarrow> provenance" where
  "embed_provenance r p a v =
     v\<lparr>v_served_by := Some (fst r @ '':'' @ snd r), v_provider := Some (fst r),
       v_upstream_model := Some (snd r), v_base_url := Some (resolved_url p),
       v_sovereign := p_sovereign p, v_energy_source := Some (p_energy_source p),
       v_tier := Some (tier_of (provider.truncate p)), v_attempts := a\<rparr>"

definition embed_answer ::
  "sys \<Rightarrow> route \<Rightarrow> frozen_provider \<Rightarrow> json \<Rightarrow> string option \<Rightarrow> json \<Rightarrow> rat \<Rightarrow> cstate \<Rightarrow> step" where
  "embed_answer s r p payload key result t0 st =
     (let (bo, a, w) = st; (dt, w1) = elapsed s t0 w in
      if bo \<noteq> None \<and> a = [] then Fail (PyError ''IndexError'' ''list index out of range'') (bo, a, w1)
      else case embedding_response_error result payload of
        Some detail \<Rightarrow> Continue (bo, bad_answer r detail dt bo a, w1)
      | None \<Rightarrow>
          let a1 = good_answer r dt bo a;
              bo1 = map_option mark_success bo;
              v0 = (case bo1 of None \<Rightarrow> new_provenance None | Some b \<Rightarrow> budget_fields b (new_provenance None));
              v = embed_provenance r p a1 v0;
              out = JObj (dset ''x_szl_provenance'' (JObj (provenance_dict v)) (obj_items result))
          in case key of
               None \<Rightarrow> Served out v (bo1, a1, w1)
             | Some k \<Rightarrow>
                 (case cache_put s k out w1 of
                    (Some e, w2) \<Rightarrow> Fail e (bo1, a1, w2)
                  | (None, w2) \<Rightarrow> Served out v (bo1, a1, w2)))"

definition embed_dispatch ::
  "sys \<Rightarrow> embed_args \<Rightarrow> route \<Rightarrow> frozen_provider \<Rightarrow> json \<Rightarrow> string option \<Rightarrow> cstate \<Rightarrow> step" where
  "embed_dispatch s args r p payload key st =
     (let (bo, a, w) = st;
          (t0, w1) = read_time s w;
          (res, bo1, a1, w2) = post_with_retry s (post_embeddings s) p payload
                                 (e_timeout args) bo (bo \<noteq> None) a w1
      in case res of
           Inl (BudgetStop x y) \<Rightarrow> Break (bo1, a1, w2)
         | Inl e \<Rightarrow> after_failure s False r e t0 (bo1, a1, w2)
         | Inr result \<Rightarrow> embed_answer s r p payload key result t0 (bo1, a1, w2))"

definition embed_route ::
  "sys \<Rightarrow> embed_args \<Rightarrow> string \<Rightarrow> json \<Rightarrow> jdict \<Rightarrow> route \<Rightarrow> cstate \<Rightarrow> step" where
  "embed_route s args model inp extra r st =
     (let (bo, a, w) = st in
      if terminal_now bo then Break st
      else case map_option (capture (s_env s)) (dget PROVIDERS (fst r)) of
        None \<Rightarrow> Continue (bo, a @ [skip_row r ''provider unavailable (no key/url)''], w)
      | Some p \<Rightarrow>
          if \<not> frozen_available (s_env s) p
          then Continue (bo, a @ [skip_row r ''provider unavailable (no key/url)''], w)
          else if tier_of (provider.truncate p) \<noteq> ''sovereign''
          then Continue (bo, a @ [skip_row r ''cloud embeddings pricing/quota unqualified; route disabled''], w)
          else
            let payload = embed_payload (snd r) inp extra in
            if \<not> e_use_cache args then embed_dispatch s args r p payload None (bo, a, w)
            else case embed_cache_key s model payload p
                        (env_get (s_env s) ''SZL_EMBED_CACHE_NAMESPACE'' [])
                        (strip (env_get (s_env s) ''SZL_ROUTER_TOKEN'' [])) (fst r) of
                   Inl e \<Rightarrow> Fail e (bo, a, w)
                 | Inr k \<Rightarrow>
                     (case cache_get s k w of
                        (Some cached, w1) \<Rightarrow> Cached (as_cache_hit s cached a) (bo, a, w1)
                      | (None, w1) \<Rightarrow> embed_dispatch s args r p payload (Some k) (bo, a, w1)))"

definition embed ::
  "sys \<Rightarrow> embed_args \<Rightarrow> budget option \<Rightarrow> world
     \<Rightarrow> (json \<times> provenance option) outcome \<times> budget option \<times> world" where
  "embed s args bo w =
     (case embed_request s args bo of
        Inl e \<Rightarrow> (Raise e, bo, w)
      | Inr (model, inp, extra) \<Rightarrow>
          (case failover (\<lambda>r later. embed_route s args model inp extra r) (resolve_embed_routes model) (bo, [], w) of
             Cached out (bo', a, w') \<Rightarrow> (Ret (out, None), bo', w')
           | Served out v (bo', a, w') \<Rightarrow> (Ret (out, Some v), bo', w')
           | Fail e (bo', a, w') \<Rightarrow> (Raise e, bo', w')
           | ended \<Rightarrow>
               let (bo', a, w') = step_state ended;
                   (bo2, reason) = finish_budget a bo'
               in (RouterError (failed_text ''all embed routes failed for model '' model) a reason, bo2, w')))"

section \<open>Finite values\<close>

lemma json_finite_list_iff: "json_finite_list xs \<longleftrightarrow> (\<forall>x \<in> set xs. json_finite x)"
  by (induction xs) auto

lemma json_finite_items_iff: "json_finite_items d \<longleftrightarrow> (\<forall>v \<in> snd ` set d. json_finite v)"
  by (induction d) auto

lemma json_finite_sort:
  "json_finite (sort_json j) = json_finite j" "json_finite_list (sort_list xs) = json_finite_list xs"
  "json_finite_items (sort_items d) = json_finite_items d"
proof (induction j and xs and d rule: sort_json_sort_list_sort_items.induct)
  case (2 d)
  then show ?case by (simp add: json_finite_items_iff)
qed simp_all

lemma snd_update: "snd ` set (AList.update k v d) \<subseteq> insert v (snd ` set d)"
  by (induction d) auto

lemma snd_dupdate: "snd ` set (dupdate d e) \<subseteq> snd ` set d \<union> snd ` set e"
proof (induction e arbitrary: d)
  case Nil
  then show ?case by (simp add: dupdate_def)
next
  case (Cons p e)
  obtain k v where p: "p = (k, v)" by (cases p)
  have "dupdate d (p # e) = dupdate (dset k v d) e" by (simp add: dupdate_def p)
  with Cons.IH [of "dset k v d"] snd_update [of k v d] p show ?case by auto
qed

lemma embed_payload_finite:
  assumes "json_finite inp" "json_finite (JObj extra)"
  shows "json_finite (embed_payload up inp extra)"
proof -
  have "json_finite v" if "v \<in> snd ` set (dupdate [(''model'', JStr up), (''input'', inp)] extra)" for v
  proof -
    have "v \<in> insert (JStr up) (insert inp (snd ` set extra))"
      using snd_dupdate [of "[(''model'', JStr up), (''input'', inp)]" extra] that by auto
    with assms show ?thesis by (auto simp: json_finite_items_iff)
  qed
  then show ?thesis by (simp add: embed_payload_def json_finite_items_iff)
qed

lemma embed_cache_key_total:
  assumes "json_finite payload"
  shows "\<exists>k. embed_cache_key s model payload p ns scope slot = Inr k"
proof -
  have "json_finite (opt_str (resolved_key p))" by (simp add: opt_str_def split: option.split)
  with assms show ?thesis
    by (simp add: embed_cache_key_def auth_scope_def embedding_json_def cache_identity_def)
qed

section \<open>The cache keeps its bound\<close>

definition cache_ok :: "sys \<Rightarrow> world \<Rightarrow> bool" where
  "cache_ok s w \<longleftrightarrow> distinct (map fst (w_ecache w)) \<and> int (length (w_ecache w)) \<le> s_embed_max s"

lemma oldest_None: "oldest d = None \<longleftrightarrow> d = []"
  by (cases d rule: oldest.cases) (auto split: option.splits)

lemma oldest_Some:
  "oldest d = Some (k, t) \<Longrightarrow> (\<exists>v. (k, t, v) \<in> set d) \<and> (\<forall>(k', t', v') \<in> set d. t \<le> t')"
proof (induction d arbitrary: k t)
  case Nil
  then show ?case by simp
next
  case (Cons x d)
  obtain a b c where x: "x = (a, b, c)" by (metis prod_cases3)
  show ?case
  proof (cases "oldest d")
    case None
    with Cons.prems x show ?thesis by (simp add: oldest_None)
  next
    case (Some kt)
    obtain k' t' where kt: "kt = (k', t')" by (cases kt)
    with Some Cons.IH [of k' t'] Cons.prems x show ?thesis
      by (fastforce split: if_splits)
  qed
qed

lemma cache_put_cases:
  assumes "cache_put s key value w = (e, w')" "1 \<le> s_embed_max s"
  obtains c where "e = None" "w' = w\<lparr>w_tick := Suc (w_tick w), w_ecache := dset key (s_time s (w_tick w), value) c\<rparr>"
    "c = w_ecache w \<and> (has_key (w_ecache w) key \<or> int (length (w_ecache w)) < s_embed_max s)
     \<or> (\<exists>k t. oldest (w_ecache w) = Some (k, t) \<and> c = dpop k (w_ecache w) \<and> \<not> has_key (w_ecache w) key
          \<and> s_embed_max s \<le> int (length (w_ecache w)))"
proof (cases "s_embed_max s \<le> int (length (w_ecache w)) \<and> \<not> has_key (w_ecache w) key")
  case True
  with assms(2) obtain k t where o: "oldest (w_ecache w) = Some (k, t)"
    using oldest_None [of "w_ecache w"] by (cases "oldest (w_ecache w)") auto
  with True assms(1) show thesis
    by (intro that [of "dpop k (w_ecache w)"]) (auto simp: cache_put_def read_time_def)
next
  case False
  with assms(1) show thesis
    by (intro that [of "w_ecache w"]) (auto simp: cache_put_def read_time_def Let_def split: if_splits)
qed

lemma cache_put_ok:
  assumes "cache_put s key value w = (e, w')" "1 \<le> s_embed_max s" "cache_ok s w"
  shows "e = None \<and> cache_ok s w' \<and> dget (w_ecache w') key = Some (s_time s (w_tick w), value)"
  using assms(1,2)
proof (rule cache_put_cases)
  fix c
  assume e: "e = None" and w': "w' = w\<lparr>w_tick := Suc (w_tick w), w_ecache := dset key (s_time s (w_tick w), value) c\<rparr>"
    and c: "c = w_ecache w \<and> (has_key (w_ecache w) key \<or> int (length (w_ecache w)) < s_embed_max s)
     \<or> (\<exists>k t. oldest (w_ecache w) = Some (k, t) \<and> c = dpop k (w_ecache w) \<and> \<not> has_key (w_ecache w) key
          \<and> s_embed_max s \<le> int (length (w_ecache w)))"
  have len: "int (length (dset key (s_time s (w_tick w), value) c)) \<le> s_embed_max s"
    using c
  proof (elim disjE exE conjE)
    fix k t
    assume o: "oldest (w_ecache w) = Some (k, t)" "c = dpop k (w_ecache w)"
    then have "has_key (w_ecache w) k" using oldest_Some [OF o(1)] by force
    then have "length c < length (w_ecache w)" using o(2) length_dpop_less by blast
    with assms(3) show ?thesis by (auto simp: cache_ok_def length_dset)
  qed (use assms(3) in \<open>auto simp: cache_ok_def length_dset\<close>)
  have "distinct (map fst c)"
    using c assms(3) distinct_dpop by (auto simp: cache_ok_def)
  then have "distinct (map fst (dset key (s_time s (w_tick w), value) c))" by (rule distinct_dset)
  with len e w' show ?thesis by (simp add: cache_ok_def)
qed

lemma cache_get_ok:
  assumes "cache_get s key w = (r, w')"
  shows "quiet w w' \<and> (cache_ok s w \<longrightarrow> cache_ok s w')"
proof -
  have "length (dpop key (w_ecache w)) \<le> length (w_ecache w)" by (rule length_dpop_le)
  with assms show ?thesis
    by (auto simp: cache_get_def read_time_def quiet_def cache_ok_def distinct_dpop split: option.splits if_splits)
qed

lemma cache_put_quiet: "cache_put s key value w = (e, w') \<Longrightarrow> quiet w w'"
  by (auto simp: cache_put_def read_time_def quiet_def Let_def split: option.splits if_splits)

section \<open>What one turn sends\<close>

definition embed_sent :: "sys \<Rightarrow> json \<Rightarrow> jdict \<Rightarrow> route \<Rightarrow> wire_req \<Rightarrow> bool" where
  "embed_sent s inp extra r q =
     (case dget PROVIDERS (fst r) of None \<Rightarrow> False
      | Some p \<Rightarrow> available (s_env s) p \<and> tier_of p = ''sovereign''
          \<and> embeddings_sent s (capture (s_env s) p) (embed_payload (snd r) inp extra) q)"

lemma truncate_capture [simp]: "provider.truncate (capture e p) = p"
  by (simp add: capture_def provider.defs)

lemma embed_answer_adv:
  assumes "adv P n st (bo, a, w)"
  shows "adv P n st (step_state (embed_answer s r p payload key result t0 (bo, a, w)))"
proof -
  obtain dt w1 where el: "elapsed s t0 w = (dt, w1)" by fastforce
  have w1: "quiet w w1" using quiet_ops(3) [of w s t0] el by simp
  have put: "quiet w (snd (cache_put s k v w1))" for k v
    using cache_put_quiet [of s k v w1] quiet_trans [OF w1] by (cases "cache_put s k v w1") auto
  note good = adv_quiet' [OF adv_success [OF assms]]
  show ?thesis
    using assms el w1 put good
    by (auto simp: embed_answer_def Let_def split_def intro: adv_quiet' split: option.splits)
qed

lemma embed_dispatch_adv:
  assumes "net_ok w" "\<not> w_budgeted w"
  shows "adv (embeddings_sent s p payload) (per_route s) (bo, a, w)
    (step_state (embed_dispatch s args r p payload key (bo, a, w)))"
proof -
  obtain t0 w1 where rt: "read_time s w = (t0, w1)" by fastforce
  have w1: "quiet w w1" using quiet_ops(2) [of w s] rt by simp
  obtain res bo1 a1 w2 where pr: "post_with_retry s (post_embeddings s) p payload
      (e_timeout args) bo (bo \<noteq> None) a w1 = (res, bo1, a1, w2)"
    by (metis prod_cases4)
  have "adv (embeddings_sent s p payload) (per_route s) (bo, a, w1) (bo1, a1, w2)"
    using embeddings_post.post_with_retry_effect [OF pr] w1 assms by (simp add: quiet_def per_route_def)
  then have adv: "adv (embeddings_sent s p payload) (per_route s) (bo, a, w) (bo1, a1, w2)"
    by (rule adv_quiet_first [OF w1])
  show ?thesis
    using rt pr adv after_failure_adv [OF adv] embed_answer_adv [OF adv]
    by (auto simp: embed_dispatch_def split: sum.splits exn.splits)
qed

text \<open>The cases of one turn: no usable provider, a cached answer, or a dispatch.\<close>

lemma embed_route_cases:
  obtains (skipped) e where "embed_route s args model inp extra r (bo, a, w) = Continue (bo, a @ [skip_row r e], w)"
    | (terminal) "embed_route s args model inp extra r (bo, a, w) = Break (bo, a, w)" "terminal_now bo"
    | (nokey) p e where "embed_route s args model inp extra r (bo, a, w) = Fail e (bo, a, w)"
      "embed_cache_key s model (embed_payload (snd r) inp extra) (capture (s_env s) p)
         (env_get (s_env s) ''SZL_EMBED_CACHE_NAMESPACE'' [])
         (strip (env_get (s_env s) ''SZL_ROUTER_TOKEN'' [])) (fst r) = Inl e"
    | (hit) p k cached w1 where "cache_get s k w = (Some cached, w1)"
      "embed_route s args model inp extra r (bo, a, w) = Cached (as_cache_hit s cached a) (bo, a, w1)"
      "dget PROVIDERS (fst r) = Some p" "available (s_env s) p" "p_sovereign p"
    | (sends) p key w1 where "dget PROVIDERS (fst r) = Some p" "available (s_env s) p" "p_sovereign p"
      "quiet w w1" "cache_ok s w \<longrightarrow> cache_ok s w1"
      "embed_route s args model inp extra r (bo, a, w)
         = embed_dispatch s args r (capture (s_env s) p) (embed_payload (snd r) inp extra) key (bo, a, w1)"
proof (cases "\<not> terminal_now bo \<and> usable s r")
  case False
  show thesis
  proof (cases "terminal_now bo")
    case True
    with terminal show thesis by (simp add: embed_route_def)
  next
    case go: False
    show thesis
    proof (cases "dget PROVIDERS (fst r)")
      case None
      with go skipped show thesis by (simp add: embed_route_def)
    next
      case (Some p)
      with False go have "\<not> available (s_env s) p \<or> \<not> p_sovereign p" by (simp add: usable_def)
      with Some go skipped show thesis
        by (cases "available (s_env s) p") (simp_all add: embed_route_def frozen_available_capture)
    qed
  qed
next
  case True
  then obtain p where p: "dget PROVIDERS (fst r) = Some p" "available (s_env s) p" "p_sovereign p"
    by (auto simp: usable_def split: option.splits)
  let ?payload = "embed_payload (snd r) inp extra"
  let ?key = "embed_cache_key s model ?payload (capture (s_env s) p)
         (env_get (s_env s) ''SZL_EMBED_CACHE_NAMESPACE'' [])
         (strip (env_get (s_env s) ''SZL_ROUTER_TOKEN'' [])) (fst r)"
  have base: "embed_route s args model inp extra r (bo, a, w) =
      (if \<not> e_use_cache args then embed_dispatch s args r (capture (s_env s) p) ?payload None (bo, a, w)
       else case ?key of Inl e \<Rightarrow> Fail e (bo, a, w)
         | Inr k \<Rightarrow> (case cache_get s k w of
             (Some cached, w1) \<Rightarrow> Cached (as_cache_hit s cached a) (bo, a, w1)
           | (None, w1) \<Rightarrow> embed_dispatch s args r (capture (s_env s) p) ?payload (Some k) (bo, a, w1)))"
    using True p by (simp add: embed_route_def frozen_available_capture Let_def)
  show thesis
  proof (cases "e_use_cache args")
    case False
    with base p sends [of p w None] quiet_ops(1) show thesis by simp
  next
    case cached: True
    show thesis
    proof (cases ?key)
      case (Inl e)
      with base cached nokey show thesis by simp
    next
      case (Inr k)
      obtain v w1 where g: "cache_get s k w = (v, w1)" by fastforce
      show thesis
      proof (cases v)
        case None
        with base cached Inr g p cache_get_ok [OF g] sends [of p w1 "Some k"] show thesis by simp
      next
        case (Some c)
        with base cached Inr g p hit [of k c w1 p] show thesis by simp
      qed
    qed
  qed
qed

lemma embed_route_adv:
  assumes "net_ok w" "\<not> w_budgeted w"
  shows "adv (embed_sent s inp extra r) (per_route s) (bo, a, w)
    (step_state (embed_route s args model inp extra r (bo, a, w)))"
proof -
  have here: "adv (embed_sent s inp extra r) (per_route s) (bo, a, w) (bo, a', w')" if "quiet w w'" for a' w'
    using adv_quiet' [OF adv_refl [OF assms] that] .
  show ?thesis
  proof (cases rule: embed_route_cases [of s args model inp extra r bo a w])
    case (hit p k cached w1)
    with here cache_get_ok [OF hit(1)] show ?thesis by simp
  next
    case (sends p key w1)
    have "adv (embeddings_sent s (capture (s_env s) p) (embed_payload (snd r) inp extra)) (per_route s)
        (bo, a, w1) (step_state (embed_route s args model inp extra r (bo, a, w)))"
      using embed_dispatch_adv sends(4,6) assms by (simp add: quiet_def)
    then have "adv (embed_sent s inp extra r) (per_route s) (bo, a, w1)
        (step_state (embed_route s args model inp extra r (bo, a, w)))"
      by (rule adv_P) (simp add: embed_sent_def sends)
    then show ?thesis by (rule adv_quiet_first [OF sends(4)])
  qed (use here [OF quiet_ops(1)] in simp_all)
qed

section \<open>What one turn adds to the trail\<close>

definition embed_honest :: "sys \<Rightarrow> json \<Rightarrow> jdict \<Rightarrow> honesty" where
  "embed_honest s inp extra r a out v \<longleftrightarrow> (\<exists>p result.
     dget PROVIDERS (fst r) = Some p \<and> available (s_env s) p \<and> p_sovereign p
     \<and> v_served_by v = Some (fst r @ '':'' @ snd r) \<and> v_provider v = Some (fst r)
     \<and> v_upstream_model v = Some (snd r) \<and> v_base_url v = Some (base_url (s_env s) p)
     \<and> v_sovereign v \<and> v_tier v = Some ''sovereign'' \<and> v_energy_source v = Some (p_energy_source p)
     \<and> v_attempts v = a \<and> embedding_response_error result (embed_payload (snd r) inp extra) = None
     \<and> out = JObj (dset ''x_szl_provenance'' (JObj (provenance_dict v)) (obj_items result)))"

text \<open>What the checks of the arguments establish, and a cache that can hold an entry.\<close>

definition embed_valid :: "sys \<Rightarrow> json \<Rightarrow> jdict \<Rightarrow> bool" where
  "embed_valid s inp extra \<longleftrightarrow> 1 \<le> s_embed_max s \<and> json_finite inp \<and> json_finite (JObj extra)
     \<and> \<not> has_key extra ''model'' \<and> \<not> has_key extra ''input''"

lemma fst_sort_items: "fst ` set (sort_items d) = fst ` set d"
  by (simp only: set_map [symmetric] map_fst_sort_items)

lemma embed_request_valid:
  assumes "embed_request s args bo = Inr (model, inp, extra)" "1 \<le> s_embed_max s"
  shows "embed_valid s inp extra"
proof -
  from assms(1) have x: "extra_error ''embeddings'' [''model'', ''input''] ''model or input'' (e_extra args) = None"
    and f: "json_finite (JObj [(''input'', e_input args), (''extra'', JObj (obj_items (e_extra args)))])"
    and i: "inp = sort_json (e_input args)" "JObj extra = sort_json (JObj (obj_items (e_extra args)))"
    by (auto simp: embed_request_def embedding_json_def bindE_Inr_iff split: option.splits json.splits if_splits)
  have "fst ` set extra = fst ` set (obj_items (e_extra args))"
    using i(2) fst_sort_items [of "obj_items (e_extra args)"] by simp
  moreover have "\<not> has_key (obj_items (e_extra args)) ''model''" "\<not> has_key (obj_items (e_extra args)) ''input''"
    using x by (auto simp: extra_error_def split: json.splits if_splits)
  moreover have "json_finite (JObj extra)"
    unfolding i(2) json_finite_sort using f by simp
  ultimately show ?thesis using assms(2) f i(1) by (auto simp: embed_valid_def json_finite_sort)
qed

lemma embed_payload_model:
  assumes "embed_valid s inp extra"
  shows "jget (embed_payload up inp extra) ''model'' = JStr up"
    "jget (embed_payload up inp extra) ''input'' = inp"
proof -
  have "dget (rev extra) ''model'' = None" "dget (rev extra) ''input'' = None"
    using assms by (auto simp: embed_valid_def map_of_eq_None_iff)
  then show "jget (embed_payload up inp extra) ''model'' = JStr up"
    "jget (embed_payload up inp extra) ''input'' = inp"
    by (simp_all add: embed_payload_def dget_or_null_def dget_dupdate)
qed

lemma embed_answer_turn:
  assumes rows: "a' = a @ rows" "bo = None \<longrightarrow> rows = []" "bo \<noteq> None \<longrightarrow> won r rows"
    and kind: "(bo' = None) = (bo = None)" and room: "1 \<le> s_embed_max s"
    and p: "dget PROVIDERS (fst r) = Some p" "available (s_env s) p" "p_sovereign p"
  shows "turn_ok (embed_honest s inp extra) r (bo, a, w)
    (embed_answer s r (capture (s_env s) p) (embed_payload (snd r) inp extra) key result t0 (bo', a', w'))"
proof -
  let ?payload = "embed_payload (snd r) inp extra"
  obtain dt w1 where el: "elapsed s t0 w' = (dt, w1)" by fastforce
  have ne: "\<not> (bo' \<noteq> None \<and> a' = [])" using rows kind by (auto simp: won_def)
  show ?thesis
  proof (cases "embedding_response_error result ?payload")
    case (Some detail)
    from bad_answer_turn [of a' a rows bo' r detail dt] rows kind
    obtain rows' where "bad_answer r detail dt bo' a' = a @ rows'" "lost r rows'" "bo' = None \<longrightarrow> length rows' = 1"
      by auto
    with el ne Some kind show ?thesis by (auto simp: embed_answer_def turn_ok_def)
  next
    case None
    from good_answer_turn [of a' a rows bo' r dt] rows kind
    obtain rows' where rows': "good_answer r dt bo' a' = a @ rows'" "won r rows'" "bo' = None \<longrightarrow> length rows' = 1"
      by auto
    define v0 where "v0 = (case map_option mark_success bo' of None \<Rightarrow> new_provenance None
        | Some b \<Rightarrow> budget_fields b (new_provenance None))"
    define v where "v = embed_provenance r (capture (s_env s) p) (a @ rows') v0"
    define out where "out = JObj (dset ''x_szl_provenance'' (JObj (provenance_dict v)) (obj_items result))"
    have h: "embed_honest s inp extra r (a @ rows') out v"
      unfolding embed_honest_def using p None
      by (intro exI [of _ p] exI [of _ result]) (auto simp: v_def embed_provenance_def out_def)
    have "\<exists>w2. embed_answer s r (capture (s_env s) p) ?payload key result t0 (bo', a', w')
        = Served out v (map_option mark_success bo', a @ rows', w2)"
    proof (cases key)
      case None
      with el ne \<open>embedding_response_error result ?payload = None\<close> rows'(1) show ?thesis
        by (simp add: embed_answer_def v_def v0_def out_def Let_def)
    next
      case (Some k)
      obtain e w2 where put: "cache_put s k out w1 = (e, w2)" by fastforce
      have "e = None" using put room by (rule cache_put_cases)
      with Some el ne None rows'(1) put show ?thesis
        by (simp add: embed_answer_def v_def v0_def out_def Let_def)
    qed
    then obtain w2 where "embed_answer s r (capture (s_env s) p) ?payload key result t0 (bo', a', w')
        = Served out v (map_option mark_success bo', a @ rows', w2)" ..
    with h rows' kind show ?thesis
      by (auto simp: turn_ok_def)
  qed
qed

lemma embed_dispatch_turn:
  assumes net: "net_ok w" "\<not> w_budgeted w"
    and p: "dget PROVIDERS (fst r) = Some p" "available (s_env s) p" "p_sovereign p"
    and ok: "embed_valid s inp extra"
  shows "turn_ok (embed_honest s inp extra) r (bo, a, w0)
    (embed_dispatch s args r (capture (s_env s) p) (embed_payload (snd r) inp extra) key (bo, a, w))"
proof -
  let ?p = "capture (s_env s) p" and ?payload = "embed_payload (snd r) inp extra"
  obtain t0 w1 where rt: "read_time s w = (t0, w1)" by fastforce
  have w1: "quiet w w1" using quiet_ops(2) [of w s] rt by simp
  obtain res bo1 a1 w2 where pr: "post_with_retry s (post_embeddings s) ?p ?payload
      (e_timeout args) bo (bo \<noteq> None) a w1 = (res, bo1, a1, w2)"
    by (metis prod_cases4)
  have eff: "adv (embeddings_sent s ?p ?payload) (per_route s) (bo, a, w1) (bo1, a1, w2)"
    "case (bo, bo1) of
         (Some b, Some b') \<Rightarrow> (\<exists>rows. a1 = a @ rows \<and> list_all (row_for ?p ?payload) rows
            \<and> trail_ok res rows (b_reserved b' - b_reserved b))
       | _ \<Rightarrow> a1 = a"
    using embeddings_post.post_with_retry_effect [OF pr] w1 net by (simp_all add: quiet_def per_route_def)
  have kind: "(bo1 = None) = (bo = None)" using eff(1) by (rule adv_kind)
  have name: "p_name ?p = fst r" using dget_providers_name [OF p(1)] by simp
  define rows where "rows = drop (length a) a1"
  have rows: "a1 = a @ rows" "bo = None \<longrightarrow> rows = []"
    "bo \<noteq> None \<longrightarrow> list_all (\<lambda>x. route_of x = r) rows \<and> (\<exists>n. trail_ok res rows n)"
    using eff(2) kind row_for_route [OF _ name embed_payload_model(1) [OF ok]]
    by (auto simp: rows_def split: option.splits)
  have lost: "res = Inl e \<Longrightarrow> lost r rows" for e
    using rows by (cases bo) (auto simp: lost_def trail_ok_def)
  have won: "res = Inr v \<Longrightarrow> bo \<noteq> None \<longrightarrow> won r rows" for v
    using rows by (auto simp: won_def trail_ok_def)
  have room: "1 \<le> s_embed_max s" using ok by (simp add: embed_valid_def)
  show ?thesis
  proof (cases res)
    case (Inl e)
    note fail = after_failure_turn [OF rows(1) lost [OF Inl] kind rows(2)]
    show ?thesis
      using rt pr Inl fail lost [OF Inl] rows(1,2) kind
      by (cases e) (auto simp: embed_dispatch_def turn_ok_def [of "embed_honest s inp extra" r _ "Break _"])
  next
    case (Inr result)
    then show ?thesis
      using rt pr embed_answer_turn [OF rows(1,2) won [OF Inr] kind room p] by (simp add: embed_dispatch_def)
  qed
qed

lemma embed_route_turn:
  assumes net: "net_ok w" "\<not> w_budgeted w" and ok: "embed_valid s inp extra"
  shows "turn_ok (embed_honest s inp extra) r (bo, a, w) (embed_route s args model inp extra r (bo, a, w))"
proof (cases rule: embed_route_cases [of s args model inp extra r bo a w])
  case (skipped e)
  then show ?thesis by (simp add: turn_ok_def lost_def)
next
  case terminal
  then show ?thesis by (auto simp: turn_ok_def lost_def terminal_now_def)
next
  case (nokey p e)
  have "json_finite inp" "json_finite (JObj extra)" using ok by (simp_all add: embed_valid_def)
  from embed_cache_key_total [OF embed_payload_finite [OF this]]
  obtain k where "embed_cache_key s model (embed_payload (snd r) inp extra) (capture (s_env s) p)
      (env_get (s_env s) ''SZL_EMBED_CACHE_NAMESPACE'' [])
      (strip (env_get (s_env s) ''SZL_ROUTER_TOKEN'' [])) (fst r) = Inr k" by blast
  with nokey(2) show ?thesis by simp
next
  case (hit p k cached w1)
  then show ?thesis by (simp add: turn_ok_def)
next
  case (sends p key w1)
  have "net_ok w1" "\<not> w_budgeted w1" using sends(4) net by (simp_all add: quiet_def)
  from embed_dispatch_turn [OF this sends(1-3) ok] sends(6) show ?thesis by simp
qed

interpretation embed_walk: failover_turn "\<lambda>r later. embed_route s args model inp extra r"
    "embed_sent s inp extra" "per_route s" "embed_honest s inp extra" "embed_valid s inp extra"
  for s args model inp extra
  by unfold_locales (auto intro: embed_route_adv embed_route_turn)

section \<open>The call\<close>

lemma embed_cases:
  assumes "embed s args bo w = (out, bo', w')"
  obtains (refused) e where "embed_request s args bo = Inl e" "out = Raise e" "bo' = bo" "w' = w"
    | (looped) model inp extra x where "embed_request s args bo = Inr (model, inp, extra)"
      "failover (\<lambda>r later. embed_route s args model inp extra r) (resolve_embed_routes model) (bo, [], w) = x"
      "(case x of
          Served j v (bo1, a, w1) \<Rightarrow> out = Ret (j, Some v) \<and> bo' = bo1 \<and> w' = w1
        | Cached j (bo1, a, w1) \<Rightarrow> out = Ret (j, None) \<and> bo' = bo1 \<and> w' = w1
        | Fail e (bo1, a, w1) \<Rightarrow> out = Raise e \<and> bo' = bo1 \<and> w' = w1
        | ended \<Rightarrow> (\<exists>bo1 a reason. step_state ended = (bo1, a, w') \<and> finish_budget a bo1 = (bo', reason)
             \<and> out = RouterError (failed_text ''all embed routes failed for model '' model) a reason))"
proof (cases "embed_request s args bo")
  case (Inl e)
  show thesis by (rule refused [OF Inl]) (use assms Inl in \<open>simp_all add: embed_def\<close>)
next
  case (Inr req)
  obtain model inp extra where req: "req = (model, inp, extra)" by (cases req)
  define x where "x = failover (\<lambda>r later. embed_route s args model inp extra r) (resolve_embed_routes model) (bo, [], w)"
  have e: "(case x of
      Cached out (bo', a, w') \<Rightarrow> (Ret (out, None), bo', w')
    | Served out v (bo', a, w') \<Rightarrow> (Ret (out, Some v), bo', w')
    | Fail e (bo', a, w') \<Rightarrow> (Raise e, bo', w')
    | ended \<Rightarrow>
        let (bo', a, w') = step_state ended; (bo2, reason) = finish_budget a bo'
        in (RouterError (failed_text ''all embed routes failed for model '' model) a reason, bo2, w'))
    = (out, bo', w')"
    using assms unfolding embed_def Inr req x_def by (simp only: sum.case prod.case)
  show thesis
  proof (rule looped [OF Inr [unfolded req] x_def [symmetric]])
    show "case x of
          Served j v (bo1, a, w1) \<Rightarrow> out = Ret (j, Some v) \<and> bo' = bo1 \<and> w' = w1
        | Cached j (bo1, a, w1) \<Rightarrow> out = Ret (j, None) \<and> bo' = bo1 \<and> w' = w1
        | Fail e (bo1, a, w1) \<Rightarrow> out = Raise e \<and> bo' = bo1 \<and> w' = w1
        | ended \<Rightarrow> (\<exists>bo1 a reason. step_state ended = (bo1, a, w') \<and> finish_budget a bo1 = (bo', reason)
             \<and> out = RouterError (failed_text ''all embed routes failed for model '' model) a reason)"
      using e by (cases x) (auto simp: Let_def split: prod.splits)
  qed
qed

lemma embed_adv:
  assumes "net_ok w" "\<not> w_budgeted w" "embed s args bo w = (out, bo', w')"
    and req: "embed_request s args bo = Inr (model, inp, extra)"
  shows "\<exists>a. adv (\<lambda>q. list_ex (\<lambda>r. embed_sent s inp extra r q) (resolve_embed_routes model))
    (per_route s * length (resolve_embed_routes model)) (bo, [], w) (bo', a, w')"
  using assms(3)
proof (cases rule: embed_cases)
  case (refused e)
  with req show ?thesis by simp
next
  case (looped model2 inp2 extra2 x)
  then have same: "model2 = model" "inp2 = inp" "extra2 = extra" using req by simp_all
  let ?P = "\<lambda>q. list_ex (\<lambda>r. embed_sent s inp extra r q) (resolve_embed_routes model)"
  let ?n = "per_route s * length (resolve_embed_routes model)"
  have x: "adv ?P ?n (bo, [], w) (step_state x)"
    using embed_walk.walk_adv [OF assms(1,2)] looped(2) same by blast
  have ended: "\<exists>a. adv ?P ?n (bo, [], w) (bo', a, w')"
    if st: "step_state x = (bo1, a, w')" "finish_budget a bo1 = (bo', reason)"
    for bo1 a reason
    using x st(1) finish_budget_step [OF st(2)] by (auto simp: adv_def split: option.splits)
  show ?thesis
    using looped(3) x ended by (cases x) (auto split: prod.splits)
qed

lemma embed_served:
  assumes "net_ok w" "\<not> w_budgeted w" "embed s args bo w = (Ret (j, Some v), bo', w')"
    and req: "embed_request s args bo = Inr (model, inp, extra)" and "1 \<le> s_embed_max s"
  shows "\<exists>pre r fails rows. answered (embed_honest s inp extra) (resolve_embed_routes model) (bo = None)
      pre r fails rows (v_attempts v) j v \<and> v_attempts v = fails @ rows"
  using assms(3)
proof (cases rule: embed_cases)
  case (looped model2 inp2 extra2 x)
  then have same: "model2 = model" "inp2 = inp" "extra2 = extra" using req by simp_all
  have l: "loop_ok (embed_honest s inp extra) (resolve_embed_routes model) (bo, [], w) x"
    using embed_walk.walk_ok [OF assms(1,2) embed_request_valid [OF req assms(5)]] looped(2) same by blast
  show ?thesis
  proof (cases x)
    case (Served j2 v2 st)
    obtain bo1 a w1 where st: "st = (bo1, a, w1)" by (cases st)
    with looped(3) Served have eq: "j2 = j" "v2 = v" by auto
    from l Served st eq obtain pre r fails rows where
      *: "answered (embed_honest s inp extra) (resolve_embed_routes model) (bo = None) pre r fails rows a j v"
      "a = fails @ rows"
      by (auto simp: loop_ok_def)
    then have "v_attempts v = a" by (auto simp: answered_def embed_honest_def)
    with * show ?thesis by metis
  qed (use looped(3) in \<open>auto split: prod.splits\<close>)
qed simp

section \<open>The properties\<close>

text \<open>
  C5. Embeddings go to owned hardware only. Every request an embeddings call puts on the wire goes,
  with that route's payload and the endpoint and key frozen at the start of the call, to an armed
  sovereign provider the model resolves to, within the same bounds as for chat.
\<close>

theorem embed_sends_sovereign_only:
  assumes "net_ok w" "\<not> w_budgeted w" "embed s args bo w = (out, bo', w')"
    and "embed_request s args bo = Inr (model, inp, extra)"
  shows "\<exists>qs. w_wire w' = w_wire w @ qs
    \<and> list_all (\<lambda>q. list_ex (\<lambda>r. embed_sent s inp extra r q) (resolve_embed_routes model)) qs
    \<and> (case bo of
         None \<Rightarrow> length qs \<le> 2 * nat (s_retry_max s) * length (resolve_embed_routes model)
       | Some b \<Rightarrow> b_reserved b \<le> b_max b \<longrightarrow> length qs \<le> b_max b - b_reserved b)"
  using embed_adv [OF assms] adv_sends by (fastforce simp: per_route_def)

definition vector_reply :: json where
  "vector_reply = JObj [(''data'', JArr [JObj [(''index'', JInt 0), (''embedding'', JArr [JInt 1, JInt 2])]])]"

definition vector_sys :: sys where
  "vector_sys = \<lparr>s_env = (\<lambda>k. if k = ''OMEN_GPU_BASE_URL'' then Some ''http://omen''
       else if k = ''OMEN_GPU_TOKEN'' then Some ''t'' else None),
     s_loads = (\<lambda>_. Inr vector_reply), s_decode = Some, s_float = (\<lambda>_. None), s_frepr = (\<lambda>_. ''0.5''),
     s_time = (\<lambda>_. 0), s_unif = (\<lambda>_. 1),
     s_net = (\<lambda>_ _. WResp \<lparr>r_status = 200, r_reason = ''OK'', r_version = 11, r_headers = [], r_body = Inr []\<rparr>),
     s_retry_max = 3, s_retry_base = 1/4, s_retry_cap = 4, s_embed_ttl = 300, s_embed_max = 1024,
     s_scope_key = ''k''\<rparr>"

definition blank_world :: world where
  "blank_world = \<lparr>w_tick = 0, w_draws = 0, w_slept = [], w_wire = [], w_idle = [], w_next = 0, w_closed = [],
     w_budgeted = False, w_cool = [], w_ecache = [], w_sink = []\<rparr>"

definition vector_args :: embed_args where
  "vector_args = \<lparr>e_model = JStr ''omen_gpu:m'', e_input = JStr ''x'', e_timeout = JInt 60, e_extra = JNull,
     e_use_cache = False\<rparr>"

lemma blank_world_ok: "net_ok blank_world" "\<not> w_budgeted blank_world"
  by (simp_all add: net_ok_def pool_ok_def pool_origin_def idle_ids_def blank_world_def POOL_MAX_HOSTS_def)

lemma vector_request: "embed_request vector_sys vector_args None = Inr (''omen_gpu:m'', JStr ''x'', [])"
  by (simp add: embed_request_def vector_args_def timeout_error_def extra_error_def embedding_json_def)

lemma vector_served:
  "case embed vector_sys vector_args None blank_world of (out, bo, w) \<Rightarrow>
     length (w_wire w) = 1 \<and> (case out of Ret (j, Some v) \<Rightarrow> True | _ \<Rightarrow> False)"
  by code_simp

theorem embed_sends_sovereign_only_witness:
  "\<exists>qs. w_wire (snd (snd (embed vector_sys vector_args None blank_world))) = qs \<and> length qs = 1
    \<and> list_all (\<lambda>q. list_ex (\<lambda>r. embed_sent vector_sys (JStr ''x'') [] r q) (resolve_embed_routes ''omen_gpu:m'')) qs"
proof -
  obtain out bo w' where c: "embed vector_sys vector_args None blank_world = (out, bo, w')"
    by (metis prod_cases3)
  from embed_sends_sovereign_only [OF blank_world_ok c vector_request] vector_served c show ?thesis
    by (auto simp: blank_world_def)
qed

text \<open>
  A freshly served embeddings answer is honest and complete. Its provenance names an armed
  sovereign provider of one of the routes, with its own base URL; the upstream data has one vector
  for each input, with indices that cover the inputs exactly once and vectors of one size; and the
  trail lists failures on earlier routes and then the success.
\<close>

theorem embed_served_honest:
  assumes "net_ok w" "\<not> w_budgeted w" "embed s args bo w = (Ret (j, Some v), bo', w')"
    and "embed_request s args bo = Inr (model, inp, extra)" and "1 \<le> s_embed_max s"
  shows "\<exists>pre r post fails rows vecs sz. resolve_embed_routes model = pre @ r # post
    \<and> v_attempts v = fails @ rows \<and> all_lost pre fails \<and> won r rows
    \<and> embed_honest s inp extra r (v_attempts v) j v
    \<and> jget j ''data'' = JArr vecs \<and> length vecs = expected_count inp
    \<and> distinct (map row_index vecs) \<and> set (map row_index vecs) = {0..<int (expected_count inp)}
    \<and> list_all (\<lambda>x. row_size (embed_payload (snd r) inp extra) x = Some sz) vecs"
proof -
  obtain pre r fails rows where a: "answered (embed_honest s inp extra) (resolve_embed_routes model)
      (bo = None) pre r fails rows (v_attempts v) j v" "v_attempts v = fails @ rows"
    using embed_served [OF assms] by blast
  then obtain result where res: "embedding_response_error result (embed_payload (snd r) inp extra) = None"
    "j = JObj (dset ''x_szl_provenance'' (JObj (provenance_dict v)) (obj_items result))"
    by (auto simp: answered_def embed_honest_def)
  obtain d where "result = JObj d" using embedding_ok_object [OF res(1)] by blast
  with res(2) have data: "jget j ''data'' = jget result ''data''" by simp
  have inp: "jget (embed_payload (snd r) inp extra) ''input'' = inp"
    by (rule embed_payload_model(2) [OF embed_request_valid [OF assms(4,5)]])
  from embedding_ok [OF res(1)] obtain vecs sz where "jget result ''data'' = JArr vecs"
    "length vecs = expected_count inp" "distinct (map row_index vecs)"
    "set (map row_index vecs) = {0..<int (expected_count inp)}"
    "list_all (\<lambda>x. row_size (embed_payload (snd r) inp extra) x = Some sz) vecs"
    unfolding inp by blast
  with a data show ?thesis unfolding answered_def by metis
qed

theorem embed_served_honest_witness:
  "case fst (embed vector_sys vector_args None blank_world) of
     Ret (j, Some v) \<Rightarrow> (\<exists>vecs. jget j ''data'' = JArr vecs \<and> length vecs = 1) | _ \<Rightarrow> False"
proof -
  obtain out bo w' where c: "embed vector_sys vector_args None blank_world = (out, bo, w')"
    by (metis prod_cases3)
  with vector_served obtain j v where out: "out = Ret (j, Some v)"
    by (auto split: outcome.splits option.splits)
  have "1 \<le> s_embed_max vector_sys" by (simp add: vector_sys_def)
  from embed_served_honest [OF blank_world_ok c [unfolded out] vector_request this] c out show ?thesis
    by (auto simp: expected_count_def)
qed

text \<open>
  The cache returns what was put, while it is fresh. Storing under a key in a cache within its
  bound succeeds and keeps it there; a later lookup of that key in the same entries gives the stored
  value exactly if less than the time to live has passed; another key still holds what it held,
  unless the cache was full and that entry was the oldest.
\<close>

theorem cache_roundtrip:
  assumes "cache_ok s w" "1 \<le> s_embed_max s" "cache_put s k v w = (e, w1)" "w_ecache w2 = w_ecache w1"
  shows "e = None \<and> cache_ok s w1
    \<and> fst (cache_get s k w2)
        = (if s_time s (w_tick w2) - s_time s (w_tick w) < s_embed_ttl s then Some v else None)
    \<and> (\<forall>k'. k' \<noteq> k \<longrightarrow> dget (w_ecache w1) k' = dget (w_ecache w) k'
         \<or> (s_embed_max s = int (length (w_ecache w)) \<and> map_option fst (oldest (w_ecache w)) = Some k'))"
proof -
  note ok = cache_put_ok [OF assms(3,2,1)]
  have others: "dget (w_ecache w1) k' = dget (w_ecache w) k'
      \<or> (s_embed_max s = int (length (w_ecache w)) \<and> map_option fst (oldest (w_ecache w)) = Some k')"
    if "k' \<noteq> k" for k'
    using assms(3,2) by (rule cache_put_cases) (use that assms(1) in \<open>auto simp: cache_ok_def\<close>)
  show ?thesis
    using ok others assms(4) by (auto simp: cache_get_def read_time_def not_le)
qed

theorem cache_roundtrip_witness:
  "fst (cache_get vector_sys ''k'' (snd (cache_put vector_sys ''k'' JNull blank_world))) = Some JNull"
proof -
  obtain e w1 where p: "cache_put vector_sys ''k'' JNull blank_world = (e, w1)" by fastforce
  have "cache_ok vector_sys blank_world" "1 \<le> s_embed_max vector_sys"
    by (simp_all add: cache_ok_def blank_world_def vector_sys_def)
  from cache_roundtrip [OF this p refl] p show ?thesis by (simp add: vector_sys_def)
qed

text \<open>
  A hit dispatches nothing. If the first route's provider is armed and sovereign and the cache
  holds a fresh entry for the call's key, the call returns that entry: its vectors unchanged,
  nothing on the wire, no attempt of the budget used, and the answer marked as coming from the
  cache.
\<close>

theorem cache_hit_is_silent:
  assumes "embed_request s args bo = Inr (model, inp, extra)" "resolve_embed_routes model = r # rs"
    and "dget PROVIDERS (fst r) = Some p" "available (s_env s) p" "p_sovereign p"
    and "e_use_cache args" "\<not> terminal_now bo"
    and "embed_cache_key s model (embed_payload (snd r) inp extra) (capture (s_env s) p)
           (env_get (s_env s) ''SZL_EMBED_CACHE_NAMESPACE'' [])
           (strip (env_get (s_env s) ''SZL_ROUTER_TOKEN'' [])) (fst r) = Inr k"
    and "dget (w_ecache w) k = Some (ts, JObj d)" "s_time s (w_tick w) - ts < s_embed_ttl s"
  shows "\<exists>out w'. embed s args bo w = (Ret (out, None), bo, w') \<and> w_wire w' = w_wire w
    \<and> jget out ''data'' = jget (JObj d) ''data''
    \<and> jget (jget out ''x_szl_cache'') ''hit'' = JBool True"
proof -
  have g: "cache_get s k w = (Some (JObj d), w\<lparr>w_tick := Suc (w_tick w)\<rparr>)"
    using assms(9,10) by (simp add: cache_get_def read_time_def)
  have "embed s args bo w = (Ret (as_cache_hit s (JObj d) [], None), bo, w\<lparr>w_tick := Suc (w_tick w)\<rparr>)"
    using assms(1-8) g
    by (simp add: embed_def embed_route_def frozen_available_capture Let_def)
  moreover have "jget (as_cache_hit s (JObj d) []) ''data'' = jget (JObj d) ''data''"
    "jget (jget (as_cache_hit s (JObj d) []) ''x_szl_cache'') ''hit'' = JBool True"
    by (simp_all add: as_cache_hit_def Let_def dget_or_null_def)
  ultimately show ?thesis by auto
qed

theorem cache_hit_is_silent_witness:
  "\<exists>w out w'. embed vector_sys (vector_args\<lparr>e_use_cache := True\<rparr>) None w = (Ret (out, None), None, w')
     \<and> w_wire w' = [] \<and> jget (jget out ''x_szl_cache'') ''hit'' = JBool True"
proof -
  let ?args = "vector_args\<lparr>e_use_cache := True\<rparr>"
  have req: "embed_request vector_sys ?args None = Inr (''omen_gpu:m'', JStr ''x'', [])"
    by (simp add: embed_request_def vector_args_def timeout_error_def extra_error_def embedding_json_def)
  have routes: "resolve_embed_routes ''omen_gpu:m'' = [(''omen_gpu'', ''m'')]" by code_simp
  obtain p where p: "dget PROVIDERS ''omen_gpu'' = Some p" "available (s_env vector_sys) p" "p_sovereign p"
  proof -
    have "case dget PROVIDERS ''omen_gpu'' of None \<Rightarrow> False
        | Some p \<Rightarrow> available (s_env vector_sys) p \<and> p_sovereign p"
      by code_simp
    with that show thesis by (auto split: option.splits)
  qed
  have "json_finite (embed_payload ''m'' (JStr ''x'') [])" by (simp add: embed_payload_def dupdate_def)
  from embed_cache_key_total [OF this] obtain k where
    k: "embed_cache_key vector_sys ''omen_gpu:m'' (embed_payload ''m'' (JStr ''x'') []) (capture (s_env vector_sys) p)
          (env_get (s_env vector_sys) ''SZL_EMBED_CACHE_NAMESPACE'' [])
          (strip (env_get (s_env vector_sys) ''SZL_ROUTER_TOKEN'' [])) ''omen_gpu'' = Inr k" by blast
  let ?w = "blank_world\<lparr>w_ecache := [(k, 0, JObj [])]\<rparr>"
  have "\<exists>out w'. embed vector_sys ?args None ?w = (Ret (out, None), None, w') \<and> w_wire w' = w_wire ?w
      \<and> jget out ''data'' = jget (JObj []) ''data'' \<and> jget (jget out ''x_szl_cache'') ''hit'' = JBool True"
    by (rule cache_hit_is_silent [where p = p and k = k and ts = 0, OF req routes])
      (use p k in \<open>simp_all add: terminal_now_def vector_sys_def\<close>)
  then show ?thesis by (auto simp: blank_world_def)
qed

text \<open>
  A zero cache limit turns good answers into errors. With \<open>SZL_EMBED_CACHE_MAX\<close> at 0 or less and
  nothing cached, every upstream answer that passes validation and is to be cached is thrown away:
  the eviction looks for the oldest of no entries, and the turn ends the call with \<open>ValueError\<close>,
  with the budget already marked as successful and nothing stored.
\<close>

theorem zero_cache_limit_fails:
  assumes "s_embed_max s \<le> 0" "w_ecache w = []" "embedding_response_error result payload = None"
    and "bo \<noteq> None \<longrightarrow> a \<noteq> []"
  shows "\<exists>a' w'. embed_answer s r p payload (Some k) result t0 (bo, a, w)
      = Fail (ValueError ''min() arg is an empty sequence'') (map_option mark_success bo, a', w')
    \<and> w_ecache w' = []"
proof -
  obtain dt w1 where el: "elapsed s t0 w = (dt, w1)" by fastforce
  then have "w_ecache w1 = []"
    using assms(2) by (auto simp: elapsed_def latency_ms_def read_time_def split: prod.splits)
  then have put: "cache_put s k out w1 = (Some (ValueError ''min() arg is an empty sequence''), w1\<lparr>w_tick := Suc (w_tick w1)\<rparr>)"
    for out using assms(1) by (simp add: cache_put_def read_time_def)
  have "\<not> (bo \<noteq> None \<and> a = [])" using assms(4) by blast
  with el assms(3) put \<open>w_ecache w1 = []\<close> show ?thesis
    by (simp add: embed_answer_def Let_def)
qed

theorem zero_cache_limit_fails_witness:
  "\<exists>a' w'. embed_answer (vector_sys\<lparr>s_embed_max := 0\<rparr>) (''omen_gpu'', ''m'') p (JObj [(''input'', JStr ''x'')]) (Some ''k'')
      vector_reply 0 (None, [], blank_world) = Fail (ValueError ''min() arg is an empty sequence'') (None, a', w')"
proof -
  have "embedding_response_error vector_reply (JObj [(''input'', JStr ''x'')]) = None" by code_simp
  from zero_cache_limit_fails [OF _ _ this, of "vector_sys\<lparr>s_embed_max := 0\<rparr>" blank_world None "[]" "(''omen_gpu'', ''m'')" p "''k''" 0]
  show ?thesis by (auto simp: blank_world_def)
qed

end
