(* ===== verification/Mesh.thy ===== *)
theory Mesh
  imports Retry Scoring "HOL-Library.Product_Lexorder"
begin

text \<open>
  The mesh coordinator of \<open>szl_router/mesh_coordinator.py\<close>: the workers and their registry from the
  environment, the reachability sweep, the least-connections pick, and \<open>MeshCoordinator.proxy\<close> with
  the provenance it injects.

  A worker is referred to by its place (\<open>Node i\<close> in \<open>self.workers\<close>, \<open>Cloud\<close> for the failover), as
  the code shares the mutable objects; the order of candidates carries the fields of a worker that
  never change. The fabric probe, TCP connects and the upstream exchange are parameters, a function
  of how many were made so far. Header strings are compared as the source does, case and all.

  The lemmas show which workers a request can reach, the order of the candidates, that the load
  counters balance, and where the round-robin does not rotate.
\<close>

section \<open>Workers\<close>

record worker =
  wk_name :: string
  wk_base :: string
  wk_sovereign :: bool
  wk_kind :: string
  wk_energy :: string
  wk_model :: string
  wk_role :: string
  wk_joules :: string
  wk_inflight :: int
  wk_reachable :: bool
  wk_detail :: string

definition new_worker ::
  "string \<Rightarrow> string \<Rightarrow> bool \<Rightarrow> string \<Rightarrow> string \<Rightarrow> string \<Rightarrow> string \<Rightarrow> string \<Rightarrow> worker" where
  "new_worker name base sovereign kind energy model role joules =
     \<lparr>wk_name = name, wk_base = base, wk_sovereign = sovereign, wk_kind = kind, wk_energy = energy,
      wk_model = model, wk_role = role, wk_joules = joules,
      wk_inflight = 0, wk_reachable = False, wk_detail = []\<rparr>"

text \<open>\<open>Worker.host_port_path\<close>: host, port, whether TLS, path prefix. Splitting the URL can raise.\<close>

definition host_port_path :: "worker \<Rightarrow> exn + string \<times> nat \<times> bool \<times> string" where
  "host_port_path w =
     bindE (urlsplit (wk_base w)) (\<lambda>u.
       let https = (u_scheme u = ''https'');
           host = (case u_hostname u of None \<Rightarrow> [] | Some h \<Rightarrow> h);
           fallback = (if https then 443 else 80)
       in bindE (u_port u) (\<lambda>p.
         Inr (host, (case p of None \<Rightarrow> fallback | Some n \<Rightarrow> if n = 0 then fallback else n),
              https, rstrip_by (\<lambda>c. c = CHR ''/'') (u_path u))))"

definition mesh_normalize_base :: "string \<Rightarrow> string" where
  "mesh_normalize_base url =
     (let u = rstrip_by (\<lambda>c. c = CHR ''/'') (strip url)
      in if u = [] then []
         else if CHR ''/'' \<notin> set (after_scheme u) then u @ ''/v1''
         else u)"

definition build_workers :: "env \<Rightarrow> worker list" where
  "build_workers e =
     concat (map (\<lambda>(name, var, sovereign, kind, model, role, joules).
         let base = mesh_normalize_base (strip (env_get e var []))
         in if base = [] then []
            else [new_worker name base sovereign kind (if sovereign then ''self-hosted'' else ''grid'')
                    model role joules])
       [(''laptop'', ''SZL_MESH_LAPTOP_BASE_URL'', True, ''sovereign-gpu'',
           env_get e ''SZL_MESH_LAPTOP_GEN_MODEL'' ''llama3.1:8b'', ''szl-fast'', ''MEASURED''),
        (''omen'', ''SZL_MESH_OMEN_BASE_URL'', True, ''sovereign-gpu'',
           env_get e ''SZL_MESH_OMEN_GEN_MODEL'' ''llama3.1:8b'', ''szl-fast'', ''MEASURED''),
        (''chaski'', ''SZL_MESH_CHASKI_BASE_URL'', False, ''tailnet-gpu'',
           env_get e ''SZL_MESH_CHASKI_GEN_MODEL'' ''qwen2.5:32b'', ''szl-large'', ''PENDING_EXPORTER'')])"

definition build_failover :: "env \<Rightarrow> worker option" where
  "build_failover e =
     (let v = strip (env_get e ''SZL_MESH_FAILOVER_BASE_URL'' []);
          base = mesh_normalize_base (if v \<noteq> [] then v else ''https://integrate.api.nvidia.com/v1'')
      in if base = [] then None
         else Some (new_worker ''nvidia-nim'' base False ''hosted-inference'' ''grid'' [] [] []))"

text \<open>\<open>c.isalnum()\<close> and \<open>c.upper()\<close> on the characters below 256 whose image is below 256.\<close>

definition py_alnum :: "char \<Rightarrow> bool" where
  "py_alnum c = (ascii_alnum c \<or> (let n = (of_char c :: nat) in
     n \<in> {170, 178, 179, 181, 185, 186, 188, 189, 190} \<or> (192 \<le> n \<and> n \<noteq> 215 \<and> n \<noteq> 247)))"

definition upper_char :: "char \<Rightarrow> string" where
  "upper_char c = (let n = (of_char c :: nat) in
     if (97 \<le> n \<and> n \<le> 122) \<or> (224 \<le> n \<and> n \<le> 254 \<and> n \<noteq> 247) then [char_of (n - 32)]
     else if n = 223 then ''SS'' else [c])"

definition worker_key :: "env \<Rightarrow> worker \<Rightarrow> string option" where
  "worker_key e w =
     (let var = ''SZL_MESH_'' @ concat (map (\<lambda>c. if py_alnum c then upper_char c else ''_'') (wk_name w)) @ ''_TOKEN'';
          v = strip (env_get e var [])
      in if v = [] then None else Some v)"

section \<open>The coordinator's state\<close>

record mesh_req =
  mq_tls :: bool
  mq_host :: string
  mq_port :: nat
  mq_method :: string
  mq_path :: string
  mq_body :: "string option"
  mq_headers :: "string dict"

record mesh_resp =
  mr_status :: int
  mr_headers :: "string dict"
  mr_body :: string

record mesh_sys =
  ms_sys :: sys
  ms_loads_str :: "string \<Rightarrow> exn + json"           \<comment> \<open>\<open>json.loads\<close> of a \<open>str\<close>\<close>
  ms_replace :: "string \<Rightarrow> string"                 \<comment> \<open>\<open>decode("utf-8", "replace")\<close>\<close>
  ms_mono :: "nat \<Rightarrow> rat"                          \<comment> \<open>\<open>time.monotonic()\<close>\<close>
  ms_fabric :: "nat \<Rightarrow> jdict option"               \<comment> \<open>\<open>_probe_fabric_pool_external\<close>\<close>
  ms_tcp :: "nat \<Rightarrow> string \<Rightarrow> nat \<Rightarrow> bool \<times> string"  \<comment> \<open>\<open>_tcp_reachable\<close>\<close>
  ms_http :: "nat \<Rightarrow> mesh_req \<Rightarrow> exn + mesh_resp"   \<comment> \<open>\<open>request\<close>, \<open>getresponse\<close> and \<open>read\<close>\<close>
  ms_ttl :: rat                                    \<comment> \<open>\<open>probe_ttl\<close>\<close>

record mesh =
  m_workers :: "worker list"
  m_failover :: "worker option"
  m_rr :: nat
  m_probed :: rat                \<comment> \<open>\<open>_probe_cache_ts\<close>\<close>
  m_source :: string
  m_ticks :: nat                 \<comment> \<open>readings of \<open>time.time()\<close>\<close>
  m_monos :: nat                 \<comment> \<open>readings of \<open>time.monotonic()\<close>\<close>
  m_probes :: nat
  m_wire :: "(string \<times> mesh_req) list"  \<comment> \<open>requests sent, with the worker they went to\<close>

datatype wref = Node nat | Cloud

definition upd_worker :: "wref \<Rightarrow> (worker \<Rightarrow> worker) \<Rightarrow> mesh \<Rightarrow> mesh" where
  "upd_worker r f m = (case r of
     Node i \<Rightarrow> if i < length (m_workers m) then m\<lparr>m_workers := (m_workers m)[i := f (m_workers m ! i)]\<rparr> else m
   | Cloud \<Rightarrow> m\<lparr>m_failover := map_option f (m_failover m)\<rparr>)"

definition mesh_time :: "mesh_sys \<Rightarrow> mesh \<Rightarrow> rat \<times> mesh" where
  "mesh_time s m = (s_time (ms_sys s) (m_ticks m), m\<lparr>m_ticks := Suc (m_ticks m)\<rparr>)"

text \<open>\<open>MeshCoordinator(workers, failover)\<close>\<close>

definition new_mesh :: "worker list \<Rightarrow> worker option \<Rightarrow> mesh" where
  "new_mesh ws f = \<lparr>m_workers = ws, m_failover = f, m_rr = 0, m_probed = 0, m_source = ''none'',
     m_ticks = 0, m_monos = 0, m_probes = 0, m_wire = []\<rparr>"

section \<open>Reachability\<close>

text \<open>The endpoints the fabric probe reports, keyed by normalised base URL; later nodes overwrite.\<close>

fun fabric_nodes :: "(rat \<Rightarrow> string) \<Rightarrow> json list \<Rightarrow> (bool \<times> string) dict \<Rightarrow> exn + (bool \<times> string) dict" where
  "fabric_nodes fr [] d = Inr d"
| "fabric_nodes fr (n # ns) d =
     (if \<not> is_obj n then Inl (PyError ''AttributeError'' ''object has no attribute get'')
      else let text = (\<lambda>v. if truthy v then py_str fr v else []);
               ep = mesh_normalize_base (text (jget n ''endpoint''))
           in fabric_nodes fr ns (dset ep (truthy (jget n ''reachable''), text (jget n ''detail'')) d))"

text \<open>What one sweep sets on one worker.\<close>

definition probe_worker ::
  "mesh_sys \<Rightarrow> (bool \<times> string) dict \<Rightarrow> nat \<Rightarrow> worker \<Rightarrow> exn + worker \<times> nat" where
  "probe_worker s ext n w =
     (case dget ext (mesh_normalize_base (wk_base w)) of
        Some (r, d) \<Rightarrow> Inr (w\<lparr>wk_reachable := r, wk_detail := d\<rparr>, n)
      | None \<Rightarrow>
          bindE (host_port_path w) (\<lambda>(host, port, _, _).
            if host \<noteq> []
            then let (r, d) = ms_tcp s n host port in Inr (w\<lparr>wk_reachable := r, wk_detail := d\<rparr>, Suc n)
            else Inr (w\<lparr>wk_reachable := False, wk_detail := ''no host in base_url''\<rparr>, n)))"

text \<open>The workers in turn; an exception leaves the workers before it updated.\<close>

fun probe_workers ::
  "mesh_sys \<Rightarrow> (bool \<times> string) dict \<Rightarrow> nat \<Rightarrow> worker list \<Rightarrow> exn option \<times> worker list \<times> nat" where
  "probe_workers s ext n [] = (None, [], n)"
| "probe_workers s ext n (w # ws) =
     (case probe_worker s ext n w of
        Inl e \<Rightarrow> (Some e, w # ws, n)
      | Inr (w', n') \<Rightarrow> (let (e, ws', n'') = probe_workers s ext n' ws in (e, w' # ws', n'')))"

definition sweep :: "mesh_sys \<Rightarrow> (bool \<times> string) dict \<Rightarrow> mesh \<Rightarrow> exn option \<times> mesh" where
  "sweep s ext m =
     (let (e, ws, n) = probe_workers s ext (m_probes m) (m_workers m);
          m1 = m\<lparr>m_workers := ws, m_probes := n\<rparr>
      in case e of
           Some x \<Rightarrow> (Some x, m1)
         | None \<Rightarrow>
             (case m_failover m1 of
                None \<Rightarrow> (None, m1)
              | Some f \<Rightarrow>
                  (case probe_worker s ext n f of
                     Inl x \<Rightarrow> (Some x, m1)
                   | Inr (f', n') \<Rightarrow> (None, m1\<lparr>m_failover := Some f', m_probes := n'\<rparr>))))"

definition refresh_reachability :: "mesh_sys \<Rightarrow> bool \<Rightarrow> mesh \<Rightarrow> exn option \<times> mesh" where
  "refresh_reachability s force m0 =
     (let now = ms_mono s (m_monos m0);
          m = m0\<lparr>m_monos := Suc (m_monos m0)\<rparr>
      in if \<not> force \<and> now - m_probed m < ms_ttl s then (None, m)
         else
           let payload = ms_fabric s (m_probes m);
               m1 = m\<lparr>m_probes := Suc (m_probes m)\<rparr>;
               nodes = (case payload of
                   None \<Rightarrow> None
                 | Some d \<Rightarrow> (case dget_or_null d ''nodes'' of JArr ns \<Rightarrow> Some ns | _ \<Rightarrow> None))
           in case (case nodes of None \<Rightarrow> Inr [] | Some ns \<Rightarrow> fabric_nodes (s_frepr (ms_sys s)) ns []) of
                Inl e \<Rightarrow> (Some e, m1)
              | Inr ext \<Rightarrow>
                  (case sweep s ext m1 of
                     (Some e, m2) \<Rightarrow> (Some e, m2)
                   | (None, m2) \<Rightarrow>
                       (None, m2\<lparr>m_probed := now,
                                 m_source := if nodes = None then ''tcp'' else ''probe_fabric_pool''\<rparr>)))"

section \<open>The pick\<close>

definition node_refs :: "mesh \<Rightarrow> (wref \<times> worker) list" where
  "node_refs m = zip (map Node [0..<length (m_workers m)]) (m_workers m)"

definition reachable_sovereign :: "mesh \<Rightarrow> (wref \<times> worker) list" where
  "reachable_sovereign m = filter (\<lambda>(r, w). wk_sovereign w \<and> wk_reachable w) (node_refs m)"

definition reachable_tailnet :: "mesh \<Rightarrow> (wref \<times> worker) list" where
  "reachable_tailnet m =
     filter (\<lambda>(r, w). \<not> wk_sovereign w \<and> wk_reachable w \<and> wk_kind w = ''tailnet-gpu'') (node_refs m)"

text \<open>\<open>self.workers.index(w)\<close>: the first worker equal to \<open>w\<close>, field by field.\<close>

definition worker_index :: "worker list \<Rightarrow> worker \<Rightarrow> nat" where
  "worker_index ws w = (case index_of ((=) w) ws of None \<Rightarrow> 0 | Some i \<Rightarrow> i)"

definition load_key :: "worker list \<Rightarrow> nat \<Rightarrow> nat \<Rightarrow> wref \<times> worker \<Rightarrow> int \<times> nat" where
  "load_key ws rr n c = (wk_inflight (snd c), (worker_index ws (snd c) + rr) mod max n 1)"

definition least_loaded :: "mesh \<Rightarrow> (wref \<times> worker) list \<Rightarrow> (wref \<times> worker) list" where
  "least_loaded m cs = sort_key (load_key (m_workers m) (m_rr m) (length cs)) cs"

definition pick_order :: "mesh \<Rightarrow> (wref \<times> worker) list \<times> string \<times> mesh" where
  "pick_order m =
     (let live = reachable_sovereign m; tail = reachable_tailnet m; m' = m\<lparr>m_rr := Suc (m_rr m)\<rparr>
      in if live \<noteq> [] then
           (least_loaded m' live, if 2 \<le> length live then ''mesh-live'' else ''mesh-degraded'', m')
         else if tail \<noteq> [] then (least_loaded m' tail, ''mesh-tailnet'', m')
         else case m_failover m of
                Some f \<Rightarrow> (if wk_reachable f then [(Cloud, f)] else [], ''hf-failover'', m)
              | None \<Rightarrow> ([], ''hf-failover'', m))"

section \<open>The proxy\<close>

record mesh_attempt =
  ma_worker :: string
  ma_base :: string
  ma_ok :: bool
  ma_status :: "int option"
  ma_error :: "string option"
  ma_latency :: int

definition mesh_attempt_json :: "mesh_attempt \<Rightarrow> json" where
  "mesh_attempt_json a = JObj [
     (''worker'', JStr (ma_worker a)), (''base_url'', JStr (ma_base a)), (''ok'', JBool (ma_ok a)),
     (''status'', opt_int (ma_status a)), (''error'', opt_str (ma_error a)),
     (''latency_ms'', JInt (ma_latency a))]"

definition HOP_BY_HOP :: "string list" where
  "HOP_BY_HOP = [''connection'', ''keep-alive'', ''proxy-authenticate'', ''proxy-authorization'',
     ''te'', ''trailers'', ''transfer-encoding'', ''upgrade'', ''content-length'']"

text \<open>A dictionary of the headers that pass, as \<open>{k: v for ...}\<close> builds it, then \<open>Host\<close> and the key.\<close>

definition upstream_request_headers ::
  "env \<Rightarrow> bool \<Rightarrow> worker \<Rightarrow> string \<Rightarrow> nat \<Rightarrow> string dict \<Rightarrow> string dict" where
  "upstream_request_headers e inject w host port hs =
     (let kept = filter (\<lambda>(k, v). lower k \<notin> set HOP_BY_HOP \<and> lower k \<noteq> ''host'') hs;
          named = dset ''Host'' (host @ '':'' @ show_nat port) kept
      in case (if inject then worker_key e w else None) of
           None \<Rightarrow> named
         | Some key \<Rightarrow> dset ''Authorization'' (''Bearer '' @ key) named)"

definition inject_provenance ::
  "mesh_sys \<Rightarrow> string \<Rightarrow> worker \<Rightarrow> string \<Rightarrow> mesh_attempt list \<Rightarrow> string" where
  "inject_provenance s raw w tier attempts =
     (case s_decode (ms_sys s) raw of
        None \<Rightarrow> raw
      | Some t \<Rightarrow>
         (case ms_loads_str s t of
            Inr (JObj d) \<Rightarrow>
              utf8 (dumps (default_opts (s_frepr (ms_sys s))) (JObj (dset ''x_szl_provenance'' (JObj [
                (''served_by'', JStr (wk_name w)), (''base_url'', JStr (wk_base w)),
                (''sovereign'', JBool (wk_sovereign w)), (''energy_source'', JStr (wk_energy w)),
                (''serve_tier'', JStr tier), (''node_gen_model'', or_null (wk_model w)),
                (''serve_role'', or_null (wk_role w)), (''joule_label_hint'', or_null (wk_joules w)),
                (''placement'', JStr ''horizontal-load-balance (separate worker; VRAM not fused)''),
                (''attempts'', JArr (map mesh_attempt_json attempts))]) d)))
          | _ \<Rightarrow> raw))"

datatype mesh_out =
    Proxied int "string dict" string "mesh_attempt list"
  | CoordinatorError string "mesh_attempt list"
  | Crashed exn

text \<open>The request a worker is sent; its URL may not parse.\<close>

definition worker_request ::
  "mesh_sys \<Rightarrow> string \<Rightarrow> string \<Rightarrow> string option \<Rightarrow> string dict \<Rightarrow> bool \<Rightarrow> worker \<Rightarrow> exn + mesh_req" where
  "worker_request s meth sub body hs inject w =
     bindE (host_port_path w) (\<lambda>(host, port, https, prefix).
       Inr \<lparr>mq_tls = https, mq_host = host, mq_port = port, mq_method = meth, mq_path = prefix @ sub,
            mq_body = body,
            mq_headers = upstream_request_headers (s_env (ms_sys s)) inject w host port hs\<rparr>)"

definition enter :: "wref \<Rightarrow> mesh \<Rightarrow> mesh" where
  "enter r = upd_worker r (\<lambda>w. w\<lparr>wk_inflight := wk_inflight w + 1\<rparr>)"

definition leave :: "wref \<Rightarrow> mesh \<Rightarrow> mesh" where
  "leave r = upd_worker r (\<lambda>w. w\<lparr>wk_inflight := wk_inflight w - 1\<rparr>)"

definition attempt_row :: "worker \<Rightarrow> bool \<Rightarrow> int option \<Rightarrow> string option \<Rightarrow> rat \<Rightarrow> mesh_attempt" where
  "attempt_row w ok st er dt = \<lparr>ma_worker = wk_name w, ma_base = wk_base w, ma_ok = ok,
     ma_status = st, ma_error = er, ma_latency = py_trunc (dt * 1000)\<rparr>"

definition served_headers :: "worker \<Rightarrow> string \<Rightarrow> string dict \<Rightarrow> string dict" where
  "served_headers w tier hs =
     dset ''x-szl-sovereign'' (if wk_sovereign w then ''true'' else ''false'')
       (dset ''x-szl-served-by'' (wk_name w)
         (dset ''x-szl-serve-tier'' tier
           (dupdate [] (filter (\<lambda>(k, v). lower k \<notin> set HOP_BY_HOP) hs))))"

text \<open>One worker: \<open>Inl\<close> the attempts to go on with, \<open>Inr\<close> the end of the call.\<close>

definition try_worker ::
  "mesh_sys \<Rightarrow> string \<Rightarrow> string \<Rightarrow> string \<Rightarrow> string option \<Rightarrow> string dict \<Rightarrow> bool \<Rightarrow> wref \<times> worker
     \<Rightarrow> mesh_attempt list \<Rightarrow> mesh \<Rightarrow> (mesh_attempt list + mesh_out) \<times> mesh" where
  "try_worker s tier meth sub body hs inject c attempts m0 =
     (let (r, w) = c in
      case worker_request s meth sub body hs inject w of
        Inl e \<Rightarrow> (Inr (Crashed e), m0)
      | Inr q \<Rightarrow>
          let (t0, m1) = mesh_time s (enter r m0);
              res = ms_http s (length (m_wire m1)) q;
              (t1, m2) = mesh_time s (m1\<lparr>m_wire := m_wire m1 @ [(wk_name w, q)]\<rparr>);
              m3 = leave r m2
          in case res of
               Inl e \<Rightarrow>
                 (Inl (attempts @ [attempt_row w False None (Some (exn_class e @ '': '' @ exn_str e)) (t1 - t0)]), m3)
             | Inr p \<Rightarrow>
                 if 500 \<le> mr_status p
                 then (Inl (attempts @ [attempt_row w False (Some (mr_status p))
                              (Some (ms_replace s (take 200 (mr_body p)))) (t1 - t0)]), m3)
                 else
                   let trail = attempts @ [attempt_row w True (Some (mr_status p)) None (t1 - t0)]
                   in (Inr (Proxied (mr_status p) (served_headers w tier (mr_headers p))
                              (inject_provenance s (mr_body p) w tier trail) trail), m3))"

fun proxy_loop ::
  "mesh_sys \<Rightarrow> string \<Rightarrow> string \<Rightarrow> string \<Rightarrow> string option \<Rightarrow> string dict \<Rightarrow> bool \<Rightarrow> (wref \<times> worker) list
     \<Rightarrow> mesh_attempt list \<Rightarrow> mesh \<Rightarrow> mesh_out \<times> mesh" where
  "proxy_loop s tier meth sub body hs inject [] attempts m =
     (CoordinatorError ''all reachable workers failed'' attempts, m)"
| "proxy_loop s tier meth sub body hs inject (c # cs) attempts m =
     (case try_worker s tier meth sub body hs inject c attempts m of
        (Inl attempts', m') \<Rightarrow> proxy_loop s tier meth sub body hs inject cs attempts' m'
      | (Inr out, m') \<Rightarrow> (out, m'))"

definition proxy ::
  "mesh_sys \<Rightarrow> string \<Rightarrow> string \<Rightarrow> string option \<Rightarrow> string dict \<Rightarrow> bool \<Rightarrow> mesh \<Rightarrow> mesh_out \<times> mesh" where
  "proxy s meth sub body hs inject m =
     (case refresh_reachability s False m of
        (Some e, m1) \<Rightarrow> (Crashed e, m1)
      | (None, m1) \<Rightarrow>
          let (order, tier, m2) = pick_order m1
          in if order = []
             then (CoordinatorError ''no reachable worker (sovereign mesh down and no cloud failover armed)'' [], m2)
             else proxy_loop s tier meth sub body hs inject order [] m2)"

definition mesh_status :: "mesh_sys \<Rightarrow> mesh \<Rightarrow> (exn + json) \<times> mesh" where
  "mesh_status s m =
     (case refresh_reachability s True m of
        (Some e, m1) \<Rightarrow> (Inl e, m1)
      | (None, m1) \<Rightarrow>
          let (order, tier, m2) = pick_order m1 in (Inr (JObj [
            (''service'', JStr ''szl-mesh-coordinator''),
            (''kind'', JStr ''horizontal-placement-load-balance''),
            (''probe_source'', JStr (m_source m2)),
            (''serve_tier_if_request_now'', JStr tier),
            (''workers'', JArr (map (\<lambda>w. JObj [
               (''name'', JStr (wk_name w)), (''base_url'', JStr (wk_base w)),
               (''sovereign'', JBool (wk_sovereign w)), (''kind'', JStr (wk_kind w)),
               (''energy_source'', JStr (wk_energy w)), (''gen_model'', or_null (wk_model w)),
               (''serve_role'', or_null (wk_role w)), (''joule_label_hint'', or_null (wk_joules w)),
               (''reachable'', JBool (wk_reachable w)), (''inflight'', JInt (wk_inflight w)),
               (''detail'', JStr (wk_detail w))]) (m_workers m2))),
            (''failover'', (case m_failover m2 of None \<Rightarrow> JNull | Some f \<Rightarrow> JObj [
               (''name'', JStr (wk_name f)), (''base_url'', JStr (wk_base f)),
               (''sovereign'', JBool (wk_sovereign f)), (''reachable'', JBool (wk_reachable f))])),
            (''next_pick'', (case order of [] \<Rightarrow> JNull | c # _ \<Rightarrow> JStr (wk_name (snd c)))),
            (''doctrine'', JStr (''least-connections across SEPARATE reachable sovereign workers ''
               @ ''(round-robin tie-break) + cloud failover; reachable=real probe only; ''
               @ ''sovereign=owned metal passed through, never inferred; VRAM NEVER fused; ''
               @ ''fail loud (502 + attempts), never fabricate, never claim a down node served.''))]), m2))"

section \<open>What the sweep and the pick do\<close>

text \<open>The part of a worker that a sweep leaves alone, load included.\<close>

definition fixed_part :: "worker \<Rightarrow> worker" where
  "fixed_part w = w\<lparr>wk_reachable := False, wk_detail := []\<rparr>"

lemma probe_worker_fixed: "probe_worker s ext n w = Inr (w', n') \<Longrightarrow> fixed_part w' = fixed_part w"
  by (auto simp: probe_worker_def fixed_part_def bindE_Inr_iff split: option.splits prod.splits if_splits)

lemma probe_workers_fixed:
  "probe_workers s ext n ws = (e, ws', n') \<Longrightarrow> map fixed_part ws' = map fixed_part ws"
proof (induction ws arbitrary: e ws' n' n)
  case (Cons w ws)
  then show ?case
    by (auto split: sum.splits prod.splits dest: probe_worker_fixed)
qed simp

definition only_probed :: "mesh \<Rightarrow> mesh \<Rightarrow> bool" where
  "only_probed m m' \<longleftrightarrow> map fixed_part (m_workers m') = map fixed_part (m_workers m)
    \<and> map_option fixed_part (m_failover m') = map_option fixed_part (m_failover m)
    \<and> m_wire m' = m_wire m \<and> m_rr m' = m_rr m \<and> m_ticks m' = m_ticks m"

lemma sweep_fixed:
  assumes "sweep s ext m = (e, m')"
  shows "only_probed m m'"
proof -
  obtain x ws n where p: "probe_workers s ext (m_probes m) (m_workers m) = (x, ws, n)"
    by (metis prod_cases3)
  from probe_workers_fixed [OF p] show ?thesis
    using assms by (auto simp: only_probed_def sweep_def p Let_def split: option.splits sum.splits
        dest: probe_worker_fixed)
qed

lemma refresh_fixed:
  assumes "refresh_reachability s force m = (e, m')"
  shows "only_probed m m'"
proof -
  have *: "only_probed m (m\<lparr>m_monos := a, m_probes := b\<rparr>)" "only_probed m (m\<lparr>m_monos := a\<rparr>)" for a b
    by (simp_all add: only_probed_def)
  have **: "only_probed m m2" if "sweep s ext (m\<lparr>m_monos := a, m_probes := b\<rparr>) = (x, m2)" for ext a b x m2
    using sweep_fixed [OF that] by (simp add: only_probed_def)
  have ***: "only_probed m m2 \<Longrightarrow> only_probed m (m2\<lparr>m_probed := t, m_source := u\<rparr>)" for m2 t u
    by (simp add: only_probed_def)
  show ?thesis
    using assms unfolding refresh_reachability_def Let_def
    by (auto split: if_splits sum.splits prod.splits option.splits dest: ** intro: * ***)
qed

lemma pick_order_frame:
  "pick_order m = (order, tier, m') \<Longrightarrow> m_workers m' = m_workers m \<and> m_failover m' = m_failover m
     \<and> m_wire m' = m_wire m"
  by (auto simp: pick_order_def Let_def split: if_splits option.splits)

lemma node_refs_iff: "(r, w) \<in> set (node_refs m) \<longleftrightarrow> (\<exists>i < length (m_workers m). r = Node i \<and> w = m_workers m ! i)"
  by (fastforce simp: node_refs_def in_set_conv_nth)

lemma set_least_loaded [simp]: "set (least_loaded m cs) = set cs"
  by (simp add: least_loaded_def)

lemma mset_least_loaded [simp]: "mset (least_loaded m cs) = mset cs"
  by (simp add: least_loaded_def)

lemma least_loaded_sorted: "sorted (map (load_key (m_workers m) (m_rr m) (length cs)) (least_loaded m cs))"
  by (simp add: least_loaded_def)

lemma least_loaded_inflight: "sorted (map (wk_inflight \<circ> snd) (least_loaded m cs))"
proof -
  have "sorted (map fst (map (load_key (m_workers m) (m_rr m) (length cs)) (least_loaded m cs)))"
    using least_loaded_sorted [of m cs] by (induction "least_loaded m cs" rule: list.induct)
      (auto simp: sorted_map sorted_wrt_map less_eq_prod_def elim!: sorted_wrt_mono_rel [rotated])
  then show ?thesis by (simp add: load_key_def comp_def)
qed

lemma least_loaded_Nil [simp]: "least_loaded m cs = [] \<longleftrightarrow> cs = []"
  by (metis mset_least_loaded mset_zero_iff)

lemma pick_order_cases:
  assumes "pick_order m = (order, tier, m')"
  obtains (sovereign) "reachable_sovereign m \<noteq> []"
      "order = least_loaded (m\<lparr>m_rr := Suc (m_rr m)\<rparr>) (reachable_sovereign m)"
      "tier = (if 2 \<le> length (reachable_sovereign m) then ''mesh-live'' else ''mesh-degraded'')"
    | (tailnet) "reachable_sovereign m = []" "reachable_tailnet m \<noteq> []"
      "order = least_loaded (m\<lparr>m_rr := Suc (m_rr m)\<rparr>) (reachable_tailnet m)" "tier = ''mesh-tailnet''"
    | (cloud) f where "reachable_sovereign m = []" "reachable_tailnet m = []" "m_failover m = Some f"
      "wk_reachable f" "order = [(Cloud, f)]" "tier = ''hf-failover''"
    | (none) "reachable_sovereign m = []" "reachable_tailnet m = []"
      "\<forall>f. m_failover m = Some f \<longrightarrow> \<not> wk_reachable f" "order = []" "tier = ''hf-failover''"
  using assms by (auto simp: pick_order_def Let_def split: if_splits option.splits)

lemma reachable_sovereign_iff:
  "(r, w) \<in> set (reachable_sovereign m)
     \<longleftrightarrow> (\<exists>i < length (m_workers m). r = Node i \<and> w = m_workers m ! i) \<and> wk_sovereign w \<and> wk_reachable w"
  by (auto simp: reachable_sovereign_def node_refs_iff)

lemma reachable_tailnet_iff:
  "(r, w) \<in> set (reachable_tailnet m)
     \<longleftrightarrow> (\<exists>i < length (m_workers m). r = Node i \<and> w = m_workers m ! i)
        \<and> \<not> wk_sovereign w \<and> wk_reachable w \<and> wk_kind w = ''tailnet-gpu''"
  by (auto simp: reachable_tailnet_def node_refs_iff)

lemma some_sovereign:
  assumes "list_ex (\<lambda>x. wk_sovereign x \<and> wk_reachable x) (m_workers m)"
  shows "reachable_sovereign m \<noteq> []"
proof -
  obtain i where "i < length (m_workers m)" "wk_sovereign (m_workers m ! i)" "wk_reachable (m_workers m ! i)"
    using assms by (auto simp: list_ex_iff in_set_conv_nth)
  then have "(Node i, m_workers m ! i) \<in> set (reachable_sovereign m)"
    by (simp add: reachable_sovereign_iff)
  then show ?thesis by auto
qed

text \<open>Who can be a candidate: a reachable worker, and a sovereign one if any is reachable.\<close>

lemma pick_order_candidates:
  assumes "pick_order m = (order, tier, m')" "(r, w) \<in> set order"
  shows "wk_reachable w
    \<and> (case r of Node i \<Rightarrow> i < length (m_workers m) \<and> w = m_workers m ! i | Cloud \<Rightarrow> m_failover m = Some w)
    \<and> (list_ex (\<lambda>x. wk_sovereign x \<and> wk_reachable x) (m_workers m) \<longrightarrow> wk_sovereign w \<and> r \<noteq> Cloud)"
  using assms(1)
proof (cases rule: pick_order_cases)
  case sovereign
  with assms(2) show ?thesis by (auto simp: reachable_sovereign_iff)
next
  case tailnet
  with assms(2) some_sovereign show ?thesis by (auto simp: reachable_tailnet_iff)
next
  case (cloud f)
  with assms(2) some_sovereign show ?thesis by auto
next
  case none
  with assms(2) show ?thesis by simp
qed

lemma distinct_node_refs: "distinct (map fst (node_refs m))"
  by (simp add: node_refs_def distinct_map inj_on_def)

lemma pick_order_distinct:
  assumes "pick_order m = (order, tier, m')"
  shows "distinct (map fst order)"
proof -
  have f: "distinct (map fst (filter P (node_refs m)))" for P
    using distinct_node_refs by (rule distinct_map_filter)
  have l: "distinct (map fst (least_loaded m2 cs)) = distinct (map fst cs)" for m2 cs
    using mset_eq_imp_distinct_iff [of "map fst (least_loaded m2 cs)" "map fst cs"] by simp
  from assms show ?thesis
    by (cases rule: pick_order_cases) (simp_all add: l reachable_sovereign_def reachable_tailnet_def f)
qed

section \<open>What the proxy does\<close>

lemma enter_leave:
  "leave r (m2\<lparr>m_workers := m_workers (enter r m), m_failover := m_failover (enter r m)\<rparr>)
    = m2\<lparr>m_workers := m_workers m, m_failover := m_failover m\<rparr>"
  by (cases r) (simp_all add: enter_def leave_def upd_worker_def option.map_comp comp_def option.map_ident)

lemma upd_worker_frame [simp]:
  "m_wire (upd_worker r f m) = m_wire m" "m_rr (upd_worker r f m) = m_rr m"
  "m_ticks (upd_worker r f m) = m_ticks m"
  by (simp_all add: upd_worker_def split: wref.split)

lemma try_worker_sends:
  assumes "try_worker s tier meth sub body hs inject (r, w) attempts m = (x, m')"
  shows "m_workers m' = m_workers m \<and> m_failover m' = m_failover m
    \<and> m_wire m' = m_wire m @ (case worker_request s meth sub body hs inject w of
        Inl e \<Rightarrow> [] | Inr q \<Rightarrow> [(wk_name w, q)])"
proof (cases "worker_request s meth sub body hs inject w")
  case (Inl e)
  with assms show ?thesis by (simp add: try_worker_def)
next
  case (Inr q)
  define m2 where "m2 = (enter r m)\<lparr>m_wire := m_wire m @ [(wk_name w, q)], m_ticks := Suc (Suc (m_ticks m))\<rparr>"
  have "m' = leave r m2"
    using assms by (auto simp: try_worker_def Inr mesh_time_def Let_def m2_def enter_def
        split: sum.splits if_splits)
  moreover have "m2 = m2\<lparr>m_workers := m_workers (enter r m), m_failover := m_failover (enter r m)\<rparr>"
    by (simp add: m2_def)
  ultimately have "m' = m2\<lparr>m_workers := m_workers m, m_failover := m_failover m\<rparr>"
    using enter_leave by metis
  then show ?thesis by (simp add: m2_def Inr)
qed

text \<open>The candidates of a call, the tier they are picked for, and what is sent to one of them.\<close>

definition candidates :: "mesh_sys \<Rightarrow> mesh \<Rightarrow> (wref \<times> worker) list \<times> string" where
  "candidates s m = (case refresh_reachability s False m of
     (Some e, m1) \<Rightarrow> ([], []) | (None, m1) \<Rightarrow> (let (order, tier, m2) = pick_order m1 in (order, tier)))"

definition sent_one ::
  "mesh_sys \<Rightarrow> string \<Rightarrow> string \<Rightarrow> string option \<Rightarrow> string dict \<Rightarrow> bool \<Rightarrow> wref \<times> worker \<Rightarrow> (string \<times> mesh_req) list" where
  "sent_one s meth sub body hs inject c =
     (case worker_request s meth sub body hs inject (snd c) of Inl e \<Rightarrow> [] | Inr q \<Rightarrow> [(wk_name (snd c), q)])"

definition failed_rows :: "(wref \<times> worker) list \<Rightarrow> mesh_attempt list \<Rightarrow> bool" where
  "failed_rows = list_all2 (\<lambda>c a. ma_worker a = wk_name (snd c) \<and> ma_base a = wk_base (snd c) \<and> \<not> ma_ok a)"

text \<open>How a call that consulted \<open>us\<close> and left \<open>vs\<close> may end, with the rows \<open>a\<close> it began with.\<close>

definition ended ::
  "string \<Rightarrow> (wref \<times> worker) list \<Rightarrow> (wref \<times> worker) list \<Rightarrow> mesh_attempt list \<Rightarrow> mesh_out \<Rightarrow> bool" where
  "ended tier us vs a out \<longleftrightarrow> (case out of
     Proxied st h raw tr \<Rightarrow> us \<noteq> [] \<and> st < 500 \<and> (\<exists>fails dt h0.
       tr = a @ fails @ [attempt_row (snd (last us)) True (Some st) None dt]
       \<and> failed_rows (butlast us) fails \<and> h = served_headers (snd (last us)) tier h0)
   | CoordinatorError msg tr \<Rightarrow> vs = [] \<and> (\<exists>fails. tr = a @ fails \<and> failed_rows us fails)
   | Crashed e \<Rightarrow> us \<noteq> [] \<and> host_port_path (snd (last us)) = Inl e)"

lemma attempt_row_simps [simp]:
  "ma_worker (attempt_row w ok st er dt) = wk_name w" "ma_base (attempt_row w ok st er dt) = wk_base w"
  "ma_ok (attempt_row w ok st er dt) = ok"
  by (simp_all add: attempt_row_def)

lemma try_worker_result:
  assumes "try_worker s tier meth sub body hs inject c attempts m = (x, m')"
  shows "case x of
      Inl a \<Rightarrow> \<exists>row. a = attempts @ [row] \<and> ma_worker row = wk_name (snd c) \<and> ma_base row = wk_base (snd c) \<and> \<not> ma_ok row
    | Inr out \<Rightarrow> ended tier [c] [] attempts out \<and> (\<forall>msg tr. out \<noteq> CoordinatorError msg tr)"
proof (cases "worker_request s meth sub body hs inject (snd c)")
  case (Inl e)
  then have "host_port_path (snd c) = Inl e"
    by (auto simp: worker_request_def bindE_def split: sum.splits)
  with Inl assms show ?thesis by (cases c) (auto simp: try_worker_def ended_def)
next
  case (Inr q)
  obtain r w where c: "c = (r, w)" by (cases c)
  show ?thesis
  proof (cases "ms_http s (length (m_wire (enter r m))) q")
    case (Inl e)
    with assms Inr c show ?thesis by (auto simp: try_worker_def mesh_time_def Let_def)
  next
    case res: (Inr p)
    show ?thesis
    proof (cases "500 \<le> mr_status p")
      case True
      with assms Inr c res show ?thesis by (auto simp: try_worker_def mesh_time_def Let_def)
    next
      case False
      with assms Inr c res obtain dt raw where
        "x = Inr (Proxied (mr_status p) (served_headers w tier (mr_headers p)) raw
               (attempts @ [attempt_row w True (Some (mr_status p)) None dt]))"
        by (simp add: try_worker_def mesh_time_def Let_def) blast
      with False c show ?thesis by (auto simp: ended_def failed_rows_def)
    qed
  qed
qed

lemma proxy_loop_result:
  assumes "proxy_loop s tier meth sub body hs inject cs attempts m = (out, m')"
  shows "m_workers m' = m_workers m \<and> m_failover m' = m_failover m \<and>
    (\<exists>us vs. cs = us @ vs \<and> m_wire m' = m_wire m @ concat (map (sent_one s meth sub body hs inject) us)
       \<and> ended tier us vs attempts out)"
  using assms
proof (induction cs arbitrary: attempts m)
  case Nil
  then show ?case by (auto simp: ended_def failed_rows_def)
next
  case (Cons c cs)
  obtain x m1 where t: "try_worker s tier meth sub body hs inject c attempts m = (x, m1)" by fastforce
  have w1: "m_workers m1 = m_workers m" "m_failover m1 = m_failover m"
    "m_wire m1 = m_wire m @ sent_one s meth sub body hs inject c"
    using try_worker_sends [of s tier meth sub body hs inject "fst c" "snd c"] t
    by (simp_all add: sent_one_def)
  show ?case
  proof (cases x)
    case (Inl a1)
    with t Cons.prems have "proxy_loop s tier meth sub body hs inject cs a1 m1 = (out, m')" by simp
    from Cons.IH [OF this] obtain us vs where i: "m_workers m' = m_workers m1" "m_failover m' = m_failover m1"
      "cs = us @ vs" "m_wire m' = m_wire m1 @ concat (map (sent_one s meth sub body hs inject) us)"
      "ended tier us vs a1 out" by blast
    obtain row where row: "a1 = attempts @ [row]" "ma_worker row = wk_name (snd c)"
      "ma_base row = wk_base (snd c)" "\<not> ma_ok row"
      using try_worker_result [OF t] Inl by auto
    have e: "failed_rows ys fs \<Longrightarrow> failed_rows (c # ys) (row # fs)" for ys fs
      using row by (simp add: failed_rows_def)
    have "ended tier (c # us) vs attempts out"
    proof (cases out)
      case (Proxied st h raw tr)
      with i(5) row(1) show ?thesis by (auto simp: ended_def dest: e)
    next
      case (CoordinatorError msg tr)
      with i(5) row(1) show ?thesis by (auto simp: ended_def dest: e)
    next
      case (Crashed e)
      with i(5) show ?thesis by (simp add: ended_def)
    qed
    with i w1 show ?thesis by (intro conjI exI [of _ "c # us"] exI [of _ vs]) simp_all
  next
    case (Inr o')
    with t Cons.prems have "out = o'" "m' = m1" by simp_all
    moreover have "ended tier [c] cs attempts o'"
      using try_worker_result [OF t] Inr by (cases o') (auto simp: ended_def)
    ultimately show ?thesis using w1 by (intro conjI exI [of _ "[c]"] exI [of _ cs]) simp_all
  qed
qed

lemma proxy_result:
  assumes "proxy s meth sub body hs inject m = (out, m')"
  shows "(\<exists>e m1. refresh_reachability s False m = (Some e, m1) \<and> out = Crashed e \<and> m' = m1)
    \<or> (\<exists>m1 us vs. refresh_reachability s False m = (None, m1) \<and> fst (candidates s m) = us @ vs
        \<and> m_workers m' = m_workers m1 \<and> m_failover m' = m_failover m1
        \<and> m_wire m' = m_wire m @ concat (map (sent_one s meth sub body hs inject) us)
        \<and> ended (snd (candidates s m)) us vs [] out)"
proof -
  obtain x m1 where r: "refresh_reachability s False m = (x, m1)" by fastforce
  show ?thesis
  proof (cases x)
    case (Some e)
    with assms r show ?thesis by (simp add: proxy_def)
  next
    case None
    obtain order tier m2 where p: "pick_order m1 = (order, tier, m2)" by (metis prod_cases3)
    note fr = pick_order_frame [OF p]
    have w: "m_wire m1 = m_wire m" using refresh_fixed [OF r] by (simp add: only_probed_def)
    have c: "candidates s m = (order, tier)" by (simp add: candidates_def r None p)
    show ?thesis
    proof (cases "order = []")
      case True
      with assms r None p have "out = CoordinatorError ''no reachable worker (sovereign mesh down and no cloud failover armed)'' []"
        "m' = m2" by (simp_all add: proxy_def)
      with fr w c True r None show ?thesis by (auto simp: ended_def failed_rows_def)
    next
      case False
      with assms r None p have "proxy_loop s tier meth sub body hs inject order [] m2 = (out, m')"
        by (simp add: proxy_def)
      from proxy_loop_result [OF this] fr w c r None show ?thesis by auto
    qed
  qed
qed

section \<open>The round-robin\<close>

lemma index_of_nth:
  assumes "distinct xs" "i < length xs"
  shows "index_of ((=) (xs ! i)) xs = Some i"
  using assms
proof (induction xs arbitrary: i)
  case (Cons x xs)
  then show ?case by (cases i) auto
qed simp

lemma hd_sort_key_le:
  assumes "x \<in> set xs"
  shows "f (hd (sort_key f xs)) \<le> f x \<and> hd (sort_key f xs) \<in> set xs"
proof -
  have ne: "sort_key f xs \<noteq> []" using assms by (metis empty_iff empty_set set_sort)
  have "sorted (map f (sort_key f xs))" by simp
  moreover have "x \<in> set (sort_key f xs)" using assms by simp
  ultimately have "f (hd (sort_key f xs)) \<le> f x"
    using ne by (cases "sort_key f xs") auto
  with ne show ?thesis by (metis hd_in_set set_sort)
qed

lemma mod_zero_unique:
  assumes "i < n" "(i + r) mod n = 0"
  shows "i = (n - r mod n) mod (n :: nat)"
proof (cases "r mod n = 0")
  case True
  with assms show ?thesis by (simp add: mod_eq_0_iff_dvd dvd_add_left_iff nat_dvd_not_less)
     (metis dvd_add_left_iff nat_dvd_not_less neq0_conv)
next
  case False
  have "(i + r mod n) mod n = 0" using assms(2) by (simp add: mod_add_right_eq)
  moreover have "r mod n < n" using assms(1) by simp
  then have "0 < i + r mod n" "i + r mod n < 2 * n" using assms(1) False by linarith+
  moreover obtain k where "i + r mod n = n * k"
    using \<open>(i + r mod n) mod n = 0\<close> by (auto simp: mod_eq_0_iff_dvd elim: dvdE)
  ultimately have k: "i + r mod n = n * k" "0 < n * k" "n * k < n * 2" by simp_all
  then have "0 < k" "k < 2" by (simp, simp only: mult_less_cancel1)
  then have "k = 1" by simp
  with k have "i + r mod n = n" by simp
  then show ?thesis using False assms(1) by (metis diff_add_inverse2 mod_less)
qed

lemma mod_complement: "0 < n \<Longrightarrow> ((n - r mod n) mod n + r) mod n = (0 :: nat)"
proof -
  assume "0 < n"
  then have "r mod n \<le> n" by simp
  have "((n - r mod n) mod n + r) mod n = (n - r mod n + r mod n) mod n"
    by (metis mod_add_left_eq mod_add_right_eq)
  with \<open>r mod n \<le> n\<close> show ?thesis by simp
qed

lemma rotate_inj:
  assumes "0 < (n :: nat)" "j < n" "k < n" "a = b" "(a + (r + j + 1)) mod n = 0" "(b + (r + k + 1)) mod n = 0"
  shows "j = k"
proof -
  have "(j + (a + r + 1)) mod n = 0" "(k + (a + r + 1)) mod n = 0"
    using assms(4-6) by (simp_all add: ac_simps)
  with mod_zero_unique [OF assms(2)] mod_zero_unique [OF assms(3)] show ?thesis by metis
qed

lemma node_refs_all: "node_refs m = map (\<lambda>i. (Node i, m_workers m ! i)) [0..<length (m_workers m)]"
  by (rule nth_equalityI) (simp_all add: node_refs_def)

text \<open>A pool in which every worker is sovereign and up, no two are alike and all carry the same load.\<close>

definition even_pool :: "mesh \<Rightarrow> bool" where
  "even_pool m \<longleftrightarrow> m_workers m \<noteq> [] \<and> distinct (m_workers m)
     \<and> list_all (\<lambda>w. wk_sovereign w \<and> wk_reachable w \<and> wk_inflight w = wk_inflight (hd (m_workers m))) (m_workers m)"

lemma even_pool_pick:
  assumes "even_pool m" "pick_order m = (order, tier, m')"
  shows "fst (hd order) = Node ((length (m_workers m) - Suc (m_rr m) mod length (m_workers m)) mod length (m_workers m))"
proof -
  let ?ws = "m_workers m" let ?n = "length ?ws" let ?rr = "Suc (m_rr m)"
  have ws: "distinct ?ws" "0 < ?n" "\<And>i. i < ?n \<Longrightarrow> wk_sovereign (?ws ! i) \<and> wk_reachable (?ws ! i)"
    "\<And>i. i < ?n \<Longrightarrow> wk_inflight (?ws ! i) = wk_inflight (hd ?ws)"
    using assms(1) by (auto simp: even_pool_def list_all_length)
  have live: "reachable_sovereign m = map (\<lambda>i. (Node i, ?ws ! i)) [0..<?n]"
    unfolding reachable_sovereign_def node_refs_all by (rule filter_True) (use ws(3) in auto)
  let ?f = "load_key ?ws ?rr ?n"
  have key: "?f (Node i, ?ws ! i) = (wk_inflight (hd ?ws), (i + ?rr) mod ?n)" if "i < ?n" for i
  proof -
    have "max ?n 1 = ?n" using ws(2) by linarith
    with that ws show ?thesis by (simp only: load_key_def worker_index_def snd_conv index_of_nth option.case)
  qed
  have order: "order = sort_key ?f (reachable_sovereign m)"
    using assms(2) ws(2) live by (auto simp: pick_order_def Let_def least_loaded_def)
  let ?i0 = "(?n - ?rr mod ?n) mod ?n"
  have i0: "?i0 < ?n" using ws(2) by simp
  then have "(Node ?i0, ?ws ! ?i0) \<in> set (reachable_sovereign m)" by (auto simp: live)
  from hd_sort_key_le [OF this, of ?f] order obtain i where
    i: "i < ?n" "hd order = (Node i, ?ws ! i)" "?f (Node i, ?ws ! i) \<le> ?f (Node ?i0, ?ws ! ?i0)"
    by (auto simp: live)
  have "(?i0 + ?rr) mod ?n = 0" by (rule mod_complement [OF ws(2)])
  with i(3) key [OF i(1)] key [OF i0] have "(i + ?rr) mod ?n = 0" by (simp add: less_eq_prod_def)
  with mod_zero_unique [OF i(1)] i(2) show ?thesis by simp
qed

section \<open>Loads under interleaving\<close>

text \<open>
  Threads of the server interleave at the lock: a sweep, a pick, taking a candidate, giving it
  back, a request put on the wire. The second component lists the candidates taken and not given
  back.
\<close>

definition valid_ref :: "mesh \<Rightarrow> wref \<Rightarrow> bool" where
  "valid_ref m r = (case r of Node i \<Rightarrow> i < length (m_workers m) | Cloud \<Rightarrow> m_failover m \<noteq> None)"

inductive mesh_step :: "mesh_sys \<Rightarrow> mesh \<times> wref list \<Rightarrow> mesh \<times> wref list \<Rightarrow> bool" for s where
  sweep: "refresh_reachability s force m = (e, m') \<Longrightarrow> mesh_step s (m, rs) (m', rs)"
| pick: "pick_order m = (order, tier, m') \<Longrightarrow> mesh_step s (m, rs) (m', rs)"
| enter: "valid_ref m r \<Longrightarrow> mesh_step s (m, rs) (enter r m, r # rs)"
| leave: "r \<in> set rs \<Longrightarrow> mesh_step s (m, rs) (leave r m, remove1 r rs)"
| tick: "mesh_step s (m, rs) (m\<lparr>m_ticks := Suc (m_ticks m)\<rparr>, rs)"
| send: "mesh_step s (m, rs) (m\<lparr>m_wire := m_wire m @ [q]\<rparr>, rs)"

inductive_cases mesh_stepE: "mesh_step s (m, rs) (m', rs')"

definition load_of :: "mesh \<Rightarrow> wref \<Rightarrow> int" where
  "load_of m r = (case r of Node i \<Rightarrow> wk_inflight (m_workers m ! i)
     | Cloud \<Rightarrow> (case m_failover m of None \<Rightarrow> 0 | Some f \<Rightarrow> wk_inflight f))"

definition counted :: "mesh \<times> wref list \<Rightarrow> bool" where
  "counted c \<longleftrightarrow> list_all (valid_ref (fst c)) (snd c)
     \<and> (\<forall>r. valid_ref (fst c) r \<longrightarrow> load_of (fst c) r = int (count_list (snd c) r))"

lemma fixed_part_loads: "fixed_part w' = fixed_part w \<Longrightarrow> wk_inflight w' = wk_inflight w"
  by (metis fixed_part_def worker.select_convs(9) worker.surjective worker.update_convs(10,11))

lemma map_fixed_nth:
  assumes "map fixed_part ws' = map fixed_part ws"
  shows "length ws' = length ws \<and> (\<forall>i < length ws. wk_inflight (ws' ! i) = wk_inflight (ws ! i))"
  using assms by (metis (no_types) fixed_part_loads length_map nth_map)

lemma only_probed_loads:
  assumes "only_probed m m'"
  shows "valid_ref m' = valid_ref m \<and> (\<forall>r. valid_ref m r \<longrightarrow> load_of m' r = load_of m r)"
proof -
  note ws = map_fixed_nth [of "m_workers m'" "m_workers m"]
  have f: "(m_failover m' = None) = (m_failover m = None)"
    "\<And>x y. m_failover m' = Some x \<Longrightarrow> m_failover m = Some y \<Longrightarrow> wk_inflight x = wk_inflight y"
    using assms by (auto simp: only_probed_def dest: fixed_part_loads)
  show ?thesis
    using assms ws f by (auto simp: only_probed_def valid_ref_def load_of_def fun_eq_iff
        split: wref.splits option.splits)
qed

lemma upd_worker_loads:
  assumes "valid_ref m r" "\<And>w. wk_inflight (f w) = wk_inflight w + d"
  shows "valid_ref (upd_worker r f m) = valid_ref m
    \<and> (\<forall>r'. load_of (upd_worker r f m) r' = load_of m r' + (if r' = r then d else 0))"
  using assms by (auto simp: upd_worker_def valid_ref_def load_of_def nth_list_update fun_eq_iff
      split: wref.splits option.splits)

lemma count_remove1: "x \<in> set xs \<Longrightarrow> int (count_list (remove1 x xs) y) = int (count_list xs y) - (if y = x then 1 else 0)"
  by (induction xs) (auto simp: count_list_0_iff)

lemma mesh_step_counted:
  assumes "mesh_step s c c'" "counted c"
  shows "counted c'"
  using assms
proof (cases rule: mesh_step.cases)
  case (sweep force m e m' rs)
  with assms(2) only_probed_loads [OF refresh_fixed] show ?thesis by (simp add: counted_def)
next
  case (pick m order tier m' rs)
  from pick_order_frame [OF pick(3)] have "valid_ref m' = valid_ref m" "load_of m' = load_of m"
    by (auto simp: valid_ref_def load_of_def fun_eq_iff split: wref.split option.split)
  with assms(2) pick(1,2) show ?thesis by (simp add: counted_def)
next
  case (enter m r rs)
  note u = upd_worker_loads [OF enter(3), of "\<lambda>w. w\<lparr>wk_inflight := wk_inflight w + 1\<rparr>" 1, simplified]
  with assms(2) enter show ?thesis by (auto simp: counted_def enter_def)
next
  case (leave r rs m)
  have "valid_ref m r" using assms(2) leave by (auto simp: counted_def list_all_iff)
  note u = upd_worker_loads [OF this, of "\<lambda>w. w\<lparr>wk_inflight := wk_inflight w - 1\<rparr>" "-1", simplified]
  have "list_all (valid_ref m) (remove1 r rs)"
    using assms(2) leave(1) by (auto simp: counted_def list_all_iff dest: notin_set_remove1 [THEN contrapos_pp])
  with u assms(2) leave count_remove1 [OF leave(3)] show ?thesis by (auto simp: counted_def leave_def)
next
  case (tick m rs)
  have "valid_ref (m\<lparr>m_ticks := Suc (m_ticks m)\<rparr>) = valid_ref m"
    "load_of (m\<lparr>m_ticks := Suc (m_ticks m)\<rparr>) = load_of m"
    by (simp_all add: valid_ref_def load_of_def fun_eq_iff split: wref.split)
  with assms(2) tick show ?thesis by (simp add: counted_def)
next
  case (send m rs q)
  have "valid_ref (m\<lparr>m_wire := m_wire m @ [q]\<rparr>) = valid_ref m"
    "load_of (m\<lparr>m_wire := m_wire m @ [q]\<rparr>) = load_of m"
    by (simp_all add: valid_ref_def load_of_def fun_eq_iff split: wref.split)
  with assms(2) send show ?thesis by (simp add: counted_def)
qed

lemma mesh_run_counted: "(mesh_step s)\<^sup>*\<^sup>* c c' \<Longrightarrow> counted c \<Longrightarrow> counted c'"
  by (induction rule: rtranclp_induct) (auto intro: mesh_step_counted)

text \<open>A whole call is one interleaving of such steps, so any number of calls are.\<close>

lemma try_worker_run:
  assumes "try_worker s tier meth sub body hs inject (r, w) attempts m = (x, m')" "valid_ref m r"
  shows "(mesh_step s)\<^sup>*\<^sup>* (m, rs) (m', rs)"
proof (cases "worker_request s meth sub body hs inject w")
  case (Inl e)
  with assms(1) show ?thesis by (simp add: try_worker_def)
next
  case (Inr q)
  define m1 where "m1 = (enter r m)\<lparr>m_ticks := Suc (m_ticks (enter r m))\<rparr>"
  define m2 where "m2 = m1\<lparr>m_wire := m_wire m1 @ [(wk_name w, q)]\<rparr>"
  define m3 where "m3 = m2\<lparr>m_ticks := Suc (m_ticks m2)\<rparr>"
  have m': "m' = leave r m3"
    using assms(1) by (auto simp: try_worker_def Inr mesh_time_def Let_def m1_def m2_def m3_def
        split: sum.splits if_splits)
  have "mesh_step s (m, rs) (enter r m, r # rs)" by (rule mesh_step.enter [OF assms(2)])
  moreover have "mesh_step s (enter r m, r # rs) (m1, r # rs)" unfolding m1_def by (rule mesh_step.tick)
  moreover have "mesh_step s (m1, r # rs) (m2, r # rs)" unfolding m2_def by (rule mesh_step.send)
  moreover have "mesh_step s (m2, r # rs) (m3, r # rs)" unfolding m3_def by (rule mesh_step.tick)
  moreover have "mesh_step s (m3, r # rs) (leave r m3, remove1 r (r # rs))"
    by (rule mesh_step.leave) simp
  ultimately show ?thesis unfolding m' by (simp add: rtranclp.rtrancl_into_rtrancl)
qed

lemma proxy_loop_run:
  assumes "proxy_loop s tier meth sub body hs inject cs attempts m = (out, m')"
    "list_all (valid_ref m) (map fst cs)"
  shows "(mesh_step s)\<^sup>*\<^sup>* (m, rs) (m', rs)"
  using assms
proof (induction cs arbitrary: attempts m)
  case (Cons c cs)
  obtain r w where c: "c = (r, w)" by (cases c)
  obtain x m1 where t: "try_worker s tier meth sub body hs inject (r, w) attempts m = (x, m1)" by fastforce
  have run: "(mesh_step s)\<^sup>*\<^sup>* (m, rs) (m1, rs)"
    using try_worker_run [OF t] Cons.prems(2) c by simp
  show ?case
  proof (cases x)
    case (Inl a)
    have "valid_ref m1 = valid_ref m"
      using try_worker_sends [OF t] by (simp add: valid_ref_def fun_eq_iff split: wref.split)
    with Cons Inl t c have "(mesh_step s)\<^sup>*\<^sup>* (m1, rs) (m', rs)" by simp
    with run show ?thesis by (rule rtranclp_trans)
  next
    case (Inr o')
    with Cons.prems(1) t c run show ?thesis by simp
  qed
qed simp

lemma proxy_run:
  assumes "proxy s meth sub body hs inject m = (out, m')"
  shows "(mesh_step s)\<^sup>*\<^sup>* (m, rs) (m', rs)"
proof -
  obtain x m1 where r: "refresh_reachability s False m = (x, m1)" by fastforce
  have "mesh_step s (m, rs) (m1, rs)" by (rule mesh_step.sweep [OF r])
  then have s1: "(mesh_step s)\<^sup>*\<^sup>* (m, rs) (m1, rs)" by (rule r_into_rtranclp)
  show ?thesis
  proof (cases x)
    case (Some e)
    with assms r s1 show ?thesis by (simp add: proxy_def)
  next
    case None
    obtain order tier m2 where p: "pick_order m1 = (order, tier, m2)" by (metis prod_cases3)
    have s2: "(mesh_step s)\<^sup>*\<^sup>* (m, rs) (m2, rs)"
      by (rule rtranclp.rtrancl_into_rtrancl [OF s1 mesh_step.pick [OF p]])
    have "valid_ref m2 (fst c)" if "c \<in> set order" for c
      using pick_order_candidates [OF p, of "fst c" "snd c"] that pick_order_frame [OF p]
      by (auto simp: valid_ref_def split: wref.splits)
    then have "list_all (valid_ref m2) (map fst order)" by (auto simp: list_all_iff)
    with assms r None p s2 show ?thesis
      by (auto simp: proxy_def split: if_splits dest: proxy_loop_run [of s _ _ _ _ _ _ _ _ _ out m' rs]
          intro: rtranclp_trans)
  qed
qed

section \<open>The properties\<close>

text \<open>A pool of three, with the second down, and an upstream that answers.\<close>

definition demo_mesh_sys :: mesh_sys where
  "demo_mesh_sys = \<lparr>ms_sys = echo_sys (Inr JNull), ms_loads_str = (\<lambda>_. Inr (JObj [])), ms_replace = (\<lambda>b. b),
     ms_mono = (\<lambda>_. 100), ms_fabric = (\<lambda>_. None), ms_tcp = (\<lambda>_ h _. (h \<noteq> ''b'', ''probed'')),
     ms_http = (\<lambda>_ _. Inr \<lparr>mr_status = 200, mr_headers = [], mr_body = ''x''\<rparr>), ms_ttl = 15\<rparr>"

definition demo_worker :: "string \<Rightarrow> worker" where
  "demo_worker n = new_worker n (''http://'' @ n @ ''/v1'') True ''sovereign-gpu'' ''self-hosted'' [] [] []"

definition demo_mesh :: mesh where
  "demo_mesh = new_mesh (map demo_worker [''a'', ''b'', ''c'']) None"


lemma demo_proxied:
  "case proxy demo_mesh_sys ''POST'' ''/chat/completions'' None [] True demo_mesh of (out, m) \<Rightarrow>
     length (m_wire m) = 1 \<and> (case out of Proxied st h raw tr \<Rightarrow> st = 200 \<and> map ma_worker tr = [''a''] | _ \<Rightarrow> False)"
  by code_simp




text \<open>
  The pick is least-loaded first. The candidates are, with nobody left out, the reachable
  sovereign workers, or else the reachable tailnet ones, or else the reachable failover; they come
  in the order of their load; and the tier reported is the one of that class.
\<close>

theorem pick_least_loaded:
  assumes "pick_order m = (order, tier, m')"
  shows "sorted (map (wk_inflight \<circ> snd) order)
    \<and> mset order = mset (if reachable_sovereign m \<noteq> [] then reachable_sovereign m
        else if reachable_tailnet m \<noteq> [] then reachable_tailnet m
        else case m_failover m of None \<Rightarrow> [] | Some f \<Rightarrow> if wk_reachable f then [(Cloud, f)] else [])
    \<and> tier = (if reachable_sovereign m \<noteq> []
         then if length (reachable_sovereign m) = 1 then ''mesh-degraded'' else ''mesh-live''
         else if reachable_tailnet m \<noteq> [] then ''mesh-tailnet'' else ''hf-failover'')"
  using assms
proof (cases rule: pick_order_cases)
  case sovereign
  then have "length (reachable_sovereign m) \<noteq> 0" by simp
  then have "(length (reachable_sovereign m) = 1) = (\<not> 2 \<le> length (reachable_sovereign m))" by linarith
  with sovereign show ?thesis by (simp add: least_loaded_inflight)
qed (auto simp: least_loaded_inflight split: option.splits)

theorem pick_least_loaded_witness:
  "mset (fst (pick_order (demo_mesh\<lparr>m_failover := Some (demo_worker ''n''\<lparr>wk_reachable := True\<rparr>)\<rparr>)))
     = {#(Cloud, demo_worker ''n''\<lparr>wk_reachable := True\<rparr>)#}"
proof -
  let ?m = "demo_mesh\<lparr>m_failover := Some (demo_worker ''n''\<lparr>wk_reachable := True\<rparr>)\<rparr>"
  obtain order tier m' where p: "pick_order ?m = (order, tier, m')" by (metis prod_cases3)
  have "reachable_sovereign ?m = [] \<and> reachable_tailnet ?m = []" by code_simp
  with pick_least_loaded [OF p] p show ?thesis by simp
qed

text \<open>
  The load counters balance. However the threads of the server interleave sweeps, picks and
  calls, a worker's \<open>inflight\<close> is the number of calls that have taken it and not given it back, so
  it is never negative and returns to zero; and every complete proxy call, whatever its outcome, is
  such an interleaving that gives back what it took.
\<close>

theorem mesh_loads_counted:
  assumes "list_all (\<lambda>w. wk_inflight w = 0) (ws @ (case f of None \<Rightarrow> [] | Some w \<Rightarrow> [w]))"
    and "(mesh_step s)\<^sup>*\<^sup>* (new_mesh ws f, []) (m, rs)"
    and "proxy s meth sub body hs inject m = (out, m')" and "valid_ref m' r"
  shows "load_of m' r = int (count_list rs r)"
proof -
  have "counted (new_mesh ws f, [])"
    using assms(1) by (auto simp: counted_def new_mesh_def load_of_def valid_ref_def list_all_iff
        split: wref.splits option.splits)
  moreover have "(mesh_step s)\<^sup>*\<^sup>* (new_mesh ws f, []) (m', rs)"
    using assms(2) proxy_run [OF assms(3)] by (rule rtranclp_trans)
  ultimately have "counted (m', rs)" using mesh_run_counted by blast
  with assms(4) show ?thesis by (simp add: counted_def)
qed

theorem mesh_loads_counted_witness:
  "load_of (snd (proxy demo_mesh_sys ''POST'' ''/x'' None [] True (enter (Node 0) demo_mesh))) (Node 0) = 1"
proof -
  obtain out m' where p: "proxy demo_mesh_sys ''POST'' ''/x'' None [] True (enter (Node 0) demo_mesh) = (out, m')"
    by fastforce
  have "mesh_step demo_mesh_sys (demo_mesh, []) (enter (Node 0) demo_mesh, [Node 0])"
    by (rule mesh_step.enter) (simp add: valid_ref_def demo_mesh_def new_mesh_def)
  then have run: "(mesh_step demo_mesh_sys)\<^sup>*\<^sup>* (new_mesh (map demo_worker [''a'', ''b'', ''c'']) None, [])
      (enter (Node 0) demo_mesh, [Node 0])"
    unfolding demo_mesh_def by (rule r_into_rtranclp)
  have "length (m_workers m') = 3"
  proof -
    have "length (m_workers (snd (proxy demo_mesh_sys ''POST'' ''/x'' None [] True (enter (Node 0) demo_mesh)))) = 3"
      by code_simp
    with p show ?thesis by simp
  qed
  then have "valid_ref m' (Node 0)" by (simp add: valid_ref_def)
  with mesh_loads_counted [OF _ run p] p show ?thesis
    by (simp add: demo_worker_def new_worker_def)
qed

text \<open>
  Equal workers share traffic in turn. When all workers are sovereign and up and carry the same
  load, the \<open>k\<close>-th pick after any state puts first the worker whose place is \<open>k\<close> steps further back,
  cyclically; so \<open>n\<close> picks in a row put each of the \<open>n\<close> workers first exactly once.
\<close>

theorem round_robin_rotates:
  assumes "even_pool m" "n = length (m_workers m)"
  shows "map (\<lambda>k. fst (hd (fst (pick_order (m\<lparr>m_rr := m_rr m + k\<rparr>))))) [0..<n]
      = map (\<lambda>k. Node ((n - (m_rr m + k + 1) mod n) mod n)) [0..<n]
    \<and> distinct (map (\<lambda>k. fst (hd (fst (pick_order (m\<lparr>m_rr := m_rr m + k\<rparr>))))) [0..<n])"
proof -
  have e: "even_pool (m\<lparr>m_rr := j\<rparr>)" for j using assms(1) by (simp add: even_pool_def)
  have h: "fst (hd (fst (pick_order (m\<lparr>m_rr := m_rr m + k\<rparr>)))) = Node ((n - (m_rr m + k + 1) mod n) mod n)" for k
  proof -
    obtain order tier m' where "pick_order (m\<lparr>m_rr := m_rr m + k\<rparr>) = (order, tier, m')" by (metis prod_cases3)
    with even_pool_pick [OF e this] assms(2) show ?thesis by simp
  qed
  have n: "0 < n" using assms by (simp add: even_pool_def)
  have c: "((n - (m_rr m + k + 1) mod n) mod n + (m_rr m + k + 1)) mod n = 0" for k
    by (rule mod_complement [OF n])
  have "inj_on (\<lambda>k. (n - (m_rr m + k + 1) mod n) mod n) {0..<n}"
  proof (rule inj_onI)
    fix j k
    assume j: "j \<in> {0..<n}" and k: "k \<in> {0..<n}"
      and eq: "(n - (m_rr m + j + 1) mod n) mod n = (n - (m_rr m + k + 1) mod n) mod n"
    from j k have "j < n" "k < n" by simp_all
    then show "j = k" by (rule rotate_inj [OF n _ _ eq c c])
  qed
  then have "inj_on (\<lambda>k. Node ((n - (m_rr m + k + 1) mod n) mod n)) {0..<n}"
    unfolding inj_on_def by (simp only: wref.inject)
  then show ?thesis by (simp add: h distinct_map)
qed

definition even_mesh :: mesh where
  "even_mesh = new_mesh (map (\<lambda>n. demo_worker n\<lparr>wk_reachable := True\<rparr>) [''a'', ''b'', ''c'']) None"

theorem round_robin_rotates_witness:
  "map (\<lambda>k. fst (hd (fst (pick_order (even_mesh\<lparr>m_rr := k\<rparr>))))) [0, 1, 2] = [Node 2, Node 1, Node 0]"
proof -
  have "even_pool even_mesh"
    by (simp add: even_pool_def even_mesh_def new_mesh_def demo_worker_def new_worker_def)
  moreover have "3 = length (m_workers even_mesh)" "m_rr even_mesh = 0"
    by (simp_all add: even_mesh_def new_mesh_def)
  moreover have "[0..<3] = [0, 1, 2 :: nat]" by (simp add: upt_rec)
  ultimately show ?thesis using round_robin_rotates [of even_mesh 3] by simp
qed

text \<open>
  The round-robin can starve a worker. The tie is broken by a worker's place among all workers,
  modulo the number of reachable ones; with three equal sovereign workers of which the middle one is
  down, the first is put first on every pick and the third never is.
\<close>

theorem round_robin_starves:
  "fst (hd (fst (pick_order \<lparr>m_workers = [demo_worker ''a''\<lparr>wk_reachable := True\<rparr>, demo_worker ''b'',
       demo_worker ''c''\<lparr>wk_reachable := True\<rparr>], m_failover = None, m_rr = k, m_probed = 0,
       m_source = [], m_ticks = 0, m_monos = 0, m_probes = 0, m_wire = []\<rparr>))) = Node 0"
proof -
  have "Suc (Suc (Suc k)) mod Suc (Suc 0) = Suc k mod Suc (Suc 0)" by presburger
  then show ?thesis
    by (simp add: pick_order_def reachable_sovereign_def reachable_tailnet_def node_refs_def upt_rec
        demo_worker_def new_worker_def least_loaded_def load_key_def worker_index_def Let_def)
qed

text \<open>
  A caller's credential can travel with the injected one. In loopback mode the caller's headers
  pass, and the key of the worker replaces only a header spelled \<open>Authorization\<close>: a caller that
  spells it in lower case sends the worker both values.
\<close>

theorem lowercase_authorization_kept:
  assumes "worker_key e w = Some key"
  shows "upstream_request_headers e True w host port [(''authorization'', v)]
    = [(''authorization'', v), (''Host'', host @ '':'' @ show_nat port), (''Authorization'', ''Bearer '' @ key)]"
proof -
  have "lower ''authorization'' = ''authorization''" by code_simp
  with assms show ?thesis by (simp add: upstream_request_headers_def HOP_BY_HOP_def)
qed

theorem lowercase_authorization_kept_witness:
  "length (filter (\<lambda>(k, v). lower k = ''authorization'')
     (upstream_request_headers (\<lambda>k. if k = ''SZL_MESH_OMEN_TOKEN'' then Some ''t'' else None) True
        (demo_worker ''omen'') ''h'' 80 [(''authorization'', ''caller'')])) = 2"
proof -
  have "worker_key (\<lambda>k. if k = ''SZL_MESH_OMEN_TOKEN'' then Some ''t'' else None) (demo_worker ''omen'') = Some ''t''"
    by code_simp
  note h = lowercase_authorization_kept [OF this, of "''h''" 80 "''caller''"]
  have "lower ''authorization'' = ''authorization''" "lower ''Authorization'' = ''authorization''"
    "lower ''Host'' \<noteq> ''authorization''" by code_simp+
  then show ?thesis by (simp add: h)
qed

end
