(* ===== verification/MeshHttp.thy ===== *)
theory MeshHttp
  imports Mesh Spend
begin

text \<open>
  The trust and resource boundary of \<open>szl_router/mesh_coordinator.py\<close>: which hosts count as
  loopback, the refusal to bind, the caller's token, the bounded body read, and the whole handler
  \<open>_route\<close> around the coordinator of theory \<open>Mesh\<close>.

  A request is its raw header list (with repetitions, as \<open>get_all\<close> sees them), its peer, and the
  bytes the peer will send with what happens after them. A reply lists the headers the handler
  sets; \<open>Server\<close> and \<open>Date\<close>, which \<open>BaseHTTPRequestHandler\<close> adds, are left out. IPv6 literals are
  parsed as \<open>ipaddress\<close> does; whether an IPv4-mapped one counts as loopback depends on the Python
  version and is the argument \<open>mapped\<close>.
\<close>

section \<open>Loopback\<close>

definition octet :: "string \<Rightarrow> nat option" where
  "octet s = (if s \<noteq> [] \<and> list_all ascii_digit s \<and> length s \<le> 3 \<and> (s = ''0'' \<or> hd s \<noteq> CHR ''0'')
      \<and> digits_val s \<le> 255 then Some (digits_val s) else None)"

definition ipv4 :: "string \<Rightarrow> nat list option" where
  "ipv4 s = (let os = map octet (split_on (CHR ''.'') s) in
     if CHR ''/'' \<notin> set s \<and> length os = 4 \<and> None \<notin> set os then Some (map the os) else None)"

definition hex_val :: "char \<Rightarrow> nat option" where
  "hex_val c = (if ascii_digit c then Some (digit_val c)
     else let n = (of_char c :: nat) in
       if 97 \<le> n \<and> n \<le> 102 then Some (n - 87) else if 65 \<le> n \<and> n \<le> 70 then Some (n - 55) else None)"

definition hextet :: "string \<Rightarrow> nat option" where
  "hextet s = (if s \<noteq> [] \<and> length s \<le> 4 \<and> None \<notin> set (map hex_val s)
     then Some (foldl (\<lambda>n c. 16 * n + the (hex_val c)) 0 s) else None)"

text \<open>A 16-bit group in hexadecimal; the source writes it without leading zeros, to the same value.\<close>

definition hex_group :: "nat \<Rightarrow> string" where
  "hex_group n = map hex_char [n div 4096 mod 16, n div 256 mod 16, n div 16 mod 16, n mod 16]"

definition ipv6_parts :: "string \<Rightarrow> string list option" where
  "ipv6_parts s =
     (let parts = split_on (CHR '':'') s in
      if s = [] \<or> length parts < 3 then None
      else if CHR ''.'' \<in> set (last parts)
      then map_option (\<lambda>q. butlast parts @ [hex_group (256 * q ! 0 + q ! 1), hex_group (256 * q ! 2 + q ! 3)])
             (ipv4 (last parts))
      else Some parts)"

text \<open>The groups before and after the \<open>::\<close>, if there is one; its place is the empty inner part.\<close>

definition ipv6_split :: "string list \<Rightarrow> (string list \<times> string list) option" where
  "ipv6_split parts =
     (let gaps = filter (\<lambda>i. parts ! i = []) [1..<length parts - 1] in
      if 9 < length parts \<or> 1 < length gaps then None
      else case gaps of
        [] \<Rightarrow> if length parts = 8 \<and> hd parts \<noteq> [] \<and> last parts \<noteq> [] then Some (parts, []) else None
      | i # _ \<Rightarrow>
          (let hi = take i parts; lo = drop (Suc i) parts in
           if (hd parts = [] \<and> i \<noteq> 1) \<or> (last parts = [] \<and> length lo \<noteq> 1) then None
           else let hi' = (if hd parts = [] then [] else hi); lo' = (if last parts = [] then [] else lo)
                in if 8 - int (length hi' + length lo') < 1 then None else Some (hi', lo')))"

definition ipv6 :: "string \<Rightarrow> nat list option" where
  "ipv6 s0 =
     (let (s, pct, scope) = partition_at (CHR ''%'') s0 in
      if CHR ''/'' \<in> set s0 \<or> (pct \<and> (scope = [] \<or> CHR ''%'' \<in> set scope)) then None
      else case Option.bind (ipv6_parts s) ipv6_split of
        None \<Rightarrow> None
      | Some (hi, lo) \<Rightarrow>
          let gs = map hextet hi @ replicate (8 - (length hi + length lo)) (Some 0) @ map hextet lo
          in if None \<in> set gs then None else Some (map the gs))"

definition is_loopback_host :: "bool \<Rightarrow> string \<Rightarrow> bool" where
  "is_loopback_host mapped host =
     (let h = strip_by (\<lambda>c. c = CHR ''['' \<or> c = CHR '']'') (strip host) in
      if lower h = ''localhost'' then True
      else case ipv4 h of
        Some q \<Rightarrow> q ! 0 = 127
      | None \<Rightarrow> (case ipv6 h of
          None \<Rightarrow> False
        | Some g \<Rightarrow> g = [0, 0, 0, 0, 0, 0, 0, 1]
            \<or> (mapped \<and> take 6 g = [0, 0, 0, 0, 0, 65535] \<and> g ! 6 div 256 = 127)))"

section \<open>Starting the server\<close>

text \<open>\<open>check_bind\<close>: \<open>Some\<close> the message of the refusal. \<open>%r\<close> is Python's \<open>repr\<close>.\<close>

definition check_bind :: "bool \<Rightarrow> string \<Rightarrow> string option \<Rightarrow> bool \<Rightarrow> string option" where
  "check_bind mapped host token open_ok =
     (if is_loopback_host mapped host then None
      else if \<not> open_ok then Some (''refusing non-loopback bind '' @ repr_str host
        @ '': pass --allow-non-loopback or set SZL_MESH_ALLOW_NON_LOOPBACK=1 ''
        @ ''(and configure SZL_MESH_CALLER_TOKEN)'')
      else if token = None then Some (''refusing non-loopback bind '' @ repr_str host
        @ '': SZL_MESH_CALLER_TOKEN is not configured'')
      else None)"

definition env_truthy :: "env \<Rightarrow> string \<Rightarrow> bool" where
  "env_truthy e k = (lower (strip (env_get e k [])) \<in> {''1'', ''true'', ''yes'', ''on''})"

definition some_text :: "string \<Rightarrow> string option" where
  "some_text t = (if t = [] then None else Some t)"

record http_config =
  hc_token :: "string option"
  hc_max :: int
  hc_timeout :: pyfloat
  hc_mapped :: bool

text \<open>\<open>serve\<close> up to the server's loop: the configuration, the coordinator, and its first sweep.\<close>

definition serve ::
  "mesh_sys \<Rightarrow> bool \<Rightarrow> string \<Rightarrow> bool option \<Rightarrow> string option \<Rightarrow> exn + http_config \<times> mesh" where
  "serve s mapped host allow_arg token_arg =
     (let e = s_env (ms_sys s);
          token = some_text (strip (case token_arg of Some t \<Rightarrow> t | None \<Rightarrow> env_get e ''SZL_MESH_CALLER_TOKEN'' []));
          open_ok = (case allow_arg of None \<Rightarrow> env_truthy e ''SZL_MESH_ALLOW_NON_LOOPBACK'' | Some b \<Rightarrow> b)
      in case check_bind mapped host token open_ok of
           Some msg \<Rightarrow> Inl (PyError ''CoordinatorConfigError'' msg)
         | None \<Rightarrow>
             let bound = env_get e ''SZL_MESH_MAX_BODY_BYTES'' []; tmo = env_get e ''SZL_MESH_READ_TIMEOUT_S'' [] in
             bindE (if bound = [] then Inr (4 * 1024 * 1024) else py_int (JStr bound)) (\<lambda>max_body.
             bindE (if tmo = [] then Inr (Fin 30) else py_float (ms_sys s) (JStr tmo)) (\<lambda>read_timeout.
               case refresh_reachability s True (new_mesh (build_workers e) (build_failover e)) of
                 (Some x, m) \<Rightarrow> Inl x
               | (None, m) \<Rightarrow> Inr (\<lparr>hc_token = token, hc_max = max_body, hc_timeout = read_timeout,
                                    hc_mapped = mapped\<rparr>, m))))"

section \<open>Requests and replies\<close>

datatype body_end = Eof | Stall | Reset exn

record http_req =
  hq_method :: string
  hq_target :: string                      \<comment> \<open>\<open>self.path\<close>\<close>
  hq_headers :: "(string \<times> string) list"
  hq_peer :: "string option"
  hq_input :: string
  hq_end :: body_end

record reply =
  rp_status :: int
  rp_headers :: "(string \<times> string) list"
  rp_body :: string

definition header_all :: "string \<Rightarrow> http_req \<Rightarrow> string list" where
  "header_all name q = map snd (filter (\<lambda>(k, v). lower k = lower name) (hq_headers q))"

definition send_json :: "mesh_sys \<Rightarrow> int \<Rightarrow> json \<Rightarrow> (string \<times> string) list \<Rightarrow> reply" where
  "send_json s code obj extra =
     (let payload = utf8 (dumps (default_opts (s_frepr (ms_sys s))) obj)
      in \<lparr>rp_status = code,
          rp_headers = [(''Content-Type'', ''application/json'')] @ extra
            @ [(''Content-Length'', show_nat (length payload)), (''Connection'', ''close'')],
          rp_body = payload\<rparr>)"

definition err :: "mesh_sys \<Rightarrow> int \<Rightarrow> string \<Rightarrow> string \<Rightarrow> (string \<times> string) list \<Rightarrow> reply" where
  "err s code kind msg extra =
     send_json s code (JObj [(''error'', JObj [(''message'', JStr msg), (''type'', JStr kind)])]) extra"

section \<open>The caller gate\<close>

definition caller_authorized :: "string option \<Rightarrow> string option \<Rightarrow> bool" where
  "caller_authorized header_value token =
     (case (token, header_value) of
        (Some t, Some h) \<Rightarrow>
          t \<noteq> [] \<and> h \<noteq> [] \<and>
          (let (scheme, _, cred) = partition_at (CHR '' '') (strip h)
           in lower scheme = ''bearer'' \<and> utf8 (strip cred) = utf8 t)
      | _ \<Rightarrow> False)"

text \<open>\<open>_authorize\<close>: \<open>Some\<close> the rejection it sends.\<close>

definition authorize :: "mesh_sys \<Rightarrow> http_config \<Rightarrow> http_req \<Rightarrow> reply option" where
  "authorize s c q =
     (case hc_token c of
        Some t \<Rightarrow>
          if caller_authorized (case header_all ''Authorization'' q of [] \<Rightarrow> None | v # _ \<Rightarrow> Some v) (Some t)
          then None
          else Some (err s 401 ''unauthorized'' ''caller bearer token required'' [(''WWW-Authenticate'', ''Bearer'')])
      | None \<Rightarrow>
          if is_loopback_host (hc_mapped c) (case hq_peer q of None \<Rightarrow> [] | Some p \<Rightarrow> p) then None
          else Some (err s 403 ''forbidden'' ''no caller token configured; loopback peers only'' []))"

section \<open>The body\<close>

datatype body_read = Rejected reply | Body "string option" | Escaped exn

definition rfile_read :: "nat \<Rightarrow> http_req \<Rightarrow> exn + string" where
  "rfile_read n q =
     (if n \<le> length (hq_input q) then Inr (take n (hq_input q))
      else case hq_end q of
        Eof \<Rightarrow> Inr (hq_input q)
      | Stall \<Rightarrow> Inl (PyError ''TimeoutError'' ''timed out'')
      | Reset e \<Rightarrow> Inl e)"

text \<open>The comparison of decimals that avoids \<open>int()\<close> on a long string.\<close>

definition normal_digits :: "string \<Rightarrow> string" where
  "normal_digits raw = (let d = dropWhile (\<lambda>c. c = CHR ''0'') raw in if d = [] then ''0'' else d)"

definition over_limit :: "int \<Rightarrow> string \<Rightarrow> bool" where
  "over_limit max_body digits =
     (let limit = show_int max_body in
      max_body < 0 \<or> length limit < length digits \<or> (length digits = length limit \<and> limit < digits))"

definition read_body :: "mesh_sys \<Rightarrow> http_config \<Rightarrow> http_req \<Rightarrow> body_read" where
  "read_body s c q =
     (if header_all ''Transfer-Encoding'' q \<noteq> []
      then Rejected (err s 411 ''length_required'' ''Transfer-Encoding not supported; send Content-Length'' [])
      else case header_all ''Content-Length'' q of
        [] \<Rightarrow> if hq_method q = ''POST''
              then Rejected (err s 411 ''length_required'' ''Content-Length required'' []) else Body None
      | value # others \<Rightarrow>
          if others \<noteq> [] then Rejected (err s 400 ''bad_content_length'' ''multiple Content-Length headers'' [])
          else
            let raw = strip_by (\<lambda>ch. ch = CHR '' '' \<or> ch = CHR 0x09) value in
            if raw = [] \<or> \<not> list_all ascii_digit raw
            then Rejected (err s 400 ''bad_content_length'' ''malformed or negative Content-Length'' [])
            else
              let digits = normal_digits raw in
              if over_limit (hc_max c) digits
              then Rejected (err s 413 ''payload_too_large'' (''body exceeds '' @ show_int (hc_max c) @ '' bytes'') [])
              else
                let n = digits_val digits in
                if n = 0 then Body None
                else case rfile_read n q of
                  Inl (PyError cls msg) \<Rightarrow>
                    if cls = ''TimeoutError''
                    then Rejected (err s 408 ''request_timeout'' ''body read timed out'' [])
                    else Escaped (PyError cls msg)
                | Inl e \<Rightarrow> Escaped e
                | Inr body \<Rightarrow>
                    if length body \<noteq> n then Rejected (err s 400 ''short_body'' ''body shorter than Content-Length'' [])
                    else Body (Some body))"

section \<open>The handler\<close>

definition route_proxy :: "mesh_sys \<Rightarrow> http_config \<Rightarrow> http_req \<Rightarrow> string \<Rightarrow> mesh \<Rightarrow> (exn + reply) \<times> mesh" where
  "route_proxy s c q path m =
     (case read_body s c q of
        Rejected r \<Rightarrow> (Inr r, m)
      | Escaped e \<Rightarrow> (Inl e, m)
      | Body body \<Rightarrow>
          let all = dupdate [] (hq_headers q);
              hs = (if hc_token c = None then all
                    else filter (\<lambda>(k, v). lower k \<noteq> ''authorization'') all);
              (out, m') = proxy s (hq_method q) (drop 3 path) body hs True m
          in case out of
               Crashed e \<Rightarrow> (Inl e, m')
             | CoordinatorError msg attempts \<Rightarrow> (Inr (send_json s 502 (JObj [
                 (''error'', JObj [(''message'', JStr msg), (''type'', JStr ''mesh_no_reachable_worker'')]),
                 (''x_szl_provenance'', JObj [
                    (''serve_tier'', JStr ''hf-failover''), (''served_by'', JNull),
                    (''attempts'', JArr (map mesh_attempt_json attempts)),
                    (''doctrine'', JStr ''no reachable worker; never fabricate, never claim a down node served.'')])]) []), m')
             | Proxied st hdrs raw attempts \<Rightarrow>
                 (Inr \<lparr>rp_status = st,
                       rp_headers = hdrs @ [(''Content-Length'', show_nat (length raw)), (''Connection'', ''close'')],
                       rp_body = raw\<rparr>, m'))"

definition route :: "mesh_sys \<Rightarrow> http_config \<Rightarrow> http_req \<Rightarrow> mesh \<Rightarrow> (exn + reply) \<times> mesh" where
  "route s c q m =
     (let path = fst (partition_at (CHR ''?'') (hq_target q));
          is_status = (path = ''/coordinator/status'' \<or> path = ''/status'')
      in if path = ''/healthz''
         then let (t, m') = mesh_time s m in
           (Inr (send_json s 200 (JObj [(''ok'', JBool True), (''service'', JStr ''szl-mesh-coordinator''),
              (''ts'', JInt (py_trunc t))]) []), m')
         else if \<not> is_status \<and> \<not> startswith ''/v1/'' path
         then (Inr (send_json s 404 (JObj [(''error'', JStr ''not found''), (''path'', JStr path)]) []), m)
         else case authorize s c q of
           Some r \<Rightarrow> (Inr r, m)
         | None \<Rightarrow>
             if is_status
             then (case mesh_status s m of
                 (Inl e, m') \<Rightarrow> (Inl e, m')
               | (Inr j, m') \<Rightarrow> (Inr (send_json s 200 j []), m'))
             else route_proxy s c q path m)"

section \<open>Decimal strings\<close>

lemma digits_val_snoc: "digits_val (s @ [c]) = 10 * digits_val s + digit_val c"
  by (simp add: digits_val_def)

lemma digits_val_Nil [simp]: "digits_val [] = 0"
  by (simp add: digits_val_def)

lemma foldl_digits: "foldl (\<lambda>n c. 10 * n + digit_val c) a s = a * 10 ^ length s + digits_val s"
proof (induction s rule: rev_induct)
  case (snoc c s)
  then show ?case by (simp add: digits_val_def algebra_simps)
qed (simp add: digits_val_def)

lemma digits_val_Cons: "digits_val (c # s) = digit_val c * 10 ^ length s + digits_val s"
  using foldl_digits [of "digit_val c" s] by (simp add: digits_val_def)

lemma ascii_digit_code: "ascii_digit c \<longleftrightarrow> (48::nat) \<le> of_char c \<and> (of_char c :: nat) \<le> 57"
  by (simp add: ascii_digit_def Let_def)

lemma digit_val_less: "ascii_digit c \<Longrightarrow> digit_val c < 10"
  by (auto simp: ascii_digit_code digit_val_def)

lemma digits_val_bound: "list_all ascii_digit s \<Longrightarrow> digits_val s < 10 ^ length s"
proof (induction s)
  case (Cons c s)
  then have "digit_val c * 10 ^ length s + digits_val s < (digit_val c + 1) * 10 ^ length s" by simp
  also have "\<dots> \<le> 10 * 10 ^ length s" using Cons.prems digit_val_less [of c] by (intro mult_le_mono) auto
  finally show ?case by (simp add: digits_val_Cons)
qed simp

lemma digit_order: "ascii_digit c \<Longrightarrow> ascii_digit d \<Longrightarrow> c < d \<longleftrightarrow> digit_val c < digit_val d"
  by (auto simp: less_char_def ascii_digit_code digit_val_def)

lemma digit_inj: "ascii_digit c \<Longrightarrow> ascii_digit d \<Longrightarrow> digit_val c = digit_val d \<Longrightarrow> c = d"
  by (metis digit_order less_irrefl linorder_cases)

text \<open>Among decimals of one length the order of strings is the order of numbers.\<close>

lemma digits_val_lex:
  assumes "length s = length t" "list_all ascii_digit s" "list_all ascii_digit t"
  shows "s < t \<longleftrightarrow> digits_val s < digits_val t"
  using assms
proof (induction s t rule: list_induct2)
  case (Cons c s d t)
  have b: "digits_val s < 10 ^ length t" "digits_val t < 10 ^ length t"
    using Cons digits_val_bound [of s] digits_val_bound [of t] by auto
  have step: "x * 10 ^ length t + a < y * 10 ^ length t + b" if "x < y" "a < 10 ^ length t" for x y a b :: nat
  proof -
    have "x * 10 ^ length t + a < (x + 1) * 10 ^ length t" using that by simp
    also have "\<dots> \<le> y * 10 ^ length t" using that by (intro mult_le_mono1) simp
    finally show ?thesis by simp
  qed
  show ?case
  proof (cases "digit_val c" "digit_val d" rule: linorder_cases)
    case less
    with Cons.prems digit_order step b show ?thesis
      by (simp add: Cons.hyps digits_val_Cons Cons_less_Cons)
  next
    case equal
    with Cons.prems digit_inj have "c = d" by simp
    with Cons show ?thesis by (simp add: digits_val_Cons)
  next
    case greater
    then have "d < c" "digits_val (d # t) < digits_val (c # s)"
      using Cons.prems digit_order step b by (simp_all add: Cons.hyps digits_val_Cons)
    then show ?thesis by (auto simp: not_less)
  qed
qed simp

definition canonical :: "string \<Rightarrow> bool" where
  "canonical s \<longleftrightarrow> s \<noteq> [] \<and> list_all ascii_digit s \<and> (s = ''0'' \<or> hd s \<noteq> CHR ''0'')"

lemma zero_digit: "ascii_digit c \<Longrightarrow> digit_val c = 0 \<longleftrightarrow> c = CHR ''0''"
  using digit_inj [of c "CHR ''0''"] by (auto simp: ascii_digit_code digit_val_def)

lemma canonical_lower: "canonical s \<Longrightarrow> 1 < length s \<Longrightarrow> 10 ^ (length s - 1) \<le> digits_val s"
proof (cases s)
  case (Cons c t)
  assume a: "canonical s" "1 < length s"
  with Cons have "digit_val c \<noteq> 0" using zero_digit [of c] by (auto simp: canonical_def)
  then have "1 * 10 ^ length t \<le> digit_val c * 10 ^ length t" by (intro mult_le_mono1) simp
  then have "10 ^ length t \<le> digit_val c * 10 ^ length t + digits_val t" by linarith
  with Cons show ?thesis by (simp add: digits_val_Cons)
qed (simp add: canonical_def)

lemma canonical_length:
  assumes "canonical s" "canonical t" "length s < length t"
  shows "digits_val s < digits_val t"
proof -
  have "digits_val s < 10 ^ length s" using assms(1) digits_val_bound by (simp add: canonical_def)
  also have "\<dots> \<le> 10 ^ (length t - 1)" using assms(3) by (intro power_increasing) auto
  also have "\<dots> \<le> digits_val t" using assms canonical_lower [of t] by (simp add: canonical_def) (metis One_nat_def Suc_lessI length_greater_0_conv less_trans_Suc)
  finally show ?thesis .
qed

lemma show_nat_canonical: "canonical (show_nat n) \<and> digits_val (show_nat n) = n"
proof (induction n rule: less_induct)
  case (less n)
  have d: "ascii_digit (char_of (48 + k)) \<and> digit_val (char_of (48 + k)) = k" if "k < 10" for k :: nat
    using that by (simp add: ascii_digit_code digit_val_def)
  show ?case
  proof (cases "n < 10")
    case True
    then show ?thesis using d [OF True] zero_digit
      by (auto simp: show_nat.simps [of n] canonical_def digits_val_Cons)
  next
    case False
    let ?s = "show_nat (n div 10)"
    have i: "canonical ?s" "digits_val ?s = n div 10" using less.IH [of "n div 10"] False by auto
    have "?s \<noteq> ''0''" using i(2) False by (auto simp: digits_val_Cons digit_val_def)
    with i d [of "n mod 10"] show ?thesis
      by (auto simp: show_nat.simps [of n] False canonical_def digits_val_snoc)
  qed
qed

lemma normal_digits_canonical:
  assumes "raw \<noteq> []" "list_all ascii_digit raw"
  shows "canonical (normal_digits raw) \<and> digits_val (normal_digits raw) = digits_val raw"
proof -
  let ?d = "dropWhile (\<lambda>c. c = CHR ''0'') raw"
  have v: "digits_val (dropWhile (\<lambda>c. c = CHR ''0'') r) = digits_val r" for r
    by (induction r) (auto simp: digits_val_Cons digit_val_def)
  have "list_all ascii_digit ?d" using assms(2) by (auto simp: list_all_iff dest: set_dropWhileD)
  moreover have "?d \<noteq> [] \<Longrightarrow> hd ?d \<noteq> CHR ''0''" by (rule hd_dropWhile)
  moreover have "digits_val ''0'' = 0" by (simp add: digits_val_Cons digit_val_def)
  moreover have "ascii_digit (CHR ''0'')" by (simp add: ascii_digit_code)
  ultimately show ?thesis using v [of raw]
    by (cases "?d = []") (simp_all add: normal_digits_def Let_def canonical_def del: dropWhile_eq_Nil_conv)
qed

text \<open>So the textual comparison is the comparison of the numbers.\<close>

lemma over_limit_iff:
  assumes "canonical d"
  shows "over_limit bound d \<longleftrightarrow> bound < int (digits_val d)"
proof (cases "bound < 0")
  case False
  let ?l = "show_nat (nat bound)"
  have l: "canonical ?l" "digits_val ?l = nat bound" using show_nat_canonical by auto
  have "length ?l < length d \<or> (length d = length ?l \<and> ?l < d) \<longleftrightarrow> digits_val ?l < digits_val d"
  proof (cases "length d" "length ?l" rule: linorder_cases)
    case less
    with canonical_length [OF assms l(1)] show ?thesis by simp
  next
    case equal
    with digits_val_lex [of ?l d] assms l(1) show ?thesis by (simp add: canonical_def)
  next
    case greater
    with canonical_length [OF l(1) assms] show ?thesis by simp
  qed
  with False l(2) show ?thesis by (auto simp: over_limit_def show_int_def Let_def)
qed (simp add: over_limit_def)

section \<open>What the handler lets through\<close>

lemma read_body_bounded:
  assumes "read_body s c q = Body b"
  shows "case b of None \<Rightarrow> True | Some body \<Rightarrow> int (length body) \<le> hc_max c
    \<and> body = take (length body) (hq_input q)
    \<and> (\<exists>v. header_all ''Content-Length'' q = [v] \<and> header_all ''Transfer-Encoding'' q = []
         \<and> length body = digits_val (strip_by (\<lambda>ch. ch = CHR '' '' \<or> ch = CHR 0x09) v))"
proof (cases b)
  case (Some body)
  let ?strip = "strip_by (\<lambda>ch. ch = CHR '' '' \<or> ch = CHR 0x09)"
  from assms Some obtain v where v: "header_all ''Content-Length'' q = [v]" "header_all ''Transfer-Encoding'' q = []"
    "?strip v \<noteq> []" "list_all ascii_digit (?strip v)" "\<not> over_limit (hc_max c) (normal_digits (?strip v))"
    "rfile_read (digits_val (normal_digits (?strip v))) q = Inr body"
    "length body = digits_val (normal_digits (?strip v))"
    by (auto simp: read_body_def Let_def split: if_splits list.splits sum.splits exn.splits)
  with normal_digits_canonical over_limit_iff have "length body = digits_val (?strip v)"
    "int (length body) \<le> hc_max c" by (auto simp: not_less)
  moreover have "body = take (length body) (hq_input q)"
    using v(6) by (auto simp: rfile_read_def split: if_splits body_end.splits)
  ultimately show ?thesis using Some v(1,2) by auto
qed simp

lemma route_proxy_cases:
  assumes "route_proxy s c q path m = (x, m')"
  obtains (body) "m' = m"
    | (sent) b hs where "read_body s c q = Body b"
      "hs = (if hc_token c = None then dupdate [] (hq_headers q)
             else filter (\<lambda>(k, v). lower k \<noteq> ''authorization'') (dupdate [] (hq_headers q)))"
      "m' = snd (proxy s (hq_method q) (drop 3 path) b hs True m)"
proof (cases "read_body s c q")
  case (Body b)
  with assms sent show ?thesis by (auto simp: route_proxy_def Let_def split: prod.splits mesh_out.splits)
qed (use assms body in \<open>auto simp: route_proxy_def\<close>)

lemma route_cases:
  assumes "route s c q m = (x, m')" "m_wire m' \<noteq> m_wire m"
  obtains "authorize s c q = None" "route_proxy s c q (fst (partition_at (CHR ''?'') (hq_target q))) m = (x, m')"
proof -
  have st: "m_wire m2 = m_wire m" if "mesh_status s m = (y, m2)" for y m2
  proof -
    obtain e m1 where r: "refresh_reachability s True m = (e, m1)" by fastforce
    then have w: "m_wire m1 = m_wire m" using refresh_fixed by (simp add: only_probed_def)
    with that r show ?thesis
      by (auto simp: mesh_status_def split: option.splits prod.splits dest: pick_order_frame)
  qed
  from assms that show ?thesis
    by (auto simp: route_def Let_def mesh_time_def split: if_splits option.splits prod.splits sum.splits dest: st)
qed

text \<open>The headers of a request the coordinator sends, as far as credentials go.\<close>

definition credentials :: "mesh_req \<Rightarrow> string list" where
  "credentials q = map snd (filter (\<lambda>(k, v). lower k = ''authorization'') (mq_headers q))"

lemma update_absent: "\<not> has_key d k \<Longrightarrow> AList.update k v d = d @ [(k, v)]"
  by (induction d) auto

lemma filter_dset:
  "\<not> P k \<Longrightarrow> filter (\<lambda>(k, v). P k) (dset k v d) = filter (\<lambda>(k, v). P k) d"
  by (induction d) auto

lemma upstream_credentials:
  assumes "list_all (\<lambda>(k, v). lower k \<noteq> ''authorization'') hs"
  shows "map snd (filter (\<lambda>(k, v). lower k = ''authorization'') (upstream_request_headers e inject w host port hs))
    = (case (if inject then worker_key e w else None) of None \<Rightarrow> [] | Some key \<Rightarrow> [''Bearer '' @ key])"
proof -
  let ?kept = "filter (\<lambda>(k, v). lower k \<notin> set HOP_BY_HOP \<and> lower k \<noteq> ''host'') hs"
  let ?named = "dset ''Host'' (host @ '':'' @ show_nat port) ?kept"
  have h: "lower ''Host'' \<noteq> ''authorization''" "lower ''Authorization'' = ''authorization''" by code_simp+
  have none: "filter (\<lambda>(k, v). lower k = ''authorization'') ?kept = []"
    using assms by (auto simp: filter_empty_conv list_all_iff)
  moreover have "filter (\<lambda>(k, v). lower k = ''authorization'') ?named
      = filter (\<lambda>(k, v). lower k = ''authorization'') ?kept"
    by (rule filter_dset [where P = "\<lambda>k. lower k = ''authorization''"]) (rule h(1))
  ultimately have n: "filter (\<lambda>(k, v). lower k = ''authorization'') ?named = []" by simp
  then have "\<not> has_key ?named ''Authorization''" using h(2) by (auto simp: filter_empty_conv)
  with n h(2) show ?thesis
    by (auto simp: upstream_request_headers_def update_absent split: option.split)
qed

lemma worker_request_parts:
  assumes "worker_request s meth sub body hs inject w = Inr r"
  shows "mq_body r = body \<and> (\<exists>host port. mq_headers r =
     upstream_request_headers (s_env (ms_sys s)) inject w host port hs)"
  using assms by (auto simp: worker_request_def bindE_Inr_iff split: prod.splits) blast

lemma mesh_wire:
  assumes "proxy s meth sub body hs inject m = (out, m')"
  shows "\<exists>us. m_wire m' = m_wire m @ concat (map (sent_one s meth sub body hs inject) us)"
  using proxy_result [OF assms]
proof (elim disjE exE conjE)
  fix e m1
  assume "refresh_reachability s False m = (Some e, m1)" "m' = m1"
  then show ?thesis using refresh_fixed by (intro exI [of _ "[]"]) (simp add: only_probed_def)
qed auto

text \<open>A request sent for \<open>q\<close>: its body and headers are the ones the boundary let through.\<close>

definition forwarded :: "mesh_sys \<Rightarrow> http_config \<Rightarrow> string option \<Rightarrow> string \<times> mesh_req \<Rightarrow> bool" where
  "forwarded s c b nr \<longleftrightarrow> (\<exists>w host port hs. wk_name w = fst nr \<and> mq_body (snd nr) = b
     \<and> mq_headers (snd nr) = upstream_request_headers (s_env (ms_sys s)) True w host port hs
     \<and> (hc_token c \<noteq> None \<longrightarrow> list_all (\<lambda>(k, v). lower k \<noteq> ''authorization'') hs))"

lemma sent_forwarded:
  assumes "hc_token c \<noteq> None \<longrightarrow> list_all (\<lambda>(k, v). lower k \<noteq> ''authorization'') hs"
  shows "list_all (forwarded s c b) (sent_one s meth sub b hs True u)"
  using assms unfolding sent_one_def forwarded_def
  by (auto split: sum.splits dest!: worker_request_parts)

lemma route_sends:
  assumes "route s c q m = (x, m')"
  shows "\<exists>qs. m_wire m' = m_wire m @ qs \<and> (qs \<noteq> [] \<longrightarrow> authorize s c q = None
    \<and> (\<exists>b. read_body s c q = Body b \<and> list_all (forwarded s c b) qs))"
proof (cases "m_wire m' = m_wire m")
  case False
  let ?path = "fst (partition_at (CHR ''?'') (hq_target q))"
  from assms False obtain a: "authorize s c q = None" and p: "route_proxy s c q ?path m = (x, m')"
    by (rule route_cases)
  from p show ?thesis
  proof (cases rule: route_proxy_cases)
    case body
    with False show ?thesis by simp
  next
    case (sent b hs)
    have free: "hc_token c \<noteq> None \<longrightarrow> list_all (\<lambda>(k, v). lower k \<noteq> ''authorization'') hs"
      using sent(2) by (auto simp: list_all_iff)
    obtain out where pr: "proxy s (hq_method q) (drop 3 ?path) b hs True m = (out, m')"
      using sent(3) by (metis prod.collapse)
    from mesh_wire [OF pr] obtain us where w: "m_wire m' = m_wire m
        @ concat (map (sent_one s (hq_method q) (drop 3 ?path) b hs True) us)" by blast
    have "list_all (forwarded s c b) (concat (map (sent_one s (hq_method q) (drop 3 ?path) b hs True) us))"
      by (induction us) (simp_all add: sent_forwarded [OF free])
    with w a sent(1) show ?thesis by blast
  qed
qed simp

section \<open>The properties\<close>

definition tiny_config :: http_config where
  "tiny_config = \<lparr>hc_token = Some ''tok'', hc_max = 5, hc_timeout = Fin 30, hc_mapped = True\<rparr>"

definition tiny_request :: "string \<Rightarrow> http_req" where
  "tiny_request auth = \<lparr>hq_method = ''POST'', hq_target = ''/v1/x'',
     hq_headers = [(''authorization'', auth), (''Content-Length'', ''02'')], hq_peer = Some ''10.0.0.1'',
     hq_input = ''hello'', hq_end = Eof\<rparr>"

text \<open>
  C12. The caller gate is closed by default. A request for \<open>/v1/\<close> or the status page whose caller is
  not authorised is answered with 401 or 403 and changes nothing: no sweep, no load, no request.
  Authorised means that the bearer token is the configured one or, with none configured, that the
  peer is on the loopback.
\<close>

theorem unauthorised_is_inert:
  assumes "fst (partition_at (CHR ''?'') (hq_target q)) \<noteq> ''/healthz''"
    and "startswith ''/v1/'' (fst (partition_at (CHR ''?'') (hq_target q)))
         \<or> fst (partition_at (CHR ''?'') (hq_target q)) \<in> {''/coordinator/status'', ''/status''}"
    and "case hc_token c of
        Some t \<Rightarrow> \<not> caller_authorized (case header_all ''Authorization'' q of [] \<Rightarrow> None | v # _ \<Rightarrow> Some v) (Some t)
      | None \<Rightarrow> \<not> is_loopback_host (hc_mapped c) (case hq_peer q of None \<Rightarrow> [] | Some p \<Rightarrow> p)"
  shows "\<exists>r. route s c q m = (Inr r, m) \<and> rp_status r = (if hc_token c = None then 403 else 401)"
proof -
  have "\<exists>r. authorize s c q = Some r \<and> rp_status r = (if hc_token c = None then 403 else 401)"
    using assms(3) by (cases "hc_token c") (simp_all add: authorize_def err_def send_json_def Let_def)
  with assms(1,2) show ?thesis by (auto simp: route_def Let_def)
qed

theorem unauthorised_is_inert_witness:
  "\<exists>r. route demo_mesh_sys tiny_config (tiny_request ''Bearer nope'') demo_mesh = (Inr r, demo_mesh) \<and> rp_status r = 401"
proof -
  have "fst (partition_at (CHR ''?'') ''/v1/x'') = ''/v1/x''" by code_simp
  moreover have "startswith ''/v1/'' ''/v1/x''" by code_simp
  moreover have "\<not> caller_authorized (case header_all ''Authorization'' (tiny_request ''Bearer nope'') of
      [] \<Rightarrow> None | v # _ \<Rightarrow> Some v) (Some ''tok'')" by code_simp
  ultimately show ?thesis
    using unauthorised_is_inert [of "tiny_request ''Bearer nope''" tiny_config]
    by (simp add: tiny_request_def tiny_config_def)
qed

text \<open>
  The coordinator's token stays inside. When a caller token is configured, no request sent to a
  worker carries any of the caller's \<open>Authorization\<close> headers, however they were spelled: the only
  credential in it is the worker's own key, if it has one.
\<close>

theorem caller_token_stays:
  assumes "route s c q m = (x, m')" "hc_token c \<noteq> None" "m_wire m' = m_wire m @ qs" "(n, r) \<in> set qs"
  shows "\<exists>w. wk_name w = n
    \<and> credentials r = (case worker_key (s_env (ms_sys s)) w of None \<Rightarrow> [] | Some key \<Rightarrow> [''Bearer '' @ key])"
proof -
  from route_sends [OF assms(1)] assms(3,4) obtain b where "forwarded s c b (n, r)"
    by (auto simp: list_all_iff)
  with assms(2) obtain w host port hs where w: "wk_name w = n"
    "mq_headers r = upstream_request_headers (s_env (ms_sys s)) True w host port hs"
    "list_all (\<lambda>(k, v). lower k \<noteq> ''authorization'') hs"
    by (auto simp: forwarded_def)
  from upstream_credentials [OF w(3), of "s_env (ms_sys s)" True w host port]
  have "credentials r = (case worker_key (s_env (ms_sys s)) w of None \<Rightarrow> [] | Some key \<Rightarrow> [''Bearer '' @ key])"
    unfolding credentials_def w(2) by simp
  with w(1) show ?thesis by blast
qed

lemma tiny_route:
  "case route demo_mesh_sys tiny_config (tiny_request ''Bearer tok'') demo_mesh of (x, m) \<Rightarrow>
     map fst (m_wire m) = [''a''] \<and> map (mq_body \<circ> snd) (m_wire m) = [Some ''he'']"
  by code_simp

theorem caller_token_stays_witness:
  "map (credentials \<circ> snd) (m_wire (snd (route demo_mesh_sys tiny_config (tiny_request ''Bearer tok'') demo_mesh))) = [[]]"
proof -
  obtain x m' where r: "route demo_mesh_sys tiny_config (tiny_request ''Bearer tok'') demo_mesh = (x, m')" by fastforce
  with tiny_route obtain n rq where w: "m_wire m' = [(n, rq)]" by auto
  then have "m_wire m' = m_wire demo_mesh @ [(n, rq)]" by (simp add: demo_mesh_def new_mesh_def)
  from caller_token_stays [OF r _ this, of n rq]
  have "\<exists>w. credentials rq = (case worker_key (s_env (ms_sys demo_mesh_sys)) w of None \<Rightarrow> [] | Some key \<Rightarrow> [''Bearer '' @ key])"
    by (auto simp: tiny_config_def)
  moreover have "worker_key (s_env (ms_sys demo_mesh_sys)) w = None" for w
    by (simp add: worker_key_def demo_mesh_sys_def echo_sys_def pystr)
  ultimately show ?thesis using r w by simp
qed



text \<open>
  The length check is exact without \<open>int()\<close>. On any string of digits, leading zeros or not, the
  textual comparison says "over the limit" exactly when the number is larger than the limit, and a
  string it lets through has no more digits than the limit.
\<close>

theorem length_check_exact:
  assumes "raw \<noteq> []" "list_all ascii_digit raw"
  shows "over_limit bound (normal_digits raw) = (bound < int (digits_val raw))
    \<and> digits_val (normal_digits raw) = digits_val raw
    \<and> (\<not> over_limit bound (normal_digits raw) \<longrightarrow> length (normal_digits raw) \<le> length (show_int bound))"
proof -
  note c = normal_digits_canonical [OF assms]
  with over_limit_iff have "over_limit bound (normal_digits raw) = (bound < int (digits_val raw))" by metis
  moreover have "\<not> over_limit bound (normal_digits raw) \<Longrightarrow> length (normal_digits raw) \<le> length (show_int bound)"
    by (simp add: over_limit_def Let_def)
  ultimately show ?thesis using c by blast
qed

theorem length_check_exact_witness:
  "over_limit 99 (normal_digits ''00100'') \<and> \<not> over_limit 100 (normal_digits ''00100'')"
proof -
  have "list_all ascii_digit ''00100''" "digits_val ''00100'' = 100" by code_simp+
  with length_check_exact [of "''00100''"] show ?thesis by simp
qed

text \<open>
  The bind fails closed. A server that starts is bound to a loopback host, or it was both told
  to open up and given a non-empty caller token, which every request for \<open>/v1/\<close> must then present.
\<close>

theorem bind_fails_closed:
  assumes "serve s mapped host allow_arg token_arg = Inr (c, m)"
  shows "is_loopback_host mapped host
    \<or> (hc_token c \<noteq> None \<and> hc_token c \<noteq> Some [] \<and> (case allow_arg of
         Some b \<Rightarrow> b | None \<Rightarrow> env_truthy (s_env (ms_sys s)) ''SZL_MESH_ALLOW_NON_LOOPBACK''))"
  using assms
  by (auto simp: serve_def check_bind_def some_text_def Let_def bindE_Inr_iff
      split: option.splits if_splits prod.splits)

theorem bind_fails_closed_witness:
  "\<exists>c m. serve demo_mesh_sys True ''127.0.0.1'' None None = Inr (c, m) \<and> is_loopback_host True ''127.0.0.1''
    \<and> \<not> is_loopback_host True ''10.0.0.1''"
proof -
  have "case serve demo_mesh_sys True ''127.0.0.1'' None None of Inr (c, m) \<Rightarrow> hc_token c = None | Inl e \<Rightarrow> False"
    by code_simp
  then obtain c m where "serve demo_mesh_sys True ''127.0.0.1'' None None = Inr (c, m)" "hc_token c = None"
    by (auto split: sum.splits)
  moreover have "\<not> is_loopback_host True ''10.0.0.1''" by code_simp
  ultimately show ?thesis using bind_fails_closed by blast
qed

end
