(* ===== verification/Harvest.thy ===== *)
theory Harvest
  imports Retry Spend
begin

text \<open>
  The wasted-energy signal of \<open>szl_router/core.py\<close>: the three public feeds with the honest
  \<open>unreachable\<close> answer, the classification, the cached \<open>harvest_status\<close>, the admission gate
  \<open>should_soak_wasted_energy\<close>, and \<open>fabric_status\<close> over the provider registry.

  The network is a parameter: the \<open>k\<close>-th GET returns parsed JSON or raises. Feed values are
  arbitrary JSON, so the operations on them raise what Python raises, with its text. Two lists, or
  two dictionaries, of a feed are not compared: that raises in the model, and it raises in the code at
  the latest where the prices are compared with 0, perhaps with another text. One dash outside Latin-1
  in a text of the ladder is written as a hyphen.
\<close>

section \<open>Operations on arbitrary values\<close>

fun type_name :: "json \<Rightarrow> string" where
  "type_name JNull = ''NoneType''"
| "type_name (JBool b) = ''bool''"
| "type_name (JInt i) = ''int''"
| "type_name (JFloat f) = ''float''"
| "type_name (JStr s) = ''str''"
| "type_name (JArr xs) = ''list''"
| "type_name (JObj d) = ''dict''"

definition quoted :: "string \<Rightarrow> string" where
  "quoted s = [CHR 0x27] @ s @ [CHR 0x27]"

fun number :: "json \<Rightarrow> pyfloat option" where
  "number (JBool b) = Some (Fin (if b then 1 else 0))"
| "number (JInt i) = Some (Fin (of_int i))"
| "number (JFloat f) = Some f"
| "number _ = None"

definition unordered :: "string \<Rightarrow> json \<Rightarrow> json \<Rightarrow> exn" where
  "unordered rel a b = TypeError (quoted rel @ '' not supported between instances of ''
     @ quoted (type_name a) @ '' and '' @ quoted (type_name b))"

text \<open>\<open>a < b\<close>, reported with the operator the source wrote.\<close>

definition py_less :: "string \<Rightarrow> bool \<Rightarrow> json \<Rightarrow> json \<Rightarrow> exn + bool" where
  "py_less rel swapped a b =
     (case (number a, number b) of
        (Some x, Some y) \<Rightarrow> Inr (pf_less x y)
      | _ \<Rightarrow> (case (a, b) of
           (JStr s, JStr t) \<Rightarrow> Inr (s < t)
         | _ \<Rightarrow> Inl (if swapped then unordered rel b a else unordered rel a b)))"

definition py_leq :: "json \<Rightarrow> json \<Rightarrow> exn + bool" where
  "py_leq a b =
     (case (number a, number b) of
        (Some x, Some y) \<Rightarrow> Inr (pf_le x y)
      | _ \<Rightarrow> (case (a, b) of (JStr s, JStr t) \<Rightarrow> Inr (s \<le> t) | _ \<Rightarrow> Inl (unordered ''<='' a b)))"

text \<open>\<open>v.get(k)\<close>\<close>

definition py_get :: "json \<Rightarrow> string \<Rightarrow> exn + json" where
  "py_get v k = (case v of JObj d \<Rightarrow> Inr (dget_or_null d k)
     | _ \<Rightarrow> Inl (PyError ''AttributeError'' (quoted (type_name v) @ '' object has no attribute '' @ quoted ''get'')))"

text \<open>\<open>list(v)\<close> as a \<open>for\<close> loop sees it, and \<open>v[0]\<close>.\<close>

definition py_iter :: "json \<Rightarrow> exn + json list" where
  "py_iter v = (case v of
     JArr xs \<Rightarrow> Inr xs
   | JObj d \<Rightarrow> Inr (map (JStr \<circ> fst) d)
   | JStr s \<Rightarrow> Inr (map (\<lambda>c. JStr [c]) s)
   | _ \<Rightarrow> Inl (TypeError (quoted (type_name v) @ '' object is not iterable'')))"

definition py_first :: "json \<Rightarrow> exn + json" where
  "py_first v = (case v of
     JArr (x # _) \<Rightarrow> Inr x
   | JArr [] \<Rightarrow> Inl (PyError ''IndexError'' ''list index out of range'')
   | JStr (c # _) \<Rightarrow> Inr (JStr [c])
   | JStr [] \<Rightarrow> Inl (PyError ''IndexError'' ''string index out of range'')
   | JObj _ \<Rightarrow> Inl (PyError ''KeyError'' ''0'')
   | _ \<Rightarrow> Inl (TypeError (quoted (type_name v) @ '' object is not subscriptable'')))"

definition or_else :: "json \<Rightarrow> json \<Rightarrow> json" where
  "or_else v d = (if truthy v then v else d)"

section \<open>State and feeds\<close>

record harvest_sys =
  hs_sys :: sys
  hs_get :: "nat \<Rightarrow> string \<Rightarrow> exn + json"   \<comment> \<open>\<open>_get_json\<close>, the \<open>k\<close>-th call\<close>

record harvest =
  hv_ts :: rat
  hv_data :: "jdict option"
  hv_ticks :: nat
  hv_gets :: nat

definition wholesale_url :: string where
  "wholesale_url = ''https://api.awattar.de/v1/marketdata''"

definition renewable_url :: string where
  "renewable_url = ''https://api.energy-charts.info/ren_share?country=de''"

definition carbon_url :: string where
  "carbon_url = ''https://api.carbonintensity.org.uk/intensity''"

definition unreachable :: "exn \<Rightarrow> string \<Rightarrow> jdict" where
  "unreachable e source = [(''status'', JStr ''unreachable''),
     (''error'', JStr (take 120 (exn_class e @ '': '' @ exn_str e))), (''source'', JStr source)]"

text \<open>One row of the price feed, with the price that is current and those that lie ahead so far.\<close>

definition price_row :: "json \<Rightarrow> json \<Rightarrow> json \<times> json list \<Rightarrow> exn + json \<times> json list" where
  "price_row now_ms r acc =
     bindE (py_get r ''start_timestamp'') (\<lambda>st.
     bindE (py_get r ''end_timestamp'') (\<lambda>en.
     bindE (py_get r ''marketprice'') (\<lambda>mp.
       if st = JNull \<or> en = JNull \<or> mp = JNull then Inr acc
       else bindE (py_leq st now_ms) (\<lambda>started.
            bindE (if started then py_less ''<'' False now_ms en else Inr False) (\<lambda>current.
              if current then Inr (mp, snd acc)
              else bindE (py_less ''>'' True now_ms st) (\<lambda>ahead.
                Inr (if ahead then (fst acc, snd acc @ [mp]) else acc)))))))"

fun price_rows :: "json \<Rightarrow> json list \<Rightarrow> json \<times> json list \<Rightarrow> exn + json \<times> json list" where
  "price_rows now_ms [] acc = Inr acc"
| "price_rows now_ms (r # rs) acc = bindE (price_row now_ms r acc) (price_rows now_ms rs)"

text \<open>\<open>min(nxt)\<close>, \<open>max(nxt)\<close>, and how many are below 0.\<close>

fun extreme :: "(json \<Rightarrow> json \<Rightarrow> exn + bool) \<Rightarrow> json \<Rightarrow> json list \<Rightarrow> exn + json" where
  "extreme better cur [] = Inr cur"
| "extreme better cur (x # xs) = bindE (better x cur) (\<lambda>b. extreme better (if b then x else cur) xs)"

definition min_or_null :: "json list \<Rightarrow> exn + json" where
  "min_or_null xs = (case xs of [] \<Rightarrow> Inr JNull | y # ys \<Rightarrow> extreme (\<lambda>x cur. py_less ''<'' False x cur) y ys)"

definition max_or_null :: "json list \<Rightarrow> exn + json" where
  "max_or_null xs = (case xs of [] \<Rightarrow> Inr JNull | y # ys \<Rightarrow> extreme (\<lambda>x cur. py_less ''>'' True cur x) y ys)"

fun count_negative :: "json list \<Rightarrow> exn + nat" where
  "count_negative [] = Inr 0"
| "count_negative (x # xs) =
     bindE (py_less ''<'' False x (JInt 0)) (\<lambda>b. bindE (count_negative xs) (\<lambda>n. Inr (if b then Suc n else n)))"

definition read_prices :: "json \<Rightarrow> json \<Rightarrow> exn + jdict" where
  "read_prices d now_ms =
     bindE (py_get d ''data'') (\<lambda>data.
     bindE (py_iter (or_else data (JArr []))) (\<lambda>rows.
     bindE (price_rows now_ms rows (JNull, [])) (\<lambda>(price_now, nxt).
     bindE (min_or_null nxt) (\<lambda>lo.
     bindE (max_or_null nxt) (\<lambda>hi.
     bindE (count_negative nxt) (\<lambda>n.
       Inr [(''status'', JStr ''live''), (''market'', JStr ''DE''), (''unit'', JStr ''EUR/MWh''),
            (''price_now'', price_now), (''next_min'', lo), (''next_max'', hi),
            (''next_negative_windows'', JInt (int n)), (''source'', JStr ''api.awattar.de'')]))))))"

definition get_json :: "harvest_sys \<Rightarrow> string \<Rightarrow> harvest \<Rightarrow> (exn + json) \<times> harvest" where
  "get_json s url h = (hs_get s (hv_gets h) url, h\<lparr>hv_gets := Suc (hv_gets h)\<rparr>)"

definition harvest_time :: "harvest_sys \<Rightarrow> harvest \<Rightarrow> rat \<times> harvest" where
  "harvest_time s h = (s_time (hs_sys s) (hv_ticks h), h\<lparr>hv_ticks := Suc (hv_ticks h)\<rparr>)"

definition fetch_awattar :: "harvest_sys \<Rightarrow> harvest \<Rightarrow> jdict \<times> harvest" where
  "fetch_awattar s h0 =
     (case get_json s wholesale_url h0 of
        (Inl e, h) \<Rightarrow> (unreachable e ''api.awattar.de'', h)
      | (Inr d, h) \<Rightarrow>
          (case py_get d ''data'' of
             Inl e \<Rightarrow> (unreachable e ''api.awattar.de'', h)
           | Inr _ \<Rightarrow>
               let (t, h') = harvest_time s h
               in case read_prices d (JFloat (Fin (t * 1000))) of
                    Inl e \<Rightarrow> (unreachable e ''api.awattar.de'', h')
                  | Inr r \<Rightarrow> (r, h')))"

definition is_number :: "json \<Rightarrow> bool" where
  "is_number v = (number v \<noteq> None)"

definition read_share :: "json \<Rightarrow> exn + jdict" where
  "read_share d =
     (let series = (case d of JArr (x # _) \<Rightarrow> x | _ \<Rightarrow> JObj []) in
      bindE (py_get series ''data'') (\<lambda>data.
      bindE (py_iter (or_else data (JArr []))) (\<lambda>items.
        let vals = filter is_number items in
        Inr [(''status'', JStr ''live''), (''country'', JStr ''DE''),
             (''renewable_share_pct'', if vals = [] then JNull else last vals),
             (''source'', JStr ''api.energy-charts.info'')])))"

definition fetch_ren_share_de :: "harvest_sys \<Rightarrow> harvest \<Rightarrow> jdict \<times> harvest" where
  "fetch_ren_share_de s h0 =
     (let (r, h) = get_json s renewable_url h0
      in (case bindE r read_share of Inl e \<Rightarrow> unreachable e ''api.energy-charts.info'' | Inr d \<Rightarrow> d, h))"

definition read_carbon :: "json \<Rightarrow> exn + jdict" where
  "read_carbon d =
     bindE (py_get d ''data'') (\<lambda>data.
     bindE (py_first (or_else data (JArr [JObj []]))) (\<lambda>rec.
     bindE (py_get (or_else rec (JObj [])) ''intensity'') (\<lambda>int0.
       let intensity = or_else int0 (JObj []) in
       bindE (py_get intensity ''actual'') (\<lambda>actual.
       bindE (py_get intensity ''forecast'') (\<lambda>forecast.
       bindE (py_get intensity ''index'') (\<lambda>index.
         Inr [(''status'', JStr ''live''), (''region'', JStr ''UK''),
              (''gco2_per_kwh'', if actual \<noteq> JNull then actual else forecast), (''index'', index),
              (''source'', JStr ''api.carbonintensity.org.uk'')]))))))"

definition fetch_uk_carbon :: "harvest_sys \<Rightarrow> harvest \<Rightarrow> jdict \<times> harvest" where
  "fetch_uk_carbon s h0 =
     (let (r, h) = get_json s carbon_url h0
      in (case bindE r read_carbon of Inl e \<Rightarrow> unreachable e ''api.carbonintensity.org.uk'' | Inr d \<Rightarrow> d, h))"

section \<open>The posture\<close>

text \<open>
  \<open>_classify_harvest\<close>, on prices that may be any JSON value; the share is a number or \<open>None\<close>. A
  comparison of a non-number with a float raises.
\<close>

definition opt_less :: "json \<Rightarrow> rat \<Rightarrow> exn + bool" where
  "opt_less v q = (if v = JNull then Inr False else py_less ''<'' False v (JFloat (Fin q)))"

definition classify_harvest :: "json \<Rightarrow> json \<Rightarrow> json \<Rightarrow> exn + string \<times> bool \<times> bool" where
  "classify_harvest price_now next_min ren =
     bindE (if next_min = JNull then Inr False else py_less ''<'' False next_min (JInt 0)) (\<lambda>ahead.
     bindE (if price_now = JNull then Inr False else py_less ''<'' False price_now (JInt 0)) (\<lambda>negative.
       if negative then Inr (''negative-price'', True, ahead)
       else bindE (if ren = JNull then Inr False else py_leq (JFloat (Fin 100)) ren) (\<lambda>curtailed.
         if curtailed then Inr (''curtailed-renewable'', True, ahead)
         else bindE (opt_less price_now 30) (\<lambda>cheap.
           if cheap then Inr (''cheap'', False, ahead)
           else bindE (if price_now = JNull then Inr False else py_less ''>'' True (JFloat (Fin 100)) price_now) (\<lambda>dear.
             if dear then Inr (''expensive'', False, ahead)
             else Inr (if price_now \<noteq> JNull \<or> ren \<noteq> JNull then ''normal'' else ''unknown'', False, ahead))))))"

definition live_field :: "jdict \<Rightarrow> string \<Rightarrow> json" where
  "live_field d k = (if dget_or_null d ''status'' = JStr ''live'' then dget_or_null d k else JNull)"

definition harvest_data :: "string \<times> bool \<times> bool \<Rightarrow> jdict \<Rightarrow> jdict \<Rightarrow> jdict \<Rightarrow> jdict" where
  "harvest_data c awattar ren carbon =
     (let (posture, wasted, ahead) = c;
          any_live = list_ex (\<lambda>d. dget_or_null d ''status'' = JStr ''live'') [awattar, ren, carbon]
      in [(''status'', JStr (if any_live then ''live'' else ''unreachable'')),
          (''grid_price_posture'', JStr posture), (''wasted_energy_available'', JBool wasted),
          (''next_window_negative'', JBool ahead), (''energy_source'', JStr ''free-public-grid-feeds''),
          (''joules_label'', JStr ''sample''), (''sovereign'', JBool False),
          (''signals'', JObj [(''wholesale_price'', JObj awattar), (''renewable_share'', JObj ren),
             (''carbon_intensity'', JObj carbon)]),
          (''doctrine'', JStr (''we soak ALREADY-WASTED grid energy; no free-energy; joules SAMPLE ''
             @ ''until an on-box meter; this grid signal NEVER sets sovereign:true.'')),
          (''cached'', JBool False)])"

definition probe_feeds :: "harvest_sys \<Rightarrow> rat \<Rightarrow> harvest \<Rightarrow> (exn + jdict) \<times> harvest" where
  "probe_feeds s t h0 =
     (let (awattar, h1) = fetch_awattar s h0;
          (ren, h2) = fetch_ren_share_de s h1;
          (carbon, h3) = fetch_uk_carbon s h2
      in case classify_harvest (live_field awattar ''price_now'') (live_field awattar ''next_min'')
                (live_field ren ''renewable_share_pct'') of
           Inl e \<Rightarrow> (Inl e, h3)
         | Inr c \<Rightarrow>
             let data = harvest_data c awattar ren carbon
             in (Inr data, h3\<lparr>hv_ts := t, hv_data := Some data\<rparr>))"

definition not_probed :: jdict where
  "not_probed = [
     (''status'', JStr ''not-probed''), (''grid_price_posture'', JStr ''unknown''),
     (''wasted_energy_available'', JBool False), (''next_window_negative'', JBool False),
     (''energy_source'', JStr ''free-public-grid-feeds''), (''joules_label'', JStr ''sample''),
     (''sovereign'', JBool False), (''note'', JStr ''offline: no network probe performed'')]"

definition harvest_status :: "harvest_sys \<Rightarrow> bool \<Rightarrow> bool \<Rightarrow> harvest \<Rightarrow> (exn + jdict) \<times> harvest" where
  "harvest_status s allow_network force h0 =
     (let (t, h) = harvest_time s h0 in
      case hv_data h of
        Some d \<Rightarrow>
          if (\<not> force \<and> t - hv_ts h < 300) \<or> \<not> allow_network
          then (Inr (dset ''cached'' (JBool True) d), h)
          else probe_feeds s t h
      | None \<Rightarrow> if \<not> allow_network then (Inr not_probed, h) else probe_feeds s t h)"

definition should_soak_wasted_energy :: "harvest_sys \<Rightarrow> bool \<Rightarrow> harvest \<Rightarrow> bool \<times> harvest" where
  "should_soak_wasted_energy s allow_network h =
     (case harvest_status s allow_network False h of
        (Inl e, h') \<Rightarrow> (False, h')
      | (Inr d, h') \<Rightarrow> (truthy (dget_or_null d ''wasted_energy_available''), h'))"

section \<open>The fabric\<close>

definition fabric_row :: "env \<Rightarrow> string \<times> provider \<Rightarrow> jdict" where
  "fabric_row e np = (let p = snd np in [
     (''provider'', JStr (fst np)),
     (''armed'', JBool (available e p \<and> tier_of p \<in> {''sovereign'', ''free-grid''})),
     (''sovereign'', JBool (p_sovereign p)), (''energy_source'', JStr (p_energy_source p)),
     (''note'', JStr (p_note p))])"

definition fabric_tier :: "env \<Rightarrow> (string \<Rightarrow> bool) \<Rightarrow> jdict list" where
  "fabric_tier e P = map (fabric_row e) (filter (\<lambda>np. P (tier_of (snd np))) PROVIDERS)"

definition armed_rows :: "jdict list \<Rightarrow> jdict list" where
  "armed_rows rows = filter (\<lambda>r. dget_or_null r ''armed'' = JBool True) rows"

definition fabric_posture :: "nat \<Rightarrow> nat \<Rightarrow> string" where
  "fabric_posture sov routes =
     (if 0 < sov \<and> 2 \<le> routes then ''green'' else if 1 \<le> routes then ''yellow'' else ''red'')"

definition harvest_hint :: "bool \<Rightarrow> bool \<Rightarrow> string" where
  "harvest_hint harvesting wasted =
     (if harvesting then ''real wasted-energy window open AND sovereign GPU up: bias ''
        @ ''proactive/batch routing to own metal now (grid is paying to offload).''
      else if wasted then ''wasted-energy window open but no sovereign node up: bring the GPU ''
        @ ''online to soak it; do NOT label grid as sovereign.''
      else ''no wasted-energy window; normal sovereign-first routing.'')"

definition strings :: "string list \<Rightarrow> json" where
  "strings xs = JArr (map JStr xs)"

definition fabric_ladder :: "jdict list \<Rightarrow> jdict list \<Rightarrow> jdict list \<Rightarrow> jdict list \<Rightarrow> json" where
  "fabric_ladder sovereign free_grid unqualified paid = JObj [
     (''tier_0_allodial_solar'', JObj [(''status'', JStr ''roadmap''),
        (''what'', JStr ''own weights + own solar + own metal = unkillable, sovereign:true''),
        (''energy_source'', JStr ''solar (not yet - claim only when literally true)'')]),
     (''tier_1_sovereign_gpu'', JObj [
        (''status'', JStr (if armed_rows sovereign \<noteq> [] then ''live''
                           else if sovereign \<noteq> [] then ''armed-but-down'' else ''absent'')),
        (''providers'', JArr (map JObj sovereign)),
        (''what'', JStr ''our own GPU node(s) over Tailscale; sovereign:true, grid power today'')]),
     (''tier_2_free_grid_faucets'', JObj [
        (''status'', JStr (if armed_rows free_grid \<noteq> [] then ''armed'' else ''unqualified'')),
        (''providers'', JArr (map JObj free_grid)),
        (''what'', JStr ''No cloud model is currently qualified as free by this source revision.'')]),
     (''unqualified_grid_candidates'', JObj [(''status'', JStr ''blocked''),
        (''providers'', JArr (map JObj unqualified)),
        (''what'', JStr ''Keys and URLs do not prove model pricing, quota, or terms; routes are disabled.'')]),
     (''tier_3_paid_grid'', JObj [(''providers'', JArr (map JObj paid)),
        (''what'', JStr (''paid cloud candidate (Kimi); blocked until exact pricing and strict ''
           @ ''pre-call reservation qualify it; sovereign:false''))])]"

definition fabric_status ::
  "harvest_sys \<Rightarrow> bool \<Rightarrow> bool \<Rightarrow> harvest \<Rightarrow> (exn + jdict) \<times> harvest" where
  "fabric_status s include_harvest allow_network h0 =
     (let e = s_env (hs_sys s);
          sovereign = fabric_tier e (\<lambda>t. t = ''sovereign'');
          paid = fabric_tier e (\<lambda>t. t = ''paid-grid'');
          free_grid = fabric_tier e (\<lambda>t. t = ''free-grid'');
          unqualified = fabric_tier e (\<lambda>t. t \<notin> {''sovereign'', ''paid-grid'', ''free-grid''});
          sov_up = length (armed_rows sovereign);
          routes = sov_up + length (armed_rows free_grid);
          posture = fabric_posture sov_up routes;
          (r, h) = (if include_harvest
                    then (let (x, h') = harvest_status s allow_network False h0 in (map_sum id Some x, h'))
                    else (Inr None, h0))
      in (bindE r (\<lambda>hv.
            let d = (case hv of None \<Rightarrow> [] | Some d \<Rightarrow> d);
                wasted = truthy (dget_or_null d ''wasted_energy_available'');
                harvesting = (wasted \<and> 0 < sov_up)
            in Inr ([
              (''posture'', JStr posture),
              (''display_state'', JStr (if harvesting then ''HARVESTING'' else posture)),
              (''harvesting'', JBool harvesting),
              (''energy_window'', (case hv of None \<Rightarrow> JStr ''not-probed'' | Some d \<Rightarrow> dget_or_null d ''grid_price_posture'')),
              (''wasted_energy_available'', JBool wasted),
              (''prefer_sovereign_for_batch'', JBool harvesting),
              (''harvest_hint'', JStr (harvest_hint harvesting wasted)),
              (''sovereign_up'', JBool (0 < sov_up)),
              (''routes_armed'', JInt (int routes)),
              (''ladder'', fabric_ladder sovereign free_grid unqualified paid),
              (''honest_energy_sources'', strings [''self-hosted'', ''grid'']),
              (''roadmap_energy_sources'', strings [''solar'', ''curtailed-wind'', ''hydro'', ''flare-mitigated'', ''biogas'']),
              (''doctrine'', JStr (''sovereign:true ONLY on own metal; energy_source claims must be real; ''
                 @ ''unqualified and paid cloud candidates are disabled; harvest is real grid data ''
                 @ ''(never sovereign); joules SAMPLE until an on-box meter; no half-state.''))]
              @ (case hv of None \<Rightarrow> [] | Some d \<Rightarrow> [(''harvest'', JObj d)]))), h))"

section \<open>What the signal can say\<close>

lemma fetch_frame:
  "fetch_awattar s h = (d, h') \<Longrightarrow> hv_data h' = hv_data h \<and> hv_ts h' = hv_ts h"
  "fetch_ren_share_de s h = (d, h') \<Longrightarrow> hv_data h' = hv_data h \<and> hv_ts h' = hv_ts h"
  "fetch_uk_carbon s h = (d, h') \<Longrightarrow> hv_data h' = hv_data h \<and> hv_ts h' = hv_ts h"
  by (auto simp: fetch_awattar_def fetch_ren_share_de_def fetch_uk_carbon_def get_json_def
      harvest_time_def Let_def split: sum.splits prod.splits)

lemma classify_wasted:
  "classify_harvest p m r = Inr (posture, wasted, ahead) \<Longrightarrow>
     wasted = (posture = ''negative-price'' \<or> posture = ''curtailed-renewable'')"
  by (auto simp: classify_harvest_def bindE_Inr_iff split: if_splits)

text \<open>
  The honest shape of a harvest answer: grid data never claims to be sovereign, joules stay a
  sample, and waste is claimed only under one of the two postures that mean it.
\<close>

definition honest_harvest :: "jdict \<Rightarrow> bool" where
  "honest_harvest d \<longleftrightarrow> dget_or_null d ''sovereign'' = JBool False
     \<and> dget_or_null d ''joules_label'' = JStr ''sample''
     \<and> dget_or_null d ''energy_source'' = JStr ''free-public-grid-feeds''
     \<and> dget_or_null d ''wasted_energy_available''
         = JBool (dget_or_null d ''grid_price_posture'' \<in> {JStr ''negative-price'', JStr ''curtailed-renewable''})"

definition harvest_ok :: "harvest \<Rightarrow> bool" where
  "harvest_ok h \<longleftrightarrow> (case hv_data h of None \<Rightarrow> True | Some d \<Rightarrow> honest_harvest d)"

lemma harvest_data_honest:
  "classify_harvest p m r = Inr c \<Longrightarrow> honest_harvest (harvest_data c a1 a2 a3)"
  by (cases c) (auto simp: honest_harvest_def harvest_data_def dget_or_null_def Let_def dest: classify_wasted)

lemma not_probed_honest: "honest_harvest not_probed"
  by (simp add: honest_harvest_def not_probed_def dget_or_null_def)

lemma honest_cached: "honest_harvest d \<Longrightarrow> honest_harvest (dset ''cached'' v d)"
  by (simp add: honest_harvest_def)

lemma probe_feeds_honest:
  assumes "probe_feeds s t h = (r, h')" "harvest_ok h"
  shows "harvest_ok h' \<and> (\<forall>d. r = Inr d \<longrightarrow> honest_harvest d)"
proof -
  obtain a h1 where a: "fetch_awattar s h = (a, h1)" by fastforce
  obtain b h2 where b: "fetch_ren_share_de s h1 = (b, h2)" by fastforce
  obtain c h3 where c: "fetch_uk_carbon s h2 = (c, h3)" by fastforce
  have "harvest_ok h3" using assms(2) fetch_frame(1) [OF a] fetch_frame(2) [OF b] fetch_frame(3) [OF c]
    by (simp add: harvest_ok_def)
  with assms(1) show ?thesis
    by (auto simp: probe_feeds_def a b c Let_def harvest_ok_def split: sum.splits dest: harvest_data_honest)
qed

lemma harvest_status_honest:
  assumes "harvest_status s net force h = (r, h')" "harvest_ok h"
  shows "harvest_ok h' \<and> (\<forall>d. r = Inr d \<longrightarrow> honest_harvest d)"
proof -
  obtain t h1 where t: "harvest_time s h = (t, h1)" by fastforce
  then have ok: "harvest_ok h1" using assms(2) by (auto simp: harvest_time_def harvest_ok_def)
  show ?thesis
  proof (cases "hv_data h1")
    case None
    with assms(1) t ok show ?thesis
      by (auto simp: harvest_status_def not_probed_honest split: if_splits dest: probe_feeds_honest)
  next
    case (Some d)
    with assms(1) t ok show ?thesis
      by (auto simp: harvest_status_def harvest_ok_def split: if_splits
          intro: honest_cached dest: probe_feeds_honest)
  qed
qed

section \<open>The properties\<close>

definition quiet_harvest :: harvest where
  "quiet_harvest = \<lparr>hv_ts = 0, hv_data = None, hv_ticks = 0, hv_gets = 0\<rparr>"

definition feed_sys :: "(string \<Rightarrow> exn + json) \<Rightarrow> harvest_sys" where
  "feed_sys get = \<lparr>hs_sys = echo_sys (Inr JNull), hs_get = (\<lambda>_ url. get url)\<rparr>"

text \<open>
  The grid signal is honest. Whatever the feeds send, and in whatever order the status is asked
  for, with or without network, every answer and the cache say \<open>sovereign: false\<close> and sampled
  joules, and claim wasted energy exactly under the postures of a negative price or of curtailed
  renewables; the batch gate opens only on such an answer.
\<close>

theorem harvest_is_honest:
  assumes "harvest_ok h" "harvest_status s net force h = (r, h')"
  shows "harvest_ok h' \<and> (case r of Inl e \<Rightarrow> hv_data h' = hv_data h | Inr d \<Rightarrow> honest_harvest d)
    \<and> (fst (should_soak_wasted_energy s net h) \<longrightarrow> (\<exists>d. fst (harvest_status s net False h) = Inr d
        \<and> honest_harvest d \<and> dget_or_null d ''grid_price_posture'' \<in> {JStr ''negative-price'', JStr ''curtailed-renewable''}))"
proof -
  have keep: "hv_data h' = hv_data h" if "r = Inl e" for e
    using assms(2) that
    by (auto simp: harvest_status_def harvest_time_def probe_feeds_def Let_def
        split: if_splits option.splits prod.splits sum.splits dest!: fetch_frame)
  have soak: "\<exists>d. fst (harvest_status s net False h) = Inr d
        \<and> honest_harvest d \<and> dget_or_null d ''grid_price_posture'' \<in> {JStr ''negative-price'', JStr ''curtailed-renewable''}"
    if "fst (should_soak_wasted_energy s net h)"
  proof -
    obtain r1 h1 where st: "harvest_status s net False h = (r1, h1)" by fastforce
    with that obtain d where d: "r1 = Inr d" "truthy (dget_or_null d ''wasted_energy_available'')"
      by (auto simp: should_soak_wasted_energy_def split: sum.splits)
    from harvest_status_honest [OF st assms(1)] d(1) have "honest_harvest d" by blast
    with d st show ?thesis by (auto simp: honest_harvest_def)
  qed
  show ?thesis
    using harvest_status_honest [OF assms(2,1)] keep soak by (auto split: sum.split)
qed

theorem harvest_is_honest_witness:
  "\<exists>d. fst (harvest_status (feed_sys (\<lambda>_. Inl (ConnError ''URLError'' ''down''))) True False quiet_harvest) = Inr d
     \<and> honest_harvest d \<and> dget_or_null d ''status'' = JStr ''unreachable''"
proof -
  let ?s = "feed_sys (\<lambda>_. Inl (ConnError ''URLError'' ''down''))"
  obtain r h' where st: "harvest_status ?s True False quiet_harvest = (r, h')" by fastforce
  have "harvest_ok quiet_harvest" by (simp add: harvest_ok_def quiet_harvest_def)
  from harvest_is_honest [OF this st]
  have "case r of Inl e \<Rightarrow> hv_data h' = hv_data quiet_harvest | Inr d \<Rightarrow> honest_harvest d" by blast
  moreover have "case fst (harvest_status ?s True False quiet_harvest) of
      Inl e \<Rightarrow> False | Inr d \<Rightarrow> dget_or_null d ''status'' = JStr ''unreachable''" by code_simp
  ultimately show ?thesis using st by (auto split: sum.splits)
qed

definition opt_price :: "rat option \<Rightarrow> json" where
  "opt_price x = (case x of None \<Rightarrow> JNull | Some q \<Rightarrow> JFloat (Fin q))"

text \<open>The postures as a decision table.\<close>

definition posture_table :: "rat option \<Rightarrow> rat option \<Rightarrow> string" where
  "posture_table p r =
     (if \<exists>x. p = Some x \<and> x < 0 then ''negative-price''
      else if \<exists>y. r = Some y \<and> 100 \<le> y then ''curtailed-renewable''
      else case p of
        Some x \<Rightarrow> if x < 30 then ''cheap'' else if 100 < x then ''expensive'' else ''normal''
      | None \<Rightarrow> if r = None then ''unknown'' else ''normal'')"

text \<open>
  The classification is the decision table. On any prices and renewable share, present or not,
  the posture is the first line of the table that applies, energy is called wasted exactly when the
  price is negative or the share reaches 100 percent, and the window ahead is called negative exactly
  when the lowest coming price is.
\<close>

theorem classify_is_table:
  "classify_harvest (opt_price p) (opt_price m) (opt_price r) =
     Inr (posture_table p r, (\<exists>x. p = Some x \<and> x < 0) \<or> (\<exists>y. r = Some y \<and> 100 \<le> y), \<exists>x. m = Some x \<and> x < 0)"
  by (cases p; cases m; cases r)
     (auto simp: classify_harvest_def posture_table_def opt_price_def opt_less_def py_less_def py_leq_def pf_le_def)

text \<open>
  A price that is a string breaks the status page. The feeds are meant to be read tolerantly, but
  a current price that is not a number passes the feed's own reader as live and makes the
  classification raise \<open>TypeError\<close>, which \<open>harvest_status\<close> and \<open>fabric_status\<close> do not catch.
\<close>

theorem string_price_raises:
  "let s = feed_sys (\<lambda>url. if url = wholesale_url
         then Inr (JObj [(''data'', JArr [JObj [(''start_timestamp'', JInt 0), (''end_timestamp'', JInt 1),
           (''marketprice'', JStr ''12'')]])]) else Inl (ConnError ''URLError'' ''down''))
   in (\<exists>m. fst (harvest_status s True False quiet_harvest) = Inl (TypeError m))
    \<and> (\<exists>m. fst (fabric_status s True True quiet_harvest) = Inl (TypeError m))
    \<and> dget_or_null (fst (fetch_awattar s quiet_harvest)) ''status'' = JStr ''live''"
proof -
  let ?s = "feed_sys (\<lambda>url. if url = wholesale_url
         then Inr (JObj [(''data'', JArr [JObj [(''start_timestamp'', JInt 0), (''end_timestamp'', JInt 1),
           (''marketprice'', JStr ''12'')]])]) else Inl (ConnError ''URLError'' ''down''))"
  have h: "fst (harvest_status ?s True False quiet_harvest)
      = Inl (unordered ''<'' (JStr ''12'') (JInt 0))"
    "dget_or_null (fst (fetch_awattar ?s quiet_harvest)) ''status'' = JStr ''live''"
    by code_simp+
  then have "fst (fabric_status ?s True True quiet_harvest) = Inl (unordered ''<'' (JStr ''12'') (JInt 0))"
    by (auto simp: fabric_status_def Let_def split: prod.splits)
  with h show ?thesis unfolding Let_def unordered_def by blast
qed

end
