(* ===== verification/Receipts.thy ===== *)
theory Receipts
  imports Retry Spend
begin

text \<open>
  Signed receipts: \<open>szl_router/receipts.py\<close> and the offline verifier \<open>szl_router/verify.py\<close>.

  The optional library \<open>szl_receipt\<close>, the key parser of \<open>cryptography\<close> and the file system are the
  functions of \<open>receipt_lib\<close>; nothing is assumed of them. Log lines are not modelled. A PEM is the
  string of its bytes.

  The lemmas say what \<open>init_signing\<close> can leave behind, that it runs once, and that a header decodes
  to the envelope it encodes.
\<close>

section \<open>Outside\<close>

record receipt_lib =
  rl_available :: bool
  rl_generate :: "exn + string \<times> string"               \<comment> \<open>\<open>generate_keypair()\<close>: private, public\<close>
  rl_derive :: "string \<Rightarrow> exn + string"                  \<comment> \<open>\<open>_derive_public_pem\<close>\<close>
  rl_sign :: "string \<Rightarrow> json \<Rightarrow> string option \<Rightarrow> string \<Rightarrow> exn + json"  \<comment> \<open>kind, body, key, organ\<close>
  rl_verify :: "json \<Rightarrow> json \<Rightarrow> exn + bool \<times> string"      \<comment> \<open>envelope, public key\<close>
  rl_read_bytes :: "string \<Rightarrow> exn + string"
  rl_read_text :: "string \<Rightarrow> exn + string"              \<comment> \<open>\<open>open(path, "r", encoding="utf-8").read()\<close>\<close>

section \<open>The signing key\<close>

record key_state =
  ks_private :: "string option"
  ks_public :: "string option"
  ks_source :: string
  ks_ephemeral :: bool
  ks_library :: bool
  ks_done :: bool              \<comment> \<open>\<open>_INITIALIZED\<close>\<close>

definition fresh_keys :: key_state where
  "fresh_keys = \<lparr>ks_private = None, ks_public = None, ks_source = ''uninitialized'', ks_ephemeral = False,
     ks_library = False, ks_done = False\<rparr>"

definition env_flag :: "env \<Rightarrow> string \<Rightarrow> bool \<Rightarrow> bool" where
  "env_flag e name dflt =
     (case e name of
        None \<Rightarrow> dflt
      | Some raw \<Rightarrow> if strip raw = [] then dflt
                    else lower (strip raw) \<notin> {''0'', ''false'', ''no'', ''off''})"

definition has_key_bytes :: "string option \<Rightarrow> bool" where
  "has_key_bytes k = (k \<noteq> None \<and> k \<noteq> Some [])"

text \<open>The configured key: the PEM variable, else the file it names, else none.\<close>

definition configured_key :: "receipt_lib \<Rightarrow> env \<Rightarrow> key_state \<Rightarrow> key_state" where
  "configured_key L e st =
     (let pem = strip (env_get e ''SZL_RECEIPT_KEY_PEM'' []);
          path = strip (env_get e ''SZL_RECEIPT_KEY_FILE'' [])
      in if pem \<noteq> [] then st\<lparr>ks_private := Some (utf8 pem), ks_source := ''env:SZL_RECEIPT_KEY_PEM''\<rparr>
         else if path \<noteq> [] then
           (case rl_read_bytes L path of
              Inl _ \<Rightarrow> st
            | Inr b \<Rightarrow> st\<lparr>ks_private := Some b, ks_source := ''file:'' @ path\<rparr>)
         else st)"

definition derive_public :: "receipt_lib \<Rightarrow> key_state \<Rightarrow> key_state" where
  "derive_public L st =
     (case ks_private st of
        None \<Rightarrow> st
      | Some k \<Rightarrow> if k = [] then st
                  else case rl_derive L k of
                    Inl _ \<Rightarrow> st\<lparr>ks_private := None\<rparr>
                  | Inr p \<Rightarrow> st\<lparr>ks_public := Some p\<rparr>)"

definition fallback_key :: "receipt_lib \<Rightarrow> env \<Rightarrow> key_state \<Rightarrow> exn option \<times> key_state" where
  "fallback_key L e st =
     (if has_key_bytes (ks_private st) then (None, st)
      else if env_flag e ''SZL_RECEIPT_EPHEMERAL'' True then
        (case rl_generate L of
           Inl x \<Rightarrow> (Some x, st)
         | Inr (priv, pub) \<Rightarrow> (None, st\<lparr>ks_private := Some priv, ks_public := Some pub, ks_ephemeral := True,
                                        ks_source := ''ephemeral-session-key''\<rparr>))
      else (None, st\<lparr>ks_source := ''keyless''\<rparr>))"

definition init_signing :: "receipt_lib \<Rightarrow> env \<Rightarrow> key_state \<Rightarrow> exn option \<times> key_state" where
  "init_signing L e st =
     (if ks_done st then (None, st)
      else let st1 = st\<lparr>ks_done := True\<rparr> in
        if \<not> rl_available L then (None, st1\<lparr>ks_library := False, ks_source := ''library-absent''\<rparr>)
        else fallback_key L e (derive_public L (configured_key L e (st1\<lparr>ks_library := True\<rparr>))))"

definition public_key_pem :: "receipt_lib \<Rightarrow> env \<Rightarrow> key_state \<Rightarrow> (exn + string option) \<times> key_state" where
  "public_key_pem L e st =
     (case init_signing L e st of
        (Some x, st') \<Rightarrow> (Inl x, st')
      | (None, st') \<Rightarrow> (Inr (ks_public st'), st'))"

section \<open>Receipts\<close>

definition request_digest :: "sys \<Rightarrow> json \<Rightarrow> json \<Rightarrow> string" where
  "request_digest s model messages =
     sha256_hex (utf8 (dumps (compact_sorted (s_frepr s))
       (JObj [(''model'', model), (''messages'', messages)])))"

definition optional_field :: "string \<Rightarrow> json \<Rightarrow> jdict" where
  "optional_field k v = (if v = JNull then [] else [(k, v)])"

definition build_body ::
  "jdict \<Rightarrow> json \<Rightarrow> json \<Rightarrow> string \<Rightarrow> json \<Rightarrow> json \<Rightarrow> json \<Rightarrow> json \<Rightarrow> jdict" where
  "build_body prov model usage req_digest routing cost observer grid_context =
     [(''served_by'', dget_or_null prov ''served_by''), (''sovereign'', dget_or_null prov ''sovereign''),
      (''tier'', dget_or_null prov ''tier''), (''energy_source'', dget_or_null prov ''energy_source''),
      (''energy'', JStr ''UNAVAILABLE''), (''model'', model),
      (''attempts'', dget_or_null prov ''attempts''), (''usage'', usage),
      (''request_digest'', JStr req_digest)]
     @ optional_field ''routing'' routing @ optional_field ''cost'' cost
     @ optional_field ''observer'' observer @ optional_field ''grid_context'' grid_context"

text \<open>\<open>build_envelope\<close>: \<open>None\<close> without the library; signing can raise.\<close>

definition build_envelope :: "receipt_lib \<Rightarrow> env \<Rightarrow> jdict \<Rightarrow> key_state \<Rightarrow> (exn + json option) \<times> key_state" where
  "build_envelope L e body st =
     (if \<not> rl_available L then (Inr None, st)
      else case init_signing L e st of
        (Some x, st') \<Rightarrow> (Inl x, st')
      | (None, st') \<Rightarrow>
          (map_sum id Some (rl_sign L ''inference.route'' (JObj body) (ks_private st') ''szl-router''), st'))"

definition encode_header :: "sys \<Rightarrow> json \<Rightarrow> string" where
  "encode_header s envelope = b64encode (utf8 (dumps (compact (s_frepr s)) envelope))"

text \<open>Non-ASCII text and broken base64 are both \<open>ValueError\<close>s.\<close>

definition decode_header :: "sys \<Rightarrow> string \<Rightarrow> exn + json" where
  "decode_header s v =
     (case b64decode False v of
        None \<Rightarrow> Inl (ValueError ''Incorrect padding'')
      | Some raw \<Rightarrow> s_loads s raw)"

definition verify_envelope :: "receipt_lib \<Rightarrow> json \<Rightarrow> json \<Rightarrow> exn + bool \<times> string" where
  "verify_envelope L envelope public_pem =
     (if \<not> rl_available L then Inr (False, ''szl-receipt not installed'')
      else rl_verify L envelope public_pem)"

section \<open>The offline verifier\<close>

text \<open>\<open>loads_str\<close> is \<open>json.loads\<close> on text, \<open>stdin\<close> what standard input holds.\<close>

definition load_envelope ::
  "sys \<Rightarrow> receipt_lib \<Rightarrow> (string \<Rightarrow> exn + json) \<Rightarrow> string \<Rightarrow> string \<Rightarrow> exn + json" where
  "load_envelope s L loads_str stdin value =
     bindE (if value = ''-'' then Inr stdin
            else case rl_read_text L value of
              Inr t \<Rightarrow> Inr t
            | Inl e \<Rightarrow> if is_transport e then Inr value else Inl e)
       (\<lambda>raw0. let raw = strip raw0 in
          case loads_str raw of Inr j \<Rightarrow> Inr j | Inl _ \<Rightarrow> decode_header s raw)"

text \<open>\<open>main\<close> after \<open>argparse\<close>: the exit code and the object it prints.\<close>

definition verify_main ::
  "sys \<Rightarrow> receipt_lib \<Rightarrow> (string \<Rightarrow> exn + json) \<Rightarrow> string \<Rightarrow> string \<Rightarrow> string option \<Rightarrow> exn + nat \<times> json" where
  "verify_main s L loads_str stdin arg pubkey =
     bindE (load_envelope s L loads_str stdin arg) (\<lambda>envelope.
     bindE (case pubkey of
              None \<Rightarrow> Inr JNull
            | Some path \<Rightarrow> if path = [] then Inr JNull else map_sum id JStr (rl_read_bytes L path)) (\<lambda>pub.
     bindE (verify_envelope L envelope pub) (\<lambda>(valid, detail).
       case envelope of
         JObj d \<Rightarrow> Inr (if valid then 0 else 1, JObj [
           (''valid'', JBool valid), (''detail'', JStr detail),
           (''signed'', JBool (truthy (dget_or_null d ''signed''))),
           (''organ'', dget_or_null d ''organ''), (''digest'', dget_or_null d ''digest'')])
       | _ \<Rightarrow> Inl (PyError ''AttributeError'' ''get''))))"

section \<open>What initialisation leaves behind\<close>

text \<open>The four postures: no library, a configured key with its public half, a session key, keyless.\<close>

definition posture_ok :: "receipt_lib \<Rightarrow> env \<Rightarrow> key_state \<Rightarrow> bool" where
  "posture_ok L e st \<longleftrightarrow>
     (\<not> rl_available L \<and> ks_source st = ''library-absent'' \<and> ks_private st = None \<and> ks_public st = None \<and> \<not> ks_ephemeral st)
   \<or> (rl_available L \<and> \<not> ks_ephemeral st \<and> has_key_bytes (ks_private st)
       \<and> map_sum id Some (rl_derive L (the (ks_private st))) = Inr (ks_public st))
   \<or> (rl_available L \<and> ks_ephemeral st \<and> ks_source st = ''ephemeral-session-key''
       \<and> env_flag e ''SZL_RECEIPT_EPHEMERAL'' True
       \<and> (\<exists>priv pub. rl_generate L = Inr (priv, pub) \<and> ks_private st = Some priv \<and> ks_public st = Some pub))
   \<or> (rl_available L \<and> \<not> ks_ephemeral st \<and> ks_source st = ''keyless''
       \<and> \<not> env_flag e ''SZL_RECEIPT_EPHEMERAL'' True \<and> \<not> has_key_bytes (ks_private st) \<and> ks_public st = None)"

lemma configured_key_frame:
  "ks_public (configured_key L e st) = ks_public st" "ks_ephemeral (configured_key L e st) = ks_ephemeral st"
  "ks_done (configured_key L e st) = ks_done st"
  by (simp_all add: configured_key_def Let_def split: sum.split)

lemma derive_public_cases:
  "ks_public st = None \<Longrightarrow> \<not> ks_ephemeral st \<Longrightarrow>
     \<not> ks_ephemeral (derive_public L st) \<and> ks_done (derive_public L st) = ks_done st
     \<and> (if has_key_bytes (ks_private (derive_public L st))
        then map_sum id Some (rl_derive L (the (ks_private (derive_public L st)))) = Inr (ks_public (derive_public L st))
        else ks_public (derive_public L st) = None)"
  by (auto simp: derive_public_def has_key_bytes_def split: option.split sum.split)

lemma fallback_key_posture:
  assumes "fallback_key L e st = (None, st')" "rl_available L" "\<not> ks_ephemeral st"
    and "if has_key_bytes (ks_private st)
         then map_sum id Some (rl_derive L (the (ks_private st))) = Inr (ks_public st) else ks_public st = None"
  shows "posture_ok L e st' \<and> ks_done st' = ks_done st"
  using assms by (auto simp: fallback_key_def posture_ok_def split: if_splits sum.splits)

lemma init_signing_posture:
  assumes "init_signing L e fresh_keys = (None, st)"
  shows "posture_ok L e st \<and> ks_done st"
proof (cases "rl_available L")
  case False
  with assms show ?thesis by (auto simp: init_signing_def posture_ok_def fresh_keys_def)
next
  case True
  let ?st = "configured_key L e (fresh_keys\<lparr>ks_done := True, ks_library := True\<rparr>)"
  have p: "ks_public ?st = None" "\<not> ks_ephemeral ?st" "ks_done ?st"
    by (simp_all add: configured_key_frame fresh_keys_def)
  from assms True have "fallback_key L e (derive_public L ?st) = (None, st)"
    by (simp add: init_signing_def fresh_keys_def Let_def)
  with fallback_key_posture [OF _ True] derive_public_cases [OF p(1,2), of L] p(3) show ?thesis by blast
qed

section \<open>The properties\<close>

text \<open>
  A signature is never made up. After initialisation the state is in one of four postures: the
  library is missing and there is no key; or a configured key is armed and the published key is the
  one derived from it; or the session key of the library is armed and labelled as such; or there is
  no key and none is published. A second initialisation changes nothing, and every later receipt is
  signed with exactly the key of that posture, or with none.
\<close>

theorem signing_posture:
  assumes "init_signing L e fresh_keys = (None, st)"
  shows "posture_ok L e st \<and> init_signing L e' st = (None, st)
    \<and> build_envelope L e' body st = (if \<not> rl_available L then Inr None
        else map_sum id Some (rl_sign L ''inference.route'' (JObj body) (ks_private st) ''szl-router''), st)"
proof -
  from init_signing_posture [OF assms] have p: "posture_ok L e st" "ks_done st" by simp_all
  then have "init_signing L e' st = (None, st)" by (simp add: init_signing_def)
  with p show ?thesis by (simp add: build_envelope_def)
qed

definition demo_lib :: receipt_lib where
  "demo_lib = \<lparr>rl_available = True, rl_generate = Inr (''priv'', ''pub''), rl_derive = (\<lambda>k. Inl (ValueError ''bad key'')),
     rl_sign = (\<lambda>kind body key organ. Inr (JObj [(''signed'', JBool (key \<noteq> None)), (''body'', body)])),
     rl_verify = (\<lambda>env pub. Inr (False, ''unsigned-honest'')),
     rl_read_bytes = (\<lambda>p. Inl (ConnError ''FileNotFoundError'' p)), rl_read_text = (\<lambda>p. Inl (ConnError ''FileNotFoundError'' p))\<rparr>"

theorem signing_posture_witness:
  "\<exists>st. init_signing demo_lib (\<lambda>k. if k = ''SZL_RECEIPT_KEY_PEM'' then Some ''junk'' else None) fresh_keys = (None, st)
     \<and> posture_ok demo_lib (\<lambda>k. if k = ''SZL_RECEIPT_KEY_PEM'' then Some ''junk'' else None) st
     \<and> ks_private st = Some ''priv'' \<and> ks_ephemeral st"
proof -
  let ?e = "\<lambda>k. if k = ''SZL_RECEIPT_KEY_PEM'' then Some ''junk'' else None"
  have "case init_signing demo_lib ?e fresh_keys of (x, st) \<Rightarrow> x = None \<and> ks_private st = Some ''priv'' \<and> ks_ephemeral st"
    by code_simp
  then obtain st where st: "init_signing demo_lib ?e fresh_keys = (None, st)" "ks_private st = Some ''priv''" "ks_ephemeral st"
    by auto
  with signing_posture [OF st(1)] show ?thesis by blast
qed

text \<open>
  Headers decode to what was encoded. The receipt header is pure ASCII of the base64 alphabet,
  and decoding it hands \<open>json.loads\<close> exactly the bytes that were encoded, so that with a parser that
  inverts \<open>json.dumps\<close> the envelope comes back.
\<close>

theorem header_roundtrip:
  "decode_header s (encode_header s envelope) = s_loads s (utf8 (dumps (compact (s_frepr s)) envelope))
   \<and> list_all (\<lambda>c. (of_char c :: nat) < 128) (encode_header s envelope)"
proof -
  have "list_all (\<lambda>x. x < 256) (map (of_char :: char \<Rightarrow> nat) b)" for b by (induction b) simp_all
  then have "list_all (\<lambda>c. (of_char c :: nat) < 128) (encode_header s envelope)"
    by (simp add: encode_header_def b64encode_def b64_triples_ascii)
  then show ?thesis by (simp add: decode_header_def encode_header_def b64decode_encode)
qed

text \<open>
  The offline verdict is the library's. The verifier exits with 0 only if the library itself
  verified the very envelope that the argument, the file or standard input held, against the key of
  the file named, or none; without the library it never does; and what it prints agrees with the code.
\<close>

theorem verifier_exit_code:
  assumes "verify_main s L loads_str stdin arg pubkey = Inr (code, out)"
  shows "\<exists>envelope pub detail. load_envelope s L loads_str stdin arg = Inr envelope
    \<and> (code = 0 \<longleftrightarrow> rl_available L \<and> rl_verify L envelope pub = Inr (True, detail))
    \<and> jget out ''valid'' = JBool (code = 0) \<and> jget out ''detail'' = JStr detail
    \<and> (pubkey = None \<longrightarrow> pub = JNull)"
proof -
  from assms obtain envelope where l: "load_envelope s L loads_str stdin arg = Inr envelope"
    by (auto simp: verify_main_def bindE_Inr_iff)
  from assms l obtain pub where k: "(case pubkey of None \<Rightarrow> Inr JNull
      | Some path \<Rightarrow> if path = [] then Inr JNull else map_sum id JStr (rl_read_bytes L path)) = Inr pub"
    by (auto simp: verify_main_def bindE_Inr_iff)
  from assms l k obtain valid detail where v: "verify_envelope L envelope pub = Inr (valid, detail)"
    by (auto simp: verify_main_def bindE_Inr_iff)
  obtain d where d: "envelope = JObj d" using assms l k v by (cases envelope) (simp_all add: verify_main_def)
  have e: "load_envelope s L loads_str stdin arg = Inr envelope" "verify_envelope L envelope pub = Inr (valid, detail)"
    "envelope = JObj d" "code = (if valid then 0 else 1)" "pubkey = None \<longrightarrow> pub = JNull"
    "jget out ''valid'' = JBool valid" "jget out ''detail'' = JStr detail"
    using assms l k v d by (auto simp: verify_main_def dget_or_null_def)
  have "code = 0 \<longleftrightarrow> rl_available L \<and> rl_verify L envelope pub = Inr (True, detail)"
    using e(2,4) by (auto simp: verify_envelope_def split: if_splits)
  moreover have "jget out ''valid'' = JBool (code = 0)" using e(4,6) by simp
  ultimately show ?thesis using l e(5,7)
    by (intro exI [of _ envelope] exI [of _ pub] exI [of _ detail] conjI)
qed

theorem verifier_exit_code_witness:
  "\<exists>out. verify_main (echo_sys (Inr (JObj []))) demo_lib (\<lambda>_. Inl (ValueError ''no'')) [] ''e30='' None = Inr (1, out)
     \<and> jget out ''valid'' = JBool False"
proof -
  have "case verify_main (echo_sys (Inr (JObj []))) demo_lib (\<lambda>_. Inl (ValueError ''no'')) [] ''e30='' None of
      Inl e \<Rightarrow> False | Inr (code, out) \<Rightarrow> code = 1" by code_simp
  then obtain out where "verify_main (echo_sys (Inr (JObj []))) demo_lib (\<lambda>_. Inl (ValueError ''no'')) [] ''e30='' None = Inr (1, out)"
    by (auto split: sum.splits)
  with verifier_exit_code [OF this] show ?thesis by auto
qed

end
