(* ===== verification/Grid.thy ===== *)
theory Grid
  imports Harvest Receipts
begin

text \<open>
  The grid context of receipts, \<open>szl_router/grid.py\<close>: the parser of the UK feed, the sanitiser, the
  blocking fetch, and the cache that the request path reads while a background thread refreshes it.

  A refresh thread is one entry of \<open>gr_pending\<close>; its run is the operation \<open>run_refresh\<close>, which may
  happen at any later point. The \<open>k\<close>-th GET of the feed returns parsed JSON or raises. Dashes outside
  Latin-1 in the notes are written as hyphens.
\<close>

section \<open>Time stamps\<close>

text \<open>\<open>strftime("%Y-%m-%dT%H:%M:%SZ", gmtime(t))\<close>: the proleptic Gregorian date of a day number.\<close>

definition civil_date :: "int \<Rightarrow> int \<times> int \<times> int" where
  "civil_date days =
     (let z = days + 719468; era = z div 146097; doe = z mod 146097;
          yoe = (doe - doe div 1460 + doe div 36524 - doe div 146096) div 365;
          doy = doe - (365 * yoe + yoe div 4 - yoe div 100);
          mp = (5 * doy + 2) div 153;
          month = (if mp < 10 then mp + 3 else mp - 9)
      in (yoe + era * 400 + (if month \<le> 2 then 1 else 0), month, doy - (153 * mp + 2) div 5 + 1))"

definition two_digits :: "int \<Rightarrow> string" where
  "two_digits n = (if n < 10 then ''0'' @ show_int n else show_int n)"

definition iso_utc :: "rat \<Rightarrow> string" where
  "iso_utc t =
     (let secs = \<lfloor>t\<rfloor>; rest = secs mod 86400; (y, m, d) = civil_date (secs div 86400)
      in show_int y @ ''-'' @ two_digits m @ ''-'' @ two_digits d @ ''T'' @ two_digits (rest div 3600)
         @ '':'' @ two_digits (rest div 60 mod 60) @ '':'' @ two_digits (rest mod 60) @ ''Z'')"

section \<open>State\<close>

record grid_sys =
  gs_sys :: sys
  gs_get :: "nat \<Rightarrow> exn + json"

record grid =
  gr_ts :: rat
  gr_block :: "jdict option"
  gr_inflight :: bool
  gr_pending :: nat
  gr_ticks :: nat
  gr_fetches :: nat

definition grid_time :: "grid_sys \<Rightarrow> grid \<Rightarrow> rat \<times> grid" where
  "grid_time s g = (s_time (gs_sys s) (gr_ticks g), g\<lparr>gr_ticks := Suc (gr_ticks g)\<rparr>)"

definition grid_enabled :: "env \<Rightarrow> bool" where
  "grid_enabled e = env_flag e ''SZL_RECEIPT_GRID_CONTEXT'' False"

definition provider_uk :: string where
  "provider_uk = ''uk_carbon_intensity''"

section \<open>Blocks\<close>

text \<open>\<open>_finite\<close>: \<open>float(x)\<close> of a huge integer raises.\<close>

definition finite_or_none :: "json \<Rightarrow> exn + rat option" where
  "finite_or_none v =
     (case v of
        JInt i \<Rightarrow> if float_overflows i then Inl (PyError ''OverflowError'' ''int too large to convert to float'')
                  else Inr (Some (of_int i))
      | JFloat (Fin q) \<Rightarrow> Inr (Some q)
      | _ \<Rightarrow> Inr None)"

definition number_and_label :: "rat option \<Rightarrow> json \<times> json" where
  "number_and_label x =
     (case x of
        None \<Rightarrow> (JNull, JStr ''UNAVAILABLE'')
      | Some q \<Rightarrow> (JFloat (Fin (py_round 6 q)), JStr ''REPORTED''))"

definition unavailable_grid_context ::
  "grid_sys \<Rightarrow> string \<Rightarrow> string \<Rightarrow> string option \<Rightarrow> string \<Rightarrow> grid \<Rightarrow> jdict \<times> grid" where
  "unavailable_grid_context s prov source region reason g0 =
     (let (t, g) = grid_time s g0;
          note = ''REPORTED grid signal UNAVAILABLE - no value fetched; nothing ''
            @ ''invented. This does not create or measure energy.''
      in ([(''provider'', JStr prov), (''source'', JStr source), (''region'', opt_str region),
           (''observed_at'', JNull), (''fetched_at'', JStr (iso_utc t)),
           (''carbon_intensity_gco2_per_kwh'', JNull), (''carbon_intensity_kind'', JNull),
           (''carbon_intensity_index'', JNull), (''carbon_intensity_label'', JStr ''UNAVAILABLE''),
           (''price_per_mwh'', JNull), (''price_label'', JStr ''UNAVAILABLE''),
           (''note'', JStr (if reason = [] then note else note @ '' ('' @ reason @ '')''))], g))"

definition text_or_null :: "(rat \<Rightarrow> string) \<Rightarrow> json \<Rightarrow> json" where
  "text_or_null fr v = (if v = JNull then JNull else JStr (py_str fr v))"

text \<open>\<open>sanitize_grid_context\<close> of a dictionary: the canonical fields around the two numbers.\<close>

definition canonical_block :: "(rat \<Rightarrow> string) \<Rightarrow> jdict \<Rightarrow> rat option \<Rightarrow> rat option \<Rightarrow> json \<Rightarrow> jdict" where
  "canonical_block fr block ci price fetched =
     (let text = (\<lambda>k. text_or_null fr (dget_or_null block k));
          dflt = (\<lambda>k d. py_str fr (case dget block k of None \<Rightarrow> JStr d | Some v \<Rightarrow> v))
      in [(''provider'', JStr (dflt ''provider'' ''unspecified'')),
          (''source'', or_else (text ''source'') (JStr ''UNAVAILABLE'')),
          (''region'', text ''region''), (''observed_at'', text ''observed_at''),
          (''fetched_at'', fetched),
          (''carbon_intensity_gco2_per_kwh'', fst (number_and_label ci)),
          (''carbon_intensity_kind'', text ''carbon_intensity_kind''),
          (''carbon_intensity_index'', text ''carbon_intensity_index''),
          (''carbon_intensity_label'', snd (number_and_label ci)),
          (''price_per_mwh'', fst (number_and_label price)), (''price_label'', snd (number_and_label price)),
          (''note'', JStr (dflt ''note'' (''REPORTED pass-through grid signal; not a MEASURED joule. This does ''
             @ ''not create or measure energy.'')))])"

definition sanitize_grid_context :: "grid_sys \<Rightarrow> jdict \<Rightarrow> grid \<Rightarrow> (exn + jdict) \<times> grid" where
  "sanitize_grid_context s block g =
     (let fr = s_frepr (gs_sys s); given = text_or_null fr (dget_or_null block ''fetched_at'') in
      case finite_or_none (dget_or_null block ''carbon_intensity_gco2_per_kwh'') of
        Inl e \<Rightarrow> (Inl e, g)
      | Inr ci \<Rightarrow>
          (case finite_or_none (dget_or_null block ''price_per_mwh'') of
             Inl e \<Rightarrow> (Inl e, g)
           | Inr price \<Rightarrow>
               let (fetched, g') = (if truthy given then (given, g)
                                    else (let (t, g') = grid_time s g in (JStr (iso_utc t), g')))
               in (Inr (canonical_block fr block ci price fetched), g')))"

section \<open>The feed\<close>

definition py_item :: "json \<Rightarrow> string \<Rightarrow> exn + json" where
  "py_item v k = (case v of
     JObj d \<Rightarrow> (case dget d k of None \<Rightarrow> Inl (PyError ''KeyError'' (quoted k)) | Some x \<Rightarrow> Inr x)
   | _ \<Rightarrow> Inl (TypeError (quoted (type_name v) @ '' is not indexable by a string'')))"

text \<open>The record's intensity, its two numbers, when it was observed and its index word.\<close>

definition read_intensity :: "json \<Rightarrow> exn + rat option \<times> rat option \<times> json \<times> json" where
  "read_intensity payload =
     bindE (py_item payload ''data'') (\<lambda>data.
     bindE (py_first data) (\<lambda>rec.
     bindE (py_get rec ''intensity'') (\<lambda>int0.
       let intensity = or_else int0 (JObj []) in
       bindE (py_get intensity ''actual'') (\<lambda>a.
       bindE (finite_or_none a) (\<lambda>actual.
       bindE (py_get intensity ''forecast'') (\<lambda>f.
       bindE (finite_or_none f) (\<lambda>forecast.
       bindE (py_get rec ''from'') (\<lambda>observed.
       bindE (py_get intensity ''index'') (\<lambda>index.
         Inr (actual, forecast, observed, index))))))))))"

text \<open>What the \<open>except\<close> clause of the parser catches.\<close>

fun shape_error :: "exn \<Rightarrow> bool" where
  "shape_error (PyError c m) = (c \<in> {''KeyError'', ''IndexError'', ''TypeError''})"
| "shape_error _ = False"

definition parse_uk_carbon_intensity :: "grid_sys \<Rightarrow> json \<Rightarrow> grid \<Rightarrow> (exn + jdict) \<times> grid" where
  "parse_uk_carbon_intensity s payload g =
     (case read_intensity payload of
        Inl e \<Rightarrow>
          if shape_error e
          then (let (b, g') = unavailable_grid_context s provider_uk carbon_url (Some ''GB'')
                      ''unexpected response shape'' g in (Inr b, g'))
          else (Inl e, g)
      | Inr (actual, forecast, observed, index) \<Rightarrow>
          (case (if actual \<noteq> None then actual else forecast) of
             None \<Rightarrow> (let (b, g') = unavailable_grid_context s provider_uk carbon_url (Some ''GB'')
                        ''no actual/forecast intensity in response'' g in (Inr b, g'))
           | Some value \<Rightarrow>
               let (t, g') = grid_time s g in
               sanitize_grid_context s [
                 (''provider'', JStr provider_uk), (''source'', JStr carbon_url), (''region'', JStr ''GB''),
                 (''observed_at'', observed), (''fetched_at'', JStr (iso_utc t)),
                 (''carbon_intensity_gco2_per_kwh'', JFloat (Fin value)),
                 (''carbon_intensity_kind'', JStr ''grid_average''), (''carbon_intensity_index'', index),
                 (''price_per_mwh'', JNull),
                 (''note'', JStr (''REPORTED grid-average carbon intensity (''
                    @ (if actual \<noteq> None then ''actual'' else ''forecast'') @ '') from the UK ''
                    @ ''Carbon Intensity API, carried verbatim; NOT marginal, NOT ''
                    @ ''a MEASURED joule. This does not create or measure energy.''))] g'))"

definition fetch_grid_context :: "grid_sys \<Rightarrow> string \<Rightarrow> string option \<Rightarrow> grid \<Rightarrow> (exn + jdict) \<times> grid" where
  "fetch_grid_context s prov region g0 =
     (if prov \<noteq> provider_uk
      then (let (b, g) = unavailable_grid_context s prov ''UNAVAILABLE'' region ''unknown/keyless-only provider'' g0
            in (Inr b, g))
      else let g = g0\<lparr>gr_fetches := Suc (gr_fetches g0)\<rparr> in
        case gs_get s (gr_fetches g0) of
          Inl e \<Rightarrow> (let (b, g') = unavailable_grid_context s provider_uk carbon_url (Some ''GB'')
                      (''fetch failed: '' @ exn_class e) g in (Inr b, g'))
        | Inr payload \<Rightarrow> parse_uk_carbon_intensity s payload g)"

section \<open>The cache\<close>

definition grid_store :: "grid_sys \<Rightarrow> jdict \<Rightarrow> grid \<Rightarrow> grid" where
  "grid_store s b g = (let (t, g') = grid_time s g in g'\<lparr>gr_block := Some b, gr_ts := t\<rparr>)"

definition grid_cached :: "grid_sys \<Rightarrow> rat \<Rightarrow> grid \<Rightarrow> (jdict option \<times> bool) \<times> grid" where
  "grid_cached s max_age g =
     (let (t, g') = grid_time s g
      in ((gr_block g', gr_block g' \<noteq> None \<and> t - gr_ts g' < max_age), g'))"

definition spawn_refresh :: "grid \<Rightarrow> grid" where
  "spawn_refresh g = (if gr_inflight g then g else g\<lparr>gr_inflight := True, gr_pending := Suc (gr_pending g)\<rparr>)"

text \<open>The body of one refresh thread; whatever it raises is swallowed.\<close>

definition run_refresh :: "grid_sys \<Rightarrow> grid \<Rightarrow> grid" where
  "run_refresh s g =
     (let (r, g1) = fetch_grid_context s provider_uk None g;
          g2 = (case r of Inl _ \<Rightarrow> g1 | Inr b \<Rightarrow> grid_store s b g1)
      in g2\<lparr>gr_inflight := False, gr_pending := gr_pending g2 - 1\<rparr>)"

definition current_grid_context :: "grid_sys \<Rightarrow> rat \<Rightarrow> grid \<Rightarrow> jdict option \<times> grid" where
  "current_grid_context s max_age g =
     (let ((b, fresh), g') = grid_cached s max_age g
      in (b, if fresh then g' else spawn_refresh g'))"

section \<open>Invariant\<close>

text \<open>Labels follow values: a number is reported, a missing one is not, and there is no price.\<close>

definition honest_block :: "jdict \<Rightarrow> bool" where
  "honest_block b \<longleftrightarrow>
     (dget_or_null b ''carbon_intensity_label'' =
        JStr (if dget_or_null b ''carbon_intensity_gco2_per_kwh'' = JNull then ''UNAVAILABLE'' else ''REPORTED''))
     \<and> (case dget_or_null b ''carbon_intensity_gco2_per_kwh'' of JNull \<Rightarrow> True | JFloat (Fin q) \<Rightarrow> True | _ \<Rightarrow> False)
     \<and> dget_or_null b ''price_per_mwh'' = JNull \<and> dget_or_null b ''price_label'' = JStr ''UNAVAILABLE''"

definition grid_ok :: "grid \<Rightarrow> bool" where
  "grid_ok g \<longleftrightarrow> gr_pending g = (if gr_inflight g then 1 else 0)
     \<and> (case gr_block g of None \<Rightarrow> True | Some b \<Rightarrow> honest_block b)"

lemma grid_time_frame:
  "grid_time s g = (t, g') \<Longrightarrow> gr_pending g' = gr_pending g \<and> gr_inflight g' = gr_inflight g
     \<and> gr_block g' = gr_block g \<and> gr_fetches g' = gr_fetches g \<and> gr_ts g' = gr_ts g"
  by (auto simp: grid_time_def)

definition same_cache :: "grid \<Rightarrow> grid \<Rightarrow> bool" where
  "same_cache g g' \<longleftrightarrow> gr_pending g' = gr_pending g \<and> gr_inflight g' = gr_inflight g \<and> gr_block g' = gr_block g"

lemma unavailable_honest:
  "unavailable_grid_context s p src r why g = (b, g') \<Longrightarrow> honest_block b \<and> same_cache g g'"
  by (auto simp: unavailable_grid_context_def honest_block_def dget_or_null_def grid_time_def same_cache_def Let_def)

lemma canonical_honest: "honest_block (canonical_block fr block ci None fetched)"
  by (cases ci) (simp_all add: honest_block_def canonical_block_def dget_or_null_def number_and_label_def Let_def)

lemma sanitize_honest:
  assumes "sanitize_grid_context s block g = (Inr b, g')" "dget_or_null block ''price_per_mwh'' = JNull"
  shows "honest_block b \<and> same_cache g g'"
proof -
  have "finite_or_none (dget_or_null block ''price_per_mwh'') = Inr None"
    using assms(2) by (simp add: finite_or_none_def)
  with assms(1) show ?thesis
    by (auto simp: sanitize_grid_context_def Let_def grid_time_def same_cache_def
        split: sum.splits if_splits intro: canonical_honest)
qed

lemma sanitize_same: "sanitize_grid_context s block g = (r, g') \<Longrightarrow> same_cache g g'"
  by (auto simp: sanitize_grid_context_def Let_def grid_time_def same_cache_def split: sum.splits if_splits)

lemma same_cache_tick: "grid_time s g = (t, g1) \<Longrightarrow> same_cache g1 g' \<Longrightarrow> same_cache g g'"
  by (auto simp: grid_time_def same_cache_def)

lemma parse_honest:
  assumes "parse_uk_carbon_intensity s payload g = (r, g')"
  shows "same_cache g g' \<and> (\<forall>b. r = Inr b \<longrightarrow> honest_block b)"
proof (cases "read_intensity payload")
  case (Inl e)
  with assms show ?thesis
    by (auto simp: parse_uk_carbon_intensity_def same_cache_def split: if_splits prod.splits dest!: unavailable_honest)
next
  case (Inr q)
  obtain actual forecast observed index where q: "q = (actual, forecast, observed, index)" by (cases q)
  show ?thesis
  proof (cases "if actual \<noteq> None then actual else forecast")
    case None
    with assms Inr q show ?thesis
      by (auto simp: parse_uk_carbon_intensity_def split: prod.splits if_splits dest!: unavailable_honest)
  next
    case (Some v)
    obtain t g1 where t: "grid_time s g = (t, g1)" by fastforce
    from assms Inr q Some t obtain block where b: "sanitize_grid_context s block g1 = (r, g')"
      "dget_or_null block ''price_per_mwh'' = JNull"
      by (simp add: parse_uk_carbon_intensity_def) (auto simp: dget_or_null_def)
    with t sanitize_same sanitize_honest show ?thesis by (metis same_cache_tick)
  qed
qed

lemma fetch_honest:
  assumes "fetch_grid_context s p region g = (r, g')"
  shows "same_cache g g' \<and> (\<forall>b. r = Inr b \<longrightarrow> honest_block b)"
proof -
  have sc: "same_cache (g\<lparr>gr_fetches := n\<rparr>) g' \<Longrightarrow> same_cache g g'" for n by (simp add: same_cache_def)
  show ?thesis
    using assms
    by (auto simp: fetch_grid_context_def Let_def split: if_splits sum.splits prod.splits
        dest!: unavailable_honest parse_honest intro: sc)
qed

text \<open>Requests and refresh threads, in any order.\<close>

inductive grid_step :: "grid_sys \<Rightarrow> rat \<Rightarrow> grid \<Rightarrow> grid \<Rightarrow> bool" for s max_age where
  request: "current_grid_context s max_age g = (b, g') \<Longrightarrow> grid_step s max_age g g'"
| refresh: "0 < gr_pending g \<Longrightarrow> grid_step s max_age g (run_refresh s g)"

lemma grid_step_ok:
  assumes "grid_step s max_age g g'" "grid_ok g"
  shows "grid_ok g'"
  using assms
proof (cases rule: grid_step.cases)
  case (request b)
  with assms(2) show ?thesis
    by (auto simp: current_grid_context_def grid_cached_def grid_ok_def spawn_refresh_def
        dest!: grid_time_frame split: prod.splits if_splits)
next
  case refresh
  obtain r g1 where f: "fetch_grid_context s provider_uk None g = (r, g1)" by fastforce
  note h = fetch_honest [OF f]
  show ?thesis
  proof (cases r)
    case (Inl e)
    with refresh f h assms(2) show ?thesis
      by (auto simp: run_refresh_def grid_ok_def same_cache_def split: if_splits)
  next
    case (Inr b)
    obtain t g2 where t: "grid_time s g1 = (t, g2)" by fastforce
    with refresh f h assms(2) Inr grid_time_frame [OF t] show ?thesis
      by (auto simp: run_refresh_def grid_store_def grid_ok_def same_cache_def split: if_splits)
  qed
qed

lemma grid_run_ok: "(grid_step s max_age)\<^sup>*\<^sup>* g g' \<Longrightarrow> grid_ok g \<Longrightarrow> grid_ok g'"
  by (induction rule: rtranclp_induct) (auto intro: grid_step_ok)

section \<open>The properties\<close>

definition cold_grid :: grid where
  "cold_grid = \<lparr>gr_ts = 0, gr_block = None, gr_inflight = False, gr_pending = 0, gr_ticks = 0, gr_fetches = 0\<rparr>"

text \<open>
  The grid context never blocks and never lies. From a cold cache, whatever requests and refresh
  threads run in whatever order and whatever the feed sends, there is at most one refresh thread, the
  block a request attaches is the cached one, fetched by nobody on the request path, and its labels
  follow its values: a reported number is a finite float, a missing one is labelled unavailable, and
  there is never a price.
\<close>

theorem grid_context_honest:
  assumes "(grid_step s max_age)\<^sup>*\<^sup>* cold_grid g" "current_grid_context s max_age g = (b, g')"
  shows "gr_pending g' \<le> 1 \<and> (gr_inflight g' = (gr_pending g' = 1)) \<and> gr_fetches g' = gr_fetches g
    \<and> b = gr_block g \<and> (\<forall>blk. b = Some blk \<longrightarrow> honest_block blk)"
proof -
  have "grid_ok cold_grid" by (simp add: grid_ok_def cold_grid_def)
  with assms(1) have ok: "grid_ok g" by (rule grid_run_ok)
  then have ok': "grid_ok g'" using grid_step_ok grid_step.request [OF assms(2)] by blast
  have "b = gr_block g \<and> gr_fetches g' = gr_fetches g"
    using assms(2) by (auto simp: current_grid_context_def grid_cached_def spawn_refresh_def
        dest!: grid_time_frame split: prod.splits if_splits)
  with ok ok' show ?thesis by (auto simp: grid_ok_def split: option.splits)
qed

definition uk_sys :: "json \<Rightarrow> grid_sys" where
  "uk_sys payload = \<lparr>gs_sys = echo_sys (Inr JNull), gs_get = (\<lambda>_. Inr payload)\<rparr>"

theorem grid_context_honest_witness:
  "let s = uk_sys (JObj [(''data'', JArr [JObj [(''intensity'', JObj [(''actual'', JInt 120)])]])]);
       g = run_refresh s (snd (current_grid_context s 300 cold_grid))
   in \<exists>blk. fst (current_grid_context s 300 g) = Some blk \<and> honest_block blk"
proof -
  let ?s = "uk_sys (JObj [(''data'', JArr [JObj [(''intensity'', JObj [(''actual'', JInt 120)])]])])"
  let ?g1 = "snd (current_grid_context ?s 300 cold_grid)"
  let ?g = "run_refresh ?s ?g1"
  have "grid_step ?s 300 cold_grid ?g1" by (rule grid_step.request) (rule prod.collapse [symmetric])
  moreover have "grid_step ?s 300 ?g1 ?g"
  proof (rule grid_step.refresh)
    show "0 < gr_pending ?g1" by code_simp
  qed
  ultimately have "(grid_step ?s 300)\<^sup>*\<^sup>* cold_grid ?g" by (simp add: rtranclp.rtrancl_into_rtrancl r_into_rtranclp)
  from grid_context_honest [OF this prod.collapse [symmetric]]
  have "\<forall>blk. fst (current_grid_context ?s 300 ?g) = Some blk \<longrightarrow> honest_block blk" by blast
  moreover have "fst (current_grid_context ?s 300 ?g) \<noteq> None" by code_simp
  ultimately show ?thesis by (auto simp: Let_def)
qed

definition huge_int :: int where
  "huge_int = 2 ^ 1024"

text \<open>
  A malformed feed escapes the fetch. \<open>fetch_grid_context\<close> promises to answer every failure with
  an unavailable block and never to raise, but a record that is not an object, or an intensity of
  more than about 300 digits, makes it raise; the refresh thread swallows that and caches nothing, so
  every later request starts another refresh.
\<close>

theorem malformed_feed_escapes:
  "fst (fetch_grid_context (uk_sys (JObj [(''data'', JArr [JStr ''x''])])) provider_uk None cold_grid)
     = Inl (PyError ''AttributeError'' (quoted ''str'' @ '' object has no attribute '' @ quoted ''get''))
   \<and> fst (fetch_grid_context (uk_sys (JObj [(''data'', JArr [JObj [(''intensity'', JObj [(''actual'', JInt huge_int)])]])]))
        provider_uk None cold_grid) = Inl (PyError ''OverflowError'' ''int too large to convert to float'')
   \<and> gr_block (run_refresh (uk_sys (JObj [(''data'', JArr [JStr ''x''])])) cold_grid) = None"
proof -
  have ov: "float_overflows huge_int" by (simp add: float_overflows_def huge_int_def)
  have "read_intensity (JObj [(''data'', JArr [JObj [(''intensity'', JObj [(''actual'', JInt huge_int)])]])])
      = Inl (PyError ''OverflowError'' ''int too large to convert to float'')"
    by (simp add: read_intensity_def py_item_def py_first_def py_get_def or_else_def finite_or_none_def ov dget_or_null_def)
  moreover have "read_intensity (JObj [(''data'', JArr [JStr ''x''])])
      = Inl (PyError ''AttributeError'' (quoted ''str'' @ '' object has no attribute '' @ quoted ''get''))"
    by (simp add: read_intensity_def py_item_def py_first_def py_get_def)
  ultimately show ?thesis
    by (simp add: fetch_grid_context_def uk_sys_def parse_uk_carbon_intensity_def run_refresh_def cold_grid_def Let_def)
qed

end
