(* ===== verification/Decode.thy ===== *)
theory Decode
  imports Retry
begin

text \<open>
  \<open>json.loads\<close> with its hooks. Scanning the text into literals is a parameter of the model (a
  function from text to \<open>raw\<close>, or the error it raises); what the hooks of the source then make of
  the literals, in the order of the text, is \<open>decode\<close>. An object is built from its pairs once its
  values are.

  The lemmas: an object hook that refuses repeated keys yields values without repeated keys, a float
  hook that refuses the special values yields finite values.
\<close>

datatype raw =
    RNull
  | RBool bool
  | RInt int
  | RFloat string       \<comment> \<open>a literal with a fraction or an exponent\<close>
  | RConst string       \<comment> \<open>\<open>NaN\<close>, \<open>Infinity\<close>, \<open>-Infinity\<close>\<close>
  | RStr string
  | RArr "raw list"
  | RObj "(string \<times> raw) list"

type_synonym scanner = "string \<Rightarrow> exn + raw"

record hooks =
  h_float :: "string \<Rightarrow> exn + json"
  h_const :: "string \<Rightarrow> exn + json"
  h_object :: "jdict \<Rightarrow> exn + json"

fun decode :: "hooks \<Rightarrow> raw \<Rightarrow> exn + json"
  and decode_list :: "hooks \<Rightarrow> raw list \<Rightarrow> exn + json list"
  and decode_items :: "hooks \<Rightarrow> (string \<times> raw) list \<Rightarrow> exn + jdict" where
  "decode h RNull = Inr JNull"
| "decode h (RBool b) = Inr (JBool b)"
| "decode h (RInt i) = Inr (JInt i)"
| "decode h (RFloat t) = h_float h t"
| "decode h (RConst c) = h_const h c"
| "decode h (RStr t) = Inr (JStr t)"
| "decode h (RArr xs) = bindE (decode_list h xs) (\<lambda>ys. Inr (JArr ys))"
| "decode h (RObj d) = bindE (decode_items h d) (h_object h)"
| "decode_list h [] = Inr []"
| "decode_list h (x # xs) = bindE (decode h x) (\<lambda>y. bindE (decode_list h xs) (\<lambda>ys. Inr (y # ys)))"
| "decode_items h [] = Inr []"
| "decode_items h ((k, v) # d) =
     bindE (decode h v) (\<lambda>y. bindE (decode_items h d) (\<lambda>e. Inr ((k, y) # e)))"

text \<open>\<open>dict(pairs)\<close>: a later value replaces an earlier one, in its place.\<close>

definition dict_of :: "jdict \<Rightarrow> jdict" where
  "dict_of pairs = dupdate [] pairs"

definition plain_object :: "jdict \<Rightarrow> exn + json" where
  "plain_object pairs = Inr (JObj (dict_of pairs))"

text \<open>The \<open>unique_object\<close> hook of three modules.\<close>

definition unique_object :: "exn \<Rightarrow> jdict \<Rightarrow> exn + json" where
  "unique_object e pairs =
     (let result = dict_of pairs in if length result \<noteq> length pairs then Inl e else Inr (JObj result))"

definition plain_float :: "sys \<Rightarrow> string \<Rightarrow> exn + json" where
  "plain_float s t = (case s_float s t of
     None \<Rightarrow> Inl (ValueError ''could not convert string to float'') | Some f \<Rightarrow> Inr (JFloat f))"

text \<open>The \<open>ValueError\<close>s, subclasses included.\<close>

definition is_value_error :: "exn \<Rightarrow> bool" where
  "is_value_error e = (case e of
     PyError c m \<Rightarrow> c \<in> {''ValueError'', ''JSONDecodeError'', ''UnicodeDecodeError'', ''UnicodeEncodeError'',
                       ''VerificationInputError'', ''ValidationError''}
   | _ \<Rightarrow> False)"

section \<open>Dictionaries from pairs\<close>

lemma dupdate_Cons [simp]: "dupdate d ((k, v) # e) = dupdate (dset k v d) e"
  by (simp add: dupdate_def)

lemma dupdate_Nil [simp]: "dupdate d [] = d"
  by (simp add: dupdate_def)

lemma keys_dset: "fst ` set (dset k v d) = insert k (fst ` set d)"
  by (simp add: dom_update)

lemma keys_dupdate: "fst ` set (dupdate d e) = fst ` set d \<union> fst ` set e"
proof (induction e arbitrary: d)
  case Nil
  then show ?case by simp
next
  case (Cons p e)
  obtain k v where "p = (k, v)" by (cases p)
  with Cons [of "dset k v d"] show ?case by (simp add: keys_dset)
qed

lemma distinct_dupdate: "distinct (map fst d) \<Longrightarrow> distinct (map fst (dupdate d e))"
  by (induction e arbitrary: d) (auto simp: distinct_dset)

lemma dset_new: "k \<notin> fst ` set d \<Longrightarrow> dset k v d = d @ [(k, v)]"
  by (induction d) auto

lemma dupdate_new:
  "distinct (map fst e) \<Longrightarrow> fst ` set d \<inter> fst ` set e = {} \<Longrightarrow> dupdate d e = d @ e"
  by (induction e arbitrary: d) (auto simp: dset_new)

lemma length_dupdate_le: "length (dupdate d e) \<le> length d + length e"
proof (induction e arbitrary: d)
  case Nil
  then show ?case by simp
next
  case (Cons p e)
  obtain k v where "p = (k, v)" by (cases p)
  with Cons [of "dset k v d"] show ?case by (simp add: length_dset split: if_splits)
qed

lemma length_dupdate_less:
  "\<not> distinct (map fst e) \<or> fst ` set d \<inter> fst ` set e \<noteq> {} \<Longrightarrow> length (dupdate d e) < length d + length e"
proof (induction e arbitrary: d)
  case Nil
  then show ?case by simp
next
  case (Cons p e)
  obtain k v where p: "p = (k, v)" by (cases p)
  show ?case
  proof (cases "k \<in> fst ` set d")
    case True
    then have "has_key d k" by auto
    then have "length (dset k v d) = length d" by (simp add: length_dset)
    with length_dupdate_le [of "dset k v d" e] p show ?thesis by simp
  next
    case False
    with Cons.prems p have "\<not> distinct (map fst e) \<or> fst ` set (dset k v d) \<inter> fst ` set e \<noteq> {}"
      by (auto simp: keys_dset)
    from Cons.IH [OF this] p length_dset [of k v d] show ?thesis by (simp split: if_splits)
  qed
qed

lemma dict_of_unique: "length (dict_of pairs) = length pairs \<longleftrightarrow> distinct (map fst pairs)"
proof (cases "distinct (map fst pairs)")
  case True
  with dupdate_new [of pairs "[]"] show ?thesis by (simp add: dict_of_def)
next
  case False
  with length_dupdate_less [of pairs "[]"] show ?thesis by (simp add: dict_of_def)
qed

lemma unique_object_iff: "unique_object e pairs = Inr j \<longleftrightarrow> distinct (map fst pairs) \<and> j = JObj pairs"
  using dict_of_unique [of pairs] dupdate_new [of pairs "[]"]
  by (auto simp: unique_object_def Let_def dict_of_def)

section \<open>What decoding guarantees\<close>

fun keys_unique :: "json \<Rightarrow> bool" and keys_unique_list :: "json list \<Rightarrow> bool"
  and keys_unique_items :: "(string \<times> json) list \<Rightarrow> bool" where
  "keys_unique (JArr xs) = keys_unique_list xs"
| "keys_unique (JObj d) = (distinct (map fst d) \<and> keys_unique_items d)"
| "keys_unique _ = True"
| "keys_unique_list [] = True"
| "keys_unique_list (x # xs) = (keys_unique x \<and> keys_unique_list xs)"
| "keys_unique_items [] = True"
| "keys_unique_items ((k, v) # d) = (keys_unique v \<and> keys_unique_items d)"

definition scalar :: "json \<Rightarrow> bool" where
  "scalar j = (case j of JArr _ \<Rightarrow> False | JObj _ \<Rightarrow> False | _ \<Rightarrow> True)"

lemma keys_unique_scalar: "scalar j \<Longrightarrow> keys_unique j"
  by (cases j) (auto simp: scalar_def)

definition strict_hooks :: "hooks \<Rightarrow> bool" where
  "strict_hooks h \<longleftrightarrow> (\<forall>t j. h_float h t = Inr j \<longrightarrow> scalar j) \<and> (\<forall>c j. h_const h c = Inr j \<longrightarrow> scalar j)
     \<and> (\<exists>e. h_object h = unique_object e)"

lemma decode_keys_unique:
  "strict_hooks h \<Longrightarrow> decode h r = Inr j \<Longrightarrow> keys_unique j"
  "strict_hooks h \<Longrightarrow> decode_list h rs = Inr js \<Longrightarrow> keys_unique_list js"
  "strict_hooks h \<Longrightarrow> decode_items h d = Inr ps \<Longrightarrow> keys_unique_items ps"
proof (induction h r and h rs and h d arbitrary: j and js and ps rule: decode_decode_list_decode_items.induct)
  case (4 h t)
  then show ?case using keys_unique_scalar by (auto simp: strict_hooks_def)
next
  case (5 h c)
  then show ?case using keys_unique_scalar by (auto simp: strict_hooks_def)
next
  case (8 h d)
  then show ?case by (auto simp: bindE_Inr_iff unique_object_iff strict_hooks_def)
qed (auto simp: bindE_Inr_iff)

definition finite_hooks :: "hooks \<Rightarrow> bool" where
  "finite_hooks h \<longleftrightarrow> (\<forall>t j. h_float h t = Inr j \<longrightarrow> json_finite j) \<and> (\<forall>c j. h_const h c = Inr j \<longrightarrow> json_finite j)
     \<and> (\<forall>d j. h_object h d = Inr j \<longrightarrow> json_finite_items d \<longrightarrow> json_finite j)"

lemma decode_finite:
  "finite_hooks h \<Longrightarrow> decode h r = Inr j \<Longrightarrow> json_finite j"
  "finite_hooks h \<Longrightarrow> decode_list h rs = Inr js \<Longrightarrow> json_finite_list js"
  "finite_hooks h \<Longrightarrow> decode_items h d = Inr ps \<Longrightarrow> json_finite_items ps"
proof (induction h r and h rs and h d arbitrary: j and js and ps rule: decode_decode_list_decode_items.induct)
  case (4 h t)
  then show ?case unfolding finite_hooks_def by simp
next
  case (5 h c)
  then show ?case unfolding finite_hooks_def by simp
next
  case (8 h d)
  then obtain e where "decode_items h d = Inr e" "h_object h e = Inr j" by (auto simp: bindE_Inr_iff)
  with 8 show ?case unfolding finite_hooks_def by blast
qed (auto simp: bindE_Inr_iff)

lemma json_finite_update: "json_finite v \<Longrightarrow> json_finite_items d \<Longrightarrow> json_finite_items (dset k v d)"
  by (induction d) auto

lemma json_finite_dupdate: "json_finite_items d \<Longrightarrow> json_finite_items e \<Longrightarrow> json_finite_items (dupdate d e)"
proof (induction e arbitrary: d)
  case Nil
  then show ?case by simp
next
  case (Cons p e)
  obtain k v where "p = (k, v)" by (cases p)
  with Cons show ?case by (simp add: json_finite_update)
qed

lemma json_finite_dict_of: "json_finite_items d \<Longrightarrow> json_finite_items (dict_of d)"
  by (simp add: dict_of_def json_finite_dupdate)

end
