(* ===== verification/Gateway.thy ===== *)
theory Gateway
  imports Decode Chat Embed Grid MeshHttp
begin

text \<open>
  The HTTP surface \<open>szl_router/app.py\<close>: every endpoint as a function from a request and the process
  state to an answer and the new state. FastAPI itself (routing, the rendering of a returned value,
  the 500 it makes of an unhandled exception) is not modelled: an endpoint ends in \<open>Answer\<close> with the
  value it returns, in \<open>HttpError\<close> for \<open>HTTPException\<close>, or in \<open>Unhandled\<close>.

  The components keep their own counters of clock readings.
\<close>

section \<open>Requests, state, answers\<close>

record gw_req =
  gq_auth :: "string option"     \<comment> \<open>the first \<open>authorization\<close> header\<close>
  gq_body :: string
  gq_peer :: "string option"     \<comment> \<open>\<open>request.client.host\<close>\<close>

record gw_sys =
  gw_sys :: sys
  gw_scan :: scanner
  gw_lib :: receipt_lib
  gw_grid_get :: "nat \<Rightarrow> exn + json"
  gw_grid_ttl :: rat                 \<comment> \<open>\<open>grid._DEFAULT_TTL\<close>\<close>
  gw_harvest_get :: "nat \<Rightarrow> string \<Rightarrow> exn + json"
  gw_exists :: "string \<Rightarrow> bool"      \<comment> \<open>\<open>os.path.exists\<close>\<close>
  gw_ledger :: "string option"       \<comment> \<open>the contents of the ledger file\<close>

record gateway =
  g_world :: world
  g_keys :: key_state
  g_grid :: grid
  g_harvest :: harvest

datatype answer =
    Answer int json "string dict"
  | HttpError int string
  | Unhandled exn

section \<open>The guards\<close>

definition check_auth :: "env \<Rightarrow> gw_req \<Rightarrow> answer option" where
  "check_auth e q =
     (let want = strip (env_get e ''SZL_ROUTER_TOKEN'' []);
          got = (case gq_auth q of None \<Rightarrow> [] | Some v \<Rightarrow> v)
      in if want = [] then None
         else if got \<noteq> ''Bearer '' @ want then Some (HttpError 401 ''invalid SZL_ROUTER_TOKEN'')
         else None)"

text \<open>The hooks \<open>_reject_json_constant\<close> and \<open>_finite_json_float\<close>, applied in the order of the text.\<close>

definition finite_json_float :: "sys \<Rightarrow> string \<Rightarrow> exn + json" where
  "finite_json_float s t =
     (case s_float s t of
        None \<Rightarrow> Inl (ValueError ''could not convert string to float'')
      | Some f \<Rightarrow> if isfinite f then Inr (JFloat f) else Inl (ValueError ''non-finite JSON number''))"

definition gateway_hooks :: "sys \<Rightarrow> hooks" where
  "gateway_hooks s = \<lparr>h_float = finite_json_float s, h_const = (\<lambda>_. Inl (ValueError ''non-finite JSON number'')),
     h_object = plain_object\<rparr>"

text \<open>The body reader catches every \<open>ValueError\<close> and the recursion limit.\<close>

definition json_object :: "gw_sys \<Rightarrow> string \<Rightarrow> answer + jdict" where
  "json_object s body =
     (case bindE (gw_scan s body) (decode (gateway_hooks (gw_sys s))) of
        Inl e \<Rightarrow>
          if is_value_error e \<or> exn_class e = ''RecursionError''
          then Inl (HttpError 400 ''request body must be finite JSON within parser limits'')
          else Inl (Unhandled e)
      | Inr (JObj d) \<Rightarrow> Inr d
      | Inr _ \<Rightarrow> Inl (HttpError 400 ''request body must be a JSON object''))"

section \<open>Reading endpoints\<close>

definition gw_time :: "gw_sys \<Rightarrow> gateway \<Rightarrow> rat \<times> gateway" where
  "gw_time s g = (let (t, w) = read_time (gw_sys s) (g_world g) in (t, g\<lparr>g_world := w\<rparr>))"

definition healthz :: "gw_sys \<Rightarrow> gateway \<Rightarrow> answer \<times> gateway" where
  "healthz s g = (let (t, g') = gw_time s g in
     (Answer 200 (JObj [(''ok'', JBool True), (''service'', JStr ''szl-router''), (''ts'', JInt (py_trunc t))]) [], g'))"

definition status :: "gw_sys \<Rightarrow> answer" where
  "status s = Answer 200 (core_status (s_env (gw_sys s))) []"

definition model_row :: "int \<Rightarrow> string \<Rightarrow> json" where
  "model_row now_s name = JObj [(''id'', JStr name), (''object'', JStr ''model''), (''created'', JInt now_s),
     (''owned_by'', JStr ''szl-router'')]"

definition models :: "gw_sys \<Rightarrow> gateway \<Rightarrow> answer \<times> gateway" where
  "models s g = (let (t, g') = gw_time s g in
     (Answer 200 (JObj [(''object'', JStr ''list''),
        (''data'', JArr (map (model_row (py_trunc t)) (map fst MODEL_ROUTES @ [AUTO_MODEL] @ map fst EMBED_ROUTES)))]) [], g'))"

text \<open>The peer of \<open>/v1/spend\<close>: an address literal, an IPv4-mapped one counted as IPv4.\<close>

definition peer_loopback :: "string option \<Rightarrow> bool" where
  "peer_loopback p =
     (case p of
        None \<Rightarrow> False
      | Some h \<Rightarrow>
          (case ipv4 h of
             Some a \<Rightarrow> a ! 0 = 127
           | None \<Rightarrow> (case ipv6 h of
               None \<Rightarrow> False
             | Some a \<Rightarrow> if take 6 a = [0, 0, 0, 0, 0, 65535] then a ! 6 div 256 = 127
                         else a = [0, 0, 0, 0, 0, 0, 0, 1])))"

definition spend :: "gw_sys \<Rightarrow> gw_req \<Rightarrow> gateway \<Rightarrow> answer \<times> gateway" where
  "spend s q g =
     (case check_auth (s_env (gw_sys s)) q of
        Some a \<Rightarrow> (a, g)
      | None \<Rightarrow>
          if \<not> peer_loopback (gq_peer q)
          then (HttpError 403 ''spend state is available to loopback peers only'', g)
          else let (t, g') = gw_time s g in
            case spend_state (gw_sys s) (gw_exists s (kill_file (gw_sys s))) (iso_utc t)
                   (read_entries (gw_sys s) (gw_ledger s)) of
              Inl e \<Rightarrow> (Unhandled e, g')
            | Inr j \<Rightarrow> (Answer 200 j [], g'))"

definition harvest_of :: "gw_sys \<Rightarrow> harvest_sys" where
  "harvest_of s = \<lparr>hs_sys = gw_sys s, hs_get = gw_harvest_get s\<rparr>"

definition answer_of :: "exn + jdict \<Rightarrow> answer" where
  "answer_of r = (case r of Inl e \<Rightarrow> Unhandled e | Inr d \<Rightarrow> Answer 200 (JObj d) [])"

definition fabric :: "gw_sys \<Rightarrow> gateway \<Rightarrow> answer \<times> gateway" where
  "fabric s g = (let (r, h) = fabric_status (harvest_of s) True True (g_harvest g)
     in (answer_of r, g\<lparr>g_harvest := h\<rparr>))"

definition harvest_page :: "gw_sys \<Rightarrow> gateway \<Rightarrow> answer \<times> gateway" where
  "harvest_page s g = (let (r, h) = harvest_status (harvest_of s) True False (g_harvest g)
     in (answer_of r, g\<lparr>g_harvest := h\<rparr>))"

section \<open>Chat completions\<close>

definition without :: "string list \<Rightarrow> jdict \<Rightarrow> jdict" where
  "without ks d = filter (\<lambda>(k, v). k \<notin> set ks) d"

definition all_failed :: "string \<Rightarrow> attempt list \<Rightarrow> answer" where
  "all_failed msg attempts = Answer 502 (JObj [
     (''error'', JObj [(''message'', JStr msg), (''type'', JStr ''router_all_routes_failed'')]),
     (''x_szl_provenance'', JObj [(''attempts'', JArr (map attempt_json attempts))])]) []"

text \<open>The text of the \<open>TypeError\<close> that resolving a model that is no string raises.\<close>

definition model_type_error :: "json \<Rightarrow> exn" where
  "model_type_error m = (case m of
     JArr _ \<Rightarrow> TypeError (''unhashable type: '' @ quoted ''list'')
   | JObj _ \<Rightarrow> TypeError (''unhashable type: '' @ quoted ''dict'')
   | _ \<Rightarrow> TypeError (''argument of type '' @ quoted (type_name m) @ '' is not iterable''))"

definition observer_frame :: "env \<Rightarrow> string \<Rightarrow> json" where
  "observer_frame e model = JObj [
     (''endpoint'', JStr ''/v1/chat/completions''),
     (''auth_mode'', JStr (if strip (env_get e ''SZL_ROUTER_TOKEN'' []) \<noteq> [] then ''bearer'' else ''open'')),
     (''requested_model'', JStr model),
     (''note'', JStr (''observer frame: what this caller asked for and how they were ''
        @ ''authenticated - the receipt verdict is relative to this frame''))]"

definition grid_of :: "gw_sys \<Rightarrow> grid_sys" where
  "grid_of s = \<lparr>gs_sys = gw_sys s, gs_get = gw_grid_get s\<rparr>"

text \<open>The answer to a served chat: the receipt around the result.\<close>

definition with_receipt :: "gw_sys \<Rightarrow> string \<Rightarrow> json \<Rightarrow> json \<Rightarrow> gateway \<Rightarrow> answer \<times> gateway" where
  "with_receipt s model messages result g =
     (let e = s_env (gw_sys s);
          prov = obj_items (jget result ''x_szl_provenance'');
          (ctx, gr) = (if grid_enabled e then current_grid_context (grid_of s) (gw_grid_ttl s) (g_grid g)
                       else (None, g_grid g));
          body = build_body prov (JStr model) (jget result ''usage'')
                   (request_digest (gw_sys s) (JStr model) messages)
                   (dget_or_null prov ''routing'') (dget_or_null prov ''cost'') (observer_frame e model)
                   (case ctx of None \<Rightarrow> JNull | Some b \<Rightarrow> JObj b);
          (r, ks) = build_envelope (gw_lib s) e body (g_keys g);
          g' = g\<lparr>g_grid := gr, g_keys := ks\<rparr>
      in case r of
           Inl x \<Rightarrow> (Unhandled x, g')
         | Inr None \<Rightarrow> (Answer 200 result [], g')
         | Inr (Some envelope) \<Rightarrow>
             (Answer 200 result [(''x-szl-receipt'', encode_header (gw_sys s) envelope)], g'))"

definition chat_request :: "jdict \<Rightarrow> string \<Rightarrow> chat_args" where
  "chat_request body model =
     \<lparr>a_model = model, a_messages = dget_or_null body ''messages'',
      a_temperature = dget_or_null body ''temperature'',
      a_max_tokens = dget_or_null body ''max_tokens'', a_timeout = JFloat (Fin 60),
      a_extra = JObj (without [''model'', ''messages'', ''temperature'', ''max_tokens'', ''stream''] body)\<rparr>"

definition chat_completions :: "gw_sys \<Rightarrow> gw_req \<Rightarrow> gateway \<Rightarrow> answer \<times> gateway" where
  "chat_completions s q g =
     (case check_auth (s_env (gw_sys s)) q of
        Some a \<Rightarrow> (a, g)
      | None \<Rightarrow>
      (case json_object s (gq_body q) of
        Inl a \<Rightarrow> (a, g)
      | Inr body \<Rightarrow>
          let messages = dget_or_null body ''messages'' in
          if \<not> truthy messages then (HttpError 400 ''messages is required'', g)
          else (case or_else (dget_or_null body ''model'') (JStr DEFAULT_MODEL) of
            JStr model \<Rightarrow>
              (case chat (gw_sys s) (chat_request body model) None (g_world g) of
                 (RouterError msg attempts reason, _, w) \<Rightarrow> (all_failed msg attempts, g\<lparr>g_world := w\<rparr>)
               | (Raise e, _, w) \<Rightarrow> (Unhandled e, g\<lparr>g_world := w\<rparr>)
               | (Ret (result, v), _, w) \<Rightarrow> with_receipt s model messages result (g\<lparr>g_world := w\<rparr>))
          | m \<Rightarrow> (Unhandled (model_type_error m), g))))"

section \<open>Embeddings and receipts\<close>

definition embeddings :: "gw_sys \<Rightarrow> gw_req \<Rightarrow> gateway \<Rightarrow> answer \<times> gateway" where
  "embeddings s q g =
     (case check_auth (s_env (gw_sys s)) q of
        Some a \<Rightarrow> (a, g)
      | None \<Rightarrow>
      (case json_object s (gq_body q) of
        Inl a \<Rightarrow> (a, g)
      | Inr body \<Rightarrow>
          let inp = dget_or_null body ''input'' in
          if inp = JNull then (HttpError 400 ''input is required'', g)
          else (case embed (gw_sys s) \<lparr>e_model = or_else (dget_or_null body ''model'') (JStr ''bge-large''),
                   e_input = inp, e_timeout = JFloat (Fin 60),
                   e_extra = JObj (without [''model'', ''input''] body), e_use_cache = True\<rparr> None (g_world g) of
             (Raise e, _, w) \<Rightarrow>
               (if is_value_error e then HttpError 400 (exn_str e) else Unhandled e, g\<lparr>g_world := w\<rparr>)
           | (RouterError msg attempts reason, _, w) \<Rightarrow> (all_failed msg attempts, g\<lparr>g_world := w\<rparr>)
           | (Ret (result, v), _, w) \<Rightarrow> (Answer 200 result [], g\<lparr>g_world := w\<rparr>))))"

definition receipt_verify :: "gw_sys \<Rightarrow> gw_req \<Rightarrow> answer" where
  "receipt_verify s q =
     (case json_object s (gq_body q) of
        Inl a \<Rightarrow> a
      | Inr body \<Rightarrow>
          let judge = (\<lambda>envelope. case envelope of
                JObj d \<Rightarrow> (case verify_envelope (gw_lib s) (JObj d) (dget_or_null body ''public_key_pem'') of
                   Inl e \<Rightarrow> Unhandled e
                 | Inr (valid, detail) \<Rightarrow> Answer 200 (JObj [(''valid'', JBool valid), (''detail'', JStr detail),
                     (''signed'', JBool (truthy (dget_or_null d ''signed'')))]) [])
              | _ \<Rightarrow> HttpError 400 ''envelope must be an object or base64 string'')
          in case dget_or_null body ''envelope'' of
               JNull \<Rightarrow> HttpError 400 ''envelope is required''
             | JStr t \<Rightarrow> (case decode_header (gw_sys s) t of
                 Inl e \<Rightarrow> HttpError 400 ''envelope is not valid base64-JSON''
               | Inr j \<Rightarrow> judge j)
             | j \<Rightarrow> judge j)"

definition receipt_pubkey :: "gw_sys \<Rightarrow> gateway \<Rightarrow> answer \<times> gateway" where
  "receipt_pubkey s g =
     (case init_signing (gw_lib s) (s_env (gw_sys s)) (g_keys g) of
        (Some e, ks) \<Rightarrow> (Unhandled e, g\<lparr>g_keys := ks\<rparr>)
      | (None, ks) \<Rightarrow> (Answer 200 (JObj [
          (''public_key_pem'', opt_str (ks_public ks)), (''source'', JStr (ks_source ks)),
          (''ephemeral'', JBool (ks_ephemeral ks)), (''library_available'', JBool (ks_library ks)),
          (''note'', JStr (if ks_ephemeral ks then ''ephemeral session key - verifies THIS session'' @ [CHR 0x27] @ ''s receipts only; ''
               @ ''not a persistent identity''
             else if has_key_bytes (ks_private ks) then ''configured signing key''
             else ''receipts are UNSIGNED-honest (no key armed)''))]) [], g\<lparr>g_keys := ks\<rparr>))"

section \<open>What a request can get\<close>

lemma map_sum_Inr_iff: "map_sum id f r = Inr y \<longleftrightarrow> (\<exists>x. r = Inr x \<and> y = f x)"
  by (cases r) auto

lemma finite_gateway_hooks: "finite_hooks (gateway_hooks s)"
  by (auto simp: finite_hooks_def gateway_hooks_def finite_json_float_def plain_object_def json_finite_dict_of
      split: option.splits if_splits)

lemma json_objectE:
  assumes "json_object s b = Inr d"
  shows "json_finite (JObj d)"
proof -
  from assms obtain a where "decode (gateway_hooks (gw_sys s)) a = Inr (JObj d)"
    by (auto simp: json_object_def bindE_Inr_iff split: sum.splits json.splits if_splits)
  then show ?thesis by (rule decode_finite(1) [OF finite_gateway_hooks])
qed

lemma dget_optional: "dget (optional_field k v) k' = (if k' = k \<and> v \<noteq> JNull then Some v else None)"
  by (simp add: optional_field_def)

text \<open>What a receipt says of a served answer, in terms of its provenance.\<close>

definition receipt_of :: "gw_sys \<Rightarrow> string \<Rightarrow> json \<Rightarrow> provenance \<Rightarrow> jdict \<Rightarrow> bool" where
  "receipt_of s model messages v b \<longleftrightarrow>
     dget b ''served_by'' = Some (opt_str (v_served_by v)) \<and> dget b ''sovereign'' = Some (JBool (v_sovereign v))
   \<and> dget b ''tier'' = Some (opt_str (v_tier v)) \<and> dget b ''energy'' = Some (JStr ''UNAVAILABLE'')
   \<and> dget b ''attempts'' = Some (JArr (map attempt_json (v_attempts v))) \<and> dget b ''model'' = Some (JStr model)
   \<and> dget b ''request_digest'' = Some (JStr (request_digest (gw_sys s) (JStr model) messages))"

lemma receipt_of_build_body:
  "receipt_of s model messages v
     (build_body (provenance_dict v) (JStr model) usage (request_digest (gw_sys s) (JStr model) messages) routing cost observer ctx)"
  by (simp add: receipt_of_def build_body_def provenance_dict_def dget_or_null_def)

lemma with_receipt_cases:
  assumes "jget result ''x_szl_provenance'' = JObj d"
  obtains usage ctx gr r ks where
    "build_envelope (gw_lib s) (s_env (gw_sys s)) (build_body d (JStr model) usage
       (request_digest (gw_sys s) (JStr model) messages) (dget_or_null d ''routing'') (dget_or_null d ''cost'')
       (observer_frame (s_env (gw_sys s)) model) ctx) (g_keys g) = (r, ks)"
    "with_receipt s model messages result g = (case r of
         Inl x \<Rightarrow> Unhandled x
       | Inr None \<Rightarrow> Answer 200 result []
       | Inr (Some envelope) \<Rightarrow> Answer 200 result [(''x-szl-receipt'', encode_header (gw_sys s) envelope)],
      g\<lparr>g_grid := gr, g_keys := ks\<rparr>)"
proof -
  let ?e = "s_env (gw_sys s)"
  obtain ctx gr where c: "(if grid_enabled ?e then current_grid_context (grid_of s) (gw_grid_ttl s) (g_grid g)
       else (None, g_grid g)) = (ctx, gr)" by (rule prod.exhaust)
  define b where "b = build_body d (JStr model) (jget result ''usage'')
    (request_digest (gw_sys s) (JStr model) messages) (dget_or_null d ''routing'') (dget_or_null d ''cost'')
    (observer_frame ?e model) (case ctx of None \<Rightarrow> JNull | Some x \<Rightarrow> JObj x)"
  obtain r ks where e: "build_envelope (gw_lib s) ?e b (g_keys g) = (r, ks)" by fastforce
  then show thesis
    by (intro that [where gr = gr, OF e [unfolded b_def]])
      (simp add: with_receipt_def Let_def assms c b_def [symmetric] e split: sum.split option.split)
qed

lemma with_receipt_shape:
  assumes "with_receipt s model messages result g = (Answer code out hdrs, g')"
    and "jget result ''x_szl_provenance'' = JObj (provenance_dict v)"
  shows "code = 200 \<and> out = result \<and> g_world g' = g_world g
    \<and> (if rl_available (gw_lib s)
       then \<exists>b envelope. receipt_of s model messages v b
          \<and> rl_sign (gw_lib s) ''inference.route'' (JObj b) (ks_private (g_keys g')) ''szl-router'' = Inr envelope
          \<and> hdrs = [(''x-szl-receipt'', encode_header (gw_sys s) envelope)]
       else hdrs = [])"
proof (rule with_receipt_cases [OF assms(2), of s model messages g])
  fix usage ctx gr r ks
  define b where "b = build_body (provenance_dict v) (JStr model) usage
    (request_digest (gw_sys s) (JStr model) messages) (dget_or_null (provenance_dict v) ''routing'')
    (dget_or_null (provenance_dict v) ''cost'') (observer_frame (s_env (gw_sys s)) model) ctx"
  have rb: "receipt_of s model messages v b" unfolding b_def by (rule receipt_of_build_body)
  assume e: "build_envelope (gw_lib s) (s_env (gw_sys s)) (build_body (provenance_dict v) (JStr model) usage
    (request_digest (gw_sys s) (JStr model) messages) (dget_or_null (provenance_dict v) ''routing'')
    (dget_or_null (provenance_dict v) ''cost'') (observer_frame (s_env (gw_sys s)) model) ctx) (g_keys g) = (r, ks)"
    and w: "with_receipt s model messages result g = (case r of
         Inl x \<Rightarrow> Unhandled x
       | Inr None \<Rightarrow> Answer 200 result []
       | Inr (Some envelope) \<Rightarrow> Answer 200 result [(''x-szl-receipt'', encode_header (gw_sys s) envelope)],
      g\<lparr>g_grid := gr, g_keys := ks\<rparr>)"
  from w assms(1) have "code = 200 \<and> out = result \<and> g' = g\<lparr>g_grid := gr, g_keys := ks\<rparr>
      \<and> (r = Inr None \<and> hdrs = [] \<or> (\<exists>envelope. r = Inr (Some envelope)
           \<and> hdrs = [(''x-szl-receipt'', encode_header (gw_sys s) envelope)]))"
    by (auto split: sum.splits option.splits)
  with e [folded b_def] rb show ?thesis
    by (auto simp: build_envelope_def map_sum_Inr_iff split: if_splits prod.splits option.splits)
qed

text \<open>
  C15. Without the token nothing happens. When a router token is configured, a request whose
  authorization header is not exactly that bearer token gets 401 from the chat, the embeddings and
  the spend endpoint, whatever its body and its peer, and no part of the state changes: nothing is
  sent, cached, signed or read.
\<close>

theorem gateway_requires_token:
  assumes "strip (env_get (s_env (gw_sys s)) ''SZL_ROUTER_TOKEN'' []) = tok" "tok \<noteq> []"
    and "gq_auth q \<noteq> Some (''Bearer '' @ tok)"
  shows "chat_completions s q g = (HttpError 401 ''invalid SZL_ROUTER_TOKEN'', g)
    \<and> embeddings s q g = (HttpError 401 ''invalid SZL_ROUTER_TOKEN'', g)
    \<and> spend s q g = (HttpError 401 ''invalid SZL_ROUTER_TOKEN'', g)"
proof -
  have "check_auth (s_env (gw_sys s)) q = Some (HttpError 401 ''invalid SZL_ROUTER_TOKEN'')"
    using assms by (auto simp: check_auth_def split: option.split)
  then show ?thesis by (simp add: chat_completions_def embeddings_def spend_def)
qed

definition demo_gw :: gw_sys where
  "demo_gw = \<lparr>gw_sys = demo_sys,
     gw_scan = (\<lambda>t. Inr (RObj [(''model'', RStr ''omen_gpu:m''), (''messages'', RArr [RObj [(''role'', RStr ''user'')]])])),
     gw_lib = demo_lib, gw_grid_get = (\<lambda>_. Inl (ConnError ''ConnectionError'' [])), gw_grid_ttl = 300,
     gw_harvest_get = (\<lambda>_ _. Inl (ConnError ''ConnectionError'' [])), gw_exists = (\<lambda>_. False), gw_ledger = None\<rparr>"

definition cold_gateway :: gateway where
  "cold_gateway = \<lparr>g_world = new_world, g_keys = fresh_keys, g_grid = cold_grid,
     g_harvest = \<lparr>hv_ts = 0, hv_data = None, hv_ticks = 0, hv_gets = 0\<rparr>\<rparr>"

theorem gateway_requires_token_witness:
  "chat_completions (demo_gw\<lparr>gw_sys := demo_sys\<lparr>s_env := \<lambda>k. if k = ''SZL_ROUTER_TOKEN'' then Some '' t '' else None\<rparr>\<rparr>)
     \<lparr>gq_auth = Some ''Bearer T'', gq_body = [], gq_peer = None\<rparr> cold_gateway
   = (HttpError 401 ''invalid SZL_ROUTER_TOKEN'', cold_gateway)"
proof -
  let ?s = "demo_gw\<lparr>gw_sys := demo_sys\<lparr>s_env := \<lambda>k. if k = ''SZL_ROUTER_TOKEN'' then Some '' t '' else None\<rparr>\<rparr>"
  have "strip (env_get (s_env (gw_sys ?s)) ''SZL_ROUTER_TOKEN'' []) = ''t''" by code_simp
  from gateway_requires_token [OF this] show ?thesis by simp
qed

lemma chat_completionsE:
  assumes "chat_completions s q g = (Answer 200 out hdrs, g')"
  obtains body model bo w v result where
    "json_object s (gq_body q) = Inr body" "truthy (dget_or_null body ''messages'')"
    "JStr model = or_else (dget_or_null body ''model'') (JStr DEFAULT_MODEL)"
    "chat (gw_sys s) (chat_request body model) None (g_world g) = (Ret (result, v), bo, w)"
    "with_receipt s model (dget_or_null body ''messages'') result (g\<lparr>g_world := w\<rparr>) = (Answer 200 out hdrs, g')"
proof -
  obtain body where b: "json_object s (gq_body q) = Inr body"
    using assms by (auto simp: chat_completions_def check_auth_def json_object_def Let_def
        split: option.splits if_splits sum.splits json.splits)
  have auth: "check_auth (s_env (gw_sys s)) q = None"
    using assms by (auto simp: chat_completions_def check_auth_def Let_def split: option.splits if_splits)
  note c = assms [unfolded chat_completions_def Let_def auth b option.case sum.case]
  then have t: "truthy (dget_or_null body ''messages'')" by (auto split: if_splits)
  from c t obtain model where m: "or_else (dget_or_null body ''model'') (JStr DEFAULT_MODEL) = JStr model"
    by (auto split: json.splits)
  obtain r bo w where r: "chat (gw_sys s) (chat_request body model) None (g_world g) = (r, bo, w)"
    by (rule prod_cases3)
  note c' = c [unfolded m json.case r prod.case]
  from c' t obtain result v where v: "r = Ret (result, v)"
    by (cases r) (auto simp: all_failed_def)
  from c' t v have "with_receipt s model (dget_or_null body ''messages'') result (g\<lparr>g_world := w\<rparr>) = (Answer 200 out hdrs, g')"
    by simp
  with b t m r v show thesis by (intro that) simp_all
qed




lemma demo_envelope:
  "build_envelope demo_lib (s_env demo_sys) b fresh_keys = (r, ks) \<Longrightarrow> \<exists>envelope. r = Inr (Some envelope)"
proof -
  assume e: "build_envelope demo_lib (s_env demo_sys) b fresh_keys = (r, ks)"
  have "case init_signing demo_lib (s_env demo_sys) fresh_keys of (x, ks) \<Rightarrow> x = None" by code_simp
  with e show ?thesis by (auto simp: build_envelope_def demo_lib_def)
qed

lemma demo_gw_parts: "gw_sys demo_gw = demo_sys" "gw_lib demo_gw = demo_lib"
  "g_keys (cold_gateway\<lparr>g_world := w\<rparr>) = fresh_keys" "g_world cold_gateway = new_world"
  by (simp_all add: demo_gw_def cold_gateway_def)

lemma demo_receipt:
  assumes "jget result ''x_szl_provenance'' = JObj d"
  shows "\<exists>hdr g'. with_receipt demo_gw model messages result (cold_gateway\<lparr>g_world := w\<rparr>)
    = (Answer 200 result [(''x-szl-receipt'', hdr)], g')"
  by (rule with_receipt_cases [OF assms, of demo_gw model messages "cold_gateway\<lparr>g_world := w\<rparr>"])
    (auto simp: demo_gw_parts dest: demo_envelope)

lemma demo_gw_served:
  "\<exists>out hdr g'. chat_completions demo_gw \<lparr>gq_auth = None, gq_body = [], gq_peer = None\<rparr> cold_gateway
     = (Answer 200 out [(''x-szl-receipt'', hdr)], g')"
proof -
  let ?body = "[(''model'', JStr ''omen_gpu:m''), (''messages'', JArr [JObj [(''role'', JStr ''user'')]])]"
  have start: "check_auth (s_env demo_sys) \<lparr>gq_auth = None, gq_body = [], gq_peer = None\<rparr> = None"
    "json_object demo_gw [] = Inr ?body" "\<not> grid_enabled (s_env demo_sys)"
    by code_simp+
  have "case chat demo_sys (chat_request ?body ''omen_gpu:m'') None new_world of (Ret (result, v), _) \<Rightarrow> is_obj (jget result ''x_szl_provenance'') | _ \<Rightarrow> False"
    by code_simp
  then obtain result v bo w d where "chat demo_sys (chat_request ?body ''omen_gpu:m'') None new_world = (Ret (result, v), bo, w)"
    and prov: "jget result ''x_szl_provenance'' = JObj d"
    by (auto split: prod.splits outcome.splits elim!: is_obj.elims)
  then have "chat_completions demo_gw \<lparr>gq_auth = None, gq_body = [], gq_peer = None\<rparr> cold_gateway
      = with_receipt demo_gw ''omen_gpu:m'' (JArr [JObj [(''role'', JStr ''user'')]]) result (cold_gateway\<lparr>g_world := w\<rparr>)"
    using start by (simp add: chat_completions_def demo_gw_parts or_else_def dget_or_null_def Let_def)
  moreover note demo_receipt [OF prov, of "''omen_gpu:m''" "JArr [JObj [(''role'', JStr ''user'')]]" w]
  ultimately show ?thesis by metis
qed


text \<open>
  A model that is no string is a server error in the chat endpoint. A body whose model is a
  nonempty list, a nonempty object, a nonzero number or true, and that has messages, escapes
  \<open>chat_completions\<close> as an unhandled \<open>TypeError\<close>, where the embeddings endpoint answers 400 to the
  same model.
\<close>

theorem model_type_unhandled:
  assumes "check_auth (s_env (gw_sys s)) q = None" "json_object s (gq_body q) = Inr body"
    and "dget body ''model'' = Some m" "truthy m" "\<forall>x. m \<noteq> JStr x"
    and "truthy (dget_or_null body ''messages'')" "dget body ''input'' = Some inp" "inp \<noteq> JNull"
  shows "chat_completions s q g = (Unhandled (model_type_error m), g)
    \<and> exn_class (model_type_error m) = ''TypeError''
    \<and> (\<exists>msg. fst (embeddings s q g) = HttpError 400 msg)"
proof -
  have get: "dget_or_null body ''model'' = m" "dget_or_null body ''input'' = inp"
    using assms(3,7) by (simp_all add: dget_or_null_def)
  have emb: "\<exists>e. embed_request (gw_sys s) \<lparr>e_model = m, e_input = i, e_timeout = t, e_extra = x, e_use_cache = c\<rparr> None = Inl e
      \<and> is_value_error e" for i t x c
    using assms(5) by (cases m) (simp_all add: embed_request_def timeout_error_def is_value_error_def)
  from emb [of inp "JFloat (Fin 60)" "JObj (without [''model'', ''input''] body)" True] get assms
  have "\<exists>msg. fst (embeddings s q g) = HttpError 400 msg"
    by (auto simp: embeddings_def embed_def or_else_def Let_def)
  moreover have "chat_completions s q g = (Unhandled (model_type_error m), g)"
    using assms get by (cases m) (simp_all add: chat_completions_def or_else_def)
  moreover have "exn_class (model_type_error m) = ''TypeError''"
    by (cases m) (simp_all add: model_type_error_def)
  ultimately show ?thesis by blast
qed

theorem model_type_unhandled_witness:
  "fst (chat_completions (demo_gw\<lparr>gw_scan := \<lambda>_. Inr (RObj [(''model'', RInt 7), (''messages'', RStr ''hi''), (''input'', RStr ''x'')])\<rparr>)
     \<lparr>gq_auth = None, gq_body = [], gq_peer = None\<rparr> cold_gateway) = Unhandled (model_type_error (JInt 7))"
proof -
  let ?s = "demo_gw\<lparr>gw_scan := \<lambda>_. Inr (RObj [(''model'', RInt 7), (''messages'', RStr ''hi''), (''input'', RStr ''x'')])\<rparr>"
  let ?q = "\<lparr>gq_auth = None, gq_body = [], gq_peer = None\<rparr>"
  have "check_auth (s_env (gw_sys ?s)) ?q = None"
    "json_object ?s (gq_body ?q) = Inr [(''model'', JInt 7), (''messages'', JStr ''hi''), (''input'', JStr ''x'')]"
    by code_simp+
  from model_type_unhandled [OF this, of "JInt 7" "JStr ''x''"] show ?thesis by (simp add: dget_or_null_def)
qed

end
