(* ===== verification/Verification.thy ===== *)
theory Verification
  imports Decode Spend
begin

text \<open>
  \<open>router_control/verification.py\<close>: the canonical bytes and the digest of a JSON value, the bounded
  reader of a completion bundle, the digest checks of a completion's receipt, and the exit code of
  the command.

  The lemmas: the reader's loop bounds are exactly bounds on the size and the nesting of the value,
  a receipt made the way the control plane makes one passes every check, and a consistent receipt
  binds the bytes it names unless SHA-256 collides.
\<close>

section \<open>Canonical bytes\<close>

definition canonical_opts :: "sys \<Rightarrow> dump_opts" where
  "canonical_opts s = \<lparr>o_sort = True, o_ascii = False, o_isep = '','', o_ksep = '':'', o_float = s_frepr s\<rparr>"

definition canonical :: "sys \<Rightarrow> json \<Rightarrow> exn + string" where
  "canonical s value = map_sum id utf8 (dumps_finite (canonical_opts s) value)"

definition json_digest :: "sys \<Rightarrow> json \<Rightarrow> exn + string" where
  "json_digest s value = map_sum id sha256_hex (canonical s value)"

abbreviation VerificationInputError :: "string \<Rightarrow> exn" where
  "VerificationInputError m \<equiv> PyError ''VerificationInputError'' m"

section \<open>The bundle\<close>

definition MAX_VERIFICATION_BYTES :: nat where "MAX_VERIFICATION_BYTES = 3000000"
definition MAX_COMPLETION_BYTES :: nat where "MAX_COMPLETION_BYTES = 2032768"
definition MAX_JSON_DEPTH :: nat where "MAX_JSON_DEPTH = 64"
definition MAX_JSON_NODES :: nat where "MAX_JSON_NODES = 100000"

definition bundle_hooks :: "sys \<Rightarrow> hooks" where
  "bundle_hooks s = \<lparr>h_float = plain_float s,
     h_const = (\<lambda>_. Inl (VerificationInputError ''non-finite JSON is forbidden'')),
     h_object = unique_object (VerificationInputError ''duplicate JSON keys are forbidden'')\<rparr>"

definition decode_bundle :: "sys \<Rightarrow> scanner \<Rightarrow> string \<Rightarrow> exn + json" where
  "decode_bundle s scan raw =
     (case s_decode s raw of
        None \<Rightarrow> Inl (PyError ''UnicodeDecodeError'' [])
      | Some t \<Rightarrow> bindE (scan t) (decode (bundle_hooks s)))"

definition bundle_shape :: "json \<Rightarrow> exn + jdict" where
  "bundle_shape value =
     (if \<not> within_limits MAX_JSON_DEPTH MAX_JSON_NODES value
      then Inl (VerificationInputError ''verification input exceeds structure limit'')
      else case value of
        JObj d \<Rightarrow>
          if set (map fst d) = {''completion'', ''request''} \<and> list_all (is_obj \<circ> snd) d then Inr d
          else Inl (VerificationInputError ''expected completion and request objects'')
      | _ \<Rightarrow> Inl (VerificationInputError ''expected completion and request objects''))"

definition parse_bundle :: "sys \<Rightarrow> scanner \<Rightarrow> string \<Rightarrow> exn + jdict" where
  "parse_bundle s scan raw =
     (if MAX_VERIFICATION_BYTES < length raw
      then Inl (VerificationInputError ''verification input exceeds byte limit'')
      else case bindE (decode_bundle s scan raw) bundle_shape of
        Inr d \<Rightarrow> Inr d
      | Inl e \<Rightarrow>
          if exn_class e \<in> {''UnicodeDecodeError'', ''JSONDecodeError'', ''RecursionError''}
          then Inl (VerificationInputError ''verification input must be bounded UTF-8 JSON'')
          else Inl e)"

section \<open>The receipt\<close>

text \<open>\<open>body\<close> is the receipt without its digest and algorithm, \<open>upstream\<close> the completion without it.\<close>

definition receipt_body :: "jdict \<Rightarrow> jdict" where
  "receipt_body receipt = filter (\<lambda>(k, v). k \<notin> {''digest'', ''algorithm''}) receipt"

definition upstream_part :: "jdict \<Rightarrow> jdict" where
  "upstream_part completion = filter (\<lambda>(k, v). k \<noteq> ''szl_receipt'') completion"

definition receipt_in :: "jdict \<Rightarrow> jdict" where
  "receipt_in completion = obj_items (dget_or_null completion ''szl_receipt'')"

definition hex64 :: "string \<Rightarrow> bool" where
  "hex64 t = (length t = 64 \<and> list_all lower_hex t)"

text \<open>The checks, in the order of the source; the digest of the body is not taken unless it is needed.\<close>

definition receipt_digest_check :: "sys \<Rightarrow> jdict \<Rightarrow> exn + bool" where
  "receipt_digest_check s receipt =
     (if dget_or_null receipt ''schema'' = JStr ''szl.router-receipt/v1''
         \<and> dget_or_null receipt ''algorithm'' = JStr ''sha256''
      then bindE (json_digest s (JObj (receipt_body receipt)))
             (\<lambda>h. Inr (dget_or_null receipt ''digest'' = JStr h))
      else Inr False)"

definition header_check :: "jdict \<Rightarrow> string option \<Rightarrow> bool dict" where
  "header_check receipt header =
     (case header of None \<Rightarrow> []
      | Some h \<Rightarrow> [(''header_digest'', hex64 h \<and> dget_or_null receipt ''digest'' = JStr h)])"

definition completion_checks :: "sys \<Rightarrow> jdict \<Rightarrow> json \<Rightarrow> string option \<Rightarrow> exn + bool dict" where
  "completion_checks s completion request header =
     bindE (canonical s (JObj completion)) (\<lambda>text.
     if MAX_COMPLETION_BYTES < length text then Inl (VerificationInputError ''completion exceeds byte limit'')
     else let receipt = receipt_in completion in
       bindE (receipt_digest_check s receipt) (\<lambda>c1.
       bindE (json_digest s (JObj (upstream_part completion))) (\<lambda>h2.
       bindE (json_digest s request) (\<lambda>h3.
         Inr ([(''receipt_digest'', c1),
               (''response_digest'', dget_or_null receipt ''response_digest'' = JStr h2),
               (''request_digest'', dget_or_null receipt ''request_digest'' = JStr h3)]
              @ header_check receipt header)))))"

definition consistent :: "bool dict \<Rightarrow> bool" where
  "consistent checks = list_all snd checks"

definition verify_completion :: "sys \<Rightarrow> jdict \<Rightarrow> json \<Rightarrow> string option \<Rightarrow> exn + jdict" where
  "verify_completion s completion request header =
     (case completion_checks s completion request header of
        Inl e \<Rightarrow> Inl (VerificationInputError ''verification input is invalid or exceeds bounds'')
      | Inr checks \<Rightarrow> Inr [
          (''schema'', JStr ''szl.router-verification/v1''),
          (''status'', JStr (if consistent checks then ''CONSISTENT'' else ''DIVERGENT'')),
          (''checks'', JObj (map (\<lambda>(k, b). (k, JBool b)) checks)),
          (''trust'', JStr ''UNSIGNED_HONEST''), (''identity_verified'', JBool False)])"

section \<open>The command\<close>

text \<open>
  \<open>input\<close> is what the file or standard input holds, \<open>norm_req\<close> the round trip of the request
  through \<open>ChatRequest\<close>. The exit code and the object printed.
\<close>

definition verification_main ::
  "sys \<Rightarrow> scanner \<Rightarrow> (json \<Rightarrow> exn + json) \<Rightarrow> exn + string \<Rightarrow> string option \<Rightarrow> exn + nat \<times> jdict" where
  "verification_main s scan norm_req input header =
     (case bindE input (\<lambda>content.
           bindE (parse_bundle s scan (take (MAX_VERIFICATION_BYTES + 1) content)) (\<lambda>bundle.
           bindE (norm_req (dget_or_null bundle ''request'')) (\<lambda>normalized.
             verify_completion s (obj_items (dget_or_null bundle ''completion'')) normalized header))) of
        Inr result \<Rightarrow> Inr (if dget_or_null result ''status'' = JStr ''CONSISTENT'' then 0 else 1, result)
      | Inl e \<Rightarrow>
          if is_transport e \<or> is_value_error e \<or> exn_class e = ''RecursionError''
          then Inr (2, [(''schema'', JStr ''szl.router-verification/v1''), (''status'', JStr ''INVALID_INPUT''),
                        (''detail'', JStr ''Expected a bounded completion and valid original chat request.'')])
          else Inl e)"


section \<open>Canonical bytes of finite values\<close>

lemma canonical_finite: "canonical s j = Inr b \<longleftrightarrow> json_finite j \<and> b = utf8 (dumps (canonical_opts s) j)"
  by (auto simp: canonical_def dumps_finite_def)

lemma json_digest_finite: "json_digest s j = Inr h \<longleftrightarrow> json_finite j \<and> h = sha256_hex (utf8 (dumps (canonical_opts s) j))"
  by (auto simp: json_digest_def canonical_def dumps_finite_def)

lemma json_digest_hex64: "json_digest s j = Inr h \<Longrightarrow> hex64 h"
  using sha256_hex_shape by (auto simp: json_digest_finite hex64_def)

lemma finite_items_append: "json_finite_items (d @ e) \<longleftrightarrow> json_finite_items d \<and> json_finite_items e"
  by (induction d) auto

lemma finite_filter: "json_finite_items d \<Longrightarrow> json_finite_items (filter P d)"
  by (induction d) auto

section \<open>The reader's bounds\<close>

lemma bundle_shape_iff:
  "bundle_shape j = Inr d \<longleftrightarrow> j = JObj d \<and> jnodes j \<le> MAX_JSON_NODES \<and> jheight j \<le> MAX_JSON_DEPTH
     \<and> set (map fst d) = {''completion'', ''request''} \<and> list_all (is_obj \<circ> snd) d"
  by (cases j) (auto simp: bundle_shape_def within_limits_iff)

lemma strict_bundle_hooks: "strict_hooks (bundle_hooks s)"
  by (auto simp: strict_hooks_def bundle_hooks_def plain_float_def scalar_def split: option.splits)

lemma decode_bundle_unique: "decode_bundle s scan raw = Inr j \<Longrightarrow> keys_unique j"
  using decode_keys_unique(1) [OF strict_bundle_hooks]
  by (auto simp: decode_bundle_def bindE_Inr_iff split: option.splits)

lemma parse_bundle_iff:
  "parse_bundle s scan raw = Inr d \<longleftrightarrow> length raw \<le> MAX_VERIFICATION_BYTES \<and>
     decode_bundle s scan raw = Inr (JObj d) \<and> bundle_shape (JObj d) = Inr d"
proof -
  have "bindE (decode_bundle s scan raw) bundle_shape = Inr d
      \<longleftrightarrow> decode_bundle s scan raw = Inr (JObj d) \<and> bundle_shape (JObj d) = Inr d"
    by (auto simp: bindE_Inr_iff bundle_shape_iff)
  then show ?thesis
    by (auto simp: parse_bundle_def split: sum.split)
qed

text \<open>
  C23. The bundle reader accepts exactly the bounded bundles. Its loop over an explicit stack accepts
  a decoded value if and only if the value has at most 100000 nodes and is at most 64 levels deep, so
  a bundle is returned exactly when the text is at most 3000000 bytes, decodes without repeated keys
  to an object within those bounds, and that object has exactly a completion and a request, both
  objects.
\<close>

theorem bundle_reader_exact:
  "parse_bundle s scan raw = Inr d \<longleftrightarrow>
     length raw \<le> 3000000 \<and> decode_bundle s scan raw = Inr (JObj d) \<and> keys_unique (JObj d)
     \<and> jnodes (JObj d) \<le> 100000 \<and> jheight (JObj d) \<le> 64
     \<and> set (map fst d) = {''completion'', ''request''} \<and> list_all (is_obj \<circ> snd) d"
  using decode_bundle_unique [of s scan raw "JObj d"]
  by (auto simp: parse_bundle_iff bundle_shape_iff MAX_VERIFICATION_BYTES_def MAX_JSON_NODES_def MAX_JSON_DEPTH_def)

section \<open>A sealed completion\<close>

text \<open>What the control plane's handler emits: the receipt closed by its digest, inside the completion.\<close>

definition sealed :: "sys \<Rightarrow> jdict \<Rightarrow> jdict \<Rightarrow> json \<Rightarrow> string \<Rightarrow> jdict \<Rightarrow> bool" where
  "sealed s body upstream request h completion \<longleftrightarrow>
     json_digest s (JObj body) = Inr h
   \<and> json_finite (JObj upstream) \<and> json_finite request
   \<and> \<not> has_key upstream ''szl_receipt'' \<and> \<not> has_key body ''digest'' \<and> \<not> has_key body ''algorithm''
   \<and> dget body ''schema'' = Some (JStr ''szl.router-receipt/v1'')
   \<and> (\<exists>h2. json_digest s (JObj upstream) = Inr h2 \<and> dget body ''response_digest'' = Some (JStr h2))
   \<and> (\<exists>h3. json_digest s request = Inr h3 \<and> dget body ''request_digest'' = Some (JStr h3))
   \<and> completion = upstream @ [(''szl_receipt'', JObj (body @ [(''digest'', JStr h), (''algorithm'', JStr ''sha256'')]))]"

lemma filter_fst_all: "(\<And>k. k \<in> set (map fst d) \<Longrightarrow> P k) \<Longrightarrow> filter (\<lambda>(k, v). P k) d = d"
  by (induction d) auto

lemma sealed_parts:
  assumes "sealed s body upstream request h completion"
  shows "upstream_part completion = upstream"
    "receipt_in completion = body @ [(''digest'', JStr h), (''algorithm'', JStr ''sha256'')]"
    "receipt_body (receipt_in completion) = body"
    "json_finite (JObj completion)"
proof -
  let ?receipt = "body @ [(''digest'', JStr h), (''algorithm'', JStr ''sha256'')]"
  have c: "completion = upstream @ [(''szl_receipt'', JObj ?receipt)]" using assms by (simp add: sealed_def)
  have "filter (\<lambda>(k, v). k \<noteq> ''szl_receipt'') upstream = upstream"
    by (rule filter_fst_all) (use assms in \<open>unfold sealed_def, blast\<close>)
  with c show "upstream_part completion = upstream" by (simp add: upstream_part_def)
  have "dget upstream ''szl_receipt'' = None"
    using assms by (auto simp: sealed_def map_of_eq_None_iff)
  with c show r: "receipt_in completion = ?receipt"
    by (simp add: receipt_in_def dget_or_null_def map_add_def)
  have "filter (\<lambda>(k, v). k \<notin> {''digest'', ''algorithm''}) body = body"
    by (rule filter_fst_all) (use assms in \<open>unfold sealed_def, blast\<close>)
  with r show "receipt_body (receipt_in completion) = body" by (simp add: receipt_body_def)
  show "json_finite (JObj completion)"
    using assms c by (simp add: sealed_def finite_items_append json_digest_finite)
qed

lemma sealed_checks:
  assumes "sealed s body upstream request h completion"
    and "length (utf8 (dumps (canonical_opts s) (JObj completion))) \<le> MAX_COMPLETION_BYTES"
  shows "\<exists>checks. completion_checks s completion request (Some h) = Inr checks \<and> consistent checks"
proof -
  note p = sealed_parts [OF assms(1)]
  have d: "json_digest s (JObj body) = Inr h" using assms(1) by (simp add: sealed_def)
  from assms(1) have keys: "dget body ''digest'' = None" "dget body ''algorithm'' = None"
    by (auto simp: sealed_def map_of_eq_None_iff)
  from assms(1) obtain h2 h3 where h: "json_digest s (JObj upstream) = Inr h2" "json_digest s request = Inr h3"
    "dget body ''response_digest'' = Some (JStr h2)" "dget body ''request_digest'' = Some (JStr h3)"
    "dget body ''schema'' = Some (JStr ''szl.router-receipt/v1'')"
    by (auto simp: sealed_def)
  have "receipt_digest_check s (receipt_in completion) = Inr True"
    using p(3) d keys h(5) unfolding receipt_digest_check_def
    by (simp add: p(2) dget_or_null_def map_add_def)
  moreover have "header_check (receipt_in completion) (Some h) = [(''header_digest'', True)]"
    using keys json_digest_hex64 [OF d] by (simp add: header_check_def p(2) dget_or_null_def map_add_def)
  moreover have "canonical s (JObj completion) = Inr (utf8 (dumps (canonical_opts s) (JObj completion)))"
    using p(4) by (simp add: canonical_finite)
  ultimately show ?thesis using assms(2) h p(1)
    by (simp add: completion_checks_def Let_def consistent_def p(2) dget_or_null_def map_add_def)
qed


text \<open>
  A sealed receipt decides. Take a completion sealed by the control plane, and any completion and
  request presented with that same receipt: the verifier calls them consistent if and only if the
  rest of the completion and the request have the digests that were sealed. In particular the sealed
  pair itself verifies, and a change that changes either digest is reported as divergent.
\<close>

theorem sealed_receipt_decides:
  assumes "sealed s body upstream request h completion"
    and "receipt_in c = receipt_in completion" "verify_completion s c q header = Inr r"
    and "header = None \<or> header = Some h"
  shows "dget_or_null r ''status'' = JStr ''CONSISTENT'' \<longleftrightarrow>
     json_digest s (JObj (upstream_part c)) = json_digest s (JObj upstream) \<and> json_digest s q = json_digest s request"
proof -
  note p = sealed_parts [OF assms(1)]
  have d: "json_digest s (JObj body) = Inr h" using assms(1) by (simp add: sealed_def)
  from assms(1) have keys: "dget body ''digest'' = None" "dget body ''algorithm'' = None"
    by (auto simp: sealed_def map_of_eq_None_iff)
  from assms(1) obtain h2 h3 where h: "json_digest s (JObj upstream) = Inr h2" "json_digest s request = Inr h3"
    "dget body ''response_digest'' = Some (JStr h2)" "dget body ''request_digest'' = Some (JStr h3)"
    "dget body ''schema'' = Some (JStr ''szl.router-receipt/v1'')"
    by (auto simp: sealed_def)
  have rd: "receipt_digest_check s (receipt_in c) = Inr True"
    using p(3) d keys h(5) unfolding receipt_digest_check_def assms(2)
    by (simp add: p(2) dget_or_null_def map_add_def)
  have hc: "list_all snd (header_check (receipt_in c) header)"
    using keys json_digest_hex64 [OF d] assms(4)
    by (auto simp: header_check_def assms(2) p(2) dget_or_null_def map_add_def)
  from assms(3) obtain checks where c: "completion_checks s c q header = Inr checks"
    and r: "dget_or_null r ''status'' = JStr (if consistent checks then ''CONSISTENT'' else ''DIVERGENT'')"
    by (auto simp: verify_completion_def dget_or_null_def split: sum.splits)
  from c obtain k2 k3 where k: "json_digest s (JObj (upstream_part c)) = Inr k2" "json_digest s q = Inr k3"
    and checks: "checks = [(''receipt_digest'', True), (''response_digest'', h2 = k2), (''request_digest'', h3 = k3)]
        @ header_check (receipt_in c) header"
    using rd h(3,4) by (auto simp: completion_checks_def bindE_Inr_iff Let_def assms(2) p(2) dget_or_null_def map_add_def
        split: if_splits)
  show ?thesis using r k h(1,2) hc by (auto simp: consistent_def checks)
qed

lemma length_utf8: "length (utf8 t) \<le> 2 * length t"
  by (induction t) (auto simp: utf8_def Let_def)

lemma length_esc_char: "length (esc_char ascii c) \<le> 6"
  by (simp add: esc_char_def Let_def)

lemma length_dump_str: "length (dump_str ascii t) \<le> 6 * length t + 2"
proof -
  have "length (concat (map (esc_char ascii) t)) \<le> 6 * length t"
  proof (induction t)
    case Nil
    then show ?case by simp
  next
    case (Cons c t)
    with length_esc_char [of ascii c] show ?case by simp
  qed
  then show ?thesis by (simp add: dump_str_def)
qed

definition small_sys :: sys where
  "small_sys = \<lparr>s_env = (\<lambda>_. None), s_loads = (\<lambda>_. Inr JNull), s_decode = Some, s_float = (\<lambda>_. None), s_frepr = (\<lambda>_. ''0.5''),
     s_time = (\<lambda>_. 0), s_unif = (\<lambda>_. 1), s_net = (\<lambda>_ _. WFail (ConnError ''ConnectionError'' [])),
     s_retry_max = 3, s_retry_base = 1/4, s_retry_cap = 4, s_embed_ttl = 300, s_embed_max = 1024, s_scope_key = ''k''\<rparr>"

theorem sealed_receipt_decides_witness:
  "\<exists>body h completion r. sealed small_sys body [(''id'', JInt 1)] (JObj []) h completion
     \<and> verify_completion small_sys completion (JObj []) (Some h) = Inr r
     \<and> dget_or_null r ''status'' = JStr ''CONSISTENT''"
proof -
  obtain h2 h3 where h: "json_digest small_sys (JObj [(''id'', JInt 1)]) = Inr h2" "json_digest small_sys (JObj []) = Inr h3"
    by (simp add: json_digest_finite)
  define body where "body = [(''schema'', JStr ''szl.router-receipt/v1''), (''response_digest'', JStr h2), (''request_digest'', JStr h3)]"
  obtain h1 where h1: "json_digest small_sys (JObj body) = Inr h1" by (simp add: json_digest_finite body_def)
  define completion where "completion = [(''id'', JInt 1), (''szl_receipt'', JObj (body @ [(''digest'', JStr h1), (''algorithm'', JStr ''sha256'')]))]"
  have s: "sealed small_sys body [(''id'', JInt 1)] (JObj []) h1 completion"
    using h h1 by (simp add: sealed_def body_def completion_def)
  have len: "length h1 = 64" "length h2 = 64" "length h3 = 64"
    using json_digest_hex64 [OF h1] json_digest_hex64 [OF h(1)] json_digest_hex64 [OF h(2)] by (simp_all add: hex64_def)
  have "length (utf8 (dumps (canonical_opts small_sys) (JObj completion))) \<le> MAX_COMPLETION_BYTES"
  proof -
    note lens = length_dump_str [of False]
    have "length (dumps (canonical_opts small_sys) (JObj completion)) \<le> 10000"
      using lens [of h1] lens [of h2] lens [of h3] lens [of "''id''"] lens [of "''szl_receipt''"] lens [of "''algorithm''"]
        lens [of "''sha256''"] lens [of "''digest''"] lens [of "''request_digest''"] lens [of "''response_digest''"]
        lens [of "''schema''"] lens [of "''szl.router-receipt/v1''"] len
      by (simp add: completion_def body_def dumps_def canonical_opts_def show_int_def show_nat.simps)
    with length_utf8 [of "dumps (canonical_opts small_sys) (JObj completion)"] show ?thesis
      by (simp add: MAX_COMPLETION_BYTES_def)
  qed
  from sealed_checks [OF s this] obtain r where r: "verify_completion small_sys completion (JObj []) (Some h1) = Inr r"
    by (auto simp: verify_completion_def)
  from sealed_receipt_decides [OF s refl r] s r show ?thesis
    by (metis sealed_parts(1))
qed

end
