(* ===== verification/LocalStore.thy ===== *)
theory LocalStore
  imports Verification
begin

text \<open>
  \<open>router_control/local_store.py\<close>: the bounded, read-only byte observation of an Ollama model store.

  A path is the list of its parts below the root. The file system, the monotonic clock and the stop
  flag answer by the number of steps taken so far, so that they may change between any two steps;
  nothing is assumed of them. \<open>hashlib\<close> hashes the concatenation of what it is fed. Absolute roots
  are those of POSIX.

  The lemmas: a manifest path stays below its root, the read loop is bounded whatever the file system
  answers, and a successful check has read bytes with exactly the pinned and declared digests.
\<close>

section \<open>Names\<close>

abbreviation LocalStoreError :: "string \<Rightarrow> exn" where
  "LocalStoreError state \<equiv> PyError ''LocalStoreError'' state"

definition MAX_MANIFEST_BYTES :: nat where "MAX_MANIFEST_BYTES = 65536"
definition MAX_BLOB_BYTES :: nat where "MAX_BLOB_BYTES = 16000000000"
definition MAX_TOTAL_BLOB_BYTES :: nat where "MAX_TOTAL_BLOB_BYTES = 20000000000"
definition MAX_LAYERS :: nat where "MAX_LAYERS = 32"
definition MAX_MANIFEST_NODES :: nat where "MAX_MANIFEST_NODES = 512"
definition MAX_MANIFEST_DEPTH :: nat where "MAX_MANIFEST_DEPTH = 12"
definition HASH_CHUNK_BYTES :: nat where "HASH_CHUNK_BYTES = 1048576"
definition HASH_BUDGET_SECONDS :: rat where "HASH_BUDGET_SECONDS = 20"

text \<open>The patterns of names: an alphanumeric character, then characters of a class.\<close>

definition name_like :: "string \<Rightarrow> string \<Rightarrow> bool" where
  "name_like extra t =
     (t \<noteq> [] \<and> ascii_alnum (hd t) \<and> list_all (\<lambda>c. ascii_alnum c \<or> c \<in> set extra) (tl t))"

definition segment_ok :: "string \<Rightarrow> bool" where
  "segment_ok t = (name_like ''._-'' t \<and> length t \<le> 192)"

definition registry_ok :: "string \<Rightarrow> bool" where
  "registry_ok t = (name_like ''.-'' t \<and> length t \<le> 192)"

definition dots :: "string \<Rightarrow> bool" where
  "dots t = (t = ''.'' \<or> t = ''..'')"

text \<open>The registry and the repository of a name, from its parts between slashes.\<close>

definition split_registry :: "string list \<Rightarrow> exn + string \<times> string list" where
  "split_registry parts =
     (if CHR ''.'' \<in> set (hd parts) \<and> 1 < length parts
      then if \<not> registry_ok (hd parts) \<or> str_in ''..'' (hd parts)
           then Inl (ValueError ''invalid Ollama registry name'')
           else Inr (hd parts, tl parts)
      else Inr (''registry.ollama.ai'', if 1 < length parts then parts else [''library'', hd parts]))"

definition manifest_relative_path :: "string \<Rightarrow> exn + string list" where
  "manifest_relative_path model =
     (if model = [] \<or> CHR 0x5C \<in> set model \<or> 1 < length (filter (\<lambda>c. c = CHR '':'') model)
      then Inl (ValueError ''invalid Ollama model name for byte admission'')
      else let parts = split_on (CHR ''/'') model in
        if list_ex (\<lambda>p. p = [] \<or> dots p) parts
        then Inl (ValueError ''invalid Ollama model name for byte admission'')
        else bindE (split_registry parts) (\<lambda>(registry, repository).
          if length repository < 2 \<or> 8 < length repository
          then Inl (ValueError ''invalid Ollama repository name'')
          else let (name, separator, rest) = partition_at (CHR '':'') (last repository);
                   tag = (if separator then rest else ''latest'');
                   segments = butlast repository @ [name, tag]
               in if list_ex (\<lambda>p. \<not> segment_ok p \<or> dots p) segments
                  then Inl (ValueError ''invalid Ollama model or tag'')
                  else Inr (''manifests'' # registry # segments)))"

section \<open>The file system\<close>

datatype file_kind = Regular | Directory | Symlink | OtherKind

record file_stat =
  fs_kind :: file_kind
  fs_attribute :: bool     \<comment> \<open>the reparse-point attribute, where the platform has one\<close>
  fs_dev :: int
  fs_ino :: int
  fs_size :: int
  fs_mtime :: int
  fs_ctime :: int

record store_sys =
  ls_sys :: sys
  ls_scan :: scanner
  ls_lstat :: "nat \<Rightarrow> string \<Rightarrow> string list \<Rightarrow> exn + file_stat"
  ls_open :: "nat \<Rightarrow> string \<Rightarrow> string list \<Rightarrow> exn + unit"
  ls_fstat :: "nat \<Rightarrow> string \<Rightarrow> string list \<Rightarrow> exn + file_stat"
  ls_read :: "nat \<Rightarrow> string \<Rightarrow> string list \<Rightarrow> nat \<Rightarrow> exn + string"
  ls_stop :: "nat \<Rightarrow> bool"
  ls_clock :: "nat \<Rightarrow> rat"
  ls_date :: "nat \<Rightarrow> string"

text \<open>What the two \<open>except OSError\<close> clauses make of an error.\<close>

definition os_error :: "exn \<Rightarrow> exn" where
  "os_error e = (if is_transport e then LocalStoreError ''LOCAL_STORE_FILE_UNAVAILABLE'' else e)"

definition is_reparse :: "file_stat \<Rightarrow> bool" where
  "is_reparse info = (fs_kind info = Symlink \<or> fs_attribute info)"

text \<open>The walk down the parts; the last part must be a regular file.\<close>

fun check_parts :: "store_sys \<Rightarrow> string \<Rightarrow> string list \<Rightarrow> string list \<Rightarrow> nat \<Rightarrow> exn option \<times> nat" where
  "check_parts s base done_parts [] k = (None, k)"
| "check_parts s base done_parts (part # parts) k =
     (case ls_lstat s k base (done_parts @ [part]) of
        Inl e \<Rightarrow> (Some (os_error e), Suc k)
      | Inr info \<Rightarrow>
          if is_reparse info then (Some (LocalStoreError ''LOCAL_STORE_PATH_INVALID''), Suc k)
          else if parts = [] \<and> fs_kind info \<noteq> Regular
          then (Some (LocalStoreError ''LOCAL_STORE_PATH_INVALID''), Suc k)
          else check_parts s base (done_parts @ [part]) parts (Suc k))"

definition check_regular_path :: "store_sys \<Rightarrow> string \<Rightarrow> string list \<Rightarrow> nat \<Rightarrow> exn option \<times> nat" where
  "check_regular_path s base relative k =
     (case ls_lstat s k base [] of
        Inl e \<Rightarrow> (Some (os_error e), Suc k)
      | Inr info \<Rightarrow>
          if fs_kind info \<noteq> Directory \<or> is_reparse info
          then (Some (LocalStoreError ''LOCAL_STORE_PATH_INVALID''), Suc k)
          else check_parts s base [] relative (Suc k))"

text \<open>The read loop: it stops on the flag, the deadline, the end of the file and too many bytes.\<close>

function read_loop ::
  "store_sys \<Rightarrow> string \<Rightarrow> string list \<Rightarrow> nat \<Rightarrow> rat \<Rightarrow> string \<Rightarrow> nat \<Rightarrow> (exn + string) \<times> nat" where
  "read_loop s base path max_bytes deadline data k =
     (if ls_stop s k \<or> deadline < ls_clock s k
      then (Inl (LocalStoreError ''LOCAL_STORE_CHECK_TIMEOUT''), Suc k)
      else case ls_read s k base path (min HASH_CHUNK_BYTES (max_bytes - length data + 1)) of
        Inl e \<Rightarrow> (Inl e, Suc k)
      | Inr chunk \<Rightarrow>
          if chunk = [] then (Inr data, Suc k)
          else if max_bytes < length data + length chunk
          then (Inl (LocalStoreError ''LOCAL_STORE_SIZE_INVALID''), Suc k)
          else read_loop s base path max_bytes deadline (data @ chunk) (Suc k))"
  by pat_completeness auto
termination
  by (relation "measure (\<lambda>(s, base, path, max_bytes, deadline, data, k). Suc max_bytes - length data)")
    (auto simp flip: length_greater_0_conv)

declare read_loop.simps [simp del]

definition fingerprint :: "file_stat \<Rightarrow> int \<times> int \<times> int \<times> int \<times> int" where
  "fingerprint i = (fs_dev i, fs_ino i, fs_size i, fs_mtime i, fs_ctime i)"

definition size_error :: "file_stat \<Rightarrow> nat \<Rightarrow> int option \<Rightarrow> exn option" where
  "size_error before max_bytes expected =
     (if fs_kind before \<noteq> Regular \<or> fs_size before \<le> 0 \<or> int max_bytes < fs_size before
      then Some (LocalStoreError ''LOCAL_STORE_SIZE_INVALID'')
      else if expected \<noteq> None \<and> Some (fs_size before) \<noteq> expected
      then Some (LocalStoreError ''LOCAL_STORE_SIZE_MISMATCH'') else None)"

text \<open>The open file: the checks before and after the loop.\<close>

definition hash_open ::
  "store_sys \<Rightarrow> string \<Rightarrow> string list \<Rightarrow> nat \<Rightarrow> int option \<Rightarrow> rat \<Rightarrow> nat \<Rightarrow> (exn + string) \<times> nat" where
  "hash_open s base path max_bytes expected deadline k0 =
     (case ls_open s k0 base path of
        Inl e \<Rightarrow> (Inl e, Suc k0)
      | Inr _ \<Rightarrow>
      (case ls_fstat s (Suc k0) base path of
        Inl e \<Rightarrow> (Inl e, Suc (Suc k0))
      | Inr before \<Rightarrow>
      (case size_error before max_bytes expected of
        Some e \<Rightarrow> (Inl e, Suc (Suc k0))
      | None \<Rightarrow>
      (case read_loop s base path max_bytes deadline [] (Suc (Suc k0)) of
        (Inl e, k) \<Rightarrow> (Inl e, k)
      | (Inr data, k) \<Rightarrow>
      (case ls_fstat s k base path of
        Inl e \<Rightarrow> (Inl e, Suc k)
      | Inr after \<Rightarrow>
          (if int (length data) \<noteq> fs_size before \<or> fingerprint before \<noteq> fingerprint after
           then Inl (LocalStoreError ''LOCAL_STORE_CHANGED_DURING_READ'')
           else if expected \<noteq> None \<and> Some (int (length data)) \<noteq> expected
           then Inl (LocalStoreError ''LOCAL_STORE_SIZE_MISMATCH'')
           else Inr data, Suc k))))))"

text \<open>The digest, the bytes where they are kept, and their number.\<close>

definition hash_file ::
  "store_sys \<Rightarrow> string \<Rightarrow> string list \<Rightarrow> nat \<Rightarrow> int option \<Rightarrow> rat \<Rightarrow> nat
     \<Rightarrow> (exn + string \<times> string option \<times> nat) \<times> nat" where
  "hash_file s base relative max_bytes expected deadline k0 =
     (case check_regular_path s base relative k0 of
        (Some e, k) \<Rightarrow> (Inl e, k)
      | (None, k) \<Rightarrow>
          (case hash_open s base relative max_bytes expected deadline k of
             (Inl e, k') \<Rightarrow> (Inl (os_error e), k')
           | (Inr data, k') \<Rightarrow>
               (Inr (sha256_hex data, if max_bytes = MAX_MANIFEST_BYTES then Some data else None, length data), k')))"

section \<open>The manifest\<close>

definition manifest_hooks :: "sys \<Rightarrow> hooks" where
  "manifest_hooks s = \<lparr>h_float = plain_float s, h_const = (\<lambda>_. Inl (ValueError ''invalid manifest number'')),
     h_object = unique_object (ValueError ''duplicate manifest key'')\<rparr>"

definition manifest_shape :: "json \<Rightarrow> exn + jdict \<times> jdict list" where
  "manifest_shape value =
     (if \<not> within_limits MAX_MANIFEST_DEPTH MAX_MANIFEST_NODES value
      then Inl (ValueError ''manifest structure exceeds bound'')
      else case value of
        JObj d \<Rightarrow>
          if dget_or_null d ''schemaVersion'' \<notin> {JInt 2, JFloat (Fin 2)} then Inl (ValueError ''invalid manifest schema'')
          else (case (dget_or_null d ''config'', dget_or_null d ''layers'') of
            (JObj config, JArr layers) \<Rightarrow>
              if 1 \<le> length layers \<and> length layers \<le> MAX_LAYERS \<and> list_all is_obj layers
              then Inr (config, map obj_items layers)
              else Inl (ValueError ''invalid manifest layers'')
          | _ \<Rightarrow> Inl (ValueError ''invalid manifest descriptors''))
      | _ \<Rightarrow> Inl (ValueError ''invalid manifest schema''))"

definition parse_manifest :: "store_sys \<Rightarrow> string \<Rightarrow> exn + jdict \<times> jdict list" where
  "parse_manifest s raw =
     (case (case s_decode (ls_sys s) raw of
              None \<Rightarrow> Inl (PyError ''UnicodeDecodeError'' [])
            | Some t \<Rightarrow> bindE (bindE (ls_scan s t) (decode (manifest_hooks (ls_sys s)))) manifest_shape) of
        Inr r \<Rightarrow> Inr r
      | Inl e \<Rightarrow> if is_value_error e \<or> exn_class e = ''RecursionError''
                 then Inl (LocalStoreError ''LOCAL_STORE_MANIFEST_INVALID'') else Inl e)"

definition descriptor_digest :: "json \<Rightarrow> string option" where
  "descriptor_digest j = (case j of
     JStr t \<Rightarrow> if startswith ''sha256:'' t \<and> hex64 (drop 7 t) then Some (drop 7 t) else None
   | _ \<Rightarrow> None)"

definition descriptor :: "jdict \<Rightarrow> exn + string \<times> int \<times> string" where
  "descriptor r =
     (case (descriptor_digest (dget_or_null r ''digest''), dget_or_null r ''size'') of
        (Some h, JInt sz) \<Rightarrow>
          if sz \<le> 0 \<or> int MAX_BLOB_BYTES < sz then Inl (LocalStoreError ''LOCAL_STORE_MANIFEST_INVALID'')
          else (case dget_or_null r ''mediaType'' of
            JStr m \<Rightarrow> if startswith ''application/vnd.'' m then Inr (h, sz, m)
                      else Inl (LocalStoreError ''LOCAL_STORE_MANIFEST_INVALID'')
          | _ \<Rightarrow> Inl (LocalStoreError ''LOCAL_STORE_MANIFEST_INVALID''))
      | _ \<Rightarrow> Inl (LocalStoreError ''LOCAL_STORE_MANIFEST_INVALID''))"

section \<open>The check\<close>

text \<open>The loop over the records: what was declared and what was hashed so far.\<close>

fun check_blobs :: "store_sys \<Rightarrow> string \<Rightarrow> rat \<Rightarrow> jdict list \<Rightarrow> int \<Rightarrow> nat \<Rightarrow> nat \<Rightarrow> (exn + nat) \<times> nat" where
  "check_blobs s base deadline [] declared hashed k = (Inr hashed, k)"
| "check_blobs s base deadline (r # rs) declared hashed k =
     (case descriptor r of
        Inl e \<Rightarrow> (Inl e, k)
      | Inr (h, sz, media) \<Rightarrow>
          if int MAX_TOTAL_BLOB_BYTES < declared + sz then (Inl (LocalStoreError ''LOCAL_STORE_SIZE_INVALID''), k)
          else (case hash_file s base [''blobs'', ''sha256-'' @ h] MAX_BLOB_BYTES (Some sz) deadline k of
            (Inl e, k') \<Rightarrow> (Inl e, k')
          | (Inr (observed, _, n), k') \<Rightarrow>
              if observed \<noteq> h then (Inl (LocalStoreError ''LOCAL_STORE_BLOB_MISMATCH''), k')
              else check_blobs s base deadline rs (declared + sz) (hashed + n) k'))"

definition store_report :: "store_sys \<Rightarrow> string \<Rightarrow> string \<Rightarrow> string \<Rightarrow> nat \<Rightarrow> nat \<Rightarrow> nat \<Rightarrow> jdict" where
  "store_report s started manifest weight blobs hashed k = [
     (''state'', JStr ''LOCAL_STORE_BYTES_PRE_REQUEST_MATCH''), (''basis'', JStr ''READ_ONLY_LOCAL_STORE_FILES''),
     (''observation_scope'', JStr ''SEQUENTIAL_PRE_REQUEST_READS''), (''observation_started_at'', JStr started),
     (''observed_at'', JStr (ls_date s k)), (''manifest_sha256'', JStr manifest), (''weight_sha256'', JStr weight),
     (''verified_blob_count'', JInt (int blobs)), (''bytes_hashed'', JInt (int hashed)),
     (''loaded_weight_attestation'', JStr ''UNAVAILABLE''), (''post_completion_store_check'', JStr ''NOT_PERFORMED'')]"

definition is_model_layer :: "jdict \<Rightarrow> bool" where
  "is_model_layer r = (dget_or_null r ''mediaType'' = JStr ''application/vnd.ollama.image.model'')"

text \<open>After the manifest has been read.\<close>

definition verify_manifest ::
  "store_sys \<Rightarrow> string \<Rightarrow> string \<Rightarrow> string \<Rightarrow> string \<Rightarrow> rat \<Rightarrow> string \<Rightarrow> nat \<Rightarrow> (exn + jdict) \<times> nat" where
  "verify_manifest s expected_manifest expected_weight base started deadline raw k =
     (if sha256_hex raw \<noteq> expected_manifest then (Inl (LocalStoreError ''LOCAL_STORE_MANIFEST_MISMATCH''), k)
      else case parse_manifest s raw of
        Inl e \<Rightarrow> (Inl e, k)
      | Inr (config, layers) \<Rightarrow>
          (case filter is_model_layer layers of
             [model_layer] \<Rightarrow>
               (case descriptor model_layer of
                  Inl e \<Rightarrow> (Inl e, k)
                | Inr (weight, _, _) \<Rightarrow>
                    if weight \<noteq> expected_weight then (Inl (LocalStoreError ''LOCAL_STORE_WEIGHT_PIN_MISMATCH''), k)
                    else (case check_blobs s base deadline (config # layers) 0 (length raw) k of
                      (Inl e, k') \<Rightarrow> (Inl e, k')
                    | (Inr hashed, k') \<Rightarrow>
                        (Inr (store_report s started (sha256_hex raw) weight (length (config # layers)) hashed k'), Suc k')))
           | _ \<Rightarrow> (Inl (LocalStoreError ''LOCAL_STORE_MANIFEST_INVALID''), k)))"

definition verify_store_bytes_unlocked ::
  "store_sys \<Rightarrow> string \<Rightarrow> string \<Rightarrow> string \<Rightarrow> string \<Rightarrow> nat \<Rightarrow> (exn + jdict) \<times> nat" where
  "verify_store_bytes_unlocked s model expected_manifest expected_weight base k0 =
     (if \<not> startswith ''/'' base then (Inl (LocalStoreError ''LOCAL_STORE_NOT_CONFIGURED''), k0)
      else case manifest_relative_path model of
        Inl e \<Rightarrow> (Inl (LocalStoreError ''LOCAL_STORE_MODEL_NAME_INVALID''), k0)
      | Inr relative \<Rightarrow>
          let deadline = ls_clock s k0 + HASH_BUDGET_SECONDS in
          (case hash_file s base relative MAX_MANIFEST_BYTES None deadline (Suc k0) of
             (Inl e, k) \<Rightarrow> (Inl e, k)
           | (Inr (_, None, _), k) \<Rightarrow> (Inl (PyError ''AssertionError'' []), k)
           | (Inr (_, Some raw, _), k) \<Rightarrow>
               verify_manifest s expected_manifest expected_weight base (ls_date s k0) deadline raw k))"

text \<open>The semaphore of capacity 1: a second reader is refused at once, and it is always given back.\<close>

definition verify_store_bytes ::
  "store_sys \<Rightarrow> string \<Rightarrow> string \<Rightarrow> string \<Rightarrow> string \<Rightarrow> nat \<times> nat \<Rightarrow> (exn + jdict) \<times> nat \<times> nat" where
  "verify_store_bytes s model expected_manifest expected_weight base st =
     (let (capacity, k) = st in
      if capacity = 0 then (Inl (LocalStoreError ''LOCAL_STORE_CHECK_BUSY''), st)
      else let (r, k') = verify_store_bytes_unlocked s model expected_manifest expected_weight base k
           in (r, capacity, k'))"


section \<open>Paths stay below their root\<close>

text \<open>A part that names a plain entry of a directory.\<close>

definition plain_part :: "string \<Rightarrow> bool" where
  "plain_part t \<longleftrightarrow> t \<noteq> [] \<and> \<not> dots t \<and> list_all (\<lambda>c. ascii_alnum c \<or> c \<in> set ''._-'') t"

lemma name_like_chars: "name_like extra t \<Longrightarrow> t \<noteq> [] \<and> list_all (\<lambda>c. ascii_alnum c \<or> c \<in> set extra) t"
  by (cases t) (auto simp: name_like_def)

lemma segment_plain: "segment_ok t \<Longrightarrow> \<not> dots t \<Longrightarrow> plain_part t"
  using name_like_chars [of "''._-''" t] by (simp add: segment_ok_def plain_part_def)

lemma registry_plain: "registry_ok t \<Longrightarrow> \<not> str_in ''..'' t \<Longrightarrow> t \<noteq> ''.'' \<Longrightarrow> plain_part t"
  using name_like_chars [of "''.-''" t]
  by (auto simp: registry_ok_def plain_part_def dots_def str_in_def startswith_def list_all_iff)

lemma plain_part_no_separator:
  "plain_part t \<Longrightarrow> CHR ''/'' \<notin> set t \<and> CHR 0x5C \<notin> set t \<and> CHR '':'' \<notin> set t"
  by (auto simp: plain_part_def list_all_iff ascii_alnum_def ascii_digit_def ascii_upper_def ascii_lower_def Let_def)

text \<open>
  A manifest path stays below its root. A model name that is accepted is mapped to a path of
  four to eleven parts that starts with the manifests directory, and every part names a plain
  directory entry: not empty, not a dot or a double dot, and without any separator, backslash or
  colon, whatever the name was.
\<close>

theorem manifest_path_confined:
  assumes "manifest_relative_path model = Inr p"
  shows "hd p = ''manifests'' \<and> 4 \<le> length p \<and> length p \<le> 11
    \<and> (\<forall>t \<in> set p. t \<noteq> [] \<and> t \<noteq> ''.'' \<and> t \<noteq> ''..'' \<and> CHR ''/'' \<notin> set t \<and> CHR 0x5C \<notin> set t \<and> CHR '':'' \<notin> set t)"
proof -
  let ?parts = "split_on (CHR ''/'') model"
  from assms obtain registry repository where sr: "split_registry ?parts = Inr (registry, repository)"
    and nd: "\<not> list_ex (\<lambda>p. p = [] \<or> dots p) ?parts"
    and len: "2 \<le> length repository" "length repository \<le> 8"
    and rest: "p = ''manifests'' # registry # butlast repository @ [fst (partition_at (CHR '':'') (last repository)),
        (case partition_at (CHR '':'') (last repository) of (_, sep, r) \<Rightarrow> if sep then r else ''latest'')]"
    and segs: "\<forall>t \<in> set (tl (tl p)). segment_ok t \<and> \<not> dots t"
    by (auto simp: manifest_relative_path_def Let_def bindE_Inr_iff list_ex_iff split: if_splits prod.splits)
  have ne: "?parts \<noteq> []" by (cases model) (auto split: list.split)
  have "plain_part registry"
  proof (cases "CHR ''.'' \<in> set (hd ?parts) \<and> 1 < length ?parts")
    case True
    with sr have "registry_ok registry" "\<not> str_in ''..'' registry" "registry = hd ?parts"
      by (auto simp: split_registry_def split: if_splits)
    moreover have "registry \<noteq> ''.''" using nd ne \<open>registry = hd ?parts\<close> by (auto simp: list_ex_iff dots_def)
    ultimately show ?thesis by (simp add: registry_plain)
  next
    case False
    with sr have "registry = ''registry.ollama.ai''" by (auto simp: split_registry_def split: if_splits)
    then show ?thesis by (simp add: plain_part_def dots_def ascii_alnum_def ascii_digit_def ascii_upper_def ascii_lower_def)
  qed
  moreover have "plain_part ''manifests''"
    by (simp add: plain_part_def dots_def ascii_alnum_def ascii_digit_def ascii_upper_def ascii_lower_def)
  moreover have "\<forall>t \<in> set (tl (tl p)). plain_part t" using segs segment_plain by blast
  ultimately have "\<forall>t \<in> set p. plain_part t" using rest by auto
  then have "\<forall>t \<in> set p. t \<noteq> [] \<and> t \<noteq> ''.'' \<and> t \<noteq> ''..'' \<and> CHR ''/'' \<notin> set t \<and> CHR 0x5C \<notin> set t \<and> CHR '':'' \<notin> set t"
    using plain_part_no_separator by (auto simp: plain_part_def dots_def)
  then show ?thesis using rest len by simp
qed

theorem manifest_path_confined_witness:
  "\<exists>p. manifest_relative_path ''hf.co/team/model-7b:q4'' = Inr p \<and> length p = 5 \<and> (\<forall>t \<in> set p. t \<noteq> ''..'')"
proof -
  have "case manifest_relative_path ''hf.co/team/model-7b:q4'' of Inl e \<Rightarrow> False | Inr p \<Rightarrow> length p = 5" by code_simp
  then obtain p where "manifest_relative_path ''hf.co/team/model-7b:q4'' = Inr p" "length p = 5" by (auto split: sum.splits)
  with manifest_path_confined [OF this(1)] show ?thesis by blast
qed


section \<open>The read loop is bounded\<close>

lemma read_loop_bounds:
  "read_loop s base path m dl data k = (r, k') \<Longrightarrow> length data \<le> m \<Longrightarrow>
     k < k' \<and> k' + length data \<le> Suc k + m \<and> (\<forall>b. r = Inr b \<longrightarrow> length b \<le> m)"
proof (induction s base path m dl data k arbitrary: r k' rule: read_loop.induct)
  case (1 s base path m dl data k)
  show ?case
  proof (cases "ls_stop s k \<or> dl < ls_clock s k")
    case True
    with 1(2,3) show ?thesis by (auto simp: read_loop.simps [of s base path m dl data k])
  next
    case False
    let ?read = "ls_read s k base path (min HASH_CHUNK_BYTES (m - length data + 1))"
    show ?thesis
    proof (cases "\<exists>chunk. ?read = Inr chunk \<and> chunk \<noteq> [] \<and> length data + length chunk \<le> m")
      case True
      then obtain chunk where c: "?read = Inr chunk" "chunk \<noteq> []" "length data + length chunk \<le> m" by blast
      with False 1(2) have "read_loop s base path m dl (data @ chunk) (Suc k) = (r, k')"
        by (simp add: read_loop.simps [of s base path m dl data k])
      with 1(1) [OF False c(1,2)] c(3) have "Suc k < k' \<and> k' + length (data @ chunk) \<le> Suc (Suc k) + m \<and> (\<forall>b. r = Inr b \<longrightarrow> length b \<le> m)"
        by simp
      moreover have "1 \<le> length chunk" using c(2) by (simp add: Suc_leI)
      ultimately show ?thesis by auto
    next
      case stop: False
      with False 1(2,3) show ?thesis
        by (auto simp: read_loop.simps [of s base path m dl data k] split: sum.splits if_splits)
    qed
  qed
qed

text \<open>
  The read loop always ends. Whatever the file system, the clock and the stop flag answer, even
  if the file grows without end, reading a file takes at most one step more than its byte limit,
  and what it returns is never longer than the limit.
\<close>

theorem hash_loop_bounded:
  "snd (read_loop s base path max_bytes deadline [] k) \<le> k + max_bytes + 1
   \<and> (case fst (read_loop s base path max_bytes deadline [] k) of Inl e \<Rightarrow> True | Inr data \<Rightarrow> length data \<le> max_bytes)"
  using read_loop_bounds [of s base path max_bytes deadline "[]" k]
  by (cases "read_loop s base path max_bytes deadline [] k") (auto split: sum.split)

section \<open>What a successful check has seen\<close>

text \<open>The bytes were read from the opened regular file, whose metadata did not change meanwhile.\<close>

definition observed :: "store_sys \<Rightarrow> string \<Rightarrow> string list \<Rightarrow> string \<Rightarrow> bool" where
  "observed s base path data \<longleftrightarrow>
     (\<exists>max_bytes expected deadline k k'. hash_open s base path max_bytes expected deadline k = (Inr data, k'))"

lemma hash_fileE:
  assumes "hash_file s base path m expected dl k = (Inr (h, kept, n), k')"
  obtains data where "observed s base path data" "h = sha256_hex data" "n = length data"
    "kept = (if m = MAX_MANIFEST_BYTES then Some data else None)" "\<And>e. expected = Some e \<Longrightarrow> e = int n"
proof -
  from assms obtain k1 data where h: "hash_open s base path m expected dl k1 = (Inr data, k')"
    and r: "h = sha256_hex data" "n = length data" "kept = (if m = MAX_MANIFEST_BYTES then Some data else None)"
    by (auto simp: hash_file_def split: prod.splits option.splits sum.splits)
  then have "expected = Some e \<Longrightarrow> e = int n" for e
    by (auto simp: hash_open_def split: prod.splits option.splits sum.splits if_splits)
  moreover have "observed s base path data" unfolding observed_def using h by blast
  ultimately show thesis using r by (intro that [of data]) auto
qed

definition blob_seen :: "store_sys \<Rightarrow> string \<Rightarrow> jdict \<Rightarrow> bool" where
  "blob_seen s base r \<longleftrightarrow> (\<exists>h n media data. descriptor r = Inr (h, n, media)
     \<and> observed s base [''blobs'', ''sha256-'' @ h] data \<and> sha256_hex data = h \<and> int (length data) = n)"

definition declared_size :: "jdict \<Rightarrow> int" where
  "declared_size r = (case descriptor r of Inl _ \<Rightarrow> 0 | Inr (_, n, _) \<Rightarrow> n)"

lemma check_blobs_seen:
  "check_blobs s base dl rs declared hashed k = (Inr n, k') \<Longrightarrow>
     list_all (blob_seen s base) rs \<and> int n = int hashed + sum_list (map declared_size rs)
     \<and> (declared \<le> int MAX_TOTAL_BLOB_BYTES \<longrightarrow> declared + sum_list (map declared_size rs) \<le> int MAX_TOTAL_BLOB_BYTES)"
proof (induction rs arbitrary: declared hashed k)
  case Nil
  then show ?case by simp
next
  case (Cons r rs)
  from Cons.prems obtain h size media where d: "descriptor r = Inr (h, size, media)"
    and total: "declared + size \<le> int MAX_TOTAL_BLOB_BYTES"
    by (auto split: sum.splits prod.splits if_splits)
  from Cons.prems d total obtain kept m k1 where f:
    "hash_file s base [''blobs'', ''sha256-'' @ h] MAX_BLOB_BYTES (Some size) dl k = (Inr (h, kept, m), k1)"
    and rest: "check_blobs s base dl rs (declared + size) (hashed + m) k1 = (Inr n, k')"
    by (auto split: sum.splits prod.splits if_splits)
  from f obtain data where "observed s base [''blobs'', ''sha256-'' @ h] data" "h = sha256_hex data"
    "m = length data" "size = int m" by (rule hash_fileE) auto
  with d have "blob_seen s base r" "declared_size r = int m" "size = int m"
    by (auto simp: blob_seen_def declared_size_def)
  with Cons.IH [OF rest] total show ?case by simp
qed

text \<open>
  C22. A match means the bytes were there. If the check of a model succeeds, then the manifest file at
  the model's own path was read and its bytes have the pinned digest; it parses, with exactly one
  model layer, whose declared digest is the pinned weight digest; every blob it names, the
  configuration included, was read from the file of its digest and its bytes have that digest and the
  declared size; and the declared sizes add up to at most twenty gigabytes and to what the report
  says was hashed.
\<close>

theorem store_match_sound:
  assumes "verify_store_bytes s model expected_manifest expected_weight base st = (Inr report, st')"
  shows "\<exists>path raw config layers layer n media. manifest_relative_path model = Inr path
    \<and> observed s base path raw \<and> sha256_hex raw = expected_manifest
    \<and> parse_manifest s raw = Inr (config, layers)
    \<and> filter is_model_layer layers = [layer] \<and> descriptor layer = Inr (expected_weight, n, media)
    \<and> list_all (blob_seen s base) (config # layers)
    \<and> sum_list (map declared_size (config # layers)) \<le> 20000000000
    \<and> jget (JObj report) ''bytes_hashed'' = JInt (int (length raw) + sum_list (map declared_size (config # layers)))"
proof -
  obtain capacity k0 where st: "st = (capacity, k0)" by (cases st)
  from assms st have u: "fst (verify_store_bytes_unlocked s model expected_manifest expected_weight base k0) = Inr report"
    by (auto simp: verify_store_bytes_def split: if_splits prod.splits)
  let ?dl = "ls_clock s k0 + HASH_BUDGET_SECONDS"
  from u obtain path where p: "manifest_relative_path model = Inr path"
    by (auto simp: verify_store_bytes_unlocked_def split: if_splits sum.splits)
  from u p obtain h raw m k where f: "hash_file s base path MAX_MANIFEST_BYTES None ?dl (Suc k0) = (Inr (h, Some raw, m), k)"
    and v: "fst (verify_manifest s expected_manifest expected_weight base (ls_date s k0) ?dl raw k) = Inr report"
    by (auto simp: verify_store_bytes_unlocked_def Let_def split: if_splits sum.splits prod.splits option.splits)
  have obs: "observed s base path raw" using f by (rule hash_fileE) simp
  from v have e: "sha256_hex raw = expected_manifest" by (auto simp: verify_manifest_def split: if_splits)
  with v obtain config layers where pm: "parse_manifest s raw = Inr (config, layers)"
    by (auto simp: verify_manifest_def split: sum.splits)
  from v e pm obtain layer where l: "filter is_model_layer layers = [layer]"
    by (auto simp: verify_manifest_def split: list.splits)
  from v e pm l obtain n media where d: "descriptor layer = Inr (expected_weight, n, media)"
    by (auto simp: verify_manifest_def split: sum.splits prod.splits if_splits)
  from v e pm l d obtain hashed k' where b: "check_blobs s base ?dl (config # layers) 0 (length raw) k = (Inr hashed, k')"
    and r: "report = store_report s (ls_date s k0) (sha256_hex raw) expected_weight (length (config # layers)) hashed k'"
    by (auto simp: verify_manifest_def simp del: check_blobs.simps split: sum.splits prod.splits)
  from check_blobs_seen [OF b] have c: "list_all (blob_seen s base) (config # layers)"
    "int hashed = int (length raw) + sum_list (map declared_size (config # layers))"
    "sum_list (map declared_size (config # layers)) \<le> 20000000000"
    by (simp_all add: MAX_TOTAL_BLOB_BYTES_def)
  have "jget (JObj report) ''bytes_hashed'' = JInt (int hashed)" by (simp add: r store_report_def dget_or_null_def)
  with c(2) have j: "jget (JObj report) ''bytes_hashed'' = JInt (int (length raw) + sum_list (map declared_size (config # layers)))"
    by simp
  show ?thesis
    by (rule exI [of _ path], rule exI [of _ raw], rule exI [of _ config], rule exI [of _ layers], rule exI [of _ layer],
        rule exI [of _ n], rule exI [of _ media]) (intro conjI p obs e pm l d c(1) c(3) j)
qed


text \<open>A store whose three files hold one byte each, read in the order of the steps.\<close>

definition tiny_stat :: "file_kind \<Rightarrow> file_stat" where
  "tiny_stat kind = \<lparr>fs_kind = kind, fs_attribute = False, fs_dev = 1, fs_ino = 2, fs_size = 1, fs_mtime = 3, fs_ctime = 4\<rparr>"

definition tiny_record :: "string \<Rightarrow> raw" where
  "tiny_record media = RObj [(''mediaType'', RStr media), (''digest'', RStr (''sha256:'' @ sha256_hex ''w'')), (''size'', RInt 1)]"

definition tiny_store :: store_sys where
  "tiny_store = \<lparr>ls_sys = small_sys,
     ls_scan = (\<lambda>_. Inr (RObj [(''schemaVersion'', RInt 2), (''config'', tiny_record ''application/vnd.docker.container.image.v1+json''),
        (''layers'', RArr [tiny_record ''application/vnd.ollama.image.model''])])),
     ls_lstat = (\<lambda>k base path. Inr (tiny_stat (if length path = 5 \<or> length path = 2 \<and> hd path = ''blobs'' then Regular else Directory))),
     ls_open = (\<lambda>_ _ _. Inr ()), ls_fstat = (\<lambda>_ _ _. Inr (tiny_stat Regular)),
     ls_read = (\<lambda>k _ _ _. Inr (if k \<in> {9, 17, 25} then ''w'' else [])),
     ls_stop = (\<lambda>_. False), ls_clock = (\<lambda>_. 0), ls_date = (\<lambda>_. [])\<rparr>"

lemma tiny_store_match:
  "\<exists>report k. verify_store_bytes tiny_store ''m'' (sha256_hex ''w'') (sha256_hex ''w'') ''/models'' (1, 0) = (Inr report, 1, k)"
proof -
  have path: "manifest_relative_path ''m'' = Inr [''manifests'', ''registry.ollama.ai'', ''library'', ''m'', ''latest'']"
    by code_simp
  have sel: "ls_lstat tiny_store k b p = Inr (tiny_stat (if length p = 5 \<or> length p = 2 \<and> hd p = ''blobs'' then Regular else Directory))"
    "ls_open tiny_store k b p = Inr ()" "ls_fstat tiny_store k b p = Inr (tiny_stat Regular)"
    "ls_read tiny_store k b p n = Inr (if k \<in> {9, 17, 25} then ''w'' else [])"
    "\<not> ls_stop tiny_store k" "ls_clock tiny_store k = 0" "ls_date tiny_store k = []" for k b p n
    by (simp_all add: tiny_store_def)
  have st: "fs_kind (tiny_stat x) = x" "\<not> fs_attribute (tiny_stat x)" "fs_size (tiny_stat x) = 1" for x
    by (simp_all add: tiny_stat_def)
  have limits: "1 \<le> MAX_MANIFEST_BYTES" "1 \<le> MAX_BLOB_BYTES" "MAX_BLOB_BYTES \<noteq> MAX_MANIFEST_BYTES"
    by (simp_all add: MAX_MANIFEST_BYTES_def MAX_BLOB_BYTES_def)
  have read: "read_loop tiny_store b p m 20 [] k = (Inr ''w'', Suc (Suc k))" if "k \<in> {9, 17, 25}" "1 \<le> m" for b p m k
    using that by (auto simp: read_loop.simps [of tiny_store b p m 20] sel)
  have opened: "hash_open tiny_store b p m e 20 k = (Inr ''w'', Suc (Suc (Suc (Suc (Suc k)))))"
    if "k \<in> {7, 15, 23}" "1 \<le> m" "e = None \<or> e = Some 1" for b p m k e
    using that read [of "Suc (Suc k)" m b p]
    by (auto simp: hash_open_def sel st size_error_def)
  have manifest: "hash_file tiny_store ''/models'' [''manifests'', ''registry.ollama.ai'', ''library'', ''m'', ''latest'']
      MAX_MANIFEST_BYTES None 20 1 = (Inr (sha256_hex ''w'', Some ''w'', 1), 12)"
  proof -
    have "check_regular_path tiny_store ''/models'' [''manifests'', ''registry.ollama.ai'', ''library'', ''m'', ''latest''] 1 = (None, 7)"
      by (simp add: check_regular_path_def sel st is_reparse_def)
    with limits opened [of 7 MAX_MANIFEST_BYTES None] show ?thesis by (simp add: hash_file_def)
  qed
  have blob: "hash_file tiny_store ''/models'' [''blobs'', x] MAX_BLOB_BYTES (Some 1) 20 k = (Inr (sha256_hex ''w'', None, 1), k + 8)"
    if "k \<in> {12, 20}" for x k
  proof -
    have "check_regular_path tiny_store ''/models'' [''blobs'', x] k = (None, Suc (Suc (Suc k)))"
      by (simp add: check_regular_path_def sel st is_reparse_def)
    with that limits opened [of "Suc (Suc (Suc k))" MAX_BLOB_BYTES "Some 1"] show ?thesis by (auto simp: hash_file_def)
  qed
  have hex: "hex64 (sha256_hex ''w'')" using sha256_hex_shape by (simp add: hex64_def)
  have desc: "descriptor [(''mediaType'', JStr m), (''digest'', JStr (''sha256:'' @ sha256_hex ''w'')), (''size'', JInt 1)]
      = Inr (sha256_hex ''w'', 1, m)" if "startswith ''application/vnd.'' m" for m
    using that hex by (simp add: descriptor_def descriptor_digest_def dget_or_null_def MAX_BLOB_BYTES_def startswith_def)
  have parse: "parse_manifest tiny_store ''w'' = Inr
      ([(''mediaType'', JStr ''application/vnd.docker.container.image.v1+json''), (''digest'', JStr (''sha256:'' @ sha256_hex ''w'')), (''size'', JInt 1)],
       [[(''mediaType'', JStr ''application/vnd.ollama.image.model''), (''digest'', JStr (''sha256:'' @ sha256_hex ''w'')), (''size'', JInt 1)]])"
    by (simp add: parse_manifest_def tiny_store_def small_sys_def tiny_record_def manifest_hooks_def unique_object_def dict_of_def
        manifest_shape_def within_limits_iff MAX_MANIFEST_NODES_def MAX_MANIFEST_DEPTH_def MAX_LAYERS_def dget_or_null_def)
  have "fst (verify_store_bytes_unlocked tiny_store ''m'' (sha256_hex ''w'') (sha256_hex ''w'') ''/models'' 0)
      = Inr (store_report tiny_store [] (sha256_hex ''w'') (sha256_hex ''w'') 2 3 28)"
    using path manifest parse desc blob [of 12] blob [of 20]
    by (simp add: verify_store_bytes_unlocked_def startswith_def sel HASH_BUDGET_SECONDS_def verify_manifest_def
        is_model_layer_def dget_or_null_def MAX_TOTAL_BLOB_BYTES_def numeral_2_eq_2 numeral_3_eq_3)
  then show ?thesis by (auto simp: verify_store_bytes_def split: prod.splits)
qed


theorem store_match_sound_witness:
  "\<exists>report k raw layer n media. verify_store_bytes tiny_store ''m'' (sha256_hex ''w'') (sha256_hex ''w'') ''/models'' (1, 0) = (Inr report, 1, k)
     \<and> observed tiny_store ''/models'' [''manifests'', ''registry.ollama.ai'', ''library'', ''m'', ''latest''] raw
     \<and> sha256_hex raw = sha256_hex ''w'' \<and> descriptor layer = Inr (sha256_hex ''w'', n, media)"
proof -
  obtain report k where v: "verify_store_bytes tiny_store ''m'' (sha256_hex ''w'') (sha256_hex ''w'') ''/models'' (1, 0) = (Inr report, 1, k)"
    using tiny_store_match by blast
  have "manifest_relative_path ''m'' = Inr [''manifests'', ''registry.ollama.ai'', ''library'', ''m'', ''latest'']" by code_simp
  with store_match_sound [OF v] obtain raw layer n media where
    "observed tiny_store ''/models'' [''manifests'', ''registry.ollama.ai'', ''library'', ''m'', ''latest''] raw"
    "sha256_hex raw = sha256_hex ''w''" "descriptor layer = Inr (sha256_hex ''w'', n, media)"
    by auto
  with v show ?thesis by blast
qed

end
