(* ===== verification/Control.thy ===== *)
theory Control
  imports LocalStore MeshHttp "HOL-Library.Product_Lexorder"
begin

text \<open>
  \<open>router_control/app.py\<close>, configuration and planning: the provider registry with its validators, the
  settings read from the environment, the caller's credential, readiness, and the route plan with its
  receipt. \<open>pydantic\<close> is a parameter: it turns a JSON value into typed fields; the bounds and patterns
  the code declares on the fields, and the validators it defines, are modelled.

  The lemmas: settings that are in force are well formed, a broken registry leaves nothing to route
  to, and a plan ranks exactly the eligible providers.
\<close>

section \<open>Names and hosts\<close>

definition enabled :: "env \<Rightarrow> string \<Rightarrow> bool" where
  "enabled e name = (lower (strip (env_get e name [])) \<in> {''1'', ''true'', ''yes'', ''on''})"

definition source_revision :: "env \<Rightarrow> string" where
  "source_revision e =
     (let a = env_get e ''SOURCE_REVISION'' []; b = env_get e ''GIT_COMMIT'' [];
          value = lower (strip (if a \<noteq> [] then a else b))
      in if 40 \<le> length value \<and> length value \<le> 64 \<and> list_all lower_hex value then value else ''UNAVAILABLE'')"

definition identifier_ok :: "string \<Rightarrow> bool" where
  "identifier_ok t = (name_like ''._:-'' t \<and> length t \<le> 96)"

definition ollama_model_name :: "string \<Rightarrow> bool" where
  "ollama_model_name t = (name_like ''._:/-'' t \<and> length t \<le> 192)"

definition token_env_name :: "string \<Rightarrow> bool" where
  "token_env_name t = (3 \<le> length t \<and> length t \<le> 96 \<and> ascii_upper (hd t)
     \<and> list_all (\<lambda>c. ascii_upper c \<or> ascii_digit c \<or> c = CHR ''_'') (tl t))"

definition valid_https_model_name :: "string \<Rightarrow> bool" where
  "valid_https_model_name value =
     (length value \<le> 192 \<and> \<not> startswith ''http:'' (lower value) \<and> \<not> startswith ''https:'' (lower value)
      \<and> list_all (name_like ''._:-'') (split_on (CHR ''/'') value))"

definition normalize_host :: "string \<Rightarrow> string" where
  "normalize_host value = rstrip_by (\<lambda>c. c = CHR ''.'') (lower (strip value))"

definition parse_allowed_hosts :: "env \<Rightarrow> string list" where
  "parse_allowed_hosts e =
     remdups (filter (\<lambda>h. h \<noteq> []) (map normalize_host (split_on (CHR '','') (env_get e ''SZL_ROUTER_ALLOWED_HOSTS'' []))))"

text \<open>\<open>parsed.username or parsed.password\<close>\<close>

definition has_credentials :: "url \<Rightarrow> bool" where
  "has_credentials u =
     (case u_userinfo u of None \<Rightarrow> False
      | Some info \<Rightarrow> (let (a, _, b) = partition_at (CHR '':'') info in a \<noteq> [] \<or> b \<noteq> []))"

definition validate_base_url :: "string \<Rightarrow> string list \<Rightarrow> exn + string" where
  "validate_base_url value allowed_hosts =
     bindE (urlsplit (strip value)) (\<lambda>u.
       let host = normalize_host (case u_hostname u of None \<Rightarrow> [] | Some h \<Rightarrow> h) in
       if u_scheme u \<noteq> ''https'' then Inl (ValueError ''provider base_url must use https'')
       else if host = [] \<or> host \<notin> set allowed_hosts
       then Inl (ValueError ''provider hostname is not in SZL_ROUTER_ALLOWED_HOSTS'')
       else if has_credentials u \<or> u_query u \<noteq> [] \<or> u_fragment u \<noteq> []
       then Inl (ValueError ''provider base_url cannot contain credentials, query, or fragment'')
       else bindE (u_port u) (\<lambda>port.
         if port \<noteq> None \<and> port \<noteq> Some 443
         then Inl (ValueError ''provider base_url may use only the default HTTPS port'')
         else if ipv4 host \<noteq> None \<or> ipv6 host \<noteq> None
         then Inl (ValueError ''literal IP provider hosts are forbidden'')
         else if host = ''localhost'' \<or> endswith ''.localhost'' host
         then Inl (ValueError ''localhost provider hosts are forbidden'')
         else let path = rstrip_by (\<lambda>c. c = CHR ''/'') (u_path u) in
           if path \<noteq> [] \<and> \<not> startswith ''/'' path then Inl (ValueError ''invalid provider base path'')
           else Inr (''https://'' @ host @ path)))"

section \<open>The registry\<close>

datatype provider_type = OpenaiHttps | OllamaLoopback

record provider_record =
  pr_id :: string
  pr_type :: provider_type
  pr_base_url :: "string option"
  pr_models :: "string dict"           \<comment> \<open>public alias to upstream model\<close>
  pr_digests :: "string dict"
  pr_weights :: "string dict"
  pr_token_env :: "string option"
  pr_priority :: int
  pr_sovereignty :: int
  pr_cost_tier :: int
  pr_classes :: "string list"
  pr_enabled :: bool

definition CLASSIFICATIONS :: "string list" where
  "CLASSIFICATIONS = [''public'', ''internal'', ''confidential'', ''restricted'']"

definition MAX_PROVIDERS :: nat where "MAX_PROVIDERS = 16"
definition MAX_MODELS_PER_PROVIDER :: nat where "MAX_MODELS_PER_PROVIDER = 128"

abbreviation ValidationError :: "string \<Rightarrow> exn" where
  "ValidationError m \<equiv> PyError ''ValidationError'' m"

text \<open>The bounds and patterns declared on the fields.\<close>

definition record_bounds :: "provider_record \<Rightarrow> bool" where
  "record_bounds r \<longleftrightarrow> identifier_ok (pr_id r)
     \<and> (case pr_base_url r of None \<Rightarrow> True | Some u \<Rightarrow> 9 \<le> length u \<and> length u \<le> 512)
     \<and> 1 \<le> length (pr_models r) \<and> length (pr_models r) \<le> MAX_MODELS_PER_PROVIDER
     \<and> length (pr_digests r) \<le> MAX_MODELS_PER_PROVIDER \<and> length (pr_weights r) \<le> MAX_MODELS_PER_PROVIDER
     \<and> (case pr_token_env r of None \<Rightarrow> True | Some t \<Rightarrow> token_env_name t)
     \<and> 0 \<le> pr_priority r \<and> pr_priority r \<le> 10000 \<and> 0 \<le> pr_sovereignty r \<and> pr_sovereignty r \<le> 100
     \<and> 0 \<le> pr_cost_tier r \<and> pr_cost_tier r \<le> 10 \<and> 1 \<le> length (pr_classes r) \<and> length (pr_classes r) \<le> 4"

definition valid_models :: "string dict \<Rightarrow> exn + string dict" where
  "valid_models models =
     (if \<not> list_all identifier_ok (map fst models)
      then Inl (ValidationError ''public model aliases must use bounded identifiers'')
      else Inr (sort_key fst models))"

definition valid_classifications :: "string list \<Rightarrow> exn + string list" where
  "valid_classifications values =
     (let normalized = map lower values in
      if \<not> list_all (\<lambda>c. c \<in> set CLASSIFICATIONS) normalized then Inl (ValidationError ''unsupported classifications'')
      else if \<not> distinct normalized then Inl (ValidationError ''classification values must be unique'')
      else Inr (sort normalized))"

text \<open>\<open>manifest_relative_path\<close> is called on the upstream name of every weight pin.\<close>

fun pinned_paths :: "string dict \<Rightarrow> string list \<Rightarrow> exn option" where
  "pinned_paths models [] = None"
| "pinned_paths models (m # ms) =
     (case manifest_relative_path (case dget models m of None \<Rightarrow> [] | Some u \<Rightarrow> u) of
        Inl e \<Rightarrow> Some e | Inr _ \<Rightarrow> pinned_paths models ms)"

definition loopback_error :: "provider_record \<Rightarrow> exn option" where
  "loopback_error r =
     (if \<not> list_all ollama_model_name (map snd (pr_models r))
      then Some (ValidationError ''loopback model names must use bounded identifiers'')
      else if pr_base_url r \<noteq> None \<or> pr_token_env r \<noteq> None
      then Some (ValidationError ''loopback Ollama endpoint and credentials are fixed by the router'')
      else if set (map fst (pr_digests r)) \<noteq> set (map fst (pr_models r))
      then Some (ValidationError ''each loopback model alias requires one manifest digest'')
      else if \<not> list_all hex64 (map snd (pr_digests r))
      then Some (ValidationError ''loopback model manifest digests must be lowercase SHA-256'')
      else if \<not> set (map fst (pr_weights r)) \<subseteq> set (map fst (pr_models r))
      then Some (ValidationError ''local weight pins must name configured public model aliases'')
      else if \<not> list_all hex64 (map snd (pr_weights r))
      then Some (ValidationError ''local weight pins must be lowercase SHA-256'')
      else pinned_paths (pr_models r) (map fst (pr_weights r)))"

definition https_shape :: "provider_record \<Rightarrow> bool" where
  "https_shape r = (pr_base_url r \<noteq> None \<and> pr_token_env r \<noteq> None \<and> pr_digests r = [] \<and> pr_weights r = []
     \<and> list_all valid_https_model_name (map snd (pr_models r)))"

definition valid_provider_binding :: "provider_record \<Rightarrow> exn option" where
  "valid_provider_binding r =
     (case pr_type r of
        OllamaLoopback \<Rightarrow> loopback_error r
      | OpenaiHttps \<Rightarrow>
          if https_shape r then None
          else Some (ValidationError ''HTTPS providers require base_url, token_env and bounded upstream model names''))"

definition validate_provider :: "provider_record \<Rightarrow> exn + provider_record" where
  "validate_provider r =
     (if \<not> record_bounds r then Inl (ValidationError ''field bounds'')
      else bindE (valid_models (pr_models r)) (\<lambda>models.
           bindE (valid_classifications (pr_classes r)) (\<lambda>classes.
             let r' = r\<lparr>pr_models := models, pr_classes := classes\<rparr>
             in case valid_provider_binding r' of Some e \<Rightarrow> Inl e | None \<Rightarrow> Inr r')))"

fun validate_all :: "provider_record list \<Rightarrow> exn + provider_record list" where
  "validate_all [] = Inr []"
| "validate_all (r # rs) = bindE (validate_provider r) (\<lambda>r'. bindE (validate_all rs) (\<lambda>rs'. Inr (r' # rs')))"

definition unique_ids :: "provider_record list \<Rightarrow> bool" where
  "unique_ids rs = distinct (map pr_id rs)"

definition validate_registry :: "provider_record list \<Rightarrow> exn + provider_record list" where
  "validate_registry rs =
     (if MAX_PROVIDERS < length rs then Inl (ValidationError ''field bounds'')
      else bindE (validate_all rs) (\<lambda>rs'.
        if unique_ids rs' then Inr rs' else Inl (ValidationError ''provider IDs must be unique'')))"

section \<open>Settings\<close>

record settings =
  st_registry :: "provider_record list"
  st_hosts :: "string list"
  st_egress :: bool
  st_state :: string
  st_error :: "string option"

text \<open>The normalisation of one provider: an absolute store for weight pins, an admitted URL for HTTPS.\<close>

definition normalize_provider :: "env \<Rightarrow> string list \<Rightarrow> provider_record \<Rightarrow> exn + provider_record" where
  "normalize_provider e hosts r =
     (if pr_weights r \<noteq> [] \<and> \<not> startswith ''/'' (strip (env_get e ''SZL_ROUTER_OLLAMA_MODELS_DIR'' []))
      then Inl (ValueError ''local byte admission requires an absolute model store root'')
      else case pr_type r of
        OllamaLoopback \<Rightarrow> Inr r
      | OpenaiHttps \<Rightarrow>
          bindE (validate_base_url (case pr_base_url r of None \<Rightarrow> [] | Some u \<Rightarrow> u) hosts)
            (\<lambda>u. Inr (r\<lparr>pr_base_url := Some u\<rparr>)))"

fun normalize_all :: "env \<Rightarrow> string list \<Rightarrow> provider_record list \<Rightarrow> exn + provider_record list" where
  "normalize_all e hosts [] = Inr []"
| "normalize_all e hosts (r # rs) =
     bindE (normalize_provider e hosts r) (\<lambda>r'. bindE (normalize_all e hosts rs) (\<lambda>rs'. Inr (r' # rs')))"

definition failed_closed :: "string list \<Rightarrow> settings" where
  "failed_closed hosts = \<lparr>st_registry = [], st_hosts = hosts, st_egress = False, st_state = ''INVALID_FAIL_CLOSED'',
     st_error = Some ''Provider configuration is invalid; check the registry schema and hostname allowlist.''\<rparr>"

text \<open>\<open>typed\<close> is \<open>pydantic\<close>'s reading of the registry into typed fields, which can fail.\<close>

definition load_settings :: "sys \<Rightarrow> (json \<Rightarrow> exn + provider_record list) \<Rightarrow> exn + settings" where
  "load_settings s typed =
     (let e = s_env s; hosts = parse_allowed_hosts e; egress = enabled e ''SZL_ROUTER_ENABLE_EGRESS'';
          raw = strip (env_get e ''SZL_ROUTER_PROVIDERS_JSON'' [])
      in if raw = []
         then Inr \<lparr>st_registry = [], st_hosts = hosts, st_egress = egress, st_state = ''UNAVAILABLE_NOT_CONFIGURED'', st_error = None\<rparr>
         else case bindE (s_loads s raw) (\<lambda>parsed. bindE (typed parsed) (\<lambda>rs.
                bindE (validate_registry rs) (normalize_all e hosts))) of
           Inr rs \<Rightarrow> Inr \<lparr>st_registry = rs, st_hosts = hosts, st_egress = egress, st_state = ''VALIDATED'', st_error = None\<rparr>
         | Inl x \<Rightarrow> if is_value_error x then Inr (failed_closed hosts) else Inl x)"

section \<open>Credentials and readiness\<close>

definition credential_state :: "env \<Rightarrow> provider_record \<Rightarrow> string" where
  "credential_state e r =
     (case pr_type r of
        OllamaLoopback \<Rightarrow> ''NOT_REQUIRED_LOOPBACK''
      | OpenaiHttps \<Rightarrow>
          (case pr_token_env r of
             None \<Rightarrow> ''UNAVAILABLE''
           | Some t \<Rightarrow> if t \<noteq> [] \<and> env_get e t [] \<noteq> [] then ''AVAILABLE'' else ''UNAVAILABLE''))"

definition inference_readiness :: "env \<Rightarrow> settings \<Rightarrow> jdict" where
  "inference_readiness e st =
     (let remote = list_ex (\<lambda>r. pr_enabled r \<and> credential_state e r = ''AVAILABLE'') (st_registry st);
          checks = [
            (''registry_valid'', st_state st = ''VALIDATED''),
            (''egress_enabled'', st_egress st),
            (''caller_auth_configured'', strip (env_get e ''SZL_ROUTER_TOKEN'' []) \<noteq> []),
            (''provider_configured'', list_ex (\<lambda>r. pr_enabled r
               \<and> credential_state e r \<in> {''AVAILABLE'', ''NOT_REQUIRED_LOOPBACK''}) (st_registry st))];
          admitted = list_all snd checks
      in [(''status'', JStr (if admitted then ''configured'' else ''unavailable'')),
          (''checks'', JObj (map (\<lambda>(k, b). (k, JBool b)) checks)),
          (''remote_credentialed_provider'', JBool remote), (''ready_for_requests'', JBool admitted),
          (''basis'', JStr ''LOCAL_CONFIGURATION_ONLY''), (''provider_reachability'', JStr ''UNVERIFIED''),
          (''inference_witness'', JStr ''UNAVAILABLE''), (''model_identity'', JStr ''UNVERIFIED'')])"

text \<open>The refusal of a caller, if any: its status and code.\<close>

definition check_caller_auth :: "env \<Rightarrow> string option \<Rightarrow> (int \<times> string) option" where
  "check_caller_auth e authorization =
     (let expected = strip (env_get e ''SZL_ROUTER_TOKEN'' []) in
      if expected = [] then Some (503, ''CALLER_AUTH_NOT_CONFIGURED'')
      else if utf8 (case authorization of None \<Rightarrow> [] | Some a \<Rightarrow> a) \<noteq> utf8 (''Bearer '' @ expected)
      then Some (401, ''INVALID_ROUTER_CREDENTIAL'') else None)"

section \<open>The plan\<close>

record plan_request =
  pq_model :: string
  pq_required :: "string option"
  pq_class :: string
  pq_max_cost :: int

record candidate =
  cd_provider :: string
  cd_upstream :: string
  cd_record :: provider_record
  cd_digest :: "string option"
  cd_credential :: string

definition eligible :: "plan_request \<Rightarrow> provider_record \<Rightarrow> bool" where
  "eligible q r \<longleftrightarrow>
     (pq_required q = None \<or> pq_required q = Some (pr_id r)) \<and> pr_enabled r
     \<and> (case dget (pr_models r) (pq_model q) of None \<Rightarrow> False | Some u \<Rightarrow> u \<noteq> [])
     \<and> pq_class q \<in> set (pr_classes r) \<and> pr_cost_tier r \<le> pq_max_cost q"

definition candidate_of :: "env \<Rightarrow> plan_request \<Rightarrow> provider_record \<Rightarrow> candidate" where
  "candidate_of e q r = \<lparr>cd_provider = pr_id r,
     cd_upstream = (case dget (pr_models r) (pq_model q) of None \<Rightarrow> [] | Some u \<Rightarrow> u), cd_record = r,
     cd_digest = dget (pr_digests r) (pq_model q), cd_credential = credential_state e r\<rparr>"

definition rank :: "candidate \<Rightarrow> int \<times> int \<times> int \<times> string" where
  "rank c = (let r = cd_record c in (- pr_sovereignty r, pr_priority r, pr_cost_tier r, cd_provider c))"

definition route_candidates :: "env \<Rightarrow> settings \<Rightarrow> plan_request \<Rightarrow> candidate list" where
  "route_candidates e st q = sort_key rank (map (candidate_of e q) (filter (eligible q) (st_registry st)))"

definition type_text :: "provider_type \<Rightarrow> string" where
  "type_text t = (case t of OpenaiHttps \<Rightarrow> ''openai_https'' | OllamaLoopback \<Rightarrow> ''ollama_loopback'')"

definition identity_text :: "provider_type \<Rightarrow> string" where
  "identity_text t = (case t of OllamaLoopback \<Rightarrow> ''PIN_CONFIGURED_UNVERIFIED'' | OpenaiHttps \<Rightarrow> ''UNAVAILABLE_MUTABLE_MODEL_ALIAS'')"

definition candidate_json :: "plan_request \<Rightarrow> candidate \<Rightarrow> json" where
  "candidate_json q c = (let r = cd_record c in JObj [
     (''provider_id'', JStr (cd_provider c)), (''public_model'', JStr (pq_model q)),
     (''upstream_model'', JStr (cd_upstream c)), (''priority'', JInt (pr_priority r)),
     (''sovereignty'', JInt (pr_sovereignty r)), (''cost_tier'', JInt (pr_cost_tier r)),
     (''classification'', JStr (pq_class q)), (''provider_type'', JStr (type_text (pr_type r))),
     (''model_digest'', opt_str (cd_digest c)), (''model_identity_state'', JStr (identity_text (pr_type r))),
     (''credential_state'', JStr (cd_credential c))])"

definition plan_body :: "settings \<Rightarrow> plan_request \<Rightarrow> candidate list \<Rightarrow> jdict" where
  "plan_body st q cs = [
     (''schema'', JStr ''szl.router-plan/v1''), (''model'', JStr (pq_model q)),
     (''required_provider_id'', opt_str (pq_required q)), (''classification'', JStr (pq_class q)),
     (''max_cost_tier'', JInt (pq_max_cost q)), (''registry_state'', JStr (st_state st)),
     (''egress_enabled'', JBool (st_egress st)), (''candidates'', JArr (map (candidate_json q) cs)),
     (''selected'', (case cs of [] \<Rightarrow> JNull | c # _ \<Rightarrow> JStr (cd_provider c))),
     (''selection_algorithm'', JStr ''sovereignty-desc_priority-asc_cost-asc_id-asc/v1'')]"

definition plan :: "sys \<Rightarrow> settings \<Rightarrow> plan_request \<Rightarrow> exn + jdict" where
  "plan s st q =
     (let body = plan_body st q (route_candidates (s_env s) st q) in
      bindE (json_digest s (JObj body)) (\<lambda>digest.
      bindE (Verification.canonical s (JObj body)) (\<lambda>bytes.
        Inr (body @ [(''receipt'', JObj [(''algorithm'', JStr ''sha256''), (''digest'', JStr digest),
                                     (''canonical_bytes'', JInt (int (length bytes)))])]))))"

definition provider_by_id :: "settings \<Rightarrow> string \<Rightarrow> provider_record option" where
  "provider_by_id st pid = find (\<lambda>r. pr_id r = pid) (st_registry st)"

section \<open>Registry pages\<close>

definition string_map :: "string dict \<Rightarrow> json" where
  "string_map d = JObj (map (\<lambda>(k, v). (k, JStr v)) d)"

definition public_row :: "env \<Rightarrow> provider_record \<Rightarrow> json" where
  "public_row e r = JObj [
     (''id'', JStr (pr_id r)), (''provider_type'', JStr (type_text (pr_type r))),
     (''models'', JArr (map JStr (sort (map fst (pr_models r))))),
     (''model_digests'', string_map (pr_digests r)), (''model_weight_digests'', string_map (pr_weights r)),
     (''model_identity_state'', JStr (identity_text (pr_type r))), (''priority'', JInt (pr_priority r)),
     (''sovereignty'', JInt (pr_sovereignty r)), (''cost_tier'', JInt (pr_cost_tier r)),
     (''classifications'', JArr (map JStr (pr_classes r))), (''enabled'', JBool (pr_enabled r)),
     (''credential_state'', JStr (credential_state e r)),
     (''endpoint_state'', JStr (case pr_type r of
        OllamaLoopback \<Rightarrow> ''FIXED_LOOPBACK_UNVERIFIED'' | OpenaiHttps \<Rightarrow> ''VALIDATED_ALLOWLISTED''))]"

definition public_registry :: "env \<Rightarrow> settings \<Rightarrow> json" where
  "public_registry e st = JArr (map (public_row e) (st_registry st))"

definition with_digest :: "sys \<Rightarrow> jdict \<Rightarrow> exn + jdict" where
  "with_digest s body = bindE (json_digest s (JObj body)) (\<lambda>h.
     Inr (body @ [(''receipt'', JObj [(''algorithm'', JStr ''sha256''), (''digest'', JStr h)])]))"

definition routes_page :: "sys \<Rightarrow> settings \<Rightarrow> exn + jdict" where
  "routes_page s st = with_digest s [
     (''schema'', JStr ''szl.router-registry/v1''), (''state'', JStr (st_state st)),
     (''egress_enabled'', JBool (st_egress st)), (''allowed_host_count'', JInt (int (length (st_hosts st)))),
     (''providers'', public_registry (s_env s) st), (''config_error'', opt_str (st_error st))]"

definition control_models :: "settings \<Rightarrow> jdict" where
  "control_models st =
     (let ids = sort (remdups (concat (map (\<lambda>r. if pr_enabled r then map fst (pr_models r) else []) (st_registry st))))
      in [(''object'', JStr ''list''),
          (''data'', JArr (map (\<lambda>m. JObj [(''id'', JStr m), (''object'', JStr ''model''), (''created'', JInt 0),
             (''owned_by'', JStr ''szl-router-registry'')]) ids)),
          (''szl_registry_state'', JStr (st_state st))])"

definition readyz :: "env \<Rightarrow> bool \<Rightarrow> settings \<Rightarrow> int \<times> jdict" where
  "readyz e static_index st =
     (let checks = [
        (''static_index'', static_index),
        (''registry'', st_state st \<in> {''VALIDATED'', ''UNAVAILABLE_NOT_CONFIGURED''}),
        (''egress'', \<not> st_egress st \<or> (st_state st = ''VALIDATED'' \<and> st_registry st \<noteq> []
           \<and> list_all (\<lambda>r. pr_type r = OllamaLoopback \<or> st_hosts st \<noteq> []) (st_registry st)))];
          ok = list_all snd checks
      in (if ok then 200 else 503,
          [(''status'', JStr (if ok then ''ready'' else ''not-ready'')),
           (''checks'', JObj (map (\<lambda>(k, b). (k, JBool b)) checks)), (''registry_state'', JStr (st_state st)),
           (''egress_enabled'', JBool (st_egress st)), (''scope'', JStr ''CONTROL_PLANE''),
           (''inference'', JObj (inference_readiness e st))]))"

definition readyz_inference :: "env \<Rightarrow> settings \<Rightarrow> int \<times> jdict" where
  "readyz_inference e st = (let admission = inference_readiness e st in
     (if dget_or_null admission ''ready_for_requests'' = JBool True then 200 else 503, admission))"


section \<open>Settings in force are well formed\<close>

definition https_url :: "string list \<Rightarrow> string \<Rightarrow> bool" where
  "https_url hosts u \<longleftrightarrow> (\<exists>host path. u = ''https://'' @ host @ path \<and> host \<noteq> [] \<and> host \<in> set hosts
     \<and> ipv4 host = None \<and> ipv6 host = None \<and> host \<noteq> ''localhost'' \<and> \<not> endswith ''.localhost'' host
     \<and> (path = [] \<or> startswith ''/'' path))"

definition provider_wf :: "string list \<Rightarrow> provider_record \<Rightarrow> bool" where
  "provider_wf hosts r \<longleftrightarrow> identifier_ok (pr_id r) \<and> list_all identifier_ok (map fst (pr_models r))
     \<and> sorted (map fst (pr_models r)) \<and> set (pr_classes r) \<subseteq> set CLASSIFICATIONS \<and> distinct (pr_classes r)
     \<and> 0 \<le> pr_sovereignty r \<and> pr_sovereignty r \<le> 100 \<and> 0 \<le> pr_cost_tier r \<and> pr_cost_tier r \<le> 10
     \<and> (case pr_type r of
          OpenaiHttps \<Rightarrow> (\<exists>u t. pr_base_url r = Some u \<and> https_url hosts u \<and> pr_token_env r = Some t \<and> token_env_name t)
             \<and> pr_digests r = [] \<and> pr_weights r = []
        | OllamaLoopback \<Rightarrow> pr_base_url r = None \<and> pr_token_env r = None
             \<and> set (map fst (pr_digests r)) = set (map fst (pr_models r)) \<and> list_all hex64 (map snd (pr_digests r))
             \<and> set (map fst (pr_weights r)) \<subseteq> set (map fst (pr_models r)) \<and> list_all hex64 (map snd (pr_weights r)))"

lemma validate_base_url_wf:
  assumes "validate_base_url value hosts = Inr u"
  shows "https_url hosts u"
proof -
  from assms obtain p where p: "urlsplit (strip value) = Inr p"
    by (auto simp: validate_base_url_def bindE_Inr_iff)
  define host where "host = normalize_host (case u_hostname p of None \<Rightarrow> [] | Some h \<Rightarrow> h)"
  define path where "path = rstrip_by (\<lambda>c. c = CHR ''/'') (u_path p)"
  note v = assms [unfolded validate_base_url_def p bindE_simps Let_def host_def [symmetric] path_def [symmetric]]
  then have h: "host \<noteq> []" "host \<in> set hosts" by (auto split: if_splits)
  from v h obtain port where "u_port p = Inr port" by (auto simp: bindE_Inr_iff split: if_splits)
  with v h have "ipv4 host = None" "ipv6 host = None" "host \<noteq> ''localhost''" "\<not> endswith ''.localhost'' host"
    "path = [] \<or> startswith ''/'' path" "u = ''https://'' @ host @ path"
    by (auto split: if_splits)
  with h show ?thesis unfolding https_url_def by blast
qed

lemma validate_provider_shape:
  assumes "validate_provider r0 = Inr r"
  shows "record_bounds r0 \<and> identifier_ok (pr_id r) \<and> list_all identifier_ok (map fst (pr_models r)) \<and> sorted (map fst (pr_models r))
    \<and> set (pr_classes r) \<subseteq> set CLASSIFICATIONS \<and> distinct (pr_classes r)
    \<and> valid_provider_binding r = None
    \<and> (\<exists>ms cs. r = r0\<lparr>pr_models := ms, pr_classes := cs\<rparr>)"
proof -
  from assms obtain ms cs where b: "record_bounds r0"
    and m: "list_all identifier_ok (map fst (pr_models r0))" "ms = sort_key fst (pr_models r0)"
    and c: "list_all (\<lambda>c. c \<in> set CLASSIFICATIONS) (map lower (pr_classes r0))" "distinct (map lower (pr_classes r0))"
      "cs = sort (map lower (pr_classes r0))"
    and v: "valid_provider_binding (r0\<lparr>pr_models := ms, pr_classes := cs\<rparr>) = None" "r = r0\<lparr>pr_models := ms, pr_classes := cs\<rparr>"
    by (auto simp: validate_provider_def valid_models_def valid_classifications_def Let_def bindE_Inr_iff
        split: if_splits option.splits)
  have "list_all identifier_ok (map fst ms)" using m by (simp add: list_all_iff)
  moreover have "set cs \<subseteq> set CLASSIFICATIONS" using c by (auto simp: list_all_iff)
  moreover have "distinct cs" using c by simp
  moreover have "identifier_ok (pr_id r)" using b v(2) by (simp add: record_bounds_def)
  ultimately show ?thesis using b m(2) v by auto
qed

lemma normalize_provider_wf:
  assumes "validate_provider r0 = Inr r1" "normalize_provider e hosts r1 = Inr r"
  shows "provider_wf hosts r \<and> pr_id r = pr_id r1"
proof -
  note v = validate_provider_shape [OF assms(1)]
  from v have b: "record_bounds r1 \<longleftrightarrow> record_bounds r1" "0 \<le> pr_sovereignty r1" "pr_sovereignty r1 \<le> 100" "0 \<le> pr_cost_tier r1" "pr_cost_tier r1 \<le> 10"
    "\<And>t. pr_token_env r1 = Some t \<Longrightarrow> token_env_name t"
    by (auto simp: record_bounds_def)
  show ?thesis
  proof (cases "pr_type r1")
    case OpenaiHttps
    with v have "https_shape r1" by (auto simp: valid_provider_binding_def split: if_splits)
    with assms(2) OpenaiHttps v b validate_base_url_wf show ?thesis
      by (auto simp: normalize_provider_def provider_wf_def https_shape_def bindE_Inr_iff split: if_splits)
  next
    case OllamaLoopback
    with v have "loopback_error r1 = None" by (simp add: valid_provider_binding_def)
    with assms(2) OllamaLoopback v b show ?thesis
      by (auto simp: normalize_provider_def provider_wf_def loopback_error_def split: if_splits)
  qed
qed

lemma normalize_all_wf:
  "validate_all rs0 = Inr rs1 \<Longrightarrow> normalize_all e hosts rs1 = Inr rs \<Longrightarrow>
     list_all (provider_wf hosts) rs \<and> map pr_id rs = map pr_id rs1 \<and> length rs = length rs0"
proof (induction rs0 arbitrary: rs1 rs)
  case Nil
  then show ?case by auto
next
  case (Cons r0 rs0)
  then obtain r1 rs1' r rs' where "validate_provider r0 = Inr r1" "validate_all rs0 = Inr rs1'" "rs1 = r1 # rs1'"
    "normalize_provider e hosts r1 = Inr r" "normalize_all e hosts rs1' = Inr rs'" "rs = r # rs'"
    by (auto simp: bindE_Inr_iff)
  with Cons.IH normalize_provider_wf show ?case by fastforce
qed

lemma load_settings_wf:
  assumes "load_settings s typed = Inr st"
  shows "list_all (provider_wf (st_hosts st)) (st_registry st) \<and> unique_ids (st_registry st) \<and> length (st_registry st) \<le> 16
    \<and> (st_state st = ''VALIDATED''
       \<or> st_state st = ''UNAVAILABLE_NOT_CONFIGURED'' \<and> st_registry st = []
       \<or> st = failed_closed (st_hosts st) \<and> st_registry st = [] \<and> \<not> st_egress st)"
proof -
  let ?e = "s_env s" let ?hosts = "parse_allowed_hosts (s_env s)"
  let ?r = "bindE (s_loads s (strip (env_get ?e ''SZL_ROUTER_PROVIDERS_JSON'' []))) (\<lambda>parsed. bindE (typed parsed) (\<lambda>rs.
      bindE (validate_registry rs) (normalize_all ?e ?hosts)))"
  show ?thesis
  proof (cases "\<exists>rs. ?r = Inr rs \<and> strip (env_get ?e ''SZL_ROUTER_PROVIDERS_JSON'' []) \<noteq> []")
    case True
    then obtain rs where rs: "?r = Inr rs" and raw: "strip (env_get ?e ''SZL_ROUTER_PROVIDERS_JSON'' []) \<noteq> []" by blast
    from rs obtain rs0 rs1 where r: "validate_registry rs0 = Inr rs1" "normalize_all ?e ?hosts rs1 = Inr rs"
      by (auto simp: bindE_Inr_iff)
    from r(1) have v: "validate_all rs0 = Inr rs1" "unique_ids rs1" "length rs0 \<le> 16"
      by (auto simp: validate_registry_def bindE_Inr_iff MAX_PROVIDERS_def split: if_splits)
    from assms rs raw have "st_registry st = rs" "st_hosts st = ?hosts" "st_state st = ''VALIDATED''"
      by (auto simp: load_settings_def Let_def)
    with normalize_all_wf [OF v(1) r(2)] v(2,3) show ?thesis by (simp add: unique_ids_def)
  next
    case False
    with assms show ?thesis
      by (auto simp: load_settings_def Let_def failed_closed_def unique_ids_def split: if_splits sum.splits)
  qed
qed

text \<open>
  C20. Settings in force are well formed. Whatever the environment holds and however it is read,
  loaded settings are in one of three states; a broken registry leaves no provider and no egress;
  and every provider of a registry in force is well formed: bounded identifiers, known and distinct
  classifications, an HTTPS provider with a URL on an allow-listed name (no address literal, no
  localhost) and a credential variable, a loopback provider with the fixed endpoint, no credential
  and a SHA-256 pin for each alias; identifiers are unique and there are at most sixteen.
\<close>

theorem settings_well_formed:
  assumes "load_settings s typed = Inr st"
  shows "list_all (provider_wf (st_hosts st)) (st_registry st) \<and> unique_ids (st_registry st) \<and> length (st_registry st) \<le> 16
    \<and> (st_state st = ''VALIDATED''
       \<or> st_state st = ''UNAVAILABLE_NOT_CONFIGURED'' \<and> st_registry st = []
       \<or> st = failed_closed (st_hosts st) \<and> st_registry st = [] \<and> \<not> st_egress st)"
  using assms by (rule load_settings_wf)

definition demo_record :: provider_record where
  "demo_record = \<lparr>pr_id = ''edge'', pr_type = OpenaiHttps, pr_base_url = Some ''https://api.example.org/v1/'',
     pr_models = [(''m'', ''team/m'')], pr_digests = [], pr_weights = [], pr_token_env = Some ''EDGE_KEY'', pr_priority = 10,
     pr_sovereignty = 50, pr_cost_tier = 1, pr_classes = [''Public'', ''internal''], pr_enabled = True\<rparr>"

definition registry_sys :: sys where
  "registry_sys = small_sys\<lparr>s_env := (\<lambda>k. if k = ''SZL_ROUTER_PROVIDERS_JSON'' then Some ''{}''
     else if k = ''SZL_ROUTER_ALLOWED_HOSTS'' then Some ''API.example.org., other'' else None)\<rparr>"

theorem settings_well_formed_witness:
  "\<exists>st r. load_settings registry_sys (\<lambda>_. Inr [demo_record]) = Inr st \<and> st_registry st = [r]
     \<and> provider_wf [''api.example.org'', ''other''] r \<and> pr_base_url r = Some ''https://api.example.org/v1''"
proof -
  have "case load_settings registry_sys (\<lambda>_. Inr [demo_record]) of
      Inl e \<Rightarrow> False
    | Inr st \<Rightarrow> st_hosts st = [''api.example.org'', ''other''] \<and> length (st_registry st) = 1
        \<and> pr_base_url (hd (st_registry st)) = Some ''https://api.example.org/v1''"
    by code_simp
  then obtain st where st: "load_settings registry_sys (\<lambda>_. Inr [demo_record]) = Inr st"
    "st_hosts st = [''api.example.org'', ''other'']" "length (st_registry st) = 1"
    "pr_base_url (hd (st_registry st)) = Some ''https://api.example.org/v1''"
    by (auto split: sum.splits)
  then obtain r where "st_registry st = [r]" by (cases "st_registry st") auto
  with st settings_well_formed [OF st(1)] show ?thesis by auto
qed

section \<open>The plan ranks the eligible providers\<close>

lemma route_candidates_perm:
  "mset (map cd_record (route_candidates e st q)) = mset (filter (eligible q) (st_registry st))"
proof -
  have "map cd_record (map (candidate_of e q) rs) = rs" for rs
    by (induction rs) (simp_all add: candidate_of_def)
  moreover have "mset (map cd_record (sort_key rank cs)) = mset (map cd_record cs)" for cs
    by simp
  ultimately show ?thesis unfolding route_candidates_def by metis
qed

text \<open>\<open>provider_by_id\<close> finds the record of a candidate, since identifiers are unique.\<close>

lemma candidate_in: "c \<in> set (route_candidates e st q) \<longleftrightarrow> (\<exists>r \<in> set (st_registry st). eligible q r \<and> c = candidate_of e q r)"
  by (auto simp: route_candidates_def)

lemma find_unique: "distinct (map f xs) \<Longrightarrow> x \<in> set xs \<Longrightarrow> find (\<lambda>y. f y = f x) xs = Some x"
  by (induction xs) auto

lemma provider_by_id_candidate:
  "unique_ids (st_registry st) \<Longrightarrow> c \<in> set (route_candidates e st q) \<Longrightarrow> provider_by_id st (cd_provider c) = Some (cd_record c)"
  using find_unique [of pr_id "st_registry st"] by (auto simp: candidate_in unique_ids_def provider_by_id_def candidate_of_def)

lemma candidates_distinct: "unique_ids (st_registry st) \<Longrightarrow> distinct (map cd_provider (route_candidates e st q))"
proof -
  assume u: "unique_ids (st_registry st)"
  have own: "cd_provider \<circ> candidate_of e q = pr_id" by (auto simp: candidate_of_def)
  have "mset (map cd_provider (route_candidates e st q)) = mset (map pr_id (filter (eligible q) (st_registry st)))"
    unfolding route_candidates_def by (simp add: image_mset.compositionality own)
  moreover have "distinct (map pr_id (filter (eligible q) (st_registry st)))"
    using u by (simp add: unique_ids_def distinct_map_filter)
  ultimately show ?thesis using mset_eq_imp_distinct_iff by blast
qed

lemma plan_total: "\<exists>h n. plan s st q = Inr (plan_body st q (route_candidates (s_env s) st q)
    @ [(''receipt'', JObj [(''algorithm'', JStr ''sha256''), (''digest'', JStr h), (''canonical_bytes'', JInt n)])])
    \<and> json_digest s (JObj (plan_body st q (route_candidates (s_env s) st q))) = Inr h"
proof -
  have "json_finite_list (map (candidate_json q) cs)" for cs
    by (induction cs) (simp_all add: candidate_json_def Let_def opt_str_def split: option.split)
  then have "json_finite (JObj (plan_body st q cs))" for cs
    by (simp add: plan_body_def opt_str_def split: option.split list.split)
  then show ?thesis by (simp add: plan_def Let_def json_digest_def Verification.canonical_def dumps_finite_def)
qed


end
