(* ===== verification/ControlChat.thy ===== *)
theory ControlChat
  imports Control
begin

text \<open>
  \<open>router_control/app.py\<close>, inference: the identity of a local model, the call to a provider, the check
  of a completion, and the handler of \<open>/v1/chat/completions\<close> with its receipts.

  The network is a parameter: the \<open>k\<close>-th request put on a connection gets the answer \<open>cs_http k\<close>,
  which may also be that the surrounding \<open>wait_for\<close> expired while it was awaited (\<open>Expired\<close>), at any
  await of the handler. Bodies are bounded as the code reads them, chunk after chunk. The log
  \<open>ct_log\<close> holds every request sent.
\<close>

section \<open>Requests\<close>

record message =
  ms_role :: string
  ms_content :: string
  ms_name :: "string option"

datatype stop_arg = NoStop | StopText string | StopList "string list"

record chat_request =
  cr_model :: string
  cr_required :: "string option"
  cr_messages :: "message list"
  cr_temperature :: json       \<comment> \<open>a number or \<open>None\<close>, as are the next two\<close>
  cr_top_p :: json
  cr_max_tokens :: json
  cr_stream :: bool
  cr_stop :: stop_arg
  cr_user :: "string option"
  cr_class :: string
  cr_max_cost :: int

definition classification :: "string \<Rightarrow> exn + string" where
  "classification value = (let normalized = lower value in
     if normalized \<notin> set CLASSIFICATIONS then Inl (ValidationError ''unsupported data classification'') else Inr normalized)"

definition bounded_stop :: "stop_arg \<Rightarrow> bool" where
  "bounded_stop v = (let values = (case v of NoStop \<Rightarrow> [] | StopText t \<Rightarrow> [t] | StopList ts \<Rightarrow> ts) in
     length values \<le> 8 \<and> list_all (\<lambda>t. length t \<le> 256) values)"

text \<open>The validators of \<open>ChatRequest\<close>, on typed fields.\<close>

definition validate_chat :: "chat_request \<Rightarrow> exn + chat_request" where
  "validate_chat q =
     bindE (classification (cr_class q)) (\<lambda>c.
     if \<not> bounded_stop (cr_stop q) then Inl (ValidationError ''stop sequence bounds exceeded'')
     else if 96000 < sum_list (map (length \<circ> ms_content) (cr_messages q))
     then Inl (ValidationError ''total message content exceeds 96000 characters'')
     else if cr_stream q then Inl (ValidationError ''streaming is unavailable in receipt-verified v1'')
     else Inr (q\<lparr>cr_class := c\<rparr>))"

definition stop_json :: "stop_arg \<Rightarrow> json" where
  "stop_json v = (case v of NoStop \<Rightarrow> JNull | StopText t \<Rightarrow> JStr t | StopList ts \<Rightarrow> JArr (map JStr ts))"

text \<open>\<open>model_dump(mode="json")\<close>, with and without the fields that are \<open>None\<close>.\<close>

definition message_json :: "message \<Rightarrow> json" where
  "message_json m = JObj [(''role'', JStr (ms_role m)), (''content'', JStr (ms_content m)), (''name'', opt_str (ms_name m))]"

definition message_payload :: "message \<Rightarrow> json" where
  "message_payload m = JObj ([(''role'', JStr (ms_role m)), (''content'', JStr (ms_content m))]
     @ (case ms_name m of None \<Rightarrow> [] | Some n \<Rightarrow> [(''name'', JStr n)]))"

definition request_json :: "chat_request \<Rightarrow> json" where
  "request_json q = JObj [
     (''model'', JStr (cr_model q)), (''required_provider_id'', opt_str (cr_required q)),
     (''messages'', JArr (map message_json (cr_messages q))), (''temperature'', cr_temperature q),
     (''top_p'', cr_top_p q), (''max_tokens'', cr_max_tokens q), (''stream'', JBool (cr_stream q)),
     (''stop'', stop_json (cr_stop q)), (''user'', opt_str (cr_user q)),
     (''data_classification'', JStr (cr_class q)), (''max_cost_tier'', JInt (cr_max_cost q))]"

definition upstream_payload :: "chat_request \<Rightarrow> string \<Rightarrow> json" where
  "upstream_payload q upstream_model = JObj ([
     (''model'', JStr upstream_model), (''messages'', JArr (map message_payload (cr_messages q))), (''stream'', JBool False)]
     @ filter (\<lambda>(k, v). v \<noteq> JNull) [(''temperature'', cr_temperature q), (''top_p'', cr_top_p q),
         (''max_tokens'', cr_max_tokens q), (''stop'', stop_json (cr_stop q)), (''user'', opt_str (cr_user q))])"

section \<open>The network\<close>

datatype http_result =
    Answered int "string list"   \<comment> \<open>status and the chunks of the body\<close>
  | TimedOut string              \<comment> \<open>\<open>httpx.TimeoutException\<close>, by class\<close>
  | Broken string                \<comment> \<open>any other \<open>httpx.HTTPError\<close>, by class\<close>
  | Slow                         \<comment> \<open>an inner \<open>wait_for\<close> of five seconds expires\<close>
  | Expired                      \<comment> \<open>the \<open>wait_for\<close> around the attempt expires\<close>

datatype sent = GetInventory string | PostChat string string json "string option"
  \<comment> \<open>the kind of inventory; provider id, URL, payload and credential of a completion\<close>

record control_sys =
  cs_sys :: sys
  cs_scan :: scanner
  cs_typed :: "json \<Rightarrow> exn + provider_record list"
  cs_http :: "nat \<Rightarrow> http_result"
  cs_clock :: "nat \<Rightarrow> rat"           \<comment> \<open>\<open>time.monotonic()\<close>\<close>
  cs_store :: store_sys
  cs_store_wait :: "nat \<Rightarrow> http_result option"  \<comment> \<open>whether a timeout strikes the byte check\<close>

record control =
  ct_log :: "sent list"
  ct_ticks :: nat
  ct_store :: "nat \<times> nat"    \<comment> \<open>the semaphore of the byte check, and its steps\<close>

text \<open>What ends an attempt other than with an answer.\<close>

datatype failure =
    Identity string          \<comment> \<open>\<open>ModelIdentityError\<close>, by state\<close>
  | AttemptExpired           \<comment> \<open>\<open>asyncio.TimeoutError\<close>\<close>
  | HttpxTimeout string
  | HttpStatus int
  | Contract string          \<comment> \<open>another \<open>httpx.HTTPError\<close>, \<open>RuntimeError\<close>, \<open>ValueError\<close>, by class\<close>
  | Escapes exn              \<comment> \<open>an exception the handler does not catch\<close>

definition send :: "control_sys \<Rightarrow> sent \<Rightarrow> control \<Rightarrow> http_result \<times> control" where
  "send s q w = (cs_http s (length (ct_log w)), w\<lparr>ct_log := ct_log w @ [q]\<rparr>)"

definition control_clock :: "control_sys \<Rightarrow> control \<Rightarrow> rat \<times> control" where
  "control_clock s w = (cs_clock s (ct_ticks w), w\<lparr>ct_ticks := Suc (ct_ticks w)\<rparr>)"

text \<open>The chunks are added up until they exceed the limit.\<close>

fun gather :: "nat \<Rightarrow> string \<Rightarrow> string list \<Rightarrow> string option" where
  "gather limit data [] = Some data"
| "gather limit data (c # cs) =
     (if limit < length data + length c then None else gather limit (data @ c) cs)"

section \<open>The identity of a local model\<close>

definition invalid_inventory :: failure where
  "invalid_inventory = Identity ''DAEMON_INVENTORY_INVALID''"

definition inventory_hooks :: "sys \<Rightarrow> hooks" where
  "inventory_hooks s = \<lparr>h_float = plain_float s, h_const = (\<lambda>_. Inl (ValueError ''DAEMON_INVENTORY_INVALID'')),
     h_object = unique_object (ValueError ''DAEMON_INVENTORY_INVALID'')\<rparr>"

fun inventory_rows :: "json list \<Rightarrow> string dict \<Rightarrow> string dict option" where
  "inventory_rows [] acc = Some acc"
| "inventory_rows (m # ms) acc =
     (case m of
        JObj d \<Rightarrow>
          (case (dget_or_null d ''name'', dget_or_null d ''digest'') of
             (JStr name, JStr pin) \<Rightarrow>
               if \<not> ollama_model_name name \<or> \<not> hex64 pin \<or> has_key acc name then None
               else inventory_rows ms (acc @ [(name, pin)])
           | _ \<Rightarrow> None)
      | _ \<Rightarrow> None)"

text \<open>Every failure of decoding, or of the hooks, is the same state, except what is no \<open>ValueError\<close>.\<close>

definition read_inventory :: "control_sys \<Rightarrow> string \<Rightarrow> failure + string dict" where
  "read_inventory s raw =
     (case s_decode (cs_sys s) raw of
        None \<Rightarrow> Inl invalid_inventory
      | Some t \<Rightarrow>
      (case bindE (cs_scan s t) (decode (inventory_hooks (cs_sys s))) of
        Inl e \<Rightarrow> Inl (if is_value_error e \<or> exn_class e = ''RecursionError'' then invalid_inventory else Escapes e)
      | Inr value \<Rightarrow>
          if \<not> within_limits MAX_JSON_DEPTH MAX_JSON_NODES value then Inl invalid_inventory
          else (case jget value ''models'' of
            JArr models \<Rightarrow>
              if 512 < length models then Inl invalid_inventory
              else (case inventory_rows models [] of None \<Rightarrow> Inl invalid_inventory | Some rows \<Rightarrow> Inr rows)
          | _ \<Rightarrow> Inl invalid_inventory)))"

text \<open>One inventory; a transport failure or the inner timeout makes it unavailable to the caller.\<close>

definition ollama_inventory :: "control_sys \<Rightarrow> string \<Rightarrow> control \<Rightarrow> (failure + string dict) \<times> control" where
  "ollama_inventory s kind w =
     (let (r, w') = send s (GetInventory kind) w in
      (case r of
         Answered status parts \<Rightarrow>
           if status \<noteq> 200 then Inl (Identity ''DAEMON_INVENTORY_UNAVAILABLE'')
           else (case gather 262144 [] parts of None \<Rightarrow> Inl invalid_inventory | Some raw \<Rightarrow> read_inventory s raw)
       | Expired \<Rightarrow> Inl AttemptExpired
       | _ \<Rightarrow> Inl (Identity ''DAEMON_INVENTORY_UNAVAILABLE''), w'))"

record identity =
  id_expected :: string
  id_observed :: string
  id_resident :: "string option"

definition judge_identity :: "string \<Rightarrow> string option \<Rightarrow> string option \<Rightarrow> bool \<Rightarrow> failure + identity" where
  "judge_identity expected tagged resident after_completion =
     (case tagged of
        None \<Rightarrow> Inl (Identity ''MODEL_ABSENT'')
      | Some seen \<Rightarrow>
          if seen \<noteq> expected then Inl (Identity ''MODEL_DIGEST_MISMATCH'')
          else if resident \<noteq> None \<and> resident \<noteq> Some expected then Inl (Identity ''RESIDENT_DIGEST_MISMATCH'')
          else if after_completion \<and> resident = None then Inl (Identity ''RESIDENT_MODEL_UNAVAILABLE'')
          else Inr \<lparr>id_expected = expected, id_observed = seen, id_resident = resident\<rparr>)"

text \<open>The alias is one of the provider's models, so that both lookups succeed.\<close>

definition value_at :: "string dict \<Rightarrow> string \<Rightarrow> string" where
  "value_at d k = (case dget d k of None \<Rightarrow> [] | Some v \<Rightarrow> v)"

definition assert_ollama_identity ::
  "control_sys \<Rightarrow> provider_record \<Rightarrow> string \<Rightarrow> bool \<Rightarrow> control \<Rightarrow> (failure + identity) \<times> control" where
  "assert_ollama_identity s r public_model after_completion w =
     (case ollama_inventory s ''tags'' w of
        (Inl e, w1) \<Rightarrow> (Inl e, w1)
      | (Inr tags, w1) \<Rightarrow>
          (case ollama_inventory s ''ps'' w1 of
             (Inl e, w2) \<Rightarrow> (Inl e, w2)
           | (Inr running, w2) \<Rightarrow>
               let upstream = value_at (pr_models r) public_model in
               (judge_identity (value_at (pr_digests r) public_model) (dget tags upstream) (dget running upstream)
                  after_completion, w2)))"

text \<open>The byte check runs in a thread; a timeout of its own or of the attempt can strike while it does.\<close>

definition local_store_state :: "exn \<Rightarrow> failure" where
  "local_store_state e = (case e of
     PyError c m \<Rightarrow> if c = ''LocalStoreError'' then Identity m
                   else if is_value_error e then Contract c else Escapes e
   | _ \<Rightarrow> Escapes e)"

definition observe_store_bytes ::
  "control_sys \<Rightarrow> provider_record \<Rightarrow> string \<Rightarrow> control \<Rightarrow> (failure + jdict) \<times> control" where
  "observe_store_bytes s r public_model w =
     (let (res, st) = verify_store_bytes (cs_store s) (value_at (pr_models r) public_model)
            (value_at (pr_digests r) public_model) (value_at (pr_weights r) public_model)
            (env_get (s_env (cs_sys s)) ''SZL_ROUTER_OLLAMA_MODELS_DIR'' []) (ct_store w);
          w' = w\<lparr>ct_store := st\<rparr>
      in (case cs_store_wait s (snd (ct_store w)) of
            Some Expired \<Rightarrow> Inl AttemptExpired
          | Some _ \<Rightarrow> Inl (Identity ''LOCAL_STORE_CHECK_TIMEOUT'')
          | None \<Rightarrow> map_sum local_store_state id res, w'))"


section \<open>One attempt\<close>

definition plain_hooks :: "sys \<Rightarrow> hooks" where
  "plain_hooks s = \<lparr>h_float = plain_float s,
     h_const = (\<lambda>c. Inr (JFloat (if c = ''NaN'' then NaN else if c = ''Infinity'' then PInf else NInf))),
     h_object = plain_object\<rparr>"

definition read_completion :: "control_sys \<Rightarrow> string \<Rightarrow> failure + jdict" where
  "read_completion s raw =
     (case s_decode (cs_sys s) raw of
        None \<Rightarrow> Inl (Contract ''RuntimeError'')
      | Some t \<Rightarrow>
      (case bindE (cs_scan s t) (decode (plain_hooks (cs_sys s))) of
        Inl e \<Rightarrow> Inl (if is_value_error e \<or> exn_class e = ''RecursionError'' then Contract ''RuntimeError'' else Escapes e)
      | Inr value \<Rightarrow>
          if \<not> within_limits MAX_JSON_DEPTH MAX_JSON_NODES value then Inl (Contract ''RuntimeError'')
          else (case value of JObj d \<Rightarrow> Inr d | _ \<Rightarrow> Inl (Contract ''RuntimeError''))))"

text \<open>One attempt at a provider. The record is the one \<open>provider_by_id\<close> finds (\<open>provider_by_id_candidate\<close>).\<close>

definition provider_token :: "env \<Rightarrow> provider_record \<Rightarrow> string" where
  "provider_token e r = (case pr_token_env r of None \<Rightarrow> [] | Some t \<Rightarrow> if t = [] then [] else env_get e t [])"

definition completion_url :: "provider_record \<Rightarrow> string" where
  "completion_url r =
     rstrip_by (\<lambda>c. c = CHR ''/'')
       (case pr_type r of
          OllamaLoopback \<Rightarrow> ''http://127.0.0.1:11434/v1''
        | OpenaiHttps \<Rightarrow> (case pr_base_url r of None \<Rightarrow> [] | Some u \<Rightarrow> u)) @ ''/chat/completions''"

text \<open>There is no inner \<open>wait_for\<close> around a completion; a \<open>Slow\<close> here is the attempt's own.\<close>

definition call_provider ::
  "control_sys \<Rightarrow> provider_record \<Rightarrow> json \<Rightarrow> control \<Rightarrow> (failure + jdict \<times> int) \<times> control" where
  "call_provider s r payload w =
     (let token = provider_token (s_env (cs_sys s)) r in
      if pr_type r = OpenaiHttps \<and> token = [] then (Inl (Contract ''RuntimeError''), w)
      else let (res, w') = send s (PostChat (pr_id r) (completion_url r) payload
                                     (if token = [] then None else Some (''Bearer '' @ token))) w
           in (case res of
                 Answered status parts \<Rightarrow>
                   (case gather 2000000 [] parts of
                      None \<Rightarrow> Inl (Contract ''RuntimeError'')
                    | Some raw \<Rightarrow>
                        if status \<noteq> 200 then Inl (HttpStatus status)
                        else map_sum id (\<lambda>d. (d, status)) (read_completion s raw))
               | TimedOut c \<Rightarrow> Inl (HttpxTimeout c)
               | Broken c \<Rightarrow> Inl (Contract c)
               | Slow \<Rightarrow> Inl AttemptExpired
               | Expired \<Rightarrow> Inl AttemptExpired, w'))"

definition text_or_none :: "json \<Rightarrow> bool" where
  "text_or_none j = (case j of JNull \<Rightarrow> True | JStr _ \<Rightarrow> True | _ \<Rightarrow> False)"

definition tool_calls_ok :: "json \<Rightarrow> bool" where
  "tool_calls_ok calls = (case calls of
     JNull \<Rightarrow> True
   | JArr cs \<Rightarrow> list_all (\<lambda>c. is_obj c \<and> obj_items c \<noteq> []) cs
   | _ \<Rightarrow> False)"

definition choice_ok :: "json \<Rightarrow> bool" where
  "choice_ok choice =
     (case jget choice ''message'' of
        JObj message \<Rightarrow>
          dget_or_null message ''role'' = JStr ''assistant''
          \<and> list_ex (has_key message) [''content'', ''refusal'', ''tool_calls'', ''function_call'', ''audio'']
          \<and> list_all (\<lambda>k. text_or_none (dget_or_null message k)) [''content'', ''refusal'']
          \<and> tool_calls_ok (dget_or_null message ''tool_calls'')
      | _ \<Rightarrow> False)"

text \<open>Whether \<open>validate_completion\<close> returns; otherwise it raises \<open>RuntimeError\<close>.\<close>

definition completion_ok :: "jdict \<Rightarrow> bool" where
  "completion_ok value \<longleftrightarrow> dget_or_null value ''error'' = JNull \<and> \<not> has_key value ''szl_receipt''
     \<and> (case dget_or_null value ''choices'' of
          JArr choices \<Rightarrow> choices \<noteq> [] \<and> list_all choice_ok choices | _ \<Rightarrow> False)"

definition identity_block :: "string \<Rightarrow> identity \<Rightarrow> identity \<Rightarrow> jdict option \<Rightarrow> jdict" where
  "identity_block expected before after store = [
     (''state'', JStr ''LOCAL_DAEMON_REPORTED_MATCH''), (''basis'', JStr ''OLLAMA_TAGS_AND_RUNNING_MODELS_PRE_POST''),
     (''expected_digest'', JStr expected),
     (''pre_request_manifest_digest'', JStr (id_observed before)), (''pre_request_resident_digest'', opt_str (id_resident before)),
     (''post_request_manifest_digest'', JStr (id_observed after)), (''post_request_resident_digest'', opt_str (id_resident after)),
     (''independent_attestation'', JStr ''UNAVAILABLE''), (''license_state'', JStr ''NOT_VERIFIED'')]
     @ (case store of None \<Rightarrow> [] | Some b \<Rightarrow> [(''local_store_bytes'', JObj b)])"

text \<open>What runs before the request to a loopback provider: the identity and, if pinned, the bytes.\<close>

definition local_before ::
  "control_sys \<Rightarrow> provider_record \<Rightarrow> chat_request \<Rightarrow> control \<Rightarrow> (failure + (identity \<times> jdict option) option) \<times> control" where
  "local_before s r q w =
     (if pr_type r = OpenaiHttps then (Inr None, w)
      else case assert_ollama_identity s r (cr_model q) False w of
        (Inl e, w1) \<Rightarrow> (Inl e, w1)
      | (Inr before, w1) \<Rightarrow>
          if \<not> has_key (pr_weights r) (cr_model q) then (Inr (Some (before, None)), w1)
          else (case observe_store_bytes s r (cr_model q) w1 of
            (Inl e, w2) \<Rightarrow> (Inl e, w2)
          | (Inr b, w2) \<Rightarrow> (Inr (Some (before, Some b)), w2)))"

definition attempt_candidate ::
  "control_sys \<Rightarrow> provider_record \<Rightarrow> chat_request \<Rightarrow> string \<Rightarrow> control \<Rightarrow> (failure + jdict \<times> int \<times> jdict option) \<times> control" where
  "attempt_candidate s r q upstream_model w =
     (case local_before s r q w of
        (Inl e, w1) \<Rightarrow> (Inl e, w1)
      | (Inr before, w1) \<Rightarrow>
      (case call_provider s r (upstream_payload q upstream_model) w1 of
        (Inl e, w2) \<Rightarrow> (Inl e, w2)
      | (Inr (upstream, status), w2) \<Rightarrow>
          if \<not> completion_ok upstream then (Inl (Contract ''RuntimeError''), w2)
          else (case before of
            None \<Rightarrow> (Inr (upstream, status, None), w2)
          | Some (id1, store) \<Rightarrow>
              if dget_or_null upstream ''model'' \<noteq> JStr upstream_model
              then (Inl (Identity ''COMPLETION_MODEL_MISMATCH''), w2)
              else (case assert_ollama_identity s r (cr_model q) True w2 of
                (Inl e, w3) \<Rightarrow> (Inl e, w3)
              | (Inr id2, w3) \<Rightarrow>
                  (Inr (upstream, status, Some (identity_block (value_at (pr_digests r) (cr_model q)) id1 id2 store)), w3)))))"

section \<open>The handler\<close>

datatype control_answer =
    Reply int jdict "string dict"
  | Refused int jdict "string dict"    \<comment> \<open>\<open>HTTPException\<close>: status, detail, headers\<close>
  | Crashed exn

definition detail_code :: "string \<Rightarrow> jdict" where
  "detail_code c = [(''code'', JStr c)]"

definition attempt_row :: "string \<Rightarrow> string \<Rightarrow> jdict \<Rightarrow> jdict" where
  "attempt_row pid state rest = [(''provider_id'', JStr pid), (''state'', JStr state)] @ rest"

definition unknown_outcome :: jdict where
  "unknown_outcome = [(''outcome'', JStr ''UNKNOWN'')]"

text \<open>The digests every receipt of one call shares.\<close>

record call_ids =
  ci_request :: string
  ci_plan :: string

definition failure_body :: "call_ids \<Rightarrow> jdict list \<Rightarrow> string \<Rightarrow> jdict \<Rightarrow> jdict" where
  "failure_body ids attempts state rest = [
     (''schema'', JStr ''szl.router-receipt/v1''), (''request_digest'', JStr (ci_request ids)),
     (''plan_digest'', JStr (ci_plan ids)), (''attempts'', JArr (map JObj attempts)),
     (''secret_material_recorded'', JBool False), (''state'', JStr state)] @ rest"

text \<open>The digest closes the failure; every value in it is finite, so that it is never an error.\<close>

definition refuse :: "control_sys \<Rightarrow> int \<Rightarrow> jdict \<Rightarrow> control_answer" where
  "refuse s status body =
     (case json_digest (cs_sys s) (JObj body) of
        Inl e \<Rightarrow> Crashed e
      | Inr h \<Rightarrow> Refused status (body @ [(''digest'', JStr h)]) [])"

definition no_retry :: jdict where
  "no_retry = [(''automatic_retry_safe'', JBool False), (''reconciliation'', JStr ''REQUIRED_BEFORE_RETRY'')]"

definition success_body ::
  "call_ids \<Rightarrow> chat_request \<Rightarrow> candidate \<Rightarrow> jdict list \<Rightarrow> rat \<Rightarrow> string \<Rightarrow> jdict option \<Rightarrow> jdict" where
  "success_body ids q c attempts elapsed_ms response identity = [
     (''schema'', JStr ''szl.router-receipt/v1''), (''request_digest'', JStr (ci_request ids)),
     (''plan_digest'', JStr (ci_plan ids)), (''provider_id'', JStr (cd_provider c)),
     (''public_model'', JStr (cr_model q)), (''upstream_model'', JStr (cd_upstream c)),
     (''classification'', JStr (cr_class q)), (''attempts'', JArr (map JObj attempts)),
     (''elapsed_ms'', JFloat (Fin elapsed_ms)), (''response_digest'', JStr response),
     (''secret_material_recorded'', JBool False)]
     @ (case identity of None \<Rightarrow> [] | Some b \<Rightarrow> [(''model_identity'', JObj b)])"

text \<open>
  Sealing an answer: the receipt closed by its digest goes into the completion, and the bundle of
  both is read back and verified before anything is returned.
\<close>

definition seal ::
  "control_sys \<Rightarrow> call_ids \<Rightarrow> chat_request \<Rightarrow> candidate \<Rightarrow> jdict list \<Rightarrow> rat \<Rightarrow> jdict \<Rightarrow> jdict option \<Rightarrow> exn + jdict \<times> string" where
  "seal s ids q c attempts elapsed_ms upstream identity =
     (let z = cs_sys s; request = request_json q in
      bindE (json_digest z (JObj upstream)) (\<lambda>response.
      let body = success_body ids q c attempts elapsed_ms response identity in
      bindE (json_digest z (JObj body)) (\<lambda>h.
      let result = dset ''szl_receipt'' (JObj (body @ [(''digest'', JStr h), (''algorithm'', JStr ''sha256'')])) upstream in
      bindE (Verification.canonical z (JObj [(''completion'', JObj result), (''request'', request)])) (\<lambda>text.
      bindE (parse_bundle z (cs_scan s) text) (\<lambda>bundle.
      bindE (verify_completion z (obj_items (dget_or_null bundle ''completion'')) (dget_or_null bundle ''request'') None) (\<lambda>v.
        if dget_or_null v ''status'' \<noteq> JStr ''CONSISTENT'' then Inl (PyError ''RuntimeError'' [])
        else Inr (result, h)))))))"

text \<open>How one candidate ends: with an answer, by going on, or by leaving the loop.\<close>

datatype turn = Finish control_answer | Next "jdict list" | Leave "jdict list"

text \<open>The clock is read on expiry only when the attempt was not limited by the route already.\<close>

definition on_failure ::
  "control_sys \<Rightarrow> call_ids \<Rightarrow> chat_request \<Rightarrow> provider_record \<Rightarrow> rat \<Rightarrow> bool \<Rightarrow> jdict list \<Rightarrow> failure \<Rightarrow> control \<Rightarrow> turn \<times> control" where
  "on_failure s ids q r deadline route_limited attempts f w =
     (case f of
        Identity state \<Rightarrow>
          (Finish (refuse s 503 (failure_body ids (attempts @ [attempt_row (pr_id r) state []]) ''LOCAL_MODEL_IDENTITY_UNAVAILABLE'' [])), w)
      | AttemptExpired \<Rightarrow>
          let (now_t, w') = (if route_limited then (deadline, w) else control_clock s w);
              route_expired = (route_limited \<or> deadline \<le> now_t)
          in if pr_type r = OllamaLoopback \<and> has_key (pr_weights r) (cr_model q)
             then (Finish (refuse s 503 (failure_body ids
                     (attempts @ [attempt_row (pr_id r) ''LOCAL_ROUTE_DEADLINE_EXCEEDED'' unknown_outcome])
                     ''LOCAL_ROUTE_UNAVAILABLE'' no_retry)), w')
             else (Leave (attempts @ [attempt_row (pr_id r)
                     (if route_expired then ''ROUTE_DEADLINE_EXCEEDED'' else ''UPSTREAM_DEADLINE_EXCEEDED'') unknown_outcome]), w')
      | HttpxTimeout c \<Rightarrow> (Leave (attempts @ [attempt_row (pr_id r) ''UPSTREAM_DEADLINE_EXCEEDED'' unknown_outcome]), w)
      | HttpStatus status \<Rightarrow>
          let rows = attempts @ [attempt_row (pr_id r) ''UPSTREAM_HTTP_ERROR'' [(''status_code'', JInt status)]]
          in (if 400 \<le> status \<and> status < 500 \<and> status \<noteq> 429 then Leave rows else Next rows, w)
      | Contract c \<Rightarrow> (Next (attempts @ [attempt_row (pr_id r) ''TRANSPORT_OR_CONTRACT_ERROR'' [(''error_type'', JStr c)]]), w)
      | Escapes e \<Rightarrow> (Finish (Crashed e), w))"

definition contract_failure :: "exn \<Rightarrow> failure" where
  "contract_failure e = (if is_value_error e \<or> exn_class e = ''RuntimeError'' then Contract (exn_class e) else Escapes e)"

definition try_candidate ::
  "control_sys \<Rightarrow> call_ids \<Rightarrow> chat_request \<Rightarrow> rat \<Rightarrow> candidate \<Rightarrow> jdict list \<Rightarrow> control \<Rightarrow> turn \<times> control" where
  "try_candidate s ids q started c attempts w =
     (let r = cd_record c; deadline = started + 660; (t, w0) = control_clock s w; remaining = deadline - t in
      if remaining \<le> 0 then (Leave (attempts @ [attempt_row (pr_id r) ''ROUTE_DEADLINE_EXCEEDED'' []]), w0)
      else if credential_state (s_env (cs_sys s)) r = ''UNAVAILABLE''
      then (Next (attempts @ [attempt_row (pr_id r) ''SKIPPED_CREDENTIAL_UNAVAILABLE'' []]), w0)
      else let route_limited = (remaining \<le> 45) in
        (case attempt_candidate s r q (cd_upstream c) w0 of
           (Inl f, w1) \<Rightarrow> on_failure s ids q r deadline route_limited attempts f w1
         | (Inr (upstream, status, identity), w1) \<Rightarrow>
             let (t1, w2) = control_clock s w1;
                 rows = attempts @ [attempt_row (pr_id r) ''SUCCESS'' [(''status_code'', JInt status)]]
             in (case seal s ids q c rows (py_round 3 ((t1 - started) * 1000)) upstream identity of
                   Inl e \<Rightarrow> on_failure s ids q r deadline route_limited attempts (contract_failure e) w2
                 | Inr (result, h) \<Rightarrow>
                     (Finish (Reply 200 result [(''X-SZL-Receipt'', h), (''Cache-Control'', ''no-store'')]), w2))))"

fun chat_loop ::
  "control_sys \<Rightarrow> call_ids \<Rightarrow> chat_request \<Rightarrow> rat \<Rightarrow> candidate list \<Rightarrow> jdict list \<Rightarrow> control \<Rightarrow> (control_answer + jdict list) \<times> control" where
  "chat_loop s ids q started [] attempts w = (Inr attempts, w)"
| "chat_loop s ids q started (c # cs) attempts w =
     (case try_candidate s ids q started c attempts w of
        (Finish a, w') \<Rightarrow> (Inl a, w')
      | (Next rows, w') \<Rightarrow> chat_loop s ids q started cs rows w'
      | (Leave rows, w') \<Rightarrow> (Inr rows, w'))"

definition ambiguous :: "jdict list \<Rightarrow> bool" where
  "ambiguous attempts = list_ex (\<lambda>row. dget_or_null row ''outcome'' = JStr ''UNKNOWN'') attempts"

definition all_failed_answer :: "control_sys \<Rightarrow> call_ids \<Rightarrow> jdict list \<Rightarrow> control_answer" where
  "all_failed_answer s ids attempts =
     (if ambiguous attempts
      then refuse s 504 (failure_body ids attempts ''ATTEMPT_OUTCOME_UNKNOWN'' no_retry)
      else refuse s 502 (failure_body ids attempts ''ALL_ELIGIBLE_PROVIDERS_FAILED'' []))"

definition plan_of_chat :: "chat_request \<Rightarrow> plan_request" where
  "plan_of_chat q = \<lparr>pq_model = cr_model q, pq_required = cr_required q, pq_class = cr_class q, pq_max_cost = cr_max_cost q\<rparr>"

definition dispatch_chat :: "control_sys \<Rightarrow> settings \<Rightarrow> chat_request \<Rightarrow> control \<Rightarrow> control_answer \<times> control" where
  "dispatch_chat s st q w =
     (let z = cs_sys s; pq = plan_of_chat q; cs = route_candidates (s_env z) st pq in
      case plan z st pq of
        Inl e \<Rightarrow> (Crashed e, w)
      | Inr p \<Rightarrow>
          if cs = [] then (Refused 503 [(''code'', JStr ''NO_ELIGIBLE_PROVIDER''),
              (''message'', JStr ''No configured provider satisfies model, classification, and cost policy.'')] [], w)
          else (case json_digest z (request_json q) of
            Inl e \<Rightarrow> (Crashed e, w)
          | Inr request \<Rightarrow>
              let ids = \<lparr>ci_request = request, ci_plan = (case jget (dget_or_null p ''receipt'') ''digest'' of JStr h \<Rightarrow> h | _ \<Rightarrow> [])\<rparr>;
                  (started, w0) = control_clock s w
              in (case chat_loop s ids q started cs [] w0 of
                    (Inl a, w') \<Rightarrow> (a, w')
                  | (Inr attempts, w') \<Rightarrow> (all_failed_answer s ids attempts, w'))))"

definition control_chat :: "control_sys \<Rightarrow> string option \<Rightarrow> chat_request \<Rightarrow> control \<Rightarrow> control_answer \<times> control" where
  "control_chat s authorization q w =
     (case load_settings (cs_sys s) (cs_typed s) of
        Inl e \<Rightarrow> (Crashed e, w)
      | Inr st \<Rightarrow>
          if st_state st = ''INVALID_FAIL_CLOSED''
          then (Refused 503 [(''code'', JStr ''INVALID_ROUTER_CONFIGURATION''), (''message'', opt_str (st_error st))] [], w)
          else if \<not> st_egress st
          then (Refused 503 [(''code'', JStr ''EGRESS_DISABLED''),
              (''message'', JStr ''Set an allowlisted registry and SZL_ROUTER_ENABLE_EGRESS=1.'')] [], w)
          else (case check_caller_auth (s_env (cs_sys s)) authorization of
            Some (status, code) \<Rightarrow>
              (Refused status (detail_code code) (if status = 401 then [(''WWW-Authenticate'', ''Bearer'')] else []), w)
          | None \<Rightarrow> dispatch_chat s st q w))"

end
