(* ===== verification/ControlSafety.thy ===== *)
theory ControlSafety
  imports ControlChat "HOL-Library.Sublist"
begin

text \<open>
  What the inference handler of \<open>router_control/app.py\<close> (\<open>ControlChat\<close>) can and cannot do.

  A stretch of the handler is described by what it appends to the log of requests, by the providers
  it posts to and by whether every outcome in it was definite; the stretches of the parts of an
  attempt compose to the stretch of a turn, of the loop and of the whole call. On it rest: nothing is
  sent unless the gateway is armed and the caller admitted, and then only what the plan allows; after
  an attempt whose outcome is unknown nothing more is sent.
\<close>

section \<open>What a stretch of the handler sends\<close>

definition definite :: "http_result \<Rightarrow> bool" where
  "definite h = (case h of Answered _ _ \<Rightarrow> True | Broken _ \<Rightarrow> True | _ \<Rightarrow> False)"

fun posts :: "sent list \<Rightarrow> string list" where
  "posts [] = []"
| "posts (PostChat pid url payload token # xs) = pid # posts xs"
| "posts (GetInventory k # xs) = posts xs"

lemma posts_append [simp]: "posts (xs @ ys) = posts xs @ posts ys"
  by (induction xs rule: posts.induct) auto

text \<open>
  From \<open>w\<close> to \<open>w'\<close> the requests sent satisfy \<open>P\<close>, are posted to \<open>ids\<close>, and have definite outcomes,
  all of them if the handler may go on, else all but the last.
\<close>

definition stretch :: "control_sys \<Rightarrow> (sent \<Rightarrow> bool) \<Rightarrow> bool \<Rightarrow> string list \<Rightarrow> control \<Rightarrow> control \<Rightarrow> bool" where
  "stretch s P go ids w w' \<longleftrightarrow> (\<exists>news. ct_log w' = ct_log w @ news \<and> list_all P news \<and> posts news = ids
     \<and> (\<forall>i < length news. (go \<or> Suc i < length news) \<longrightarrow> definite (cs_http s (length (ct_log w) + i))))"

lemma stretch_quiet: "ct_log w' = ct_log w \<Longrightarrow> stretch s P go [] w w'"
  by (auto simp: stretch_def)

lemma stretch_weaken: "stretch s P True ids w w' \<Longrightarrow> stretch s P go ids w w'"
  by (fastforce simp: stretch_def)

lemma stretch_quiet_after: "stretch s P go ids w w' \<Longrightarrow> ct_log w'' = ct_log w' \<Longrightarrow> stretch s P go ids w w''"
  by (simp add: stretch_def)

lemma stretch_trans:
  assumes "stretch s P True ids w w1" "stretch s P go ids' w1 w2"
  shows "stretch s P go (ids @ ids') w w2"
proof -
  from assms obtain n1 n2 where n: "ct_log w1 = ct_log w @ n1" "list_all P n1" "posts n1 = ids"
    "\<forall>i < length n1. definite (cs_http s (length (ct_log w) + i))"
    "ct_log w2 = ct_log w1 @ n2" "list_all P n2" "posts n2 = ids'"
    "\<forall>i < length n2. (go \<or> Suc i < length n2) \<longrightarrow> definite (cs_http s (length (ct_log w1) + i))"
    by (auto simp: stretch_def)
  have "definite (cs_http s (length (ct_log w) + i))"
    if i: "i < length (n1 @ n2)" "go \<or> Suc i < length (n1 @ n2)" for i
  proof (cases "i < length n1")
    case True
    with n(4) show ?thesis by simp
  next
    case False
    then obtain j where "i = length n1 + j" by (metis le_Suc_ex not_less)
    with i n(1,8) show ?thesis by (auto simp: add.assoc)
  qed
  with n show ?thesis by (auto simp: stretch_def intro!: exI [of _ "n1 @ n2"])
qed

lemma send_stretch:
  assumes "send s x w = (h, w')" "P x"
  shows "stretch s P (definite h) (posts [x]) w w'"
  using assms by (auto simp: send_def stretch_def)

definition resumable :: "failure \<Rightarrow> bool" where
  "resumable f = (case f of HttpStatus _ \<Rightarrow> True | Contract _ \<Rightarrow> True | _ \<Rightarrow> False)"

text \<open>The last thing sent is a completion request, and what became of it is unknown.\<close>

definition unknown_post :: "control_sys \<Rightarrow> control \<Rightarrow> control \<Rightarrow> bool" where
  "unknown_post s w w' \<longleftrightarrow> ct_log w' \<noteq> ct_log w \<and> posts [last (ct_log w')] \<noteq> []
     \<and> \<not> definite (cs_http s (length (ct_log w') - 1))"

lemma unknown_post_quiet: "ct_log w' = ct_log w \<Longrightarrow> \<not> unknown_post s w w'"
  by (simp add: unknown_post_def)

lemma stretch_known:
  assumes "stretch s P True ids w w'"
  shows "\<not> unknown_post s w w'"
proof -
  from assms obtain news where n: "ct_log w' = ct_log w @ news"
    "\<forall>i < length news. definite (cs_http s (length (ct_log w) + i))" by (auto simp: stretch_def)
  show ?thesis
  proof (cases "news = []")
    case True
    with n show ?thesis by (simp add: unknown_post_def)
  next
    case False
    then have "length news - 1 < length news" by simp
    with n(2) have "definite (cs_http s (length (ct_log w) + (length news - 1)))" by blast
    moreover have "length (ct_log w') - 1 = length (ct_log w) + (length news - 1)"
      using n(1) False by (cases news) auto
    ultimately show ?thesis by (simp add: unknown_post_def)
  qed
qed

lemma unknown_post_later:
  assumes "stretch s P True ids w w1" "stretch s P go ids' w1 w2" "unknown_post s w w2"
  shows "unknown_post s w1 w2"
proof (cases "ct_log w2 = ct_log w1")
  case True
  with assms(3) have "unknown_post s w w1" by (simp add: unknown_post_def)
  with stretch_known [OF assms(1)] show ?thesis by simp
next
  case False
  with assms(3) show ?thesis by (simp add: unknown_post_def)
qed

section \<open>The parts of an attempt\<close>

text \<open>What one candidate may cause to be sent.\<close>

definition sent_for :: "control_sys \<Rightarrow> chat_request \<Rightarrow> candidate \<Rightarrow> sent \<Rightarrow> bool" where
  "sent_for s q c x = (let r = cd_record c; token = provider_token (s_env (cs_sys s)) r in case x of
     GetInventory k \<Rightarrow> pr_type r = OllamaLoopback \<and> k \<in> {''tags'', ''ps''}
   | PostChat pid url payload credential \<Rightarrow>
       pid = pr_id r \<and> url = completion_url r \<and> payload = upstream_payload q (cd_upstream c)
       \<and> credential = (if token = [] then None else Some (''Bearer '' @ token))
       \<and> (pr_type r = OpenaiHttps \<longrightarrow> token \<noteq> []))"

lemma inventory_stretch:
  assumes "ollama_inventory s kind w = (res, w')" "P (GetInventory kind)"
  shows "stretch s P (\<not> isl res) [] w w' \<and> (\<forall>f. res = Inl f \<longrightarrow> \<not> resumable f) \<and> \<not> unknown_post s w w'"
proof -
  obtain h w1 where h: "send s (GetInventory kind) w = (h, w1)" by fastforce
  with assms(1) have w1: "w' = w1" by (auto simp: ollama_inventory_def)
  have r: "stretch s P (definite h) [] w w'" using send_stretch [of s _ w h w' P] h assms(2) w1 by fastforce
  have nr: "\<not> resumable f" if "read_inventory s raw = Inl f" for raw f
    using that by (auto simp: read_inventory_def resumable_def invalid_inventory_def Let_def
        split: option.splits sum.splits if_splits json.splits)
  have "\<not> isl res \<longrightarrow> definite h" "\<forall>f. res = Inl f \<longrightarrow> \<not> resumable f"
    using assms(1) h nr by (auto simp: ollama_inventory_def definite_def resumable_def invalid_inventory_def
        split: http_result.splits if_splits option.splits)
  moreover from r have "stretch s P False [] w w'" by (auto simp: stretch_def)
  moreover have "\<not> unknown_post s w w'" using h w1 by (auto simp: unknown_post_def send_def)
  ultimately show ?thesis using r by (cases "definite h") (auto intro: stretch_weaken)
qed

lemma identity_stretch:
  assumes "assert_ollama_identity s r m b w = (res, w')" "P (GetInventory ''tags'') \<and> P (GetInventory ''ps'')"
  shows "stretch s P (\<not> isl res) [] w w' \<and> (\<forall>f. res = Inl f \<longrightarrow> \<not> resumable f) \<and> \<not> unknown_post s w w'"
proof -
  obtain t w1 where t: "ollama_inventory s ''tags'' w = (t, w1)" by fastforce
  obtain p w2 where p: "ollama_inventory s ''ps'' w1 = (p, w2)" by fastforce
  note it = inventory_stretch [where P = P, OF t] note ip = inventory_stretch [where P = P, OF p]
  have j: "judge_identity x y z b = Inl f \<Longrightarrow> \<not> resumable f" for x y z f
    by (auto simp: judge_identity_def resumable_def split: option.splits if_splits)
  show ?thesis
  proof (cases t)
    case (Inl f)
    with assms t it show ?thesis by (auto simp: assert_ollama_identity_def)
  next
    case (Inr tags)
    with it assms(2) have r1: "stretch s P True [] w w1" by simp
    have known: "\<not> unknown_post s w w2"
      using unknown_post_later [OF r1, of "\<not> isl p" "[]" w2] ip assms(2) by auto
    show ?thesis
    proof (cases p)
      case (Inl f)
      with assms t p Inr ip have "res = Inl f" "w' = w2" "stretch s P False [] w1 w2" "\<not> resumable f"
        by (auto simp: assert_ollama_identity_def)
      with stretch_trans [OF r1 this(3)] known show ?thesis by simp
    next
      case (Inr running)
      with \<open>t = Inr tags\<close> assms t p ip have "stretch s P True [] w1 w2" "w' = w2" "\<And>f. res = Inl f \<Longrightarrow> \<not> resumable f"
        using j by (auto simp: assert_ollama_identity_def Let_def)
      with stretch_trans [OF r1 this(1)] known show ?thesis by (auto intro: stretch_weaken)
    qed
  qed
qed

lemma store_stretch:
  "observe_store_bytes s r m w = (res, w') \<Longrightarrow> ct_log w' = ct_log w"
  by (auto simp: observe_store_bytes_def split: prod.splits)

lemma before_stretch:
  assumes "local_before s r q w = (res, w')" "pr_type r = OllamaLoopback \<longrightarrow> P (GetInventory ''tags'') \<and> P (GetInventory ''ps'')"
  shows "stretch s P (case res of Inl f \<Rightarrow> resumable f | Inr _ \<Rightarrow> True) [] w w' \<and> \<not> unknown_post s w w'"
proof (cases "pr_type r = OpenaiHttps")
  case True
  with assms(1) show ?thesis by (auto simp: local_before_def stretch_quiet unknown_post_quiet split: sum.split)
next
  case False
  then have loop: "pr_type r = OllamaLoopback" by (cases "pr_type r") auto
  obtain i w1 where i: "assert_ollama_identity s r (cr_model q) False w = (i, w1)" by fastforce
  note ir = identity_stretch [OF i assms(2) [rule_format, OF loop]]
  show ?thesis
  proof (cases i)
    case (Inl f)
    with assms(1) False i ir show ?thesis by (auto simp: local_before_def)
  next
    case (Inr before)
    with ir have r1: "stretch s P True [] w w1" "\<not> unknown_post s w w1" by auto
    have "ct_log w' = ct_log w1"
      using assms(1) False i Inr store_stretch
      by (auto simp: local_before_def split: if_splits prod.splits sum.splits)
    with r1 show ?thesis by (auto intro: stretch_weaken stretch_quiet_after simp: unknown_post_def)
  qed
qed

lemma call_stretch:
  assumes "call_provider s r payload w = (res, w')"
    and "P (PostChat (pr_id r) (completion_url r) payload
           (if provider_token (s_env (cs_sys s)) r = [] then None else Some (''Bearer '' @ provider_token (s_env (cs_sys s)) r)))
         \<or> (pr_type r = OpenaiHttps \<and> provider_token (s_env (cs_sys s)) r = [])"
  shows "\<exists>ids. subseq ids [pr_id r] \<and> stretch s P (case res of Inl f \<Rightarrow> resumable f | Inr _ \<Rightarrow> True) ids w w'
    \<and> (unknown_post s w w' \<longrightarrow> (\<exists>c. res = Inl (HttpxTimeout c)) \<or> res = Inl AttemptExpired)"
proof (cases "pr_type r = OpenaiHttps \<and> provider_token (s_env (cs_sys s)) r = []")
  case True
  with assms(1) have "w' = w" by (auto simp: call_provider_def Let_def)
  then show ?thesis by (intro exI [of _ "[]"]) (simp add: stretch_quiet unknown_post_quiet)
next
  case False
  let ?x = "PostChat (pr_id r) (completion_url r) payload
     (if provider_token (s_env (cs_sys s)) r = [] then None else Some (''Bearer '' @ provider_token (s_env (cs_sys s)) r))"
  obtain h w1 where h: "send s ?x w = (h, w1)" by fastforce
  have w1: "w' = w1" using assms(1) False h by (auto simp: call_provider_def Let_def)
  have r: "stretch s P (definite h) [pr_id r] w w'" using send_stretch [of s ?x w h w' P] h assms(2) False w1 by auto
  have at: "cs_http s (length (ct_log w)) = h" using h by (simp add: send_def)
  have len: "length (ct_log w') = Suc (length (ct_log w))" using h w1 by (auto simp: send_def)
  show ?thesis
  proof (cases "definite h")
    case True
    with r have "stretch s P True [pr_id r] w w'" by simp
    with stretch_weaken [OF this] stretch_known [OF this] show ?thesis by (intro exI [of _ "[pr_id r]"]) simp
  next
    case nd: False
    then have "(\<exists>c. res = Inl (HttpxTimeout c)) \<or> res = Inl AttemptExpired"
      using assms(1) False h by (auto simp: call_provider_def Let_def definite_def split: http_result.splits)
    with r nd show ?thesis by (intro exI [of _ "[pr_id r]"]) (auto simp: resumable_def)
  qed
qed


lemma attempt_stretch:
  assumes "attempt_candidate s r q u w = (res, w')" "r = cd_record c" "u = cd_upstream c"
  shows "\<exists>ids. subseq ids [pr_id r] \<and> stretch s (sent_for s q c) (case res of Inl f \<Rightarrow> resumable f | Inr _ \<Rightarrow> True) ids w w'
    \<and> (unknown_post s w w' \<longrightarrow> (\<exists>cl. res = Inl (HttpxTimeout cl)) \<or> res = Inl AttemptExpired)"
proof -
  let ?P = "sent_for s q c"
  have inv: "pr_type r = OllamaLoopback \<longrightarrow> ?P (GetInventory ''tags'') \<and> ?P (GetInventory ''ps'')"
    using assms(2) by (simp add: sent_for_def)
  obtain b w1 where b: "local_before s r q w = (b, w1)" by fastforce
  note br = before_stretch [where P = ?P, OF b inv]
  show ?thesis
  proof (cases b)
    case (Inl f)
    with assms(1) b br show ?thesis by (intro exI [of _ "[]"]) (auto simp: attempt_candidate_def)
  next
    case (Inr before)
    with br have r1: "stretch s ?P True [] w w1" by simp
    obtain d w2 where d: "call_provider s r (upstream_payload q u) w1 = (d, w2)" by fastforce
    have post: "?P (PostChat (pr_id r) (completion_url r) (upstream_payload q u)
         (if provider_token (s_env (cs_sys s)) r = [] then None else Some (''Bearer '' @ provider_token (s_env (cs_sys s)) r)))
       \<or> (pr_type r = OpenaiHttps \<and> provider_token (s_env (cs_sys s)) r = [])"
      using assms(2,3) by (auto simp: sent_for_def Let_def)
    obtain ids where cr: "subseq ids [pr_id r]" "stretch s ?P (case d of Inl f \<Rightarrow> resumable f | Inr _ \<Rightarrow> True) ids w1 w2"
      "unknown_post s w1 w2 \<longrightarrow> (\<exists>cl. d = Inl (HttpxTimeout cl)) \<or> d = Inl AttemptExpired"
      using call_stretch [where P = ?P, OF d post] by blast
    have r2: "stretch s ?P (case d of Inl f \<Rightarrow> resumable f | Inr _ \<Rightarrow> True) ids w w2"
      using stretch_trans [OF r1 cr(2)] by simp
    show ?thesis
    proof (cases d)
      case (Inl f)
      with assms(1) b Inr d have "res = Inl f" "w' = w2" by (auto simp: attempt_candidate_def)
      with r2 Inl cr(1,3) unknown_post_later [OF r1 cr(2)] show ?thesis
        by (intro exI [of _ ids]) auto
    next
      case dInr: (Inr x)
      obtain upstream status where x: "x = (upstream, status)" by (cases x)
      with r2 dInr have r2': "stretch s ?P True ids w w2" by simp
      show ?thesis
      proof (cases "\<exists>id1 store. before = Some (id1, store) \<and> completion_ok upstream \<and> dget_or_null upstream ''model'' = JStr u")
        case False
        with assms(1) b Inr d dInr x have "w' = w2" "\<nexists>f. res = Inl f \<and> f \<noteq> Contract ''RuntimeError'' \<and> f \<noteq> Identity ''COMPLETION_MODEL_MISMATCH''"
          by (auto simp: attempt_candidate_def split: if_splits option.splits prod.splits)
        with r2' cr(1) stretch_known [OF r2'] show ?thesis
          by (intro exI [of _ ids]) (auto intro: stretch_weaken)
      next
        case True
        then obtain id1 store where st: "before = Some (id1, store)" "completion_ok upstream" "dget_or_null upstream ''model'' = JStr u"
          by blast
        obtain i w3 where i: "assert_ollama_identity s r (cr_model q) True w2 = (i, w3)" by fastforce
        have "pr_type r \<noteq> OpenaiHttps" using b Inr st(1) by (auto simp: local_before_def split: if_splits)
        then have "pr_type r = OllamaLoopback" by (cases "pr_type r") auto
        with inv have "?P (GetInventory ''tags'') \<and> ?P (GetInventory ''ps'')" by simp
        note ir = identity_stretch [where P = ?P, OF i this]
        have r3: "stretch s ?P (\<not> isl i) ids w w3" using stretch_trans [OF r2', of "\<not> isl i" "[]" w3] ir by simp
        have known: "\<not> unknown_post s w w3" using unknown_post_later [OF r2', of "\<not> isl i" "[]" w3] ir by blast
        have "w' = w3" "isl i \<longleftrightarrow> isl res" "\<And>f. res = Inl f \<Longrightarrow> i = Inl f"
          using assms(1) b Inr d dInr x st i by (auto simp: attempt_candidate_def split: sum.splits)
        with r3 known cr(1) ir show ?thesis
          by (intro exI [of _ ids]) (auto split: sum.split)
      qed
    qed
  qed
qed


section \<open>The loop\<close>

definition finite_rows :: "jdict list \<Rightarrow> bool" where
  "finite_rows rows = list_all json_finite_items rows"

lemma finite_rows_snoc: "finite_rows (rows @ [x]) \<longleftrightarrow> finite_rows rows \<and> json_finite_items x"
  by (simp add: finite_rows_def)

lemma finite_row_list: "finite_rows rows \<Longrightarrow> json_finite_list (map JObj rows)"
  by (induction rows) (auto simp: finite_rows_def)

lemma refuse_failure:
  assumes "finite_rows rows" "json_finite_items rest"
  shows "\<exists>h. refuse s status (failure_body ids rows state rest) = Refused status (failure_body ids rows state rest @ [(''digest'', JStr h)]) []"
proof -
  have "json_finite (JObj (failure_body ids rows state rest))"
    using assms finite_row_list by (simp add: failure_body_def)
  then show ?thesis by (simp add: refuse_def json_digest_def Verification.canonical_def dumps_finite_def)
qed

text \<open>The caller is told not to repeat the request on its own.\<close>

definition told :: "control_answer \<Rightarrow> bool" where
  "told a \<longleftrightarrow> (\<exists>status body. a = Refused status body [] \<and> status \<in> {503, 504}
     \<and> dget body ''automatic_retry_safe'' = Some (JBool False) \<and> dget body ''reconciliation'' = Some (JStr ''REQUIRED_BEFORE_RETRY''))"

lemma told_failure:
  assumes "finite_rows rows" "status \<in> {503, 504}"
  shows "told (refuse s status (failure_body ids rows state no_retry))"
proof -
  have "json_finite_items no_retry" by (simp add: no_retry_def)
  from refuse_failure [OF assms(1) this] assms(2) show ?thesis
    by (fastforce simp: told_def failure_body_def no_retry_def)
qed

fun is_reply :: "control_answer \<Rightarrow> bool" where
  "is_reply (Reply _ _ _) = True"
| "is_reply _ = False"

lemma refuse_not_reply [simp]: "\<not> is_reply (refuse s status body)"
  by (simp add: refuse_def split: sum.split)

definition unknown_failure :: "failure \<Rightarrow> bool" where
  "unknown_failure f \<longleftrightarrow> (\<exists>c. f = HttpxTimeout c) \<or> f = AttemptExpired"

lemma on_failure_turn:
  assumes "on_failure s ids q r deadline rl attempts f w = (t, w')" "finite_rows attempts"
  shows "ct_log w' = ct_log w \<and> (case t of
      Next rows \<Rightarrow> resumable f \<and> finite_rows rows
    | Leave rows \<Rightarrow> finite_rows rows \<and> (unknown_failure f \<longrightarrow> ambiguous rows)
    | Finish a \<Rightarrow> \<not> is_reply a \<and> (unknown_failure f \<longrightarrow> told a))"
proof (cases f)
  case AttemptExpired
  obtain n w1 where c: "(if rl then (deadline, w) else control_clock s w) = (n, w1)" by fastforce
  then have "ct_log w1 = ct_log w" by (auto simp: control_clock_def split: if_splits)
  with assms AttemptExpired c show ?thesis
    by (auto simp: on_failure_def Let_def finite_rows_snoc attempt_row_def unknown_outcome_def ambiguous_def
        dget_or_null_def intro!: told_failure split: if_splits)
qed (use assms in \<open>auto simp: on_failure_def Let_def finite_rows_snoc attempt_row_def unknown_outcome_def ambiguous_def
    dget_or_null_def resumable_def unknown_failure_def split: if_splits\<close>)

lemma try_candidate_turn:
  assumes "try_candidate s ids q started c attempts w = (t, w')" "finite_rows attempts"
  shows "\<exists>pids. subseq pids [pr_id (cd_record c)] \<and> (case t of
      Next rows \<Rightarrow> stretch s (sent_for s q c) True pids w w' \<and> finite_rows rows
    | Leave rows \<Rightarrow> stretch s (sent_for s q c) False pids w w' \<and> finite_rows rows \<and> (unknown_post s w w' \<longrightarrow> ambiguous rows)
    | Finish a \<Rightarrow> stretch s (sent_for s q c) (is_reply a) pids w w' \<and> (unknown_post s w w' \<longrightarrow> told a))"
proof -
  let ?P = "sent_for s q c" let ?r = "cd_record c"
  obtain t0 w0 where k: "control_clock s w = (t0, w0)" by fastforce
  then have l0: "ct_log w0 = ct_log w" by (auto simp: control_clock_def)
  have e0: "stretch s ?P go [] w w0" for go by (rule stretch_quiet) (rule l0)
  show ?thesis
  proof (cases "started + 660 - t0 \<le> 0 \<or> credential_state (s_env (cs_sys s)) ?r = ''UNAVAILABLE''")
    case True
    with assms k e0 l0 show ?thesis
      by (intro exI [of _ "[]"])
        (auto simp: try_candidate_def Let_def finite_rows_snoc attempt_row_def unknown_post_def split: if_splits)
  next
    case False
    obtain res w1 where a: "attempt_candidate s ?r q (cd_upstream c) w0 = (res, w1)" by fastforce
    obtain pids where p: "subseq pids [pr_id ?r]" "stretch s ?P (case res of Inl f \<Rightarrow> resumable f | Inr _ \<Rightarrow> True) pids w0 w1"
      "unknown_post s w0 w1 \<longrightarrow> (\<exists>cl. res = Inl (HttpxTimeout cl)) \<or> res = Inl AttemptExpired"
      using attempt_stretch [OF a refl refl] by blast
    have s1: "stretch s ?P (case res of Inl f \<Rightarrow> resumable f | Inr _ \<Rightarrow> True) pids w w1"
      using stretch_trans [OF e0 p(2)] by simp
    have up: "unknown_post s w w1 \<Longrightarrow> unknown_post s w0 w1" using l0 by (simp add: unknown_post_def)
    let ?rl = "started + 660 - t0 \<le> 45"
    show ?thesis
    proof (cases res)
      case (Inl f)
      with assms(1) k False a have o: "on_failure s ids q ?r (started + 660) ?rl attempts f w1 = (t, w')"
        by (simp add: try_candidate_def Let_def)
      note ot = on_failure_turn [OF o assms(2)]
      then have "ct_log w' = ct_log w1" by simp
      with s1 Inl have s2: "stretch s ?P (resumable f) pids w w'" by (auto intro: stretch_quiet_after)
      then have s3: "stretch s ?P False pids w w'" by (auto simp: stretch_def)
      from up p(3) Inl \<open>ct_log w' = ct_log w1\<close> have "unknown_post s w w' \<Longrightarrow> unknown_failure f"
        by (auto simp: unknown_post_def unknown_failure_def)
      with ot s2 s3 p(1) show ?thesis by (intro exI [of _ pids]) (cases t; auto)
    next
      case (Inr x)
      obtain upstream status identity where x: "x = (upstream, status, identity)" by (metis prod_cases3)
      obtain t1 w2 where k2: "control_clock s w1 = (t1, w2)" by fastforce
      then have l2: "ct_log w2 = ct_log w1" by (auto simp: control_clock_def)
      with s1 Inr have s2: "stretch s ?P True pids w w2" by (auto intro: stretch_quiet_after)
      let ?rows = "attempts @ [attempt_row (pr_id ?r) ''SUCCESS'' [(''status_code'', JInt status)]]"
      let ?seal = "seal s ids q c ?rows (py_round 3 ((t1 - started) * 1000)) upstream identity"
      show ?thesis
      proof (cases ?seal)
        case (Inr y)
        with assms(1) k False a \<open>res = Inr x\<close> x k2 have "w' = w2" "\<exists>b h hs. t = Finish (Reply b h hs)"
          by (auto simp: try_candidate_def Let_def split: prod.splits)
        with s2 p(1) stretch_known [OF s2] show ?thesis by (intro exI [of _ pids]) auto
      next
        case (Inl e)
        with assms(1) k False a \<open>res = Inr x\<close> x k2
        have o: "on_failure s ids q ?r (started + 660) ?rl attempts (contract_failure e) w2 = (t, w')"
          by (simp add: try_candidate_def Let_def)
        note ot = on_failure_turn [OF o assms(2)]
        then have s3: "stretch s ?P True pids w w'" using s2 by (auto intro: stretch_quiet_after)
        with ot p(1) stretch_known [OF s3] stretch_weaken [OF s3] show ?thesis
          by (intro exI [of _ pids]) (cases t; auto)
      qed
    qed
  qed
qed

definition sent_for_any :: "control_sys \<Rightarrow> chat_request \<Rightarrow> candidate list \<Rightarrow> sent \<Rightarrow> bool" where
  "sent_for_any s q cs x = list_ex (\<lambda>c. sent_for s q c x) cs"

lemma stretch_mono: "(\<And>x. P x \<Longrightarrow> Q x) \<Longrightarrow> stretch s P go ids w w' \<Longrightarrow> stretch s Q go ids w w'"
  by (auto simp: stretch_def list_all_iff)

lemma chat_loop_stretch:
  "chat_loop s ids q started cs attempts w = (res, w') \<Longrightarrow> finite_rows attempts \<Longrightarrow>
   \<exists>pids. subseq pids (map (\<lambda>c. pr_id (cd_record c)) cs) \<and> (case res of
      Inr rows \<Rightarrow> stretch s (sent_for_any s q cs) False pids w w' \<and> finite_rows rows \<and> (unknown_post s w w' \<longrightarrow> ambiguous rows)
    | Inl a \<Rightarrow> stretch s (sent_for_any s q cs) (is_reply a) pids w w' \<and> (unknown_post s w w' \<longrightarrow> told a))"
proof (induction cs arbitrary: attempts w)
  case Nil
  then show ?case by (auto simp: stretch_quiet unknown_post_quiet)
next
  case (Cons c cs)
  obtain t w1 where t: "try_candidate s ids q started c attempts w = (t, w1)" by fastforce
  let ?Q = "sent_for_any s q (c # cs)"
  have here: "stretch s (sent_for s q c) go p w w1 \<Longrightarrow> stretch s ?Q go p w w1" for go p
    by (rule stretch_mono) (simp_all add: sent_for_any_def)
  have later: "stretch s (sent_for_any s q cs) go p w1 w' \<Longrightarrow> stretch s ?Q go p w1 w'" for go p
    by (rule stretch_mono) (simp_all add: sent_for_any_def)
  obtain p1 where p1: "subseq p1 [pr_id (cd_record c)]" "case t of
      Next rows \<Rightarrow> stretch s (sent_for s q c) True p1 w w1 \<and> finite_rows rows
    | Leave rows \<Rightarrow> stretch s (sent_for s q c) False p1 w w1 \<and> finite_rows rows \<and> (unknown_post s w w1 \<longrightarrow> ambiguous rows)
    | Finish a \<Rightarrow> stretch s (sent_for s q c) (is_reply a) p1 w w1 \<and> (unknown_post s w w1 \<longrightarrow> told a)"
    using try_candidate_turn [OF t Cons.prems(2)] by blast
  have sub: "subseq p1 (map (\<lambda>c. pr_id (cd_record c)) (c # cs))"
    using p1(1) list_emb_append2 [of "(=)" "[]" "[]"] by (auto elim!: subseq_order.trans intro: subseq_Cons2)
  show ?case
  proof (cases t)
    case (Next rows)
    with p1 Cons.prems(1) t have r: "stretch s ?Q True p1 w w1" "finite_rows rows"
      "chat_loop s ids q started cs rows w1 = (res, w')"
      using here by auto
    from Cons.IH [OF r(3,2)] obtain p2 where p2: "subseq p2 (map (\<lambda>c. pr_id (cd_record c)) cs)" "case res of
        Inr rows \<Rightarrow> stretch s (sent_for_any s q cs) False p2 w1 w' \<and> finite_rows rows \<and> (unknown_post s w1 w' \<longrightarrow> ambiguous rows)
      | Inl a \<Rightarrow> stretch s (sent_for_any s q cs) (is_reply a) p2 w1 w' \<and> (unknown_post s w1 w' \<longrightarrow> told a)"
      by blast
    have "subseq (p1 @ p2) (map (\<lambda>c. pr_id (cd_record c)) (c # cs))"
      using list_emb_append_mono [OF p1(1) p2(1)] by simp
    moreover have "stretch s ?Q go p2 w1 w' \<Longrightarrow> stretch s ?Q go (p1 @ p2) w w'
        \<and> (unknown_post s w w' \<longrightarrow> unknown_post s w1 w')" for go
      using stretch_trans [OF r(1)] unknown_post_later [OF r(1)] by blast
    ultimately show ?thesis using p2(2) later
      by (intro exI [of _ "p1 @ p2"]) (auto split: sum.splits)
  next
    case (Leave rows)
    with p1 Cons.prems(1) t sub here show ?thesis by (intro exI [of _ p1]) auto
  next
    case (Finish a)
    with p1 Cons.prems(1) t sub here show ?thesis by (intro exI [of _ p1]) auto
  qed
qed


section \<open>The whole handler\<close>

lemma subseq_distinct: "subseq xs ys \<Longrightarrow> distinct ys \<Longrightarrow> distinct xs"
  by (auto simp: subseq_conv_nths)

text \<open>A handler that sent something, or answered, got past every gate.\<close>

lemma control_chat_cases:
  assumes "control_chat s authorization q w = (a, w')"
  obtains (stopped) "ct_log w' = ct_log w" "\<not> is_reply a"
  | (gone) st ids cs started w0 res where
      "load_settings (cs_sys s) (cs_typed s) = Inr st" "st_egress st" "st_state st \<noteq> ''INVALID_FAIL_CLOSED''"
      "check_caller_auth (s_env (cs_sys s)) authorization = None"
      "cs = route_candidates (s_env (cs_sys s)) st (plan_of_chat q)"
      "json_digest (cs_sys s) (request_json q) = Inr (ci_request ids)"
      "ct_log w0 = ct_log w" "chat_loop s ids q started cs [] w0 = (res, w')"
      "a = (case res of Inl x \<Rightarrow> x | Inr rows \<Rightarrow> all_failed_answer s ids rows)"
proof (cases "load_settings (cs_sys s) (cs_typed s)")
  case (Inl e)
  with assms show ?thesis by (intro stopped) (auto simp: control_chat_def)
next
  case (Inr st)
  show ?thesis
  proof (cases "st_state st = ''INVALID_FAIL_CLOSED'' \<or> \<not> st_egress st
      \<or> check_caller_auth (s_env (cs_sys s)) authorization \<noteq> None")
    case True
    with assms Inr show ?thesis
      by (intro stopped) (auto simp: control_chat_def split: if_splits option.splits)
  next
    case False
    let ?cs = "route_candidates (s_env (cs_sys s)) st (plan_of_chat q)"
    from False have auth: "check_caller_auth (s_env (cs_sys s)) authorization = None" by blast
    with False assms Inr have d: "dispatch_chat s st q w = (a, w')" by (simp add: control_chat_def)
    obtain p where p: "plan (cs_sys s) st (plan_of_chat q) = Inr p" using plan_total by blast
    show ?thesis
    proof (cases "?cs = [] \<or> isl (json_digest (cs_sys s) (request_json q))")
      case True
      with d p show ?thesis
        by (intro stopped) (auto simp: dispatch_chat_def Let_def split: if_splits sum.splits)
    next
      case go: False
      then obtain h where h: "json_digest (cs_sys s) (request_json q) = Inr h"
        by (cases "json_digest (cs_sys s) (request_json q)") auto
      obtain started w0 where k: "control_clock s w = (started, w0)" by fastforce
      then have l: "ct_log w0 = ct_log w" by (auto simp: control_clock_def)
      define ids where "ids = \<lparr>ci_request = h,
        ci_plan = (case jget (dget_or_null p ''receipt'') ''digest'' of JStr x \<Rightarrow> x | _ \<Rightarrow> [])\<rparr>"
      obtain res w2 where c: "chat_loop s ids q started ?cs [] w0 = (res, w2)" by fastforce
      with d p go h k have "w2 = w'" "a = (case res of Inl x \<Rightarrow> x | Inr rows \<Rightarrow> all_failed_answer s ids rows)"
        by (auto simp: dispatch_chat_def Let_def ids_def [symmetric] split: sum.splits)
      with False auth Inr h l c show ?thesis by (intro gone [of st ?cs ids w0 started res]) (auto simp: ids_def)
    qed
  qed
qed

lemma all_failed_not_reply: "\<not> is_reply (all_failed_answer s ids rows)"
  by (simp add: all_failed_answer_def)

lemma all_failed_told: "finite_rows rows \<Longrightarrow> ambiguous rows \<Longrightarrow> told (all_failed_answer s ids rows)"
  by (simp add: all_failed_answer_def told_failure)

lemma control_chat_stretch:
  assumes "control_chat s authorization q w = (a, w')"
  shows "(ct_log w' = ct_log w \<and> \<not> is_reply a) \<or> (\<exists>st cs pids.
      load_settings (cs_sys s) (cs_typed s) = Inr st \<and> st_egress st \<and> st_state st \<noteq> ''INVALID_FAIL_CLOSED''
    \<and> check_caller_auth (s_env (cs_sys s)) authorization = None
    \<and> cs = route_candidates (s_env (cs_sys s)) st (plan_of_chat q)
    \<and> subseq pids (map (\<lambda>c. pr_id (cd_record c)) cs)
    \<and> stretch s (sent_for_any s q cs) (is_reply a) pids w w' \<and> (unknown_post s w w' \<longrightarrow> told a))"
  using assms
proof (cases rule: control_chat_cases)
  case stopped
  then show ?thesis by simp
next
  case (gone st ids cs started w0 res)
  have e0: "stretch s (sent_for_any s q cs) True [] w w0" by (rule stretch_quiet) (rule gone(7))
  have up: "unknown_post s w w' \<longleftrightarrow> unknown_post s w0 w'" using gone(7) by (simp add: unknown_post_def)
  have "finite_rows []" by (simp add: finite_rows_def)
  from chat_loop_stretch [OF gone(8) this] obtain pids where pids: "subseq pids (map (\<lambda>c. pr_id (cd_record c)) cs)"
    "case res of
      Inr rows \<Rightarrow> stretch s (sent_for_any s q cs) False pids w0 w' \<and> finite_rows rows \<and> (unknown_post s w0 w' \<longrightarrow> ambiguous rows)
    | Inl a \<Rightarrow> stretch s (sent_for_any s q cs) (is_reply a) pids w0 w' \<and> (unknown_post s w0 w' \<longrightarrow> told a)" by blast
  have "stretch s (sent_for_any s q cs) (is_reply a) pids w w' \<and> (unknown_post s w w' \<longrightarrow> told a)"
  proof (cases res)
    case (Inl x)
    with pids(2) gone(9) up stretch_trans [OF e0, of "is_reply a" pids w'] show ?thesis by simp
  next
    case (Inr rows)
    with pids(2) gone(9) up stretch_trans [OF e0, of False pids w'] all_failed_told all_failed_not_reply
    show ?thesis by simp
  qed
  with gone(1-5) pids(1) show ?thesis by blast
qed

section \<open>A run\<close>

definition demo_env :: env where
  "demo_env = (\<lambda>k. if k = ''SZL_ROUTER_PROVIDERS_JSON'' then Some ''{}'' else if k = ''SZL_ROUTER_ENABLE_EGRESS'' then Some ''1''
     else if k = ''SZL_ROUTER_TOKEN'' then Some ''t'' else None)"

definition demo_pin :: string where
  "demo_pin = replicate 64 (CHR ''a'')"

definition demo_local :: provider_record where
  "demo_local = \<lparr>pr_id = ''local'', pr_type = OllamaLoopback, pr_base_url = None,
     pr_models = [(''m'', ''llama'')], pr_digests = [(''m'', demo_pin)], pr_weights = [], pr_token_env = None, pr_priority = 10,
     pr_sovereignty = 100, pr_cost_tier = 0, pr_classes = [''public''], pr_enabled = True\<rparr>"

definition demo_chat :: chat_request where
  "demo_chat = \<lparr>cr_model = ''m'', cr_required = None, cr_messages = [\<lparr>ms_role = ''user'', ms_content = ''hi'', ms_name = None\<rparr>],
     cr_temperature = JNull, cr_top_p = JNull, cr_max_tokens = JNull, cr_stream = False, cr_stop = NoStop, cr_user = None,
     cr_class = ''public'', cr_max_cost = 10\<rparr>"

definition demo_scan :: scanner where
  "demo_scan t = (if t = ''inventory''
     then Inr (RObj [(''models'', RArr [RObj [(''name'', RStr ''llama''), (''digest'', RStr demo_pin)]])])
     else Inr RNull)"

definition demo_sys :: sys where
  "demo_sys = small_sys\<lparr>s_env := demo_env, s_float := (\<lambda>_. Some (Fin 0))\<rparr>"

definition demo_control :: "scanner \<Rightarrow> (nat \<Rightarrow> http_result) \<Rightarrow> control_sys" where
  "demo_control scan http = \<lparr>cs_sys = demo_sys, cs_scan = scan, cs_typed = (\<lambda>_. Inr [demo_local]),
     cs_http = http, cs_clock = (\<lambda>_. 0), cs_store = tiny_store, cs_store_wait = (\<lambda>_. None)\<rparr>"

definition demo_http :: "http_result \<Rightarrow> nat \<Rightarrow> http_result" where
  "demo_http h k = (if k = 2 then h else Answered 200 [''inventory''])"

definition idle_control :: control where
  "idle_control = \<lparr>ct_log = [], ct_ticks = 0, ct_store = (1, 0)\<rparr>"

definition started_control :: control where
  "started_control = idle_control\<lparr>ct_ticks := Suc 0\<rparr>"

definition running_control :: control where
  "running_control = idle_control\<lparr>ct_ticks := Suc (Suc 0)\<rparr>"

definition demo_settings :: settings where
  "demo_settings = \<lparr>st_registry = [demo_local], st_hosts = [], st_egress = True, st_state = ''VALIDATED'', st_error = None\<rparr>"

lemma demo_loads: "load_settings demo_sys (\<lambda>_. Inr [demo_local]) = Inr demo_settings"
  by code_simp

lemma demo_auth: "check_caller_auth demo_env (Some ''Bearer t'') = None"
  by code_simp

lemma demo_candidates: "route_candidates demo_env demo_settings (plan_of_chat demo_chat)
   = [candidate_of demo_env (plan_of_chat demo_chat) demo_local]"
  by (simp add: route_candidates_def demo_settings_def eligible_def plan_of_chat_def demo_chat_def demo_local_def)


lemma demo_control_simps [simp]:
  "cs_sys (demo_control scan http) = demo_sys" "cs_typed (demo_control scan http) = (\<lambda>_. Inr [demo_local])"
  "cs_scan (demo_control scan http) = scan" "cs_http (demo_control scan http) = http"
  "cs_clock (demo_control scan http) = (\<lambda>_. 0)" "s_env demo_sys = demo_env"
  by (simp_all add: demo_control_def demo_sys_def)

text \<open>A call that passes the gates is the loop over the ranked candidates.\<close>

lemma control_chat_run:
  assumes "load_settings (cs_sys s) (cs_typed s) = Inr st" "st_egress st" "st_state st \<noteq> ''INVALID_FAIL_CLOSED''"
    and "check_caller_auth (s_env (cs_sys s)) authorization = None"
    and "route_candidates (s_env (cs_sys s)) st (plan_of_chat q) = c # cs"
    and "json_digest (cs_sys s) (request_json q) = Inr request"
    and "json_digest (cs_sys s) (JObj (plan_body st (plan_of_chat q) (c # cs))) = Inr p"
    and "control_clock s w = (started, w0)"
    and "chat_loop s \<lparr>ci_request = request, ci_plan = p\<rparr> q started (c # cs) [] w0 = (res, w')"
  shows "control_chat s authorization q w =
    (case res of Inl a \<Rightarrow> a | Inr rows \<Rightarrow> all_failed_answer s \<lparr>ci_request = request, ci_plan = p\<rparr> rows, w')"
proof -
  from plan_total [of "cs_sys s" st "plan_of_chat q"] assms(5,7) obtain n where
    "plan (cs_sys s) st (plan_of_chat q) = Inr (plan_body st (plan_of_chat q) (c # cs)
      @ [(''receipt'', JObj [(''algorithm'', JStr ''sha256''), (''digest'', JStr p), (''canonical_bytes'', JInt n)])])" by auto
  then show ?thesis using assms
    by (cases res) (simp_all add: control_chat_def dispatch_chat_def Let_def dget_or_null_def plan_body_def)
qed

lemma demo_request: "json_finite (request_json demo_chat)"
  by (simp add: request_json_def demo_chat_def opt_str_def stop_json_def message_json_def)


definition demo_candidate :: candidate where
  "demo_candidate = candidate_of demo_env (plan_of_chat demo_chat) demo_local"

lemma demo_run:
  assumes "cs_sys s = demo_sys" "cs_typed s = (\<lambda>_. Inr [demo_local])" "cs_clock s = (\<lambda>_. 0)"
    and "json_digest demo_sys (request_json demo_chat) = Inr request"
    and "json_digest demo_sys (JObj (plan_body demo_settings (plan_of_chat demo_chat) [demo_candidate])) = Inr p"
    and "chat_loop s \<lparr>ci_request = request, ci_plan = p\<rparr> demo_chat 0 [demo_candidate] [] started_control = (res, w')"
  shows "control_chat s (Some ''Bearer t'') demo_chat idle_control =
    (case res of Inl a \<Rightarrow> a | Inr rows \<Rightarrow> all_failed_answer s \<lparr>ci_request = request, ci_plan = p\<rparr> rows, w')"
proof (rule control_chat_run)
  show "control_clock s idle_control = (0, started_control)"
    using assms(3) by (simp add: control_clock_def idle_control_def started_control_def running_control_def)
qed (use assms demo_loads demo_auth demo_candidates in \<open>simp_all add: demo_settings_def demo_candidate_def demo_sys_def\<close>)

lemma demo_digests:
  obtains request p where "json_digest demo_sys (request_json demo_chat) = Inr request"
    "json_digest demo_sys (JObj (plan_body demo_settings (plan_of_chat demo_chat) [demo_candidate])) = Inr p"
  using plan_total [of demo_sys demo_settings "plan_of_chat demo_chat"] demo_candidates demo_request
  by (auto simp: json_digest_finite demo_candidate_def demo_sys_def)

lemma demo_pin_hex: "hex64 demo_pin"
  by code_simp

lemma demo_model_name: "ollama_model_name ''llama''"
  by code_simp

lemma demo_inventory:
  assumes "cs_sys s = demo_sys" "cs_http s (length (ct_log w)) = Answered 200 [''inventory'']"
    and "cs_scan s ''inventory'' = demo_scan ''inventory''"
  shows "ollama_inventory s kind w = (Inr [(''llama'', demo_pin)], w\<lparr>ct_log := ct_log w @ [GetInventory kind]\<rparr>)"
proof -
  have "read_inventory s ''inventory'' = Inr [(''llama'', demo_pin)]"
    using assms demo_pin_hex demo_model_name
    by (simp add: read_inventory_def demo_sys_def small_sys_def demo_scan_def inventory_hooks_def unique_object_def dict_of_def
        within_limits_iff MAX_JSON_DEPTH_def MAX_JSON_NODES_def dget_or_null_def)
  with assms show ?thesis by (simp add: ollama_inventory_def send_def)
qed

lemma demo_identity:
  assumes "cs_sys s = demo_sys" "cs_http s (length (ct_log w)) = Answered 200 [''inventory'']"
    and "cs_http s (Suc (length (ct_log w))) = Answered 200 [''inventory'']"
    and "cs_scan s ''inventory'' = demo_scan ''inventory''"
  shows "assert_ollama_identity s demo_local ''m'' b w
    = (Inr \<lparr>id_expected = demo_pin, id_observed = demo_pin, id_resident = Some demo_pin\<rparr>,
       w\<lparr>ct_log := ct_log w @ [GetInventory ''tags'', GetInventory ''ps'']\<rparr>)"
  using assms by (simp add: assert_ollama_identity_def demo_inventory judge_identity_def value_at_def demo_local_def)

lemma demo_shape: "pr_type demo_local = OllamaLoopback" "pr_weights demo_local = []" "pr_token_env demo_local = None"
    "pr_id demo_local = ''local''" "cr_model demo_chat = ''m''"
  by (simp_all add: demo_local_def demo_chat_def)

lemma demo_times_out:
  "attempt_candidate (demo_control demo_scan (demo_http (TimedOut ''ReadTimeout''))) demo_local demo_chat ''llama'' running_control
   = (Inl (HttpxTimeout ''ReadTimeout''),
      \<lparr>ct_log = [GetInventory ''tags'', GetInventory ''ps'',
          PostChat ''local'' ''http://127.0.0.1:11434/v1/chat/completions'' (upstream_payload demo_chat ''llama'') None],
       ct_ticks = 2, ct_store = (1, 0)\<rparr>)"
proof -
  have "completion_url demo_local = ''http://127.0.0.1:11434/v1/chat/completions''" by code_simp
  then show ?thesis
    by (simp add: demo_shape attempt_candidate_def local_before_def demo_identity demo_http_def idle_control_def running_control_def call_provider_def
        provider_token_def send_def)
qed

lemma demo_clock: "cs_clock s = (\<lambda>_. 0) \<Longrightarrow> control_clock s started_control = (0, running_control)"
  by (simp add: control_clock_def idle_control_def started_control_def running_control_def)

definition demo_timeout :: control_sys where
  "demo_timeout = demo_control demo_scan (demo_http (TimedOut ''ReadTimeout''))"

lemma demo_timeout_run:
  obtains a w' where "control_chat demo_timeout (Some ''Bearer t'') demo_chat idle_control = (a, w')"
    "length (ct_log w') = 3" "posts (ct_log w') = [''local'']" "posts [last (ct_log w')] \<noteq> []" "\<not> is_reply a"
proof -
  note demo_timeout_def [simp]
  let ?s = "demo_control demo_scan (demo_http (TimedOut ''ReadTimeout''))"
  let ?w = "\<lparr>ct_log = [GetInventory ''tags'', GetInventory ''ps'',
          PostChat ''local'' ''http://127.0.0.1:11434/v1/chat/completions'' (upstream_payload demo_chat ''llama'') None],
       ct_ticks = 2, ct_store = (1, 0)\<rparr>"
  obtain request p where d: "json_digest demo_sys (request_json demo_chat) = Inr request"
    "json_digest demo_sys (JObj (plan_body demo_settings (plan_of_chat demo_chat) [demo_candidate])) = Inr p"
    by (rule demo_digests)
  have c: "cd_record demo_candidate = demo_local" "cd_upstream demo_candidate = ''llama''"
    by (simp_all add: demo_candidate_def candidate_of_def demo_local_def plan_of_chat_def demo_chat_def)
  have "chat_loop ?s \<lparr>ci_request = request, ci_plan = p\<rparr> demo_chat 0 [demo_candidate] [] started_control
      = (Inr [attempt_row ''local'' ''UPSTREAM_DEADLINE_EXCEEDED'' unknown_outcome], ?w)"
    using demo_times_out demo_shape
    by (simp add: try_candidate_def demo_clock c credential_state_def on_failure_def)
  from demo_run [OF _ _ _ d this] have r: "control_chat ?s (Some ''Bearer t'') demo_chat idle_control
      = (all_failed_answer ?s \<lparr>ci_request = request, ci_plan = p\<rparr> [attempt_row ''local'' ''UPSTREAM_DEADLINE_EXCEEDED'' unknown_outcome], ?w)"
    by simp
  show thesis by (rule that [unfolded demo_timeout_def, OF r]) (simp_all add: all_failed_not_reply)
qed

text \<open>
  C17. The control plane sends only what it may. If a call sends anything at all, the registry is
  validated, egress is enabled and the caller holds the token; and every request sent is for a
  well-formed, enabled provider of the registry that is eligible for the model, the classification,
  the cost tier and the required provider: an inventory only for a loopback provider, a completion
  only to the provider's own URL (the fixed loopback address, or HTTPS on an allow-listed host), with
  the provider's own credential and nothing of the caller's, and with the payload of the request.
\<close>

theorem control_sends_admitted_only:
  assumes "control_chat s authorization q w = (a, w')" "ct_log w' \<noteq> ct_log w"
  shows "\<exists>st news. load_settings (cs_sys s) (cs_typed s) = Inr st \<and> st_state st = ''VALIDATED'' \<and> st_egress st
    \<and> check_caller_auth (s_env (cs_sys s)) authorization = None \<and> ct_log w' = ct_log w @ news
    \<and> list_all (\<lambda>x. list_ex (\<lambda>r. eligible (plan_of_chat q) r \<and> provider_wf (st_hosts st) r
          \<and> sent_for s q (candidate_of (s_env (cs_sys s)) (plan_of_chat q) r) x) (st_registry st)) news"
proof -
  from control_chat_stretch [OF assms(1)] assms(2) obtain st cs pids where
    st: "load_settings (cs_sys s) (cs_typed s) = Inr st" "st_egress st" "st_state st \<noteq> ''INVALID_FAIL_CLOSED''"
    "check_caller_auth (s_env (cs_sys s)) authorization = None"
    and cs: "cs = route_candidates (s_env (cs_sys s)) st (plan_of_chat q)"
    and r: "stretch s (sent_for_any s q cs) (is_reply a) pids w w'" by blast
  from r obtain news where news: "ct_log w' = ct_log w @ news" "list_all (sent_for_any s q cs) news"
    by (auto simp: stretch_def)
  note wf = load_settings_wf [OF st(1)]
  have one: "list_ex (\<lambda>r. eligible (plan_of_chat q) r \<and> provider_wf (st_hosts st) r
      \<and> sent_for s q (candidate_of (s_env (cs_sys s)) (plan_of_chat q) r) x) (st_registry st)" if "x \<in> set news" for x
  proof -
    from that news(2) obtain c where c: "c \<in> set cs" "sent_for s q c x"
      by (auto simp: list_all_iff list_ex_iff sent_for_any_def)
    then obtain r where "r \<in> set (st_registry st)" "eligible (plan_of_chat q) r"
      "c = candidate_of (s_env (cs_sys s)) (plan_of_chat q) r"
      by (auto simp: cs candidate_in)
    with c(2) wf show ?thesis by (auto simp: list_all_iff list_ex_iff)
  qed
  moreover have "st_state st = ''VALIDATED''"
  proof -
    from news(1) assms(2) obtain x where "x \<in> set news" by (cases news) auto
    from one [OF this] have "st_registry st \<noteq> []" by auto
    with wf st(2) show ?thesis by auto
  qed
  ultimately show ?thesis using st news(1) by (auto simp: list_all_iff)
qed

theorem control_sends_admitted_only_witness:
  "\<exists>st (s :: control_sys) (w' :: control) news. load_settings (cs_sys s) (cs_typed s) = Inr st \<and> st_egress st
     \<and> ct_log w' = ct_log idle_control @ news \<and> length news = 3
     \<and> list_all (\<lambda>x. list_ex (\<lambda>r. eligible (plan_of_chat demo_chat) r
          \<and> sent_for s demo_chat (candidate_of (s_env (cs_sys s)) (plan_of_chat demo_chat) r) x) (st_registry st)) news"
proof -
  obtain a w' where r: "control_chat demo_timeout (Some ''Bearer t'') demo_chat idle_control = (a, w')"
    "length (ct_log w') = 3" by (rule demo_timeout_run)
  then have "ct_log w' \<noteq> ct_log idle_control" by (auto simp: idle_control_def)
  from control_sends_admitted_only [OF r(1) this] obtain st news where
    st: "load_settings (cs_sys demo_timeout) (cs_typed demo_timeout) = Inr st" "st_egress st"
    "ct_log w' = ct_log idle_control @ news"
    and n: "list_all (\<lambda>x. list_ex (\<lambda>r. eligible (plan_of_chat demo_chat) r \<and> provider_wf (st_hosts st) r
      \<and> sent_for demo_timeout demo_chat (candidate_of (s_env (cs_sys demo_timeout)) (plan_of_chat demo_chat) r) x) (st_registry st)) news"
    by blast
  from n have "list_all (\<lambda>x. list_ex (\<lambda>r. eligible (plan_of_chat demo_chat) r
      \<and> sent_for demo_timeout demo_chat (candidate_of (s_env (cs_sys demo_timeout)) (plan_of_chat demo_chat) r) x) (st_registry st)) news"
    unfolding list_all_iff list_ex_iff by blast
  moreover have "length news = 3" using r(2) st(3) by (simp add: idle_control_def)
  ultimately show ?thesis using st
    by (intro exI [of _ st] exI [of _ demo_timeout] exI [of _ w'] exI [of _ news]) blast
qed

text \<open>
  C16. The control plane stops at the first unknown outcome. However the network answers and wherever
  the time limits strike, in one call every request but the last one sent had a definite outcome (a
  response or a broken connection); no provider is sent more than one completion request; an answer
  is returned only if every outcome is definite; and if the last thing sent was a completion request
  that timed out, the caller is told not to retry before reconciling.
\<close>

theorem control_stops_at_unknown:
  assumes "control_chat s authorization q w = (a, w')"
  shows "\<exists>news. ct_log w' = ct_log w @ news \<and> distinct (posts news)
    \<and> (\<forall>i. i < length news \<and> (is_reply a \<or> Suc i < length news) \<longrightarrow> definite (cs_http s (length (ct_log w) + i)))
    \<and> (news \<noteq> [] \<and> posts [last news] \<noteq> [] \<and> \<not> definite (cs_http s (length (ct_log w') - 1)) \<longrightarrow> told a)"
  using control_chat_stretch [OF assms]
proof (elim disjE exE conjE)
  assume "ct_log w' = ct_log w"
  then show ?thesis by (intro exI [of _ "[]"]) simp
next
  fix st cs pids
  assume st: "load_settings (cs_sys s) (cs_typed s) = Inr st" and cs: "cs = route_candidates (s_env (cs_sys s)) st (plan_of_chat q)"
    and sub: "subseq pids (map (\<lambda>c. pr_id (cd_record c)) cs)"
    and r: "stretch s (sent_for_any s q cs) (is_reply a) pids w w'" and u: "unknown_post s w w' \<longrightarrow> told a"
  have "unique_ids (st_registry st)" using load_settings_wf [OF st] by simp
  from candidates_distinct [OF this] have "distinct (map cd_provider cs)" by (simp add: cs)
  moreover have "map cd_provider cs = map (\<lambda>c. pr_id (cd_record c)) cs"
    by (auto simp: cs candidate_in candidate_of_def)
  ultimately have d: "distinct pids" using sub subseq_distinct by metis
  from r obtain news where "ct_log w' = ct_log w @ news" "posts news = pids"
    "\<forall>i < length news. (is_reply a \<or> Suc i < length news) \<longrightarrow> definite (cs_http s (length (ct_log w) + i))"
    by (auto simp: stretch_def)
  with d u show ?thesis by (intro exI [of _ news]) (auto simp: unknown_post_def)
qed

theorem control_stops_at_unknown_witness:
  "\<exists>a w'. control_chat demo_timeout (Some ''Bearer t'') demo_chat idle_control = (a, w')
     \<and> length (ct_log w') = 3 \<and> posts (ct_log w') = [''local''] \<and> told a"
proof -
  obtain a w' where r: "control_chat demo_timeout (Some ''Bearer t'') demo_chat idle_control = (a, w')"
    and l: "length (ct_log w') = 3" "posts (ct_log w') = [''local'']" "posts [last (ct_log w')] \<noteq> []"
    by (rule demo_timeout_run)
  have h: "\<not> definite (cs_http demo_timeout 2)" by (simp add: demo_timeout_def demo_http_def definite_def)
  from control_stops_at_unknown [OF r] l h have "told a" by (auto simp: idle_control_def)
  with r l show ?thesis by blast
qed

end
