(* ===== verification/ControlAnswers.thy ===== *)
theory ControlAnswers
  imports ControlSafety
begin

text \<open>
  What an answer of the inference handler of \<open>router_control/app.py\<close> rests on: the evidence about a
  local model, and the receipt that closes every answer and that the verifier of \<open>Verification\<close>
  accepts.
\<close>

section \<open>What an answer rests on\<close>

text \<open>What a local model's answer was checked against, before and after the request.\<close>

definition vouched :: "control_sys \<Rightarrow> provider_record \<Rightarrow> chat_request \<Rightarrow> string \<Rightarrow> jdict \<Rightarrow> jdict option \<Rightarrow> bool" where
  "vouched s r q upstream_model upstream identity \<longleftrightarrow> (let pin = value_at (pr_digests r) (cr_model q) in
     \<exists>before after store.
       identity = Some (identity_block pin before after store)
     \<and> dget_or_null upstream ''model'' = JStr upstream_model
     \<and> id_observed before = pin \<and> (id_resident before = None \<or> id_resident before = Some pin)
     \<and> id_observed after = pin \<and> id_resident after = Some pin
     \<and> (store = None \<longleftrightarrow> \<not> has_key (pr_weights r) (cr_model q))
     \<and> (\<forall>b. store = Some b \<longrightarrow> (\<exists>k k'. verify_store_bytes (cs_store s) (value_at (pr_models r) (cr_model q)) pin
           (value_at (pr_weights r) (cr_model q)) (env_get (s_env (cs_sys s)) ''SZL_ROUTER_OLLAMA_MODELS_DIR'' []) k = (Inr b, k'))))"

lemma vouched_Some: "vouched s r q u upstream identity \<Longrightarrow> \<exists>i. identity = Some i"
  unfolding vouched_def Let_def by blast

lemma identity_judged:
  assumes "assert_ollama_identity s r m after_completion w = (Inr i, w')"
  shows "id_observed i = value_at (pr_digests r) m
    \<and> (id_resident i = None \<or> id_resident i = Some (value_at (pr_digests r) m))
    \<and> (after_completion \<longrightarrow> id_resident i = Some (value_at (pr_digests r) m))"
  using assms by (auto simp: assert_ollama_identity_def judge_identity_def Let_def
      split: prod.splits sum.splits option.splits if_splits)

lemma store_observed:
  assumes "observe_store_bytes s r m w = (Inr b, w')"
  shows "\<exists>k k'. verify_store_bytes (cs_store s) (value_at (pr_models r) m) (value_at (pr_digests r) m)
     (value_at (pr_weights r) m) (env_get (s_env (cs_sys s)) ''SZL_ROUTER_OLLAMA_MODELS_DIR'' []) k = (Inr b, k')"
proof -
  obtain res st where v: "verify_store_bytes (cs_store s) (value_at (pr_models r) m) (value_at (pr_digests r) m)
     (value_at (pr_weights r) m) (env_get (s_env (cs_sys s)) ''SZL_ROUTER_OLLAMA_MODELS_DIR'' []) (ct_store w) = (res, st)"
    by (rule prod.exhaust)
  with assms have "res = Inr b"
    by (cases res) (auto simp: observe_store_bytes_def split: option.splits http_result.splits)
  with v show ?thesis by blast
qed

lemma local_before_judged:
  assumes "local_before s r q w = (Inr before, w')"
  shows "case before of
      None \<Rightarrow> pr_type r = OpenaiHttps
    | Some (i, store) \<Rightarrow> pr_type r = OllamaLoopback \<and> id_observed i = value_at (pr_digests r) (cr_model q)
        \<and> (id_resident i = None \<or> id_resident i = Some (value_at (pr_digests r) (cr_model q)))
        \<and> (store = None \<longleftrightarrow> \<not> has_key (pr_weights r) (cr_model q))
        \<and> (\<forall>b. store = Some b \<longrightarrow> (\<exists>k k'. verify_store_bytes (cs_store s) (value_at (pr_models r) (cr_model q))
              (value_at (pr_digests r) (cr_model q)) (value_at (pr_weights r) (cr_model q))
              (env_get (s_env (cs_sys s)) ''SZL_ROUTER_OLLAMA_MODELS_DIR'' []) k = (Inr b, k')))"
proof (cases "pr_type r = OpenaiHttps")
  case True
  with assms show ?thesis by (auto simp: local_before_def)
next
  case False
  then have t: "pr_type r = OllamaLoopback" by (cases "pr_type r") auto
  obtain x w1 where x: "assert_ollama_identity s r (cr_model q) False w = (x, w1)" by fastforce
  with assms False obtain i where i: "x = Inr i" by (cases x) (auto simp: local_before_def)
  note j = identity_judged [OF x [unfolded i]]
  show ?thesis
  proof (cases "has_key (pr_weights r) (cr_model q)")
    case True
    obtain y w2 where y: "observe_store_bytes s r (cr_model q) w1 = (y, w2)" by fastforce
    with assms False x i True obtain b where b: "y = Inr b" by (cases y) (auto simp: local_before_def)
    with assms False x i y True have "before = Some (i, Some b)" by (auto simp: local_before_def)
    with t j store_observed [OF y [unfolded b]] True show ?thesis by simp
  next
    case no: False
    with assms False x i have "before = Some (i, None)" by (auto simp: local_before_def)
    with t j no show ?thesis by simp
  qed
qed

lemma call_answer:
  assumes "call_provider s r payload w = (Inr (upstream, status), w')"
  shows "status = 200"
  using assms by (auto simp: call_provider_def Let_def map_sum_def split: if_splits prod.splits http_result.splits option.splits sum.splits)

lemma attempt_answer:
  assumes "attempt_candidate s r q u w = (Inr (upstream, status, identity), w')"
  shows "completion_ok upstream \<and> status = 200
    \<and> (case pr_type r of OpenaiHttps \<Rightarrow> identity = None | OllamaLoopback \<Rightarrow> vouched s r q u upstream identity)"
proof -
  obtain before w1 where b: "local_before s r q w = (Inr before, w1)"
    using assms by (auto simp: attempt_candidate_def split: prod.splits sum.splits)
  obtain w2 where c: "call_provider s r (upstream_payload q u) w1 = (Inr (upstream, status), w2)" and ok: "completion_ok upstream"
    using assms b by (auto simp: attempt_candidate_def split: prod.splits sum.splits if_splits option.splits)
  note j = local_before_judged [OF b]
  show ?thesis
  proof (cases before)
    case None
    with assms b c ok j call_answer [OF c] show ?thesis by (auto simp: attempt_candidate_def)
  next
    case (Some x)
    obtain i store where x: "x = (i, store)" by (cases x)
    with Some assms b c ok obtain i2 w3 where a: "assert_ollama_identity s r (cr_model q) True w2 = (Inr i2, w3)"
      and m: "dget_or_null upstream ''model'' = JStr u"
      and id: "identity = Some (identity_block (value_at (pr_digests r) (cr_model q)) i i2 store)"
      by (auto simp: attempt_candidate_def split: prod.splits sum.splits if_splits)
    from j Some x identity_judged [OF a] m id ok call_answer [OF c] show ?thesis
      unfolding vouched_def Let_def by (simp add: x) blast
  qed
qed

section \<open>An answer verifies\<close>

lemma seal_sealed:
  assumes "seal s ids q c rows ms upstream identity = Inr (result, h)" "completion_ok upstream"
    and "json_digest (cs_sys s) (request_json q) = Inr (ci_request ids)"
  shows "\<exists>h2. sealed (cs_sys s) (success_body ids q c rows ms h2 identity) upstream (request_json q) h result
    \<and> json_digest (cs_sys s) (JObj upstream) = Inr h2"
proof -
  from assms(1) obtain h2 where h2: "json_digest (cs_sys s) (JObj upstream) = Inr h2"
    and h: "json_digest (cs_sys s) (JObj (success_body ids q c rows ms h2 identity)) = Inr h"
    and r: "result = dset ''szl_receipt'' (JObj (success_body ids q c rows ms h2 identity
        @ [(''digest'', JStr h), (''algorithm'', JStr ''sha256'')])) upstream"
    by (auto simp: seal_def Let_def bindE_Inr_iff split: if_splits)
  have "\<not> has_key upstream ''szl_receipt''" using assms(2) by (simp add: completion_ok_def)
  then have "result = upstream @ [(''szl_receipt'', JObj (success_body ids q c rows ms h2 identity
        @ [(''digest'', JStr h), (''algorithm'', JStr ''sha256'')]))]" "''szl_receipt'' \<notin> fst ` set upstream"
    by (auto simp: r dset_new)
  with h2 h assms(3) show ?thesis
    by (intro exI [of _ h2])
      (auto simp: sealed_def success_body_def json_digest_finite split: option.splits)
qed

lemma on_failure_no_reply:
  "on_failure s ids q r deadline rl attempts f w \<noteq> (Finish (Reply st result hs), w')"
  by (auto simp: on_failure_def Let_def refuse_def split: failure.splits prod.splits if_splits sum.splits)

lemma try_reply:
  assumes "try_candidate s ids q started c attempts w = (Finish (Reply st result hs), w')"
  shows "st = 200 \<and> (\<exists>rows ms upstream identity h w1 w2.
      attempt_candidate s (cd_record c) q (cd_upstream c) w1 = (Inr (upstream, 200, identity), w2)
    \<and> seal s ids q c rows ms upstream identity = Inr (result, h)
    \<and> hs = [(''X-SZL-Receipt'', h), (''Cache-Control'', ''no-store'')])"
proof -
  obtain t0 w0 where k: "control_clock s w = (t0, w0)" by fastforce
  obtain res w1 where a: "attempt_candidate s (cd_record c) q (cd_upstream c) w0 = (res, w1)" by fastforce
  from assms k have go: "\<not> (started + 660 - t0 \<le> 0)" "credential_state (s_env (cs_sys s)) (cd_record c) \<noteq> ''UNAVAILABLE''"
    by (auto simp: try_candidate_def Let_def split: if_splits)
  show ?thesis
  proof (cases res)
    case (Inl f)
    with assms k a go on_failure_no_reply show ?thesis by (simp add: try_candidate_def Let_def)
  next
    case (Inr x)
    obtain upstream code identity where x: "x = (upstream, code, identity)" by (metis prod_cases3)
    have code: "code = 200" using attempt_answer [OF a [unfolded Inr x]] by simp
    obtain t1 w2 where k2: "control_clock s w1 = (t1, w2)" by fastforce
    let ?seal = "seal s ids q c (attempts @ [attempt_row (pr_id (cd_record c)) ''SUCCESS'' [(''status_code'', JInt code)]])
        (py_round 3 ((t1 - started) * 1000)) upstream identity"
    show ?thesis
    proof (cases ?seal)
      case (Inl e)
      with assms k a go Inr x k2 on_failure_no_reply show ?thesis by (simp add: try_candidate_def Let_def)
    next
      case sealed: (Inr y)
      obtain result' h where y: "y = (result', h)" by (cases y)
      with assms k a go Inr x k2 sealed have "st = 200" "result' = result"
        "hs = [(''X-SZL-Receipt'', h), (''Cache-Control'', ''no-store'')]"
        by (simp_all add: try_candidate_def Let_def)
      with sealed y a [unfolded Inr x code] show ?thesis by blast
    qed
  qed
qed

lemma loop_reply:
  "chat_loop s ids q started cs attempts w = (Inl (Reply st result hs), w') \<Longrightarrow>
   st = 200 \<and> (\<exists>c \<in> set cs. \<exists>rows ms upstream identity h w1 w2.
      attempt_candidate s (cd_record c) q (cd_upstream c) w1 = (Inr (upstream, 200, identity), w2)
    \<and> seal s ids q c rows ms upstream identity = Inr (result, h)
    \<and> hs = [(''X-SZL-Receipt'', h), (''Cache-Control'', ''no-store'')])"
proof (induction cs arbitrary: attempts w)
  case Nil
  then show ?case by simp
next
  case (Cons c cs)
  obtain t w1 where t: "try_candidate s ids q started c attempts w = (t, w1)" by fastforce
  show ?case
  proof (cases t)
    case (Finish a)
    with Cons.prems t have "try_candidate s ids q started c attempts w = (Finish (Reply st result hs), w')" by simp
    from try_reply [OF this] show ?thesis by auto
  next
    case (Next rows)
    with Cons.prems t have "chat_loop s ids q started cs rows w1 = (Inl (Reply st result hs), w')" by simp
    from Cons.IH [OF this] show ?thesis by auto
  next
    case (Leave rows)
    with Cons.prems t show ?thesis by simp
  qed
qed

lemma control_reply:
  assumes "control_chat s authorization q w = (Reply st result hs, w')"
  shows "st = 200 \<and> (\<exists>settings c ids rows ms h2 upstream identity h.
      load_settings (cs_sys s) (cs_typed s) = Inr settings
    \<and> c \<in> set (route_candidates (s_env (cs_sys s)) settings (plan_of_chat q))
    \<and> hs = [(''X-SZL-Receipt'', h), (''Cache-Control'', ''no-store'')] \<and> completion_ok upstream
    \<and> sealed (cs_sys s) (success_body ids q c rows ms h2 identity) upstream (request_json q) h result
    \<and> json_digest (cs_sys s) (JObj upstream) = Inr h2
    \<and> (case pr_type (cd_record c) of OpenaiHttps \<Rightarrow> identity = None
       | OllamaLoopback \<Rightarrow> vouched s (cd_record c) q (cd_upstream c) upstream identity))"
  using assms
proof (cases rule: control_chat_cases)
  case stopped
  then show ?thesis by simp
next
  case (gone settings ids cs started w0 res)
  have r: "res = Inl (Reply st result hs)"
  proof (cases res)
    case (Inl x)
    with gone(9) show ?thesis by simp
  next
    case (Inr rows)
    with gone(9) have "is_reply (all_failed_answer s ids rows)" by (metis is_reply.simps(1) sum.case(2))
    with all_failed_not_reply show ?thesis by simp
  qed
  from loop_reply [OF gone(8) [unfolded r]] obtain c rows ms upstream identity h w1 w2 where c: "st = 200" "c \<in> set cs"
    and a: "attempt_candidate s (cd_record c) q (cd_upstream c) w1 = (Inr (upstream, 200, identity), w2)"
    and sl: "seal s ids q c rows ms upstream identity = Inr (result, h)"
    and hs: "hs = [(''X-SZL-Receipt'', h), (''Cache-Control'', ''no-store'')]" by blast
  note aa = attempt_answer [OF a]
  from seal_sealed [OF sl _ gone(6)] aa obtain h2 where
    "sealed (cs_sys s) (success_body ids q c rows ms h2 identity) upstream (request_json q) h result"
    "json_digest (cs_sys s) (JObj upstream) = Inr h2" by blast
  with c hs aa gone(1,5) show ?thesis by blast
qed

section \<open>How long a text is\<close>

text \<open>A bound on the canonical text that evaluates without looking into the strings.\<close>

fun room :: "(rat \<Rightarrow> string) \<Rightarrow> json \<Rightarrow> nat" and room_list :: "(rat \<Rightarrow> string) \<Rightarrow> json list \<Rightarrow> nat"
  and room_items :: "(rat \<Rightarrow> string) \<Rightarrow> (string \<times> json) list \<Rightarrow> nat" where
  "room fr (JStr t) = 6 * length t + 2"
| "room fr (JInt i) = length (show_int i)"
| "room fr (JFloat f) = length (dump_float fr f)"
| "room fr (JArr xs) = 2 + room_list fr xs"
| "room fr (JObj d) = 2 + room_items fr d"
| "room fr _ = 5"
| "room_list fr [] = 0"
| "room_list fr (x # xs) = Suc (room fr x) + room_list fr xs"
| "room_items fr [] = 0"
| "room_items fr ((k, v) # d) = 6 * length k + 4 + room fr v + room_items fr d"

lemma length_join: "length sep = 1 \<Longrightarrow> length (join sep xs) \<le> sum_list (map (\<lambda>x. Suc (length x)) xs)"
  by (induction sep xs rule: join.induct) auto

definition one_char_seps :: "dump_opts \<Rightarrow> bool" where
  "one_char_seps opts \<longleftrightarrow> length (o_isep opts) = 1 \<and> length (o_ksep opts) = 1"

lemma dump_val_room:
  "one_char_seps opts \<Longrightarrow> length (dump_val opts j) \<le> room (o_float opts) j"
  "one_char_seps opts' \<Longrightarrow> sum_list (map (\<lambda>x. Suc (length x)) (dump_vals opts' xs)) \<le> room_list (o_float opts') xs"
  "one_char_seps opts'' \<Longrightarrow> sum_list (map (\<lambda>x. Suc (length x)) (dump_items opts'' d)) \<le> room_items (o_float opts'') d"
proof (induction opts j and opts' xs and opts'' d rule: dump_val_dump_vals_dump_items.induct)
  case (6 opts xs)
  with length_join [of "o_isep opts" "dump_vals opts xs"] show ?case by (simp add: one_char_seps_def)
next
  case (7 opts d)
  with length_join [of "o_isep opts" "dump_items opts d"] show ?case by (simp add: one_char_seps_def)
next
  case (11 opts k v d)
  with length_dump_str [of "o_ascii opts" k] show ?case by (simp add: one_char_seps_def)
next
  case (5 opts t)
  show ?case using length_dump_str [of "o_ascii opts" t] by simp
qed auto

lemma room_list_sum: "room_list fr xs = sum_list (map (\<lambda>x. Suc (room fr x)) xs)"
  by (induction xs) auto

lemma room_items_sum: "room_items fr d = sum_list (map (\<lambda>(k, v). 6 * length k + 4 + room fr v) d)"
  by (induction d) auto

lemma room_sort:
  "room fr (sort_json j) = room fr j" "room_list fr (sort_list xs) = room_list fr xs"
  "room_items fr (sort_items d) = room_items fr d"
proof (induction j and xs and d rule: sort_json_sort_list_sort_items.induct)
  case (2 d)
  have "mset (map (\<lambda>(k, v). 6 * length k + 4 + room fr v) (sort_key fst (sort_items d)))
      = mset (map (\<lambda>(k, v). 6 * length k + 4 + room fr v) (sort_items d))" by simp
  then have "sum_list (map (\<lambda>(k, v). 6 * length k + 4 + room fr v) (sort_key fst (sort_items d)))
      = sum_list (map (\<lambda>(k, v). 6 * length k + 4 + room fr v) (sort_items d))"
    by (metis sum_mset_sum_list)
  with 2 show ?case by (simp add: room_items_sum)
qed auto

lemma canonical_room: "length (utf8 (dumps (canonical_opts s) j)) \<le> 2 * room (s_frepr s) j"
proof -
  have c: "one_char_seps (canonical_opts s)" "o_float (canonical_opts s) = s_frepr s" "o_sort (canonical_opts s)"
    by (simp_all add: one_char_seps_def canonical_opts_def)
  have "length (dumps (canonical_opts s) j) \<le> room (s_frepr s) j"
    using dump_val_room(1) [OF c(1), of "sort_json j"] c by (simp add: dumps_def room_sort)
  with length_utf8 [of "dumps (canonical_opts s) j"] show ?thesis by simp
qed

section \<open>A run with an answer\<close>

text \<open>A scanner that reads back what was written: literals of a value without repeated keys.\<close>

fun replay :: "json \<Rightarrow> raw" and replay_list :: "json list \<Rightarrow> raw list"
  and replay_items :: "(string \<times> json) list \<Rightarrow> (string \<times> raw) list" where
  "replay JNull = RNull"
| "replay (JBool b) = RBool b"
| "replay (JInt i) = RInt i"
| "replay (JFloat f) = RFloat ''0.0''"
| "replay (JStr t) = RStr t"
| "replay (JArr xs) = RArr (replay_list xs)"
| "replay (JObj d) = RObj (replay_items d)"
| "replay_list [] = []"
| "replay_list (x # xs) = replay x # replay_list xs"
| "replay_items [] = []"
| "replay_items ((k, v) # d) = (k, replay v) # replay_items d"

fun zero_floats :: "json \<Rightarrow> bool" and zero_floats_list :: "json list \<Rightarrow> bool"
  and zero_floats_items :: "(string \<times> json) list \<Rightarrow> bool" where
  "zero_floats (JFloat f) = (f = Fin 0)"
| "zero_floats (JArr xs) = zero_floats_list xs"
| "zero_floats (JObj d) = (distinct (map fst d) \<and> zero_floats_items d)"
| "zero_floats _ = True"
| "zero_floats_list [] = True"
| "zero_floats_list (x # xs) = (zero_floats x \<and> zero_floats_list xs)"
| "zero_floats_items [] = True"
| "zero_floats_items ((k, v) # d) = (zero_floats v \<and> zero_floats_items d)"

lemma decode_replay:
  assumes "\<And>t. h_float h t = Inr (JFloat (Fin 0))" "\<And>d. distinct (map fst d) \<Longrightarrow> h_object h d = Inr (JObj d)"
  shows "zero_floats j \<Longrightarrow> decode h (replay j) = Inr j"
    "zero_floats_list xs \<Longrightarrow> decode_list h (replay_list xs) = Inr xs"
    "zero_floats_items d \<Longrightarrow> decode_items h (replay_items d) = Inr d"
  by (induction j and xs and d rule: zero_floats_zero_floats_list_zero_floats_items.induct) (auto simp: assms)

lemma plain_object_distinct: "distinct (map fst d) \<Longrightarrow> plain_object d = Inr (JObj d)"
  using unique_object_iff [of undefined d "JObj d"] by (auto simp: plain_object_def unique_object_def Let_def dict_of_def split: if_splits)

definition digest_of :: "json \<Rightarrow> string" where
  "digest_of j = sha256_hex (utf8 (dumps (canonical_opts demo_sys) j))"

definition demo_upstream :: jdict where
  "demo_upstream = [(''model'', JStr ''llama''), (''choices'', JArr [JObj [(''message'',
     JObj [(''role'', JStr ''assistant''), (''content'', JStr ''ok'')])]])]"

definition demo_seen :: identity where
  "demo_seen = \<lparr>id_expected = demo_pin, id_observed = demo_pin, id_resident = Some demo_pin\<rparr>"

definition demo_ids :: call_ids where
  "demo_ids = \<lparr>ci_request = digest_of (request_json demo_chat),
     ci_plan = digest_of (JObj (plan_body demo_settings (plan_of_chat demo_chat) [demo_candidate]))\<rparr>"

definition demo_body :: jdict where
  "demo_body = success_body demo_ids demo_chat demo_candidate
     [attempt_row ''local'' ''SUCCESS'' [(''status_code'', JInt 200)]] 0 (digest_of (JObj demo_upstream))
     (Some (identity_block demo_pin demo_seen demo_seen None))"

definition demo_result :: jdict where
  "demo_result = demo_upstream @ [(''szl_receipt'', JObj (demo_body
     @ [(''digest'', JStr (digest_of (JObj demo_body))), (''algorithm'', JStr ''sha256'')]))]"

definition demo_bundle :: json where
  "demo_bundle = JObj [(''completion'', JObj demo_result), (''request'', request_json demo_chat)]"

definition answer_scan :: scanner where
  "answer_scan t = (if t = ''inventory'' then demo_scan t
     else if t = ''answer'' then Inr (replay (JObj demo_upstream)) else Inr (replay demo_bundle))"

definition demo_answering :: control_sys where
  "demo_answering = demo_control answer_scan (demo_http (Answered 200 [''answer'']))"

lemma digest_of_finite: "json_finite j \<Longrightarrow> json_digest demo_sys j = Inr (digest_of j)"
  by (simp add: json_digest_finite digest_of_def)

lemma length_digest_of [simp]: "length (digest_of j) = 64"
  using sha256_hex_shape by (simp add: digest_of_def)

lemmas demo_defs = demo_result_def demo_upstream_def demo_body_def success_body_def demo_ids_def demo_chat_def
  demo_candidate_def candidate_of_def plan_of_chat_def demo_local_def attempt_row_def identity_block_def
  demo_seen_def opt_str_def request_json_def stop_json_def message_json_def

lemma demo_bundle_finite: "json_finite demo_bundle"
  by (simp add: demo_bundle_def demo_defs)

lemma demo_bundle_zero: "zero_floats demo_bundle"
  by (simp add: demo_bundle_def demo_defs)

lemma demo_bundle_small: "jnodes demo_bundle \<le> 1000" "jheight demo_bundle \<le> 10" "room (s_frepr demo_sys) demo_bundle \<le> 20000"
    "room (s_frepr demo_sys) (JObj demo_result) \<le> 20000"
  by (simp_all add: demo_bundle_def demo_defs demo_pin_def demo_sys_def small_sys_def show_int_def show_nat.simps)

text \<open>The text of a bundle opens with a brace, so that the scanner does not take it for another one.\<close>

lemma bundle_text:
  obtains bytes where "Verification.canonical demo_sys demo_bundle = Inr bytes" "bytes \<noteq> ''inventory''" "bytes \<noteq> ''answer''"
    "length bytes \<le> 40000"
proof
  show "Verification.canonical demo_sys demo_bundle = Inr (utf8 (dumps (canonical_opts demo_sys) demo_bundle))"
    using demo_bundle_finite by (simp add: canonical_finite)
  have "\<exists>rest. dumps (canonical_opts demo_sys) demo_bundle = CHR 0x7B # rest"
    by (simp add: dumps_def canonical_opts_def demo_bundle_def)
  then obtain rest where "dumps (canonical_opts demo_sys) demo_bundle = CHR 0x7B # rest" ..
  then have "\<exists>r. utf8 (dumps (canonical_opts demo_sys) demo_bundle) = CHR 0x7B # r" by (simp add: utf8_def)
  then show "utf8 (dumps (canonical_opts demo_sys) demo_bundle) \<noteq> ''inventory''"
    "utf8 (dumps (canonical_opts demo_sys) demo_bundle) \<noteq> ''answer''" by auto
  show "length (utf8 (dumps (canonical_opts demo_sys) demo_bundle)) \<le> 40000"
    using canonical_room [of demo_sys demo_bundle] demo_bundle_small(3) by simp
qed

lemma demo_bundle_parses:
  assumes "Verification.canonical demo_sys demo_bundle = Inr bytes" "bytes \<noteq> ''inventory''" "bytes \<noteq> ''answer''"
    "length bytes \<le> 40000"
  shows "parse_bundle demo_sys answer_scan bytes = Inr (obj_items demo_bundle)"
proof -
  have "decode (bundle_hooks demo_sys) (replay demo_bundle) = Inr demo_bundle"
    by (rule decode_replay(1)) (simp_all add: demo_bundle_zero bundle_hooks_def plain_float_def demo_sys_def unique_object_iff)
  with assms(2,3) have "decode_bundle demo_sys answer_scan bytes = Inr demo_bundle"
    by (simp add: decode_bundle_def answer_scan_def demo_sys_def small_sys_def)
  moreover have "request_json demo_chat = JObj (obj_items (request_json demo_chat))" by (simp add: request_json_def)
  then have "is_obj (request_json demo_chat)" by (metis is_obj.simps(1))
  ultimately show ?thesis using assms(4) demo_bundle_small(1,2)
    by (simp add: parse_bundle_iff bundle_shape_iff demo_bundle_def MAX_VERIFICATION_BYTES_def MAX_JSON_NODES_def MAX_JSON_DEPTH_def)
qed

lemma demo_sealed: "sealed demo_sys demo_body demo_upstream (request_json demo_chat) (digest_of (JObj demo_body)) demo_result"
proof -
  have "json_finite (JObj demo_body)" "json_finite (JObj demo_upstream)" by (simp_all add: demo_defs)
  with demo_request show ?thesis
    by (simp add: sealed_def digest_of_finite)
      (simp add: demo_defs)
qed

lemma checks_no_header:
  assumes "completion_checks z c q (Some h) = Inr checks" "consistent checks"
  shows "\<exists>checks'. completion_checks z c q None = Inr checks' \<and> consistent checks'"
proof -
  from assms(1) obtain checks' where "completion_checks z c q None = Inr checks'"
    "checks = checks' @ header_check (receipt_in c) (Some h)"
    by (auto simp: completion_checks_def bindE_Inr_iff Let_def header_check_def split: if_splits)
  with assms(2) show ?thesis by (auto simp: consistent_def)
qed

lemma demo_verifies: "\<exists>v. verify_completion demo_sys demo_result (request_json demo_chat) None = Inr v
    \<and> dget_or_null v ''status'' = JStr ''CONSISTENT''"
proof -
  have "length (utf8 (dumps (canonical_opts demo_sys) (JObj demo_result))) \<le> MAX_COMPLETION_BYTES"
    using canonical_room [of demo_sys "JObj demo_result"] demo_bundle_small(4) by (simp add: MAX_COMPLETION_BYTES_def)
  from sealed_checks [OF demo_sealed this] checks_no_header show ?thesis
    by (fastforce simp: verify_completion_def dget_or_null_def)
qed

lemma demo_seals:
  "seal demo_answering demo_ids demo_chat demo_candidate [attempt_row ''local'' ''SUCCESS'' [(''status_code'', JInt 200)]] 0
     demo_upstream (Some (identity_block demo_pin demo_seen demo_seen None)) = Inr (demo_result, digest_of (JObj demo_body))"
proof -
  obtain bytes where t: "Verification.canonical demo_sys demo_bundle = Inr bytes" "bytes \<noteq> ''inventory''" "bytes \<noteq> ''answer''"
    "length bytes \<le> 40000" by (rule bundle_text)
  obtain v where v: "verify_completion demo_sys demo_result (request_json demo_chat) None = Inr v"
    "dget_or_null v ''status'' = JStr ''CONSISTENT''" using demo_verifies by blast
  have f: "json_finite (JObj demo_body)" "json_finite (JObj demo_upstream)" by (simp_all add: demo_defs)
  have sys: "cs_sys demo_answering = demo_sys" "cs_scan demo_answering = answer_scan" by (simp_all add: demo_answering_def)
  have r: "dset ''szl_receipt'' x demo_upstream = demo_upstream @ [(''szl_receipt'', x)]" for x
    by (simp add: demo_upstream_def)
  show ?thesis
    unfolding seal_def Let_def sys digest_of_finite [OF f(2)] bindE_simps demo_body_def [symmetric] digest_of_finite [OF f(1)] r
      demo_result_def [symmetric] demo_bundle_def [symmetric] t(1) demo_bundle_parses [OF t]
    using v by (simp add: demo_bundle_def dget_or_null_def)
qed

lemma demo_attempt:
  obtains w' where "attempt_candidate demo_answering demo_local demo_chat ''llama'' running_control
    = (Inr (demo_upstream, 200, Some (identity_block demo_pin demo_seen demo_seen None)), w')"
proof -
  have sys: "cs_sys demo_answering = demo_sys" "cs_scan demo_answering = answer_scan"
    "cs_http demo_answering = demo_http (Answered 200 [''answer''])" "answer_scan ''inventory'' = demo_scan ''inventory''"
    "s_env demo_sys = demo_env" "s_decode demo_sys = Some"
    by (simp_all add: demo_answering_def answer_scan_def demo_sys_def small_sys_def)
  have "decode (plain_hooks demo_sys) (replay (JObj demo_upstream)) = Inr (JObj demo_upstream)"
    by (rule decode_replay(1)) (simp_all add: plain_hooks_def plain_float_def demo_sys_def plain_object_distinct demo_upstream_def)
  then have read: "read_completion demo_answering ''answer'' = Inr demo_upstream"
    by (simp add: read_completion_def sys answer_scan_def within_limits_iff demo_upstream_def MAX_JSON_NODES_def MAX_JSON_DEPTH_def)
  have url: "completion_url demo_local = ''http://127.0.0.1:11434/v1/chat/completions''" by code_simp
  have ok: "completion_ok demo_upstream" "dget_or_null demo_upstream ''model'' = JStr ''llama''"
    by (simp_all add: completion_ok_def demo_upstream_def dget_or_null_def choice_ok_def text_or_none_def tool_calls_ok_def)
  have pin: "value_at (pr_digests demo_local) ''m'' = demo_pin" by (simp add: value_at_def demo_local_def)
  show thesis
    by (rule that) (simp add: demo_shape attempt_candidate_def local_before_def demo_identity sys demo_http_def running_control_def
        idle_control_def call_provider_def provider_token_def send_def read ok pin demo_seen_def)
qed

lemma demo_answers:
  obtains w' where "control_chat demo_answering (Some ''Bearer t'') demo_chat idle_control
    = (Reply 200 demo_result [(''X-SZL-Receipt'', digest_of (JObj demo_body)), (''Cache-Control'', ''no-store'')], w')"
proof -
  obtain w1 where a: "attempt_candidate demo_answering demo_local demo_chat ''llama'' running_control
    = (Inr (demo_upstream, 200, Some (identity_block demo_pin demo_seen demo_seen None)), w1)" by (rule demo_attempt)
  have c: "cd_record demo_candidate = demo_local" "cd_upstream demo_candidate = ''llama''"
    by (simp_all add: demo_candidate_def candidate_of_def demo_local_def plan_of_chat_def demo_chat_def)
  have clock: "cs_clock demo_answering = (\<lambda>_. 0)" by (simp add: demo_answering_def)
  have zero: "py_round 3 0 = 0" by code_simp
  let ?a = "Reply 200 demo_result [(''X-SZL-Receipt'', digest_of (JObj demo_body)), (''Cache-Control'', ''no-store'')]"
  have k: "control_clock demo_answering w1 = (0, w1\<lparr>ct_ticks := Suc (ct_ticks w1)\<rparr>)"
    by (simp add: control_clock_def clock)
  have "fst (chat_loop demo_answering demo_ids demo_chat 0 [demo_candidate] [] started_control) = Inl ?a"
    using a demo_shape demo_seals
    by (simp add: try_candidate_def demo_clock [OF clock] c credential_state_def k zero)
  then obtain w2 where "chat_loop demo_answering demo_ids demo_chat 0 [demo_candidate] [] started_control = (Inl ?a, w2)"
    by (metis prod.collapse)
  then have l: "chat_loop demo_answering \<lparr>ci_request = digest_of (request_json demo_chat),
      ci_plan = digest_of (JObj (plan_body demo_settings (plan_of_chat demo_chat) [demo_candidate]))\<rparr> demo_chat 0 [demo_candidate] []
      started_control = (Inl ?a, w2)" by (simp add: demo_ids_def)
  obtain request p where d: "json_digest demo_sys (request_json demo_chat) = Inr request"
    "json_digest demo_sys (JObj (plan_body demo_settings (plan_of_chat demo_chat) [demo_candidate])) = Inr p"
    by (rule demo_digests)
  then have "request = digest_of (request_json demo_chat)"
    "p = digest_of (JObj (plan_body demo_settings (plan_of_chat demo_chat) [demo_candidate]))"
    by (simp_all add: json_digest_finite digest_of_def)
  with d l demo_run [of demo_answering, OF _ _ clock] have
    "control_chat demo_answering (Some ''Bearer t'') demo_chat idle_control = (?a, w2)"
    by (simp add: demo_answering_def)
  then show thesis by (rule that)
qed





end
