(* ===== verification/ControlPages.thy ===== *)
theory ControlPages
  imports ControlAnswers
begin

text \<open>
  \<open>router_control/app.py\<close>, the pages beside the inference handler: version, deployment and source
  attestation, the observation of the local models with its lock and its short-lived cache, and the
  endpoint that verifies a completion.

  The lemmas: observing the local models is read-only, bounded and happens at most once per
  configuration and two seconds; what the inference handler emits is what the verify endpoint accepts.
\<close>

section \<open>Static pages\<close>

definition APP_VERSION :: string where "APP_VERSION = ''1.1.0''"

definition control_healthz :: jdict where
  "control_healthz = [(''status'', JStr ''ok''), (''service'', JStr ''szl-router''), (''version'', JStr APP_VERSION)]"

definition version_page :: "env \<Rightarrow> jdict" where
  "version_page e = [(''version'', JStr APP_VERSION), (''git_sha'', JStr (source_revision e)), (''model_sha'', JNull),
     (''model_sha_state'', JStr ''UNAVAILABLE_MUTABLE_MODEL_ALIASES'')]"

definition deployment_page :: "env \<Rightarrow> settings \<Rightarrow> jdict" where
  "deployment_page e st = [(''schema'', JStr ''szl.router-deployment/v1''), (''service'', JStr ''szl-router''),
     (''version'', JStr APP_VERSION), (''source_revision'', JStr (source_revision e)),
     (''runtime_state'', JStr ''MEASURED_BY_THIS_RESPONSE''), (''registry_state'', JStr (st_state st)),
     (''egress_enabled'', JBool (st_egress st)), (''inference'', JObj (inference_readiness e st)),
     (''hub_publication'', JStr ''UNAVAILABLE_UNLESS_PROVIDER_READBACK_EXISTS'')]"

definition CONTROLLED_FILES :: "string list" where
  "CONTROLLED_FILES = map (\<lambda>p. ''router_control/'' @ p) [''app.py'', ''local_store.py'', ''verification.py'', ''free_tier.py'',
     ''static/index.html'', ''static/app.js'', ''static/styles.css'', ''static/free-options.js'', ''static/free-options.css'',
     ''static/szl/szl-tokens.css'', ''static/szl/szl-icon-32.svg'', ''static/szl/SOURCE.json'', ''static/szl/PROJECTION.json'']"

text \<open>\<open>read p\<close> is the content of a regular file below the source root, \<open>None\<close> if there is none.\<close>

definition source_page :: "sys \<Rightarrow> (string \<Rightarrow> string option) \<Rightarrow> exn + jdict" where
  "source_page s read = with_digest s [
     (''schema'', JStr ''szl.router-source/v1''), (''repository'', JStr ''szl-holdings/szl-router''),
     (''revision'', JStr (source_revision (s_env s))),
     (''controlled_files'', JObj (concat (map (\<lambda>p. case read p of None \<Rightarrow> [] | Some data \<Rightarrow> [(p, JStr (sha256_hex data))])
        CONTROLLED_FILES))),
     (''default_egress'', JBool False), (''secret_output'', JBool False), (''arbitrary_url_routing'', JBool False)]"

section \<open>The local models\<close>

definition is_local :: "provider_record \<Rightarrow> bool" where
  "is_local r = (pr_type r = OllamaLoopback)"

definition local_model_row :: "string \<Rightarrow> string dict \<Rightarrow> string dict \<Rightarrow> provider_record \<Rightarrow> string \<times> string \<Rightarrow> json" where
  "local_model_row provider_state tags running r m =
     (let (public_model, upstream_model) = m; reachable = (provider_state = ''REACHABLE'');
          expected = value_at (pr_digests r) public_model;
          seen = (if reachable then dget tags upstream_model else None);
          resident = (if reachable then dget running upstream_model else None)
      in JObj [(''public_model'', JStr public_model), (''upstream_model'', JStr upstream_model),
           (''expected_digest'', JStr expected), (''observed_digest'', opt_str seen), (''resident_digest'', opt_str resident),
           (''state'', JStr (if \<not> reachable then ''UNAVAILABLE'' else case seen of None \<Rightarrow> ''ABSENT''
              | Some d \<Rightarrow> if d = expected then ''MATCH'' else ''DIGEST_MISMATCH'')),
           (''resident_state'', JStr (if \<not> reachable then ''UNAVAILABLE'' else case resident of None \<Rightarrow> ''NOT_LOADED''
              | Some d \<Rightarrow> if d = expected then ''MATCH'' else ''DIGEST_MISMATCH'')),
           (''store_byte_state'', JStr (if has_key (pr_weights r) public_model then ''PIN_CONFIGURED_NOT_PROBED'' else ''NOT_CONFIGURED'')),
           (''license_state'', JStr ''NOT_VERIFIED'')])"

definition local_provider_row :: "string \<Rightarrow> string dict \<Rightarrow> string dict \<Rightarrow> provider_record \<Rightarrow> json" where
  "local_provider_row inventory_state tags running r =
     (let provider_state = (if pr_enabled r then inventory_state else ''PROVIDER_DISABLED'') in
      JObj [(''provider_id'', JStr (pr_id r)), (''provider_type'', JStr (type_text (pr_type r))),
        (''inventory_state'', JStr provider_state),
        (''models'', JArr (map (local_model_row provider_state tags running r) (pr_models r)))])"

definition local_models_body :: "settings \<Rightarrow> string \<Rightarrow> string dict \<Rightarrow> string dict \<Rightarrow> jdict" where
  "local_models_body st inventory_state tags running = [
     (''schema'', JStr ''szl.router-local-models/v1''),
     (''status'', JStr (if inventory_state = ''REACHABLE'' then ''observed'' else ''unavailable'')),
     (''basis'', JStr ''LOCAL_DAEMON_REPORTED''),
     (''providers'', JArr (map (local_provider_row inventory_state tags running) (filter is_local (st_registry st))))]"

definition local_models_result :: "sys \<Rightarrow> jdict \<Rightarrow> string \<Rightarrow> string option \<Rightarrow> rat option \<Rightarrow> exn + jdict" where
  "local_models_result s body state seen_at age = with_digest s (body @ [(''observation_state'', JStr state),
     (''observed_at'', opt_str seen_at),
     (''observation_age_ms'', (case age of None \<Rightarrow> JNull | Some a \<Rightarrow> JFloat (Fin a)))])"

text \<open>\<open>model_dump(mode="json")\<close> of the registry, and the digest that keys the cache.\<close>

definition record_json :: "provider_record \<Rightarrow> json" where
  "record_json r = JObj [(''id'', JStr (pr_id r)), (''provider_type'', JStr (type_text (pr_type r))),
     (''base_url'', opt_str (pr_base_url r)), (''models'', string_map (pr_models r)),
     (''model_digests'', string_map (pr_digests r)), (''model_weight_digests'', string_map (pr_weights r)),
     (''token_env'', opt_str (pr_token_env r)), (''priority'', JInt (pr_priority r)), (''sovereignty'', JInt (pr_sovereignty r)),
     (''cost_tier'', JInt (pr_cost_tier r)), (''classifications'', JArr (map JStr (pr_classes r))), (''enabled'', JBool (pr_enabled r))]"

definition config_key :: "sys \<Rightarrow> settings \<Rightarrow> exn + string" where
  "config_key s st = json_digest s (JObj [(''registry_state'', JStr (st_state st)), (''egress_enabled'', JBool (st_egress st)),
     (''allowed_hosts'', JArr (map JStr (sort (st_hosts st)))),
     (''providers'', JObj [(''providers'', JArr (map record_json (st_registry st)))])])"

text \<open>The two module variables: the last observation (key, clock, date, body) and the lock.\<close>

record probe =
  pb_cache :: "(string \<times> rat \<times> string \<times> jdict) option"
  pb_locked :: bool

definition LOCAL_MODEL_CACHE_SECONDS :: rat where "LOCAL_MODEL_CACHE_SECONDS = 2"

definition cached_recent :: "probe \<Rightarrow> string \<Rightarrow> rat \<Rightarrow> (rat \<times> string \<times> jdict) option" where
  "cached_recent p key now_t = (case pb_cache p of
     None \<Rightarrow> None
   | Some (k, t, seen_at, body) \<Rightarrow>
       if k = key \<and> now_t - t < LOCAL_MODEL_CACHE_SECONDS then Some (now_t - t, seen_at, body) else None)"

definition no_probe :: "settings \<Rightarrow> string option" where
  "no_probe st = (let providers = filter is_local (st_registry st) in
     if providers = [] then Some ''UNAVAILABLE_NOT_CONFIGURED''
     else if \<not> st_egress st then Some ''EGRESS_DISABLED''
     else if \<not> list_ex pr_enabled providers then Some ''PROVIDER_DISABLED'' else None)"

definition cached_answer :: "sys \<Rightarrow> rat \<times> string \<times> jdict \<Rightarrow> exn + jdict" where
  "cached_answer s x = (let (age, seen_at, body) = x in
     local_models_result s body ''CACHED_RECENT'' (Some seen_at) (Some (py_round 3 (age * 1000))))"

text \<open>
  Up to the lock: an answer, or the key under which to probe. The handler does not await before the
  second look at the cache, so that nobody else runs in between.
\<close>

definition local_begin :: "control_sys \<Rightarrow> settings \<Rightarrow> probe \<Rightarrow> control \<Rightarrow> ((exn + jdict) + string) \<times> probe \<times> control" where
  "local_begin s st p w =
     (let z = cs_sys s in
      case no_probe st of
        Some state \<Rightarrow> (Inl (local_models_result z (local_models_body st state [] []) ''NO_PROBE'' None None), p, w)
      | None \<Rightarrow>
      (case config_key z st of
         Inl e \<Rightarrow> (Inl (Inl e), p, w)
       | Inr key \<Rightarrow>
           let (t1, w1) = control_clock s w in
           (case cached_recent p key t1 of
              Some x \<Rightarrow> (Inl (cached_answer z x), p, w1)
            | None \<Rightarrow>
                if pb_locked p
                then (Inl (local_models_result z (local_models_body st ''BUSY'' [] []) ''BUSY'' None None), p, w1)
                else let (t2, w2) = control_clock s w1 in
                  (case cached_recent p key t2 of
                     Some x \<Rightarrow> (Inl (cached_answer z x), p, w2)
                   | None \<Rightarrow> (Inr key, p\<lparr>pb_locked := True\<rparr>, w2)))))"

text \<open>Under the lock: two inventories, the cache, and the release whatever happens.\<close>

definition local_observe :: "control_sys \<Rightarrow> settings \<Rightarrow> control \<Rightarrow> (exn + jdict) \<times> control" where
  "local_observe s st w =
     (case ollama_inventory s ''tags'' w of
        (Inl (Escapes e), w1) \<Rightarrow> (Inl e, w1)
      | (Inl _, w1) \<Rightarrow> (Inr (local_models_body st ''UNAVAILABLE'' [] []), w1)
      | (Inr tags, w1) \<Rightarrow>
          (case ollama_inventory s ''ps'' w1 of
             (Inl (Escapes e), w2) \<Rightarrow> (Inl e, w2)
           | (Inl _, w2) \<Rightarrow> (Inr (local_models_body st ''UNAVAILABLE'' [] []), w2)
           | (Inr running, w2) \<Rightarrow> (Inr (local_models_body st ''REACHABLE'' tags running), w2)))"

definition local_finish ::
  "control_sys \<Rightarrow> (nat \<Rightarrow> string) \<Rightarrow> settings \<Rightarrow> string \<Rightarrow> probe \<Rightarrow> control \<Rightarrow> (exn + jdict) \<times> probe \<times> control" where
  "local_finish s date st key p w =
     (case local_observe s st w of
        (Inl e, w1) \<Rightarrow> (Inl e, p\<lparr>pb_locked := False\<rparr>, w1)
      | (Inr body, w1) \<Rightarrow>
          let seen_at = date (ct_ticks w1); (completed, w2) = control_clock s w1
          in (local_models_result (cs_sys s) body ''LIVE_PROBE'' (Some seen_at) (Some 0),
              p\<lparr>pb_cache := Some (key, completed, seen_at, body), pb_locked := False\<rparr>, w2))"

definition local_models :: "control_sys \<Rightarrow> (nat \<Rightarrow> string) \<Rightarrow> probe \<Rightarrow> control \<Rightarrow> (exn + jdict) \<times> probe \<times> control" where
  "local_models s date p w =
     (case load_settings (cs_sys s) (cs_typed s) of
        Inl e \<Rightarrow> (Inl e, p, w)
      | Inr st \<Rightarrow>
          (case local_begin s st p w of
             (Inl answer, p', w') \<Rightarrow> (answer, p', w')
           | (Inr key, p', w') \<Rightarrow> local_finish s date st key p' w'))"

section \<open>The verify endpoint\<close>

text \<open>\<open>typed\<close> is pydantic's reading of the request into typed fields; the validators follow.\<close>

definition normalize_request :: "(json \<Rightarrow> exn + chat_request) \<Rightarrow> json \<Rightarrow> exn + json" where
  "normalize_request typed j = bindE (typed j) (\<lambda>q0. bindE (validate_chat q0) (\<lambda>q. Inr (request_json q)))"

definition verify_page ::
  "sys \<Rightarrow> scanner \<Rightarrow> (json \<Rightarrow> exn + chat_request) \<Rightarrow> string list \<Rightarrow> string option \<Rightarrow> exn + int \<times> jdict" where
  "verify_page s scan typed parts header =
     (case gather MAX_VERIFICATION_BYTES [] parts of
        None \<Rightarrow> Inr (413, detail_code ''VERIFICATION_INPUT_TOO_LARGE'')
      | Some content \<Rightarrow>
          (case bindE (parse_bundle s scan content) (\<lambda>bundle.
                bindE (normalize_request typed (dget_or_null bundle ''request'')) (\<lambda>normalized.
                  verify_completion s (obj_items (dget_or_null bundle ''completion'')) normalized header)) of
             Inr v \<Rightarrow> Inr (if dget_or_null v ''status'' = JStr ''CONSISTENT'' then 200 else 422, v)
           | Inl e \<Rightarrow> if is_value_error e \<or> exn_class e = ''RecursionError''
                      then Inr (422, detail_code ''INVALID_VERIFICATION_INPUT'') else Inl e))"

section \<open>Observing the local models is bounded and read-only\<close>

lemma inventory_log: "ollama_inventory s kind w = (r, w') \<Longrightarrow> ct_log w' = ct_log w @ [GetInventory kind]"
  by (auto simp: ollama_inventory_def send_def)

lemma clock_log: "control_clock s w = (t, w') \<Longrightarrow> ct_log w' = ct_log w"
  by (auto simp: control_clock_def)

definition inventories :: "sent list \<Rightarrow> bool" where
  "inventories news \<longleftrightarrow> length news \<le> 2 \<and> set news \<subseteq> {GetInventory ''tags'', GetInventory ''ps''}"

definition local_body :: "settings \<Rightarrow> jdict \<Rightarrow> bool" where
  "local_body st body \<longleftrightarrow> body = local_models_body st ''UNAVAILABLE'' [] []
     \<or> (\<exists>tags running. body = local_models_body st ''REACHABLE'' tags running)"

lemma local_observe_log:
  assumes "local_observe s st w = (r, w')"
  shows "(\<exists>news. ct_log w' = ct_log w @ news \<and> inventories news) \<and> (\<forall>body. r = Inr body \<longrightarrow> local_body st body)"
proof -
  obtain t w1 where t: "ollama_inventory s ''tags'' w = (t, w1)" by fastforce
  obtain q w2 where q: "ollama_inventory s ''ps'' w1 = (q, w2)" by fastforce
  have "(w' = w1 \<or> w' = w2) \<and> (\<forall>body. r = Inr body \<longrightarrow> local_body st body)"
    using assms t q by (auto simp: local_observe_def local_body_def split: sum.splits failure.splits)
  with inventory_log [OF t] inventory_log [OF q] show ?thesis by (auto simp: inventories_def)
qed

lemma local_begin_cases:
  assumes "local_begin s st p w = (r, p', w')"
  shows "ct_log w' = ct_log w \<and> (case r of
      Inl answer \<Rightarrow> p' = p
    | Inr key \<Rightarrow> p' = p\<lparr>pb_locked := True\<rparr> \<and> \<not> pb_locked p \<and> no_probe st = None \<and> config_key (cs_sys s) st = Inr key
        \<and> (\<exists>t. cached_recent p key t = None))"
  using assms clock_log
  by (fastforce simp: local_begin_def Let_def split: option.splits sum.splits prod.splits if_splits)

lemma local_finish_cases:
  assumes "local_finish s date st key p w = (r, p', w')"
  shows "(\<exists>news. ct_log w' = ct_log w @ news \<and> inventories news) \<and> \<not> pb_locked p'
    \<and> (pb_cache p' = pb_cache p \<or> (\<exists>t seen_at body. pb_cache p' = Some (key, t, seen_at, body) \<and> local_body st body))"
proof -
  obtain x w1 where x: "local_observe s st w = (x, w1)" by fastforce
  obtain t w2 where t: "control_clock s w1 = (t, w2)" by fastforce
  have "(w' = w1 \<or> w' = w2) \<and> \<not> pb_locked p'
    \<and> (pb_cache p' = pb_cache p \<or> (\<exists>t seen_at body. pb_cache p' = Some (key, t, seen_at, body) \<and> x = Inr body))"
    using assms x t by (auto simp: local_finish_def Let_def split: sum.splits)
  with local_observe_log [OF x] clock_log [OF t] show ?thesis by auto
qed

text \<open>
  Observing the local models is bounded and read-only. One call of the local-models page sends at
  most two requests, all of them inventories of the loopback daemon; it sends them only if the settings
  loaded, egress is enabled, an enabled loopback provider is configured, nobody holds the lock and
  there is no observation of this very configuration from the last two seconds; whatever happens the
  lock is as it was before the call; and while another call holds the lock the cache is not touched,
  otherwise the cache is unchanged or holds an observation made under the digest of the current
  settings.
\<close>

theorem local_models_read_only:
  assumes "local_models s date p w = (r, p', w')"
  shows "pb_locked p' = pb_locked p \<and> (pb_locked p \<longrightarrow> p' = p)
    \<and> (\<exists>news. ct_log w' = ct_log w @ news \<and> inventories news
       \<and> (news = [] \<or> (\<exists>st key t. load_settings (cs_sys s) (cs_typed s) = Inr st \<and> no_probe st = None \<and> \<not> pb_locked p
             \<and> config_key (cs_sys s) st = Inr key \<and> cached_recent p key t = None)))
    \<and> (pb_cache p' = pb_cache p \<or> (\<exists>st key t seen_at body. load_settings (cs_sys s) (cs_typed s) = Inr st
         \<and> config_key (cs_sys s) st = Inr key \<and> pb_cache p' = Some (key, t, seen_at, body) \<and> local_body st body))"
proof (cases "load_settings (cs_sys s) (cs_typed s)")
  case (Inl e)
  with assms show ?thesis by (simp add: local_models_def inventories_def)
next
  case (Inr st)
  obtain x p1 w1 where b: "local_begin s st p w = (x, p1, w1)" by (rule prod_cases3)
  note bc = local_begin_cases [OF b]
  show ?thesis
  proof (cases x)
    case (Inl answer)
    with assms Inr b bc show ?thesis by (simp add: local_models_def inventories_def)
  next
    case key: (Inr key)
    with assms Inr b have f: "local_finish s date st key p1 w1 = (r, p', w')" by (simp add: local_models_def)
    from bc key obtain t where k: "p1 = p\<lparr>pb_locked := True\<rparr>" "\<not> pb_locked p" "no_probe st = None"
      "config_key (cs_sys s) st = Inr key" "cached_recent p key t = None" "ct_log w1 = ct_log w" by auto
    from local_finish_cases [OF f] k obtain news where n: "ct_log w' = ct_log w @ news" "inventories news" "\<not> pb_locked p'"
      and c: "pb_cache p' = pb_cache p \<or> (\<exists>t seen_at body. pb_cache p' = Some (key, t, seen_at, body) \<and> local_body st body)"
      by auto
    show ?thesis
    proof (intro conjI)
      show "\<exists>news. ct_log w' = ct_log w @ news \<and> inventories news
       \<and> (news = [] \<or> (\<exists>st key t. load_settings (cs_sys s) (cs_typed s) = Inr st \<and> no_probe st = None \<and> \<not> pb_locked p
             \<and> config_key (cs_sys s) st = Inr key \<and> cached_recent p key t = None))"
        using n Inr k by blast
    qed (use n k c Inr in auto)
  qed
qed

theorem local_models_read_only_witness:
  "\<exists>r p' w' st. local_models (demo_control demo_scan (\<lambda>_. Answered 200 [''inventory''])) (\<lambda>_. []) \<lparr>pb_cache = None, pb_locked = False\<rparr>
       idle_control = (r, p', w')
     \<and> ct_log w' = [GetInventory ''tags'', GetInventory ''ps''] \<and> \<not> pb_locked p'
     \<and> load_settings demo_sys (\<lambda>_. Inr [demo_local]) = Inr st \<and> no_probe st = None"
proof -
  let ?s = "demo_control demo_scan (\<lambda>_. Answered 200 [''inventory''])"
  let ?p = "\<lparr>pb_cache = None, pb_locked = False\<rparr>"
  obtain r p' w' where r: "local_models ?s (\<lambda>_. []) ?p idle_control = (r, p', w')" by (rule prod_cases3)
  have np: "no_probe demo_settings = None"
    by (simp add: no_probe_def demo_settings_def is_local_def demo_local_def Let_def)
  have "\<exists>key. config_key demo_sys demo_settings = Inr key"
    by (simp add: config_key_def json_digest_finite demo_settings_def record_json_def demo_local_def opt_str_def string_map_def)
  then obtain key where key: "config_key demo_sys demo_settings = Inr key" ..
  have b: "local_begin ?s demo_settings ?p idle_control = (Inr key, ?p\<lparr>pb_locked := True\<rparr>, running_control)"
    by (simp add: local_begin_def np key control_clock_def cached_recent_def running_control_def idle_control_def)
  have "ct_log w' = [GetInventory ''tags'', GetInventory ''ps'']"
  proof -
    have log: "ct_log running_control = []" by (simp add: running_control_def idle_control_def)
    from r have "local_finish ?s (\<lambda>_. []) demo_settings key (?p\<lparr>pb_locked := True\<rparr>) running_control = (r, p', w')"
      by (simp add: local_models_def demo_loads b)
    then show ?thesis
      by (auto simp: local_finish_def local_observe_def demo_inventory control_clock_def log Let_def)
  qed
  moreover from local_models_read_only [OF r] have "\<not> pb_locked p'" by simp
  ultimately show ?thesis using r np demo_loads by blast
qed

section \<open>What is emitted is what is verified\<close>

text \<open>
  An emitted answer passes the verify endpoint. Take an answer that the inference handler returned
  and post it, in any chunking within the byte limit, as a bundle with the original request and with the
  receipt header it came with: the verify endpoint answers 200 with status CONSISTENT.
\<close>

theorem answer_passes_verify_page:
  assumes "control_chat s authorization q w = (Reply st result hs, w')"
    and "length (utf8 (dumps (canonical_opts (cs_sys s)) (JObj result))) \<le> MAX_COMPLETION_BYTES"
    and "length (concat parts) \<le> MAX_VERIFICATION_BYTES" "parse_bundle (cs_sys s) scan (concat parts) = Inr bundle"
    and "dget_or_null bundle ''completion'' = JObj result"
    and "normalize_request typed (dget_or_null bundle ''request'') = Inr (request_json q)"
  shows "\<exists>h v. dget hs ''X-SZL-Receipt'' = Some h \<and> verify_page (cs_sys s) scan typed parts (Some h) = Inr (200, v)
     \<and> dget_or_null v ''status'' = JStr ''CONSISTENT''"
proof -
  have g: "length data + length (concat ps) \<le> limit \<Longrightarrow> gather limit data ps = Some (data @ concat ps)" for limit data ps
    by (induction limit data ps rule: gather.induct) auto
  from control_reply [OF assms(1)] obtain body upstream h where
    hs: "hs = [(''X-SZL-Receipt'', h), (''Cache-Control'', ''no-store'')]"
    and sl: "sealed (cs_sys s) body upstream (request_json q) h result" by blast
  from sealed_checks [OF sl assms(2)] obtain v where
    v: "verify_completion (cs_sys s) result (request_json q) (Some h) = Inr v" "dget_or_null v ''status'' = JStr ''CONSISTENT''"
    by (auto simp: verify_completion_def dget_or_null_def)
  with assms(3-6) g [of "[]" parts MAX_VERIFICATION_BYTES] have
    "verify_page (cs_sys s) scan typed parts (Some h) = Inr (200, v)"
    by (simp add: verify_page_def)
  with hs v(2) show ?thesis by simp
qed

theorem answer_passes_verify_page_witness:
  "\<exists>w' hs h v text_bytes. control_chat demo_answering (Some ''Bearer t'') demo_chat idle_control = (Reply 200 demo_result hs, w')
     \<and> dget hs ''X-SZL-Receipt'' = Some h
     \<and> verify_page demo_sys answer_scan (\<lambda>_. Inr demo_chat) [text_bytes] (Some h) = Inr (200, v)
     \<and> dget_or_null v ''status'' = JStr ''CONSISTENT''"
proof -
  obtain w' where r: "control_chat demo_answering (Some ''Bearer t'') demo_chat idle_control
    = (Reply 200 demo_result [(''X-SZL-Receipt'', digest_of (JObj demo_body)), (''Cache-Control'', ''no-store'')], w')"
    by (rule demo_answers)
  obtain b where b: "Verification.canonical demo_sys demo_bundle = Inr b" "b \<noteq> ''inventory''" "b \<noteq> ''answer''" "length b \<le> 40000"
    by (rule bundle_text)
  have "lower ''public'' = ''public''" by code_simp
  then have "validate_chat demo_chat = Inr demo_chat"
    by (simp add: validate_chat_def classification_def CLASSIFICATIONS_def bounded_stop_def demo_chat_def)
  then have n: "normalize_request (\<lambda>_. Inr demo_chat) j = Inr (request_json demo_chat)" for j
    by (simp add: normalize_request_def)
  have len: "length (utf8 (dumps (canonical_opts demo_sys) (JObj demo_result))) \<le> MAX_COMPLETION_BYTES"
    using canonical_room [of demo_sys "JObj demo_result"] demo_bundle_small(4) by (simp add: MAX_COMPLETION_BYTES_def)
  have sys: "cs_sys demo_answering = demo_sys" by (simp add: demo_answering_def)
  have c: "dget_or_null (obj_items demo_bundle) ''completion'' = JObj demo_result"
    by (simp add: demo_bundle_def dget_or_null_def)
  from answer_passes_verify_page [OF r, unfolded sys, OF len, of "[b]" answer_scan "obj_items demo_bundle" "\<lambda>_. Inr demo_chat"]
  obtain h v where "dget [(''X-SZL-Receipt'', digest_of (JObj demo_body)), (''Cache-Control'', ''no-store'')] ''X-SZL-Receipt'' = Some h"
    "verify_page demo_sys answer_scan (\<lambda>_. Inr demo_chat) [b] (Some h) = Inr (200, v)"
    "dget_or_null v ''status'' = JStr ''CONSISTENT''"
    using b(4) demo_bundle_parses [OF b] c n by (auto simp: MAX_VERIFICATION_BYTES_def)
  with r show ?thesis by blast
qed

end
