(* ===== verification/FreeTier.thy ===== *)
theory FreeTier
  imports Control
begin

text \<open>
  \<open>router_control/free_tier.py\<close>: the dated dossier of evaluation options, with its review deadline,
  its content key and its byte bound. The clock is the date in UTC, or nothing for a clock without a
  timezone.

  The lemmas: nothing in a dossier can be routed to, and what it says about its evidence is a function
  of the date.
\<close>

type_synonym date = "int \<times> int \<times> int"

definition REVIEWED_ON :: date where "REVIEWED_ON = (2026, 10, 4)"
definition RECHECK_ON :: date where "RECHECK_ON = (2026, 10, 11)"
definition MAX_DOSSIER_BYTES :: nat where "MAX_DOSSIER_BYTES = 32768"

record free_option =
  fo_id :: string
  fo_label :: string
  fo_alias :: string
  fo_model :: string
  fo_base_url :: string
  fo_token_env :: string
  fo_price :: string
  fo_sources :: "string list"
  fo_limits :: "string list"
  fo_quota :: "int dict"

definition OPTIONS :: "free_option list" where
  "OPTIONS = [
   \<lparr>fo_id = ''zai-standard-flash47-review'', fo_label = ''Z.ai standard API'', fo_alias = ''zai-flash47-review'', fo_model = ''glm-4.7-flash'',
     fo_base_url = ''https://api.z.ai/api/paas/v4'', fo_token_env = ''ZAI_API_KEY'',
     fo_price = ''SOURCE_DOCUMENTATION_LISTS_FREE_INPUT_AND_OUTPUT'',
     fo_sources = [''https://docs.z.ai/guides/overview/pricing'',
       ''https://docs.z.ai/guides/overview/quick-start''],
     fo_limits = [
       ''Standard API only; not the distinct Coding Plan or bigmodel.cn endpoint.'',
       ''FlashX, GLM-5.x and built-in web search are outside this candidate.'',
       ''No account-specific quota, eligibility, retention or tool-use contract qualified.''],
     fo_quota = []\<rparr>,
   \<lparr>fo_id = ''zai-standard-flash45-review'', fo_label = ''Z.ai standard API'', fo_alias = ''zai-flash45-review'', fo_model = ''glm-4.5-flash'',
     fo_base_url = ''https://api.z.ai/api/paas/v4'', fo_token_env = ''ZAI_API_KEY'',
     fo_price = ''SOURCE_DOCUMENTATION_LISTS_FREE_INPUT_AND_OUTPUT'',
     fo_sources = [''https://docs.z.ai/guides/overview/pricing'',
       ''https://docs.z.ai/guides/overview/quick-start''],
     fo_limits = [
       ''Separate exact model candidate; no transfer of Flash47 qualification.'',
       ''Built-in tools, paid variants and endpoint substitutions are not authorized.'',
       ''No account-specific quota, eligibility, retention or tool-use contract qualified.''],
     fo_quota = []\<rparr>,
   \<lparr>fo_id = ''groq-oss120-free-review'', fo_label = ''Groq Free Plan'', fo_alias = ''groq-oss120-review'', fo_model = ''openai/gpt-oss-120b'',
     fo_base_url = ''https://api.groq.com/openai/v1'', fo_token_env = ''GROQ_API_KEY'',
     fo_price = ''SOURCE_DOCUMENTATION_LISTS_FREE_PLAN_WITH_LIMITS'',
     fo_sources = [''https://console.groq.com/docs/rate-limits'',
       ''https://console.groq.com/docs/openai'',
       ''https://console.groq.com/docs/your-data''],
     fo_limits = [
       ''Exact account plan, exceptions, billing controls and remaining quota are unverified.'',
       ''Limits apply at organization level; do not rotate accounts or retry an exhausted quota.'',
       ''Data retention has documented exceptions; no private-source disclosure is granted.''],
     fo_quota = [(''requests_per_minute'', 30), (''requests_per_day'', 1000), (''tokens_per_minute'', 8000), (''tokens_per_day'', 200000)]\<rparr>,
   \<lparr>fo_id = ''openrouter-nemotron3-ultra-free-review'', fo_label = ''OpenRouter Free Plan'', fo_alias = ''openrouter-nemotron3-ultra-review'', fo_model = ''nvidia/nemotron-3-ultra-550b-a55b:free'',
     fo_base_url = ''https://openrouter.ai/api/v1'', fo_token_env = ''OPENROUTER_API_KEY'',
     fo_price = ''SOURCE_MODEL_PAGE_CURRENTLY_LISTS_FREE_INPUT_AND_OUTPUT'',
     fo_sources = [''https://openrouter.ai/pricing'',
       ''https://openrouter.ai/nvidia/nemotron-3-ultra-550b-a55b%3Afree'',
       ''https://openrouter.ai/openrouter/free''],
     fo_limits = [
       ''Exact :free model slug, not the random openrouter/free selector; executing weights remain unverified.'',
       (''Free plan lists 50 requests/day, not this account'' @ [CHR 0x27] @ ''s remaining quota or a permanent offer.''),
       ''NVIDIA free endpoint says not to upload confidential or personal data; sessions are logged for improvement.'',
       ''Free plan lists no budget/spend controls; no paid fallback or overage is authorized.'',
       ''Account rights, retention, tool compatibility, and zero-charge enforcement are unqualified.''],
     fo_quota = [(''requests_per_day'', 50)]\<rparr>]"

definition BLOCKERS :: "string list" where
  "BLOCKERS = [
     ''ACCOUNT_ELIGIBILITY_UNVERIFIED'', ''QUOTA_REMAINING_UNVERIFIED'', ''ZERO_BILLING_ENFORCEMENT_UNVERIFIED'',
     ''DISCLOSURE_AND_RETENTION_UNQUALIFIED'', ''CREDENTIAL_NOT_INSPECTED'', ''MODEL_ALIAS_MUTABLE'',
     ''NATIVE_COMPLETION_UNTESTED'', ''CALLER_TOOL_CONTRACT_UNQUALIFIED'', ''ACTIVATION_SOURCE_ADMISSION_REQUIRED'']"

definition evidence_state :: "date option \<Rightarrow> exn + string" where
  "evidence_state clock = (case clock of
     None \<Rightarrow> Inl (ValueError ''an aware observation clock is required'')
   | Some today \<Rightarrow> Inr (
       if today < REVIEWED_ON then ''CLOCK_BEFORE_REVIEW''
       else if RECHECK_ON \<le> today then ''RECHECK_REQUIRED'' else ''DATED_DOCUMENTATION_REVIEW''))"

definition exact_revision :: "string \<Rightarrow> string" where
  "exact_revision r = (if (length r = 40 \<or> length r = 64) \<and> list_all lower_hex r then r else ''UNAVAILABLE'')"

text \<open>The proposal as a record of the registry, and as the dossier prints it.\<close>

definition proposal :: "free_option \<Rightarrow> provider_record" where
  "proposal x = \<lparr>pr_id = fo_id x, pr_type = OpenaiHttps, pr_base_url = Some (fo_base_url x),
     pr_models = [(fo_alias x, fo_model x)], pr_digests = [], pr_weights = [], pr_token_env = Some (fo_token_env x),
     pr_priority = 10000, pr_sovereignty = 0, pr_cost_tier = 0, pr_classes = [''public''], pr_enabled = False\<rparr>"

definition proposal_json :: "provider_record \<Rightarrow> json" where
  "proposal_json r = JObj [(''id'', JStr (pr_id r)), (''provider_type'', JStr (type_text (pr_type r))),
     (''base_url'', opt_str (pr_base_url r)), (''models'', string_map (pr_models r)), (''token_env'', opt_str (pr_token_env r)),
     (''priority'', JInt (pr_priority r)), (''sovereignty'', JInt (pr_sovereignty r)), (''cost_tier'', JInt (pr_cost_tier r)),
     (''classifications'', JArr (map JStr (pr_classes r))), (''enabled'', JBool (pr_enabled r))]"

definition option_row :: "string list \<Rightarrow> free_option \<Rightarrow> json" where
  "option_row blockers x = JObj [(''id'', JStr (fo_id x)), (''provider_label'', JStr (fo_label x)),
     (''upstream_model'', JStr (fo_model x)), (''disposition'', JStr ''HOLD''), (''basis'', JStr ''REPORTED_NOT_SZL_MEASURED''),
     (''price_basis'', JStr (fo_price x)), (''primary_urls'', JArr (map JStr (fo_sources x))),
     (''limitations'', JArr (map JStr (fo_limits x))),
     (''reported_quota'', (if fo_quota x = [] then JNull else JObj (map (\<lambda>(k, n). (k, JInt n)) (fo_quota x)))),
     (''remaining_quota'', JNull), (''actual_charge_usd'', JNull), (''upstream_source_revision'', JNull),
     (''documentation_identity'', JStr ''MOVING_PAGE_NOT_IMMUTABLE_RELEASE''), (''account_checked'', JBool False),
     (''inference_measured'', JBool False), (''blockers'', JArr (map JStr blockers)),
     (''disabled_provider_proposal'', proposal_json (proposal x))]"

definition dossier_body :: "string \<Rightarrow> string \<Rightarrow> jdict" where
  "dossier_body revision state =
     (let blockers = BLOCKERS @ (if state \<noteq> ''DATED_DOCUMENTATION_REVIEW'' then [state] else []) in [
     (''schema'', JStr ''szl.router-free-provider-options/v1''), (''owner'', JStr ''szl-holdings/szl-router''),
     (''source_revision'', JStr revision), (''scope'', JStr ''READ_ONLY_EVALUATION_OPTIONS''), (''disposition'', JStr ''HOLD''),
     (''reviewed_on'', JStr ''2026-10-04''), (''recheck_on'', JStr ''2026-10-11''), (''evidence_state'', JStr state),
     (''expiry_basis'', JStr ''LOCAL_REVIEW_DEADLINE_NOT_OFFER_VALIDITY''), (''dispatch_authorized'', JBool False),
     (''provider_calls_performed'', JBool False), (''registry_mutated'', JBool False), (''production_authorized'', JBool False),
     (''paid_fallback_authorized'', JBool False), (''private_data_disclosure_authorized'', JBool False),
     (''codex_balance_changed'', JBool False),
     (''proposal_cost_tier_basis'', JStr ''ORDINAL_NOT_USD_CAP_OR_PRICE_QUALIFICATION''),
     (''first_test_requirement'', JStr ''ONE_SYNTHETIC_REQUEST_AFTER_ACCOUNT_RIGHTS_AND_ZERO_BILLING_QUALIFICATION''),
     (''options'', JArr (map (option_row blockers) OPTIONS))])"

definition dossier :: "sys \<Rightarrow> string \<Rightarrow> date option \<Rightarrow> exn + jdict" where
  "dossier s revision clock =
     bindE (evidence_state clock) (\<lambda>state.
     let body = dossier_body (exact_revision revision) state in
     bindE (dumps_finite (canonical_opts s) (JObj body)) (\<lambda>t.
     let keyed = body @ [(''semantic_progress_key'', JStr (sha256_hex (utf8 t)))] in
     bindE (dumps_finite (canonical_opts s) (JObj keyed)) (\<lambda>t2.
       if MAX_DOSSIER_BYTES < length (utf8 t2)
       then Inl (ValueError ''free-tier evaluation dossier exceeds its fixed byte bound'')
       else Inr keyed)))"

definition free_provider_options :: "sys \<Rightarrow> date option \<Rightarrow> exn + jdict" where
  "free_provider_options s clock = dossier s (source_revision (s_env s)) clock"

section \<open>Proposals are never routed to\<close>

lemma proposal_ineligible: "\<not> eligible q (proposal x)"
  by (simp add: eligible_def proposal_def)

lemma proposals_never_ranked:
  "st_registry st = map proposal xs \<Longrightarrow> route_candidates e st q = []"
  by (simp add: route_candidates_def filter_empty_conv proposal_ineligible)

lemma evidence_state_cases:
  "evidence_state (Some d) = Inr state \<longleftrightarrow>
     (d < REVIEWED_ON \<and> state = ''CLOCK_BEFORE_REVIEW'') \<or> (REVIEWED_ON \<le> d \<and> d < RECHECK_ON \<and> state = ''DATED_DOCUMENTATION_REVIEW'')
     \<or> (RECHECK_ON \<le> d \<and> state = ''RECHECK_REQUIRED'')"
proof -
  have "REVIEWED_ON < RECHECK_ON" by (simp add: REVIEWED_ON_def RECHECK_ON_def)
  then show ?thesis by (auto simp: evidence_state_def)
qed

end
