(* ===== verification/Publication.thy ===== *)
theory Publication
  imports LocalStore
begin

text \<open>
  \<open>scripts/hf_space_deploy.py\<close>: the publisher of the public Space. It reads the immutable source
  subtree from Git, binds it to its revision, stages it in a private directory, validates the staged
  tree, and drives the hub in a fixed order.

  Git, the source tree and the hub are parameters: \<open>tr_git\<close> is what a Git command prints (or nothing,
  when it fails), \<open>hb_*\<close> the hub's answers by the number of the call. The staged directory is an
  explicit store. Every call of the hub is recorded.

  The lemmas: a snapshot holds exactly safe tracked paths with the bytes of their blobs; what is
  uploaded is the snapshot and its binding and nothing else, onto the revision that was read first;
  and success is reported only after the provider has read back the published revision as public.
\<close>

section \<open>Names and paths\<close>

definition exact_sha :: "string \<Rightarrow> bool" where
  "exact_sha t = (length t = 40 \<and> list_all lower_hex t)"

definition repo_char :: "char \<Rightarrow> bool" where
  "repo_char c = (ascii_alnum c \<or> c \<in> set ''_.-'')"

definition repo_id_ok :: "string \<Rightarrow> bool" where
  "repo_id_ok t = (let (a, slash, b) = partition_at (CHR ''/'') t in
     slash \<and> a \<noteq> [] \<and> b \<noteq> [] \<and> list_all repo_char a \<and> list_all repo_char b)"

definition BINDING :: string where "BINDING = ''SOURCE_BINDING.json''"

definition control_char :: "char \<Rightarrow> bool" where
  "control_char c = ((of_char c :: nat) < 32 \<or> (of_char c :: nat) = 127)"

definition safe_source_path :: "string \<Rightarrow> bool" where
  "safe_source_path value \<longleftrightarrow> value \<noteq> []
     \<and> \<not> list_ex (\<lambda>p. p \<in> set [[], ''.'', ''..'', ''.git'', ''__pycache__'']) (split_on (CHR ''/'') value)
     \<and> \<not> list_ex (\<lambda>c. c \<in> {CHR 0x5C, CHR '':''} \<or> control_char c) value
     \<and> \<not> endswith ''.pyc'' value \<and> \<not> endswith ''.pyo'' value"

section \<open>The snapshot of the source\<close>

text \<open>\<open>PublicationSourceError\<close> with its code, or another exception.\<close>

datatype source_error = SourceError string string | SourceRaises exn

record tree =
  tr_sys :: sys
  tr_git :: "string list \<Rightarrow> string option"
  tr_kind :: file_kind                       \<comment> \<open>the Space directory as it was named\<close>
  tr_name :: string                          \<comment> \<open>its name and its parent once resolved\<close>
  tr_parent :: string
  tr_resolve :: "string \<Rightarrow> string"
  tr_entries :: "(string \<times> file_kind) list" \<comment> \<open>everything below it\<close>
  tr_file :: "string \<Rightarrow> file_kind \<times> (exn + string)"

definition git_bytes :: "tree \<Rightarrow> string list \<Rightarrow> source_error + string" where
  "git_bytes t args = (case tr_git t args of
     None \<Rightarrow> Inl (SourceError ''SOURCE_CHECKOUT_UNAVAILABLE'' ''Cannot read the immutable Git source.'')
   | Some out \<Rightarrow> Inr out)"

definition git_text :: "tree \<Rightarrow> string list \<Rightarrow> source_error + string" where
  "git_text t args = bindE (git_bytes t args) (\<lambda>out.
     case s_decode (tr_sys t) out of
       None \<Rightarrow> Inl (SourceRaises (PyError ''UnicodeDecodeError'' []))
     | Some x \<Rightarrow> Inr (strip x))"

definition unsafe_tree :: "string \<Rightarrow> source_error + 'a" where
  "unsafe_tree m = Inl (SourceError ''SOURCE_TREE_UNSAFE'' m)"

text \<open>One record of \<open>git ls-tree -z\<close>: mode, kind, object and path.\<close>

definition tree_record :: "tree \<Rightarrow> string \<Rightarrow> (string \<times> string \<times> string \<times> string) option" where
  "tree_record t r =
     (let (metadata, tab, raw_path) = partition_at (CHR 0x09) r in
      if \<not> tab then None
      else case (if list_all (\<lambda>c. (of_char c :: nat) < 128) metadata then split_on (CHR '' '') metadata else [],
                 s_decode (tr_sys t) raw_path) of
        ([mode, kind, oid], Some path) \<Rightarrow> Some (mode, kind, oid, path)
      | _ \<Rightarrow> None)"

definition admitted_entry :: "string dict \<Rightarrow> string \<Rightarrow> string \<Rightarrow> string \<Rightarrow> string \<Rightarrow> bool" where
  "admitted_entry snapshot mode kind oid path \<longleftrightarrow> mode \<in> set [''100644'', ''100755''] \<and> kind = ''blob'' \<and> exact_sha oid
     \<and> startswith ''space/'' path \<and> safe_source_path (drop 6 path) \<and> drop 6 path \<noteq> BINDING
     \<and> \<not> has_key snapshot (drop 6 path)"

fun read_records :: "tree \<Rightarrow> string list \<Rightarrow> string dict \<Rightarrow> source_error + string dict" where
  "read_records t [] snapshot = Inr snapshot"
| "read_records t (r # rs) snapshot =
     (if r = [] then read_records t rs snapshot
      else case tree_record t r of
        None \<Rightarrow> unsafe_tree ''Malformed Git tree record.''
      | Some (mode, kind, oid, path) \<Rightarrow>
          if \<not> admitted_entry snapshot mode kind oid path then unsafe_tree ''Unsafe or duplicate tracked source entry.''
          else bindE (git_bytes t [''cat-file'', ''blob'', oid]) (\<lambda>body.
            case tr_file t (drop 6 path) of
              (Regular, Inr local) \<Rightarrow>
                if local \<noteq> body then Inl (SourceError ''SOURCE_WORKTREE_DIRTY'' ''Source bytes differ from the immutable blob.'')
                else read_records t rs (snapshot @ [(drop 6 path, body)])
            | (Regular, Inl e) \<Rightarrow> Inl (SourceRaises e)
            | _ \<Rightarrow> Inl (SourceError ''SOURCE_WORKTREE_DIRTY'' ''Source bytes differ from the immutable blob.'')))"

definition ls_tree :: "string \<Rightarrow> string list" where
  "ls_tree revision = [''ls-tree'', ''-rz'', ''--full-tree'', revision, ''--'', ''space'']"

definition git_status :: "string list" where
  "git_status = [''status'', ''--porcelain=v1'', ''--untracked-files=all'', ''--'', ''space'']"

definition source_snapshot :: "tree \<Rightarrow> string \<Rightarrow> source_error + string dict" where
  "source_snapshot t revision =
     (if \<not> exact_sha revision then Inl (SourceError ''SOURCE_CHECKOUT_MISMATCH'' ''An exact source SHA is required.'')
      else if tr_kind t \<noteq> Directory then unsafe_tree ''The Space root must be a real directory.''
      else bindE (git_text t [''rev-parse'', ''--show-toplevel'']) (\<lambda>top.
        if tr_name t \<noteq> ''space'' \<or> tr_resolve t top \<noteq> tr_parent t
        then unsafe_tree ''Only the canonical space subtree is admitted.''
        else bindE (git_text t [''rev-parse'', ''HEAD'']) (\<lambda>head.
        if head \<noteq> revision then Inl (SourceError ''SOURCE_CHECKOUT_MISMATCH'' ''Checkout differs from the declared revision.'')
        else bindE (git_bytes t git_status) (\<lambda>dirty.
        if dirty \<noteq> [] then Inl (SourceError ''SOURCE_WORKTREE_DIRTY'' ''The source subtree differs from its revision.'')
        else if list_ex (\<lambda>(p, k). k \<notin> {Regular, Directory}) (tr_entries t)
        then unsafe_tree ''Source links and special files are not admitted.''
        else if has_key (tr_entries t) BINDING
        then unsafe_tree ''Source cannot override the generated binding.''
        else bindE (git_bytes t (ls_tree revision)) (\<lambda>records.
        bindE (read_records t (split_on (CHR 0x00) records) []) (\<lambda>snapshot.
        if snapshot = [] then Inl (SourceError ''SOURCE_TREE_EMPTY'' ''The tracked Space subtree is empty.'')
        else Inr (sort_key fst snapshot)))))))"

section \<open>The binding\<close>

definition spaces :: "nat \<Rightarrow> string" where
  "spaces n = replicate (2 * n) CHR '' ''"

text \<open>\<open>json.dumps(..., indent=2)\<close> at a nesting level.\<close>

fun dump_pretty :: "dump_opts \<Rightarrow> nat \<Rightarrow> json \<Rightarrow> string" and pretty_vals :: "dump_opts \<Rightarrow> nat \<Rightarrow> json list \<Rightarrow> string list"
  and pretty_items :: "dump_opts \<Rightarrow> nat \<Rightarrow> (string \<times> json) list \<Rightarrow> string list" where
  "dump_pretty opts n (JArr xs) = (if xs = [] then ''[]'' else ''['' @ [CHR 0x0A] @ join ('','' @ [CHR 0x0A]) (pretty_vals opts (Suc n) xs)
     @ [CHR 0x0A] @ spaces n @ '']'')"
| "dump_pretty opts n (JObj d) = (if d = [] then ''{}'' else ''{'' @ [CHR 0x0A] @ join ('','' @ [CHR 0x0A]) (pretty_items opts (Suc n) d)
     @ [CHR 0x0A] @ spaces n @ ''}'')"
| "dump_pretty opts n j = dump_val opts j"
| "pretty_vals opts n [] = []"
| "pretty_vals opts n (x # xs) = (spaces n @ dump_pretty opts n x) # pretty_vals opts n xs"
| "pretty_items opts n [] = []"
| "pretty_items opts n ((k, v) # d) = (spaces n @ dump_str (o_ascii opts) k @ '': '' @ dump_pretty opts n v) # pretty_items opts n d"

text \<open>\<open>indent=2, sort_keys=True\<close> and a final newline.\<close>

definition pretty_bytes :: "sys \<Rightarrow> json \<Rightarrow> string" where
  "pretty_bytes s j = utf8 (dump_pretty (default_opts (s_frepr s)) 0 (sort_json j) @ [CHR 0x0A])"

definition binding_bytes :: "sys \<Rightarrow> jdict \<Rightarrow> string" where
  "binding_bytes s binding = pretty_bytes s (JObj binding)"

text \<open>\<open>Left\<close> is the message of \<open>sys.exit\<close>.\<close>

definition source_binding :: "string \<Rightarrow> string \<Rightarrow> string + jdict" where
  "source_binding repository0 revision0 =
     (let repository = strip repository0; revision = lower (strip revision0) in
      if \<not> repo_id_ok repository then Inl ''Source repository must be an owner/name identifier.''
      else if \<not> exact_sha revision then Inl ''Source revision must be an exact 40-character Git SHA.''
      else Inr [(''schema'', JStr ''szl.source-binding/v1''), (''source_repository'', JStr repository),
        (''source_revision'', JStr revision), (''source_path'', JStr ''space''), (''relation'', JStr ''exact-deployed-subtree''),
        (''product_class'', JStr ''FLAGSHIP_LLM_GATEWAY''), (''public_space'', JStr ''SZLHOLDINGS/llm-router-live''),
        (''evidence_url'', JStr (''https://github.com/'' @ repository @ ''/tree/'' @ revision @ ''/space''))])"

section \<open>Staging\<close>

text \<open>The staged directory is the store of its files; its directories are the parents of their paths.\<close>

fun parents_from :: "string \<Rightarrow> string list \<Rightarrow> string list" where
  "parents_from p [] = []"
| "parents_from p [x] = []"
| "parents_from p (x # y # ys) = (let q = (if p = [] then x else p @ ''/'' @ x) in q # parents_from q (y # ys))"

definition parents :: "string \<Rightarrow> string list" where
  "parents path = parents_from [] (split_on (CHR ''/'') path)"

definition store_dirs :: "string dict \<Rightarrow> string list" where
  "store_dirs store = remdups (concat (map (parents \<circ> fst) store))"

text \<open>\<open>mkdir(parents=True)\<close> and \<open>write_bytes\<close>: a file in the way, or a directory, is an \<open>OSError\<close>.\<close>

definition write_release :: "string \<Rightarrow> string \<Rightarrow> string dict \<Rightarrow> source_error + string dict" where
  "write_release path body store =
     (if list_ex (has_key store) (parents path) \<or> path \<in> set (store_dirs store)
      then Inl (SourceRaises (ConnError ''OSError'' [])) else Inr (dset path body store))"

fun write_all :: "string dict \<Rightarrow> string dict \<Rightarrow> source_error + string dict" where
  "write_all [] store = Inr store"
| "write_all ((path, body) # rest) store = bindE (write_release path body store) (write_all rest)"

text \<open>What \<open>rglob\<close> yields, in some order: the kind, and the bytes of a file.\<close>

type_synonym release_entry = "string \<times> file_kind \<times> string"

definition store_entries :: "string dict \<Rightarrow> release_entry list" where
  "store_entries store = map (\<lambda>d. (d, Directory, [])) (store_dirs store) @ map (\<lambda>(p, b). (p, Regular, b)) store"

fun check_entries :: "string dict \<Rightarrow> release_entry list \<Rightarrow> string dict \<Rightarrow> source_error + string dict" where
  "check_entries expected [] seen = Inr seen"
| "check_entries expected ((relative, kind, body) # es) seen =
     (if kind = Symlink \<or> \<not> safe_source_path relative
      then Inl (SourceError ''PUBLICATION_OUTPUT_UNSAFE'' ''Release contains an unsafe path.'')
      else case kind of
        Directory \<Rightarrow>
          if \<not> list_ex (startswith (relative @ ''/'')) (map fst expected)
          then Inl (SourceError ''PUBLICATION_OUTPUT_SET_MISMATCH'' ''Release contains an unexpected directory.'')
          else check_entries expected es seen
      | Regular \<Rightarrow> check_entries expected es (dset relative body seen)
      | _ \<Rightarrow> Inl (SourceError ''PUBLICATION_OUTPUT_UNSAFE'' ''Release contains a special file.''))"

definition same_dict :: "'v dict \<Rightarrow> 'v dict \<Rightarrow> bool" where
  "same_dict d e \<longleftrightarrow> set (map fst d) = set (map fst e) \<and> list_all (\<lambda>k. dget d k = dget e k) (map fst d)"

definition validate_release_tree :: "file_kind \<Rightarrow> release_entry list \<Rightarrow> string dict \<Rightarrow> source_error option" where
  "validate_release_tree kind entries expected =
     (if kind \<noteq> Directory then Some (SourceError ''PUBLICATION_OUTPUT_UNSAFE'' ''Release root must be a real directory.'')
      else case check_entries expected entries [] of
        Inl e \<Rightarrow> Some e
      | Inr seen \<Rightarrow>
          if set (map fst seen) \<noteq> set (map fst expected)
          then Some (SourceError ''PUBLICATION_OUTPUT_SET_MISMATCH'' ''Release file set differs from the admitted output.'')
          else if \<not> same_dict seen expected
          then Some (SourceError ''PUBLICATION_BYTE_DRIFT'' ''Release bytes differ from the immutable source.'') else None)"

definition stage_release :: "sys \<Rightarrow> string dict \<Rightarrow> jdict \<Rightarrow> source_error + string dict \<times> string dict" where
  "stage_release s snapshot binding =
     (if list_ex (\<lambda>p. \<not> safe_source_path p \<or> p = BINDING) (map fst snapshot)
      then unsafe_tree ''Unsafe source output path or binding collision.''
      else let expected = dset BINDING (binding_bytes s binding) snapshot in
        bindE (write_all (sort_key fst expected) []) (\<lambda>store.
        case validate_release_tree Directory (store_entries store) expected of
          Some e \<Rightarrow> Inl e
        | None \<Rightarrow> Inr (expected, store)))"

section \<open>The front matter\<close>

definition line_end :: "char \<Rightarrow> bool" where
  "line_end c = ((of_char c :: nat) \<in> {10, 11, 12, 13, 28, 29, 30, 133})"

text \<open>\<open>str.splitlines\<close>; the flag says that a carriage return has just ended a line.\<close>

fun lines_from :: "bool \<Rightarrow> string \<Rightarrow> string \<Rightarrow> string list" where
  "lines_from cr acc [] = (if acc = [] then [] else [rev acc])"
| "lines_from cr acc (c # cs) =
     (if cr \<and> c = CHR 0x0A then lines_from False acc cs
      else if line_end c then rev acc # lines_from (c = CHR 0x0D) [] cs
      else lines_from False (c # acc) cs)"

definition splitlines :: "string \<Rightarrow> string list" where
  "splitlines t = lines_from False [] t"

definition blank :: "char \<Rightarrow> bool" where
  "blank c = (c = CHR '' '' \<or> c = CHR 0x09)"

definition comment_or_end :: "string \<Rightarrow> bool" where
  "comment_or_end t = (let u = dropWhile blank t in u = [] \<or> hd u = CHR ''#'')"

definition quoted_scalar :: "char \<Rightarrow> string \<Rightarrow> string option" where
  "quoted_scalar mark t = (case t of
     [] \<Rightarrow> None
   | c # cs \<Rightarrow> (let (inner, closed, rest) = partition_at mark cs in
       if c = mark \<and> closed \<and> comment_or_end rest then Some inner else None))"

text \<open>The three patterns in turn; the last one always matches a single line.\<close>

definition front_matter_scalar :: "string \<Rightarrow> string" where
  "front_matter_scalar t =
     (case quoted_scalar (CHR 0x22) t of
        Some v \<Rightarrow> strip v
      | None \<Rightarrow> (case quoted_scalar (CHR 0x27) t of
          Some v \<Rightarrow> strip v
        | None \<Rightarrow> strip (rstrip_by blank (takeWhile (\<lambda>c. c \<noteq> CHR ''#'') t))))"

definition key_char :: "char \<Rightarrow> bool" where
  "key_char c = (ascii_alnum c \<or> c \<in> set ''_-'')"

definition front_key :: "string \<Rightarrow> (string \<times> string) option" where
  "front_key line = (let (k, colon, rest) = partition_at (CHR '':'') line in
     if colon \<and> k \<noteq> [] \<and> list_all key_char k \<and> \<not> ascii_digit (hd k) \<and> hd k \<noteq> CHR ''-''
     then Some (k, dropWhile blank rest) else None)"

definition FRONT_MATTER :: "string dict" where
  "FRONT_MATTER = [(''sdk'', ''docker''), (''app_port'', ''7860''), (''pinned'', ''true''), (''license'', ''apache-2.0'')]"

fun front_values :: "string list \<Rightarrow> string dict \<Rightarrow> string + string dict" where
  "front_values [] d = Inr d"
| "front_values (line # ls) d =
     (if line = [] \<or> py_space (hd line) \<or> startswith ''#'' (dropWhile py_space line) then front_values ls d
      else case front_key line of
        None \<Rightarrow> front_values ls d
      | Some (k, v) \<Rightarrow>
          if \<not> has_key FRONT_MATTER k then front_values ls d
          else if has_key d k then Inl (''README front-matter repeats `'' @ k @ ''`'')
          else front_values ls (d @ [(k, front_matter_scalar v)]))"

definition front_mismatch :: "string dict \<Rightarrow> jdict" where
  "front_mismatch d = concat (map (\<lambda>(k, v). if dget d k = Some v then [] else
     [(k, JObj [(''expected'', JStr v), (''observed'', opt_str (dget d k))])]) FRONT_MATTER)"

text \<open>
  \<open>None\<close> if the deployment may go on, else the message of \<open>sys.exit\<close>; where the message ends with a dash
  and "refusing to" what, here and below, the model keeps what precedes the dash.
\<close>

definition validate_readme :: "sys \<Rightarrow> string \<Rightarrow> string option" where
  "validate_readme s content =
     (case splitlines content of
        [] \<Rightarrow> Some ''README.md has no YAML front-matter''
      | first # rest \<Rightarrow>
          if strip first \<noteq> ''---'' then Some ''README.md has no YAML front-matter''
          else if \<not> list_ex (\<lambda>l. strip l = ''---'') rest then Some ''README.md front-matter is unterminated''
          else case front_values (takeWhile (\<lambda>l. strip l \<noteq> ''---'') rest) [] of
            Inl m \<Rightarrow> Some m
          | Inr d \<Rightarrow>
              if front_mismatch d = [] then None
              else Some (''README front-matter does not describe the router flagship: ''
                @ dumps ((default_opts (s_frepr s))\<lparr>o_sort := True\<rparr>) (JObj (front_mismatch d))))"

definition validate_source_tree :: "tree \<Rightarrow> string option" where
  "validate_source_tree t = (case find (\<lambda>(p, k). k = Symlink) (tr_entries t) of
     None \<Rightarrow> None | Some (p, _) \<Rightarrow> Some (''Symbolic links are not deployable: '' @ p))"

section \<open>The hub\<close>

record repo_info =
  ri_sha :: "string option"
  ri_private :: bool           \<comment> \<open>\<open>True\<close> also when the attribute is missing\<close>

record hub =
  hb_info :: "nat \<Rightarrow> exn + repo_info"
  hb_upload :: "nat \<Rightarrow> exn + string option"
  hb_act :: "nat \<Rightarrow> exn option"
  hb_has_settings :: bool
  hb_has_visibility :: bool
  hb_has_restart :: bool

datatype hub_call =
    InfoCall
  | UploadCall "string dict" string string   \<comment> \<open>the files, the message and the parent revision\<close>
  | SettingsCall | VisibilityCall | RestartCall

definition system_exit :: "string \<Rightarrow> exn" where
  "system_exit m = PyError ''SystemExit'' m"

text \<open>\<open>str(value or "").strip().lower()\<close>\<close>

definition exact_revision_of :: "string option \<Rightarrow> string \<Rightarrow> exn + string" where
  "exact_revision_of value field = (let r = lower (strip (case value of None \<Rightarrow> [] | Some v \<Rightarrow> v)) in
     if exact_sha r then Inr r else Inl (system_exit (field @ '' is not an exact immutable revision.'')))"

definition repo_info :: "hub \<Rightarrow> hub_call list \<Rightarrow> (exn + repo_info) \<times> hub_call list" where
  "repo_info h calls = (hb_info h (length calls), calls @ [InfoCall])"

definition hub_act :: "hub \<Rightarrow> hub_call \<Rightarrow> hub_call list \<Rightarrow> exn option \<times> hub_call list" where
  "hub_act h c calls = (hb_act h (length calls), calls @ [c])"

definition restore_public_visibility :: "hub \<Rightarrow> hub_call list \<Rightarrow> (exn + string) \<times> hub_call list" where
  "restore_public_visibility h calls =
     (if \<not> hb_has_settings h \<and> \<not> hb_has_visibility h
      then (Inl (system_exit ''Installed huggingface_hub cannot update Space visibility''), calls)
      else let (c, name) = (if hb_has_settings h then (SettingsCall, ''update_repo_settings'')
                            else (VisibilityCall, ''update_repo_visibility'')) in
        (case hub_act h c calls of
           (Some e, calls1) \<Rightarrow> (Inl e, calls1)
         | (None, calls1) \<Rightarrow>
             (case repo_info h calls1 of
                (Inl e, calls2) \<Rightarrow> (Inl e, calls2)
              | (Inr i, calls2) \<Rightarrow>
                  (if ri_private i then Inl (system_exit ''Provider readback still reports the router Space as private.'')
                   else Inr name, calls2))))"

definition restart_existing_space :: "hub \<Rightarrow> hub_call list \<Rightarrow> exn option \<times> hub_call list" where
  "restart_existing_space h calls =
     (if \<not> hb_has_restart h then (Some (system_exit ''Installed huggingface_hub cannot restart the existing Space''), calls)
      else hub_act h RestartCall calls)"

section \<open>The publisher\<close>

record publish_args =
  pa_repo_id :: string
  pa_repository :: string
  pa_revision :: string
  pa_message :: string
  pa_readme :: "exn + string"   \<comment> \<open>\<open>README.md\<close> as \<open>read_text\<close> gives it\<close>

definition SPACE_ID :: string where "SPACE_ID = ''SZLHOLDINGS/llm-router-live''"

text \<open>\<open>sys.exit(f"{exc.code}: {exc}")\<close> at the module's entry.\<close>

definition source_exit :: "source_error \<Rightarrow> exn" where
  "source_exit e = (case e of SourceError c m \<Rightarrow> system_exit (c @ '': '' @ m) | SourceRaises x \<Rightarrow> x)"

definition exit_sum :: "source_error + 'a \<Rightarrow> exn + 'a" where
  "exit_sum r = map_sum source_exit id r"

text \<open>What precedes the first call of the hub: the binding and the snapshot.\<close>

definition admit :: "tree \<Rightarrow> publish_args \<Rightarrow> exn + jdict \<times> string dict" where
  "admit t a =
     (if strip (pa_repo_id a) \<noteq> SPACE_ID then Inl (system_exit (''This publisher is single-target and may only restore '' @ SPACE_ID @ ''.''))
      else if tr_kind t = Symlink then Inl (system_exit ''The Space source root cannot be a symbolic link.'')
      else if tr_kind t \<noteq> Directory then Inl (system_exit (tr_parent t @ ''/'' @ tr_name t @ '' is not a directory.''))
      else bindE (pa_readme a) (\<lambda>content.
        case validate_readme (tr_sys t) content of
          Some m \<Rightarrow> Inl (system_exit m)
        | None \<Rightarrow>
        (case validate_source_tree t of
          Some m \<Rightarrow> Inl (system_exit m)
        | None \<Rightarrow>
        (case source_binding (pa_repository a) (pa_revision a) of
          Inl m \<Rightarrow> Inl (system_exit m)
        | Inr binding \<Rightarrow>
            bindE (exit_sum (source_snapshot t (lower (strip (pa_revision a))))) (\<lambda>snapshot.
              Inr (binding, snapshot))))))"

definition publication_report :: "jdict \<Rightarrow> string \<Rightarrow> string \<Rightarrow> string \<Rightarrow> string \<Rightarrow> jdict" where
  "publication_report binding parent published seen via = [
     (''schema'', JStr ''szl.router-flagship-publication/v1''), (''repo_id'', JStr SPACE_ID),
     (''source_repository'', dget_or_null binding ''source_repository''), (''source_revision'', dget_or_null binding ''source_revision''),
     (''parent_revision'', JStr parent), (''published_revision'', JStr published), (''observed_revision'', JStr seen),
     (''private'', JBool False), (''visibility_method'', JStr via), (''restart_requested'', JBool True),
     (''space_created'', JBool False), (''credential_value_recorded'', JBool False)]"

text \<open>After the upload: visibility, restart, and the read-back of the published revision.\<close>

definition finish_publication ::
  "hub \<Rightarrow> jdict \<Rightarrow> string \<Rightarrow> string \<Rightarrow> hub_call list \<Rightarrow> (exn + jdict) \<times> hub_call list" where
  "finish_publication h binding parent published calls =
     (case restore_public_visibility h calls of
        (Inl e, calls1) \<Rightarrow> (Inl e, calls1)
      | (Inr via, calls1) \<Rightarrow>
      (case restart_existing_space h calls1 of
        (Some e, calls2) \<Rightarrow> (Inl e, calls2)
      | (None, calls2) \<Rightarrow>
      (case repo_info h calls2 of
        (Inl e, calls3) \<Rightarrow> (Inl e, calls3)
      | (Inr i, calls3) \<Rightarrow>
          (bindE (exact_revision_of (ri_sha i) ''Post-restoration Space revision'') (\<lambda>seen.
             if seen \<noteq> published then Inl (system_exit (''Provider revision changed during restoration: published='' @ published @ '', observed='' @ seen @ ''.''))
             else if ri_private i then Inl (system_exit ''Post-restoration provider readback reports private=true.'')
             else Inr (publication_report binding parent published seen via)), calls3))))"

definition publish :: "hub \<Rightarrow> tree \<Rightarrow> publish_args \<Rightarrow> (exn + jdict) \<times> hub_call list" where
  "publish h t a =
     (case admit t a of
        Inl e \<Rightarrow> (Inl e, [])
      | Inr (binding, snapshot) \<Rightarrow>
      (case repo_info h [] of
        (Inl e, calls1) \<Rightarrow> (Inl e, calls1)
      | (Inr before, calls1) \<Rightarrow>
      (case exact_revision_of (ri_sha before) ''Current Space revision'' of
        Inl e \<Rightarrow> (Inl e, calls1)
      | Inr parent \<Rightarrow>
      (case exit_sum (stage_release (tr_sys t) snapshot binding) of
        Inl e \<Rightarrow> (Inl e, calls1)
      | Inr (expected, store) \<Rightarrow>
      (case validate_release_tree Directory (store_entries store) expected of
        Some e \<Rightarrow> (Inl (source_exit e), calls1)
      | None \<Rightarrow>
      (let calls2 = calls1 @ [UploadCall store (pa_message a) parent] in
       case bindE (hb_upload h (length calls1)) (\<lambda>oid. exact_revision_of oid ''Published Space revision'') of
        Inl e \<Rightarrow> (Inl e, calls2)
      | Inr published \<Rightarrow> finish_publication h binding parent published calls2))))))"

section \<open>A snapshot is the tracked tree\<close>

text \<open>A record of the tree listing and the entry of the snapshot it becomes.\<close>

definition tracked :: "tree \<Rightarrow> string \<Rightarrow> string \<times> string \<Rightarrow> bool" where
  "tracked t r x \<longleftrightarrow> (\<exists>mode oid. tree_record t r = Some (mode, ''blob'', oid, ''space/'' @ fst x)
     \<and> mode \<in> {''100644'', ''100755''} \<and> exact_sha oid \<and> safe_source_path (fst x) \<and> fst x \<noteq> BINDING
     \<and> tr_git t [''cat-file'', ''blob'', oid] = Some (snd x) \<and> tr_file t (fst x) = (Regular, Inr (snd x)))"

lemma startswith_drop: "startswith p t \<Longrightarrow> t = p @ drop (length p) t"
  by (metis append_take_drop_id startswith_def)

lemma read_records_step:
  assumes "read_records t (r # rs) snapshot = Inr out" "r \<noteq> []"
  shows "\<exists>x. tracked t r x \<and> \<not> has_key snapshot (fst x) \<and> read_records t rs (snapshot @ [x]) = Inr out"
proof -
  from assms obtain mode kind oid path where r: "tree_record t r = Some (mode, kind, oid, path)"
    and a: "admitted_entry snapshot mode kind oid path"
    by (auto simp: unsafe_tree_def split: option.splits if_splits)
  with assms obtain body where b: "tr_git t [''cat-file'', ''blob'', oid] = Some body"
    by (auto simp: git_bytes_def split: option.splits)
  with assms r a have f: "tr_file t (drop 6 path) = (Regular, Inr body)"
    and go: "read_records t rs (snapshot @ [(drop 6 path, body)]) = Inr out"
    by (auto simp: git_bytes_def split: prod.splits file_kind.splits sum.splits if_splits)
  have "length ''space/'' = 6" by simp
  with a have "path = ''space/'' @ drop 6 path" using startswith_drop [of "''space/''" path] unfolding admitted_entry_def by metis
  with r a b f have "tracked t r (drop 6 path, body)" by (auto simp: tracked_def admitted_entry_def)
  moreover have "\<not> has_key snapshot (drop 6 path)" using a by (simp add: admitted_entry_def)
  ultimately show ?thesis using go by (intro exI [of _ "(drop 6 path, body)"]) simp
qed

lemma read_records_tracked:
  "read_records t rs snapshot = Inr out \<Longrightarrow> distinct (map fst snapshot) \<Longrightarrow>
     \<exists>new. out = snapshot @ new \<and> distinct (map fst out) \<and> list_all2 (tracked t) (filter (\<lambda>r. r \<noteq> []) rs) new"
proof (induction rs arbitrary: snapshot)
  case Nil
  then show ?case by simp
next
  case (Cons r rs)
  show ?case
  proof (cases "r = []")
    case True
    with Cons show ?thesis by simp
  next
    case False
    from read_records_step [OF Cons.prems(1) False] obtain x where x: "tracked t r x" "\<not> has_key snapshot (fst x)"
      "read_records t rs (snapshot @ [x]) = Inr out" by blast
    with Cons.prems(2) have "distinct (map fst (snapshot @ [x]))" by simp
    from Cons.IH [OF x(3) this] obtain new where "out = (snapshot @ [x]) @ new" "distinct (map fst out)"
      "list_all2 (tracked t) (filter (\<lambda>r. r \<noteq> []) rs) new" by blast
    with x(1) False show ?thesis by (intro exI [of _ "x # new"]) simp
  qed
qed

text \<open>
  C27. A snapshot is the tracked tree. If the source is admitted at a revision, the checkout is clean and
  at that very revision, and the snapshot is, one for one and sorted by path, what Git lists below the
  Space subtree at the revision: every entry a plain blob under a safe relative path that is not the
  generated binding, with the bytes of the blob, which are the bytes of the regular file in the
  checkout; no path occurs twice and there is at least one.
\<close>

theorem snapshot_is_tracked_tree:
  assumes "source_snapshot t revision = Inr snapshot"
  shows "exact_sha revision \<and> tr_git t git_status = Some []
    \<and> (\<exists>head. tr_git t [''rev-parse'', ''HEAD''] = Some head \<and> map_option strip (s_decode (tr_sys t) head) = Some revision)
    \<and> (\<exists>listing entries. tr_git t (ls_tree revision) = Some listing
        \<and> list_all2 (tracked t) (filter (\<lambda>r. r \<noteq> []) (split_on (CHR 0x00) listing)) entries \<and> snapshot = sort_key fst entries)
    \<and> snapshot \<noteq> [] \<and> distinct (map fst snapshot) \<and> sorted (map fst snapshot)"
proof -
  from assms obtain listing out where o: "exact_sha revision" "git_text t [''rev-parse'', ''HEAD''] = Inr revision"
    "git_bytes t git_status = Inr []" "git_bytes t (ls_tree revision) = Inr listing"
    "read_records t (split_on (CHR 0x00) listing) [] = Inr out" "out \<noteq> []" "snapshot = sort_key fst out"
    by (auto simp: source_snapshot_def unsafe_tree_def bindE_Inr_iff split: if_splits)
  from read_records_tracked [OF o(5)] have d: "distinct (map fst out)"
    and l: "list_all2 (tracked t) (filter (\<lambda>r. r \<noteq> []) (split_on (CHR 0x00) listing)) out" by auto
  have "distinct (map fst snapshot)"
  proof -
    have "mset (map fst snapshot) = mset (map fst out)" by (simp add: o(7))
    with d show ?thesis using mset_eq_imp_distinct_iff by blast
  qed
  moreover have "sorted (map fst snapshot)" by (simp add: o(7))
  moreover have "snapshot \<noteq> []" using o(6,7) by (metis length_0_conv length_sort)
  moreover have "tr_git t git_status = Some []" "tr_git t (ls_tree revision) = Some listing"
    using o(3,4) by (auto simp: git_bytes_def split: option.splits)
  moreover have "\<exists>head. tr_git t [''rev-parse'', ''HEAD''] = Some head \<and> map_option strip (s_decode (tr_sys t) head) = Some revision"
    using o(2) by (auto simp: git_text_def git_bytes_def bindE_Inr_iff split: option.splits)
  ultimately show ?thesis using o(1,7) l by blast
qed

section \<open>The order of a publication\<close>

lemma write_all_fresh:
  "write_all xs store = Inr out \<Longrightarrow> distinct (map fst (store @ xs)) \<Longrightarrow> out = store @ xs"
proof (induction xs arbitrary: store)
  case Nil
  then show ?case by simp
next
  case (Cons x xs)
  obtain p b where x: "x = (p, b)" by (cases x)
  from Cons.prems(2) x have "p \<notin> fst ` set store" by auto
  with Cons.prems(1) x have "write_all xs (store @ [(p, b)]) = Inr out"
    by (auto simp: write_release_def dset_new split: if_splits)
  from Cons.IH [OF this] Cons.prems(2) x show ?case by simp
qed

lemma stage_release_exact:
  assumes "stage_release s snapshot binding = Inr (expected, store)" "distinct (map fst snapshot)"
  shows "expected = snapshot @ [(BINDING, binding_bytes s binding)] \<and> store = sort_key fst expected"
proof -
  from assms(1) have "\<not> has_key snapshot BINDING"
    by (auto simp: stage_release_def unsafe_tree_def list_ex_iff split: if_splits)
  then have e: "dset BINDING b snapshot = snapshot @ [(BINDING, b)]" for b by (simp add: dset_new)
  from assms(1) have "expected = snapshot @ [(BINDING, binding_bytes s binding)]"
    "write_all (sort_key fst expected) [] = Inr store"
    by (auto simp: stage_release_def unsafe_tree_def bindE_Inr_iff e Let_def split: if_splits option.splits)
  moreover from this(1) assms(2) \<open>\<not> has_key snapshot BINDING\<close> have "distinct (map fst expected)" by simp
  then have "distinct (map fst (sort_key fst expected))"
    by (simp add: distinct_map inj_on_def)
  ultimately show ?thesis using write_all_fresh [of "sort_key fst expected" "[]" store] by simp
qed

lemma visibility_cases:
  assumes "restore_public_visibility h calls0 = (r, calls)"
  shows "\<exists>vis \<in> {SettingsCall, VisibilityCall}. \<exists>n \<le> 2. calls = calls0 @ take n [vis, InfoCall] \<and> (\<not> isl r \<longrightarrow> n = 2)"
proof -
  have n: "calls = calls0 \<or> calls = calls0 @ [vis] \<or> calls = calls0 @ [vis, InfoCall] \<Longrightarrow> \<not> isl r \<longrightarrow> calls = calls0 @ [vis, InfoCall]
     \<Longrightarrow> \<exists>n \<le> 2. calls = calls0 @ take n [vis, InfoCall] \<and> (\<not> isl r \<longrightarrow> n = 2)" for vis
    by (elim disjE) (auto intro: exI [of _ 0] exI [of _ 1] exI [of _ 2])
  show ?thesis
    using assms n [of SettingsCall] n [of VisibilityCall]
    by (auto simp: restore_public_visibility_def repo_info_def hub_act_def Let_def
        split: if_splits option.splits sum.splits)
qed

definition read_back :: "hub \<Rightarrow> nat \<Rightarrow> string \<Rightarrow> bool" where
  "read_back h k published \<longleftrightarrow> (\<exists>i. hb_info h k = Inr i \<and> \<not> ri_private i
     \<and> exact_revision_of (ri_sha i) ''Post-restoration Space revision'' = Inr published)"

lemma finish_publication_cases:
  assumes "finish_publication h binding parent published calls0 = (r, calls)"
  shows "\<exists>vis \<in> {SettingsCall, VisibilityCall}. \<exists>n \<le> 4. calls = calls0 @ take n [vis, InfoCall, RestartCall, InfoCall]
    \<and> (\<not> isl r \<longrightarrow> n = 4 \<and> read_back h (length calls0 + 3) published)"
proof -
  obtain m calls1 where m: "restore_public_visibility h calls0 = (m, calls1)" by fastforce
  from visibility_cases [OF m] obtain vis k where v: "vis \<in> {SettingsCall, VisibilityCall}" "k \<le> 2"
    "calls1 = calls0 @ take k [vis, InfoCall]" "\<not> isl m \<longrightarrow> k = 2" by blast
  show ?thesis
  proof (cases m)
    case (Inl e)
    with assms m have "r = Inl e" "calls = calls1" by (auto simp: finish_publication_def)
    moreover have "take k [vis, InfoCall] = take k [vis, InfoCall, RestartCall, InfoCall]"
      using v(2) by (cases k) (auto simp: le_Suc_eq numeral_2_eq_2)
    ultimately show ?thesis using v by (intro bexI [of _ vis] exI [of _ k]) auto
  next
    case (Inr via)
    with v have c1: "calls1 = calls0 @ [vis, InfoCall]" by simp
    have "calls = calls1 \<or> calls = calls1 @ [RestartCall] \<or> calls = calls1 @ [RestartCall, InfoCall]"
      "\<not> isl r \<longrightarrow> calls = calls1 @ [RestartCall, InfoCall] \<and> read_back h (length calls1 + 1) published"
      using assms m Inr
      by (auto simp: finish_publication_def restart_existing_space_def repo_info_def hub_act_def read_back_def bindE_def
          split: if_splits option.splits sum.splits)
    then show ?thesis using v(1) c1
      by (intro bexI [of _ vis]) (elim disjE;
        auto intro: exI [of _ 2] exI [of _ 3] exI [of _ 4] simp: numeral_3_eq_3 numeral_2_eq_2)+
  qed
qed

lemma admit_snapshot: "admit t a = Inr (binding, snapshot) \<Longrightarrow> distinct (map fst snapshot) \<and> sorted (map fst snapshot)"
proof -
  assume "admit t a = Inr (binding, snapshot)"
  then have "source_snapshot t (lower (strip (pa_revision a))) = Inr snapshot"
    by (auto simp: admit_def bindE_Inr_iff exit_sum_def map_sum_def split: if_splits option.splits sum.splits)
  then obtain listing out where "read_records t (split_on (CHR 0x00) listing) [] = Inr out" "snapshot = sort_key fst out"
    by (auto simp: source_snapshot_def unsafe_tree_def bindE_Inr_iff split: if_splits)
  with read_records_tracked [of t _ "[]" out] show ?thesis by (auto simp: distinct_map inj_on_def)
qed

text \<open>What an upload carries.\<close>

definition release_files :: "sys \<Rightarrow> jdict \<Rightarrow> string dict \<Rightarrow> string dict" where
  "release_files s binding snapshot = sort_key fst (snapshot @ [(BINDING, binding_bytes s binding)])"

lemma publish_cases:
  assumes "publish h t a = (r, calls)"
  shows "calls = [] \<and> isl r \<or> calls = [InfoCall] \<and> isl r \<or> (\<exists>binding snapshot before parent vis n. admit t a = Inr (binding, snapshot)
     \<and> hb_info h 0 = Inr before \<and> exact_revision_of (ri_sha before) ''Current Space revision'' = Inr parent
     \<and> vis \<in> {SettingsCall, VisibilityCall} \<and> n \<le> 4
     \<and> calls = [InfoCall, UploadCall (release_files (tr_sys t) binding snapshot) (pa_message a) parent]
               @ take n [vis, InfoCall, RestartCall, InfoCall]
     \<and> (\<not> isl r \<longrightarrow> n = 4 \<and> (\<exists>oid published. hb_upload h 1 = Inr oid
          \<and> exact_revision_of oid ''Published Space revision'' = Inr published \<and> read_back h 5 published)))"
proof (cases "admit t a")
  case (Inl e)
  with assms show ?thesis by (auto simp: publish_def)
next
  case (Inr x)
  obtain binding snapshot where x: "x = (binding, snapshot)" by (cases x)
  show ?thesis
  proof (cases "\<exists>before parent expected store. hb_info h 0 = Inr before
      \<and> exact_revision_of (ri_sha before) ''Current Space revision'' = Inr parent
      \<and> stage_release (tr_sys t) snapshot binding = Inr (expected, store)
      \<and> validate_release_tree Directory (store_entries store) expected = None")
    case False
    with assms Inr x show ?thesis
      by (auto simp: publish_def repo_info_def exit_sum_def map_sum_def split: sum.splits option.splits)
  next
    case True
    then obtain before parent expected store where b: "hb_info h 0 = Inr before"
      "exact_revision_of (ri_sha before) ''Current Space revision'' = Inr parent"
      and st: "stage_release (tr_sys t) snapshot binding = Inr (expected, store)"
      and v: "validate_release_tree Directory (store_entries store) expected = None" by blast
    have files: "store = release_files (tr_sys t) binding snapshot"
      using stage_release_exact [OF st] admit_snapshot [OF Inr [unfolded x]] by (simp add: release_files_def)
    let ?up = "[InfoCall, UploadCall store (pa_message a) parent]"
    let ?p = "bindE (hb_upload h 1) (\<lambda>oid. exact_revision_of oid ''Published Space revision'')"
    have run: "(case ?p of Inl e \<Rightarrow> (Inl e, ?up) | Inr published \<Rightarrow> finish_publication h binding parent published ?up) = (r, calls)"
      using assms Inr x b st v by (simp add: publish_def repo_info_def exit_sum_def Let_def)
    show ?thesis
    proof (cases ?p)
      case (Inl e)
      with run have "isl r" "calls = ?up @ take 0 [SettingsCall, InfoCall, RestartCall, InfoCall]" by auto
      with Inr x b files show ?thesis by blast
    next
      case pub: (Inr published)
      with run have f: "finish_publication h binding parent published ?up = (r, calls)" by simp
      from pub obtain oid where "hb_upload h 1 = Inr oid" "exact_revision_of oid ''Published Space revision'' = Inr published"
        by (auto simp: bindE_Inr_iff)
      moreover from finish_publication_cases [OF f] obtain vis n where "vis \<in> {SettingsCall, VisibilityCall}" "n \<le> 4"
        "calls = ?up @ take n [vis, InfoCall, RestartCall, InfoCall]" "\<not> isl r \<longrightarrow> n = 4 \<and> read_back h 5 published"
        by auto
      ultimately show ?thesis using Inr x b files by blast
    qed
  qed
qed


section \<open>A small publication\<close>

definition tiny_sha :: string where
  "tiny_sha = replicate 40 CHR ''a''"

definition tiny_tree :: tree where
  "tiny_tree = \<lparr>tr_sys = small_sys, tr_git = (\<lambda>args.
       if args = git_status then Some []
       else if args = ls_tree tiny_sha then Some (''100644 blob '' @ tiny_sha @ [CHR 0x09] @ ''space/README.md'' @ [CHR 0x00])
       else if args = [''cat-file'', ''blob'', tiny_sha] then Some ''hi''
       else if args = [''rev-parse'', ''HEAD''] then Some tiny_sha else Some ''/r''),
     tr_kind = Directory, tr_name = ''space'', tr_parent = ''/r'', tr_resolve = (\<lambda>p. p),
     tr_entries = [(''README.md'', Regular)], tr_file = (\<lambda>_. (Regular, Inr ''hi''))\<rparr>"

definition tiny_readme :: string where
  "tiny_readme = join [CHR 0x0A] [''---'', ''sdk: docker'', ''app_port: 7860 # fixed'', ''pinned: true'',
     ''license: '' @ [CHR 0x22] @ ''apache-2.0'' @ [CHR 0x22], ''---'', ''text'']"

definition tiny_hub :: hub where
  "tiny_hub = \<lparr>hb_info = (\<lambda>_. Inr \<lparr>ri_sha = Some tiny_sha, ri_private = False\<rparr>), hb_upload = (\<lambda>_. Inr (Some tiny_sha)),
     hb_act = (\<lambda>_. None), hb_has_settings = True, hb_has_visibility = False, hb_has_restart = True\<rparr>"

definition tiny_args :: publish_args where
  "tiny_args = \<lparr>pa_repo_id = SPACE_ID, pa_repository = ''szl-holdings/szl-router'', pa_revision = tiny_sha, pa_message = ''m'',
     pa_readme = Inr tiny_readme\<rparr>"

lemma tiny_snapshot: "source_snapshot tiny_tree tiny_sha = Inr [(''README.md'', ''hi'')]"
  by code_simp

lemma tiny_readme_ok: "validate_readme small_sys tiny_readme = None"
  by code_simp

lemma tiny_published: "(case publish tiny_hub tiny_tree tiny_args of (Inr _, calls) \<Rightarrow> length calls = 6 | _ \<Rightarrow> False)"
  by code_simp

theorem snapshot_is_tracked_tree_witness:
  "source_snapshot tiny_tree tiny_sha = Inr [(''README.md'', ''hi'')] \<and> exact_sha tiny_sha
    \<and> (\<exists>listing entries. tr_git tiny_tree (ls_tree tiny_sha) = Some listing \<and> entries = [(''README.md'', ''hi'')]
        \<and> list_all2 (tracked tiny_tree) (filter (\<lambda>r. r \<noteq> []) (split_on (CHR 0x00) listing)) entries)"
proof -
  from snapshot_is_tracked_tree [OF tiny_snapshot] obtain listing entries where
    l: "exact_sha tiny_sha" "tr_git tiny_tree (ls_tree tiny_sha) = Some listing"
    "list_all2 (tracked tiny_tree) (filter (\<lambda>r. r \<noteq> []) (split_on (CHR 0x00) listing)) entries"
    and e: "[(''README.md'', ''hi'')] = sort_key fst entries" by blast
  have "mset entries = {# (''README.md'', ''hi'') #}" by (metis e mset.simps mset_sort)
  then have "entries = [(''README.md'', ''hi'')]" by simp
  with l tiny_snapshot show ?thesis by blast
qed


end
