(* ===== verification/Drift.thy ===== *)
theory Drift
  imports Publication Control
begin

text \<open>
  \<open>scripts/hf_space_drift_check.py\<close>: the read-only verifier of the published Space. One attempt
  observes the provider's revision and runtime, the published bytes, the readiness witness and the
  source attestation, and the provider again; attempts are repeated until one is accepted, one fails
  for good, or the deadline has passed.

  The state is the evidence, the log of requests, the readings of the clocks and the time slept. The
  \<open>k\<close>-th request gets the answer \<open>ds_http k\<close>; the clock shows what \<open>ds_clock\<close> says plus the time
  slept. Operations are functions from the state to a result (an error, or a value) and a state,
  sequenced by \<open>bindS\<close>.
\<close>

section \<open>Failures and the client's world\<close>

record vfailure =
  vf_code :: string
  vf_message :: string
  vf_retryable :: bool
  vf_details :: jdict

datatype drift_error = VFail vfailure | Other exn

definition fail :: "string \<Rightarrow> string \<Rightarrow> bool \<Rightarrow> jdict \<Rightarrow> drift_error" where
  "fail code message again details = VFail \<lparr>vf_code = code, vf_message = message, vf_retryable = again, vf_details = details\<rparr>"

record hresponse =
  hp_status :: int
  hp_url :: string             \<comment> \<open>the final URL\<close>
  hp_headers :: "string dict"
  hp_body :: string

datatype hanswer =
    Received hresponse
  | StatusError int "string option"   \<comment> \<open>\<open>HTTPError\<close>: status and \<open>Location\<close>\<close>
  | NetworkError string               \<comment> \<open>\<open>TimeoutError\<close>, \<open>URLError\<close> or \<open>OSError\<close>, by class\<close>
  | OtherError exn

record hrequest =
  hq_url :: string
  hq_auth :: "string option"
  hq_redirects :: bool
  hq_timeout :: rat

record publication_ev =
  pe_revision :: "string option"
  pe_revision_state :: string
  pe_binding_state :: string
  pe_bytes_state :: string
  pe_output_state :: string
  pe_expected :: nat
  pe_observed :: nat
  pe_missing :: "string list"
  pe_unexpected :: "string list"
  pe_checked :: nat
  pe_files :: "json list"

record deployment_ev =
  de_endpoint_state :: string
  de_stage :: "string option"
  de_revision :: "string option"
  de_stage_state :: string

record runtime_ev =
  re_ready_url :: "string option"
  re_ready_status :: "int option"
  re_ready_state :: string
  re_attest_url :: "string option"
  re_source :: json
  re_hf :: json
  re_observed :: json
  re_cache_state :: string
  re_nonce :: "string option"
  re_witness_state :: string

record truth_ev =
  te_source :: string
  te_publication :: string
  te_deployment :: string
  te_runtime :: string
  te_acceptance :: string

record evidence =
  ev_started :: string
  ev_observed :: "string option"
  ev_verdict :: string
  ev_auth :: "string option"
  ev_repository :: string
  ev_source :: "string option"
  ev_checkout :: "string option"
  ev_source_state :: string
  ev_space :: "string option"
  ev_endpoint :: "string option"
  ev_pub :: publication_ev
  ev_dep :: deployment_ev
  ev_run :: runtime_ev
  ev_bound_source :: string
  ev_bound_runtime :: string
  ev_truth :: truth_ev
  ev_attempts :: "jdict list"
  ev_failure :: "vfailure option"

text \<open>An ISO timestamp: not one, one without a zone, or its seconds (\<open>astimezone\<close> can overflow).\<close>

datatype iso_time = NotIso | Naive | Aware "exn + rat"

record drift_sys =
  ds_sys :: sys
  ds_scan :: scanner
  ds_http :: "nat \<Rightarrow> hanswer"
  ds_clock :: "nat \<Rightarrow> rat"
  ds_now :: "nat \<Rightarrow> rat"                    \<comment> \<open>the wall clock in seconds\<close>
  ds_date :: "nat \<Rightarrow> string"
  ds_iso :: "string \<Rightarrow> iso_time"        \<comment> \<open>\<open>datetime.fromisoformat\<close>\<close>
  ds_nonce :: "nat \<Rightarrow> string"              \<comment> \<open>\<open>secrets.token_hex(16)\<close>\<close>
  ds_tree :: "nat \<Rightarrow> tree"                 \<comment> \<open>the source tree as a snapshot finds it\<close>
  ds_git :: "string list \<Rightarrow> string option"

record drift =
  dx_ev :: evidence
  dx_log :: "hrequest list"
  dx_ticks :: nat
  dx_slept :: rat

type_synonym 'a drift_op = "drift \<Rightarrow> (drift_error + 'a) \<times> drift"

definition bindS :: "'a drift_op \<Rightarrow> ('a \<Rightarrow> 'b drift_op) \<Rightarrow> 'b drift_op" where
  "bindS m f w = (case m w of (Inl e, w') \<Rightarrow> (Inl e, w') | (Inr a, w') \<Rightarrow> f a w')"

definition returnS :: "'a \<Rightarrow> 'a drift_op" where
  "returnS a w = (Inr a, w)"

definition raiseS :: "drift_error \<Rightarrow> 'a drift_op" where
  "raiseS e w = (Inl e, w)"

definition tickS :: "(nat \<Rightarrow> 'a) \<Rightarrow> 'a drift_op" where
  "tickS f w = (Inr (f (dx_ticks w)), w\<lparr>dx_ticks := Suc (dx_ticks w)\<rparr>)"

definition evS :: "(evidence \<Rightarrow> evidence) \<Rightarrow> unit drift_op" where
  "evS f w = (Inr (), w\<lparr>dx_ev := f (dx_ev w)\<rparr>)"

definition whenS :: "bool \<Rightarrow> unit drift_op \<Rightarrow> unit drift_op" where
  "whenS b m = (if b then m else returnS ())"

text \<open>\<open>time.monotonic()\<close>\<close>

definition monotonic :: "drift_sys \<Rightarrow> rat drift_op" where
  "monotonic s w = (Inr (ds_clock s (dx_ticks w) + dx_slept w), w\<lparr>dx_ticks := Suc (dx_ticks w)\<rparr>)"

definition set_pub :: "(publication_ev \<Rightarrow> publication_ev) \<Rightarrow> evidence \<Rightarrow> evidence" where
  "set_pub f e = e\<lparr>ev_pub := f (ev_pub e)\<rparr>"

definition set_dep :: "(deployment_ev \<Rightarrow> deployment_ev) \<Rightarrow> evidence \<Rightarrow> evidence" where
  "set_dep f e = e\<lparr>ev_dep := f (ev_dep e)\<rparr>"

definition set_run :: "(runtime_ev \<Rightarrow> runtime_ev) \<Rightarrow> evidence \<Rightarrow> evidence" where
  "set_run f e = e\<lparr>ev_run := f (ev_run e)\<rparr>"

definition set_truth :: "(truth_ev \<Rightarrow> truth_ev) \<Rightarrow> evidence \<Rightarrow> evidence" where
  "set_truth f e = e\<lparr>ev_truth := f (ev_truth e)\<rparr>"

section \<open>Configuration\<close>

record drift_args =
  da_repo_id :: string                \<comment> \<open>the values as given, \<open>""\<close> when left out\<close>
  da_endpoint :: string
  da_revision :: string
  da_token :: string
  da_anonymous :: bool
  da_witness :: string
  da_poll :: string
  da_request :: string
  da_conclusion :: string
  da_space_link :: bool
  da_dirs :: bool                     \<comment> \<open>both directories exist\<close>
  da_relative :: "string option"      \<comment> \<open>the Space directory relative to the source root\<close>

record drift_config =
  dc_repo_id :: string
  dc_endpoint :: string
  dc_host :: string
  dc_revision :: string
  dc_checkout :: string
  dc_token :: string
  dc_anonymous :: bool
  dc_witness :: rat
  dc_poll :: rat
  dc_request :: rat

definition HUB_ORIGIN :: string where "HUB_ORIGIN = ''https://huggingface.co''"
definition SOURCE_REPOSITORY :: string where "SOURCE_REPOSITORY = ''szl-holdings/szl-router''"
definition MAX_RESPONSE_BYTES :: nat where "MAX_RESPONSE_BYTES = 1048576"
definition MAX_TREE_ENTRIES :: nat where "MAX_TREE_ENTRIES = 1000"
definition MAX_WITNESS_AGE_SECONDS :: rat where "MAX_WITNESS_AGE_SECONDS = 120"

definition TRANSIENT_STAGES :: "string list" where
  "TRANSIENT_STAGES = [''BUILDING'', ''RUNNING_BUILDING'', ''STARTING'', ''APP_STARTING'', ''RUNNING_APP_STARTING'']"

definition bad_config :: "string \<Rightarrow> drift_error" where
  "bad_config m = fail ''MISSING_OR_INVALID_CONFIG'' m False []"

text \<open>\<open>str(value or "").strip().lower()\<close>; only the text of a string or of an integer can be a SHA.\<close>

definition sha_text :: "json \<Rightarrow> string" where
  "sha_text j = lower (strip (case j of JStr t \<Rightarrow> t | JInt i \<Rightarrow> if i = 0 then [] else show_int i | _ \<Rightarrow> []))"

definition exact_sha_of :: "json \<Rightarrow> string \<Rightarrow> string \<Rightarrow> drift_error + string" where
  "exact_sha_of value field code = (let candidate = sha_text value in
     if exact_sha candidate then Inr candidate
     else Inl (fail code (field @ '' is not an exact 40-character Git SHA.'') False []))"

text \<open>The port is read outside the handler, so that a bad port is a \<open>ValueError\<close>.\<close>

definition normalize_endpoint :: "string \<Rightarrow> drift_error + string \<times> string" where
  "normalize_endpoint value =
     (case urlsplit (strip value) of
        Inl _ \<Rightarrow> Inl (bad_config ''Space endpoint is malformed.'')
      | Inr u \<Rightarrow>
          let bad = bad_config ''Space endpoint must be an HTTPS origin with no credentials, path, query, or fragment.'' in
          (case u_hostname u of
             None \<Rightarrow> Inl bad
           | Some host \<Rightarrow>
               if u_scheme u \<noteq> ''https'' \<or> has_credentials u then Inl bad
               else (case u_port u of
                 Inl e \<Rightarrow> Inl (Other e)
               | Inr port \<Rightarrow>
                   if port \<notin> {None, Some 443} \<or> u_query u \<noteq> [] \<or> u_fragment u \<noteq> [] \<or> u_path u \<notin> {[], ''/''} then Inl bad
                   else if \<not> endswith ''.hf.space'' (lower host)
                   then Inl (bad_config ''Space endpoint must use the provider-owned hf.space origin.'')
                   else Inr (''https://'' @ lower host, lower host))))"

text \<open>The last argument is the text of the two bounds. A NaN or an infinity is out of range.\<close>

definition number :: "sys \<Rightarrow> string \<Rightarrow> string \<Rightarrow> rat \<Rightarrow> rat \<Rightarrow> string \<Rightarrow> drift_error + rat" where
  "number s value field lo hi bounds =
     (case s_float s value of
        None \<Rightarrow> Inl (bad_config (field @ '' must be numeric.''))
      | Some x \<Rightarrow> (case x of Fin q \<Rightarrow> if lo \<le> q \<and> q \<le> hi then Inr q
            else Inl (bad_config (field @ '' must be between '' @ bounds @ '' seconds.''))
          | _ \<Rightarrow> Inl (bad_config (field @ '' must be between '' @ bounds @ '' seconds.''))))"

definition run_git :: "drift_sys \<Rightarrow> string list \<Rightarrow> drift_error + string" where
  "run_git s args = (case ds_git s args of
     None \<Rightarrow> Inl (fail ''SOURCE_CHECKOUT_UNAVAILABLE'' ''Unable to measure the local Git source checkout.'' False [])
   | Some out \<Rightarrow> Inr (strip out))"

text \<open>The checkout has to be the expected revision, and the subtree clean.\<close>

definition check_checkout :: "drift_sys \<Rightarrow> string \<Rightarrow> drift_error + string" where
  "check_checkout s revision =
     bindE (run_git s [''rev-parse'', ''HEAD'']) (\<lambda>head.
     bindE (exact_sha_of (JStr head) ''Local checkout revision'' ''SOURCE_CHECKOUT_UNAVAILABLE'') (\<lambda>checkout.
       if checkout \<noteq> revision
       then Inl (fail ''SOURCE_CHECKOUT_MISMATCH'' ''Local checkout does not match the expected source revision.'' False
         [(''expected_source_revision'', JStr revision), (''checkout_revision'', JStr checkout)])
       else bindE (run_git s git_status) (\<lambda>dirty.
         if dirty \<noteq> [] then Inl (fail ''SOURCE_WORKTREE_DIRTY'' ''The Space source subtree differs from the exact checkout.'' False [])
         else Inr checkout)))"

definition check_space_dir :: "drift_args \<Rightarrow> drift_error option" where
  "check_space_dir a =
     (if da_space_link a then Some (fail ''SOURCE_TREE_UNSAFE'' ''Space source root cannot be a symbolic link.'' False [])
      else if \<not> da_dirs a then Some (bad_config ''Source root and Space directory must both exist.'')
      else (case da_relative a of
        None \<Rightarrow> Some (bad_config ''Space directory must be inside the source root.'')
      | Some r \<Rightarrow> if r \<noteq> ''space'' then Some (bad_config (''Space directory must resolve to the '' @ CHR 0x27 # ''space'' @ CHR 0x27 # '' source subtree.'')) else None))"

definition validate_config :: "drift_sys \<Rightarrow> drift_args \<Rightarrow> drift_error + drift_config" where
  "validate_config s a =
     (let z = ds_sys s; repo_id = strip (da_repo_id a); token = strip (da_token a); anonymous = da_anonymous a in
      if \<not> repo_id_ok repo_id then Inl (bad_config ''Hugging Face Space repo ID must be an explicit owner/name value.'')
      else bindE (normalize_endpoint (da_endpoint a)) (\<lambda>(endpoint, host).
      bindE (exact_sha_of (JStr (da_revision a)) ''Expected source revision'' ''MISSING_OR_INVALID_CONFIG'') (\<lambda>revision.
      if anonymous \<and> token \<noteq> [] then Inl (bad_config ''Pass either --anonymous or --token, not both.'')
      else if \<not> anonymous \<and> token = []
      then Inl (fail ''MISSING_CREDENTIALS'' (''A Hugging Face token is required for provider observations ''
        @ ''(pass --anonymous to observe a public Space without one).'') False [])
      else bindE (number z (da_witness a) ''Witness timeout'' 1 900 ''1 and 900'') (\<lambda>witness.
      bindE (number z (da_poll a) ''Poll interval'' (1/10) 30 ''0.1 and 30'') (\<lambda>poll.
      bindE (number z (da_request a) ''Request timeout'' (1/2) 60 ''0.5 and 60'') (\<lambda>request.
      case check_space_dir a of
        Some e \<Rightarrow> Inl e
      | None \<Rightarrow> bindE (check_checkout s revision) (\<lambda>checkout.
          Inr \<lparr>dc_repo_id = repo_id, dc_endpoint = endpoint, dc_host = host, dc_revision = revision, dc_checkout = checkout,
               dc_token = token, dc_anonymous = anonymous, dc_witness = witness, dc_poll = poll, dc_request = request\<rparr>)))))))"

section \<open>Addresses\<close>

definition quote_safe :: "char \<Rightarrow> bool" where
  "quote_safe c = (ascii_alnum c \<or> c \<in> set ''_.-~'')"

definition upper_digit :: "nat \<Rightarrow> char" where
  "upper_digit n = (if n < 10 then char_of (48 + n) else char_of (55 + n))"

text \<open>\<open>urllib.parse.quote\<close>: the bytes of the UTF-8 form, escaped unless safe.\<close>

definition quote :: "string \<Rightarrow> string \<Rightarrow> string" where
  "quote safe t = concat (map (\<lambda>c. if quote_safe c \<or> c \<in> set safe then [c]
     else [CHR ''%'', upper_digit (of_char c div 16), upper_digit (of_char c mod 16)]) (utf8 t))"

definition quote_plus :: "string \<Rightarrow> string" where
  "quote_plus t = map (\<lambda>c. if c = CHR '' '' then CHR ''+'' else c) (quote '' '' t)"

definition repo_path :: "string \<Rightarrow> string" where
  "repo_path repo_id = (let (owner, _, name) = partition_at (CHR ''/'') repo_id in quote [] owner @ ''/'' @ quote [] name)"

definition api_url :: "string \<Rightarrow> string" where
  "api_url repo_id = HUB_ORIGIN @ ''/api/spaces/'' @ repo_path repo_id"

definition provider_info_url :: "string \<Rightarrow> string" where
  "provider_info_url repo_id = api_url repo_id @ ''?expand[]=sha&expand[]=subdomain''"

definition provider_runtime_url :: "string \<Rightarrow> string" where
  "provider_runtime_url repo_id = api_url repo_id @ ''/runtime''"

definition tree_url :: "string \<Rightarrow> string \<Rightarrow> string" where
  "tree_url repo_id hf = api_url repo_id @ ''/tree/'' @ hf @ ''?recursive=true&expand=false&limit='' @ show_nat MAX_TREE_ENTRIES"

definition resolve_url :: "string \<Rightarrow> string \<Rightarrow> string \<Rightarrow> string" where
  "resolve_url repo_id hf path = HUB_ORIGIN @ ''/spaces/'' @ repo_path repo_id @ ''/resolve/'' @ hf @ ''/'' @ quote ''/'' path"

definition readiness_url :: "drift_config \<Rightarrow> string \<Rightarrow> string" where
  "readiness_url c nonce = dc_endpoint c @ ''/readyz?nonce='' @ quote_plus nonce"

definition attestation_url :: "drift_config \<Rightarrow> string \<Rightarrow> string" where
  "attestation_url c nonce = dc_endpoint c @ ''/.well-known/szl-source.json?refresh=1&nonce='' @ quote_plus nonce"

section \<open>Evidence\<close>

definition UNVERIFIED :: string where "UNVERIFIED = ''UNVERIFIED''"
definition REJECTED :: string where "REJECTED = ''REJECTED''"

text \<open>From what is known of the configuration: credential mode, source, checkout, Space and endpoint.\<close>

definition new_evidence ::
  "string \<Rightarrow> string option \<Rightarrow> string option \<Rightarrow> string option \<Rightarrow> string option \<Rightarrow> string option \<Rightarrow> evidence" where
  "new_evidence started auth source local space endpoint = \<lparr>
     ev_started = started, ev_observed = None, ev_verdict = REJECTED, ev_auth = auth, ev_repository = SOURCE_REPOSITORY,
     ev_source = source, ev_checkout = local, ev_source_state = UNVERIFIED, ev_space = space, ev_endpoint = endpoint,
     ev_pub = \<lparr>pe_revision = None, pe_revision_state = UNVERIFIED, pe_binding_state = UNVERIFIED, pe_bytes_state = UNVERIFIED,
       pe_output_state = UNVERIFIED, pe_expected = 0, pe_observed = 0, pe_missing = [], pe_unexpected = [], pe_checked = 0,
       pe_files = []\<rparr>,
     ev_dep = \<lparr>de_endpoint_state = UNVERIFIED, de_stage = None, de_revision = None, de_stage_state = UNVERIFIED\<rparr>,
     ev_run = \<lparr>re_ready_url = map_option (\<lambda>e. e @ ''/readyz'') endpoint, re_ready_status = None, re_ready_state = UNVERIFIED,
       re_attest_url = map_option (\<lambda>e. e @ ''/.well-known/szl-source.json?refresh=1'') endpoint, re_source = JNull,
       re_hf = JNull, re_observed = JNull, re_cache_state = UNVERIFIED, re_nonce = None, re_witness_state = UNVERIFIED\<rparr>,
     ev_bound_source = UNVERIFIED, ev_bound_runtime = UNVERIFIED,
     ev_truth = \<lparr>te_source = UNVERIFIED, te_publication = UNVERIFIED, te_deployment = UNVERIFIED, te_runtime = UNVERIFIED,
       te_acceptance = REJECTED\<rparr>,
     ev_attempts = [], ev_failure = None\<rparr>"

definition config_evidence :: "string \<Rightarrow> drift_config \<Rightarrow> evidence" where
  "config_evidence started c = new_evidence started (Some (if dc_anonymous c then ''ANONYMOUS'' else ''TOKEN''))
     (Some (dc_revision c)) (Some (dc_checkout c)) (Some (dc_repo_id c)) (Some (dc_endpoint c))"

definition given :: "string \<Rightarrow> string option" where
  "given t = (if t = [] then None else Some t)"

definition args_evidence :: "string \<Rightarrow> drift_args \<Rightarrow> evidence" where
  "args_evidence started a = new_evidence started None (given (lower (strip (da_revision a)))) None
     (given (strip (da_repo_id a))) (given (strip (da_endpoint a)))"

definition nat_json :: "nat \<Rightarrow> json" where
  "nat_json n = JInt (int n)"

definition strings_json :: "string list \<Rightarrow> json" where
  "strings_json xs = JArr (map JStr xs)"

definition failure_json :: "vfailure option \<Rightarrow> json" where
  "failure_json f = (case f of None \<Rightarrow> JNull
   | Some v \<Rightarrow> JObj [(''code'', JStr (vf_code v)), (''message'', JStr (vf_message v)), (''retryable'', JBool (vf_retryable v)),
       (''details'', JObj (vf_details v))])"

definition publication_json :: "evidence \<Rightarrow> json" where
  "publication_json e = (let p = ev_pub e in JObj [(''provider'', JStr ''HUGGING_FACE''), (''space'', opt_str (ev_space e)),
     (''revision'', opt_str (pe_revision p)), (''revision_state'', JStr (pe_revision_state p)),
     (''source_binding_state'', JStr (pe_binding_state p)), (''bytes_state'', JStr (pe_bytes_state p)),
     (''output_set_state'', JStr (pe_output_state p)), (''expected_files'', nat_json (pe_expected p)),
     (''observed_files'', nat_json (pe_observed p)), (''missing_files'', strings_json (pe_missing p)),
     (''unexpected_files'', strings_json (pe_unexpected p)), (''files_checked'', nat_json (pe_checked p)),
     (''files'', JArr (pe_files p))])"

definition runtime_json :: "runtime_ev \<Rightarrow> json" where
  "runtime_json r = JObj [(''readiness_url'', opt_str (re_ready_url r)), (''readiness_http_status'', opt_int (re_ready_status r)),
     (''readiness_state'', JStr (re_ready_state r)), (''redirect_policy'', JStr ''REJECT''),
     (''source_attestation_url'', opt_str (re_attest_url r)), (''attested_source_revision'', re_source r),
     (''attested_hf_revision'', re_hf r), (''attestation_observed_at'', re_observed r),
     (''cache_policy_state'', JStr (re_cache_state r)), (''witness_nonce'', opt_str (re_nonce r)),
     (''witness_state'', JStr (re_witness_state r))]"

definition evidence_json :: "evidence \<Rightarrow> json" where
  "evidence_json e = (let d = ev_dep e; t = ev_truth e in JObj [
     (''schema'', JStr ''szl.hf-publication-runtime-parity/v1''), (''started_at'', JStr (ev_started e)),
     (''observed_at'', opt_str (ev_observed e)), (''verdict'', JStr (ev_verdict e)), (''authority_state'', JStr ''READ_ONLY''),
     (''provider_auth'', opt_str (ev_auth e)),
     (''source'', JObj [(''repository'', JStr (ev_repository e)), (''revision'', opt_str (ev_source e)),
       (''checkout_revision'', opt_str (ev_checkout e)), (''path'', JStr ''space''), (''state'', JStr (ev_source_state e))]),
     (''publication'', publication_json e),
     (''deployment'', JObj [(''endpoint'', opt_str (ev_endpoint e)), (''endpoint_binding_state'', JStr (de_endpoint_state d)),
       (''provider_stage'', opt_str (de_stage d)), (''runtime_revision'', opt_str (de_revision d)),
       (''stage_state'', JStr (de_stage_state d))]),
     (''runtime'', runtime_json (ev_run e)),
     (''bindings'', JObj [(''source_to_publication'', JStr (ev_bound_source e)),
       (''publication_to_runtime'', JStr (ev_bound_runtime e))]),
     (''truth_separation'', JObj [(''source_state'', JStr (te_source t)), (''publication_state'', JStr (te_publication t)),
       (''deployment_state'', JStr (te_deployment t)), (''runtime_state'', JStr (te_runtime t)),
       (''acceptance_state'', JStr (te_acceptance t))]),
     (''attempts'', JArr (map JObj (ev_attempts e))), (''failure'', failure_json (ev_failure e))])"

section \<open>The bounded client\<close>

definition liftS :: "drift_error + 'a \<Rightarrow> 'a drift_op" where
  "liftS r w = (r, w)"

definition RETRYABLE_STATUS :: "int list" where
  "RETRYABLE_STATUS = [408, 425, 429, 500, 502, 503, 504]"

definition bad_status :: "int \<Rightarrow> jdict \<Rightarrow> drift_error" where
  "bad_status status details = fail ''HTTP_STATUS'' (''HTTP request returned status '' @ show_int status @ '', expected 200.'')
     (status \<in> set RETRYABLE_STATUS) details"

definition credential :: "drift_config \<Rightarrow> string option" where
  "credential c = (if dc_token c = [] then None else Some (''Bearer '' @ dc_token c))"

definition header_first :: "string \<Rightarrow> string dict \<Rightarrow> string" where
  "header_first name hs = (case find (\<lambda>(k, v). lower k = name) hs of None \<Rightarrow> [] | Some (_, v) \<Rightarrow> v)"

text \<open>What the client makes of an answer: the body, the status, the content type and the headers.\<close>

definition read_answer :: "string \<Rightarrow> bool \<Rightarrow> hanswer \<Rightarrow> drift_error + string \<times> int \<times> string \<times> string dict" where
  "read_answer url redirects answer =
     (case answer of
        OtherError e \<Rightarrow> Inl (Other e)
      | NetworkError cls \<Rightarrow> Inl (fail ''HTTP_UNAVAILABLE'' (''HTTP observation failed with '' @ cls @ ''.'') True [])
      | StatusError status location \<Rightarrow>
          (if 300 \<le> status \<and> status < 400
           then Inl (fail ''HTTP_REDIRECT'' ''HTTP redirect rejected by witness policy.'' (status \<in> set RETRYABLE_STATUS)
                  [(''status'', JInt status), (''location'', opt_str location)])
           else Inl (bad_status status [(''status'', JInt status), (''location'', JNull)]))
      | Received r \<Rightarrow>
          let body = take (MAX_RESPONSE_BYTES + 1) (hp_body r) in
          if hp_status r \<noteq> 200 then Inl (bad_status (hp_status r) [(''status'', JInt (hp_status r))])
          else if \<not> redirects \<and> hp_url r \<noteq> url
          then Inl (fail ''HTTP_REDIRECT'' ''HTTP redirect rejected by witness policy.'' False [(''final_url'', JStr (hp_url r))])
          else if MAX_RESPONSE_BYTES < length body
          then Inl (fail ''HTTP_RESPONSE_TOO_LARGE'' ''HTTP response exceeded the bounded evidence size.'' False [])
          else Inr (body, hp_status r, header_first ''content-type'' (hp_headers r),
                 dupdate [] (map (\<lambda>(k, v). (lower k, v)) (hp_headers r))))"

definition http_request ::
  "drift_sys \<Rightarrow> drift_config \<Rightarrow> string \<Rightarrow> rat \<Rightarrow> bool \<Rightarrow> bool \<Rightarrow> (string \<times> int \<times> string \<times> string dict) drift_op" where
  "http_request s c url timeout authenticate redirects w =
     (let q = \<lparr>hq_url = url, hq_auth = (if authenticate then credential c else None), hq_redirects = redirects, hq_timeout = timeout\<rparr>
      in (read_answer url redirects (ds_http s (length (dx_log w))), w\<lparr>dx_log := dx_log w @ [q]\<rparr>))"

definition plain_const :: "string \<Rightarrow> exn + json" where
  "plain_const t = Inr (JFloat (if t = ''Infinity'' then PInf else if t = ''-Infinity'' then NInf else NaN))"

definition plain_hooks :: "sys \<Rightarrow> hooks" where
  "plain_hooks s = \<lparr>h_float = plain_float s, h_const = plain_const, h_object = plain_object\<rparr>"

text \<open>\<open>json.loads(body.decode("utf-8"))\<close> with its handler.\<close>

definition json_text :: "drift_sys \<Rightarrow> drift_error \<Rightarrow> string \<Rightarrow> drift_error + json" where
  "json_text s failure body =
     (case s_decode (ds_sys s) body of
        None \<Rightarrow> Inl failure
      | Some t \<Rightarrow>
          (case bindE (ds_scan s t) (decode (plain_hooks (ds_sys s))) of
             Inl e \<Rightarrow> if exn_class e \<in> {''JSONDecodeError'', ''UnicodeDecodeError''} then Inl failure else Inl (Other e)
           | Inr j \<Rightarrow> Inr j))"

definition decode_json :: "drift_sys \<Rightarrow> string \<Rightarrow> string \<Rightarrow> drift_error + json" where
  "decode_json s body content_type =
     (let media_type = lower (strip (fst (partition_at (CHR '';'') content_type))) in
      if media_type \<noteq> ''application/json'' \<and> \<not> endswith ''+json'' media_type
      then Inl (fail ''MALFORMED_HTTP_RESPONSE'' ''Expected a JSON response; auth and error pages are not accepted.'' False
             [(''content_type'', opt_str (given media_type))])
      else json_text s (fail ''MALFORMED_HTTP_RESPONSE'' ''HTTP response was not valid UTF-8 JSON.'' False []) body)"

definition object_answer ::
  "drift_sys \<Rightarrow> string \<times> int \<times> string \<times> string dict \<Rightarrow> drift_error + jdict \<times> int \<times> string dict" where
  "object_answer s x = (let (body, status, content_type, headers) = x in
     bindE (decode_json s body content_type) (\<lambda>j. case j of
       JObj d \<Rightarrow> Inr (d, status, headers)
     | _ \<Rightarrow> Inl (fail ''MALFORMED_HTTP_RESPONSE'' ''JSON response root must be an object.'' False [])))"

definition array_answer :: "drift_sys \<Rightarrow> string \<times> int \<times> string \<times> string dict \<Rightarrow> drift_error + json list" where
  "array_answer s x = (let (body, status, content_type, headers) = x in
     bindE (decode_json s body content_type) (\<lambda>j. case j of
       JArr xs \<Rightarrow> Inr xs
     | _ \<Rightarrow> Inl (fail ''MALFORMED_HTTP_RESPONSE'' ''JSON response root must be an array.'' False [])))"

text \<open>The provider is asked with the credential; the witness and the published bytes without one.\<close>

definition get_json :: "drift_sys \<Rightarrow> drift_config \<Rightarrow> string \<Rightarrow> rat \<Rightarrow> jdict drift_op" where
  "get_json s c url timeout = bindS (http_request s c url timeout True False) (\<lambda>x.
     liftS (bindE (object_answer s x) (\<lambda>(d, _). Inr d)))"

definition get_json_array :: "drift_sys \<Rightarrow> drift_config \<Rightarrow> string \<Rightarrow> rat \<Rightarrow> json list drift_op" where
  "get_json_array s c url timeout = bindS (http_request s c url timeout True False) (\<lambda>x. liftS (array_answer s x))"

definition get_witness_json :: "drift_sys \<Rightarrow> drift_config \<Rightarrow> string \<Rightarrow> rat \<Rightarrow> (jdict \<times> int \<times> string dict) drift_op" where
  "get_witness_json s c url timeout = bindS (http_request s c url timeout False False) (\<lambda>x. liftS (object_answer s x))"

definition get_bytes :: "drift_sys \<Rightarrow> drift_config \<Rightarrow> string \<Rightarrow> rat \<Rightarrow> string drift_op" where
  "get_bytes s c url timeout = bindS (http_request s c url timeout False True) (\<lambda>(body, _). returnS body)"

end
