(* ===== verification/DriftVerify.thy ===== *)
theory DriftVerify
  imports Drift
begin

text \<open>
  \<open>scripts/hf_space_drift_check.py\<close>, the attempt and the polling loop. An attempt asks the provider
  for the Space's revision and stage, compares the published files with the source snapshot, reads the
  readiness witness and the source attestation, and asks the provider again. Each request's timeout is
  taken from what is left until the deadline.

  The loop is recursion on fuel; \<open>verifier_returns\<close> shows that \<open>poll_fuel\<close> rounds are enough when
  the monotonic clock does not go backwards.
\<close>

section \<open>The provider\<close>

definition malformed_provider :: "string \<Rightarrow> drift_error" where
  "malformed_provider m = fail ''MALFORMED_PROVIDER_RESPONSE'' m False []"

definition provider_hostname :: "jdict \<Rightarrow> string option" where
  "provider_hostname payload = (case dget_or_null payload ''subdomain'' of
     JStr t \<Rightarrow> let h = lower (strip t) in
       if strip t = [] then None else Some (if CHR ''.'' \<in> set h then h else h @ ''.hf.space'')
   | _ \<Rightarrow> None)"

definition provider_identity :: "drift_config \<Rightarrow> jdict \<Rightarrow> drift_error + string" where
  "provider_identity c payload =
     bindE (exact_sha_of (dget_or_null payload ''sha'') ''Provider-reported Space revision'' ''MALFORMED_PROVIDER_RESPONSE'') (\<lambda>revision.
     case provider_hostname payload of
       None \<Rightarrow> Inl (malformed_provider ''Provider Space response omitted a valid subdomain.'')
     | Some h \<Rightarrow>
         if h \<noteq> dc_host c
         then Inl (fail ''ENDPOINT_CONFIG_MISMATCH''
                ''Configured witness endpoint does not match the provider-reported Space subdomain.'' False
                [(''configured_hostname'', JStr (dc_host c)), (''provider_hostname'', JStr h)])
         else Inr revision)"

definition provider_info :: "drift_sys \<Rightarrow> drift_config \<Rightarrow> rat \<Rightarrow> string drift_op" where
  "provider_info s c timeout =
     bindS (get_json s c (provider_info_url (dc_repo_id c)) timeout) (\<lambda>payload. liftS (provider_identity c payload))"

definition stage_name :: "string \<Rightarrow> bool" where
  "stage_name t = (t \<noteq> [] \<and> ascii_upper (hd t)
     \<and> list_all (\<lambda>x. ascii_upper x \<or> ascii_digit x \<or> x = CHR ''_'') (tl t))"

definition runtime_stage :: "jdict \<Rightarrow> drift_error + string \<times> string" where
  "runtime_stage payload = (case dget_or_null payload ''stage'' of
     JStr stage \<Rightarrow>
       if \<not> stage_name stage then Inl (malformed_provider ''Provider runtime response omitted a valid stage.'')
       else bindE (exact_sha_of (dget_or_null payload ''sha'') ''Provider runtime revision'' ''MALFORMED_PROVIDER_RESPONSE'')
         (\<lambda>revision. Inr (stage, revision))
   | _ \<Rightarrow> Inl (malformed_provider ''Provider runtime response omitted a valid stage.''))"

definition judge_stage :: "string \<Rightarrow> string \<Rightarrow> string \<Rightarrow> unit drift_op" where
  "judge_stage expected stage revision =
     bindS (evS (set_dep (\<lambda>d. d\<lparr>de_stage := Some stage, de_revision := Some revision\<rparr>))) (\<lambda>_.
     if stage \<noteq> ''RUNNING''
     then bindS (evS (set_dep (\<lambda>d. d\<lparr>de_stage_state := REJECTED\<rparr>))) (\<lambda>_.
          bindS (evS (set_truth (\<lambda>t. t\<lparr>te_deployment := ''STAGE_'' @ stage\<rparr>))) (\<lambda>_.
          raiseS (fail ''PROVIDER_STAGE_NOT_RUNNING'' (''Provider runtime stage is '' @ stage @ ''; exact RUNNING is required.'')
            (stage \<in> set TRANSIENT_STAGES) [(''stage'', JStr stage)])))
     else if revision \<noteq> expected
     then bindS (evS (set_dep (\<lambda>d. d\<lparr>de_stage_state := ''REVISION_MISMATCH''\<rparr>))) (\<lambda>_.
          bindS (evS (set_truth (\<lambda>t. t\<lparr>te_deployment := ''RUNNING_STALE_REVISION''\<rparr>))) (\<lambda>_.
          raiseS (fail ''PROVIDER_RUNTIME_REVISION_MISMATCH'' ''Provider runtime is RUNNING at a different Space revision.'' True
            [(''expected_revision'', JStr expected), (''runtime_revision'', JStr revision)])))
     else bindS (evS (set_dep (\<lambda>d. d\<lparr>de_stage_state := ''ACCEPTED''\<rparr>))) (\<lambda>_.
          evS (set_truth (\<lambda>t. t\<lparr>te_deployment := ''PROVIDER_RUNNING''\<rparr>))))"

definition provider_stage :: "drift_sys \<Rightarrow> drift_config \<Rightarrow> string \<Rightarrow> rat \<Rightarrow> unit drift_op" where
  "provider_stage s c expected timeout =
     bindS (get_json s c (provider_runtime_url (dc_repo_id c)) timeout) (\<lambda>payload.
     bindS (liftS (runtime_stage payload)) (\<lambda>(stage, revision). judge_stage expected stage revision))"

section \<open>Deadlines\<close>

definition timeout_for_call :: "drift_sys \<Rightarrow> drift_config \<Rightarrow> rat \<Rightarrow> rat drift_op" where
  "timeout_for_call s c deadline = bindS (monotonic s) (\<lambda>t.
     if deadline - t \<le> 0
     then raiseS (fail ''WITNESS_TIMEOUT'' ''Bounded provider/runtime witness timed out before acceptance.'' False [])
     else returnS (min (dc_request c) (deadline - t)))"

section \<open>The publication\<close>

definition unsafe_path :: "string \<Rightarrow> bool" where
  "unsafe_path p = (p = [] \<or> startswith ''/'' p \<or> list_ex (\<lambda>x. x = CHR 0x5C \<or> x = CHR '':'' \<or> control_char x) p
     \<or> list_ex (\<lambda>part. part \<in> {[], ''.'', ''..''}) (split_on (CHR ''/'') p))"

text \<open>The files and the directories of the published tree, in its order.\<close>

fun read_tree :: "json list \<Rightarrow> drift_error + string list \<times> string list" where
  "read_tree [] = Inr ([], [])"
| "read_tree (x # xs) =
     (let kind = (case x of JObj d \<Rightarrow> dget_or_null d ''type'' | _ \<Rightarrow> JNull) in
      if kind \<noteq> JStr ''file'' \<and> kind \<noteq> JStr ''directory''
      then Inl (malformed_provider ''Published tree contained an invalid entry.'')
      else case jget x ''path'' of
        JStr p \<Rightarrow>
          if unsafe_path p then Inl (malformed_provider ''Published tree contained an unsafe file path.'')
          else bindE (read_tree xs) (\<lambda>(files, dirs). Inr (if kind = JStr ''file'' then (p # files, dirs) else (files, p # dirs)))
      | _ \<Rightarrow> Inl (malformed_provider ''Published tree contained an unsafe file path.''))"

definition published_tree :: "json list \<Rightarrow> drift_error + string list \<times> string list" where
  "published_tree entries =
     (if MAX_TREE_ENTRIES \<le> length entries
      then Inl (fail ''PUBLICATION_TREE_LIMIT''
             ''Published tree reached the verifier entry limit; exact output set is unavailable.'' False [])
      else bindE (read_tree entries) (\<lambda>(files, dirs).
        if \<not> distinct (files @ dirs) then Inl (malformed_provider ''Published tree contained duplicate file paths.'')
        else Inr (files, dirs)))"

text \<open>\<open>sorted(a - b)\<close>, and the directories that hold no expected file\<close>

definition sorted_minus :: "string list \<Rightarrow> string list \<Rightarrow> string list" where
  "sorted_minus a b = sort (remdups (filter (\<lambda>x. x \<notin> set b) a))"

definition stray_directories :: "string list \<Rightarrow> string list \<Rightarrow> string list" where
  "stray_directories paths dirs = sort (filter (\<lambda>d. \<not> list_ex (startswith (d @ ''/'')) paths) dirs)"

definition check_output_set :: "string list \<Rightarrow> string list \<Rightarrow> string list \<Rightarrow> unit drift_op" where
  "check_output_set paths files dirs =
     (let missing = sorted_minus paths files; unexpected = sorted_minus files paths; stray = stray_directories paths dirs in
      bindS (evS (set_pub (\<lambda>p. p\<lparr>pe_expected := length paths, pe_observed := length files, pe_missing := missing,
        pe_unexpected := unexpected\<rparr>))) (\<lambda>_.
      if missing \<noteq> [] \<or> unexpected \<noteq> [] \<or> stray \<noteq> []
      then bindS (evS (set_pub (\<lambda>p. p\<lparr>pe_output_state := ''DRIFT''\<rparr>))) (\<lambda>_.
           bindS (evS (set_truth (\<lambda>t. t\<lparr>te_publication := ''OUTPUT_SET_DRIFT''\<rparr>))) (\<lambda>_.
           raiseS (fail ''PUBLICATION_OUTPUT_SET_MISMATCH''
             ''Published immutable revision does not match the exact source output set.'' False
             [(''missing_files'', strings_json missing), (''unexpected_files'', strings_json unexpected),
              (''unexpected_directories'', strings_json stray)])))
      else evS (set_pub (\<lambda>p. p\<lparr>pe_output_state := ''EXACT''\<rparr>))))"

definition file_evidence :: "string \<Rightarrow> string \<Rightarrow> string \<Rightarrow> json" where
  "file_evidence path local remote = JObj [(''path'', JStr path), (''source_sha256'', JStr local),
     (''publication_sha256'', JStr remote), (''state'', JStr (if local = remote then ''ALIGNED'' else ''DRIFT''))]"

definition check_file :: "drift_sys \<Rightarrow> drift_config \<Rightarrow> rat \<Rightarrow> string \<Rightarrow> string \<times> string \<Rightarrow> unit drift_op" where
  "check_file s c deadline hf x = (let (relative, body) = x; local = sha256_hex body in
     bindS (timeout_for_call s c deadline) (\<lambda>timeout.
     bindS (get_bytes s c (resolve_url (dc_repo_id c) hf relative) timeout) (\<lambda>remote_body.
     let remote = sha256_hex remote_body in
     bindS (evS (set_pub (\<lambda>p. p\<lparr>pe_files := pe_files p @ [file_evidence relative local remote],
       pe_checked := Suc (pe_checked p)\<rparr>))) (\<lambda>_.
     if local \<noteq> remote
     then bindS (evS (set_pub (\<lambda>p. p\<lparr>pe_bytes_state := ''DRIFT''\<rparr>))) (\<lambda>_.
          bindS (evS (set_truth (\<lambda>t. t\<lparr>te_publication := ''BYTE_DRIFT''\<rparr>))) (\<lambda>_.
          raiseS (fail ''PUBLICATION_BYTE_DRIFT'' (''Published bytes differ for '' @ relative @ ''.'') False
            [(''path'', JStr relative)])))
     else returnS ()))))"

fun check_files :: "drift_sys \<Rightarrow> drift_config \<Rightarrow> rat \<Rightarrow> string \<Rightarrow> string dict \<Rightarrow> unit drift_op" where
  "check_files s c deadline hf [] = returnS ()"
| "check_files s c deadline hf (x # xs) = bindS (check_file s c deadline hf x) (\<lambda>_. check_files s c deadline hf xs)"

definition json_document :: "drift_sys \<Rightarrow> string \<Rightarrow> string \<Rightarrow> drift_error + jdict" where
  "json_document s body name =
     bindE (json_text s (fail ''MALFORMED_PUBLICATION'' (''Published '' @ name @ '' is not valid UTF-8 JSON.'') False []) body) (\<lambda>j.
     case j of JObj d \<Rightarrow> Inr d
     | _ \<Rightarrow> Inl (fail ''MALFORMED_PUBLICATION'' (''Published '' @ name @ '' root must be an object.'') False []))"

definition expected_binding :: "drift_config \<Rightarrow> drift_error + jdict" where
  "expected_binding c = (case source_binding SOURCE_REPOSITORY (dc_revision c) of
     Inl m \<Rightarrow> Inl (Other (system_exit m)) | Inr b \<Rightarrow> Inr b)"

text \<open>The whole binding and its very bytes.\<close>

definition check_binding :: "drift_sys \<Rightarrow> drift_config \<Rightarrow> string \<Rightarrow> unit drift_op" where
  "check_binding s c body =
     bindS (liftS (json_document s body BINDING)) (\<lambda>binding.
     bindS (liftS (expected_binding c)) (\<lambda>expected.
     if \<not> same_dict binding expected \<or> body \<noteq> binding_bytes (ds_sys s) expected
     then bindS (evS (set_pub (\<lambda>p. p\<lparr>pe_binding_state := ''MISMATCH''\<rparr>))) (\<lambda>_.
          bindS (evS (set_truth (\<lambda>t. t\<lparr>te_publication := ''SOURCE_BINDING_MISMATCH''\<rparr>))) (\<lambda>_.
          raiseS (fail ''SOURCE_BINDING_MISMATCH''
            ''Published source binding differs from the complete generated contract or its bytes.'' False [])))
     else returnS ()))"

definition snapshot_of :: "drift_config \<Rightarrow> tree \<Rightarrow> drift_error + string dict" where
  "snapshot_of c t = (case source_snapshot t (dc_revision c) of
     Inl (SourceError code m) \<Rightarrow> Inl (fail code m False [])
   | Inl (SourceRaises e) \<Rightarrow> Inl (Other e)
   | Inr snapshot \<Rightarrow> Inr snapshot)"

definition aligned :: "evidence \<Rightarrow> evidence" where
  "aligned e = set_truth (\<lambda>t. t\<lparr>te_source := ''EXACT_CHECKOUT'', te_publication := ''EXACT_REVISION_ALIGNED''\<rparr>)
     (set_pub (\<lambda>p. p\<lparr>pe_bytes_state := ''ALIGNED'', pe_binding_state := ''ALIGNED''\<rparr>) (e\<lparr>ev_source_state := ''EXACT_CHECKOUT''\<rparr>))"

definition verify_source_publication :: "drift_sys \<Rightarrow> drift_config \<Rightarrow> rat \<Rightarrow> string \<Rightarrow> unit drift_op" where
  "verify_source_publication s c deadline hf =
     bindS (tickS (ds_tree s)) (\<lambda>t.
     bindS (liftS (snapshot_of c t)) (\<lambda>snapshot.
     bindS (evS (set_pub (\<lambda>p. p\<lparr>pe_files := [], pe_checked := 0\<rparr>))) (\<lambda>_.
     bindS (timeout_for_call s c deadline) (\<lambda>timeout.
     bindS (get_json_array s c (tree_url (dc_repo_id c) hf) timeout) (\<lambda>entries.
     bindS (liftS (published_tree entries)) (\<lambda>(files, dirs).
     bindS (check_output_set (map fst snapshot @ [BINDING]) files dirs) (\<lambda>_.
     bindS (check_files s c deadline hf snapshot) (\<lambda>_.
     bindS (timeout_for_call s c deadline) (\<lambda>timeout.
     bindS (get_bytes s c (resolve_url (dc_repo_id c) hf BINDING) timeout) (\<lambda>body.
     bindS (check_binding s c body) (\<lambda>_.
     evS aligned)))))))))))"

section \<open>The witness\<close>

definition field_mismatch :: "string \<Rightarrow> string \<Rightarrow> string \<Rightarrow> string \<Rightarrow> json \<Rightarrow> drift_error" where
  "field_mismatch code what key value seen = fail code (what @ '' mismatch for '' @ key @ ''.'') True
     [(''field'', JStr key), (''expected'', JStr value), (''observed'', seen)]"

text \<open>Every call of the code makes a mismatch retryable, and expects strings.\<close>

fun require_fields :: "jdict \<Rightarrow> string dict \<Rightarrow> string \<Rightarrow> string \<Rightarrow> drift_error + unit" where
  "require_fields payload [] code what = Inr ()"
| "require_fields payload ((key, value) # rest) code what =
     (if dget_or_null payload key \<noteq> JStr value then Inl (field_mismatch code what key value (dget_or_null payload key))
      else require_fields payload rest code what)"

definition cache_rejected :: "string \<Rightarrow> string \<Rightarrow> drift_error" where
  "cache_rejected what m = fail ''WITNESS_CACHE_POLICY_REJECTED'' (what @ m) True []"

definition not_fresh :: "string \<Rightarrow> string \<Rightarrow> jdict \<Rightarrow> drift_error" where
  "not_fresh what m details = fail ''WITNESS_FRESHNESS_REJECTED'' (what @ m) True details"

definition check_cache_headers :: "string dict \<Rightarrow> string \<Rightarrow> drift_error + unit" where
  "check_cache_headers headers what =
     (let directives = map (\<lambda>t. lower (strip t)) (split_on (CHR '','') (case dget headers ''cache-control'' of None \<Rightarrow> [] | Some v \<Rightarrow> v)) in
      if ''no-store'' \<notin> set directives then Inl (cache_rejected what '' did not require no-store caching.'')
      else case dget headers ''age'' of
        None \<Rightarrow> Inr ()
      | Some age \<Rightarrow> (case parse_int age of
          None \<Rightarrow> Inl (cache_rejected what '' returned an invalid Age header.'')
        | Some n \<Rightarrow> if n \<noteq> 0 then Inl (cache_rejected what '' was served from a cache.'') else Inr ()))"

text \<open>\<open>replace("Z", "+00:00")\<close>\<close>

definition zulu_offset :: "string \<Rightarrow> string" where
  "zulu_offset t = concat (map (\<lambda>x. if x = CHR ''Z'' then ''+00:00'' else [x]) t)"

definition check_age :: "drift_sys \<Rightarrow> jdict \<Rightarrow> string \<Rightarrow> unit drift_op" where
  "check_age s payload what = (case dget_or_null payload ''observed_at'' of
     JStr t \<Rightarrow> (case ds_iso s (zulu_offset t) of
         NotIso \<Rightarrow> raiseS (not_fresh what '' returned an invalid observed_at.'' [])
       | Naive \<Rightarrow> raiseS (not_fresh what '' observed_at lacked a timezone.'' [])
       | Aware r \<Rightarrow> bindS (tickS (ds_now s)) (\<lambda>t1. case r of
           Inl e \<Rightarrow> raiseS (Other e)
         | Inr t0 \<Rightarrow>
             if t1 - t0 < - 30 \<or> MAX_WITNESS_AGE_SECONDS < t1 - t0
             then raiseS (not_fresh what '' was not observed within the freshness bound.''
                    [(''age_seconds'', JFloat (Fin (py_round 3 (t1 - t0))))])
             else returnS ()))
   | _ \<Rightarrow> raiseS (not_fresh what '' omitted observed_at.'' []))"

definition require_fresh_witness :: "drift_sys \<Rightarrow> string dict \<Rightarrow> jdict \<Rightarrow> string \<Rightarrow> bool \<Rightarrow> unit drift_op" where
  "require_fresh_witness s headers payload what stamped =
     bindS (liftS (check_cache_headers headers what)) (\<lambda>_. if stamped then check_age s payload what else returnS ())"

definition READINESS_FIELDS :: "string dict" where
  "READINESS_FIELDS = [(''transport_state'', ''REACHABLE''), (''evidence_state'', ''OBSERVED''),
     (''verification_state'', ''SOURCE_BOUND''), (''authority_state'', ''READ_ONLY''), (''status'', ''ready''),
     (''service'', ''llm-router-live''), (''source_binding'', ''SOURCE_BOUND'')]"

definition ATTESTATION_FIELDS :: "string dict" where
  "ATTESTATION_FIELDS = [(''schema'', ''szl.deployment-source/v1''), (''transport_state'', ''REACHABLE''),
     (''verification_state'', ''SOURCE_BOUND''), (''authority_state'', ''READ_ONLY''),
     (''alignment_state'', ''SOURCE_BOUND_DEPLOYMENT'')]"

definition source_fields :: "drift_config \<Rightarrow> string dict" where
  "source_fields c = [(''repository'', SOURCE_REPOSITORY), (''commit'', dc_revision c), (''path'', ''space''),
     (''relation'', ''exact-deployed-subtree''), (''state'', ''SOURCE_BOUND'')]"

definition deployment_fields :: "drift_config \<Rightarrow> string \<Rightarrow> string dict" where
  "deployment_fields c hf = [(''hf_space'', dc_repo_id c), (''hf_revision'', hf), (''revision_state'', ''MEASURED'')]"

definition attestation_rejected :: "string \<Rightarrow> drift_error" where
  "attestation_rejected m = fail ''RUNTIME_ATTESTATION_REJECTED'' m False []"

text \<open>The attestation's fields, and its source and deployment objects.\<close>

definition check_attestation :: "drift_config \<Rightarrow> string \<Rightarrow> jdict \<Rightarrow> drift_error + jdict \<times> jdict" where
  "check_attestation c hf attestation =
     bindE (require_fields attestation ATTESTATION_FIELDS ''RUNTIME_ATTESTATION_REJECTED'' ''Runtime source attestation'') (\<lambda>_.
     case (dget_or_null attestation ''source'', dget_or_null attestation ''deployment'') of
       (JObj source, JObj deployment) \<Rightarrow>
         bindE (require_fields source (source_fields c) ''STALE_SOURCE_REVISION'' ''Runtime source binding'') (\<lambda>_.
         bindE (require_fields deployment (deployment_fields c hf) ''STALE_RUNTIME_REVISION'' ''Runtime Hugging Face revision'') (\<lambda>_.
         if dget_or_null deployment ''measurement_method'' \<in> {JStr ''SPACE_REPOSITORY_COMMIT'', JStr ''HUGGINGFACE_API''}
         then Inr (source, deployment)
         else Inl (attestation_rejected ''Runtime Hugging Face revision measurement method is unavailable or unknown.'')))
     | _ \<Rightarrow> Inl (attestation_rejected ''Runtime source attestation omitted source or deployment objects.''))"

definition witnessed :: "drift_config \<Rightarrow> string \<Rightarrow> int \<Rightarrow> jdict \<Rightarrow> jdict \<Rightarrow> jdict \<Rightarrow> evidence \<Rightarrow> evidence" where
  "witnessed c nonce status source deployment attestation e =
     set_truth (\<lambda>t. t\<lparr>te_runtime := ''READY_WITNESSED''\<rparr>) (set_run (\<lambda>r. r\<lparr>re_ready_url := Some (readiness_url c nonce),
       re_attest_url := Some (attestation_url c nonce), re_ready_status := Some status, re_ready_state := ''READY'',
       re_source := dget_or_null source ''commit'', re_hf := dget_or_null deployment ''hf_revision'',
       re_observed := dget_or_null attestation ''observed_at'', re_cache_state := ''NO_STORE_FRESH'', re_nonce := Some nonce,
       re_witness_state := ''SOURCE_AND_HF_REVISION_BOUND''\<rparr>) e)"

definition verify_runtime_witness :: "drift_sys \<Rightarrow> drift_config \<Rightarrow> rat \<Rightarrow> string \<Rightarrow> unit drift_op" where
  "verify_runtime_witness s c deadline hf =
     bindS (tickS (ds_nonce s)) (\<lambda>nonce.
     bindS (timeout_for_call s c deadline) (\<lambda>timeout.
     bindS (get_witness_json s c (readiness_url c nonce) timeout) (\<lambda>(readiness, status, headers).
     bindS (require_fresh_witness s headers readiness ''Readiness witness'' False) (\<lambda>_.
     bindS (liftS (require_fields readiness READINESS_FIELDS ''READINESS_CONTRACT_REJECTED'' ''Readiness witness'')) (\<lambda>_.
     bindS (timeout_for_call s c deadline) (\<lambda>timeout.
     bindS (get_witness_json s c (attestation_url c nonce) timeout) (\<lambda>(attestation, _, headers).
     bindS (require_fresh_witness s headers attestation ''Runtime source attestation'' True) (\<lambda>_.
     bindS (liftS (check_attestation c hf attestation)) (\<lambda>(source, deployment).
     evS (witnessed c nonce status source deployment attestation))))))))))"

section \<open>An attempt\<close>

definition revision_changed :: "string \<Rightarrow> string \<Rightarrow> drift_error" where
  "revision_changed hf final = fail ''STALE_OR_RACING_REVISION''
     ''Provider Space revision changed during the runtime witness.'' True
     [(''initial_hf_revision'', JStr hf), (''final_hf_revision'', JStr final)]"

definition accepted :: "evidence \<Rightarrow> evidence" where
  "accepted e = set_truth (\<lambda>t. t\<lparr>te_acceptance := ''ACCEPTED''\<rparr>)
     ((set_pub (\<lambda>p. p\<lparr>pe_revision_state := ''EXACT_STABLE''\<rparr>) e)\<lparr>ev_bound_source := ''EXACT'', ev_bound_runtime := ''EXACT'',
        ev_verdict := ''ACCEPTED''\<rparr>)"

definition verify_once :: "drift_sys \<Rightarrow> drift_config \<Rightarrow> rat \<Rightarrow> unit drift_op" where
  "verify_once s c deadline =
     bindS (timeout_for_call s c deadline) (\<lambda>timeout.
     bindS (provider_info s c timeout) (\<lambda>hf.
     bindS (evS (set_pub (\<lambda>p. p\<lparr>pe_revision := Some hf, pe_revision_state := ''OBSERVED''\<rparr>))) (\<lambda>_.
     bindS (evS (set_dep (\<lambda>d. d\<lparr>de_endpoint_state := ''PROVIDER_MATCHED''\<rparr>))) (\<lambda>_.
     bindS (timeout_for_call s c deadline) (\<lambda>timeout.
     bindS (provider_stage s c hf timeout) (\<lambda>_.
     bindS (verify_source_publication s c deadline hf) (\<lambda>_.
     bindS (verify_runtime_witness s c deadline hf) (\<lambda>_.
     bindS (timeout_for_call s c deadline) (\<lambda>timeout.
     bindS (provider_info s c timeout) (\<lambda>final.
     if final \<noteq> hf
     then bindS (evS (set_pub (\<lambda>p. p\<lparr>pe_revision_state := ''CHANGED_DURING_WITNESS''\<rparr>))) (\<lambda>_.
          bindS (evS (set_truth (\<lambda>t. t\<lparr>te_publication := ''STALE_OR_RACING_REVISION''\<rparr>))) (\<lambda>_.
          raiseS (revision_changed hf final)))
     else bindS (timeout_for_call s c deadline) (\<lambda>timeout.
          bindS (provider_stage s c hf timeout) (\<lambda>_. evS accepted))))))))))))"

section \<open>Polling\<close>

definition attempt_row :: "nat \<Rightarrow> string \<Rightarrow> vfailure option \<Rightarrow> string option \<Rightarrow> string option \<Rightarrow> jdict" where
  "attempt_row n date f stage revision = [(''attempt'', nat_json n), (''observed_at'', JStr date),
     (''state'', JStr (if f = None then ''ACCEPTED'' else REJECTED)), (''code'', opt_str (map_option vf_code f)),
     (''retryable'', JBool (case f of None \<Rightarrow> False | Some v \<Rightarrow> vf_retryable v)), (''provider_stage'', opt_str stage),
     (''hf_revision'', opt_str revision)]"

definition note_attempt :: "drift_sys \<Rightarrow> nat \<Rightarrow> vfailure option \<Rightarrow> unit drift_op" where
  "note_attempt s n f = bindS (tickS (ds_date s)) (\<lambda>date.
     evS (\<lambda>e. e\<lparr>ev_attempts := ev_attempts e
       @ [attempt_row n date f (if f = None then Some ''RUNNING'' else de_stage (ev_dep e)) (pe_revision (ev_pub e))]\<rparr>))"

definition sleepS :: "rat \<Rightarrow> unit drift_op" where
  "sleepS d w = (Inr (), w\<lparr>dx_slept := dx_slept w + d\<rparr>)"

text \<open>After a failed attempt: recorded, then raised, or slept on.\<close>

definition after_failure :: "drift_sys \<Rightarrow> drift_config \<Rightarrow> rat \<Rightarrow> nat \<Rightarrow> vfailure \<Rightarrow> unit drift_op" where
  "after_failure s c deadline n f =
     bindS (note_attempt s n (Some f)) (\<lambda>_.
     bindS (monotonic s) (\<lambda>t.
     if \<not> vf_retryable f then raiseS (VFail f)
     else if deadline - t \<le> 0
     then raiseS (fail ''WITNESS_TIMEOUT'' ''Bounded provider/runtime witness timed out without acceptance.'' False
            [(''last_failure'', JStr (vf_code f))])
     else sleepS (min (dc_poll c) (deadline - t))))"

fun polling :: "nat \<Rightarrow> drift_sys \<Rightarrow> drift_config \<Rightarrow> rat \<Rightarrow> nat \<Rightarrow> drift \<Rightarrow> ((drift_error + unit) \<times> drift) option" where
  "polling 0 s c deadline n w = None"
| "polling (Suc k) s c deadline n w =
     (case verify_once s c deadline w of
        (Inr _, w1) \<Rightarrow> Some (note_attempt s (Suc n) None w1)
      | (Inl (Other e), w1) \<Rightarrow> Some (Inl (Other e), w1)
      | (Inl (VFail f), w1) \<Rightarrow>
          (case after_failure s c deadline (Suc n) f w1 of
             (Inl e, w2) \<Rightarrow> Some (Inl e, w2)
           | (Inr _, w2) \<Rightarrow> polling k s c deadline (Suc n) w2))"

definition poll_fuel :: nat where "poll_fuel = 9001"

definition verify_with_polling :: "drift_sys \<Rightarrow> drift_config \<Rightarrow> drift \<Rightarrow> ((drift_error + unit) \<times> drift) option" where
  "verify_with_polling s c w =
     (let w1 = w\<lparr>dx_ticks := Suc (dx_ticks w)\<rparr> in
      polling poll_fuel s c (ds_clock s (dx_ticks w) + dx_slept w + dc_witness c) 0 w1)"

section \<open>The verifier\<close>

definition record_failure :: "vfailure \<Rightarrow> evidence \<Rightarrow> evidence" where
  "record_failure f e = (set_truth (\<lambda>t. t\<lparr>te_acceptance := REJECTED\<rparr>) e)\<lparr>ev_verdict := REJECTED, ev_failure := Some f\<rparr>"

text \<open>The two handlers; what is not an \<open>Exception\<close> passes through them.\<close>

definition handle :: "drift_error \<Rightarrow> evidence \<Rightarrow> evidence" where
  "handle problem e = (case problem of
     VFail f \<Rightarrow> record_failure f e
   | Other x \<Rightarrow> if exn_class x = ''SystemExit'' then e
       else record_failure \<lparr>vf_code = ''INTERNAL_VERIFIER_ERROR'',
              vf_message = ''Verifier failed closed with '' @ exn_class x @ ''.'', vf_retryable = False, vf_details = []\<rparr> e)"

definition escapes :: "drift_error \<Rightarrow> exn option" where
  "escapes problem = (case problem of Other x \<Rightarrow> if exn_class x = ''SystemExit'' then Some x else None | VFail _ \<Rightarrow> None)"

definition upstream_ok :: "drift_args \<Rightarrow> drift_error + unit" where
  "upstream_ok a = (let conclusion = lower (strip (da_conclusion a)) in
     if conclusion = ''success'' then Inr ()
     else Inl (fail ''UPSTREAM_DEPLOYMENT_FAILED'' ''The upstream Hugging Face deployment workflow did not succeed.'' False
            [(''conclusion'', opt_str (given conclusion))]))"

text \<open>The guarded body: the fresh evidence replaces the first one once the configuration is valid.\<close>

definition with_config :: "drift_sys \<Rightarrow> drift_config \<Rightarrow> drift \<Rightarrow> drift" where
  "with_config s c w = w\<lparr>dx_ev := config_evidence (ds_date s (dx_ticks w)) c, dx_ticks := Suc (dx_ticks w)\<rparr>"

definition verifier :: "drift_sys \<Rightarrow> drift_args \<Rightarrow> drift \<Rightarrow> ((drift_error + unit) \<times> drift) option" where
  "verifier s a w = (case bindE (upstream_ok a) (\<lambda>_. validate_config s a) of
     Inl e \<Rightarrow> Some (Inl e, w)
   | Inr c \<Rightarrow> verify_with_polling s c (with_config s c w))"

definition idle_drift :: "drift_sys \<Rightarrow> drift_args \<Rightarrow> drift" where
  "idle_drift s a = \<lparr>dx_ev = args_evidence (ds_date s 0) a, dx_log = [], dx_ticks = 1, dx_slept = 0\<rparr>"

text \<open>
  What the process leaves: how it exits, the evidence it writes, and the final state. \<open>saved\<close> is the
  outcome of writing the file and of the prints; what it raises escapes.
\<close>

record drift_exit =
  dq_code :: "exn + int"
  dq_evidence :: evidence
  dq_file :: string
  dq_final :: drift

definition exit_code :: "drift_error + unit \<Rightarrow> evidence \<Rightarrow> exn + int" where
  "exit_code r e = (case (case r of Inl problem \<Rightarrow> escapes problem | Inr _ \<Rightarrow> None) of
     Some x \<Rightarrow> Inl x
   | None \<Rightarrow> Inr (if ev_verdict e \<noteq> ''ACCEPTED'' then 1 else 0))"

definition conclude :: "drift_sys \<Rightarrow> exn option \<Rightarrow> (drift_error + unit) \<times> drift \<Rightarrow> drift_exit" where
  "conclude s saved x = (let (r, w) = x;
     handled = (case r of Inl problem \<Rightarrow> handle problem (dx_ev w) | Inr _ \<Rightarrow> dx_ev w);
     final = handled\<lparr>ev_observed := Some (ds_date s (dx_ticks w))\<rparr>
     in \<lparr>dq_code = (case saved of Some e \<Rightarrow> Inl e | None \<Rightarrow> exit_code r final), dq_evidence = final,
         dq_file = pretty_bytes (ds_sys s) (evidence_json final), dq_final = w\<rparr>)"

definition drift_main :: "drift_sys \<Rightarrow> exn option \<Rightarrow> drift_args \<Rightarrow> drift_exit option" where
  "drift_main s saved a = map_option (conclude s saved) (verifier s a (idle_drift s a))"

end
