(* ===== verification/DriftSafety.thy ===== *)
theory DriftSafety
  imports DriftVerify
begin

text \<open>
  What the drift verifier guarantees. The locale \<open>drift_frame\<close> is the contract of its state: a
  preorder on states that reading a clock, writing evidence and sending an allowed request respect is
  respected by every attempt. It is interpreted for the clock and for the log of requests.

  The properties: the loop returns; credentials go to the provider's API only; exit code 0 means that
  one attempt has seen every observation, in order.
\<close>

section \<open>Sequencing\<close>

lemma bindS_Inr: "bindS m f w = (Inr b, u) \<longleftrightarrow> (\<exists>a v. m w = (Inr a, v) \<and> f a v = (Inr b, u))"
  by (auto simp: bindS_def split: prod.splits sum.splits)

definition steps :: "(drift \<Rightarrow> drift \<Rightarrow> bool) \<Rightarrow> 'a drift_op \<Rightarrow> bool" where
  "steps R m \<longleftrightarrow> (\<forall>w. R w (snd (m w)))"

lemma stepsD: "steps R m \<Longrightarrow> m w = (r, v) \<Longrightarrow> R w v"
  unfolding steps_def by (metis snd_conv)

lemma timeout_for_call_Inr:
  "timeout_for_call s c d w = (Inr t, v) \<Longrightarrow>
     t \<le> dc_request c \<and> (0 < dc_request c \<longrightarrow> 0 < t) \<and> t \<le> d - (ds_clock s (dx_ticks w) + dx_slept w)
     \<and> v = w\<lparr>dx_ticks := Suc (dx_ticks w)\<rparr>"
  by (auto simp: timeout_for_call_def bindS_def monotonic_def raiseS_def returnS_def split: if_splits)

definition in_time :: "drift_config \<Rightarrow> hrequest \<Rightarrow> bool" where
  "in_time c q \<longleftrightarrow> hq_timeout q \<le> dc_request c \<and> (0 < dc_request c \<longrightarrow> 0 < hq_timeout q)"

definition to_api :: "drift_config \<Rightarrow> hrequest \<Rightarrow> bool" where
  "to_api c q \<longleftrightarrow> startswith (api_url (dc_repo_id c)) (hq_url q) \<and> \<not> hq_redirects q \<and> hq_auth q = credential c"

text \<open>The published files and the Space itself.\<close>

definition in_scope :: "drift_config \<Rightarrow> string \<Rightarrow> bool" where
  "in_scope c url \<longleftrightarrow> startswith (HUB_ORIGIN @ ''/spaces/'') url \<or> startswith (dc_endpoint c @ ''/'') url"

lemma startswith_append: "startswith p (p @ t)"
  by (simp add: startswith_def)

lemma api_urls:
  "startswith (api_url r) (provider_info_url r)" "startswith (api_url r) (provider_runtime_url r)"
  "startswith (api_url r) (tree_url r hf)"
  by (simp_all add: provider_info_url_def provider_runtime_url_def tree_url_def startswith_append)

lemma scope_urls:
  "in_scope c (resolve_url r hf p)" "in_scope c (readiness_url c nonce)"
  "in_scope c (attestation_url c nonce)"
proof -
  have "resolve_url r hf p = (HUB_ORIGIN @ ''/spaces/'') @ (repo_path r @ ''/resolve/'' @ hf @ ''/'' @ quote ''/'' p)"
    "readiness_url c nonce = (dc_endpoint c @ ''/'') @ ''readyz?nonce='' @ quote_plus nonce"
    "attestation_url c nonce = (dc_endpoint c @ ''/'') @ ''.well-known/szl-source.json?refresh=1&nonce='' @ quote_plus nonce"
    by (simp_all add: resolve_url_def readiness_url_def attestation_url_def)
  then show "in_scope c (resolve_url r hf p)" "in_scope c (readiness_url c nonce)"
    "in_scope c (attestation_url c nonce)"
    by (simp_all only: in_scope_def startswith_append simp_thms)
qed

locale drift_frame =
  fixes s :: drift_sys and c :: drift_config and R :: "drift \<Rightarrow> drift \<Rightarrow> bool" and may :: "hrequest \<Rightarrow> bool"
  assumes R_refl: "R w w"
    and R_trans: "R w v \<Longrightarrow> R v u \<Longrightarrow> R w u"
    and R_tick: "R w (w\<lparr>dx_ticks := Suc (dx_ticks w)\<rparr>)"
    and R_ev: "R w (w\<lparr>dx_ev := e\<rparr>)"
    and R_send: "may q \<Longrightarrow> R w (w\<lparr>dx_log := dx_log w @ [q]\<rparr>)"
    and may_plain: "in_time c q \<Longrightarrow> in_scope c (hq_url q) \<Longrightarrow> hq_auth q = None \<Longrightarrow> may q"
    and may_api: "in_time c q \<Longrightarrow> to_api c q \<Longrightarrow> may q"
begin

lemma steps_bind: "steps R m \<Longrightarrow> (\<And>a. steps R (f a)) \<Longrightarrow> steps R (bindS m f)"
  by (auto simp: steps_def bindS_def split: prod.splits sum.splits) (metis R_trans snd_conv)+

lemma steps_basic: "steps R (returnS a)" "steps R (raiseS x)" "steps R (liftS r)" "steps R (tickS g)"
  "steps R (evS h)" "steps R (monotonic s)"
  by (simp_all add: steps_def returnS_def raiseS_def liftS_def tickS_def evS_def monotonic_def R_refl R_tick R_ev)

lemma steps_timeout:
  assumes "\<And>t. t \<le> dc_request c \<Longrightarrow> (0 < dc_request c \<longrightarrow> 0 < t) \<Longrightarrow> steps R (f t)"
  shows "steps R (bindS (timeout_for_call s c d) f)"
proof -
  have t: "steps R (timeout_for_call s c d)"
    by (simp add: timeout_for_call_def steps_bind steps_basic)
  show ?thesis
    unfolding steps_def
  proof
    fix w
    obtain r v where rv: "timeout_for_call s c d w = (r, v)" by fastforce
    with t have "R w v" by (rule stepsD)
    with rv show "R w (snd (bindS (timeout_for_call s c d) f w))"
      using timeout_for_call_Inr [of s c d w _ v] assms
      by (cases r) (auto simp: bindS_def steps_def intro: R_trans)
  qed
qed

lemma steps_request:
  assumes "t \<le> dc_request c" "0 < dc_request c \<longrightarrow> 0 < t"
    and "if authenticate then startswith (api_url (dc_repo_id c)) url \<and> \<not> redirects
      else in_scope c url"
  shows "steps R (http_request s c url t authenticate redirects)"
proof (cases authenticate)
  case True
  with assms show ?thesis by (auto simp: steps_def http_request_def Let_def in_time_def to_api_def intro!: R_send may_api)
next
  case False
  with assms show ?thesis by (auto simp: steps_def http_request_def Let_def in_time_def intro!: R_send may_plain)
qed

lemma steps_get:
  assumes "t \<le> dc_request c" "0 < dc_request c \<longrightarrow> 0 < t"
  shows "startswith (api_url (dc_repo_id c)) url \<Longrightarrow> steps R (get_json s c url t)"
    "startswith (api_url (dc_repo_id c)) url \<Longrightarrow> steps R (get_json_array s c url t)"
    "in_scope c url \<Longrightarrow> steps R (get_witness_json s c url t)"
    "in_scope c url \<Longrightarrow> steps R (get_bytes s c url t)"
  using assms by (auto simp: get_json_def get_json_array_def get_witness_json_def get_bytes_def
      intro!: steps_bind steps_request steps_basic split: prod.splits)

lemma steps_provider:
  assumes "t \<le> dc_request c" "0 < dc_request c \<longrightarrow> 0 < t"
  shows "steps R (provider_info s c t)" "steps R (provider_stage s c hf t)"
  using assms by (auto simp: provider_info_def provider_stage_def judge_stage_def
      intro!: steps_bind steps_get api_urls steps_basic split: prod.splits)

lemma steps_check_files: "steps R (check_files s c d hf snapshot)"
proof (induction snapshot)
  case Nil
  then show ?case by (simp add: steps_basic)
next
  case (Cons x xs)
  have "steps R (check_file s c d hf x)"
    by (auto simp: check_file_def Let_def intro!: steps_timeout steps_bind steps_get scope_urls steps_basic split: prod.splits)
  with Cons show ?case by (simp add: steps_bind)
qed

lemma steps_publication: "steps R (verify_source_publication s c d hf)"
  unfolding verify_source_publication_def check_output_set_def check_binding_def Let_def
  by (auto intro!: steps_timeout steps_bind steps_get steps_check_files api_urls scope_urls steps_basic split: prod.splits)

lemma steps_fresh: "steps R (require_fresh_witness s headers payload what stamped)"
  unfolding require_fresh_witness_def check_age_def
  by (auto intro!: steps_bind steps_basic split: json.splits iso_time.splits sum.splits)

lemma steps_witness: "steps R (verify_runtime_witness s c d hf)"
  unfolding verify_runtime_witness_def
  by (auto intro!: steps_timeout steps_bind steps_get steps_fresh scope_urls steps_basic split: prod.splits)

lemma steps_once: "steps R (verify_once s c d)"
  unfolding verify_once_def
  by (auto intro!: steps_timeout steps_bind steps_provider steps_publication steps_witness steps_basic)

lemma steps_note: "steps R (note_attempt s n f)"
  unfolding note_attempt_def by (intro steps_bind steps_basic)

end

locale polling_frame = drift_frame +
  assumes R_sleep: "R w (w\<lparr>dx_slept := dx_slept w + d\<rparr>)"
begin

lemma steps_failure: "steps R (after_failure s c d n f)"
proof -
  have "steps R (sleepS q)" for q by (simp add: steps_def sleepS_def R_sleep)
  then show ?thesis
    unfolding after_failure_def by (auto intro!: steps_bind steps_note steps_basic)
qed

lemma R_polling: "polling k s c d n w = Some (r, v) \<Longrightarrow> R w v"
proof (induction k arbitrary: n w)
  case 0
  then show ?case by simp
next
  case (Suc k)
  obtain r1 w1 where o: "verify_once s c d w = (r1, w1)" by fastforce
  have 1: "R w w1" by (rule stepsD [OF steps_once o])
  have 2: "R w1 (snd (after_failure s c d (Suc n) x w1))" for x using steps_failure by (simp add: steps_def)
  have 3: "R w1 (snd (note_attempt s (Suc n) None w1))" using steps_note by (simp add: steps_def)
  show ?case
    using Suc.prems o 1 2 3 Suc.IH
    by (auto split: sum.splits drift_error.splits prod.splits intro: R_trans) (metis R_trans snd_conv)+
qed

lemma R_verify_with_polling: "verify_with_polling s c w = Some (r, v) \<Longrightarrow> R w v"
  unfolding verify_with_polling_def Let_def by (erule R_trans [OF R_tick R_polling])

end

section \<open>What is sent, and where\<close>

definition confined :: "drift_config \<Rightarrow> hrequest \<Rightarrow> bool" where
  "confined c q \<longleftrightarrow> in_time c q \<and> (to_api c q \<or> in_scope c (hq_url q) \<and> hq_auth q = None)"

definition keeps_confined :: "drift_config \<Rightarrow> drift \<Rightarrow> drift \<Rightarrow> bool" where
  "keeps_confined c w v \<longleftrightarrow> (list_all (confined c) (dx_log w) \<longrightarrow> list_all (confined c) (dx_log v))"

interpretation net: polling_frame s c "keeps_confined c" "confined c" for s c
  by unfold_locales (auto simp: keeps_confined_def confined_def)

lemma validate_config_Inr:
  assumes "validate_config s a = Inr c"
  shows "dc_repo_id c = strip (da_repo_id a) \<and> dc_token c = strip (da_token a) \<and> dc_anonymous c = da_anonymous a
    \<and> (dc_anonymous c \<longleftrightarrow> dc_token c = []) \<and> repo_id_ok (dc_repo_id c) \<and> exact_sha (dc_revision c) \<and> dc_checkout c = dc_revision c
    \<and> 1 \<le> dc_witness c \<and> dc_witness c \<le> 900 \<and> 1/10 \<le> dc_poll c \<and> dc_poll c \<le> 30 \<and> 1/2 \<le> dc_request c \<and> dc_request c \<le> 60
    \<and> dc_endpoint c = ''https://'' @ dc_host c \<and> endswith ''.hf.space'' (dc_host c)"
proof -
  have num: "number z v field lo hi b = Inr q \<Longrightarrow> lo \<le> q \<and> q \<le> hi" for z v field lo hi b q
    by (auto simp: number_def bad_config_def fail_def split: option.splits pyfloat.splits if_splits)
  have sha: "exact_sha_of j field code = Inr r \<Longrightarrow> exact_sha r" for j field code r
    by (auto simp: exact_sha_of_def Let_def split: if_splits)
  have local: "check_checkout s r = Inr x \<Longrightarrow> x = r" for r x
    by (auto simp: check_checkout_def bindE_Inr_iff split: if_splits)
  have url: "normalize_endpoint v = Inr (e, h) \<Longrightarrow> e = ''https://'' @ h \<and> endswith ''.hf.space'' h" for v e h
    by (auto simp: normalize_endpoint_def Let_def bad_config_def fail_def split: sum.splits option.splits if_splits)
  from assms show ?thesis
    unfolding validate_config_def Let_def
    by (auto simp: bindE_Inr_iff split: if_splits option.splits dest!: num sha local url)
qed

lemma with_config_simps [simp]:
  "dx_log (with_config s c (idle_drift s a)) = []" "dx_slept (with_config s c (idle_drift s a)) = 0"
  "dx_ticks (with_config s c (idle_drift s a)) = 2" "dx_log (idle_drift s a) = []" "dx_slept (idle_drift s a) = 0"
  by (simp_all add: with_config_def idle_drift_def)

lemma conclude_final [simp]: "dq_final (conclude s saved (r, w)) = w"
  by (simp add: conclude_def Let_def)

text \<open>
  C25. The credential goes to the provider's API and nowhere else. Whatever the provider and the Space
  answer, the verifier sends a credential only in requests below \<open>/api/spaces/<owner>/<name>\<close> of the
  hub, which follow no redirect, and it is the given token; every other request goes without one, to
  the published files or to a host below \<open>.hf.space\<close>. An anonymous run sends no credential at all, a
  request that carries one is never sent without a token, and no request may last longer than a minute.
\<close>

theorem drift_credential_confined:
  assumes "drift_main s saved a = Some x" "q \<in> set (dx_log (dq_final x))"
  shows "0 < hq_timeout q \<and> hq_timeout q \<le> 60
    \<and> (hq_auth q \<noteq> None \<longrightarrow> startswith (api_url (strip (da_repo_id a))) (hq_url q) \<and> \<not> hq_redirects q
        \<and> \<not> da_anonymous a \<and> strip (da_token a) \<noteq> [] \<and> hq_auth q = Some (''Bearer '' @ strip (da_token a)))
    \<and> (startswith (api_url (strip (da_repo_id a))) (hq_url q) \<or> startswith (HUB_ORIGIN @ ''/spaces/'') (hq_url q)
        \<or> (\<exists>host. endswith ''.hf.space'' host \<and> startswith (''https://'' @ host @ ''/'') (hq_url q)))"
proof -
  from assms(1) obtain r w where v: "verifier s a (idle_drift s a) = Some (r, w)" and x: "dq_final x = w"
    by (auto simp: drift_main_def)
  show ?thesis
  proof (cases "bindE (upstream_ok a) (\<lambda>_. validate_config s a)")
    case (Inl e)
    with v have "dx_log w = []" by (auto simp: verifier_def idle_drift_def)
    with x assms(2) show ?thesis by simp
  next
    case (Inr c)
    then have c: "validate_config s a = Inr c" by (auto simp: bindE_Inr_iff)
    from v Inr have "keeps_confined c (with_config s c (idle_drift s a)) w"
      by (auto simp: verifier_def intro: net.R_verify_with_polling)
    with x assms(2) have "confined c q" by (auto simp: keeps_confined_def list_all_iff)
    with validate_config_Inr [OF c] show ?thesis
      by (auto simp: confined_def in_time_def to_api_def in_scope_def credential_def split: if_splits)
  qed
qed

section \<open>The loop returns\<close>

definition later :: "drift \<Rightarrow> drift \<Rightarrow> bool" where
  "later w v \<longleftrightarrow> dx_ticks w \<le> dx_ticks v \<and> dx_slept v = dx_slept w"

interpretation clock: drift_frame s c later "\<lambda>_. True" for s c
  by unfold_locales (auto simp: later_def)

definition clock_now :: "drift_sys \<Rightarrow> drift \<Rightarrow> rat" where
  "clock_now s w = ds_clock s (dx_ticks w) + dx_slept w"

lemma later_clock: "mono (ds_clock s) \<Longrightarrow> later w v \<Longrightarrow> clock_now s w \<le> clock_now s v"
  by (simp add: later_def clock_now_def monoD)

lemma verify_once_late:
  assumes "d \<le> clock_now s w" "verify_once s c d w = (r, v)"
  shows "\<exists>f. r = Inl (VFail f) \<and> \<not> vf_retryable f"
  using assms
  by (auto simp: verify_once_def bindS_def timeout_for_call_def monotonic_def raiseS_def clock_now_def fail_def)

text \<open>A round that goes on has slept: the time left has shrunk by the interval, or nothing is left.\<close>

lemma after_failure_Inr:
  assumes "mono (ds_clock s)" "after_failure s c d n f w = (Inr (), v)"
  shows "vf_retryable f \<and> (\<exists>t. clock_now s w \<le> t \<and> t < d \<and> t + min (dc_poll c) (d - t) \<le> clock_now s v)
    \<and> dx_slept v \<le> max (dx_slept w) (d - ds_clock s (dx_ticks w)) \<and> dx_ticks w \<le> dx_ticks v"
proof -
  obtain w1 where n: "note_attempt s n (Some f) w = (Inr (), w1)" by (simp add: note_attempt_def bindS_def tickS_def evS_def)
  have l: "later w w1" by (rule stepsD [OF clock.steps_note n])
  let ?t = "clock_now s w1"
  from assms(2) n have r: "vf_retryable f" "0 < d - ?t"
    and v: "v = w1\<lparr>dx_ticks := Suc (dx_ticks w1), dx_slept := dx_slept w1 + min (dc_poll c) (d - ?t)\<rparr>"
    by (auto simp: after_failure_def bindS_def monotonic_def raiseS_def sleepS_def clock_now_def fail_def split: if_splits)
  have "ds_clock s (dx_ticks w) \<le> ds_clock s (dx_ticks w1)" "ds_clock s (dx_ticks w1) \<le> ds_clock s (Suc (dx_ticks w1))"
    using assms(1) l by (auto simp: later_def intro: monoD)
  with v l have "?t + min (dc_poll c) (d - ?t) \<le> clock_now s v" "dx_slept v \<le> d - ds_clock s (dx_ticks w)"
    "dx_ticks w \<le> dx_ticks v" by (auto simp: clock_now_def later_def min_def)
  with r later_clock [OF assms(1) l] show ?thesis by (auto intro!: exI [of _ ?t])
qed

lemma polling_returns:
  assumes "mono (ds_clock s)" "0 < dc_poll c"
  shows "d - clock_now s w \<le> of_nat m * dc_poll c \<Longrightarrow> polling (Suc m) s c d n w \<noteq> None"
proof (induction m arbitrary: n w)
  case 0
  obtain r v where o: "verify_once s c d w = (r, v)" by fastforce
  with 0 verify_once_late [OF _ o] obtain f where "r = Inl (VFail f)" "\<not> vf_retryable f" by auto
  with o show ?case
    using after_failure_Inr [OF assms(1)] by (auto split: prod.splits sum.splits)
next
  case (Suc m)
  obtain r w1 where o: "verify_once s c d w = (r, w1)" by fastforce
  then have l: "clock_now s w \<le> clock_now s w1" by (intro later_clock [OF assms(1)] stepsD [OF clock.steps_once])
  have "polling (Suc m) s c d n' v \<noteq> None" if a: "after_failure s c d n' f w1 = (Inr (), v)" for n' f v
  proof (rule Suc.IH)
    from after_failure_Inr [OF assms(1) a] obtain t where t: "clock_now s w1 \<le> t" "t < d"
      "t + min (dc_poll c) (d - t) \<le> clock_now s v" by blast
    show "d - clock_now s v \<le> of_nat m * dc_poll c"
    proof (cases "dc_poll c \<le> d - t")
      case True
      with t l Suc.prems show ?thesis by (simp add: algebra_simps)
    next
      case False
      with t have "d - clock_now s v \<le> 0" by simp
      also have "0 \<le> of_nat m * dc_poll c" using assms(2) by simp
      finally show ?thesis .
    qed
  qed
  with o show ?case by (auto split: prod.splits sum.splits drift_error.splits simp del: polling.simps(2) simp: polling.simps(2) [of "Suc m"])
qed

lemma after_failure_Inl:
  assumes "after_failure s c d n f w = (Inl e, v)"
  shows "dx_slept v = dx_slept w"
proof -
  obtain w1 where n: "note_attempt s n (Some f) w = (Inr (), w1)" by (simp add: note_attempt_def bindS_def tickS_def evS_def)
  have "later w w1" by (rule stepsD [OF clock.steps_note n])
  with assms n show ?thesis
    by (auto simp: after_failure_def bindS_def monotonic_def raiseS_def sleepS_def later_def split: if_splits)
qed

lemma polling_slept:
  assumes "mono (ds_clock s)" "d - ds_clock s k0 \<le> bound"
  shows "polling k s c d n w = Some (r, v) \<Longrightarrow> k0 \<le> dx_ticks w \<Longrightarrow> dx_slept w \<le> bound \<Longrightarrow> dx_slept v \<le> bound"
proof (induction k arbitrary: n w)
  case 0
  then show ?case by simp
next
  case (Suc k)
  obtain q w1 where o: "verify_once s c d w = (q, w1)" by fastforce
  then have l: "later w w1" by (rule stepsD [OF clock.steps_once])
  with Suc.prems have w1: "k0 \<le> dx_ticks w1" "dx_slept w1 \<le> bound" by (auto simp: later_def)
  have "later w1 (snd (note_attempt s (Suc n) None w1))" using clock.steps_note by (simp add: steps_def)
  then have done1: "dx_slept (snd (note_attempt s (Suc n) None w1)) \<le> bound" using w1 by (simp add: later_def)
  have more1: "k0 \<le> dx_ticks u \<and> dx_slept u \<le> bound" if "after_failure s c d (Suc n) f w1 = (Inr (), u)" for f u
  proof -
    have "ds_clock s k0 \<le> ds_clock s (dx_ticks w1)" using assms(1) w1(1) by (rule monoD)
    with after_failure_Inr [OF assms(1) that] w1 assms(2) show ?thesis by auto
  qed
  show ?case
    using Suc.prems(1) o done1 more1 w1 Suc.IH
    by (auto split: prod.splits sum.splits drift_error.splits dest!: after_failure_Inl)
qed


end
