(* ===== verification/DriftAccept.thy ===== *)
theory DriftAccept
  imports DriftSafety
begin

text \<open>
  What an accepting run of the drift verifier has seen. \<open>sees\<close> reads a stretch of the request log
  against a list of expectations, one for each request, an address and a judgement of the answer; each
  operation that succeeds extends the log by exactly the requests it names.
\<close>

section \<open>Observations\<close>

definition response_object :: "drift_sys \<Rightarrow> string \<Rightarrow> hresponse \<Rightarrow> drift_error + jdict \<times> int \<times> string dict" where
  "response_object s url r = bindE (read_answer url False (Received r)) (object_answer s)"

definition response_array :: "drift_sys \<Rightarrow> string \<Rightarrow> hresponse \<Rightarrow> drift_error + json list" where
  "response_array s url r = bindE (read_answer url False (Received r)) (array_answer s)"

definition response_bytes :: "string \<Rightarrow> hresponse \<Rightarrow> drift_error + string" where
  "response_bytes url r = map_sum id fst (read_answer url True (Received r))"

type_synonym expectation = "string \<times> (hresponse \<Rightarrow> bool)"

fun sees :: "drift_sys \<Rightarrow> nat \<Rightarrow> hrequest list \<Rightarrow> expectation list \<Rightarrow> bool" where
  "sees s n [] [] \<longleftrightarrow> True"
| "sees s n (q # qs) ((url, ok) # xs) \<longleftrightarrow> hq_url q = url \<and> (\<exists>r. ds_http s n = Received r \<and> ok r) \<and> sees s (Suc n) qs xs"
| "sees s n _ _ \<longleftrightarrow> False"

definition extends :: "drift_sys \<Rightarrow> drift \<Rightarrow> drift \<Rightarrow> expectation list \<Rightarrow> bool" where
  "extends s w v xs \<longleftrightarrow> (\<exists>new. dx_log v = dx_log w @ new \<and> sees s (length (dx_log w)) new xs)"

lemma sees_append: "sees s n qs xs \<Longrightarrow> sees s (n + length qs) qs' ys \<Longrightarrow> sees s n (qs @ qs') (xs @ ys)"
  by (induction s n qs xs rule: sees.induct) auto

lemma extends_same: "dx_log v = dx_log w \<Longrightarrow> extends s w v []"
  by (simp add: extends_def)

lemma extends_trans: "extends s w v xs \<Longrightarrow> extends s v u ys \<Longrightarrow> extends s w u (xs @ ys)"
  unfolding extends_def by (metis append.assoc length_append sees_append)

lemma extends_log: "dx_log v = dx_log w \<Longrightarrow> extends s v u xs \<longleftrightarrow> extends s w u xs"
  by (simp add: extends_def)

lemma extends_log': "dx_log u = dx_log v \<Longrightarrow> extends s w u xs \<longleftrightarrow> extends s w v xs"
  by (simp add: extends_def)

text \<open>The operations that send nothing.\<close>

definition silent :: "'a drift_op \<Rightarrow> bool" where
  "silent m \<longleftrightarrow> (\<forall>w. dx_log (snd (m w)) = dx_log w)"

lemma silentD: "silent m \<Longrightarrow> m w = (r, v) \<Longrightarrow> dx_log v = dx_log w"
  unfolding silent_def by (metis snd_conv)

lemma silent_bind: "silent m \<Longrightarrow> (\<And>a. silent (f a)) \<Longrightarrow> silent (bindS m f)"
  by (auto simp: silent_def bindS_def split: prod.splits sum.splits) (metis snd_conv)+

lemma silent_basic: "silent (returnS a)" "silent (raiseS x)" "silent (liftS r)" "silent (tickS g)"
  "silent (evS h)" "silent (monotonic s)"
  by (simp_all add: silent_def returnS_def raiseS_def liftS_def tickS_def evS_def monotonic_def)

lemma silent_steps: "silent (timeout_for_call s c d)" "silent (judge_stage e st rv)" "silent (check_output_set p f g)"
  "silent (check_binding s c b)" "silent (require_fresh_witness s hs payload what stamped)"
  unfolding timeout_for_call_def judge_stage_def check_output_set_def check_binding_def Let_def require_fresh_witness_def check_age_def
  by (auto intro!: silent_bind silent_basic split: json.splits iso_time.splits sum.splits)

text \<open>A step of a sequence: \<open>bindS\<close> whose first part extends the log, or leaves it.\<close>

lemma extends_bind:
  assumes "bindS m f w = (Inr b, u)" "\<And>a v. m w = (Inr a, v) \<Longrightarrow> extends s w v xs"
    and "\<And>a v. m w = (Inr a, v) \<Longrightarrow> f a v = (Inr b, u) \<Longrightarrow> extends s v u ys"
  shows "extends s w u (xs @ ys)"
  using assms by (auto simp: bindS_Inr intro: extends_trans)

lemma extends_skip:
  assumes "bindS m f w = (Inr b, u)" "silent m" "\<And>a v. m w = (Inr a, v) \<Longrightarrow> f a v = (Inr b, u) \<Longrightarrow> extends s v u ys"
  shows "extends s w u ys"
  using extends_bind [OF assms(1), of s "[]" ys] assms(2,3) silentD extends_same by (metis append.left_neutral)

lemma request_Inr:
  assumes "http_request s c url t auth redirects w = (Inr x, v)"
  shows "\<exists>r q. ds_http s (length (dx_log w)) = Received r \<and> read_answer url redirects (Received r) = Inr x
    \<and> dx_log v = dx_log w @ [q] \<and> hq_url q = url"
proof -
  from assms have a: "read_answer url redirects (ds_http s (length (dx_log w))) = Inr x"
    and v: "v = w\<lparr>dx_log := dx_log w @ [\<lparr>hq_url = url, hq_auth = if auth then credential c else None, hq_redirects = redirects,
      hq_timeout = t\<rparr>]\<rparr>" by (auto simp: http_request_def Let_def)
  from a obtain r where "ds_http s (length (dx_log w)) = Received r"
    by (cases "ds_http s (length (dx_log w))") (auto simp: read_answer_def fail_def bad_status_def split: if_splits)
  with a v show ?thesis by auto
qed

lemma get_extends:
  "get_json s c url t w = (Inr d, v) \<Longrightarrow> extends s w v [(url, \<lambda>r. \<exists>y. response_object s url r = Inr (d, y))]"
  "get_json_array s c url t w = (Inr xs, v) \<Longrightarrow> extends s w v [(url, \<lambda>r. response_array s url r = Inr xs)]"
  "get_witness_json s c url t w = (Inr y, v) \<Longrightarrow> extends s w v [(url, \<lambda>r. response_object s url r = Inr y)]"
  "get_bytes s c url t w = (Inr b, v) \<Longrightarrow> extends s w v [(url, \<lambda>r. response_bytes url r = Inr b)]"
  by (auto simp: get_json_def get_json_array_def get_witness_json_def get_bytes_def bindS_Inr liftS_def returnS_def
      bindE_Inr_iff extends_def response_object_def response_array_def response_bytes_def dest!: request_Inr)

lemma sees_mono: "sees s n qs [(url, ok)] \<Longrightarrow> (\<And>r. ok r \<Longrightarrow> ok' r) \<Longrightarrow> sees s n qs [(url, ok')]"
  by (cases qs; cases "tl qs") auto

lemma extends_mono: "extends s w v [(url, ok)] \<Longrightarrow> (\<And>r. ok r \<Longrightarrow> ok' r) \<Longrightarrow> extends s w v [(url, ok')]"
  unfolding extends_def by (metis sees_mono)

section \<open>What each step has seen\<close>

definition reports_revision :: "drift_sys \<Rightarrow> drift_config \<Rightarrow> string \<Rightarrow> expectation" where
  "reports_revision s c hf = (let url = provider_info_url (dc_repo_id c) in
     (url, \<lambda>r. \<exists>d y. response_object s url r = Inr (d, y) \<and> provider_identity c d = Inr hf))"

definition reports_running :: "drift_sys \<Rightarrow> drift_config \<Rightarrow> string \<Rightarrow> expectation" where
  "reports_running s c hf = (let url = provider_runtime_url (dc_repo_id c) in
     (url, \<lambda>r. \<exists>d y. response_object s url r = Inr (d, y) \<and> runtime_stage d = Inr (''RUNNING'', hf)))"

definition lists_exactly :: "drift_sys \<Rightarrow> drift_config \<Rightarrow> string \<Rightarrow> string list \<Rightarrow> expectation" where
  "lists_exactly s c hf paths = (let url = tree_url (dc_repo_id c) hf in
     (url, \<lambda>r. \<exists>entries files dirs. response_array s url r = Inr entries \<and> published_tree entries = Inr (files, dirs)
        \<and> set files = set paths \<and> (\<forall>d \<in> set dirs. \<exists>p \<in> set paths. startswith (d @ ''/'') p)))"

definition serves :: "drift_config \<Rightarrow> string \<Rightarrow> string \<times> string \<Rightarrow> expectation" where
  "serves c hf x = (let url = resolve_url (dc_repo_id c) hf (fst x) in
     (url, \<lambda>r. \<exists>b. response_bytes url r = Inr b \<and> sha256_hex b = sha256_hex (snd x)))"

definition serves_binding :: "drift_sys \<Rightarrow> drift_config \<Rightarrow> string \<Rightarrow> expectation" where
  "serves_binding s c hf = (let url = resolve_url (dc_repo_id c) hf BINDING in
     (url, \<lambda>r. \<exists>expected. expected_binding c = Inr expected \<and> response_bytes url r = Inr (binding_bytes (ds_sys s) expected)))"

definition is_ready :: "drift_sys \<Rightarrow> drift_config \<Rightarrow> string \<Rightarrow> expectation" where
  "is_ready s c nonce = (let url = readiness_url c nonce in
     (url, \<lambda>r. \<exists>d n hs. response_object s url r = Inr (d, n, hs) \<and> check_cache_headers hs ''Readiness witness'' = Inr ()
        \<and> (\<forall>(k, v) \<in> set READINESS_FIELDS. dget_or_null d k = JStr v)))"

definition fresh :: "drift_sys \<Rightarrow> jdict \<Rightarrow> bool" where
  "fresh s d \<longleftrightarrow> (\<exists>t t0 k. dget_or_null d ''observed_at'' = JStr t \<and> ds_iso s (zulu_offset t) = Aware (Inr t0)
     \<and> - 30 \<le> ds_now s k - t0 \<and> ds_now s k - t0 \<le> MAX_WITNESS_AGE_SECONDS)"

definition attests :: "drift_sys \<Rightarrow> drift_config \<Rightarrow> string \<Rightarrow> string \<Rightarrow> expectation" where
  "attests s c hf nonce = (let url = attestation_url c nonce in
     (url, \<lambda>r. \<exists>d n hs source deployment. response_object s url r = Inr (d, n, hs)
        \<and> check_cache_headers hs ''Runtime source attestation'' = Inr () \<and> fresh s d
        \<and> (\<forall>(k, v) \<in> set ATTESTATION_FIELDS. dget_or_null d k = JStr v)
        \<and> dget_or_null d ''source'' = JObj source \<and> dget_or_null d ''deployment'' = JObj deployment
        \<and> (\<forall>(k, v) \<in> set (source_fields c). dget_or_null source k = JStr v)
        \<and> (\<forall>(k, v) \<in> set (deployment_fields c hf). dget_or_null deployment k = JStr v)))"

lemma require_fields_Inr: "require_fields d fs code what = Inr () \<longleftrightarrow> (\<forall>(k, v) \<in> set fs. dget_or_null d k = JStr v)"
  by (induction fs) (auto split: if_splits)

lemma provider_info_extends:
  assumes "provider_info s c t w = (Inr hf, v)"
  shows "extends s w v [reports_revision s c hf]"
proof -
  from assms obtain d u where g: "get_json s c (provider_info_url (dc_repo_id c)) t w = (Inr d, v)"
    and p: "provider_identity c d = Inr hf" by (auto simp: provider_info_def bindS_Inr liftS_def)
  from get_extends(1) [OF g] show ?thesis
    unfolding reports_revision_def Let_def by (rule extends_mono) (use p in blast)
qed

lemma judge_stage_Inr: "judge_stage hf stage revision w = (Inr x, v) \<Longrightarrow> stage = ''RUNNING'' \<and> revision = hf"
  by (auto simp: judge_stage_def bindS_Inr raiseS_def split: if_splits)

lemma provider_stage_extends:
  assumes "provider_stage s c hf t w = (Inr x, v)"
  shows "extends s w v [reports_running s c hf]"
proof -
  from assms obtain d u stage revision where g: "get_json s c (provider_runtime_url (dc_repo_id c)) t w = (Inr d, u)"
    and r: "runtime_stage d = Inr (stage, revision)" and j: "judge_stage hf stage revision u = (Inr x, v)"
    by (auto simp: provider_stage_def bindS_Inr liftS_def split: prod.splits)
  from judge_stage_Inr [OF j] r have r: "runtime_stage d = Inr (''RUNNING'', hf)" by simp
  have "dx_log v = dx_log u" by (rule silentD [OF silent_steps(2) j])
  with get_extends(1) [OF g] have "extends s w v
      [(provider_runtime_url (dc_repo_id c), \<lambda>r. \<exists>y. response_object s (provider_runtime_url (dc_repo_id c)) r = Inr (d, y))]"
    by (simp add: extends_def)
  then show ?thesis
    unfolding reports_running_def Let_def by (rule extends_mono) (use r in blast)
qed

lemma check_file_extends:
  assumes "check_file s c d hf x w = (Inr y, v)"
  shows "extends s w v [serves c hf x]"
proof -
  obtain p b where x: "x = (p, b)" by (cases x)
  from assms obtain t w1 w2 body where t: "timeout_for_call s c d w = (Inr t, w1)"
    and g: "get_bytes s c (resolve_url (dc_repo_id c) hf p) t w1 = (Inr body, w2)"
    and h: "sha256_hex b = sha256_hex body" and v: "dx_log v = dx_log w2"
    by (auto simp: x check_file_def Let_def bindS_Inr evS_def raiseS_def returnS_def split: if_splits)
  let ?url = "resolve_url (dc_repo_id c) hf p"
  from get_extends(4) [OF g] silentD [OF silent_steps(1) t] v have "extends s w v [(?url, \<lambda>r. response_bytes ?url r = Inr body)]"
    by (simp add: extends_def)
  then show ?thesis
    unfolding serves_def Let_def x fst_conv snd_conv by (rule extends_mono) (use h in simp)
qed

lemma check_files_extends: "check_files s c d hf xs w = (Inr y, v) \<Longrightarrow> extends s w v (map (serves c hf) xs)"
proof (induction xs arbitrary: w)
  case Nil
  then show ?case by (simp add: returnS_def extends_same)
next
  case (Cons x xs)
  from Cons.prems obtain u where "check_file s c d hf x w = (Inr (), u)" "check_files s c d hf xs u = (Inr y, v)"
    by (auto simp: bindS_Inr)
  from extends_trans [OF check_file_extends [OF this(1)] Cons.IH [OF this(2)]] show ?case by simp
qed

lemma sort_Nil: "sort xs = [] \<longleftrightarrow> xs = []"
  by (metis length_0_conv length_sort)

lemma sorted_minus_empty: "sorted_minus a b = [] \<longleftrightarrow> set a \<subseteq> set b"
  by (auto simp: sorted_minus_def sort_Nil filter_empty_conv)

lemma stray_empty: "stray_directories paths dirs = [] \<longleftrightarrow> (\<forall>d \<in> set dirs. \<exists>p \<in> set paths. startswith (d @ ''/'') p)"
  by (auto simp: stray_directories_def sort_Nil filter_empty_conv list_ex_iff)

lemma check_output_set_Inr:
  assumes "check_output_set paths files dirs w = (Inr x, v)"
  shows "set files = set paths \<and> (\<forall>d \<in> set dirs. \<exists>p \<in> set paths. startswith (d @ ''/'') p)"
proof -
  from assms have "sorted_minus paths files = []" "sorted_minus files paths = []" "stray_directories paths dirs = []"
    by (auto simp: check_output_set_def Let_def bindS_Inr raiseS_def split: if_splits)
  then show ?thesis by (auto simp: sorted_minus_empty stray_empty)
qed

lemma check_binding_Inr: "check_binding s c body w = (Inr x, v) \<Longrightarrow>
    \<exists>expected. expected_binding c = Inr expected \<and> body = binding_bytes (ds_sys s) expected"
  by (auto simp: check_binding_def bindS_Inr liftS_def raiseS_def split: if_splits)

lemma publication_extends:
  assumes "verify_source_publication s c d hf w = (Inr x, v)"
  shows "\<exists>k snapshot. source_snapshot (ds_tree s k) (dc_revision c) = Inr snapshot
    \<and> extends s w v (lists_exactly s c hf (map fst snapshot @ [BINDING]) # map (serves c hf) snapshot @ [serves_binding s c hf])"
proof -
  let ?paths = "\<lambda>snapshot. map fst snapshot @ [BINDING]"
  let ?w3 = "\<lambda>w. w\<lparr>dx_ticks := Suc (dx_ticks w), dx_ev := set_pub (\<lambda>p. p\<lparr>pe_files := [], pe_checked := 0\<rparr>) (dx_ev w)\<rparr>"
  from assms obtain snapshot t w4 entries w5 files dirs w6 w7 t' w8 body w9 w10 where
    sn: "snapshot_of c (ds_tree s (dx_ticks w)) = Inr snapshot"
    and t: "timeout_for_call s c d (?w3 w) = (Inr t, w4)"
    and g: "get_json_array s c (tree_url (dc_repo_id c) hf) t w4 = (Inr entries, w5)"
    and p: "published_tree entries = Inr (files, dirs)"
    and o: "check_output_set (?paths snapshot) files dirs w5 = (Inr (), w6)"
    and f: "check_files s c d hf snapshot w6 = (Inr (), w7)"
    and t': "timeout_for_call s c d w7 = (Inr t', w8)"
    and b: "get_bytes s c (resolve_url (dc_repo_id c) hf BINDING) t' w8 = (Inr body, w9)"
    and cb: "check_binding s c body w9 = (Inr (), w10)" and v: "v = w10\<lparr>dx_ev := aligned (dx_ev w10)\<rparr>"
    by (auto simp: verify_source_publication_def bindS_Inr liftS_def tickS_def evS_def split: prod.splits)
  from sn have "source_snapshot (ds_tree s (dx_ticks w)) (dc_revision c) = Inr snapshot"
    by (auto simp: snapshot_of_def fail_def split: sum.splits source_error.splits)
  moreover have 1: "extends s w w6 [lists_exactly s c hf (?paths snapshot)]"
  proof -
    let ?url = "tree_url (dc_repo_id c) hf"
    have "extends s w w6 [(?url, \<lambda>r. response_array s ?url r = Inr entries)]"
      using get_extends(2) [OF g] silentD [OF silent_steps(3) o] silentD [OF silent_steps(1) t] by (simp add: extends_def)
    then show ?thesis
      unfolding lists_exactly_def Let_def by (rule extends_mono) (use p check_output_set_Inr [OF o] in blast)
  qed
  moreover have 2: "extends s w7 v [serves_binding s c hf]"
  proof -
    let ?url = "resolve_url (dc_repo_id c) hf BINDING"
    have "extends s w7 v [(?url, \<lambda>r. response_bytes ?url r = Inr body)]"
      using get_extends(4) [OF b] silentD [OF silent_steps(4) cb] silentD [OF silent_steps(1) t'] v by (simp add: extends_def)
    then show ?thesis
      unfolding serves_binding_def Let_def by (rule extends_mono) (use check_binding_Inr [OF cb] in blast)
  qed
  moreover have "extends s w v (([lists_exactly s c hf (?paths snapshot)] @ map (serves c hf) snapshot) @ [serves_binding s c hf])"
    by (rule extends_trans [OF extends_trans [OF 1 check_files_extends [OF f]] 2])
  ultimately show ?thesis by auto
qed

lemma check_age_fresh: "check_age s d what w = (Inr x, v) \<Longrightarrow> fresh s d"
  by (auto simp: check_age_def fresh_def bindS_Inr tickS_def raiseS_def returnS_def not_less
      split: json.splits iso_time.splits sum.splits if_splits)

lemma require_fresh_Inr:
  "require_fresh_witness s hs d what stamped w = (Inr x, v) \<Longrightarrow> check_cache_headers hs what = Inr () \<and> (stamped \<longrightarrow> fresh s d)"
  by (auto simp: require_fresh_witness_def bindS_Inr liftS_def split: if_splits dest: check_age_fresh)

lemma check_attestation_Inr:
  assumes "check_attestation c hf d = Inr (source, deployment)"
  shows "(\<forall>(k, v) \<in> set ATTESTATION_FIELDS. dget_or_null d k = JStr v)
    \<and> dget_or_null d ''source'' = JObj source \<and> dget_or_null d ''deployment'' = JObj deployment
    \<and> (\<forall>(k, v) \<in> set (source_fields c). dget_or_null source k = JStr v)
    \<and> (\<forall>(k, v) \<in> set (deployment_fields c hf). dget_or_null deployment k = JStr v)"
proof -
  have unit: "r = Inr x \<Longrightarrow> r = Inr ()" for r :: "drift_error + unit" and x by simp
  from assms show ?thesis
    unfolding check_attestation_def
    by (auto simp: bindE_Inr_iff attestation_rejected_def fail_def require_fields_Inr
        split: json.splits if_splits dest!: unit)
qed

lemma witness_extends:
  assumes "verify_runtime_witness s c d hf w = (Inr x, v)"
  shows "\<exists>nonce. extends s w v [is_ready s c nonce, attests s c hf nonce]"
proof -
  let ?w1 = "w\<lparr>dx_ticks := Suc (dx_ticks w)\<rparr>"
  let ?nonce = "ds_nonce s (dx_ticks w)"
  from assms obtain t w2 readiness status hs w3 w4 t' w5 attestation n' hs' w6 w7 source deployment where
    t: "timeout_for_call s c d ?w1 = (Inr t, w2)"
    and g: "get_witness_json s c (readiness_url c ?nonce) t w2 = (Inr (readiness, status, hs), w3)"
    and f: "require_fresh_witness s hs readiness ''Readiness witness'' False w3 = (Inr (), w4)"
    and r: "require_fields readiness READINESS_FIELDS ''READINESS_CONTRACT_REJECTED'' ''Readiness witness'' = Inr ()"
    and t': "timeout_for_call s c d w4 = (Inr t', w5)"
    and g': "get_witness_json s c (attestation_url c ?nonce) t' w5 = (Inr (attestation, n', hs'), w6)"
    and f': "require_fresh_witness s hs' attestation ''Runtime source attestation'' True w6 = (Inr (), w7)"
    and a: "check_attestation c hf attestation = Inr (source, deployment)"
    and v: "dx_log v = dx_log w7"
    by (auto simp: verify_runtime_witness_def bindS_Inr liftS_def tickS_def evS_def split: prod.splits)
  have 1: "extends s w w4 [is_ready s c ?nonce]"
  proof -
    let ?url = "readiness_url c ?nonce"
    have "extends s w w4 [(?url, \<lambda>r. response_object s ?url r = Inr (readiness, status, hs))]"
      using get_extends(3) [OF g] silentD [OF silent_steps(1) t] silentD [OF silent_steps(5) f] by (simp add: extends_def)
    then show ?thesis
      unfolding is_ready_def Let_def
      by (rule extends_mono) (use require_fresh_Inr [OF f] r in \<open>auto simp: require_fields_Inr\<close>)
  qed
  have 2: "extends s w4 v [attests s c hf ?nonce]"
  proof -
    let ?url = "attestation_url c ?nonce"
    have "extends s w4 v [(?url, \<lambda>r. response_object s ?url r = Inr (attestation, n', hs'))]"
      using get_extends(3) [OF g'] silentD [OF silent_steps(1) t'] silentD [OF silent_steps(5) f'] v by (simp add: extends_def)
    then show ?thesis
      unfolding attests_def Let_def
      by (rule extends_mono) (use require_fresh_Inr [OF f'] check_attestation_Inr [OF a] in blast)
  qed
  from extends_trans [OF 1 2] show ?thesis by auto
qed

definition full_attempt :: "drift_sys \<Rightarrow> drift_config \<Rightarrow> string \<Rightarrow> string \<Rightarrow> string dict \<Rightarrow> expectation list" where
  "full_attempt s c hf nonce snapshot =
     [reports_revision s c hf, reports_running s c hf, lists_exactly s c hf (map fst snapshot @ [BINDING])]
     @ map (serves c hf) snapshot
     @ [serves_binding s c hf, is_ready s c nonce, attests s c hf nonce, reports_revision s c hf, reports_running s c hf]"

lemma provider_identity_sha: "provider_identity c d = Inr hf \<Longrightarrow> exact_sha hf"
  by (auto simp: provider_identity_def exact_sha_of_def bindE_Inr_iff Let_def fail_def malformed_provider_def
      split: option.splits if_splits)

definition judged :: "drift \<Rightarrow> bool" where
  "judged w \<longleftrightarrow> ev_verdict (dx_ev w) = ''ACCEPTED''"

lemma verify_once_extends:
  assumes "verify_once s c d w = (Inr x, v)"
  shows "judged v \<and> (\<exists>k hf nonce snapshot. exact_sha hf \<and> source_snapshot (ds_tree s k) (dc_revision c) = Inr snapshot
    \<and> extends s w v (full_attempt s c hf nonce snapshot))"
proof -
  let ?e = "\<lambda>hf w. w\<lparr>dx_ev := set_dep (\<lambda>d. d\<lparr>de_endpoint_state := ''PROVIDER_MATCHED''\<rparr>)
    (set_pub (\<lambda>p. p\<lparr>pe_revision := Some hf, pe_revision_state := ''OBSERVED''\<rparr>) (dx_ev w))\<rparr>"
  from assms obtain t1 w1 hf w2 t2 w3 w4 w5 w6 t3 w7 w8 t4 w9 w10 where
    t1: "timeout_for_call s c d w = (Inr t1, w1)" and i: "provider_info s c t1 w1 = (Inr hf, w2)"
    and t2: "timeout_for_call s c d (?e hf w2) = (Inr t2, w3)" and st: "provider_stage s c hf t2 w3 = (Inr (), w4)"
    and p: "verify_source_publication s c d hf w4 = (Inr (), w5)" and r: "verify_runtime_witness s c d hf w5 = (Inr (), w6)"
    and t3: "timeout_for_call s c d w6 = (Inr t3, w7)" and i': "provider_info s c t3 w7 = (Inr hf, w8)"
    and t4: "timeout_for_call s c d w8 = (Inr t4, w9)" and st': "provider_stage s c hf t4 w9 = (Inr (), w10)"
    and v: "v = w10\<lparr>dx_ev := accepted (dx_ev w10)\<rparr>"
    by (auto simp: verify_once_def bindS_Inr evS_def raiseS_def split: if_splits)
  note quiet = silentD [OF silent_steps(1) t1] silentD [OF silent_steps(1) t2] silentD [OF silent_steps(1) t3]
    silentD [OF silent_steps(1) t4]
  from publication_extends [OF p] obtain k snapshot where
    sn: "source_snapshot (ds_tree s k) (dc_revision c) = Inr snapshot"
    and pub: "extends s w4 w5 (lists_exactly s c hf (map fst snapshot @ [BINDING]) # map (serves c hf) snapshot @ [serves_binding s c hf])"
    by blast
  from witness_extends [OF r] obtain nonce where wit: "extends s w5 w6 [is_ready s c nonce, attests s c hf nonce]" by blast
  have a: "extends s w w2 [reports_revision s c hf]" using provider_info_extends [OF i] quiet by (simp add: extends_def)
  have b: "extends s w2 w4 [reports_running s c hf]" using provider_stage_extends [OF st] quiet by (simp add: extends_def)
  have e: "extends s w6 w8 [reports_revision s c hf]" using provider_info_extends [OF i'] quiet by (simp add: extends_def)
  have f: "extends s w8 v [reports_running s c hf]" using provider_stage_extends [OF st'] quiet v by (simp add: extends_def)
  from extends_trans [OF extends_trans [OF extends_trans [OF extends_trans [OF extends_trans [OF a b] pub] wit] e] f]
  have "extends s w v (full_attempt s c hf nonce snapshot)" by (simp add: full_attempt_def)
  moreover have "exact_sha hf"
    using i by (auto simp: provider_info_def bindS_Inr liftS_def dest: provider_identity_sha)
  moreover have "judged v" by (simp add: v judged_def accepted_def set_truth_def set_pub_def)
  ultimately show ?thesis using sn by blast
qed

lemma polling_Inr:
  "polling k s c d n w = Some (Inr x, v) \<Longrightarrow> judged v \<and> (\<exists>j hf nonce snapshot earlier. exact_sha hf
     \<and> source_snapshot (ds_tree s j) (dc_revision c) = Inr snapshot
     \<and> sees s earlier (drop earlier (dx_log v)) (full_attempt s c hf nonce snapshot))"
proof (induction k arbitrary: n w)
  case 0
  then show ?case by simp
next
  case (Suc k)
  obtain r w1 where o: "verify_once s c d w = (r, w1)" by fastforce
  show ?case
  proof (cases r)
    case (Inr y)
    with Suc.prems o have n: "note_attempt s (Suc n) None w1 = (Inr x, v)" by simp
    then have v: "dx_log v = dx_log w1" "judged v \<longleftrightarrow> judged w1"
      by (auto simp: note_attempt_def bindS_def tickS_def evS_def judged_def)
    from verify_once_extends [OF o [unfolded Inr]] obtain j hf nonce snapshot where
      *: "judged w1" "exact_sha hf" "source_snapshot (ds_tree s j) (dc_revision c) = Inr snapshot"
      "extends s w w1 (full_attempt s c hf nonce snapshot)" by blast
    from *(4) have "sees s (length (dx_log w)) (drop (length (dx_log w)) (dx_log v)) (full_attempt s c hf nonce snapshot)"
      unfolding v extends_def by auto
    with * v show ?thesis by blast
  next
    case (Inl e)
    with Suc o show ?thesis
      by (auto split: drift_error.splits prod.splits sum.splits)
  qed
qed

text \<open>
  C24. Exit code 0 means verified. If the verifier exits with 0, then its configuration is valid (the
  checkout is the declared source revision), the evidence it wrote says \<open>ACCEPTED\<close>, and the last
  requests it sent are one whole attempt, each with the answer it needed, in this order: the provider
  reports one exact Space revision at the configured host, and its runtime as \<open>RUNNING\<close> at it; the
  published tree at that revision has exactly the files of the admitted source snapshot and the
  binding; every file is served with the digest of its source, the binding byte for byte; the Space is
  ready, uncached; its attestation is fresh, uncached, and names the source revision, the Space and the
  Hub revision; and at the end the provider reports the same revision and \<open>RUNNING\<close> again.
\<close>

theorem drift_accepts_only_verified:
  assumes "drift_main s saved a = Some x" "dq_code x = Inr 0"
  shows "ev_verdict (dq_evidence x) = ''ACCEPTED'' \<and> (\<exists>c k hf nonce snapshot earlier.
    validate_config s a = Inr c \<and> dc_checkout c = dc_revision c \<and> exact_sha hf
    \<and> source_snapshot (ds_tree s k) (dc_revision c) = Inr snapshot
    \<and> sees s earlier (drop earlier (dx_log (dq_final x))) (full_attempt s c hf nonce snapshot))"
proof -
  from assms(1) obtain r w where v: "verifier s a (idle_drift s a) = Some (r, w)" and x: "x = conclude s saved (r, w)"
    by (auto simp: drift_main_def)
  from assms(2) x have "r = Inr ()"
    by (cases r) (auto simp: conclude_def Let_def exit_code_def handle_def escapes_def record_failure_def set_truth_def REJECTED_def
        split: option.splits drift_error.splits if_splits)
  with v obtain c where c: "validate_config s a = Inr c"
    and p: "verify_with_polling s c (with_config s c (idle_drift s a)) = Some (Inr (), w)"
    by (auto simp: verifier_def bindE_Inr_iff split: sum.splits)
  from polling_Inr [OF p [unfolded verify_with_polling_def Let_def]] obtain j hf nonce snapshot earlier where
    *: "judged w" "exact_sha hf" "source_snapshot (ds_tree s j) (dc_revision c) = Inr snapshot"
    "sees s earlier (drop earlier (dx_log w)) (full_attempt s c hf nonce snapshot)" by blast
  moreover have "ev_verdict (dq_evidence x) = ''ACCEPTED''"
    using *(1) \<open>r = Inr ()\<close> by (simp add: x conclude_def Let_def judged_def)
  moreover have "dc_checkout c = dc_revision c" "dq_final x = w" using validate_config_Inr [OF c] x by auto
  ultimately show ?thesis using c by blast
qed

end
