(* ===== verification/DriftDemo.thy ===== *)
theory DriftDemo
  imports DriftAccept
begin

text \<open>
  A run of the drift verifier that is accepted: an anonymous run over the small source tree of
  \<open>Publication\<close>, and the witnesses of the verifier's properties. \<open>reaches k m a j\<close> says that \<open>m\<close>,
  started when \<open>k\<close> requests were sent, returns \<open>a\<close> when \<open>j\<close> were.
\<close>

section \<open>The run\<close>

definition demo_config :: drift_config where
  "demo_config = \<lparr>dc_repo_id = SPACE_ID, dc_endpoint = ''https://r.hf.space'', dc_host = ''r.hf.space'', dc_revision = tiny_sha,
     dc_checkout = tiny_sha, dc_token = [], dc_anonymous = True, dc_witness = 1, dc_poll = 1, dc_request = 1\<rparr>"

definition demo_binding :: jdict where
  "demo_binding = (case expected_binding demo_config of Inr b \<Rightarrow> b | Inl _ \<Rightarrow> [])"

fun raw_of :: "json \<Rightarrow> raw" where
  "raw_of (JStr t) = RStr t"
| "raw_of _ = RNull"

definition raw_dict :: "string dict \<Rightarrow> raw" where
  "raw_dict d = RObj (map (\<lambda>(k, v). (k, RStr v)) d)"

definition demo_docs :: "(string \<times> raw) list" where
  "demo_docs = [
     (''info'', raw_dict [(''sha'', tiny_sha), (''subdomain'', ''r'')]),
     (''stage'', raw_dict [(''stage'', ''RUNNING''), (''sha'', tiny_sha)]),
     (''tree'', RArr [raw_dict [(''type'', ''file''), (''path'', ''README.md'')], raw_dict [(''type'', ''file''), (''path'', BINDING)]]),
     (''ready'', raw_dict READINESS_FIELDS),
     (''attest'', RObj (map (\<lambda>(k, v). (k, RStr v)) ((''observed_at'', ''0'') # ATTESTATION_FIELDS)
        @ [(''source'', raw_dict (source_fields demo_config)),
           (''deployment'', raw_dict ((''measurement_method'', ''HUGGINGFACE_API'') # deployment_fields demo_config tiny_sha))]))]"

definition demo_reply :: "string \<Rightarrow> string \<Rightarrow> hanswer" where
  "demo_reply url body = Received \<lparr>hp_status = 200, hp_url = url,
     hp_headers = [(''Content-Type'', ''application/json''), (''Cache-Control'', ''no-store'')], hp_body = body\<rparr>"

definition demo_http :: "nat \<Rightarrow> hanswer" where
  "demo_http k =
     (if k \<in> {0, 7} then demo_reply (provider_info_url SPACE_ID) ''info''
      else if k \<in> {1, 8} then demo_reply (provider_runtime_url SPACE_ID) ''stage''
      else if k = 2 then demo_reply (tree_url SPACE_ID tiny_sha) ''tree''
      else if k = 3 then demo_reply [] ''hi''
      else if k = 4 then demo_reply [] (binding_bytes small_sys demo_binding)
      else if k = 5 then demo_reply (readiness_url demo_config ''n'') ''ready''
      else demo_reply (attestation_url demo_config ''n'') ''attest'')"

definition demo_drift :: drift_sys where
  "demo_drift = \<lparr>ds_sys = small_sys\<lparr>s_float := \<lambda>_. Some (Fin 1)\<rparr>,
     ds_scan = (\<lambda>t. Inr (case dget demo_docs t of Some r \<Rightarrow> r | None \<Rightarrow> RObj (map (\<lambda>(k, v). (k, raw_of v)) demo_binding))),
     ds_http = demo_http, ds_clock = (\<lambda>_. 0), ds_now = (\<lambda>_. 0), ds_date = (\<lambda>_. ''d''), ds_iso = (\<lambda>_. Aware (Inr 0)),
     ds_nonce = (\<lambda>_. ''n''), ds_tree = (\<lambda>_. tiny_tree),
     ds_git = (\<lambda>args. Some (if args = git_status then [] else tiny_sha))\<rparr>"

definition demo_args :: drift_args where
  "demo_args = \<lparr>da_repo_id = SPACE_ID, da_endpoint = ''https://r.hf.space'', da_revision = tiny_sha, da_token = [],
     da_anonymous = True, da_witness = ''1'', da_poll = ''1'', da_request = ''1'', da_conclusion = ''success'',
     da_space_link = False, da_dirs = True, da_relative = Some ''space''\<rparr>"

lemma demo_config_ok: "bindE (upstream_ok demo_args) (\<lambda>_. validate_config demo_drift demo_args) = Inr demo_config"
  by code_simp

section \<open>Running it\<close>

definition reaches :: "nat \<Rightarrow> 'a drift_op \<Rightarrow> 'a \<Rightarrow> nat \<Rightarrow> bool" where
  "reaches k m a j \<longleftrightarrow> (\<forall>w. length (dx_log w) = k \<and> dx_slept w = 0 \<longrightarrow>
     (\<exists>v. m w = (Inr a, v) \<and> length (dx_log v) = j \<and> dx_slept v = 0))"

lemma reaches_bind: "reaches k m a i \<Longrightarrow> reaches i (f a) b j \<Longrightarrow> reaches k (bindS m f) b j"
  unfolding reaches_def bindS_def by (metis (mono_tags, lifting) case_prod_conv sum.case(2))

lemma reaches_ev: "reaches k (evS f) () k"
  by (simp add: reaches_def evS_def)

lemma reaches_return: "reaches k (returnS a) a k"
  by (simp add: reaches_def returnS_def)

lemma reaches_lift: "r = Inr a \<Longrightarrow> reaches k (liftS r) a k"
  by (simp add: reaches_def liftS_def)

lemma reaches_tick: "f = (\<lambda>_. a) \<Longrightarrow> reaches k (tickS f) a k"
  by (simp add: reaches_def tickS_def)

lemma reaches_timeout: "reaches k (timeout_for_call demo_drift demo_config 1) 1 k"
  by (simp add: reaches_def timeout_for_call_def bindS_def monotonic_def demo_drift_def returnS_def demo_config_def)

lemma reaches_request:
  assumes "read_answer url redirects (demo_http k) = Inr x" "j = Suc k"
  shows "reaches k (http_request demo_drift c url t auth redirects) x j"
  using assms by (simp add: reaches_def http_request_def demo_drift_def Let_def)

lemma read_small:
  assumes "hp_status r = 200" "redirects \<or> hp_url r = url" "length (hp_body r) \<le> MAX_RESPONSE_BYTES"
  shows "read_answer url redirects (Received r) = Inr (hp_body r, 200, header_first ''content-type'' (hp_headers r),
    dupdate [] (map (\<lambda>(k, v). (lower k, v)) (hp_headers r)))"
  using assms by (auto simp: read_answer_def Let_def)

definition demo_headers :: "string dict" where
  "demo_headers = [(''content-type'', ''application/json''), (''cache-control'', ''no-store'')]"

lemma demo_headers_read:
  "header_first ''content-type'' [(''Content-Type'', ''application/json''), (''Cache-Control'', ''no-store'')] = ''application/json''"
  "dupdate [] (map (\<lambda>(k, v). (lower k, v)) [(''Content-Type'', ''application/json''), (''Cache-Control'', ''no-store'')]) = demo_headers"
  by code_simp+

lemma demo_read:
  assumes "demo_http k = demo_reply url0 body" "redirects \<or> url0 = url" "length body \<le> MAX_RESPONSE_BYTES"
  shows "read_answer url redirects (demo_http k) = Inr (body, 200, ''application/json'', demo_headers)"
  using read_small [of "\<lparr>hp_status = 200, hp_url = url0,
     hp_headers = [(''Content-Type'', ''application/json''), (''Cache-Control'', ''no-store'')], hp_body = body\<rparr>" redirects url] assms
  unfolding demo_reply_def by (simp only: hresponse.simps demo_headers_read)

lemma drift_identity: "bindE (object_answer demo_drift (''info'', 200, ''application/json'', demo_headers))
    (\<lambda>(d, _). provider_identity demo_config d) = Inr tiny_sha"
  by code_simp

lemma demo_stage: "bindE (object_answer demo_drift (''stage'', 200, ''application/json'', demo_headers))
    (\<lambda>(d, _). runtime_stage d) = Inr (''RUNNING'', tiny_sha)"
  by code_simp

lemma demo_tree: "bindE (array_answer demo_drift (''tree'', 200, ''application/json'', demo_headers)) published_tree
    = Inr ([''README.md'', BINDING], [])"
  by code_simp

lemma demo_ready: "bindE (object_answer demo_drift (''ready'', 200, ''application/json'', demo_headers)) (\<lambda>(d, n, hs).
    bindE (check_cache_headers hs ''Readiness witness'') (\<lambda>_.
    require_fields d READINESS_FIELDS ''READINESS_CONTRACT_REJECTED'' ''Readiness witness'')) = Inr ()"
  by code_simp

lemma demo_attest: "bindE (object_answer demo_drift (''attest'', 200, ''application/json'', demo_headers)) (\<lambda>(d, n, hs).
    bindE (check_cache_headers hs ''Runtime source attestation'') (\<lambda>_.
    bindE (check_attestation demo_config tiny_sha d) (\<lambda>_. Inr (dget_or_null d ''observed_at'')))) = Inr (JStr ''0'')"
  by code_simp

text \<open>The binding is read back without writing it out.\<close>

lemma binding_bytes_brace: "d \<noteq> [] \<Longrightarrow> \<exists>t. binding_bytes z d = CHR ''{'' # t"
proof -
  assume "d \<noteq> []"
  then have "sort_key fst (sort_items d) \<noteq> []" by (metis length_0_conv length_map length_sort map_fst_sort_items)
  then show ?thesis by (simp add: binding_bytes_def pretty_bytes_def utf8_def)
qed

lemma demo_binding_entries:
  "demo_binding \<noteq> [] \<and> (case sort_json (JObj demo_binding) of JObj d \<Rightarrow> length d \<le> 8
     \<and> list_all (\<lambda>(k, v). case v of JStr t \<Rightarrow> length k + length t \<le> 200 | _ \<Rightarrow> False) d | _ \<Rightarrow> False)"
  by code_simp

lemma length_join_sep: "length (join sep xs) \<le> sum_list (map (\<lambda>x. length x + length sep) xs)"
  by (induction sep xs rule: join.induct) auto

lemma length_pretty_items:
  "list_all (\<lambda>(k, v). case v of JStr t \<Rightarrow> length k + length t \<le> 200 | _ \<Rightarrow> False) d \<Longrightarrow>
     sum_list (map (\<lambda>x. length x + 2) (pretty_items opts 1 d)) \<le> 1300 * length d"
proof (induction d)
  case Nil
  then show ?case by simp
next
  case (Cons x d)
  obtain k v where x: "x = (k, v)" by (cases x)
  with Cons.prems obtain t where v: "v = JStr t" "length k + length t \<le> 200" by (auto split: json.splits)
  with Cons x length_dump_str [of "o_ascii opts" k] length_dump_str [of "o_ascii opts" t] show ?case
    by (simp add: spaces_def)
qed

lemma demo_binding_short: "length (binding_bytes small_sys demo_binding) \<le> MAX_RESPONSE_BYTES"
proof -
  let ?o = "default_opts (s_frepr small_sys)"
  from demo_binding_entries obtain d where d: "sort_json (JObj demo_binding) = JObj d" "length d \<le> 8"
    "list_all (\<lambda>(k, v). case v of JStr t \<Rightarrow> length k + length t \<le> 200 | _ \<Rightarrow> False) d"
    by (auto split: json.splits)
  define x where "x = dump_pretty ?o 0 (JObj d)"
  have "length x \<le> 10500"
    unfolding x_def
    using length_join_sep [of "[CHR '','', CHR 0x0A]" "pretty_items ?o 1 d"] length_pretty_items [OF d(3), of ?o] d(2)
    by (simp add: spaces_def)
  moreover have "binding_bytes small_sys demo_binding = utf8 (x @ [CHR 0x0A])"
    unfolding binding_bytes_def pretty_bytes_def d(1) x_def ..
  ultimately show ?thesis
    using length_utf8 [of "x @ [CHR 0x0A]"] by (simp add: MAX_RESPONSE_BYTES_def)
qed

lemma demo_decoded:
  "bindE (decode (plain_hooks (ds_sys demo_drift)) (RObj (map (\<lambda>(k, v). (k, raw_of v)) demo_binding))) (\<lambda>j.
     case j of JObj b \<Rightarrow> Inr (same_dict b demo_binding) | _ \<Rightarrow> Inr False) = (Inr True :: exn + bool)"
  by code_simp

lemma demo_expected: "expected_binding demo_config = Inr demo_binding"
  by code_simp

lemma demo_binding_read:
  "\<exists>b. json_document demo_drift (binding_bytes small_sys demo_binding) BINDING = Inr b \<and> same_dict b demo_binding"
proof -
  from demo_binding_entries binding_bytes_brace obtain t where "binding_bytes small_sys demo_binding = CHR ''{'' # t" by blast
  then have "dget demo_docs (binding_bytes small_sys demo_binding) = None" by (simp add: demo_docs_def)
  then have scan: "ds_scan demo_drift (binding_bytes small_sys demo_binding) = Inr (RObj (map (\<lambda>(k, v). (k, raw_of v)) demo_binding))"
    by (simp add: demo_drift_def)
  have utf: "s_decode (ds_sys demo_drift) x = Some x" for x by (simp add: demo_drift_def small_sys_def)
  have obj: "\<exists>b. R = Inr (JObj b) \<and> same_dict b demo_binding"
    if "bindE R (\<lambda>j. case j of JObj b \<Rightarrow> Inr (same_dict b demo_binding) | _ \<Rightarrow> Inr False) = (Inr True :: exn + bool)" for R
    using that by (cases R; cases "projr R") auto
  from obj [OF demo_decoded] obtain b where b: "decode (plain_hooks (ds_sys demo_drift)) (RObj (map (\<lambda>(k, v). (k, raw_of v)) demo_binding)) = Inr (JObj b)"
    "same_dict b demo_binding" by blast
  have "json_text demo_drift e (binding_bytes small_sys demo_binding) = Inr (JObj b)" for e
    by (simp only: json_text_def utf scan bindE_simps b(1) option.case sum.case)
  with b(2) show ?thesis by (simp add: json_document_def)
qed

lemma demo_snapshot: "snapshot_of demo_config tiny_tree = Inr [(''README.md'', ''hi'')]"
  by (simp add: snapshot_of_def demo_config_def tiny_snapshot)

lemma demo_output_set: "sorted_minus [''README.md'', BINDING] [''README.md'', BINDING] = []"
  "stray_directories [''README.md'', BINDING] [] = []"
  by code_simp+

lemma drift_answers:
  "k \<in> {0, 7} \<Longrightarrow> demo_http k = demo_reply (provider_info_url SPACE_ID) ''info''"
  "k \<in> {1, 8} \<Longrightarrow> demo_http k = demo_reply (provider_runtime_url SPACE_ID) ''stage''"
  "demo_http 2 = demo_reply (tree_url SPACE_ID tiny_sha) ''tree''"
  "demo_http 3 = demo_reply [] ''hi''"
  "demo_http 4 = demo_reply [] (binding_bytes small_sys demo_binding)"
  "demo_http 5 = demo_reply (readiness_url demo_config ''n'') ''ready''"
  "demo_http 6 = demo_reply (attestation_url demo_config ''n'') ''attest''"
  by (auto simp: demo_http_def)

lemma demo_space [simp]: "dc_repo_id demo_config = SPACE_ID"
  by (simp add: demo_config_def)

lemma reaches_info: "k \<in> {0, 7} \<Longrightarrow> reaches k (provider_info demo_drift demo_config t) tiny_sha (Suc k)"
proof -
  assume k: "k \<in> {0, 7}"
  have r: "read_answer (provider_info_url SPACE_ID) False (demo_http k) = Inr (''info'', 200, ''application/json'', demo_headers)"
    using drift_answers(1) [OF k] by (rule demo_read) (auto simp: MAX_RESPONSE_BYTES_def)
  from drift_identity obtain d y where d: "object_answer demo_drift (''info'', 200, ''application/json'', demo_headers) = Inr (d, y)"
    "provider_identity demo_config d = Inr tiny_sha" by (auto simp: bindE_Inr_iff)
  have g: "reaches k (get_json demo_drift demo_config (provider_info_url SPACE_ID) t) d (Suc k)"
    unfolding get_json_def by (rule reaches_bind, rule reaches_request [OF r refl], rule reaches_lift, simp add: d)
  show ?thesis
    unfolding provider_info_def demo_space by (rule reaches_bind, rule g, rule reaches_lift [OF d(2)])
qed

lemma reaches_running: "k \<in> {1, 8} \<Longrightarrow> reaches k (provider_stage demo_drift demo_config tiny_sha t) () (Suc k)"
proof -
  assume k: "k \<in> {1, 8}"
  have r: "read_answer (provider_runtime_url SPACE_ID) False (demo_http k) = Inr (''stage'', 200, ''application/json'', demo_headers)"
    using drift_answers(2) [OF k] by (rule demo_read) (auto simp: MAX_RESPONSE_BYTES_def)
  from demo_stage obtain d y where d: "object_answer demo_drift (''stage'', 200, ''application/json'', demo_headers) = Inr (d, y)"
    "runtime_stage d = Inr (''RUNNING'', tiny_sha)" by (auto simp: bindE_Inr_iff)
  have g: "reaches k (get_json demo_drift demo_config (provider_runtime_url SPACE_ID) t) d (Suc k)"
    unfolding get_json_def by (rule reaches_bind, rule reaches_request [OF r refl], rule reaches_lift, simp add: d)
  have j: "reaches i (judge_stage tiny_sha ''RUNNING'' tiny_sha) () i" for i
    by (auto simp: judge_stage_def intro!: reaches_bind reaches_ev)
  show ?thesis
    unfolding provider_stage_def demo_space
    by (rule reaches_bind, rule g, rule reaches_bind, rule reaches_lift [OF d(2)], simp add: j)
qed

lemma reaches_bytes:
  assumes "demo_http k = demo_reply url0 body" "length body \<le> MAX_RESPONSE_BYTES" "j = Suc k"
  shows "reaches k (get_bytes demo_drift demo_config url t) body j"
proof -
  have "read_answer url True (demo_http k) = Inr (body, 200, ''application/json'', demo_headers)"
    using demo_read [OF assms(1) _ assms(2), of True url] by simp
  from reaches_request [OF this assms(3)] show ?thesis
    unfolding get_bytes_def by (rule reaches_bind) (simp add: reaches_return)
qed

lemma reaches_publication: "reaches 2 (verify_source_publication demo_drift demo_config 1 tiny_sha) () 5"
proof -
  have r: "read_answer (tree_url SPACE_ID tiny_sha) False (demo_http 2) = Inr (''tree'', 200, ''application/json'', demo_headers)"
    using drift_answers(3) by (rule demo_read) (auto simp: MAX_RESPONSE_BYTES_def)
  from demo_tree obtain entries where e: "array_answer demo_drift (''tree'', 200, ''application/json'', demo_headers) = Inr entries"
    "published_tree entries = Inr ([''README.md'', BINDING], [])" by (auto simp: bindE_Inr_iff)
  have tree: "reaches 2 (get_json_array demo_drift demo_config (tree_url SPACE_ID tiny_sha) t) entries 3" for t
    unfolding get_json_array_def
    by (rule reaches_bind, rule reaches_request [OF r, of 3], simp, rule reaches_lift, simp add: e)
  have set: "reaches i (check_output_set [''README.md'', BINDING] [''README.md'', BINDING] []) () i" for i
    unfolding check_output_set_def Let_def demo_output_set by (auto intro!: reaches_bind reaches_ev)
  have one: "reaches 3 (check_file demo_drift demo_config 1 tiny_sha (''README.md'', ''hi'')) () 4"
    unfolding check_file_def Let_def prod.case
    by (rule reaches_bind [OF reaches_timeout], rule reaches_bind [OF reaches_bytes [OF drift_answers(4)]])
      (auto simp: MAX_RESPONSE_BYTES_def intro!: reaches_bind reaches_ev reaches_return)
  have files: "reaches 3 (check_files demo_drift demo_config 1 tiny_sha [(''README.md'', ''hi'')]) () 4"
    by (simp, intro reaches_bind [OF one]) (simp add: reaches_return)
  from demo_binding_read obtain b where b: "json_document demo_drift (binding_bytes small_sys demo_binding) BINDING = Inr b"
    "same_dict b demo_binding" by blast
  have bytes: "binding_bytes (ds_sys demo_drift) demo_binding = binding_bytes small_sys demo_binding"
    by (simp add: binding_bytes_def pretty_bytes_def demo_drift_def)
  have bound: "reaches i (check_binding demo_drift demo_config (binding_bytes small_sys demo_binding)) () i" for i
    unfolding check_binding_def
    by (rule reaches_bind, rule reaches_lift [OF b(1)], rule reaches_bind, rule reaches_lift [OF demo_expected])
      (simp add: b(2) bytes reaches_return)
  have tick: "reaches k (tickS (ds_tree demo_drift)) tiny_tree k" for k by (rule reaches_tick) (simp add: demo_drift_def)
  show ?thesis
    unfolding verify_source_publication_def demo_space
    apply (rule reaches_bind [OF tick], rule reaches_bind [OF reaches_lift [OF demo_snapshot]])
    apply (rule reaches_bind [OF reaches_ev], rule reaches_bind [OF reaches_timeout], rule reaches_bind [OF tree])
    apply (rule reaches_bind [OF reaches_lift [OF e(2)]], simp del: check_files.simps)
    apply (rule reaches_bind [OF set], rule reaches_bind [OF files], rule reaches_bind [OF reaches_timeout])
    apply (rule reaches_bind, rule reaches_bytes [OF drift_answers(5) demo_binding_short, of 5], simp, rule reaches_bind [OF bound])
    by (simp add: reaches_ev)
qed

lemma reaches_witness: "reaches 5 (verify_runtime_witness demo_drift demo_config 1 tiny_sha) () 7"
proof -
  have r: "read_answer (readiness_url demo_config ''n'') False (demo_http 5) = Inr (''ready'', 200, ''application/json'', demo_headers)"
    using drift_answers(6) by (rule demo_read) (auto simp: MAX_RESPONSE_BYTES_def)
  from demo_ready obtain d n hs where d: "object_answer demo_drift (''ready'', 200, ''application/json'', demo_headers) = Inr (d, n, hs)"
    "check_cache_headers hs ''Readiness witness'' = Inr ()"
    "require_fields d READINESS_FIELDS ''READINESS_CONTRACT_REJECTED'' ''Readiness witness'' = Inr ()"
    by (auto simp: bindE_Inr_iff)
  have ready: "reaches 5 (get_witness_json demo_drift demo_config (readiness_url demo_config ''n'') t) (d, n, hs) 6" for t
    unfolding get_witness_json_def
    by (rule reaches_bind, rule reaches_request [OF r, of 6], simp, rule reaches_lift, simp add: d)
  have r': "read_answer (attestation_url demo_config ''n'') False (demo_http 6) = Inr (''attest'', 200, ''application/json'', demo_headers)"
    using drift_answers(7) by (rule demo_read) (auto simp: MAX_RESPONSE_BYTES_def)
  from demo_attest obtain d' n' hs' x where d': "object_answer demo_drift (''attest'', 200, ''application/json'', demo_headers) = Inr (d', n', hs')"
    "check_cache_headers hs' ''Runtime source attestation'' = Inr ()" "check_attestation demo_config tiny_sha d' = Inr x"
    "dget_or_null d' ''observed_at'' = JStr ''0''"
    by (auto simp: bindE_Inr_iff)
  have attest: "reaches 6 (get_witness_json demo_drift demo_config (attestation_url demo_config ''n'') t) (d', n', hs') 7" for t
    unfolding get_witness_json_def
    by (rule reaches_bind, rule reaches_request [OF r', of 7], simp, rule reaches_lift, simp add: d')
  have nonce: "reaches k (tickS (ds_nonce demo_drift)) ''n'' k" for k by (rule reaches_tick) (simp add: demo_drift_def)
  have f: "reaches i (require_fresh_witness demo_drift hs d ''Readiness witness'' False) () i" for i
    unfolding require_fresh_witness_def by (rule reaches_bind [OF reaches_lift [OF d(2)]]) (simp add: reaches_return)
  have now0: "reaches k (tickS (ds_now demo_drift)) 0 k" for k by (rule reaches_tick) (simp add: demo_drift_def)
  have age: "reaches i (check_age demo_drift d' ''Runtime source attestation'') () i" for i
  proof -
    have iso: "ds_iso demo_drift t = Aware (Inr 0)" for t by (simp add: demo_drift_def)
    show ?thesis
      unfolding check_age_def d'(4) by (simp add: iso) (rule reaches_bind [OF now0], simp add: reaches_return MAX_WITNESS_AGE_SECONDS_def)
  qed
  have f': "reaches i (require_fresh_witness demo_drift hs' d' ''Runtime source attestation'' True) () i" for i
    unfolding require_fresh_witness_def by (rule reaches_bind [OF reaches_lift [OF d'(2)]]) (simp add: age)
  show ?thesis
    unfolding verify_runtime_witness_def
    apply (rule reaches_bind [OF nonce], rule reaches_bind [OF reaches_timeout], rule reaches_bind [OF ready], simp)
    apply (rule reaches_bind [OF f], rule reaches_bind [OF reaches_lift [OF d(3)]], rule reaches_bind [OF reaches_timeout])
    apply (rule reaches_bind [OF attest], simp)
    apply (rule reaches_bind [OF f'], rule reaches_bind [OF reaches_lift [OF d'(3)]])
    by (auto simp: reaches_ev split: prod.splits)
qed

lemma reaches_once: "reaches 0 (verify_once demo_drift demo_config 1) () 9"
proof -
  have i: "reaches 0 (provider_info demo_drift demo_config t) tiny_sha 1" "reaches 7 (provider_info demo_drift demo_config t) tiny_sha 8" for t
    using reaches_info [of 0 t] reaches_info [of 7 t] by simp_all
  have st: "reaches 1 (provider_stage demo_drift demo_config tiny_sha t) () 2" "reaches 8 (provider_stage demo_drift demo_config tiny_sha t) () 9" for t
    using reaches_running [of 1 t] reaches_running [of 8 t] by (simp_all add: numeral_2_eq_2)
  show ?thesis
    unfolding verify_once_def
    apply (rule reaches_bind [OF reaches_timeout], rule reaches_bind [OF i(1)], rule reaches_bind [OF reaches_ev])
    apply (rule reaches_bind [OF reaches_ev], rule reaches_bind [OF reaches_timeout], rule reaches_bind [OF st(1)])
    apply (rule reaches_bind [OF reaches_publication], rule reaches_bind [OF reaches_witness], rule reaches_bind [OF reaches_timeout])
    apply (rule reaches_bind [OF i(2)], simp)
    by (rule reaches_bind [OF reaches_timeout], rule reaches_bind [OF st(2)], rule reaches_ev)
qed

section \<open>The witnesses\<close>

lemma polling_first: "0 < k \<Longrightarrow> verify_once s c d w = (Inr x, w1) \<Longrightarrow> polling k s c d n w = Some (note_attempt s (Suc n) None w1)"
  by (cases k) simp_all

lemma demo_accepted: "\<exists>x. drift_main demo_drift None demo_args = Some x \<and> dq_code x = Inr 0 \<and> length (dx_log (dq_final x)) = 9"
proof -
  let ?w = "(with_config demo_drift demo_config (idle_drift demo_drift demo_args))\<lparr>dx_ticks := 3\<rparr>"
  have "length (dx_log ?w) = 0 \<and> dx_slept ?w = 0" by simp
  with reaches_once have "\<exists>v. verify_once demo_drift demo_config 1 ?w = (Inr (), v) \<and> length (dx_log v) = 9 \<and> dx_slept v = 0"
    unfolding reaches_def by (elim allE impE)
  then obtain w1 where o: "verify_once demo_drift demo_config 1 ?w = (Inr (), w1)" "length (dx_log w1) = 9" by blast
  have d: "ds_clock demo_drift k + 0 + dc_witness demo_config = 1" for k by (simp add: demo_drift_def demo_config_def)
  have "0 < poll_fuel" by (simp add: poll_fuel_def)
  from polling_first [OF this o(1), of 0] have "verifier demo_drift demo_args (idle_drift demo_drift demo_args)
      = Some (note_attempt demo_drift 1 None w1)"
    using d by (simp add: verifier_def demo_config_ok verify_with_polling_def Let_def)
  moreover obtain v where n: "note_attempt demo_drift 1 None w1 = (Inr (), v)" "dx_log v = dx_log w1" "judged v \<longleftrightarrow> judged w1"
    by (simp add: note_attempt_def bindS_def tickS_def evS_def judged_def)
  ultimately have m: "drift_main demo_drift None demo_args = Some (conclude demo_drift None (Inr (), v))"
    by (simp add: drift_main_def)
  have "judged v" using verify_once_extends [OF o(1)] n by blast
  then have "dq_code (conclude demo_drift None (Inr (), v)) = Inr 0"
    by (simp add: conclude_def Let_def exit_code_def judged_def)
  with m n(2) o(2) show ?thesis by simp
qed

theorem drift_accepts_only_verified_witness:
  "\<exists>x c hf nonce snapshot earlier. drift_main demo_drift None demo_args = Some x \<and> dq_code x = Inr 0 \<and> exact_sha hf
     \<and> source_snapshot tiny_tree (dc_revision c) = Inr snapshot
     \<and> sees demo_drift earlier (drop earlier (dx_log (dq_final x))) (full_attempt demo_drift c hf nonce snapshot)"
proof -
  from demo_accepted obtain x where x: "drift_main demo_drift None demo_args = Some x" "dq_code x = Inr 0" by blast
  have t: "ds_tree demo_drift k = tiny_tree" for k by (simp add: demo_drift_def)
  from drift_accepts_only_verified [OF x] obtain c k hf nonce snapshot earlier where "exact_sha hf"
    "source_snapshot (ds_tree demo_drift k) (dc_revision c) = Inr snapshot"
    "sees demo_drift earlier (drop earlier (dx_log (dq_final x))) (full_attempt demo_drift c hf nonce snapshot)" by blast
  with x t show ?thesis by metis
qed

theorem drift_credential_confined_witness:
  "\<exists>x. drift_main demo_drift None demo_args = Some x \<and> dx_log (dq_final x) \<noteq> []
     \<and> (\<forall>i < length (dx_log (dq_final x)). hq_auth (dx_log (dq_final x) ! i) = None)"
proof -
  from demo_accepted obtain x where x: "drift_main demo_drift None demo_args = Some x" "length (dx_log (dq_final x)) = 9" by blast
  have anon: "da_anonymous demo_args" by (simp add: demo_args_def)
  have "hq_auth q = None" if "q \<in> set (dx_log (dq_final x))" for q
    using drift_credential_confined [OF x(1) that] anon by auto
  with x show ?thesis by (intro exI [of _ x]) (auto simp: nth_mem)
qed


text \<open>A bad port is read outside the handler of \<open>_normalize_endpoint\<close>: it fails closed, as an internal error.\<close>

lemma bad_port_internal:
  "validate_config demo_drift (demo_args\<lparr>da_endpoint := ''https://r.hf.space:x''\<rparr>)
     = Inl (Other (ValueError ''Port could not be cast to integer value''))"
  by code_simp

end
