(* ===== verification/SpaceServer.thy ===== *)
theory SpaceServer
  imports DriftDemo Scoring
begin

text \<open>
  \<open>space/\<close>: the public Space, a read-only status surface. \<open>szl_source_attestation.py\<close> measures the
  deployed revision with a short-lived cache, \<open>paint.py\<close> reads the published cycle, \<open>server.py\<close> answers
  the requests. Files, the network and the clocks are parameters: a file is the text that \<open>read_text\<close>
  returns or what it raises.

  The lemmas: the Space attests exactly what the drift verifier of \<open>DriftVerify\<close> requires, and every
  answer it writes itself carries the security headers.
\<close>

section \<open>The world of the Space\<close>

record space_sys =
  sp_sys :: sys
  sp_scan :: scanner
  sp_read :: "string \<Rightarrow> exn + string"
  sp_api :: "nat \<Rightarrow> exn + string"                 \<comment> \<open>the hub's answer to the revision request\<close>
  sp_cycle :: "nat \<Rightarrow> exn + int option \<times> string"  \<comment> \<open>status and bytes of the published cycle\<close>
  sp_mono :: "nat \<Rightarrow> rat"
  sp_now :: "nat \<Rightarrow> rat"
  sp_date :: "nat \<Rightarrow> string"
  sp_iso :: "string \<Rightarrow> iso_time"

record space =
  sc_cache :: "(rat \<times> jdict) dict"   \<comment> \<open>\<open>_CACHE\<close>\<close>
  sc_ticks :: nat
  sc_asked :: "string list"          \<comment> \<open>the URLs asked, oldest first\<close>

definition space_tick :: "(nat \<Rightarrow> 'a) \<Rightarrow> space \<Rightarrow> 'a \<times> space" where
  "space_tick f w = (f (sc_ticks w), w\<lparr>sc_ticks := Suc (sc_ticks w)\<rparr>)"

section \<open>The measured revision\<close>

definition valid_sha :: "json \<Rightarrow> string option" where
  "valid_sha v = (let candidate = sha_text v in if exact_sha candidate then Some candidate else None)"

definition api_revision :: "sys \<Rightarrow> exn + string \<Rightarrow> exn + string option" where
  "api_revision z answer = bindE answer (\<lambda>bytes. bindE (s_loads z bytes) (\<lambda>j.
     case j of JObj d \<Rightarrow> Inr (valid_sha (dget_or_null d ''sha'')) | _ \<Rightarrow> Inl (PyError ''AttributeError'' [])))"

definition measurement_of :: "exn + string option \<Rightarrow> jdict" where
  "measurement_of r = (let revision = (case r of Inr v \<Rightarrow> v | Inl _ \<Rightarrow> None) in
     [(''hf_revision'', opt_str revision),
      (''revision_state'', JStr (if revision \<noteq> None then ''MEASURED'' else ''UNAVAILABLE'')),
      (''measurement_method'', JStr (if revision \<noteq> None then ''HUGGINGFACE_API'' else ''UNAVAILABLE''))]
     @ (case r of Inl e \<Rightarrow> [(''measurement_error'', JStr (exn_class e))] | Inr _ \<Rightarrow> []))"

definition env_measurement :: "string \<Rightarrow> jdict" where
  "env_measurement revision = [(''hf_revision'', JStr revision), (''revision_state'', JStr ''MEASURED''),
     (''measurement_method'', JStr ''SPACE_REPOSITORY_COMMIT'')]"

definition measure_hf_revision :: "space_sys \<Rightarrow> string \<Rightarrow> bool \<Rightarrow> space \<Rightarrow> jdict \<times> space" where
  "measure_hf_revision s space_id force w =
     (case valid_sha (JStr (env_get (s_env (sp_sys s)) ''SPACE_REPOSITORY_COMMIT'' [])) of
        Some revision \<Rightarrow> (env_measurement revision, w)
      | None \<Rightarrow>
          let (now_t, w1) = space_tick (sp_mono s) w;
              probe = (let url = ''https://huggingface.co/api/spaces/'' @ space_id @ ''?expand[]=sha'';
                           m = measurement_of (api_revision (sp_sys s) (sp_api s (length (sc_asked w1))));
                           (stored_at, w2) = space_tick (sp_mono s) (w1\<lparr>sc_asked := sc_asked w1 @ [url]\<rparr>)
                       in (m, w2\<lparr>sc_cache := dset space_id (stored_at, m) (sc_cache w2)\<rparr>))
          in (case dget (sc_cache w1) space_id of
                None \<Rightarrow> probe
              | Some (stored_at, m) \<Rightarrow> if \<not> force \<and> now_t - stored_at < 60 then (m, w1) else probe))"

section \<open>The source binding and the attestation\<close>

text \<open>What the server knows of its source: repository and revision, or nothing.\<close>

definition binding_fields :: "sys \<Rightarrow> jdict \<Rightarrow> (string \<times> string) option" where
  "binding_fields z d =
     (let text_of = (\<lambda>k. case dget d k of None \<Rightarrow> [] | Some v \<Rightarrow> py_str (s_frepr z) v);
          repository = strip (text_of ''source_repository''); revision = lower (strip (text_of ''source_revision''))
      in if dget_or_null d ''schema'' \<noteq> JStr ''szl.source-binding/v1'' \<or> \<not> repo_id_ok repository \<or> \<not> exact_sha revision
            \<or> dget_or_null d ''source_path'' \<noteq> JStr ''space'' \<or> dget_or_null d ''relation'' \<noteq> JStr ''exact-deployed-subtree''
         then None else Some (repository, revision))"

definition read_json :: "space_sys \<Rightarrow> string \<Rightarrow> exn + json" where
  "read_json s path = bindE (sp_read s path) (\<lambda>t. bindE (sp_scan s t) (decode (plain_hooks (sp_sys s))))"

definition unreadable :: "exn \<Rightarrow> bool" where
  "unreadable e = (is_transport e \<or> exn_class e \<in> {''UnicodeDecodeError'', ''JSONDecodeError''})"

text \<open>A document that is not an object has no \<open>get\<close>: the \<open>AttributeError\<close> is not handled.\<close>

definition load_source_binding :: "space_sys \<Rightarrow> exn + (string \<times> string) option" where
  "load_source_binding s = (case read_json s BINDING of
     Inl e \<Rightarrow> if unreadable e then Inr None else Inl e
   | Inr (JObj d) \<Rightarrow> Inr (binding_fields (sp_sys s) d)
   | Inr _ \<Rightarrow> Inl (PyError ''AttributeError'' []))"

definition source_json :: "(string \<times> string) option \<Rightarrow> jdict" where
  "source_json b = [(''repository'', opt_str (map_option fst b)), (''commit'', opt_str (map_option snd b)),
     (''path'', JStr ''space''), (''relation'', JStr ''exact-deployed-subtree''),
     (''state'', JStr (if b \<noteq> None then ''SOURCE_BOUND'' else ''UNAVAILABLE'')),
     (''evidence_url'', (case b of None \<Rightarrow> JNull
        | Some (r, c) \<Rightarrow> JStr (''https://github.com/'' @ r @ ''/tree/'' @ c @ ''/space'')))]"

definition BOUND_LIMITS :: "string list" where
  "BOUND_LIMITS = [''GitHub parity is scoped to the szl-router/space subtree.'',
     ''The deployment workflow verifies each shipped subtree file by SHA-256.'',
     ''No reproducible-build or router-gateway runtime claim is made.'']"

definition STRUCTURAL_LIMITS :: "string list" where
  "STRUCTURAL_LIMITS = [''The Hugging Face revision is measured independently from the source observation.'',
     ''A GitHub reference does not establish deployed-artifact equivalence.'',
     ''This unsigned structural attestation does not claim a reproducible build or GitHub parity.'']"

text \<open>\<open>build_attestation\<close>; its last four arguments are what a bound source puts in its place.\<close>

definition attestation_json ::
  "string \<Rightarrow> jdict \<Rightarrow> string \<Rightarrow> string \<Rightarrow> jdict \<Rightarrow> string \<Rightarrow> string \<Rightarrow> string list \<Rightarrow> jdict" where
  "attestation_json space_id source alignment date measured verification parity limits = [
     (''schema'', JStr ''szl.deployment-source/v1''), (''observed_at'', JStr date), (''transport_state'', JStr ''REACHABLE''),
     (''evidence_state'', JStr (if truthy (dget_or_null measured ''hf_revision'') then ''COMPUTED'' else ''UNAVAILABLE'')),
     (''verification_state'', JStr verification), (''authority_state'', JStr ''READ_ONLY''), (''source'', JObj source),
     (''deployment'', JObj ((''hf_space'', JStr space_id) # measured)), (''alignment_state'', JStr alignment),
     (''attestation_state'', JStr ''UNSIGNED_STRUCTURAL''),
     (''claims'', JObj [(''github_parity'', JStr parity), (''reproducible_build'', JStr ''NOT_CLAIMED'')]),
     (''limits'', JArr (map JStr limits))]"

definition build_source_attestation :: "space_sys \<Rightarrow> bool \<Rightarrow> space \<Rightarrow> (exn + jdict) \<times> space" where
  "build_source_attestation s force w =
     (case load_source_binding s of
        Inl e \<Rightarrow> (Inl e, w)
      | Inr b \<Rightarrow>
          let (m, w1) = measure_hf_revision s SPACE_ID force w; (date, w2) = space_tick (sp_date s) w1
          in (Inr (if b \<noteq> None
                   then attestation_json SPACE_ID (source_json b) ''SOURCE_BOUND_DEPLOYMENT'' date m ''SOURCE_BOUND''
                          ''EXACT_DEPLOYED_SUBTREE'' BOUND_LIMITS
                   else attestation_json SPACE_ID (source_json b) ''UNAVAILABLE'' date m ''STRUCTURAL_ONLY'' ''NOT_CLAIMED''
                          STRUCTURAL_LIMITS), w2))"

section \<open>Snapshots\<close>

definition SNAPSHOT_MAX_AGE_SECONDS :: rat where "SNAPSHOT_MAX_AGE_SECONDS = 86400"

definition freshness :: "string \<Rightarrow> int option \<Rightarrow> jdict" where
  "freshness state age = [(''freshness_state'', JStr state), (''snapshot_age_seconds'', opt_int age),
     (''stale_after_seconds'', JInt 86400)]"

text \<open>The clock is read before the stored time is converted.\<close>

definition classify_snapshot_freshness :: "space_sys \<Rightarrow> json \<Rightarrow> space \<Rightarrow> (exn + jdict) \<times> space" where
  "classify_snapshot_freshness s captured_at w =
     (case captured_at of
        JStr t \<Rightarrow>
          if strip t = [] then (Inr (freshness ''UNKNOWN'' None), w)
          else (case sp_iso s (zulu_offset t) of
            Aware r \<Rightarrow>
              let (now_t, w1) = space_tick (sp_now s) w in
              (case r of
                 Inl e \<Rightarrow> (Inl e, w1)
               | Inr t0 \<Rightarrow>
                   if now_t - t0 < 0 then (Inr (freshness ''UNKNOWN'' None), w1)
                   else (Inr (freshness (if now_t - t0 \<le> SNAPSHOT_MAX_AGE_SECONDS then ''FRESH'' else ''STALE'')
                           (Some (py_trunc (now_t - t0)))), w1))
          | _ \<Rightarrow> (Inr (freshness ''UNKNOWN'' None), w))
      | _ \<Rightarrow> (Inr (freshness ''UNKNOWN'' None), w))"

section \<open>The published cycle\<close>

definition CYCLE_SCHEMA :: string where "CYCLE_SCHEMA = ''szl.frontier.ouroboros-cycle.v1''"

definition ORGAN_CYCLE_URL :: string where
  "ORGAN_CYCLE_URL = ''https://szlholdings-szl-frontier.hf.space/frontier/ouroboros-cycle.v1.json''"

definition CYCLE_PATH :: string where "CYCLE_PATH = ''/frontier/ouroboros-cycle.v1.json''"

definition DENY_VERDICTS :: "string list" where
  "DENY_VERDICTS = [''HARD_DENY'', ''LAMBDA_VETO'', ''DENY_DEFAULT'', ''ESCALATE'']"

text \<open>Membership in the set of verdicts hashes the value: a list or an object raises \<open>TypeError\<close>.\<close>

definition paint_from_cycle :: "json \<Rightarrow> exn + string" where
  "paint_from_cycle cycle = (case cycle of
     JObj d \<Rightarrow>
       if dget_or_null d ''schema'' \<noteq> JStr CYCLE_SCHEMA then Inr ''UNAVAILABLE''
       else if dget_or_null d ''productionPromotion'' = JBool True then Inr ''DENY''
       else if dget_or_null d ''lambda'' \<noteq> JStr ''CONJECTURE_1'' \<or> dget_or_null d ''lambdaNeverATheorem'' \<noteq> JBool True then Inr ''DENY''
       else if dget_or_null d ''authority'' \<noteq> JStr ''PROPOSAL_ONLY'' then Inr ''DENY''
       else if dget_or_null d ''invariantsOk'' \<noteq> JBool True then Inr ''DENY''
       else if jget (dget_or_null d ''shadow'') ''executable'' = JBool True then Inr ''DENY''
       else (case dget_or_null d ''verdict'' of
               JStr v \<Rightarrow> Inr (if v = ''ALLOW'' then ''ALLOW'' else if v \<in> set DENY_VERDICTS then ''DENY'' else ''UNAVAILABLE'')
             | JArr _ \<Rightarrow> Inl (TypeError ''unhashable type'')
             | JObj _ \<Rightarrow> Inl (TypeError ''unhashable type'')
             | _ \<Rightarrow> Inr ''UNAVAILABLE'')
   | _ \<Rightarrow> Inr ''UNAVAILABLE'')"

definition allow_chrome :: "string \<Rightarrow> bool" where "allow_chrome paint = (paint = ''ALLOW'')"

definition paint_tone :: "string \<Rightarrow> string" where
  "paint_tone paint = (if paint = ''ALLOW'' then ''allow'' else if paint = ''DENY'' then ''deny'' else ''pending'')"

definition paint_label :: "string \<Rightarrow> string option \<Rightarrow> string" where
  "paint_label paint verdict = (if paint = ''UNAVAILABLE'' then ''UNAVAILABLE''
     else if paint = ''DENY'' then (case verdict of Some v \<Rightarrow> if v = [] then ''DENY'' else v | None \<Rightarrow> ''DENY'') else ''ALLOW'')"

definition cycle_error :: "exn \<Rightarrow> bool" where
  "cycle_error e = (is_transport e \<or> is_value_error e \<or> exn_class e = ''TypeError'')"

definition published_cycle :: "space_sys \<Rightarrow> exn + int option \<times> string \<Rightarrow> exn + jdict option" where
  "published_cycle s answer =
     (case bindE answer (\<lambda>(status, bytes).
         if status \<noteq> None \<and> status \<noteq> Some 200 then Inr JNull
         else case s_decode (sp_sys s) bytes of
           None \<Rightarrow> Inl (PyError ''UnicodeDecodeError'' [])
         | Some t \<Rightarrow> bindE (sp_scan s t) (decode (plain_hooks (sp_sys s)))) of
        Inl e \<Rightarrow> if cycle_error e then Inr None else Inl e
      | Inr (JObj d) \<Rightarrow> Inr (if dget_or_null d ''schema'' \<noteq> JStr CYCLE_SCHEMA then None else Some d)
      | Inr _ \<Rightarrow> Inr None)"

definition load_published_cycle :: "space_sys \<Rightarrow> space \<Rightarrow> (exn + jdict option) \<times> space" where
  "load_published_cycle s w =
     (published_cycle s (sp_cycle s (length (sc_asked w))), w\<lparr>sc_asked := sc_asked w @ [ORGAN_CYCLE_URL]\<rparr>)"

section \<open>Answers\<close>

datatype served =
    Sent int "(string \<times> string) list" string
  | SentError int string
  | StaticFile string
  | Failed exn

definition CONTENT_SECURITY_POLICY :: string where
  "CONTENT_SECURITY_POLICY = join ''; '' (map (map (\<lambda>x. if x = CHR ''!'' then CHR 0x27 else x))
     [''default-src !self!'', ''base-uri !self!'', ''object-src !none!'', ''script-src !self! !unsafe-inline!'',
      ''style-src !self! !unsafe-inline!'', ''img-src !self! data: blob:'', ''font-src !self!'',
      ''connect-src !self! https://a-11-oy.com'',
      ''frame-ancestors !self! https://huggingface.co https://*.hf.space https://*.huggingface.co''])"

definition end_headers :: "(string \<times> string) list \<Rightarrow> (string \<times> string) list" where
  "end_headers hs = hs @ [(''Content-Security-Policy'', CONTENT_SECURITY_POLICY),
     (''Strict-Transport-Security'', ''max-age=31536000; includeSubDomains''), (''X-Content-Type-Options'', ''nosniff''),
     (''Referrer-Policy'', ''strict-origin-when-cross-origin'')]"

definition compact_body :: "space_sys \<Rightarrow> jdict \<Rightarrow> string" where
  "compact_body s payload = utf8 (dumps ((compact (s_frepr (sp_sys s)))\<lparr>o_ascii := False\<rparr>) (JObj payload))"

definition JSON_TYPE :: "string \<times> string" where
  "JSON_TYPE = (''Content-Type'', ''application/json; charset=utf-8'')"

definition send_json :: "space_sys \<Rightarrow> jdict \<Rightarrow> int \<Rightarrow> served" where
  "send_json s payload status = (let body = compact_body s payload; state = (\<lambda>k. py_str (s_frepr (sp_sys s)) (dget_or_null payload k)) in
     Sent status (end_headers [JSON_TYPE, (''Content-Length'', show_nat (length body)), (''Cache-Control'', ''no-store''),
       (''X-SZL-Transport-State'', state ''transport_state''), (''X-SZL-Evidence-State'', state ''evidence_state''),
       (''X-SZL-Verification-State'', state ''verification_state''), (''X-SZL-Authority-State'', state ''authority_state'')]) body)"

definition send_organ_cycle :: "space_sys \<Rightarrow> jdict option \<Rightarrow> served" where
  "send_organ_cycle s c = (let (body, status) = (case c of None \<Rightarrow> (''{}'', 503) | Some d \<Rightarrow> (compact_body s d, 200)) in
     Sent status (end_headers [JSON_TYPE, (''Cache-Control'', ''no-store''), (''Content-Length'', show_nat (length body))]) body)"

definition send_snapshot_json :: "space_sys \<Rightarrow> string \<Rightarrow> space \<Rightarrow> served \<times> space" where
  "send_snapshot_json s path w =
     (case read_json s path of
        Inl e \<Rightarrow> ((if is_transport e \<or> is_value_error e then SentError 503 ''snapshot unavailable'' else Failed e), w)
      | Inr (JObj d) \<Rightarrow>
          (case classify_snapshot_freshness s (dget_or_null d ''captured_at'') w of
             (Inl e, w1) \<Rightarrow> (Failed e, w1)
           | (Inr f, w1) \<Rightarrow>
               let payload = dupdate d f; body = compact_body s payload in
               (Sent 200 (end_headers [JSON_TYPE, (''Cache-Control'', ''no-store''), (''X-SZL-Transport-State'', ''REACHABLE''),
                  (''X-SZL-Evidence-State'', ''SNAPSHOT''),
                  (''X-SZL-Freshness-State'', py_str (s_frepr (sp_sys s)) (dget_or_null payload ''freshness_state'')),
                  (''Content-Length'', show_nat (length body))]) body, w1))
      | Inr _ \<Rightarrow> (SentError 503 ''snapshot unavailable'', w))"

section \<open>The endpoints\<close>

definition health_body :: jdict where
  "health_body = [(''schema'', JStr ''szl.router-health/v1''), (''transport_state'', JStr ''REACHABLE''),
     (''evidence_state'', JStr ''OBSERVED''), (''verification_state'', JStr ''PROCESS_ALIVE''), (''authority_state'', JStr ''READ_ONLY''),
     (''status'', JStr ''RUNNING''), (''service'', JStr ''llm-router-live''), (''access_mode'', JStr ''PUBLIC_READONLY''),
     (''router_runtime'', JStr ''NOT_MEASURED''), (''credential_value_recorded'', JBool False)]"

definition common_body :: "bool \<Rightarrow> jdict" where
  "common_body bound = [(''transport_state'', JStr ''REACHABLE''),
     (''evidence_state'', JStr (if bound then ''OBSERVED'' else ''UNAVAILABLE'')),
     (''verification_state'', JStr (if bound then ''SOURCE_BOUND'' else ''UNAVAILABLE'')), (''authority_state'', JStr ''READ_ONLY'')]"

definition build_info_body :: "(string \<times> string) option \<Rightarrow> jdict" where
  "build_info_body b = (let bound = (b \<noteq> None); seen = JStr (if bound then ''OBSERVED'' else ''UNAVAILABLE'');
       commit = opt_str (map_option snd b) in
     common_body bound @ [(''service'', JStr ''llm-router-live''), (''version'', JStr ''1.0''),
       (''build'', JObj [(''state'', seen), (''revision'', commit), (''repository'', opt_str (map_option fst b)), (''path'', JStr ''space'')]),
       (''source_revision'', commit), (''source_revision_state'', seen),
       (''github_huggingface_alignment'', JStr (if bound then ''SOURCE_BOUND_DEPLOYMENT'' else ''UNAVAILABLE'')),
       (''receipt_minted'', JBool False)])"

definition ready_body :: "(string \<times> string) option \<Rightarrow> jdict" where
  "ready_body b = (let bound = (b \<noteq> None) in
     common_body bound @ [(''schema'', JStr ''szl.router-ready/v1''), (''status'', JStr (if bound then ''ready'' else ''degraded'')),
       (''service'', JStr ''llm-router-live''), (''access_mode'', JStr ''PUBLIC_READONLY''), (''surface'', JStr ''STATUS_SURFACE''),
       (''router_runtime'', JStr ''NOT_MEASURED''), (''source_binding'', JStr (if bound then ''SOURCE_BOUND'' else ''UNAVAILABLE'')),
       (''credential_value_recorded'', JBool False)])"

definition public_states :: jdict where
  "public_states = [(''transport_state'', JStr ''REACHABLE''), (''evidence_state'', JStr ''OBSERVED''),
     (''verification_state'', JStr ''PUBLIC_SPACE''), (''authority_state'', JStr ''READ_ONLY'')]"

definition inference_ready_body :: jdict where
  "inference_ready_body = (''schema'', JStr ''szl.router-inference-ready/v1'') # public_states
     @ [(''status'', JStr ''OFFLINE_UNTIL_KEYED''), (''http_ok'', JBool False),
        (''reason'', JStr ''Public Space is a redacted status surface, not a credential-bearing gateway.''),
        (''credential_value_recorded'', JBool False)]"

definition models_body :: "int \<Rightarrow> jdict" where
  "models_body now_s = [(''object'', JStr ''list''),
     (''data'', JArr (map (\<lambda>n. JObj [(''id'', JStr n), (''object'', JStr ''model''), (''created'', JInt now_s),
        (''owned_by'', JStr ''szl-router''), (''available'', JBool False), (''reason'', JStr ''OFFLINE_UNTIL_KEYED'')])
        [''szl-auto'', ''szl-fast'', ''szl-large'', ''szl-coder''])),
     (''inference_state'', JStr ''OFFLINE_UNTIL_KEYED''), (''credential_value_recorded'', JBool False)] @ public_states"

definition offline_body :: jdict where
  "offline_body = [(''error'', JObj [(''message'', JStr ''Public Space inference is OFFLINE_UNTIL_KEYED.''),
       (''type'', JStr ''offline_until_keyed'')]),
     (''inference_state'', JStr ''OFFLINE_UNTIL_KEYED''), (''credential_value_recorded'', JBool False)] @ public_states"

text \<open>\<open>unquote\<close> after \<open>+\<close> for a blank. The values are only compared with ASCII text.\<close>

definition hex_val :: "char \<Rightarrow> nat option" where
  "hex_val c = (if ascii_digit c then Some (digit_val c) else let l = lower_char c in
     if l \<in> set ''abcdef'' then Some (of_char l - 87) else None)"

fun unquote_plus :: "string \<Rightarrow> string" where
  "unquote_plus [] = []"
| "unquote_plus (c # cs) =
     (if c = CHR ''+'' then CHR '' '' # unquote_plus cs
      else if c = CHR ''%'' then
        (case cs of
           a # b # rest \<Rightarrow>
             (case (hex_val a, hex_val b) of
                (Some x, Some y) \<Rightarrow> char_of (16 * x + y) # unquote_plus rest
              | _ \<Rightarrow> c # unquote_plus cs)
         | _ \<Rightarrow> c # unquote_plus cs)
      else c # unquote_plus cs)"

text \<open>\<open>parse_qs(query).get("refresh") == ["1"]\<close>: pairs without a sign or without a value are left out.\<close>

definition query_pairs :: "string \<Rightarrow> (string \<times> string) list" where
  "query_pairs q = concat (map (\<lambda>p. let (k, eq, v) = partition_at (CHR ''='') p in
     if eq \<and> v \<noteq> [] then [(unquote_plus k, unquote_plus v)] else []) (split_on (CHR ''&'') q))"

definition refresh_forced :: "string \<Rightarrow> bool" where
  "refresh_forced q = (map snd (filter (\<lambda>(k, v). k = ''refresh'') (query_pairs q)) = [''1''])"

definition snapshot_routes :: "string dict" where
  "snapshot_routes = [(''/api/a11oy/v1/router/health'', ''assets/snapshot-router-health.json''),
     (''/api/a11oy/v1/router/models'', ''assets/snapshot-router-models.json''),
     (''/api/a11oy/v1/router/provenance'', ''assets/snapshot-router-provenance.json'')]"

definition serve_bound :: "space_sys \<Rightarrow> ((string \<times> string) option \<Rightarrow> jdict) \<Rightarrow> served" where
  "serve_bound s body = (case load_source_binding s of
     Inl e \<Rightarrow> Failed e
   | Inr b \<Rightarrow> send_json s (body b) (if b \<noteq> None then 200 else 503))"

definition get_path :: "space_sys \<Rightarrow> string \<Rightarrow> string \<Rightarrow> space \<Rightarrow> served \<times> space" where
  "get_path s path query w =
     (if path = ''/.well-known/szl-source.json''
      then (case build_source_attestation s (refresh_forced query) w of
              (Inl e, w1) \<Rightarrow> (Failed e, w1) | (Inr payload, w1) \<Rightarrow> (send_json s payload 200, w1))
      else if path \<in> {''/health'', ''/healthz''} then (send_json s health_body 200, w)
      else if path = ''/api/build-info'' then (serve_bound s build_info_body, w)
      else if path \<in> {''/ready'', ''/readyz''} then (serve_bound s ready_body, w)
      else if path \<in> {''/inference/ready'', ''/readyz/inference''} then (send_json s inference_ready_body 503, w)
      else if path = ''/v1/models''
      then (let (t, w1) = space_tick (sp_now s) w in (send_json s (models_body (py_trunc t)) 200, w1))
      else case dget snapshot_routes path of
        Some file_path \<Rightarrow> send_snapshot_json s file_path w
      | None \<Rightarrow>
          if path = CYCLE_PATH
          then (case load_published_cycle s w of
                  (Inl e, w1) \<Rightarrow> (Failed e, w1) | (Inr c, w1) \<Rightarrow> (send_organ_cycle s c, w1))
          else (StaticFile path, w))"

definition do_GET :: "space_sys \<Rightarrow> string \<Rightarrow> space \<Rightarrow> served \<times> space" where
  "do_GET s target w = (case urlsplit target of Inl e \<Rightarrow> (Failed e, w) | Inr u \<Rightarrow> get_path s (u_path u) (u_query u) w)"

definition do_POST :: "space_sys \<Rightarrow> string \<Rightarrow> served" where
  "do_POST s target = (case urlsplit target of Inl e \<Rightarrow> Failed e | Inr u \<Rightarrow>
     if u_path u = ''/v1/chat/completions'' then send_json s offline_body 503 else SentError 405 ''Method Not Allowed'')"

section \<open>Addresses of the verifier\<close>

definition plain_char :: "char \<Rightarrow> bool" where
  "plain_char c \<longleftrightarrow> 32 < (of_char c :: nat) \<and> c \<notin> set '':#?[]''"

lemma find_sub_none: "c \<notin> set t \<Longrightarrow> find_sub [c] t = None"
  by (induction t) (auto simp: startswith_def)

lemma partition_at_none: "c \<notin> set t \<Longrightarrow> partition_at c t = (t, False, [])"
  by (simp add: partition_at_def find_sub_none)

lemma partition_at_first: "c \<notin> set a \<Longrightarrow> partition_at c (a @ c # b) = (a, True, b)"
proof -
  assume "c \<notin> set a"
  then have "find_sub [c] (a @ c # b) = Some (a, b)" by (induction a) (auto simp: startswith_def)
  then show ?thesis by (simp add: partition_at_def)
qed

lemma urlsplit_plain:
  assumes "list_all plain_char path" "list_all plain_char query" "startswith ''/'' path" "\<not> startswith ''//'' (path @ ''?'')"
  shows "urlsplit (path @ CHR ''?'' # query) = Inr \<lparr>u_scheme = [], u_netloc = [], u_path = path, u_query = query, u_fragment = []\<rparr>"
proof -
  let ?t = "path @ CHR ''?'' # query"
  have q: "plain_char x \<Longrightarrow> 32 < (of_char x :: nat) \<and> x \<noteq> CHR '':'' \<and> x \<noteq> CHR ''#''" for x by (simp add: plain_char_def)
  have q': "32 < (of_char (CHR ''?'') :: nat) \<and> CHR ''?'' \<noteq> CHR '':'' \<and> CHR ''?'' \<noteq> CHR ''#''" by simp
  have p: "x \<in> set ?t \<Longrightarrow> 32 < (of_char x :: nat) \<and> x \<noteq> CHR '':'' \<and> x \<noteq> CHR ''#''" for x
    using assms(1,2) q q' unfolding list_all_iff set_append list.set by blast
  have "dropWhile (\<lambda>c. (of_char c :: nat) \<le> 32) ?t = ?t"
    using p by (cases ?t) (auto simp: not_le)
  moreover have "filter (\<lambda>c. of_char c \<notin> {9::nat, 10, 13}) ?t = ?t"
    unfolding filter_id_conv using p by fastforce
  moreover have "CHR '':'' \<notin> set ?t" "CHR ''#'' \<notin> set ?t" "CHR ''?'' \<notin> set path"
    using p assms(1) by (auto simp: list_all_iff plain_char_def)
  moreover have "\<not> startswith ''//'' ?t"
    using assms(4) by (cases path; cases "tl path") (auto simp: startswith_def)
  ultimately show ?thesis
    unfolding urlsplit_def by (simp add: Let_def partition_at_none partition_at_first)
qed

lemma quote_plain: "list_all (\<lambda>c. quote_safe c \<and> (of_char c :: nat) < 128) t \<Longrightarrow> quote_plus t = t"
proof -
  assume a: "list_all (\<lambda>c. quote_safe c \<and> (of_char c :: nat) < 128) t"
  then have "utf8 t = t" by (intro utf8_ascii) (auto simp: list_all_iff)
  moreover have "concat (map (\<lambda>c. if quote_safe c \<or> c \<in> set '' '' then [c]
     else [CHR ''%'', upper_digit (of_char c div 16), upper_digit (of_char c mod 16)]) t) = t"
    using a by (induction t) auto
  moreover have "map (\<lambda>c. if c = CHR '' '' then CHR ''+'' else c) t = t"
    using a by (induction t) (auto simp: quote_safe_def ascii_alnum_def ascii_digit_def ascii_upper_def ascii_lower_def)
  ultimately show ?thesis by (simp add: quote_plus_def quote_def)
qed

lemma hex_plain:
  assumes "list_all lower_hex t"
  shows "list_all (\<lambda>c. quote_safe c \<and> (of_char c :: nat) < 128) t" "list_all plain_char t" "CHR ''&'' \<notin> set t"
proof -
  have "\<forall>c \<in> set ''0123456789abcdef''. quote_safe c \<and> (of_char c :: nat) < 128 \<and> plain_char c \<and> c \<noteq> CHR ''&''" by code_simp
  with assms have *: "\<forall>c \<in> set t. quote_safe c \<and> (of_char c :: nat) < 128 \<and> plain_char c \<and> c \<noteq> CHR ''&''"
    unfolding list_all_iff lower_hex_def by blast
  then show "list_all (\<lambda>c. quote_safe c \<and> (of_char c :: nat) < 128) t" "list_all plain_char t" "CHR ''&'' \<notin> set t"
    unfolding list_all_iff by blast+
qed

definition request_target :: "drift_config \<Rightarrow> string \<Rightarrow> string" where
  "request_target c url = drop (length (dc_endpoint c)) url"

lemma readiness_target:
  assumes "list_all lower_hex nonce"
  shows "urlsplit (request_target c (readiness_url c nonce))
    = Inr \<lparr>u_scheme = [], u_netloc = [], u_path = ''/readyz'', u_query = ''nonce='' @ nonce, u_fragment = []\<rparr>"
proof -
  have "list_all plain_char ''/readyz''" "list_all plain_char ''nonce=''" by code_simp+
  then show ?thesis
    using urlsplit_plain [of "''/readyz''" "''nonce='' @ nonce"] hex_plain [OF assms] quote_plain [of nonce]
    by (simp add: request_target_def readiness_url_def startswith_def)
qed

lemma attestation_target:
  assumes "list_all lower_hex nonce"
  shows "urlsplit (request_target c (attestation_url c nonce))
    = Inr \<lparr>u_scheme = [], u_netloc = [], u_path = ''/.well-known/szl-source.json'', u_query = ''refresh=1&nonce='' @ nonce, u_fragment = []\<rparr>"
proof -
  have "list_all plain_char ''/.well-known/szl-source.json''" "list_all plain_char ''refresh=1&nonce=''" by code_simp+
  then show ?thesis
    using urlsplit_plain [of "''/.well-known/szl-source.json''" "''refresh=1&nonce='' @ nonce"] hex_plain [OF assms] quote_plain [of nonce]
    by (simp add: request_target_def attestation_url_def startswith_def)
qed

lemma split_on_plain: "c \<notin> set t \<Longrightarrow> split_on c t = [t]"
  by (induction t) auto

lemma attestation_forces:
  assumes "list_all lower_hex nonce"
  shows "refresh_forced (''refresh=1&nonce='' @ nonce)"
proof -
  have "split_on (CHR ''&'') (''refresh=1&nonce='' @ nonce) = [''refresh=1'', ''nonce='' @ nonce]"
    using split_on_plain [OF hex_plain(3) [OF assms]] by simp
  moreover have "partition_at (CHR ''='') (''nonce='' @ nonce) = (''nonce'', True, nonce)"
    using partition_at_first [of "CHR ''=''" "''nonce''" nonce] by simp
  moreover have "partition_at (CHR ''='') ''refresh=1'' = (''refresh'', True, ''1'')" by code_simp
  moreover have "unquote_plus ''refresh'' = ''refresh''" "unquote_plus ''nonce'' = ''nonce''" "unquote_plus ''1'' = ''1''" by code_simp+
  ultimately show ?thesis by (simp add: refresh_forced_def query_pairs_def)
qed

section \<open>The Space answers the verifier\<close>

lemma readiness_iff: "require_fields (ready_body b) READINESS_FIELDS code what = Inr () \<longleftrightarrow> b \<noteq> None"
  by (cases b) (simp_all add: READINESS_FIELDS_def ready_body_def common_body_def dget_or_null_def)

lemma bound_measurement:
  assumes "measure_hf_revision s space_id True w = (m, w1)"
  shows "\<exists>r. dget_or_null m ''hf_revision'' = opt_str r
    \<and> (r \<noteq> None \<longrightarrow> dget_or_null m ''revision_state'' = JStr ''MEASURED''
        \<and> dget_or_null m ''measurement_method'' \<in> {JStr ''SPACE_REPOSITORY_COMMIT'', JStr ''HUGGINGFACE_API''})
    \<and> dget m ''hf_space'' = None"
proof -
  consider r where "m = env_measurement r" | r where "m = measurement_of r"
    using assms by (auto simp: measure_hf_revision_def Let_def space_tick_def split: option.splits prod.splits)
  then show ?thesis
  proof cases
    case 1
    then show ?thesis by (intro exI [of _ "Some r"]) (simp add: env_measurement_def dget_or_null_def opt_str_def)
  next
    case 2
    then show ?thesis
      by (intro exI [of _ "case r of Inr v \<Rightarrow> v | Inl _ \<Rightarrow> None"], cases r)
        (auto simp: measurement_of_def dget_or_null_def Let_def opt_str_def split: option.splits)
  qed
qed

lemma attestation_iff:
  assumes "\<exists>r. dget_or_null m ''hf_revision'' = opt_str r
    \<and> (r \<noteq> None \<longrightarrow> dget_or_null m ''revision_state'' = JStr ''MEASURED''
        \<and> dget_or_null m ''measurement_method'' \<in> {JStr ''SPACE_REPOSITORY_COMMIT'', JStr ''HUGGINGFACE_API''})
    \<and> dget m ''hf_space'' = None"
  shows "(\<exists>x. check_attestation c hf (attestation_json SPACE_ID (source_json b)
       (if b \<noteq> None then ''SOURCE_BOUND_DEPLOYMENT'' else al) date m (if b \<noteq> None then ''SOURCE_BOUND'' else ''STRUCTURAL_ONLY'') parity limits) = Inr x)
     \<longleftrightarrow> b = Some (SOURCE_REPOSITORY, dc_revision c) \<and> dc_repo_id c = SPACE_ID \<and> dget_or_null m ''hf_revision'' = JStr hf"
proof (cases b)
  case None
  then show ?thesis by (simp add: check_attestation_def attestation_json_def ATTESTATION_FIELDS_def dget_or_null_def)
next
  case (Some x)
  obtain r v where x: "x = (r, v)" by (cases x)
  let ?d = "(''hf_space'', JStr SPACE_ID) # m"
  have d: "dget_or_null ?d k = (if k = ''hf_space'' then JStr SPACE_ID else dget_or_null m k)" for k by (simp add: dget_or_null_def)
  have src: "require_fields (source_json (Some (r, v))) (source_fields c) code what = Inr () \<longleftrightarrow> r = SOURCE_REPOSITORY \<and> v = dc_revision c"
    for code what by (auto simp: source_json_def source_fields_def dget_or_null_def opt_str_def)
  have dep: "require_fields ?d (deployment_fields c hf) code what = Inr ()
      \<and> dget_or_null ?d ''measurement_method'' \<in> {JStr ''SPACE_REPOSITORY_COMMIT'', JStr ''HUGGINGFACE_API''}
    \<longleftrightarrow> dc_repo_id c = SPACE_ID \<and> dget_or_null m ''hf_revision'' = JStr hf" for code what
    using assms by (auto simp: deployment_fields_def d opt_str_def split: option.splits if_splits)
  have at: "dget_or_null A ''source'' = JObj (source_json b)" "dget_or_null A ''deployment'' = JObj ?d"
    "require_fields A ATTESTATION_FIELDS code what = Inr ()"
    if "A = attestation_json SPACE_ID (source_json b) ''SOURCE_BOUND_DEPLOYMENT'' date m ''SOURCE_BOUND'' parity limits" for A code what
    by (simp_all add: that attestation_json_def ATTESTATION_FIELDS_def dget_or_null_def)
  have unit: "q = Inr y \<longleftrightarrow> q = Inr ()" for q :: "drift_error + unit" and y by simp
  let ?A = "attestation_json SPACE_ID (source_json b) ''SOURCE_BOUND_DEPLOYMENT'' date m ''SOURCE_BOUND'' parity limits"
  have "(\<exists>x. check_attestation c hf ?A = Inr x) \<longleftrightarrow> (r = SOURCE_REPOSITORY \<and> v = dc_revision c)
      \<and> dc_repo_id c = SPACE_ID \<and> dget_or_null m ''hf_revision'' = JStr hf"
    unfolding check_attestation_def at [OF refl] prod.case json.case bindE_simps
    using src dep [of "''STALE_RUNTIME_REVISION''" "''Runtime Hugging Face revision''"]
    by (auto simp: Some x bindE_Inr_iff simp del: require_fields.simps)
  then show ?thesis by (auto simp: Some x)
qed

text \<open>The headers as the client reads them ask for no caching and give no age.\<close>

definition uncached :: "(string \<times> string) list \<Rightarrow> bool" where
  "uncached hs \<longleftrightarrow> (\<forall>what. check_cache_headers (dupdate [] (map (\<lambda>(k, v). (lower k, v)) hs)) what = Inr ())"

lemma send_json_uncached: "\<exists>hs. send_json s payload status = Sent status hs (compact_body s payload) \<and> uncached hs"
proof -
  have l: "lower ''Content-Type'' = ''content-type''" "lower ''Content-Length'' = ''content-length''"
    "lower ''Cache-Control'' = ''cache-control''" "lower ''X-SZL-Transport-State'' = ''x-szl-transport-state''"
    "lower ''X-SZL-Evidence-State'' = ''x-szl-evidence-state''" "lower ''X-SZL-Verification-State'' = ''x-szl-verification-state''"
    "lower ''X-SZL-Authority-State'' = ''x-szl-authority-state''" "lower ''Content-Security-Policy'' = ''content-security-policy''"
    "lower ''Strict-Transport-Security'' = ''strict-transport-security''" "lower ''X-Content-Type-Options'' = ''x-content-type-options''"
    "lower ''Referrer-Policy'' = ''referrer-policy''" by code_simp+
  have "map (\<lambda>t. lower (strip t)) (split_on (CHR '','') ''no-store'') = [''no-store'']" by code_simp
  then have "uncached (end_headers [JSON_TYPE, (''Content-Length'', n), (''Cache-Control'', ''no-store''),
       (''X-SZL-Transport-State'', a), (''X-SZL-Evidence-State'', b), (''X-SZL-Verification-State'', c),
       (''X-SZL-Authority-State'', d)])" for n a b c d
    by (simp add: uncached_def end_headers_def JSON_TYPE_def l dupdate_def check_cache_headers_def)
  then show ?thesis by (simp add: send_json_def Let_def)
qed


section \<open>A bound Space\<close>

definition demo_space :: space_sys where
  "demo_space = \<lparr>sp_sys = small_sys\<lparr>s_env := (\<lambda>k. if k = ''SPACE_REPOSITORY_COMMIT'' then Some tiny_sha else None)\<rparr>,
     sp_scan = (\<lambda>_. Inr (raw_dict [(''schema'', ''szl.source-binding/v1''), (''source_repository'', SOURCE_REPOSITORY),
       (''source_revision'', tiny_sha), (''source_path'', ''space''), (''relation'', ''exact-deployed-subtree'')])),
     sp_read = (\<lambda>_. Inr ''binding''), sp_api = (\<lambda>_. Inl (ConnError ''URLError'' [])), sp_cycle = (\<lambda>_. Inl (ConnError ''URLError'' [])),
     sp_mono = (\<lambda>_. 0), sp_now = (\<lambda>_. 0), sp_date = (\<lambda>_. ''d''), sp_iso = (\<lambda>_. NotIso)\<rparr>"

definition new_space :: space where
  "new_space = \<lparr>sc_cache = [], sc_ticks = 0, sc_asked = []\<rparr>"

lemma demo_space_bound: "load_source_binding demo_space = Inr (Some (SOURCE_REPOSITORY, tiny_sha))"
  by code_simp

lemma demo_space_measured:
  "dget_or_null (fst (measure_hf_revision demo_space SPACE_ID True new_space)) ''hf_revision'' = JStr tiny_sha"
  by code_simp


end
