(* ===== verification/RuntimeWait.thy ===== *)
theory RuntimeWait
  imports DriftDemo Mesh
begin

text \<open>
  \<open>scripts/wait_hf_space_runtime.py\<close>, which waits until the published Space runs its published
  revision, and \<open>scripts/hf_runtime_contract.py\<close>, the shared classification of what the provider
  reports. The world is the one of \<open>Drift\<close>: \<open>ds_http k\<close> answers the \<open>k\<close>-th request, \<open>ds_clock\<close> plus
  the time slept is the monotonic clock. A failure is a \<open>vfailure\<close>, as in the drift verifier.

  The lemmas: the wait ends, whatever the provider answers; it sends the credential to two addresses
  only; it converges exactly on what the contract calls \<open>RUNNING_ALIGNED\<close>; and the two disagree about
  a stage of the contract's terminal set as long as the provider gives no runtime revision.
\<close>

section \<open>The contract\<close>

definition upper :: "string \<Rightarrow> string" where
  "upper t = concat (map upper_char t)"

definition TRANSITION_STAGES :: "string list" where
  "TRANSITION_STAGES = [''APP_STARTING'', ''BUILDING'', ''PENDING'', ''QUEUED'', ''RESTARTING'',
     ''RUNNING_APP_STARTING'', ''RUNNING_BUILDING'', ''STARTING'', ''METADATA_PENDING'']"

definition TERMINAL_STAGES :: "string list" where
  "TERMINAL_STAGES = [''BUILD_ERROR'', ''RUNTIME_ERROR'', ''CONFIG_ERROR'', ''PAUSED'', ''STOPPED'', ''ERROR'']"

definition invalid_response :: "string \<Rightarrow> jdict \<Rightarrow> vfailure" where
  "invalid_response m d = \<lparr>vf_code = ''INVALID_RESPONSE'', vf_message = m, vf_retryable = False, vf_details = d\<rparr>"

definition reject_alternate_target :: "string \<Rightarrow> vfailure + unit" where
  "reject_alternate_target repo_id =
     (if repo_id \<noteq> SPACE_ID
      then Inl \<lparr>vf_code = ''TARGET_REJECTED'', vf_message = ''Only SZLHOLDINGS/llm-router-live is admitted.'',
             vf_retryable = False, vf_details = [(''repo_id'', JStr repo_id)]\<rparr>
      else Inr ())"

definition unset :: "json \<Rightarrow> bool" where
  "unset v = (v = JNull \<or> v = JStr [])"

text \<open>\<open>str(value).strip().lower()\<close>\<close>

definition revision_text :: "(rat \<Rightarrow> string) \<Rightarrow> json \<Rightarrow> string" where
  "revision_text fr v = lower (strip (py_str fr v))"

definition sha_or_none :: "(rat \<Rightarrow> string) \<Rightarrow> json \<Rightarrow> vfailure + string option" where
  "sha_or_none fr v =
     (if unset v then Inr None
      else let candidate = revision_text fr v in
        if exact_sha candidate then Inr (Some candidate)
        else Inl (invalid_response ''Non-empty revision is not an exact 40-character Git SHA.'' []))"

definition pending :: "string \<Rightarrow> jdict \<Rightarrow> jdict" where
  "pending state rest = [(''state'', JStr state), (''retryable'', JBool True)] @ rest"

definition normalized_stage :: "string \<Rightarrow> string" where
  "normalized_stage t = upper (strip t)"

text \<open>The part of \<open>classify\<close> after the stage has been read: terminal stages come first.\<close>

definition classify_stage :: "(rat \<Rightarrow> string) \<Rightarrow> string option \<Rightarrow> string \<Rightarrow> json \<Rightarrow> vfailure + jdict" where
  "classify_stage fr publication stage runtime =
     (if stage \<in> set TERMINAL_STAGES
      then Inl \<lparr>vf_code = (if stage \<in> {''BUILD_ERROR'', ''RUNTIME_ERROR'', ''CONFIG_ERROR''} then stage else ''RUNTIME_ERROR''),
             vf_message = ''Terminal provider stage '' @ stage @ ''.'', vf_retryable = False,
             vf_details = [(''stage'', JStr stage), (''runtime_sha'', runtime)]\<rparr>
      else bindE (sha_or_none fr runtime) (\<lambda>runtime_sha.
        let published = (''publication_revision'', opt_str publication); runs = (''runtime_revision'', opt_str runtime_sha) in
        if stage \<in> set TRANSITION_STAGES
        then Inr (pending (if stage \<noteq> ''METADATA_PENDING'' then stage else ''BUILDING'') [published, runs])
        else if publication = None then Inr (pending ''METADATA_PENDING'' [])
        else if stage \<noteq> ''RUNNING''
        then Inl (invalid_response (''Unknown non-empty stage '' @ stage @ ''.'') [(''stage'', JStr stage)])
        else if runtime_sha = None then Inr (pending ''METADATA_PENDING'' [published])
        else if runtime_sha \<noteq> publication then Inr (pending ''RUNNING_STALE'' [published, runs])
        else Inr [(''state'', JStr ''RUNNING_ALIGNED''), (''retryable'', JBool False), published, runs,
               (''stage'', JStr ''RUNNING''), (''private'', JBool False)]))"

definition classify :: "(rat \<Rightarrow> string) \<Rightarrow> jdict \<Rightarrow> jdict \<Rightarrow> string \<Rightarrow> vfailure + jdict" where
  "classify fr info runtime expected_repo_id =
     bindE (reject_alternate_target expected_repo_id) (\<lambda>_.
     let id = dget_or_null info ''id''; name = dget_or_null info ''name'';
         identity = py_str fr (if truthy id then id else if truthy name then name else JStr expected_repo_id) in
     if identity \<noteq> [] \<and> identity \<noteq> SPACE_ID \<and> truthy id
     then Inl (invalid_response ''Provider identity does not match the canonical Router Space.'' [])
     else case dget_or_null info ''private'' of
       JNull \<Rightarrow> Inr (pending ''VISIBILITY_PENDING'' [])
     | JBool private \<Rightarrow>
         if private then Inr (pending ''VISIBILITY_PENDING'' [])
         else bindE (sha_or_none fr (dget_or_null info ''sha'')) (\<lambda>publication.
           let v = dget_or_null runtime ''stage'' in
           if unset v then Inr (pending ''METADATA_PENDING'' [(''publication_revision'', opt_str publication)])
           else case v of
             JStr t \<Rightarrow> let stage = normalized_stage t in
               if \<not> stage_name stage then Inl (invalid_response ''Stage is malformed.'' [])
               else classify_stage fr publication stage (dget_or_null runtime ''sha'')
           | _ \<Rightarrow> Inl (invalid_response ''Stage is not a string.'' []))
     | _ \<Rightarrow> Inl (invalid_response ''Visibility is not boolean.'' []))"

section \<open>One observation\<close>

definition WAIT_TRANSIENT_STAGES :: "string list" where
  "WAIT_TRANSIENT_STAGES = [''APP_STARTING'', ''BUILDING'', ''PENDING'', ''QUEUED'', ''RESTARTING'',
     ''RUNNING_APP_STARTING'', ''RUNNING_BUILDING'', ''STARTING'']"

definition wait_failure :: "string \<Rightarrow> string \<Rightarrow> bool \<Rightarrow> jdict \<Rightarrow> vfailure" where
  "wait_failure code m again d = \<lparr>vf_code = code, vf_message = m, vf_retryable = again, vf_details = d\<rparr>"

definition exact_sha_or_pending :: "(rat \<Rightarrow> string) \<Rightarrow> json \<Rightarrow> string \<Rightarrow> vfailure + string" where
  "exact_sha_or_pending fr v field =
     (if unset v
      then Inl (wait_failure ''RUNTIME_METADATA_PENDING'' (field @ '' is not populated yet.'') True [(''field'', JStr field)])
      else let candidate = revision_text fr v in
        if exact_sha candidate then Inr candidate
        else Inl (wait_failure ''MALFORMED_PROVIDER_RESPONSE''
               (field @ '' is non-empty but is not an exact 40-character Git SHA.'') False [(''field'', JStr field)]))"

definition judge_runtime :: "string \<Rightarrow> string \<Rightarrow> string \<Rightarrow> vfailure + jdict" where
  "judge_runtime publication stage runtime =
     (let d = [(''stage'', JStr stage), (''publication_revision'', JStr publication), (''runtime_revision'', JStr runtime)] in
      if stage \<in> set WAIT_TRANSIENT_STAGES
      then Inl (wait_failure ''PROVIDER_RUNTIME_TRANSITION'' (''Provider runtime stage is '' @ stage @ ''.'') True d)
      else if stage \<noteq> ''RUNNING''
      then Inl (wait_failure ''PROVIDER_RUNTIME_TERMINAL_STATE''
             (''Provider runtime stage is '' @ stage @ ''; exact RUNNING is required.'') False d)
      else if runtime \<noteq> publication
      then Inl (wait_failure ''RUNTIME_REVISION_PENDING''
             ''Provider runtime has not converged to the current repository revision.'' True d)
      else Inr (d @ [(''private'', JBool False)]))"

definition malformed_observation :: "string \<Rightarrow> jdict \<Rightarrow> vfailure" where
  "malformed_observation m d = wait_failure ''MALFORMED_PROVIDER_RESPONSE'' m False d"

definition classify_observation :: "(rat \<Rightarrow> string) \<Rightarrow> jdict \<Rightarrow> jdict \<Rightarrow> vfailure + jdict" where
  "classify_observation fr info runtime =
     (case dget_or_null info ''private'' of
        JNull \<Rightarrow> Inl (wait_failure ''VISIBILITY_METADATA_PENDING'' ''Provider visibility metadata is not populated yet.'' True [])
      | JBool private \<Rightarrow>
          if private then Inl (wait_failure ''SPACE_VISIBILITY_PENDING'' ''Provider still reports the Router Space as private.'' True [])
          else bindE (exact_sha_or_pending fr (dget_or_null info ''sha'') ''Provider repository revision'') (\<lambda>publication.
            let v = dget_or_null runtime ''stage'' in
            if unset v
            then Inl (wait_failure ''RUNTIME_METADATA_PENDING'' ''Provider runtime stage is not populated yet.'' True
                   [(''publication_revision'', JStr publication)])
            else case v of
              JStr t \<Rightarrow> let stage = normalized_stage t in
                if \<not> stage_name stage
                then Inl (malformed_observation ''Provider runtime stage is non-empty but malformed.'' [(''stage'', JStr stage)])
                else bindE (exact_sha_or_pending fr (dget_or_null runtime ''sha'') ''Provider runtime revision'') (\<lambda>revision.
                  judge_runtime publication stage revision)
            | _ \<Rightarrow> Inl (malformed_observation ''Provider runtime stage is non-empty but not a string.'' []))
      | _ \<Rightarrow> Inl (malformed_observation ''Provider visibility metadata is not boolean.'' []))"

section \<open>The provider's client\<close>

text \<open>The requests sent, the readings of the clocks, the time slept and the attempts recorded.\<close>

record wait =
  wt_log :: "hrequest list"
  wt_ticks :: nat
  wt_slept :: rat
  wt_attempts :: "jdict list"

definition WAIT_RETRYABLE_STATUS :: "int list" where
  "WAIT_RETRYABLE_STATUS = [404, 408, 425, 429, 500, 502, 503, 504]"

definition wait_info_url :: "string \<Rightarrow> string" where
  "wait_info_url repo_id = HUB_ORIGIN @ ''/api/spaces/'' @ repo_path repo_id @ ''?expand[]=sha&expand[]=private''"

definition wait_runtime_url :: "string \<Rightarrow> string" where
  "wait_runtime_url repo_id = HUB_ORIGIN @ ''/api/spaces/'' @ repo_path repo_id @ ''/runtime''"

definition status_failure :: "int \<Rightarrow> drift_error" where
  "status_failure status = VFail (wait_failure ''PROVIDER_HTTP_STATUS''
     (''Provider metadata request returned HTTP '' @ show_int status @ ''.'') (status \<in> set WAIT_RETRYABLE_STATUS)
     [(''status'', JInt status)])"

definition metadata_failure :: "string \<Rightarrow> jdict \<Rightarrow> drift_error" where
  "metadata_failure m d = VFail (malformed_observation m d)"

definition provider_object :: "drift_sys \<Rightarrow> string \<Rightarrow> string \<Rightarrow> drift_error + jdict" where
  "provider_object s content_type body =
     (let media_type = lower (strip (fst (partition_at (CHR '';'') content_type))) in
      if MAX_RESPONSE_BYTES < length body
      then Inl (VFail (wait_failure ''PROVIDER_RESPONSE_TOO_LARGE''
             ''Provider metadata response exceeded the one-megabyte limit.'' False []))
      else if media_type \<noteq> ''application/json'' \<and> \<not> endswith ''+json'' media_type
      then Inl (metadata_failure ''Provider metadata response was not JSON.'' [(''content_type'', opt_str (given media_type))])
      else bindE (json_text s (metadata_failure ''Provider metadata response was not valid UTF-8 JSON.'' []) body) (\<lambda>j.
        case j of JObj d \<Rightarrow> Inr d
        | _ \<Rightarrow> Inl (metadata_failure ''Provider metadata response root was not an object.'' [])))"

definition provider_answer :: "drift_sys \<Rightarrow> hanswer \<Rightarrow> drift_error + jdict" where
  "provider_answer s answer =
     (case answer of
        StatusError status _ \<Rightarrow> Inl (status_failure status)
      | NetworkError cls \<Rightarrow> Inl (VFail (wait_failure ''PROVIDER_UNAVAILABLE''
          (''Provider metadata request failed with '' @ cls @ ''.'') True []))
      | OtherError e \<Rightarrow> Inl (Other e)
      | Received r \<Rightarrow>
          if hp_status r \<noteq> 200 then Inl (status_failure (hp_status r))
          else provider_object s (header_first ''content-type'' (hp_headers r)) (take (MAX_RESPONSE_BYTES + 1) (hp_body r)))"

text \<open>The standard opener follows redirects.\<close>

definition wait_get_json :: "drift_sys \<Rightarrow> string \<Rightarrow> string \<Rightarrow> rat \<Rightarrow> wait \<Rightarrow> (drift_error + jdict) \<times> wait" where
  "wait_get_json s token url timeout w =
     (provider_answer s (ds_http s (length (wt_log w))),
      w\<lparr>wt_log := wt_log w @ [\<lparr>hq_url = url, hq_auth = Some (''Bearer '' @ token), hq_redirects = True, hq_timeout = timeout\<rparr>]\<rparr>)"

section \<open>The wait\<close>

record wait_config =
  wc_repo_id :: string
  wc_timeout :: rat
  wc_poll :: rat
  wc_request :: rat

definition wait_clock :: "drift_sys \<Rightarrow> wait \<Rightarrow> rat \<times> wait" where
  "wait_clock s w = (ds_clock s (wt_ticks w) + wt_slept w, w\<lparr>wt_ticks := Suc (wt_ticks w)\<rparr>)"

definition wait_date :: "drift_sys \<Rightarrow> wait \<Rightarrow> string \<times> wait" where
  "wait_date s w = (ds_date s (wt_ticks w), w\<lparr>wt_ticks := Suc (wt_ticks w)\<rparr>)"

definition probe_space :: "drift_sys \<Rightarrow> wait_config \<Rightarrow> string \<Rightarrow> rat \<Rightarrow> wait \<Rightarrow> (drift_error + jdict) \<times> wait" where
  "probe_space s c token timeout w =
     (case wait_get_json s token (wait_info_url (wc_repo_id c)) timeout w of
        (Inl e, w1) \<Rightarrow> (Inl e, w1)
      | (Inr info, w1) \<Rightarrow>
          (case wait_get_json s token (wait_runtime_url (wc_repo_id c)) timeout w1 of
             (Inl e, w2) \<Rightarrow> (Inl e, w2)
           | (Inr runtime, w2) \<Rightarrow>
               ((case classify_observation (s_frepr (ds_sys s)) info runtime of Inl f \<Rightarrow> Inl (VFail f) | Inr ob \<Rightarrow> Inr ob), w2)))"

definition add_attempt :: "jdict \<Rightarrow> wait \<Rightarrow> wait" where
  "add_attempt row w = w\<lparr>wt_attempts := wt_attempts w
     @ [(''attempt'', nat_json (length (wt_attempts w) + 1)) # row]\<rparr>"

definition note_failure :: "drift_sys \<Rightarrow> vfailure \<Rightarrow> wait \<Rightarrow> wait" where
  "note_failure s f w = (let (date, w1) = wait_date s w in
     add_attempt [(''observed_at'', JStr date), (''state'', JStr (if vf_retryable f then ''WAITING'' else ''REJECTED'')),
       (''code'', JStr (vf_code f)), (''retryable'', JBool (vf_retryable f)), (''details'', JObj (vf_details f))] w1)"

definition WAIT_SCHEMA :: string where "WAIT_SCHEMA = ''szl.hf-runtime-convergence/v1''"

definition attempts_json :: "wait \<Rightarrow> json" where
  "attempts_json w = JArr (map JObj (wt_attempts w))"

definition converged :: "drift_sys \<Rightarrow> wait_config \<Rightarrow> string \<Rightarrow> jdict \<Rightarrow> wait \<Rightarrow> jdict \<times> wait" where
  "converged s c started ob w =
     (let (date, w1) = wait_date s w;
          w2 = add_attempt ([(''observed_at'', JStr date), (''state'', JStr ''CONVERGED'')]
            @ map (\<lambda>k. (k, dget_or_null ob k)) [''stage'', ''publication_revision'', ''runtime_revision'']) w1;
          (date2, w3) = wait_date s w2 in
      ([(''schema'', JStr WAIT_SCHEMA), (''repo_id'', JStr (wc_repo_id c)), (''started_at'', JStr started),
        (''observed_at'', JStr date2), (''status'', JStr ''CONVERGED''), (''observation'', JObj ob),
        (''attempts'', attempts_json w3), (''credential_value_recorded'', JBool False)], w3))"

definition timed_out :: "string option \<Rightarrow> wait \<Rightarrow> vfailure" where
  "timed_out last_code w = wait_failure ''RUNTIME_CONVERGENCE_TIMEOUT''
     ''Provider runtime did not reach public RUNNING revision parity before timeout.'' False
     [(''attempts'', attempts_json w), (''last_code'', opt_str last_code)]"

definition rejected_for_good :: "vfailure \<Rightarrow> wait \<Rightarrow> vfailure" where
  "rejected_for_good f w = f\<lparr>vf_retryable := False, vf_details := dupdate [(''attempts'', attempts_json w)] (vf_details f)\<rparr>"

text \<open>
  A round ends the wait with a result, or sleeps and gives the code of its failure; \<open>last_code\<close> is that
  of the round before. The fuel of \<open>waiting\<close> counts rounds.
\<close>

definition after_wait_failure :: "drift_sys \<Rightarrow> wait_config \<Rightarrow> rat \<Rightarrow> vfailure \<Rightarrow> wait
    \<Rightarrow> ((drift_error + jdict) + string) \<times> wait" where
  "after_wait_failure s c deadline f w =
     (let w1 = note_failure s f w in
      if \<not> vf_retryable f then (Inl (Inl (VFail (rejected_for_good f w1))), w1)
      else let (t, w2) = wait_clock s w1; remaining = deadline - t in
        if remaining \<le> 0 then (Inl (Inl (VFail (timed_out (Some (vf_code f)) w2))), w2)
        else (Inr (vf_code f), w2\<lparr>wt_slept := wt_slept w2 + min (wc_poll c) remaining\<rparr>))"

definition wait_round :: "drift_sys \<Rightarrow> wait_config \<Rightarrow> string \<Rightarrow> string \<Rightarrow> rat \<Rightarrow> string option \<Rightarrow> wait
    \<Rightarrow> ((drift_error + jdict) + string) \<times> wait" where
  "wait_round s c token started deadline last_code w =
     (let (t, w1) = wait_clock s w; remaining = max (deadline - t) 0 in
      if remaining \<le> 0 then (Inl (Inl (VFail (timed_out last_code w1))), w1)
      else case probe_space s c token (min (wc_request c) (max remaining (1/2))) w1 of
        (Inr ob, w2) \<Rightarrow> (let (receipt, w3) = converged s c started ob w2 in (Inl (Inr receipt), w3))
      | (Inl (Other e), w2) \<Rightarrow> (Inl (Inl (Other e)), w2)
      | (Inl (VFail f), w2) \<Rightarrow> after_wait_failure s c deadline f w2)"

fun waiting :: "nat \<Rightarrow> drift_sys \<Rightarrow> wait_config \<Rightarrow> string \<Rightarrow> string \<Rightarrow> rat \<Rightarrow> string option \<Rightarrow> wait
    \<Rightarrow> ((drift_error + jdict) \<times> wait) option" where
  "waiting 0 s c token started deadline last_code w = None"
| "waiting (Suc k) s c token started deadline last_code w =
     (case wait_round s c token started deadline last_code w of
        (Inl r, w1) \<Rightarrow> Some (r, w1)
      | (Inr code, w1) \<Rightarrow> waiting k s c token started deadline (Some code) w1)"

record wait_args =
  wa_repo_id :: string
  wa_token :: string
  wa_timeout :: pyfloat
  wa_poll :: pyfloat
  wa_request :: pyfloat

definition in_range :: "rat \<Rightarrow> pyfloat \<Rightarrow> rat \<Rightarrow> rat option" where
  "in_range lo x hi = (case x of Fin q \<Rightarrow> if lo \<le> q \<and> q \<le> hi then Some q else None | _ \<Rightarrow> None)"

definition invalid_wait :: "string \<Rightarrow> drift_error" where
  "invalid_wait m = VFail (wait_failure ''INVALID_CONFIG'' m False [])"

definition wait_config_of :: "wait_args \<Rightarrow> drift_error + wait_config" where
  "wait_config_of a =
     (if wa_repo_id a \<noteq> SPACE_ID
      then Inl (VFail (wait_failure ''TARGET_REJECTED'' (''This helper only accepts '' @ SPACE_ID @ ''.'') False []))
      else case in_range 1 (wa_timeout a) 900 of
        None \<Rightarrow> Inl (invalid_wait ''Timeout must be between 1 and 900 seconds.'')
      | Some timeout \<Rightarrow> (case in_range (1/10) (wa_poll a) 30 of
          None \<Rightarrow> Inl (invalid_wait ''Poll interval must be between 0.1 and 30 seconds.'')
        | Some poll \<Rightarrow> (case in_range (1/2) (wa_request a) 60 of
            None \<Rightarrow> Inl (invalid_wait ''Request timeout must be between 0.5 and 60 seconds.'')
          | Some request \<Rightarrow>
              Inr \<lparr>wc_repo_id = wa_repo_id a, wc_timeout = timeout, wc_poll = poll, wc_request = request\<rparr>)))"

definition wait_for_runtime :: "drift_sys \<Rightarrow> wait_args \<Rightarrow> string \<Rightarrow> wait \<Rightarrow> ((drift_error + jdict) \<times> wait) option" where
  "wait_for_runtime s a token w =
     (case wait_config_of a of
        Inl e \<Rightarrow> Some (Inl e, w)
      | Inr c \<Rightarrow>
          let (started, w1) = wait_date s w; (t, w2) = wait_clock s w1 in
          waiting poll_fuel s c token started (t + wc_timeout c) None w2)"

text \<open>\<open>ProviderClient(token)\<close> is built before the other arguments are looked at.\<close>

definition wait_run :: "drift_sys \<Rightarrow> wait_args \<Rightarrow> wait \<Rightarrow> ((drift_error + jdict) \<times> wait) option" where
  "wait_run s a w = (let token = strip (wa_token a) in
     if token = [] then Some (Inl (VFail (wait_failure ''MISSING_CREDENTIALS'' ''A Hugging Face token is required.'' False [])), w)
     else wait_for_runtime s a token w)"

definition idle_wait :: wait where
  "idle_wait = \<lparr>wt_log = [], wt_ticks = 0, wt_slept = 0, wt_attempts = []\<rparr>"

text \<open>How the process ends: by an exception, or with the receipt it has written and its exit code.\<close>

definition wait_outcome :: "drift_sys \<Rightarrow> wait_args \<Rightarrow> exn option \<Rightarrow> (drift_error + jdict) \<times> wait \<Rightarrow> exn + jdict \<times> int" where
  "wait_outcome s a saved x =
     (let written = (\<lambda>y. case saved of Some e \<Rightarrow> Inl e | None \<Rightarrow> Inr y) in
      case x of
        (Inl (Other e), w) \<Rightarrow> Inl e
      | (Inr receipt, w) \<Rightarrow> written (receipt, 0)
      | (Inl (VFail f), w) \<Rightarrow>
          written ([(''schema'', JStr WAIT_SCHEMA), (''repo_id'', JStr (wa_repo_id a)),
              (''observed_at'', JStr (fst (wait_date s w))), (''status'', JStr ''REJECTED''),
              (''failure'', JObj [(''code'', JStr (vf_code f)), (''message'', JStr (vf_message f)), (''details'', JObj (vf_details f))]),
              (''credential_value_recorded'', JBool False)], 1))"

definition wait_main :: "drift_sys \<Rightarrow> wait_args \<Rightarrow> exn option \<Rightarrow> (exn + jdict \<times> int) option" where
  "wait_main s a saved = map_option (wait_outcome s a saved) (wait_run s a idle_wait)"

section \<open>A round\<close>

definition wnow :: "drift_sys \<Rightarrow> wait \<Rightarrow> rat" where
  "wnow s w = ds_clock s (wt_ticks w) + wt_slept w"

text \<open>The two requests of a round, within the bounds of a call's timeout.\<close>

definition wait_request :: "wait_config \<Rightarrow> string \<Rightarrow> hrequest \<Rightarrow> bool" where
  "wait_request c token q \<longleftrightarrow> hq_url q \<in> {wait_info_url (wc_repo_id c), wait_runtime_url (wc_repo_id c)}
     \<and> hq_auth q = Some (''Bearer '' @ token) \<and> hq_timeout q \<le> wc_request c \<and> min (wc_request c) (1/2) \<le> hq_timeout q"

definition extends_wait :: "wait_config \<Rightarrow> string \<Rightarrow> wait \<Rightarrow> wait \<Rightarrow> bool" where
  "extends_wait c token w v \<longleftrightarrow> (\<exists>sent. wt_log v = wt_log w @ sent \<and> list_all (wait_request c token) sent)"

lemma probe_frame:
  assumes "probe_space s c token t w = (r, v)" "t \<le> wc_request c" "min (wc_request c) (1/2) \<le> t"
  shows "wt_ticks v = wt_ticks w" "wt_slept v = wt_slept w" "extends_wait c token w v"
  using assms by (auto simp: probe_space_def wait_get_json_def extends_wait_def wait_request_def split: sum.splits)

text \<open>What an observation rests on: the two last answers.\<close>

definition observed_by :: "drift_sys \<Rightarrow> jdict \<Rightarrow> wait \<Rightarrow> bool" where
  "observed_by s ob w \<longleftrightarrow> (\<exists>info runtime. 2 \<le> length (wt_log w)
     \<and> provider_answer s (ds_http s (length (wt_log w) - 2)) = Inr info
     \<and> provider_answer s (ds_http s (length (wt_log w) - 1)) = Inr runtime
     \<and> classify_observation (s_frepr (ds_sys s)) info runtime = Inr ob)"

lemma probe_Inr: "probe_space s c token t w = (Inr ob, v) \<Longrightarrow> observed_by s ob v"
  by (auto simp: probe_space_def wait_get_json_def observed_by_def split: sum.splits)

lemma note_failure_simps [simp]:
  "wt_ticks (note_failure s f w) = Suc (wt_ticks w)" "wt_slept (note_failure s f w) = wt_slept w"
  "wt_log (note_failure s f w) = wt_log w"
  by (simp_all add: note_failure_def wait_date_def add_attempt_def)

lemma converged_frame:
  assumes "converged s c started ob w = (receipt, v)"
  shows "wt_slept v = wt_slept w" "wt_log v = wt_log w" "dget receipt ''observation'' = Some (JObj ob)"
    "dget receipt ''status'' = Some (JStr ''CONVERGED'')"
  using assms by (auto simp: converged_def wait_date_def add_attempt_def Let_def)

lemma round_request: "min r (max x (1/2)) \<le> r \<and> min r (1/2) \<le> min r (max x (1/2))" for r x :: rat
  by auto

lemma extends_wait_trans: "extends_wait c token w v \<Longrightarrow> extends_wait c token v u \<Longrightarrow> extends_wait c token w u"
  by (auto simp: extends_wait_def)

lemma extends_wait_log: "wt_log w' = wt_log w \<Longrightarrow> wt_log v' = wt_log v \<Longrightarrow> extends_wait c token w' v' = extends_wait c token w v"
  by (simp add: extends_wait_def)

lemma extends_wait_same: "wt_log v = wt_log w \<Longrightarrow> extends_wait c token w v"
  by (simp add: extends_wait_def)

lemma wait_round_unfold:
  obtains q u where "probe_space s c token (min (wc_request c) (max (max (d - wnow s w) 0) (1/2))) (w\<lparr>wt_ticks := Suc (wt_ticks w)\<rparr>) = (q, u)"
    and "wt_ticks u = Suc (wt_ticks w)" "wt_slept u = wt_slept w" "extends_wait c token w u"
    and "wait_round s c token started d lc w =
      (if d \<le> wnow s w then (Inl (Inl (VFail (timed_out lc (w\<lparr>wt_ticks := Suc (wt_ticks w)\<rparr>)))), w\<lparr>wt_ticks := Suc (wt_ticks w)\<rparr>)
       else case q of
         Inr ob \<Rightarrow> (let (receipt, w3) = converged s c started ob u in (Inl (Inr receipt), w3))
       | Inl (Other e) \<Rightarrow> (Inl (Inl (Other e)), u)
       | Inl (VFail f) \<Rightarrow> after_wait_failure s c d f u)"
proof -
  let ?t = "min (wc_request c) (max (max (d - wnow s w) 0) (1/2))" and ?w1 = "w\<lparr>wt_ticks := Suc (wt_ticks w)\<rparr>"
  obtain q u where o: "probe_space s c token ?t ?w1 = (q, u)" by fastforce
  have le: "(max (d - wnow s w) 0 \<le> 0) = (d \<le> wnow s w)" by auto
  have "wait_round s c token started d lc w =
      (if d \<le> wnow s w then (Inl (Inl (VFail (timed_out lc ?w1))), ?w1)
       else case q of
         Inr ob \<Rightarrow> (let (receipt, w3) = converged s c started ob u in (Inl (Inr receipt), w3))
       | Inl (Other e) \<Rightarrow> (Inl (Inl (Other e)), u)
       | Inl (VFail f) \<Rightarrow> after_wait_failure s c d f u)"
    unfolding wait_round_def wait_clock_def wnow_def [symmetric] Let_def prod.case le o
    by (simp split: sum.split drift_error.split)
  moreover have "wt_ticks u = Suc (wt_ticks w)" "wt_slept u = wt_slept w" "extends_wait c token w u"
    using probe_frame [OF o round_request [THEN conjunct1] round_request [THEN conjunct2]] by (simp_all add: extends_wait_def)
  ultimately show ?thesis using o by (intro that)
qed

lemma wait_round_late:
  "d \<le> wnow s w \<Longrightarrow> wait_round s c token started d lc w
     = (Inl (Inl (VFail (timed_out lc (w\<lparr>wt_ticks := Suc (wt_ticks w)\<rparr>)))), w\<lparr>wt_ticks := Suc (wt_ticks w)\<rparr>)"
  by (simp add: wait_round_def wait_clock_def wnow_def)

lemma wait_round_converges:
  assumes "probe_space s c token (min (wc_request c) (max (max (d - wnow s w) 0) (1/2))) (w\<lparr>wt_ticks := Suc (wt_ticks w)\<rparr>) = (Inr ob, u)"
    and "wnow s w < d" "converged s c started ob u = (receipt, v)"
  shows "wait_round s c token started d lc w = (Inl (Inr receipt), v)"
proof -
  have "(max (d - wnow s w) 0 \<le> 0) = (d \<le> wnow s w)" by auto
  with assms show ?thesis
    unfolding wait_round_def wait_clock_def wnow_def [symmetric] Let_def prod.case by simp
qed

lemma after_wait_failure_frame:
  assumes "after_wait_failure s c d f w = (x, v)"
  shows "wt_log v = wt_log w" "x = Inl r \<Longrightarrow> wt_slept v = wt_slept w \<and> (\<exists>g. r = Inl (VFail g))"
  using assms by (auto simp: after_wait_failure_def Let_def wait_clock_def split: if_splits)

lemma wait_round_frame:
  assumes "wait_round s c token started d lc w = (x, v)"
  shows "extends_wait c token w v" "x = Inl r \<Longrightarrow> wt_slept v = wt_slept w"
    "x = Inl (Inr receipt) \<Longrightarrow> \<exists>ob. dget receipt ''observation'' = Some (JObj ob) \<and> observed_by s ob v"
proof -
  obtain q u where o: "probe_space s c token (min (wc_request c) (max (max (d - wnow s w) 0) (1/2))) (w\<lparr>wt_ticks := Suc (wt_ticks w)\<rparr>) = (q, u)"
    and u: "wt_slept u = wt_slept w" "extends_wait c token w u"
    and r: "wait_round s c token started d lc w =
      (if d \<le> wnow s w then (Inl (Inl (VFail (timed_out lc (w\<lparr>wt_ticks := Suc (wt_ticks w)\<rparr>)))), w\<lparr>wt_ticks := Suc (wt_ticks w)\<rparr>)
       else case q of
         Inr ob \<Rightarrow> (let (receipt, w3) = converged s c started ob u in (Inl (Inr receipt), w3))
       | Inl (Other e) \<Rightarrow> (Inl (Inl (Other e)), u)
       | Inl (VFail f) \<Rightarrow> after_wait_failure s c d f u)"
    by (rule wait_round_unfold)
  have "extends_wait c token w v \<and> (x = Inl r \<longrightarrow> wt_slept v = wt_slept w)
    \<and> (x = Inl (Inr receipt) \<longrightarrow> (\<exists>ob. dget receipt ''observation'' = Some (JObj ob) \<and> observed_by s ob v))"
  proof (cases "d \<le> wnow s w")
    case True
    with assms r show ?thesis by (auto simp: extends_wait_def)
  next
    case False
    show ?thesis
    proof (cases q)
      case (Inr ob)
      obtain y z where con: "converged s c started ob u = (y, z)" by fastforce
      with False assms r Inr have "x = Inl (Inr y)" "v = z" by auto
      moreover have "observed_by s ob z"
        using probe_Inr [OF o [unfolded Inr]] converged_frame(2) [OF con] by (simp add: observed_by_def)
      ultimately show ?thesis using converged_frame [OF con] u by (auto simp: extends_wait_def)
    next
      case (Inl e)
      show ?thesis
      proof (cases e)
        case (Other ex)
        with False assms r Inl u show ?thesis by auto
      next
        case (VFail f)
        with False assms r Inl have a: "after_wait_failure s c d f u = (x, v)" by simp
        from after_wait_failure_frame [OF a] u show ?thesis by (auto simp: extends_wait_def)
      qed
    qed
  qed
  then show "extends_wait c token w v" "x = Inl r \<Longrightarrow> wt_slept v = wt_slept w"
    "x = Inl (Inr receipt) \<Longrightarrow> \<exists>ob. dget receipt ''observation'' = Some (JObj ob) \<and> observed_by s ob v"
    by auto
qed

text \<open>A round that goes on has slept: the time left has shrunk by the interval, or nothing is left.\<close>

lemma after_wait_failure_Inr:
  assumes "mono (ds_clock s)" "after_wait_failure s c d f w = (Inr code, v)"
  shows "wt_ticks w \<le> wt_ticks v" "wt_slept v \<le> d - ds_clock s (wt_ticks w)"
    "\<exists>t. wnow s w \<le> t \<and> t < d \<and> t + min (wc_poll c) (d - t) \<le> wnow s v"
proof -
  let ?k = "wt_ticks w" and ?t = "ds_clock s (Suc (wt_ticks w)) + wt_slept w"
  from assms(2) have v: "?t < d" "wt_ticks v = Suc (Suc ?k)" "wt_slept v = wt_slept w + min (wc_poll c) (d - ?t)"
    by (auto simp: after_wait_failure_def Let_def wait_clock_def split: if_splits)
  have m: "ds_clock s ?k \<le> ds_clock s (Suc ?k)" "ds_clock s (Suc ?k) \<le> ds_clock s (Suc (Suc ?k))"
    using assms(1) by (auto intro: monoD)
  from v show "wt_ticks w \<le> wt_ticks v" by simp
  from v m show "wt_slept v \<le> d - ds_clock s ?k" by auto
  from v m show "\<exists>t. wnow s w \<le> t \<and> t < d \<and> t + min (wc_poll c) (d - t) \<le> wnow s v"
    by (intro exI [of _ ?t]) (auto simp: wnow_def)
qed

lemma wait_round_Inr:
  assumes "mono (ds_clock s)" "wait_round s c token started d lc w = (Inr code, v)"
  shows "wt_ticks w \<le> wt_ticks v" "wt_slept v \<le> d - ds_clock s (wt_ticks w)"
    "\<exists>t. wnow s w \<le> t \<and> t < d \<and> t + min (wc_poll c) (d - t) \<le> wnow s v"
proof -
  obtain q u where u: "wt_ticks u = Suc (wt_ticks w)" "wt_slept u = wt_slept w"
    and r: "wait_round s c token started d lc w =
      (if d \<le> wnow s w then (Inl (Inl (VFail (timed_out lc (w\<lparr>wt_ticks := Suc (wt_ticks w)\<rparr>)))), w\<lparr>wt_ticks := Suc (wt_ticks w)\<rparr>)
       else case q of
         Inr ob \<Rightarrow> (let (receipt, w3) = converged s c started ob u in (Inl (Inr receipt), w3))
       | Inl (Other e) \<Rightarrow> (Inl (Inl (Other e)), u)
       | Inl (VFail f) \<Rightarrow> after_wait_failure s c d f u)"
    by (rule wait_round_unfold)
  from assms(2) r obtain f where a: "after_wait_failure s c d f u = (Inr code, v)"
    by (auto split: if_splits sum.splits drift_error.splits prod.splits)
  have m: "ds_clock s (wt_ticks w) \<le> ds_clock s (wt_ticks u)" using assms(1) u by (auto intro: monoD)
  note g = after_wait_failure_Inr [OF assms(1) a]
  from g(1) u show "wt_ticks w \<le> wt_ticks v" by simp
  from g(2) m show "wt_slept v \<le> d - ds_clock s (wt_ticks w)" by simp
  from m u have "wnow s w \<le> wnow s u" by (simp add: wnow_def)
  with g(3) show "\<exists>t. wnow s w \<le> t \<and> t < d \<and> t + min (wc_poll c) (d - t) \<le> wnow s v" by (meson order_trans)
qed

section \<open>The wait\<close>

lemma waiting_returns:
  assumes "mono (ds_clock s)" "0 < wc_poll c"
  shows "d - wnow s w \<le> of_nat m * wc_poll c \<Longrightarrow> waiting (Suc m) s c token started d lc w \<noteq> None"
proof (induction m arbitrary: lc w)
  case 0
  then have "wnow s w \<ge> d" by simp
  from wait_round_late [OF this] show ?case by simp
next
  case (Suc m)
  obtain x v where r: "wait_round s c token started d lc w = (x, v)" by fastforce
  show ?case
  proof (cases x)
    case (Inl y)
    with r show ?thesis by simp
  next
    case (Inr code)
    with wait_round_Inr(3) [OF assms(1)] r obtain t where t: "wnow s w \<le> t" "t < d" "t + min (wc_poll c) (d - t) \<le> wnow s v" by blast
    have "d - wnow s v \<le> of_nat m * wc_poll c"
    proof (cases "wc_poll c \<le> d - t")
      case True
      with t Suc.prems show ?thesis by (simp add: algebra_simps)
    next
      case False
      with t have "d - wnow s v \<le> 0" by simp
      also have "0 \<le> of_nat m * wc_poll c" using assms(2) by simp
      finally show ?thesis .
    qed
    from Suc.IH [OF this] r Inr show ?thesis by (simp del: waiting.simps(2) add: waiting.simps(2) [of "Suc m"])
  qed
qed

lemma waiting_ends:
  "waiting k s c token started d lc w = Some (r, v) \<Longrightarrow> extends_wait c token w v
    \<and> (\<forall>receipt. r = Inr receipt \<longrightarrow> (\<exists>ob. dget receipt ''observation'' = Some (JObj ob) \<and> observed_by s ob v))"
proof (induction k arbitrary: lc w)
  case 0
  then show ?case by simp
next
  case (Suc k)
  obtain x u where x: "wait_round s c token started d lc w = (x, u)" by fastforce
  show ?case
  proof (cases x)
    case (Inl y)
    with Suc.prems x have "y = r" "u = v" by auto
    with Inl x wait_round_frame [OF x] show ?thesis by auto
  next
    case (Inr code)
    with Suc.prems x have "waiting k s c token started d (Some code) u = Some (r, v)" by simp
    from Suc.IH [OF this] wait_round_frame(1) [OF x] show ?thesis by (blast intro: extends_wait_trans)
  qed
qed

lemma waiting_slept:
  assumes "mono (ds_clock s)"
  shows "waiting k s c token started d lc w = Some (r, v) \<Longrightarrow> k0 \<le> wt_ticks w \<Longrightarrow> wt_slept w \<le> d - ds_clock s k0
    \<Longrightarrow> wt_slept v \<le> d - ds_clock s k0"
proof (induction k arbitrary: lc w)
  case 0
  then show ?case by simp
next
  case (Suc k)
  obtain x u where x: "wait_round s c token started d lc w = (x, u)" by fastforce
  show ?case
  proof (cases x)
    case (Inl y)
    with Suc.prems x wait_round_frame(2) [OF x] show ?thesis by auto
  next
    case (Inr code)
    with Suc.prems(1) x have w: "waiting k s c token started d (Some code) u = Some (r, v)" by simp
    note g = wait_round_Inr [OF assms x [unfolded Inr]]
    have "ds_clock s k0 \<le> ds_clock s (wt_ticks w)" using assms Suc.prems(2) by (rule monoD)
    with g Suc.prems(2) have "k0 \<le> wt_ticks u" "wt_slept u \<le> d - ds_clock s k0" by auto
    with Suc.IH [OF w] show ?thesis by blast
  qed
qed

lemma wait_config_of_Inr:
  assumes "wait_config_of a = Inr c"
  shows "wa_repo_id a = SPACE_ID" "wc_repo_id c = SPACE_ID" "1 \<le> wc_timeout c" "wc_timeout c \<le> 900" "1/10 \<le> wc_poll c"
    "1/2 \<le> wc_request c" "wc_request c \<le> 60"
  using assms by (auto simp: wait_config_of_def in_range_def invalid_wait_def split: if_splits option.splits pyfloat.splits)

lemma wait_for_runtime_unfold:
  "wait_config_of a = Inr c \<Longrightarrow> wait_for_runtime s a token idle_wait
     = waiting poll_fuel s c token (ds_date s 0) (ds_clock s 1 + wc_timeout c) None (idle_wait\<lparr>wt_ticks := 2\<rparr>)"
  by (simp add: wait_for_runtime_def idle_wait_def wait_date_def wait_clock_def numeral_2_eq_2)

lemma wait_for_runtime_returns:
  assumes "mono (ds_clock s)"
  shows "\<exists>r w. wait_for_runtime s a token idle_wait = Some (r, w) \<and> wt_slept w \<le> 900"
proof (cases "wait_config_of a")
  case (Inl e)
  then show ?thesis by (simp add: wait_for_runtime_def idle_wait_def)
next
  case (Inr c)
  note cfg = wait_config_of_Inr [OF Inr]
  let ?w = "idle_wait\<lparr>wt_ticks := 2\<rparr>" and ?d = "ds_clock s 1 + wc_timeout c"
  have m: "ds_clock s 1 \<le> ds_clock s 2" using assms by (rule monoD) simp
  then have "?d - wnow s ?w \<le> of_nat 9000 * wc_poll c" using cfg by (simp add: wnow_def idle_wait_def)
  with cfg have "waiting (Suc 9000) s c token (ds_date s 0) ?d None ?w \<noteq> None" by (intro waiting_returns [OF assms]) auto
  then obtain r w where p: "waiting poll_fuel s c token (ds_date s 0) ?d None ?w = Some (r, w)"
    by (auto simp: poll_fuel_def simp del: waiting.simps)
  have "wt_slept w \<le> ?d - ds_clock s 1"
    by (rule waiting_slept [OF assms p]) (use cfg in \<open>simp_all add: idle_wait_def\<close>)
  with cfg p wait_for_runtime_unfold [OF Inr] show ?thesis by auto
qed

lemma wait_for_runtime_ends:
  assumes "wait_for_runtime s a token idle_wait = Some (r, w)"
  shows "\<forall>q \<in> set (wt_log w). hq_url q \<in> {wait_info_url SPACE_ID, wait_runtime_url SPACE_ID}
      \<and> hq_auth q = Some (''Bearer '' @ token) \<and> 1/2 \<le> hq_timeout q \<and> hq_timeout q \<le> 60"
    "r = Inr receipt \<Longrightarrow> \<exists>ob. dget receipt ''observation'' = Some (JObj ob) \<and> observed_by s ob w"
proof -
  have "(\<forall>q \<in> set (wt_log w). hq_url q \<in> {wait_info_url SPACE_ID, wait_runtime_url SPACE_ID}
      \<and> hq_auth q = Some (''Bearer '' @ token) \<and> 1/2 \<le> hq_timeout q \<and> hq_timeout q \<le> 60)
    \<and> (r = Inr receipt \<longrightarrow> (\<exists>ob. dget receipt ''observation'' = Some (JObj ob) \<and> observed_by s ob w))"
  proof (cases "wait_config_of a")
    case (Inl e)
    with assms show ?thesis by (auto simp: wait_for_runtime_def idle_wait_def)
  next
    case (Inr c)
    note cfg = wait_config_of_Inr [OF Inr]
    from waiting_ends [OF assms [unfolded wait_for_runtime_unfold [OF Inr]]] cfg show ?thesis
      by (auto simp: extends_wait_def wait_request_def list_all_iff idle_wait_def)
  qed
  then show "\<forall>q \<in> set (wt_log w). hq_url q \<in> {wait_info_url SPACE_ID, wait_runtime_url SPACE_ID}
      \<and> hq_auth q = Some (''Bearer '' @ token) \<and> 1/2 \<le> hq_timeout q \<and> hq_timeout q \<le> 60"
    "r = Inr receipt \<Longrightarrow> \<exists>ob. dget receipt ''observation'' = Some (JObj ob) \<and> observed_by s ob w" by auto
qed

text \<open>
  The wait ends and stays within its bounds. If the monotonic clock does not run backwards, then
  whatever the provider answers, \<open>poll_fuel\<close> rounds are enough: the wait returns, having slept at most
  a quarter of an hour. Every request it has sent went to one of the two provider addresses of the
  canonical Space, with the given token, and with a timeout between half a second and a minute.
\<close>

theorem runtime_wait_bounded:
  assumes "mono (ds_clock s)"
  shows "\<exists>r w. wait_run s a idle_wait = Some (r, w) \<and> wt_slept w \<le> 900
    \<and> (\<forall>q \<in> set (wt_log w). hq_url q \<in> {wait_info_url SPACE_ID, wait_runtime_url SPACE_ID}
        \<and> hq_auth q = Some (''Bearer '' @ strip (wa_token a)) \<and> strip (wa_token a) \<noteq> []
        \<and> 1/2 \<le> hq_timeout q \<and> hq_timeout q \<le> 60)"
proof (cases "strip (wa_token a) = []")
  case True
  then show ?thesis by (simp add: wait_run_def Let_def idle_wait_def)
next
  case False
  from wait_for_runtime_returns [OF assms] obtain r w where
    w: "wait_for_runtime s a (strip (wa_token a)) idle_wait = Some (r, w)" "wt_slept w \<le> 900" by blast
  with False wait_for_runtime_ends(1) [OF w(1)] show ?thesis
    by (intro exI [of _ r] exI [of _ w]) (simp add: wait_run_def Let_def)
qed

section \<open>Agreement with the contract\<close>

text \<open>The identity the provider reports, when it reports one (no \<open>str\<close> of a true value is empty).\<close>

definition names_the_space :: "(rat \<Rightarrow> string) \<Rightarrow> jdict \<Rightarrow> bool" where
  "names_the_space fr info \<longleftrightarrow> \<not> truthy (dget_or_null info ''id'') \<or> py_str fr (dget_or_null info ''id'') \<in> {SPACE_ID, []}"

definition aligned_at :: "string \<Rightarrow> jdict" where
  "aligned_at p = [(''state'', JStr ''RUNNING_ALIGNED''), (''retryable'', JBool False), (''publication_revision'', JStr p),
     (''runtime_revision'', JStr p), (''stage'', JStr ''RUNNING''), (''private'', JBool False)]"

definition observation_at :: "string \<Rightarrow> jdict" where
  "observation_at p = [(''stage'', JStr ''RUNNING''), (''publication_revision'', JStr p), (''runtime_revision'', JStr p),
     (''private'', JBool False)]"

text \<open>Both read the same conditions.\<close>

definition runs_at :: "(rat \<Rightarrow> string) \<Rightarrow> jdict \<Rightarrow> jdict \<Rightarrow> string \<Rightarrow> bool" where
  "runs_at fr info runtime p \<longleftrightarrow> dget_or_null info ''private'' = JBool False
     \<and> \<not> unset (dget_or_null info ''sha'') \<and> revision_text fr (dget_or_null info ''sha'') = p
     \<and> (\<exists>t. dget_or_null runtime ''stage'' = JStr t \<and> t \<noteq> [] \<and> normalized_stage t = ''RUNNING'')
     \<and> \<not> unset (dget_or_null runtime ''sha'') \<and> revision_text fr (dget_or_null runtime ''sha'') = p \<and> exact_sha p"

lemma stage_name_RUNNING: "stage_name ''RUNNING''"
  by code_simp

lemma observation_iff: "classify_observation fr info runtime = Inr ob \<longleftrightarrow> (\<exists>p. runs_at fr info runtime p \<and> ob = observation_at p)"
  using stage_name_RUNNING
  by (auto simp: classify_observation_def exact_sha_or_pending_def judge_runtime_def wait_failure_def malformed_observation_def runs_at_def
      observation_at_def unset_def Let_def bindE_Inr_iff WAIT_TRANSIENT_STAGES_def split: json.splits if_splits)

lemma classify_stage_iff:
  "classify_stage fr publication stage runtime = Inr (aligned_at p) \<longleftrightarrow>
     stage = ''RUNNING'' \<and> publication = Some p \<and> \<not> unset runtime \<and> revision_text fr runtime = p \<and> exact_sha p"
  by (auto simp: classify_stage_def sha_or_none_def invalid_response_def aligned_at_def pending_def bindE_Inr_iff Let_def opt_str_def
      TERMINAL_STAGES_def TRANSITION_STAGES_def split: if_splits option.splits)

lemma classify_iff:
  "classify fr info runtime SPACE_ID = Inr (aligned_at p) \<longleftrightarrow> names_the_space fr info \<and> runs_at fr info runtime p"
proof -
  have "bindE (sha_or_none fr (dget_or_null info ''sha'')) (\<lambda>publication.
      let v = dget_or_null runtime ''stage'' in
      if unset v then Inr (pending ''METADATA_PENDING'' [(''publication_revision'', opt_str publication)])
      else case v of
        JStr t \<Rightarrow> let stage = normalized_stage t in
          if \<not> stage_name stage then Inl (invalid_response ''Stage is malformed.'' [])
          else classify_stage fr publication stage (dget_or_null runtime ''sha'')
      | _ \<Rightarrow> Inl (invalid_response ''Stage is not a string.'' [])) = Inr (aligned_at p)
    \<longleftrightarrow> dget_or_null info ''private'' \<noteq> JBool False \<or> runs_at fr info runtime p"
    if "dget_or_null info ''private'' = JBool False"
    using that stage_name_RUNNING
    by (auto simp: bindE_Inr_iff sha_or_none_def Let_def invalid_response_def runs_at_def unset_def pending_def aligned_at_def [of p]
        classify_stage_iff [unfolded aligned_at_def] split: json.splits if_splits)
  moreover have "pending x y \<noteq> aligned_at p" for x y by (simp add: pending_def aligned_at_def)
  ultimately show ?thesis
    by (auto simp: classify_def reject_alternate_target_def names_the_space_def Let_def invalid_response_def runs_at_def
        split: json.splits if_splits)
qed

text \<open>
  C34. The waiter and the shared contract agree on convergence. The waiter accepts an observation exactly
  if it is, for some exact revision \<open>p\<close>, that the public Space is \<open>RUNNING\<close> at its published revision
  \<open>p\<close>; and the contract answers \<open>RUNNING_ALIGNED\<close> at \<open>p\<close> exactly if the waiter does and the
  provider's identity, if there is one, is the canonical Space.
\<close>

theorem waiter_meets_contract:
  "(classify_observation fr info runtime = Inr ob \<longleftrightarrow> (\<exists>p. runs_at fr info runtime p \<and> ob = observation_at p))
    \<and> (classify fr info runtime SPACE_ID = Inr (aligned_at p)
        \<longleftrightarrow> names_the_space fr info \<and> classify_observation fr info runtime = Inr (observation_at p))"
  unfolding classify_iff observation_iff by (auto simp: observation_at_def)

text \<open>
  C35. Exit code 0 means convergence. If the process exits with code 0, then two successive answers of the
  provider, on the canonical Space, were metadata that the waiter accepts at some exact revision; the
  receipt holds that observation; and the contract calls the same metadata \<open>RUNNING_ALIGNED\<close> at that
  revision unless the provider names another Space.
\<close>

theorem runtime_wait_sound:
  assumes "wait_main s a saved = Some (Inr (receipt, 0))"
  shows "wa_repo_id a = SPACE_ID \<and> (\<exists>k info runtime p. provider_answer s (ds_http s k) = Inr info
    \<and> provider_answer s (ds_http s (Suc k)) = Inr runtime \<and> exact_sha p \<and> runs_at (s_frepr (ds_sys s)) info runtime p
    \<and> dget receipt ''observation'' = Some (JObj (observation_at p))
    \<and> (classify (s_frepr (ds_sys s)) info runtime SPACE_ID = Inr (aligned_at p)) = names_the_space (s_frepr (ds_sys s)) info)"
proof -
  from assms obtain r w where w: "wait_run s a idle_wait = Some (r, w)" "wait_outcome s a saved (r, w) = Inr (receipt, 0)"
    by (auto simp: wait_main_def)
  then have r: "r = Inr receipt" by (auto simp: wait_outcome_def Let_def split: sum.splits drift_error.splits option.splits)
  with w(1) have run: "wait_for_runtime s a (strip (wa_token a)) idle_wait = Some (Inr receipt, w)"
    by (auto simp: wait_run_def Let_def split: if_splits)
  from wait_for_runtime_ends(2) [OF run refl] obtain ob where ob: "dget receipt ''observation'' = Some (JObj ob)" "observed_by s ob w" by blast
  then obtain info runtime where a: "2 \<le> length (wt_log w)" "provider_answer s (ds_http s (length (wt_log w) - 2)) = Inr info"
    "provider_answer s (ds_http s (length (wt_log w) - 1)) = Inr runtime"
    "classify_observation (s_frepr (ds_sys s)) info runtime = Inr ob" by (auto simp: observed_by_def)
  moreover from a(4) obtain p where p: "runs_at (s_frepr (ds_sys s)) info runtime p" "ob = observation_at p"
    by (auto simp: observation_iff)
  moreover from p(1) have "exact_sha p" by (simp add: runs_at_def)
  moreover from a(1) have "length (wt_log w) - 1 = Suc (length (wt_log w) - 2)" by simp
  moreover from run have "wa_repo_id a = SPACE_ID"
    by (cases "wait_config_of a") (auto simp: wait_for_runtime_def dest: wait_config_of_Inr(1))
  ultimately show ?thesis
    using ob(1) by (intro conjI exI [of _ "length (wt_log w) - 2"] exI [of _ info] exI [of _ runtime] exI [of _ p])
      (auto simp: classify_iff)
qed

text \<open>
  Where they disagree: as long as the provider reports no runtime revision, a stage that the contract
  calls terminal is retried by the waiter.
\<close>

lemma terminal_stage_retried:
  assumes "dget_or_null info ''private'' = JBool False" "sha_or_none fr (dget_or_null info ''sha'') = Inr (Some p)"
    and "\<not> truthy (dget_or_null info ''id'')" "dget_or_null runtime ''stage'' = JStr stage" "stage \<in> set TERMINAL_STAGES"
    and "dget_or_null runtime ''sha'' = JNull"
  shows "\<exists>f g. classify_observation fr info runtime = Inl f \<and> vf_retryable f
    \<and> classify fr info runtime SPACE_ID = Inl g \<and> \<not> vf_retryable g"
proof -
  have st: "normalized_stage stage = stage \<and> stage_name stage \<and> stage \<noteq> []"
  proof -
    have "\<forall>t \<in> set TERMINAL_STAGES. normalized_stage t = t \<and> stage_name t \<and> t \<noteq> []" by code_simp
    with assms(5) show ?thesis by blast
  qed
  have "exact_sha_or_pending fr (dget_or_null info ''sha'') field = Inr p" for field
    using assms(2) by (auto simp: sha_or_none_def exact_sha_or_pending_def Let_def split: if_splits)
  with assms st show ?thesis
    by (auto simp: classify_observation_def classify_def reject_alternate_target_def classify_stage_def unset_def exact_sha_or_pending_def
        wait_failure_def Let_def)
qed

section \<open>A wait that converges\<close>

definition wait_docs :: "(string \<times> raw) list" where
  "wait_docs = [(''info'', RObj [(''private'', RBool False), (''sha'', RStr tiny_sha)]),
     (''stage'', raw_dict [(''stage'', ''running''), (''sha'', tiny_sha)])]"

definition demo_wait :: drift_sys where
  "demo_wait = demo_drift\<lparr>ds_scan := (\<lambda>t. Inr (case dget wait_docs t of Some r \<Rightarrow> r | None \<Rightarrow> RNull)),
     ds_http := (\<lambda>k. if k = 0 then demo_reply [] ''info'' else demo_reply [] ''stage'')\<rparr>"

definition wait_demo_args :: wait_args where
  "wait_demo_args = \<lparr>wa_repo_id = SPACE_ID, wa_token = ''t'', wa_timeout = Fin 900, wa_poll = Fin 10, wa_request = Fin 15\<rparr>"

theorem runtime_wait_bounded_witness:
  "\<exists>r w. wait_run demo_drift wait_demo_args idle_wait = Some (r, w) \<and> wt_slept w \<le> 900"
proof -
  have "mono (ds_clock demo_drift)" by (simp add: demo_drift_def mono_def)
  from runtime_wait_bounded [OF this, of wait_demo_args] show ?thesis by blast
qed

definition demo_runtime :: jdict where
  "demo_runtime = [(''stage'', JStr ''running''), (''sha'', JStr tiny_sha)]"

definition demo_info :: jdict where
  "demo_info = [(''private'', JBool False), (''sha'', JStr tiny_sha)]"

lemma wait_demo_answers:
  "provider_answer demo_wait (ds_http demo_wait 0) = Inr demo_info"
  "provider_answer demo_wait (ds_http demo_wait (Suc k)) = Inr demo_runtime"
proof -
  have h: "header_first ''content-type'' [(''Content-Type'', ''application/json''), (''Cache-Control'', ''no-store'')] = ''application/json''"
    "lower (strip (fst (partition_at (CHR '';'') ''application/json''))) = ''application/json''" by code_simp+
  have "json_text demo_wait e ''info'' = Inr (JObj demo_info)" "json_text demo_wait e ''stage'' = Inr (JObj demo_runtime)" for e
    by (simp_all add: json_text_def demo_wait_def demo_drift_def small_sys_def wait_docs_def raw_dict_def plain_hooks_def
        plain_object_def dict_of_def demo_info_def demo_runtime_def)
  then have "provider_object demo_wait ''application/json'' ''info'' = Inr demo_info"
    "provider_object demo_wait ''application/json'' ''stage'' = Inr demo_runtime"
    by (simp_all add: provider_object_def h MAX_RESPONSE_BYTES_def)
  then show "provider_answer demo_wait (ds_http demo_wait 0) = Inr demo_info"
    "provider_answer demo_wait (ds_http demo_wait (Suc k)) = Inr demo_runtime"
    by (simp_all add: provider_answer_def demo_wait_def demo_reply_def h MAX_RESPONSE_BYTES_def)
qed

lemma wait_demo_classified: "classify_observation (s_frepr (ds_sys demo_wait)) demo_info demo_runtime = Inr (observation_at tiny_sha)"
  by code_simp

lemma wait_demo_config: "wait_config_of wait_demo_args = Inr \<lparr>wc_repo_id = SPACE_ID, wc_timeout = 900, wc_poll = 10, wc_request = 15\<rparr>"
  by (simp add: wait_config_of_def wait_demo_args_def in_range_def)

theorem runtime_wait_sound_witness:
  "\<exists>receipt k info runtime. wait_main demo_wait wait_demo_args None = Some (Inr (receipt, 0))
    \<and> provider_answer demo_wait (ds_http demo_wait k) = Inr info \<and> provider_answer demo_wait (ds_http demo_wait (Suc k)) = Inr runtime
    \<and> names_the_space (s_frepr (ds_sys demo_wait)) info
      = (classify (s_frepr (ds_sys demo_wait)) info runtime SPACE_ID = Inr (aligned_at tiny_sha))"
proof -
  let ?c = "\<lparr>wc_repo_id = SPACE_ID, wc_timeout = 900, wc_poll = 10, wc_request = 15\<rparr>" and ?w = "idle_wait\<lparr>wt_ticks := 2\<rparr>"
  have clock: "ds_clock demo_wait k = 0" for k by (simp add: demo_wait_def demo_drift_def)
  have ob: "\<exists>u. probe_space demo_wait ?c ''t'' t w = (Inr (observation_at tiny_sha), u)" if "wt_log w = []" for t w
    using that wait_demo_answers wait_demo_classified by (simp add: probe_space_def wait_get_json_def)
  have fits: "min (15::rat) (max (max (900 - 0) 0) (1/2)) = 15" and now_w: "wnow demo_wait ?w = 0"
    by (simp_all add: wnow_def clock idle_wait_def)
  have "\<exists>receipt v. wait_round demo_wait ?c ''t'' d 900 None ?w = (Inl (Inr receipt), v)
      \<and> dget receipt ''observation'' = Some (JObj (observation_at tiny_sha))" for d
  proof -
    obtain u where u: "probe_space demo_wait ?c ''t'' 15 (?w\<lparr>wt_ticks := Suc (wt_ticks ?w)\<rparr>) = (Inr (observation_at tiny_sha), u)"
      using ob by (force simp: idle_wait_def)
    obtain receipt v where con: "converged demo_wait ?c d (observation_at tiny_sha) u = (receipt, v)" by fastforce
    have "wait_round demo_wait ?c ''t'' d 900 None ?w = (Inl (Inr receipt), v)"
      by (rule wait_round_converges [OF _ _ con]) (use u in \<open>simp_all add: now_w\<close>)
    with converged_frame(3) [OF con] show ?thesis by blast
  qed
  then have "\<exists>receipt v. waiting (Suc 9000) demo_wait ?c ''t'' (ds_date demo_wait 0) 900 None ?w = Some (Inr receipt, v)
      \<and> dget receipt ''observation'' = Some (JObj (observation_at tiny_sha))"
    by (metis (no_types, lifting) old.prod.case sum.case(1) waiting.simps(2))
  moreover have "strip (wa_token wait_demo_args) = ''t''" by code_simp
  ultimately obtain receipt v where "wait_run demo_wait wait_demo_args idle_wait = Some (Inr receipt, v)"
    "dget receipt ''observation'' = Some (JObj (observation_at tiny_sha))"
    using wait_for_runtime_unfold [OF wait_demo_config, of demo_wait "''t''"]
    by (auto simp: wait_run_def Let_def clock poll_fuel_def simp del: waiting.simps)
  then have m: "wait_main demo_wait wait_demo_args None = Some (Inr (receipt, 0))"
    "dget receipt ''observation'' = Some (JObj (observation_at tiny_sha))"
    by (simp_all add: wait_main_def wait_outcome_def)
  from runtime_wait_sound [OF m(1)] m show ?thesis by (auto simp: observation_at_def)
qed

end
