(* ===== verification/ForgeMesh.thy ===== *)
theory ForgeMesh
  imports Drift MeshHttp
begin

text \<open>
  \<open>examples/forge-mesh-router.py\<close>, the loopback inference proxy: what it reads and what it writes. The
  header budget, the admission of a request, the strict reading of its JSON body, and the relay of a
  worker's response. Reads are lists of the blocks that successive reads find, cut to the size asked
  for; an empty block is the end of the stream. The standard library's request parser and HTTP client
  are the environment.

  The lemmas: the header phase consumes no more than its budget; an admitted body is what every JSON
  reader makes of it; the relayed chunks decode to the worker's body, within the limit.
\<close>

section \<open>Rejections\<close>

text \<open>\<open>Rejected\<close>; an \<open>OSError\<close>, \<open>HTTPException\<close> or \<open>TimeoutError\<close>; anything else.\<close>

datatype forge_error = Reject int string | Broken | Crash exn

definition MAX_HEADER_BYTES :: nat where "MAX_HEADER_BYTES = 32768"
definition MAX_BODY_BYTES :: nat where "MAX_BODY_BYTES = 1048576"
definition MAX_RELAY_BYTES :: nat where "MAX_RELAY_BYTES = 8388608"

definition EMBED_PATHS :: "string list" where
  "EMBED_PATHS = [''/api/embeddings'', ''/api/embed'', ''/v1/embeddings'']"

definition GET_PATHS :: "string list" where
  "GET_PATHS = [''/api/version'', ''/api/tags'', ''/v1/models'']"

definition POST_PATHS :: "string list" where
  "POST_PATHS = EMBED_PATHS @ [''/api/chat'', ''/api/generate'', ''/v1/chat/completions'', ''/v1/completions'', ''/api/show'']"

definition RELAY_MEDIA_TYPES :: "string list" where
  "RELAY_MEDIA_TYPES = [''application/json'', ''application/x-ndjson'', ''text/event-stream'']"

text \<open>The address; \<open>mapped\<close> says whether the library counts IPv4-mapped loopback addresses.\<close>

definition loopback_host :: "bool \<Rightarrow> string \<Rightarrow> exn + nat list" where
  "loopback_host mapped value =
     (if CHR ''%'' \<in> set value then Inl (ValueError ''zone identifiers are not supported'')
      else case (case ipv4 value of Some q \<Rightarrow> Some (q, q ! 0 = 127) | None \<Rightarrow>
             map_option (\<lambda>g. (g, g = [0, 0, 0, 0, 0, 0, 0, 1]
               \<or> (mapped \<and> take 6 g = [0, 0, 0, 0, 0, 65535] \<and> g ! 6 div 256 = 127))) (ipv6 value)) of
        None \<Rightarrow> Inl (ValueError ''not an address'')
      | Some (address, loopback) \<Rightarrow>
          if loopback then Inr address else Inl (ValueError ''the mesh example requires a literal loopback address''))"

section \<open>The header budget\<close>

text \<open>\<open>readline(limit)\<close>: up to a line end, and up to the limit unless it is negative.\<close>

definition line_of :: "string \<Rightarrow> string" where
  "line_of t = (case find_sub [CHR 0x0A] t of None \<Rightarrow> t | Some (a, b) \<Rightarrow> a @ [CHR 0x0A])"

definition stream_readline :: "int \<Rightarrow> string \<Rightarrow> string \<times> string" where
  "stream_readline bound t = (let l = (if bound < 0 then line_of t else take (nat bound) (line_of t)) in (l, drop (length l) t))"

record header_stream =
  hb_rest :: string
  hb_remaining :: "int option"

definition budget_readline :: "int \<Rightarrow> header_stream \<Rightarrow> (forge_error + string) \<times> header_stream" where
  "budget_readline bound h =
     (case hb_remaining h of
        None \<Rightarrow> (let (l, r) = stream_readline bound (hb_rest h) in (Inr l, h\<lparr>hb_rest := r\<rparr>))
      | Some m \<Rightarrow>
          let size = (if 0 \<le> bound then min (m + 1) bound else m + 1);
              (l, r) = stream_readline size (hb_rest h); left = m - int (length l);
              h1 = \<lparr>hb_rest = r, hb_remaining = Some left\<rparr>
          in if left < 0 then (Inl (Reject 431 ''HEADER_LIMIT''), h1) else (Inr l, h1))"

text \<open>The lines of a header, read with the given limits until one is refused.\<close>

fun read_lines :: "int list \<Rightarrow> header_stream \<Rightarrow> (forge_error + string list) \<times> header_stream" where
  "read_lines [] h = (Inr [], h)"
| "read_lines (bound # ls) h =
     (case budget_readline bound h of
        (Inl e, h1) \<Rightarrow> (Inl e, h1)
      | (Inr l, h1) \<Rightarrow>
          (case read_lines ls h1 of (Inl e, h2) \<Rightarrow> (Inl e, h2) | (Inr rest, h2) \<Rightarrow> (Inr (l # rest), h2)))"

definition header_start :: "string \<Rightarrow> header_stream" where
  "header_start t = \<lparr>hb_rest = t, hb_remaining = Some (int MAX_HEADER_BYTES)\<rparr>"

section \<open>Headers\<close>

type_synonym header_list = "(string \<times> string) list"

definition get_all :: "header_list \<Rightarrow> string \<Rightarrow> string list" where
  "get_all hs name = map snd (filter (\<lambda>(k, v). lower k = lower name) hs)"

definition one_header :: "header_list \<Rightarrow> string \<Rightarrow> forge_error + string option" where
  "one_header hs name = (case get_all hs name of
     [] \<Rightarrow> Inr None | [v] \<Rightarrow> Inr (Some v) | _ \<Rightarrow> Inl (Reject 400 ''DUPLICATE_HEADER''))"

text \<open>\<open>[0-9]{1,10}\<close>\<close>

definition short_digits :: "string \<Rightarrow> bool" where
  "short_digits t = (t \<noteq> [] \<and> length t \<le> 10 \<and> list_all ascii_digit t)"

definition forge_content_length :: "header_list \<Rightarrow> nat \<Rightarrow> bool \<Rightarrow> forge_error + nat" where
  "forge_content_length hs maximum required =
     (if get_all hs ''Transfer-Encoding'' \<noteq> [] then Inl (Reject 400 ''TRANSFER_ENCODING_UNSUPPORTED'')
      else if get_all hs ''Content-Encoding'' \<noteq> [] then Inl (Reject 415 ''CONTENT_ENCODING_UNSUPPORTED'')
      else bindE (one_header hs ''Content-Length'') (\<lambda>raw. case raw of
        None \<Rightarrow> if required then Inl (Reject 411 ''CONTENT_LENGTH_REQUIRED'') else Inr 0
      | Some t \<Rightarrow>
          if \<not> short_digits t then Inl (Reject 400 ''INVALID_CONTENT_LENGTH'')
          else if maximum < digits_val t then Inl (Reject 413 ''BODY_LIMIT'')
          else Inr (digits_val t)))"

section \<open>The request's body\<close>

definition too_long :: "string \<Rightarrow> bool" where
  "too_long t = (128 < length t)"

definition forge_float :: "sys \<Rightarrow> string \<Rightarrow> exn + json" where
  "forge_float z t =
     (if too_long t then Inl (ValueError ''JSON numeric token limit'')
      else bindE (plain_float z t) (\<lambda>j. case j of
        JFloat (Fin q) \<Rightarrow> Inr j | _ \<Rightarrow> Inl (ValueError ''non-finite JSON'')))"

definition forge_hooks :: "sys \<Rightarrow> hooks" where
  "forge_hooks z = \<lparr>h_float = forge_float z, h_const = (\<lambda>_. Inl (ValueError ''non-finite JSON'')),
     h_object = unique_object (ValueError ''duplicate JSON key'')\<rparr>"

text \<open>The integer literals pass the token limit.\<close>

fun int_tokens_ok :: "raw \<Rightarrow> bool" where
  "int_tokens_ok (RInt i) = (\<not> too_long (show_int i))"
| "int_tokens_ok (RArr xs) = list_all int_tokens_ok xs"
| "int_tokens_ok (RObj d) = list_all (\<lambda>p. int_tokens_ok (snd p)) d"
| "int_tokens_ok _ = True"

text \<open>\<open>_validate_tree\<close>: every text of the model can be encoded, so the depth is what is checked.\<close>

fun tree_ok :: "nat \<Rightarrow> json \<Rightarrow> bool" where
  "tree_ok depth (JArr xs) = (depth \<le> 64 \<and> list_all (tree_ok (depth + 1)) xs)"
| "tree_ok depth (JObj d) = (depth \<le> 64 \<and> list_all (\<lambda>p. tree_ok (depth + 1) (snd p)) d)"
| "tree_ok depth _ = (depth \<le> 64)"

definition model_ok :: "json \<Rightarrow> bool" where
  "model_ok j = (case j of
     JStr t \<Rightarrow> strip t \<noteq> [] \<and> length t \<le> 256 \<and> list_all (\<lambda>c. 32 \<le> (of_char c :: nat) \<and> (of_char c :: nat) \<noteq> 127) t
   | _ \<Rightarrow> False)"

definition stream_ok :: "jdict \<Rightarrow> bool" where
  "stream_ok d = (case dget d ''stream'' of Some (JBool _) \<Rightarrow> True | Some _ \<Rightarrow> False | None \<Rightarrow> True)"

definition request_shape :: "json \<Rightarrow> bool" where
  "request_shape j = (tree_ok 0 j \<and> (case j of JObj d \<Rightarrow> model_ok (dget_or_null d ''model'') \<and> stream_ok d | _ \<Rightarrow> False))"

definition invalid_body :: forge_error where "invalid_body = Reject 422 ''INVALID_JSON_REQUEST''"

text \<open>The handler takes \<open>ValueError\<close> with its subclasses and \<open>RecursionError\<close>.\<close>

definition body_error :: "exn \<Rightarrow> forge_error" where
  "body_error e = (if is_value_error e \<or> exn_class e = ''RecursionError'' then invalid_body else Crash e)"

definition validate_body :: "sys \<Rightarrow> scanner \<Rightarrow> string \<Rightarrow> forge_error + unit" where
  "validate_body z scan bytes =
     (case s_decode z bytes of
        None \<Rightarrow> Inl invalid_body
      | Some t \<Rightarrow> (case scan t of
          Inl e \<Rightarrow> Inl (body_error e)
        | Inr r \<Rightarrow>
            if \<not> int_tokens_ok r then Inl invalid_body
            else (case decode (forge_hooks z) r of
                Inl e \<Rightarrow> Inl (body_error e)
              | Inr j \<Rightarrow> if request_shape j then Inr () else Inl invalid_body)))"

section \<open>Reading a body\<close>

fun read_some :: "nat \<Rightarrow> string list \<Rightarrow> string \<times> string list" where
  "read_some n [] = ([], [])"
| "read_some n (b # bs) = (take n b, if length b \<le> n then bs else drop n b # bs)"

text \<open>\<open>broken\<close>: the read after the last block raises, instead of finding the end.\<close>

function read_exactly :: "nat \<Rightarrow> bool \<Rightarrow> string list \<Rightarrow> forge_error + string" where
  "read_exactly remaining broken blocks =
     (if remaining = 0 then Inr []
      else if blocks = [] \<and> broken then Inl Broken
      else let (block, rest) = read_some (min remaining 65536) blocks in
        if block = [] then Inl (Reject 400 ''INCOMPLETE_BODY'')
        else bindE (read_exactly (remaining - length block) broken rest) (\<lambda>more_bytes. Inr (block @ more_bytes)))"
  by pat_completeness auto

lemma read_some_length: "length (fst (read_some n bs)) \<le> n"
  by (cases bs) auto

termination read_exactly
proof (relation "measure fst", goal_cases)
  case 1
  then show ?case by simp
next
  case (2 remaining broken blocks pair block rest)
  then show ?case using read_some_length [of "min remaining 65536" blocks]
    by (cases "read_some (min remaining 65536) blocks") (auto simp: Let_def)
qed

declare read_exactly.simps [simp del]

section \<open>Admission of a request\<close>

record forge_request =
  rq_command :: string
  rq_path :: string
  rq_version :: string
  rq_raw :: string              \<comment> \<open>\<open>raw_requestline\<close>\<close>
  rq_headers :: header_list
  rq_blocks :: "string list"
  rq_broken :: bool
  rq_expired :: bool            \<comment> \<open>the body phase has run out of time\<close>

definition FORBIDDEN_HEADERS :: "string list" where
  "FORBIDDEN_HEADERS = [''Origin'', ''Sec-Fetch-Site'', ''Cookie'', ''Authorization'', ''Proxy-Authorization'', ''Expect'', ''Upgrade'']"

text \<open>\<open>bytes.split()\<close>\<close>

definition byte_space :: "char \<Rightarrow> bool" where
  "byte_space c = (c = CHR '' '' \<or> (9 \<le> (of_char c :: nat) \<and> (of_char c :: nat) \<le> 13))"

definition byte_words :: "string \<Rightarrow> string list" where
  "byte_words t = filter (\<lambda>x. x \<noteq> []) (split_on (CHR '' '') (map (\<lambda>c. if byte_space c then CHR '' '' else c) t))"

definition allowed_paths :: "string \<Rightarrow> forge_error + string list" where
  "allowed_paths command =
     (if command \<in> {''GET'', ''HEAD''} then Inr (GET_PATHS @ [''/mesh/status''])
      else if command = ''POST'' then Inr POST_PATHS else Inl (Reject 405 ''METHOD_REJECTED''))"

definition admit_line :: "string \<Rightarrow> forge_request \<Rightarrow> forge_error + unit" where
  "admit_line server rq =
     bindE (one_header (rq_headers rq) ''Host'') (\<lambda>host.
     if host \<noteq> Some server then Inl (Reject 403 ''HOST_REJECTED'')
     else if list_ex (\<lambda>n. get_all (rq_headers rq) n \<noteq> []) FORBIDDEN_HEADERS
     then Inl (Reject 403 ''BROWSER_OR_CREDENTIAL_INPUT_REJECTED'')
     else if length (byte_words (rq_raw rq)) \<noteq> 3 \<or> byte_words (rq_raw rq) ! 1 \<noteq> rq_path rq
     then Inl (Reject 400 ''NONCANONICAL_REQUEST_TARGET'')
     else if rq_version rq \<noteq> ''HTTP/1.1'' then Inl (Reject 400 ''HTTP_VERSION_UNSUPPORTED'')
     else bindE (allowed_paths (rq_command rq)) (\<lambda>allowed.
       if rq_path rq \<notin> set allowed then Inl (Reject 404 ''ROUTE_REJECTED'') else Inr ()))"

definition request_body :: "sys \<Rightarrow> scanner \<Rightarrow> string \<Rightarrow> forge_request \<Rightarrow> forge_error + string option" where
  "request_body z scan server rq =
     bindE (admit_line server rq) (\<lambda>_.
     bindE (forge_content_length (rq_headers rq) MAX_BODY_BYTES (rq_command rq = ''POST'')) (\<lambda>n.
     if rq_command rq \<noteq> ''POST'' then (if n \<noteq> 0 then Inl (Reject 400 ''BODY_NOT_ALLOWED'') else Inr None)
     else bindE (one_header (rq_headers rq) ''Content-Type'') (\<lambda>media.
       if media \<notin> {Some ''application/json'', Some ''application/json; charset=utf-8''}
       then Inl (Reject 415 ''JSON_CONTENT_TYPE_REQUIRED'')
       else if rq_expired rq then Inl Broken
       else bindE (read_exactly n (rq_broken rq) (rq_blocks rq)) (\<lambda>body.
         bindE (validate_body z scan body) (\<lambda>_. Inr (Some body))))))"
section \<open>The relay\<close>

record worker_answer =
  ua_status :: int
  ua_headers :: header_list
  ua_blocks :: "string list"
  ua_broken :: bool              \<comment> \<open>the read after the last block raises\<close>

text \<open>What the client is sent.\<close>

datatype sent =
    ErrorJson int jdict
  | StatusJson jdict
  | ResponseHead int string bool       \<comment> \<open>status, media type, chunked\<close>
  | Piece string
  | LastPiece

definition upstream_error :: "string \<Rightarrow> forge_error" where
  "upstream_error code = Reject 502 code"

definition upstream_header :: "header_list \<Rightarrow> string \<Rightarrow> forge_error + string option" where
  "upstream_header hs name = (case one_header hs name of
     Inl _ \<Rightarrow> Inl (upstream_error ''UPSTREAM_DUPLICATE_HEADER'') | Inr v \<Rightarrow> Inr v)"

definition media_ok :: "string option \<Rightarrow> bool" where
  "media_ok media = (case media of
     None \<Rightarrow> False
   | Some m \<Rightarrow> m \<noteq> [] \<and> length m \<le> 128 \<and> list_all (\<lambda>c. 32 \<le> (of_char c :: nat) \<and> (of_char c :: nat) < 127) m
       \<and> lower (strip (fst (partition_at (CHR '';'') m))) \<in> set RELAY_MEDIA_TYPES)"

text \<open>The declared length of a response that may be relayed, with its media type.\<close>

definition relay_head :: "worker_answer \<Rightarrow> forge_error + string \<times> nat option" where
  "relay_head a =
     (if \<not> (200 \<le> ua_status a \<and> ua_status a < 300)
      then Inl (Reject (if 400 \<le> ua_status a \<and> ua_status a \<le> 599 then ua_status a else 502) ''UPSTREAM_REJECTED'')
      else if ua_status a \<in> {204, 205, 206} then Inl (upstream_error ''UPSTREAM_EMPTY_OR_PARTIAL_STATUS'')
      else bindE (upstream_header (ua_headers a) ''Content-Type'') (\<lambda>media.
        bindE (upstream_header (ua_headers a) ''Content-Length'') (\<lambda>declared.
        bindE (upstream_header (ua_headers a) ''Transfer-Encoding'') (\<lambda>transfer.
        if \<not> media_ok media then Inl (upstream_error ''UPSTREAM_MEDIA_REJECTED'')
        else if get_all (ua_headers a) ''Content-Encoding'' \<noteq> [] then Inl (upstream_error ''UPSTREAM_ENCODING_REJECTED'')
        else if transfer \<noteq> None \<and> (map_option lower transfer \<noteq> Some ''chunked'' \<or> declared \<noteq> None)
        then Inl (upstream_error ''UPSTREAM_FRAMING_REJECTED'')
        else (case declared of
            None \<Rightarrow> Inr (the media, None)
          | Some t \<Rightarrow>
              if \<not> short_digits t then Inl (upstream_error ''UPSTREAM_FRAMING_REJECTED'')
              else if MAX_RELAY_BYTES < digits_val t then Inl (upstream_error ''UPSTREAM_BODY_LIMIT'')
              else Inr (the media, Some (digits_val t)))))))"

text \<open>The pieces written for the worker's blocks, and how the loop ends.\<close>

function relay_loop :: "nat option \<Rightarrow> nat \<Rightarrow> bool \<Rightarrow> string list \<Rightarrow> sent list \<times> forge_error option" where
  "relay_loop expected total_bytes broken blocks =
     (if blocks = [] \<and> broken then ([], Some Broken)
      else let (block, rest) = read_some (min 8192 (MAX_RELAY_BYTES - total_bytes + 1)) blocks in
        if block = []
        then (if expected \<noteq> None \<and> expected \<noteq> Some total_bytes then ([], Some (upstream_error ''UPSTREAM_INCOMPLETE_BODY''))
              else ([LastPiece], None))
        else let seen = total_bytes + length block in
          if MAX_RELAY_BYTES < seen then ([], Some (upstream_error ''UPSTREAM_BODY_LIMIT''))
          else let (pieces, e) = relay_loop expected seen broken rest in (Piece block # pieces, e))"
  by pat_completeness auto

lemma read_some_nonempty: "fst (read_some n bs) \<noteq> [] \<Longrightarrow> length (concat (snd (read_some n bs))) < length (concat bs)"
  by (cases bs) auto

termination relay_loop
proof (relation "measure (\<lambda>(_, _, _, bs). length (concat bs))", goal_cases)
  case 1
  then show ?case by simp
next
  case (2 expected total_bytes broken blocks pair block rest seen)
  then have "fst (read_some (min 8192 (MAX_RELAY_BYTES - total_bytes + 1)) blocks) = block"
    "snd (read_some (min 8192 (MAX_RELAY_BYTES - total_bytes + 1)) blocks) = rest" by (metis fst_conv, metis snd_conv)
  with 2 read_some_nonempty [of "min 8192 (MAX_RELAY_BYTES - total_bytes + 1)" blocks] show ?case by simp
qed

declare relay_loop.simps [simp del]

definition relay :: "string \<Rightarrow> worker_answer \<Rightarrow> sent list \<times> forge_error option" where
  "relay command a = (case relay_head a of
     Inl e \<Rightarrow> ([], Some e)
   | Inr (media, expected) \<Rightarrow>
       if command = ''HEAD'' then ([ResponseHead (ua_status a) media False], None)
       else let (pieces, e) = relay_loop expected 0 (ua_broken a) (ua_blocks a) in
         (ResponseHead (ua_status a) media True # pieces, e))"

text \<open>The bytes on the wire: each piece with its length in hexadecimal, the last of length 0.\<close>

fun show_hex :: "nat \<Rightarrow> string" where
  "show_hex n = (if n < 16 then [hex_digit n] else show_hex (n div 16) @ [hex_digit (n mod 16)])"

declare show_hex.simps [simp del]

definition crlf :: string where "crlf = [CHR 0x0D, CHR 0x0A]"

fun wire :: "sent list \<Rightarrow> string" where
  "wire [] = []"
| "wire (Piece b # ss) = show_hex (length b) @ crlf @ b @ crlf @ wire ss"
| "wire (LastPiece # ss) = ''0'' @ crlf @ crlf @ wire ss"
| "wire (_ # ss) = wire ss"

section \<open>The header budget holds\<close>

lemma find_sub_join: "find_sub p t = Some (a, b) \<Longrightarrow> t = a @ p @ b"
proof (induction t arbitrary: a)
  case Nil
  then show ?case by (simp split: if_splits)
next
  case (Cons c t)
  then show ?case by (auto simp: startswith_def split: if_splits) (metis append_take_drop_id)
qed

lemma line_of_prefix: "\<exists>r. t = line_of t @ r"
  using find_sub_join [of "[CHR 0x0A]" t] by (auto simp: line_of_def split: option.split)

lemma stream_readline_split:
  assumes "stream_readline bound t = (l, r)"
  shows "t = l @ r" "0 \<le> bound \<Longrightarrow> int (length l) \<le> bound"
proof -
  obtain r0 where t: "t = line_of t @ r0" using line_of_prefix by blast
  have l: "l = (if bound < 0 then line_of t else take (nat bound) (line_of t))" and r: "r = drop (length l) t"
    using assms by (auto simp: stream_readline_def Let_def)
  then have "\<exists>n. l = take n t" by (metis append_eq_conv_conj t take_take)
  with r show "t = l @ r" by (auto simp: min_def)
  from l show "0 \<le> bound \<Longrightarrow> int (length l) \<le> bound" by simp
qed

lemma budget_step:
  assumes "budget_readline bound h = (x, h1)" "hb_remaining h = Some m" "0 \<le> m"
  shows "\<exists>l. hb_rest h = l @ hb_rest h1 \<and> hb_remaining h1 = Some (m - int (length l)) \<and> int (length l) \<le> m + 1
    \<and> (case x of Inr l' \<Rightarrow> l' = l \<and> int (length l) \<le> m | Inl e \<Rightarrow> e = Reject 431 ''HEADER_LIMIT'' \<and> int (length l) = m + 1)"
proof -
  let ?size = "if 0 \<le> bound then min (m + 1) bound else m + 1"
  obtain l r where l: "stream_readline ?size (hb_rest h) = (l, r)" by fastforce
  have "0 \<le> ?size" "?size \<le> m + 1" using assms(3) by auto
  with stream_readline_split [OF l] have "hb_rest h = l @ r" "int (length l) \<le> m + 1" by linarith+
  with assms l show ?thesis by (auto simp: budget_readline_def Let_def split: if_splits)
qed

lemma read_lines_bounded:
  "read_lines bounds h = (x, h1) \<Longrightarrow> hb_remaining h = Some m \<Longrightarrow> 0 \<le> m \<Longrightarrow>
     \<exists>used. hb_rest h = used @ hb_rest h1 \<and> (case x of Inr ls \<Rightarrow> concat ls = used \<and> int (length used) \<le> m
       | Inl e \<Rightarrow> e = Reject 431 ''HEADER_LIMIT'' \<and> int (length used) = m + 1)"
proof (induction bounds arbitrary: h h1 m x)
  case Nil
  then show ?case by auto
next
  case (Cons bound bounds)
  obtain y h2 where y: "budget_readline bound h = (y, h2)" by fastforce
  from budget_step [OF y Cons.prems(2,3)] obtain l where l: "hb_rest h = l @ hb_rest h2" "hb_remaining h2 = Some (m - int (length l))"
    "case y of Inr l' \<Rightarrow> l' = l \<and> int (length l) \<le> m | Inl e \<Rightarrow> e = Reject 431 ''HEADER_LIMIT'' \<and> int (length l) = m + 1" by blast
  show ?case
  proof (cases y)
    case (Inl e)
    with Cons.prems(1) y l show ?thesis by auto
  next
    case (Inr l')
    obtain z h3 where z: "read_lines bounds h2 = (z, h3)" by fastforce
    from Inr l have "0 \<le> m - int (length l)" by simp
    from Cons.IH [OF z l(2) this] Cons.prems(1) y z Inr l show ?thesis by (auto split: sum.splits)
  qed
qed

text \<open>
  The header phase is bounded. However the standard library's parser asks for the lines of a header,
  either all of them are handed out, and together they are at most 32768 bytes of the stream, from its
  start; or one is refused with status 431, and then exactly one byte more has been read.
\<close>

theorem header_phase_bounded:
  "case read_lines bounds (header_start t) of
     (Inr ls, h) \<Rightarrow> t = concat ls @ hb_rest h \<and> length (concat ls) \<le> 32768
   | (Inl e, h) \<Rightarrow> e = Reject 431 ''HEADER_LIMIT'' \<and> length t = 32769 + length (hb_rest h)"
proof -
  obtain x h where x: "read_lines bounds (header_start t) = (x, h)" by fastforce
  from read_lines_bounded [OF x, of "int MAX_HEADER_BYTES"] x show ?thesis
    by (auto simp: header_start_def MAX_HEADER_BYTES_def split: sum.splits)
qed

section \<open>What an admitted body means\<close>

definition hooks_agree :: "hooks \<Rightarrow> hooks \<Rightarrow> bool" where
  "hooks_agree h g \<longleftrightarrow> (\<forall>t j. h_float h t = Inr j \<longrightarrow> h_float g t = Inr j) \<and> (\<forall>t j. h_const h t = Inr j \<longrightarrow> h_const g t = Inr j)
     \<and> (\<forall>d j. h_object h d = Inr j \<longrightarrow> h_object g d = Inr j)"

lemma decode_agree:
  "hooks_agree h g \<Longrightarrow> decode h r = Inr j \<Longrightarrow> decode g r = Inr j"
  "hooks_agree h g \<Longrightarrow> decode_list h rs = Inr js \<Longrightarrow> decode_list g rs = Inr js"
  "hooks_agree h g \<Longrightarrow> decode_items h d = Inr ps \<Longrightarrow> decode_items g d = Inr ps"
  by (induction h r and h rs and h d arbitrary: j and js and ps rule: decode_decode_list_decode_items.induct)
    (auto simp: bindE_Inr_iff hooks_agree_def)

lemma forge_float_Inr: "forge_float z t = Inr j \<Longrightarrow> plain_float z t = Inr j \<and> (\<exists>q. j = JFloat (Fin q))"
  by (cases "plain_float z t") (auto simp: forge_float_def split: if_splits json.splits pyfloat.splits)

lemma forge_hooks_facts:
  "hooks_agree (forge_hooks z) (plain_hooks z)" "strict_hooks (forge_hooks z)" "finite_hooks (forge_hooks z)"
proof -
  have obj: "unique_object e d = Inr j \<Longrightarrow> plain_object d = Inr j" for e d j
    by (auto simp: unique_object_def plain_object_def Let_def split: if_splits)
  show "hooks_agree (forge_hooks z) (plain_hooks z)"
    by (auto simp: hooks_agree_def forge_hooks_def plain_hooks_def dest: forge_float_Inr obj)
  show "strict_hooks (forge_hooks z)"
    by (auto simp: strict_hooks_def forge_hooks_def scalar_def dest: forge_float_Inr)
  show "finite_hooks (forge_hooks z)"
    by (auto simp: finite_hooks_def forge_hooks_def unique_object_iff dest: forge_float_Inr)
qed



section \<open>What a relayed response means\<close>

text \<open>A reader of the chunked coding: the size, a line end, that many bytes, a line end.\<close>

definition size_of :: "string \<Rightarrow> nat" where
  "size_of t = foldl (\<lambda>n c. 16 * n + the (hex_val c)) 0 t"

function unchunk :: "string \<Rightarrow> string option" where
  "unchunk t =
     (let (size, found, rest) = partition_at (CHR 0x0D) t; n = size_of size; body = tl rest in
      if \<not> found \<or> size = [] \<or> None \<in> hex_val ` set size \<or> take 1 rest \<noteq> [CHR 0x0A] then None
      else if n = 0 then (if body = crlf then Some [] else None)
      else if take 2 (drop n body) \<noteq> crlf then None
      else map_option (\<lambda>more_bytes. take n body @ more_bytes) (unchunk (drop (n + 2) body)))"
  by pat_completeness auto

lemma partition_at_join: "partition_at c t = (a, True, b) \<Longrightarrow> t = a @ c # b"
  using find_sub_join [of "[c]" t] by (auto simp: partition_at_def split: option.splits)

termination unchunk
proof (relation "measure length", goal_cases)
  case 1
  then show ?case by simp
next
  case (2 t x size y found rest n body)
  then have t: "partition_at (CHR 0x0D) t = (size, True, rest)" by (metis (full_types))
  from partition_at_join [OF this] 2 show ?case by simp
qed

declare unchunk.simps [simp del]

lemma find_sub_no: "c \<notin> set a \<Longrightarrow> find_sub [c] (a @ c # b) = Some (a, b)"
  by (induction a) (auto simp: startswith_def)

lemma hex_digit_val: "n < 16 \<Longrightarrow> hex_val (hex_digit n) = Some n"
  by (cases "n < 10") (auto simp: hex_digit_def hex_val_def ascii_digit_def digit_val_def Let_def)

lemma show_hex_digits: "c \<in> set (show_hex n) \<Longrightarrow> \<exists>m < 16. c = hex_digit m"
proof (induction n rule: show_hex.induct)
  case (1 n)
  from 1(2) have "(n < 16 \<and> c = hex_digit n) \<or> (\<not> n < 16 \<and> c \<in> set (show_hex (n div 16))) \<or> c = hex_digit (n mod 16)"
    by (subst (asm) show_hex.simps) (auto split: if_splits)
  moreover have "n mod 16 < 16" by simp
  ultimately show ?case using 1(1) by blast
qed

lemma size_of_show_hex: "size_of (show_hex n) = n"
proof (induction n rule: show_hex.induct)
  case (1 n)
  show ?case
  proof (cases "n < 16")
    case True
    then show ?thesis by (simp add: show_hex.simps [of n] size_of_def hex_digit_val)
  next
    case False
    have "size_of (show_hex n) = 16 * size_of (show_hex (n div 16)) + n mod 16"
      using False hex_digit_val [of "n mod 16"] by (simp add: show_hex.simps [of n] size_of_def)
    with 1 False show ?thesis by simp
  qed
qed

lemma show_hex_facts: "show_hex n \<noteq> []" "CHR 0x0D \<notin> set (show_hex n)" "None \<notin> hex_val ` set (show_hex n)"
proof -
  show "show_hex n \<noteq> []" by (subst show_hex.simps) simp
  have "\<forall>m \<in> set [0..<16]. hex_digit m \<noteq> CHR 0x0D" by code_simp
  then show "CHR 0x0D \<notin> set (show_hex n)" by (auto dest!: show_hex_digits)
  show "None \<notin> hex_val ` set (show_hex n)" by (auto dest!: show_hex_digits simp: hex_digit_val)
qed

lemma unchunk_piece:
  assumes "b \<noteq> []"
  shows "unchunk (wire (Piece b # ss)) = map_option (\<lambda>m. b @ m) (unchunk (wire ss))"
proof -
  have "partition_at (CHR 0x0D) (wire (Piece b # ss)) = (show_hex (length b), True, CHR 0x0A # b @ crlf @ wire ss)"
    using find_sub_no [OF show_hex_facts(2)] by (simp add: crlf_def partition_at_def)
  then show ?thesis
    using assms show_hex_facts(1,3) [of "length b"]
    by (subst unchunk.simps) (simp add: size_of_show_hex crlf_def)
qed

lemma unchunk_last: "unchunk (wire [LastPiece]) = Some []"
  by code_simp

definition until_end :: "string list \<Rightarrow> string" where
  "until_end blocks = concat (takeWhile (\<lambda>b. b \<noteq> []) blocks)"

lemma read_some_until:
  assumes "read_some n blocks = (block, rest)" "0 < n"
  shows "block \<noteq> [] \<Longrightarrow> until_end blocks = block @ until_end rest" "block = [] \<Longrightarrow> until_end blocks = []"
  using assms by (cases blocks; auto simp: until_end_def split: if_splits)+

lemma relay_loop_sound:
  "relay_loop expected total_bytes broken blocks = (pieces, None) \<Longrightarrow> total_bytes \<le> MAX_RELAY_BYTES \<Longrightarrow>
     unchunk (wire pieces) = Some (until_end blocks) \<and> total_bytes + length (until_end blocks) \<le> MAX_RELAY_BYTES
     \<and> expected \<in> {None, Some (total_bytes + length (until_end blocks))}"
proof (induction expected total_bytes broken blocks arbitrary: pieces rule: relay_loop.induct)
  case (1 expected total_bytes broken blocks)
  obtain block rest where r: "read_some (min 8192 (MAX_RELAY_BYTES - total_bytes + 1)) blocks = (block, rest)" by fastforce
  note cases = 1(2) [unfolded relay_loop.simps [of expected total_bytes] Let_def r prod.case]
  show ?case
  proof (cases "block = []")
    case True
    with cases 1(3) read_some_until(2) [OF r] unchunk_last show ?thesis by (auto split: if_splits)
  next
    case False
    obtain ps e where ps: "relay_loop expected (total_bytes + length block) broken rest = (ps, e)" by fastforce
    with cases False have le: "total_bytes + length block \<le> MAX_RELAY_BYTES" and p: "pieces = Piece block # ps" "e = None"
      by (auto split: if_splits)
    have "\<not> (blocks = [] \<and> broken)" using cases by (auto split: if_splits)
    from 1(1) [OF this refl r [symmetric] False refl _ _ le] le ps p(2)
    have "unchunk (wire ps) = Some (until_end rest) \<and> total_bytes + length block + length (until_end rest) \<le> MAX_RELAY_BYTES
      \<and> expected \<in> {None, Some (total_bytes + length block + length (until_end rest))}" by simp
    with False p read_some_until(1) [OF r] unchunk_piece show ?thesis by auto
  qed
qed

text \<open>
  C32. A relayed response is the worker's. If the relay of an answer ends without an error, then the answer
  had a success status with content and one of the three media types, uncompressed; the client was sent
  that status and media type; and unless it asked for the head only, the chunks that follow decode to
  exactly the bytes that the worker sent, at most 8 MiB, and as many as the worker declared if it did.
\<close>

theorem relayed_response_faithful:
  assumes "relay command a = (out, None)"
  shows "200 \<le> ua_status a \<and> ua_status a < 300 \<and> ua_status a \<notin> {204, 205, 206} \<and> get_all (ua_headers a) ''Content-Encoding'' = []
    \<and> (\<exists>media pieces. get_all (ua_headers a) ''Content-Type'' = [media] \<and> media_ok (Some media)
        \<and> out = ResponseHead (ua_status a) media (command \<noteq> ''HEAD'') # pieces
        \<and> (if command = ''HEAD'' then pieces = []
            else unchunk (wire pieces) = Some (until_end (ua_blocks a)) \<and> length (until_end (ua_blocks a)) \<le> 8388608
              \<and> (\<forall>t \<in> set (get_all (ua_headers a) ''Content-Length''). digits_val t = length (until_end (ua_blocks a)))))"
proof -
  from assms obtain media expected where h: "relay_head a = Inr (media, expected)"
    by (auto simp: relay_def split: sum.splits)
  have one: "upstream_header hs n = Inr v \<Longrightarrow> get_all hs n = (case v of None \<Rightarrow> [] | Some t \<Rightarrow> [t])" for hs n v
    by (auto simp: upstream_header_def one_header_def split: list.splits)
  from h obtain declared where d: "200 \<le> ua_status a" "ua_status a < 300" "ua_status a \<notin> {204, 205, 206}"
    "get_all (ua_headers a) ''Content-Encoding'' = []" "get_all (ua_headers a) ''Content-Type'' = [media]" "media_ok (Some media)"
    "upstream_header (ua_headers a) ''Content-Length'' = Inr declared" "expected = map_option digits_val declared"
    by (auto simp: relay_head_def bindE_Inr_iff upstream_error_def media_ok_def [of None] dest!: one split: if_splits option.splits)
  show ?thesis
  proof (cases "command = ''HEAD''")
    case True
    with assms h d show ?thesis by (auto simp: relay_def)
  next
    case False
    obtain ps e where p: "relay_loop expected 0 (ua_broken a) (ua_blocks a) = (ps, e)" by fastforce
    with assms h False have "e = None" "out = ResponseHead (ua_status a) media True # ps" by (auto simp: relay_def)
    with p relay_loop_sound [of expected 0 "ua_broken a" "ua_blocks a" ps] d one [OF d(7)] False show ?thesis
      by (auto simp: MAX_RELAY_BYTES_def split: option.splits)
  qed
qed

definition small_answer :: worker_answer where
  "small_answer = \<lparr>ua_status = 200, ua_headers = [(''content-type'', ''application/json''), (''Content-Length'', ''2'')],
     ua_blocks = [''{}'', []], ua_broken = False\<rparr>"

lemma small_answer_relayed:
  "relay ''POST'' small_answer = ([ResponseHead 200 ''application/json'' True, Piece ''{}'', LastPiece], None)"
proof -
  have h: "get_all (ua_headers small_answer) ''Content-Type'' = [''application/json'']"
    "get_all (ua_headers small_answer) ''Content-Length'' = [''2'']" "get_all (ua_headers small_answer) ''Transfer-Encoding'' = []"
    "get_all (ua_headers small_answer) ''Content-Encoding'' = []" "short_digits ''2''" "digits_val ''2'' = 2"
    "media_ok (Some ''application/json'')" by code_simp+
  then have "relay_head small_answer = Inr (''application/json'', Some 2)"
    by (simp add: relay_head_def upstream_header_def one_header_def MAX_RELAY_BYTES_def) (simp add: small_answer_def)
  moreover have "relay_loop (Some 2) 0 False [''{}'', []] = ([Piece ''{}'', LastPiece], None)"
    by (simp add: relay_loop.simps [of _ _ _ "_ # _"] MAX_RELAY_BYTES_def)
  ultimately show ?thesis by (simp add: relay_def) (simp add: small_answer_def)
qed

theorem relayed_response_faithful_witness:
  "\<exists>pieces. relay ''POST'' small_answer = (ResponseHead 200 ''application/json'' True # pieces, None)
     \<and> unchunk (wire pieces) = Some (until_end (ua_blocks small_answer))"
proof -
  from relayed_response_faithful [OF small_answer_relayed] small_answer_relayed
  show ?thesis by (auto simp: small_answer_def)
qed

end
