(* ===== verification/ForgeProxy.thy ===== *)
theory ForgeProxy
  imports ForgeMesh "HOL-Library.Multiset"
begin

text \<open>
  \<open>examples/forge-mesh-router.py\<close>, the attempts of one request and the server's threads. One request is
  a function of its environment (\<open>serve\<close>). The threads of the server interleave between the critical
  sections of \<open>lock\<close> and of the client slots: \<open>thread_step\<close> is a step of one request, \<open>forge_step\<close> one
  of the server. The wall clock of a phase shows in what fails with \<open>TimeoutError\<close>.

  The lemmas: a request is sent to at most one worker, once; the counters are what the threads hold; the
  server never runs more than its clients; \<open>serve\<close> is a path of the steps.
\<close>

section \<open>Choosing a worker\<close>

datatype backend = Dgpu | Igpu

type_synonym inflight = "backend \<Rightarrow> nat"

definition pick_backend :: "inflight \<Rightarrow> string \<Rightarrow> backend \<times> backend" where
  "pick_backend n path =
     (if fst (partition_at (CHR ''?'') path) \<in> set EMBED_PATHS then (Igpu, Dgpu)
      else if n Dgpu \<le> n Igpu then (Dgpu, Igpu) else (Igpu, Dgpu))"

definition label_of :: "backend \<Rightarrow> string" where
  "label_of b = (if b = Dgpu then ''dgpu'' else ''igpu'')"

section \<open>One request\<close>

text \<open>
  An attempt fails before a byte of the request is out, fails after that, has a header beyond the limit,
  or is answered.
\<close>

datatype attempt = NotConnected | NoAnswer | HeaderTooLong | Answers worker_answer

record forge_env =
  fe_header_late :: bool              \<comment> \<open>the header phase has run out of time\<close>
  fe_request :: forge_request
  fe_late :: "nat \<Rightarrow> bool"            \<comment> \<open>the deadline has passed when attempt \<open>k\<close> begins\<close>
  fe_attempt :: "nat \<Rightarrow> attempt"

record forge_state =
  fs_inflight :: inflight
  fs_tries :: "(backend \<times> bool) list"   \<comment> \<open>the workers tried, and whether the request was dispatched\<close>
  fs_out :: "sent list"                  \<comment> \<open>what the client is sent\<close>

definition error_json :: "string \<Rightarrow> jdict" where
  "error_json code = [(''error'', JStr code)]"

text \<open>\<open>_send_json\<close>: nothing once the headers are out.\<close>

definition send_error :: "int \<Rightarrow> jdict \<Rightarrow> sent list \<Rightarrow> sent list" where
  "send_error status body out = (if out = [] then [ErrorJson status body] else out)"

definition dispatched :: "attempt \<Rightarrow> bool" where
  "dispatched a = (a \<noteq> NotConnected)"

definition attempt_result :: "string \<Rightarrow> attempt \<Rightarrow> sent list \<times> forge_error option" where
  "attempt_result command a = (case a of
     NotConnected \<Rightarrow> ([], Some Broken)
   | NoAnswer \<Rightarrow> ([], Some Broken)
   | HeaderTooLong \<Rightarrow> ([], Some (upstream_error ''UPSTREAM_HEADER_LIMIT''))
   | Answers answer \<Rightarrow> relay command answer)"

definition attempts_json :: "(backend \<times> bool) list \<Rightarrow> json" where
  "attempts_json tries = JArr (map (\<lambda>(b, d). JStr (label_of b @ '':'' @ (if d then ''OUTCOME_UNKNOWN'' else ''CONNECT_FAILED''))) tries)"

definition failure_out :: "forge_error \<Rightarrow> (backend \<times> bool) list \<Rightarrow> sent list \<Rightarrow> sent list" where
  "failure_out e tries out = (case e of
     Reject status code \<Rightarrow> send_error status (error_json code @ [(''attempts'', attempts_json tries)]) out
   | _ \<Rightarrow> send_error 502 (error_json ''UPSTREAM_UNAVAILABLE_OR_INCOMPLETE'' @ [(''attempts'', attempts_json tries)]) out)"

definition incomplete :: "sent list \<Rightarrow> sent list" where
  "incomplete out = send_error 408 (error_json ''REQUEST_INCOMPLETE'') out"

text \<open>
  One round of the loop on worker \<open>b\<close>: the counter is raised and, in the end, lowered. \<open>True\<close> says that
  the next worker may be tried.
\<close>

definition enter_backend :: "backend \<Rightarrow> inflight \<Rightarrow> inflight" where
  "enter_backend b n = n(b := n b + 1)"

definition leave_backend :: "backend \<Rightarrow> inflight \<Rightarrow> inflight" where
  "leave_backend b n = n(b := n b - 1)"

definition try_backend :: "forge_env \<Rightarrow> nat \<Rightarrow> backend \<Rightarrow> forge_state \<Rightarrow> bool \<times> forge_state" where
  "try_backend env i b st =
     (let n = enter_backend b (fs_inflight st); a = fe_attempt env i;
          (out, e) = attempt_result (rq_command (fe_request env)) a;
          tries = fs_tries st @ [(b, dispatched a)]; st1 = st\<lparr>fs_inflight := leave_backend b n, fs_tries := tries\<rparr>
      in case e of
        None \<Rightarrow> (False, st1\<lparr>fs_out := out\<rparr>)
      | Some x \<Rightarrow> if \<not> dispatched a \<and> i = 0 then (True, st1) else (False, st1\<lparr>fs_out := failure_out x tries out\<rparr>))"

definition attempts :: "forge_env \<Rightarrow> forge_state \<Rightarrow> forge_state" where
  "attempts env st =
     (if fe_late env 0 then st\<lparr>fs_out := incomplete (fs_out st)\<rparr>
      else let (backend, fallback) = pick_backend (fs_inflight st) (rq_path (fe_request env));
               (again, st1) = try_backend env 0 backend st
        in if \<not> again then st1
           else if fe_late env 1 then st1\<lparr>fs_out := incomplete (fs_out st1)\<rparr>
           else snd (try_backend env 1 fallback st1))"

definition mesh_status :: "inflight \<Rightarrow> sent" where
  "mesh_status n = StatusJson [(''mesh'', JStr ''forge-dual-gpu''), (''scope'', JStr ''LOOPBACK_REFERENCE''),
     (''inflight'', JObj [(''dgpu'', JInt (int (n Dgpu))), (''igpu'', JInt (int (n Igpu)))]),
     (''worker_health'', JStr ''NOT_PROBED''), (''execution_authority'', JStr ''NONE'')]"

text \<open>\<open>_proxy\<close>. An exception that no handler takes ends the thread without an answer.\<close>

definition serve :: "sys \<Rightarrow> scanner \<Rightarrow> string \<Rightarrow> forge_env \<Rightarrow> inflight \<Rightarrow> forge_state" where
  "serve z scan server env n =
     (let st = \<lparr>fs_inflight = n, fs_tries = [], fs_out = []\<rparr> in
      if fe_header_late env then st
      else case request_body z scan server (fe_request env) of
        Inl (Reject status code) \<Rightarrow> st\<lparr>fs_out := send_error status (error_json code) []\<rparr>
      | Inl Broken \<Rightarrow> st\<lparr>fs_out := incomplete []\<rparr>
      | Inl (Crash e) \<Rightarrow> st
      | Inr body \<Rightarrow> if rq_path (fe_request env) = ''/mesh/status'' then st\<lparr>fs_out := [mesh_status n]\<rparr> else attempts env st)"

section \<open>The server\<close>

text \<open>What a request is doing. \<open>Trying\<close> and \<open>Leaving\<close> carry the worker that may be tried next.\<close>

datatype phase =
    Reading
  | Ready string
  | Retrying backend
  | Trying backend "backend option"
  | Waiting backend
  | Leaving backend "backend option"
  | Over

record thread =
  th_phase :: phase
  th_tries :: "(backend \<times> bool) list"

definition MAX_CLIENTS :: nat where "MAX_CLIENTS = 8"

record forge =
  fg_slots :: nat
  fg_inflight :: inflight
  fg_live :: "thread multiset"

inductive thread_step :: "sys \<Rightarrow> scanner \<Rightarrow> string \<Rightarrow> inflight \<Rightarrow> thread \<Rightarrow> inflight \<Rightarrow> thread \<Rightarrow> bool"
  for z :: sys and scan :: scanner and server :: string where
  admitted: "request_body z scan server rq = Inr body \<Longrightarrow> rq_path rq \<noteq> ''/mesh/status'' \<Longrightarrow>
    thread_step z scan server n \<lparr>th_phase = Reading, th_tries = ts\<rparr> n \<lparr>th_phase = Ready (rq_path rq), th_tries = ts\<rparr>"
| answered_here: "thread_step z scan server n \<lparr>th_phase = Reading, th_tries = ts\<rparr> n \<lparr>th_phase = Over, th_tries = ts\<rparr>"
| late: "thread_step z scan server n \<lparr>th_phase = Ready p, th_tries = ts\<rparr> n \<lparr>th_phase = Over, th_tries = ts\<rparr>"
| picked: "pick_backend n p = (b, f) \<Longrightarrow>
    thread_step z scan server n \<lparr>th_phase = Ready p, th_tries = ts\<rparr> (enter_backend b n) \<lparr>th_phase = Trying b (Some f), th_tries = ts\<rparr>"
| late_again: "thread_step z scan server n \<lparr>th_phase = Retrying f, th_tries = ts\<rparr> n \<lparr>th_phase = Over, th_tries = ts\<rparr>"
| fell_back: "thread_step z scan server n \<lparr>th_phase = Retrying f, th_tries = ts\<rparr> (enter_backend f n) \<lparr>th_phase = Trying f None, th_tries = ts\<rparr>"
| unconnected: "thread_step z scan server n \<lparr>th_phase = Trying b r, th_tries = ts\<rparr> n \<lparr>th_phase = Leaving b r, th_tries = ts @ [(b, False)]\<rparr>"
| sent_out: "thread_step z scan server n \<lparr>th_phase = Trying b r, th_tries = ts\<rparr> n \<lparr>th_phase = Waiting b, th_tries = ts @ [(b, True)]\<rparr>"
| ended: "thread_step z scan server n \<lparr>th_phase = Waiting b, th_tries = ts\<rparr> n \<lparr>th_phase = Leaving b None, th_tries = ts\<rparr>"
| left: "thread_step z scan server n \<lparr>th_phase = Leaving b None, th_tries = ts\<rparr> (leave_backend b n) \<lparr>th_phase = Over, th_tries = ts\<rparr>"
| left_to_retry: "thread_step z scan server n \<lparr>th_phase = Leaving b (Some f), th_tries = ts\<rparr> (leave_backend b n) \<lparr>th_phase = Retrying f, th_tries = ts\<rparr>"

inductive forge_step :: "sys \<Rightarrow> scanner \<Rightarrow> string \<Rightarrow> forge \<Rightarrow> forge \<Rightarrow> bool"
  for z :: sys and scan :: scanner and server :: string where
  accepted: "forge_step z scan server \<lparr>fg_slots = Suc k, fg_inflight = n, fg_live = M\<rparr>
    \<lparr>fg_slots = k, fg_inflight = n, fg_live = add_mset \<lparr>th_phase = Reading, th_tries = []\<rparr> M\<rparr>"
| moved: "thread_step z scan server n t n' t' \<Longrightarrow>
    forge_step z scan server \<lparr>fg_slots = k, fg_inflight = n, fg_live = add_mset t M\<rparr>
      \<lparr>fg_slots = k, fg_inflight = n', fg_live = add_mset t' M\<rparr>"
| released: "th_phase t = Over \<Longrightarrow>
    forge_step z scan server \<lparr>fg_slots = k, fg_inflight = n, fg_live = add_mset t M\<rparr>
      \<lparr>fg_slots = Suc k, fg_inflight = n, fg_live = M\<rparr>"

definition forge_start :: forge where
  "forge_start = \<lparr>fg_slots = MAX_CLIENTS, fg_inflight = (\<lambda>_. 0), fg_live = {#}\<rparr>"

definition forge_reach :: "sys \<Rightarrow> scanner \<Rightarrow> string \<Rightarrow> forge \<Rightarrow> bool" where
  "forge_reach z scan server g \<longleftrightarrow> (forge_step z scan server)\<^sup>*\<^sup>* forge_start g"

section \<open>One dispatch\<close>

text \<open>The workers a request may have tried: a second one only after a first that was not connected.\<close>

definition tries_ok :: "(backend \<times> bool) list \<Rightarrow> bool" where
  "tries_ok ts \<longleftrightarrow> ts = [] \<or> (\<exists>b d. ts = [(b, d)]) \<or> (\<exists>b c d. ts = [(b, False), (c, d)] \<and> b \<noteq> c)"

lemma tries_ok_dispatch: "tries_ok ts \<Longrightarrow> length (filter snd ts) \<le> 1 \<and> length ts \<le> 2"
  by (auto simp: tries_ok_def)

lemma pick_differs: "pick_backend n p = (b, f) \<Longrightarrow> b \<noteq> f"
  by (auto simp: pick_backend_def split: if_splits)

lemma worker_entered_left [simp]: "leave_backend b (enter_backend b n) = n"
  by (simp add: leave_backend_def enter_backend_def)

lemma try_backend_facts:
  assumes "try_backend env i b st = (again, st1)"
  shows "fs_inflight st1 = fs_inflight st" "fs_tries st1 = fs_tries st @ [(b, dispatched (fe_attempt env i))]"
    "again \<Longrightarrow> \<not> dispatched (fe_attempt env i)" "\<not> again \<Longrightarrow> fs_out st1 \<noteq> []"
proof -
  have out: "attempt_result c a = (out, None) \<Longrightarrow> out \<noteq> []" for c a out
    by (auto simp: attempt_result_def relay_def split: attempt.splits sum.splits prod.splits if_splits)
  have fail: "failure_out e ts out \<noteq> []" for e ts out
    by (simp add: failure_out_def send_error_def split: forge_error.split)
  show "fs_inflight st1 = fs_inflight st" "fs_tries st1 = fs_tries st @ [(b, dispatched (fe_attempt env i))]"
    "again \<Longrightarrow> \<not> dispatched (fe_attempt env i)" "\<not> again \<Longrightarrow> fs_out st1 \<noteq> []"
    using assms out fail
    by (auto simp: try_backend_def Let_def split: prod.splits option.splits if_splits)
qed

text \<open>
  C29. No request is replayed. Whatever the client sends and the workers do, the proxy tries at most two
  workers, the second only after it could not connect to the first, and it sends the request to at most
  one of them, once; the counters of requests in flight are what they were before; a request that is
  refused reaches no worker; and unless the header ran out of time or an exception escaped, the client
  is answered.
\<close>

theorem no_request_replayed:
  "let st = serve z scan server env n; admission = request_body z scan server (fe_request env) in
     tries_ok (fs_tries st) \<and> length (filter snd (fs_tries st)) \<le> 1 \<and> fs_inflight st = n
     \<and> (fs_tries st = [] \<or> (\<exists>body. admission = Inr body)) \<and> (fs_out st \<noteq> [] \<or> fe_header_late env \<or> (\<exists>e. admission = Inl (Crash e)))"
proof -
  let ?st = "\<lparr>fs_inflight = n, fs_tries = [], fs_out = []\<rparr>"
  have sent: "incomplete out \<noteq> []" "send_error c b out \<noteq> []" for c b out by (simp_all add: incomplete_def send_error_def)
  have a: "tries_ok (fs_tries (attempts env ?st)) \<and> fs_inflight (attempts env ?st) = n \<and> fs_out (attempts env ?st) \<noteq> []"
  proof (cases "fe_late env 0")
    case True
    with sent show ?thesis by (simp add: attempts_def tries_ok_def)
  next
    case False
    obtain b f where p: "pick_backend n (rq_path (fe_request env)) = (b, f)" by fastforce
    obtain again st1 where t: "try_backend env 0 b ?st = (again, st1)" by fastforce
    obtain again2 st2 where t2: "try_backend env 1 f st1 = (again2, st2)" by fastforce
    have "\<not> again2" using t2 by (auto simp: try_backend_def Let_def split: prod.splits option.splits if_splits)
    with try_backend_facts [OF t] try_backend_facts [OF t2] False p t t2 pick_differs [OF p] sent show ?thesis
      by (cases again) (auto simp: attempts_def tries_ok_def)
  qed
  then show ?thesis
    using sent tries_ok_dispatch
    by (auto simp: serve_def Let_def tries_ok_def [of "[]"] split: sum.split forge_error.split)
qed

definition small_post :: forge_request where
  "small_post = \<lparr>rq_command = ''POST'', rq_path = ''/api/chat'', rq_version = ''HTTP/1.1'', rq_raw = ''POST /api/chat HTTP/1.1'',
     rq_headers = [(''Host'', ''h''), (''Content-Length'', ''2''), (''Content-Type'', ''application/json'')],
     rq_blocks = [''{}''], rq_broken = False, rq_expired = False\<rparr>"

definition small_forge :: forge_env where
  "small_forge = \<lparr>fe_header_late = False, fe_request = small_post, fe_late = (\<lambda>_. False),
     fe_attempt = (\<lambda>k. if k = 0 then NotConnected else Answers small_answer)\<rparr>"

definition small_forge_scan :: scanner where
  "small_forge_scan = (\<lambda>_. Inr (RObj [(''model'', RStr ''m'')]))"

lemma small_post_admitted: "request_body small_sys small_forge_scan ''h'' small_post = Inr (Some ''{}'')"
proof -
  have "one_header (rq_headers small_post) ''Host'' = Inr (Some ''h'')" by code_simp
  moreover have "\<not> list_ex (\<lambda>n. get_all (rq_headers small_post) n \<noteq> []) FORBIDDEN_HEADERS"
    by (simp add: FORBIDDEN_HEADERS_def get_all_def small_post_def lower_def lower_char_def)
  moreover have "byte_words (rq_raw small_post) = [''POST'', ''/api/chat'', ''HTTP/1.1'']" by code_simp
  ultimately have l: "admit_line ''h'' small_post = Inr ()"
    by (simp add: admit_line_def) (simp add: small_post_def allowed_paths_def POST_PATHS_def EMBED_PATHS_def)
  have c: "forge_content_length (rq_headers small_post) MAX_BODY_BYTES True = Inr 2"
  proof -
    have "get_all (rq_headers small_post) ''Transfer-Encoding'' = []" "get_all (rq_headers small_post) ''Content-Encoding'' = []"
      "one_header (rq_headers small_post) ''Content-Length'' = Inr (Some ''2'')" "short_digits ''2''" "digits_val ''2'' = 2" by code_simp+
    then show ?thesis by (simp add: forge_content_length_def MAX_BODY_BYTES_def)
  qed
  have m: "one_header (rq_headers small_post) ''Content-Type'' = Inr (Some ''application/json'')" by code_simp
  have v: "validate_body small_sys small_forge_scan ''{}'' = Inr ()" by code_simp
  have r: "read_exactly 2 False [''{}''] = Inr ''{}''" by (simp add: read_exactly.simps)
  have f: "rq_command small_post = ''POST''" "rq_expired small_post = False" "rq_broken small_post = False" "rq_blocks small_post = [''{}'']"
    by (simp_all add: small_post_def)
  show ?thesis by (simp add: request_body_def l f c [simplified] c m r v)
qed

theorem no_request_replayed_witness:
  "let st = serve small_sys small_forge_scan ''h'' small_forge (\<lambda>_. 0) in
     tries_ok (fs_tries st) \<and> fs_tries st = [(Dgpu, False), (Igpu, True)] \<and> fs_out st \<noteq> []"
proof -
  have "fe_request small_forge = small_post" "\<not> fe_header_late small_forge" by (simp_all add: small_forge_def)
  moreover have "rq_path small_post \<noteq> ''/mesh/status''" by (simp add: small_post_def)
  moreover have "pick_backend (\<lambda>_. 0) (rq_path small_post) = (Dgpu, Igpu)" by code_simp
  then have "fs_tries (attempts small_forge \<lparr>fs_inflight = \<lambda>_. 0, fs_tries = [], fs_out = []\<rparr>) = [(Dgpu, False), (Igpu, True)]"
    by (simp add: attempts_def small_forge_def try_backend_def Let_def dispatched_def attempt_result_def split: prod.split option.split)
  ultimately have t: "fs_tries (serve small_sys small_forge_scan ''h'' small_forge (\<lambda>_. 0)) = [(Dgpu, False), (Igpu, True)]"
    using small_post_admitted by (simp add: serve_def Let_def)
  show ?thesis
    using no_request_replayed [of small_sys small_forge_scan "''h''" small_forge "\<lambda>_. 0"] t small_post_admitted
    by (simp add: Let_def small_forge_def)
qed

section \<open>Threads\<close>

definition holds :: "backend \<Rightarrow> thread \<Rightarrow> bool" where
  "holds b t \<longleftrightarrow> (case th_phase t of Trying c _ \<Rightarrow> c = b | Waiting c \<Rightarrow> c = b | Leaving c _ \<Rightarrow> c = b | _ \<Rightarrow> False)"

text \<open>How far a request has come, and what it has tried.\<close>

definition thread_ok :: "thread \<Rightarrow> bool" where
  "thread_ok t \<longleftrightarrow> tries_ok (th_tries t) \<and> (case th_phase t of
     Reading \<Rightarrow> th_tries t = [] | Ready _ \<Rightarrow> th_tries t = []
   | Trying b (Some f) \<Rightarrow> th_tries t = [] \<and> b \<noteq> f
   | Leaving b (Some f) \<Rightarrow> th_tries t = [(b, False)] \<and> b \<noteq> f
   | Retrying f \<Rightarrow> (\<exists>b. th_tries t = [(b, False)] \<and> b \<noteq> f)
   | Trying f None \<Rightarrow> (\<exists>b. th_tries t = [(b, False)] \<and> b \<noteq> f)
   | _ \<Rightarrow> True)"

definition held :: "backend \<Rightarrow> thread multiset \<Rightarrow> nat" where
  "held b M = size (filter_mset (holds b) M)"

definition forge_ok :: "forge \<Rightarrow> bool" where
  "forge_ok g \<longleftrightarrow> fg_slots g + size (fg_live g) = MAX_CLIENTS \<and> (\<forall>b. fg_inflight g b = held b (fg_live g))
     \<and> (\<forall>t \<in># fg_live g. thread_ok t)"

lemma held_add: "held b (add_mset t M) = held b M + (if holds b t then 1 else 0)"
  by (simp add: held_def)

lemma thread_step_ok:
  assumes "thread_step z scan server n t n' t'" "thread_ok t" "\<And>b. holds b t \<Longrightarrow> 0 < n b"
  shows "thread_ok t' \<and> n' b + (if holds b t then 1 else 0) = n b + (if holds b t' then 1 else 0)"
  using assms
  by (cases rule: thread_step.cases)
    (auto simp: thread_ok_def holds_def tries_ok_def enter_backend_def leave_backend_def dest: pick_differs split: option.splits)

lemma forge_step_ok:
  assumes "forge_step z scan server g g'" "forge_ok g"
  shows "forge_ok g'"
  using assms(1)
proof (cases rule: forge_step.cases)
  case (accepted k n M)
  with assms(2) show ?thesis by (auto simp: forge_ok_def held_add holds_def thread_ok_def tries_ok_def)
next
  case (moved n t n' t' k M)
  from assms(2) moved(1) have ok: "k + Suc (size M) = MAX_CLIENTS" "thread_ok t" "\<forall>b. n b = held b (add_mset t M)"
    "\<forall>u \<in># M. thread_ok u" by (simp_all add: forge_ok_def)
  have "0 < n b" if "holds b t" for b using ok(3) that by (simp add: held_add)
  from thread_step_ok [OF moved(3) ok(2) this] have st: "thread_ok t'"
    "n' b + (if holds b t then 1 else 0) = n b + (if holds b t' then 1 else 0)" for b by blast+
  have "n' b = held b (add_mset t' M)" for b
    using st(2) [of b] ok(3) by (simp add: held_add split: if_splits)
  with moved(2) ok st(1) show ?thesis by (simp add: forge_ok_def)
next
  case (released t k n M)
  then have "\<not> holds b t" for b by (simp add: holds_def)
  with assms(2) released show ?thesis by (simp add: forge_ok_def held_add)
qed

lemma forge_reach_ok: "forge_reach z scan server g \<Longrightarrow> forge_ok g"
  unfolding forge_reach_def
proof (induction rule: rtranclp_induct)
  case base
  show ?case by (simp add: forge_ok_def forge_start_def held_def)
next
  case (step g g')
  with forge_step_ok show ?case by blast
qed

lemma held_total: "held Dgpu M + held Igpu M \<le> size M"
proof (induction M)
  case empty
  then show ?case by (simp add: held_def)
next
  case (add t M)
  have "\<not> (holds Dgpu t \<and> holds Igpu t)" by (auto simp: holds_def split: phase.splits)
  with add show ?case by (auto simp: held_add)
qed

text \<open>
  C30. The counters tell the truth, however the threads interleave. In every state the server can reach,
  the free slots and the running requests are eight together; each worker's counter is exactly the number
  of requests that hold it, so that an idle server counts nothing and the two counters are at most eight;
  and every request has been sent to at most one worker, once.
\<close>

theorem forge_counts_exact:
  assumes "forge_reach z scan server g"
  shows "fg_slots g + size (fg_live g) = 8 \<and> (\<forall>b. fg_inflight g b = held b (fg_live g))
    \<and> fg_inflight g Dgpu + fg_inflight g Igpu + fg_slots g \<le> 8
    \<and> (\<forall>t \<in># fg_live g. length (filter snd (th_tries t)) \<le> 1 \<and> length (th_tries t) \<le> 2)"
proof -
  from forge_reach_ok [OF assms] have ok: "forge_ok g" .
  have "length (filter snd (th_tries t)) \<le> 1 \<and> length (th_tries t) \<le> 2" if "t \<in># fg_live g" for t
    using ok that tries_ok_dispatch by (auto simp: forge_ok_def thread_ok_def)
  with ok held_total [of "fg_live g"] show ?thesis by (auto simp: forge_ok_def MAX_CLIENTS_def)
qed

definition busy_forge :: forge where
  "busy_forge = \<lparr>fg_slots = 7, fg_inflight = enter_backend Dgpu (\<lambda>_. 0),
     fg_live = {#\<lparr>th_phase = Trying Dgpu (Some Igpu), th_tries = []\<rparr>#}\<rparr>"

lemma busy_forge_reached: "forge_reach small_sys small_forge_scan ''h'' busy_forge"
proof -
  let ?step = "forge_step small_sys small_forge_scan ''h''"
  have s1: "?step forge_start \<lparr>fg_slots = 7, fg_inflight = \<lambda>_. 0, fg_live = {#\<lparr>th_phase = Reading, th_tries = []\<rparr>#}\<rparr>"
    using forge_step.accepted [of _ _ _ 7 "\<lambda>_. 0" "{#}"] by (simp add: forge_start_def MAX_CLIENTS_def)
  have s2: "?step \<lparr>fg_slots = 7, fg_inflight = \<lambda>_. 0, fg_live = {#\<lparr>th_phase = Reading, th_tries = []\<rparr>#}\<rparr>
      \<lparr>fg_slots = 7, fg_inflight = \<lambda>_. 0, fg_live = {#\<lparr>th_phase = Ready (rq_path small_post), th_tries = []\<rparr>#}\<rparr>"
    by (rule forge_step.moved, rule thread_step.admitted [OF small_post_admitted]) (simp add: small_post_def)
  have s3: "?step \<lparr>fg_slots = 7, fg_inflight = \<lambda>_. 0, fg_live = {#\<lparr>th_phase = Ready (rq_path small_post), th_tries = []\<rparr>#}\<rparr> busy_forge"
    unfolding busy_forge_def by (rule forge_step.moved, rule thread_step.picked) code_simp
  show ?thesis
    unfolding forge_reach_def
    by (rule converse_rtranclp_into_rtranclp, rule s1, rule converse_rtranclp_into_rtranclp, rule s2,
        rule r_into_rtranclp, rule s3)
qed

theorem forge_counts_exact_witness: "fg_inflight busy_forge Dgpu = 1 \<and> fg_inflight busy_forge Dgpu = held Dgpu (fg_live busy_forge)"
proof -
  from forge_counts_exact [OF busy_forge_reached] have "fg_inflight busy_forge Dgpu = held Dgpu (fg_live busy_forge)" by blast
  then show ?thesis by (simp add: busy_forge_def enter_backend_def)
qed

section \<open>A request is a path\<close>

lemma path_step: "(forge_step z scan server)\<^sup>*\<^sup>* \<lparr>fg_slots = k, fg_inflight = n', fg_live = add_mset t' M\<rparr> g
    \<Longrightarrow> thread_step z scan server n t n' t'
    \<Longrightarrow> (forge_step z scan server)\<^sup>*\<^sup>* \<lparr>fg_slots = k, fg_inflight = n, fg_live = add_mset t M\<rparr> g"
  by (rule converse_rtranclp_into_rtranclp, rule forge_step.moved)

text \<open>From the attempt on worker \<open>b\<close> to what follows it.\<close>

lemma try_path:
  assumes "(forge_step z scan server)\<^sup>*\<^sup>* \<lparr>fg_slots = k, fg_inflight = leave_backend b n,
       fg_live = add_mset \<lparr>th_phase = (case (if d then None else r) of None \<Rightarrow> Over | Some f \<Rightarrow> Retrying f), th_tries = ts @ [(b, d)]\<rparr> M\<rparr> g"
  shows "(forge_step z scan server)\<^sup>*\<^sup>* \<lparr>fg_slots = k, fg_inflight = n, fg_live = add_mset \<lparr>th_phase = Trying b r, th_tries = ts\<rparr> M\<rparr> g"
proof (cases d)
  case True
  from assms True show ?thesis
    by (auto intro!: path_step [OF _ thread_step.sent_out] path_step [OF _ thread_step.ended] path_step [OF _ thread_step.left])
next
  case False
  from assms False show ?thesis
    by (cases r) (auto intro!: path_step [OF _ thread_step.unconnected] path_step [OF _ thread_step.left]
        path_step [OF _ thread_step.left_to_retry])
qed

text \<open>
  The steps of the server contain the code. Beside any other requests, a request that has just been
  accepted can be taken through steps of the server to its end: these steps leave the counters as
  \<open>serve\<close> leaves them and have tried what \<open>serve\<close> tries. So what holds in every reachable state of the
  server holds of the code as it is written.
\<close>

theorem serve_is_path:
  "(forge_step z scan server)\<^sup>*\<^sup>*
     \<lparr>fg_slots = k, fg_inflight = n, fg_live = add_mset \<lparr>th_phase = Reading, th_tries = []\<rparr> M\<rparr>
     \<lparr>fg_slots = k, fg_inflight = fs_inflight (serve z scan server env n),
       fg_live = add_mset \<lparr>th_phase = Over, th_tries = fs_tries (serve z scan server env n)\<rparr> M\<rparr>"
proof -
  let ?R = "(forge_step z scan server)\<^sup>*\<^sup>*"
  let ?s = "\<lparr>fg_slots = k, fg_inflight = n, fg_live = add_mset \<lparr>th_phase = Reading, th_tries = []\<rparr> M\<rparr>"
  let ?g = "\<lambda>st. \<lparr>fg_slots = k, fg_inflight = fs_inflight st, fg_live = add_mset \<lparr>th_phase = Over, th_tries = fs_tries st\<rparr> M\<rparr>"
  let ?st = "\<lparr>fs_inflight = n, fs_tries = [], fs_out = []\<rparr>" and ?p = "rq_path (fe_request env)"
  have here: "?R ?s (?g st)" if "fs_inflight st = n" "fs_tries st = []" for st
    using that by (auto intro: path_step [OF _ thread_step.answered_here])
  show ?thesis
  proof (cases "\<exists>body. request_body z scan server (fe_request env) = Inr body \<and> ?p \<noteq> ''/mesh/status'' \<and> \<not> fe_header_late env
      \<and> \<not> fe_late env 0")
    case False
    have "fs_inflight (serve z scan server env n) = n \<and> fs_tries (serve z scan server env n) = []"
    proof (cases "request_body z scan server (fe_request env)")
      case (Inl e)
      then show ?thesis by (cases e) (simp_all add: serve_def Let_def)
    next
      case (Inr body)
      have "attempts env ?st = ?st\<lparr>fs_out := incomplete []\<rparr>" if "fe_late env 0" using that by (simp add: attempts_def)
      with False Inr show ?thesis by (cases "fe_header_late env"; cases "?p = ''/mesh/status''") (simp_all add: serve_def Let_def)
    qed
    then have "?R ?s (?g (serve z scan server env n))" by (intro here) simp_all
    then show ?thesis .
  next
    case True
    then obtain body where b: "request_body z scan server (fe_request env) = Inr body" "?p \<noteq> ''/mesh/status''" by blast
    with True have serve: "serve z scan server env n = attempts env ?st" by (simp add: serve_def Let_def)
    obtain b1 b2 where p: "pick_backend n ?p = (b1, b2)" by fastforce
    obtain again st1 where t1: "try_backend env 0 b1 ?st = (again, st1)" by fastforce
    obtain again2 st2 where t2: "try_backend env 1 b2 st1 = (again2, st2)" by fastforce
    note f1 = try_backend_facts [OF t1] and f2 = try_backend_facts [OF t2]
    have nodisp: "again = (\<not> dispatched (fe_attempt env 0))"
      using t1 by (auto simp: try_backend_def Let_def dispatched_def attempt_result_def split: prod.splits option.splits if_splits)
    have final: "attempts env ?st = (if \<not> again then st1 else if fe_late env 1 then st1\<lparr>fs_out := incomplete (fs_out st1)\<rparr> else st2)"
      using True p t1 t2 by (simp add: attempts_def)
    have start: "?R \<lparr>fg_slots = k, fg_inflight = enter_backend b1 n, fg_live = add_mset \<lparr>th_phase = Trying b1 (Some b2), th_tries = []\<rparr> M\<rparr> g
      \<Longrightarrow> ?R ?s g" for g
      by (rule path_step [OF path_step [OF _ thread_step.picked [OF p]] thread_step.admitted [OF b]])
    have second: "?R \<lparr>fg_slots = k, fg_inflight = n, fg_live = add_mset \<lparr>th_phase = Retrying b2, th_tries = [(b1, False)]\<rparr> M\<rparr>
        (?g (if fe_late env 1 then st1\<lparr>fs_out := incomplete (fs_out st1)\<rparr> else st2))" if again
    proof (cases "fe_late env 1")
      case True
      with that nodisp f1 show ?thesis by (auto intro: path_step [OF _ thread_step.late_again])
    next
      case False
      with that nodisp f1 f2 show ?thesis
        by (auto intro!: path_step [OF _ thread_step.fell_back] try_path [where d = "dispatched (fe_attempt env 1)"])
    qed
    show ?thesis
      unfolding serve final
      by (rule start, rule try_path [where d = "dispatched (fe_attempt env 0)"]) (use nodisp f1 second in auto)
  qed
qed

end
