(* ===== verification/ControlSpace.thy ===== *)
theory ControlSpace
  imports Drift ControlPages
begin

text \<open>
  \<open>scripts/router_control_space.py\<close>: the publisher of the separate control Space. It generates three
  files from a source revision and an image digest, admits the target, uploads onto the revision it
  read, verifies what it finds there, and waits until the Space answers as a control plane without
  inference; a receipt is saved at every stage.

  Git, the web, the hub, the card validator, the file of the receipt and the clocks are parameters;
  what depends on the moment is indexed by the number of actions so far. The state is the log of
  actions, the receipt, the number of saves, the clock readings and the time slept.
\<close>

section \<open>The world of the publisher\<close>

datatype cs_error = Code string | Raised exn

datatype web =
    WebAnswer int string "string dict" "exn + string"   \<comment> \<open>status, final URL, headers, reading the body\<close>
  | WebDown                                             \<comment> \<open>\<open>OSError\<close>, \<open>URLError\<close> included\<close>
  | WebOther exn

record space_info =
  si_id :: "string option"
  si_sdk :: "string option"
  si_sha :: json
  si_private :: "bool option"

datatype info_answer = InfoOf space_info | NotFound "int option" | InfoFails exn

datatype cs_action =
    Git "string list"
  | Get string "string option"                          \<comment> \<open>URL and credential\<close>
  | HeadOf string string
  | RepoInfo | AuthCheck | CreateRepo
  | ListFiles string
  | Download string string                              \<comment> \<open>file and revision\<close>
  | Upload "string dict" string string                  \<comment> \<open>files, message, parent revision\<close>

record cs_world =
  cw_sys :: sys
  cw_git :: "nat \<Rightarrow> string list \<Rightarrow> string option"
  cw_get :: "nat \<Rightarrow> web"
  cw_head :: "nat \<Rightarrow> exn + int \<times> string option"        \<comment> \<open>status and \<open>Docker-Content-Digest\<close>\<close>
  cw_info :: "nat \<Rightarrow> info_answer"
  cw_act :: "nat \<Rightarrow> exn option"
  cw_files :: "nat \<Rightarrow> exn + string list"
  cw_download :: "nat \<Rightarrow> exn + string"
  cw_upload :: "nat \<Rightarrow> exn + json"
  cw_card :: "string \<Rightarrow> exn option"
  cw_folder :: "exn option"                             \<comment> \<open>writing the temporary folder\<close>
  cw_save :: "nat \<Rightarrow> exn option"
  cw_bootstrap :: "exn + string"
  cw_clock :: "nat \<Rightarrow> rat"
  cw_nonce :: "nat \<Rightarrow> string"

record cspace =
  cs_log :: "cs_action list"
  cs_receipt :: jdict
  cs_saves :: nat
  cs_ticks :: nat
  cs_slept :: rat

type_synonym 'a cs_op = "cspace \<Rightarrow> (cs_error + 'a) \<times> cspace"

text \<open>The operations of a script on a state \<open>'s\<close>.\<close>

definition bindC :: "('s \<Rightarrow> (cs_error + 'a) \<times> 's) \<Rightarrow> ('a \<Rightarrow> 's \<Rightarrow> (cs_error + 'b) \<times> 's) \<Rightarrow> 's \<Rightarrow> (cs_error + 'b) \<times> 's" where
  "bindC m f w = (case m w of (Inl e, w1) \<Rightarrow> (Inl e, w1) | (Inr a, w1) \<Rightarrow> f a w1)"

definition pureC :: "cs_error + 'a \<Rightarrow> 's \<Rightarrow> (cs_error + 'a) \<times> 's" where
  "pureC r w = (r, w)"

definition checkC :: "bool \<Rightarrow> string \<Rightarrow> 's \<Rightarrow> (cs_error + unit) \<times> 's" where
  "checkC b code = pureC (if b then Inr () else Inl (Code code))"

text \<open>An action is logged; its result is the world's answer at its number.\<close>

definition actC :: "cs_action \<Rightarrow> (nat \<Rightarrow> 'a) \<Rightarrow> 'a cs_op" where
  "actC a f w = (Inr (f (length (cs_log w))), w\<lparr>cs_log := cs_log w @ [a]\<rparr>)"

definition raising :: "exn + 'a \<Rightarrow> cs_error + 'a" where
  "raising r = map_sum Raised id r"

section \<open>Values\<close>

definition CONTROL_TARGET :: string where "CONTROL_TARGET = ''SZLHOLDINGS/szl-router-control''"
definition IMAGE :: string where "IMAGE = ''ghcr.io/szl-holdings/szl-router-control''"
definition ENDPOINT :: string where "ENDPOINT = ''https://szlholdings-szl-router-control.hf.space''"
definition CONTROL_SCHEMA :: string where "CONTROL_SCHEMA = ''szl.router-control-space/v1''"
definition PROVIDER_METADATA :: string where "PROVIDER_METADATA = ''.gitattributes''"
definition CONTROL_FILES :: "string list" where "CONTROL_FILES = [''README.md'', ''Dockerfile'', ''SOURCE_BINDING.json'']"

definition CS_TRANSIENT :: "string list" where
  "CS_TRANSIENT = [''BUILDING'', ''APP_STARTING'', ''STARTING'', ''QUEUED'', ''PENDING'', ''RESTARTING'', ''RUNNING_BUILDING'',
     ''RUNNING_APP_STARTING'']"

definition CS_TERMINAL :: "string list" where
  "CS_TERMINAL = [''BUILD_ERROR'', ''RUNTIME_ERROR'', ''CONFIG_ERROR'', ''ERROR'', ''STOPPED'']"

definition cs_exact_sha :: "json \<Rightarrow> string \<Rightarrow> cs_error + string" where
  "cs_exact_sha v code = (case v of JStr t \<Rightarrow> if exact_sha t then Inr t else Inl (Code code) | _ \<Rightarrow> Inl (Code code))"

definition digest_ok :: "string \<Rightarrow> bool" where
  "digest_ok t = (startswith ''sha256:'' t \<and> length t = 71 \<and> list_all lower_hex (drop 7 t))"

definition exact_digest :: "json \<Rightarrow> cs_error + string" where
  "exact_digest v = (case v of JStr t \<Rightarrow> if digest_ok t then Inr t else Inl (Code ''IMAGE_DIGEST_INVALID'')
     | _ \<Rightarrow> Inl (Code ''IMAGE_DIGEST_INVALID''))"

section \<open>The generated files\<close>

definition nl :: string where "nl = [CHR 0x0A]"

text \<open>A vertical bar stands for a double quote.\<close>

definition quoted_text :: "string \<Rightarrow> string" where
  "quoted_text t = map (\<lambda>c. if c = CHR ''|'' then CHR 0x22 else c) t"

definition card_yaml :: string where
  "card_yaml = join nl [''---'', ''title: SZL Router Control'', ''sdk: docker'', ''app_port: 7860'', ''license: apache-2.0'',
     ''short_description: Source-bound control interface with inference disabled.'', ''---''] @ nl"

definition card_body :: "string \<Rightarrow> string \<Rightarrow> string" where
  "card_body revision img = join nl ['''', ''# SZL Router Control'', '''',
     ''This is the public control-interface canary for'',
     ''[`szl-holdings/szl-router`](https://github.com/szl-holdings/szl-router).'',
     ''It uses the published image `'' @ IMAGE @ ''@'' @ img @ ''` from source `'' @ revision @ ''`.'',
     ''This publisher supplies no provider credentials and forces inference egress off.'',
     ''It verifies that no provider registry is configured at runtime. `/readyz`'',
     ''measures only control-interface readiness; `/readyz/inference` must return 503.'',
     ''The separate `SZLHOLDINGS/llm-router-live` status Space is independently owned.''] @ nl"

definition legacy_readme :: "string \<Rightarrow> string \<Rightarrow> string" where
  "legacy_readme revision img = card_yaml @ card_body revision img"

definition dockerfile :: "string \<Rightarrow> string" where
  "dockerfile img = join nl [''FROM '' @ IMAGE @ ''@'' @ img, ''ENV SZL_ROUTER_ENABLE_EGRESS=0'',
     quoted_text ''CMD [|sh|, |-c|, |exec env SZL_ROUTER_ENABLE_EGRESS=0 uvicorn router_control.app:app --host 0.0.0.0 --port 7860 --workers 1 --no-access-log|]''] @ nl"

definition control_binding :: "string \<Rightarrow> string \<Rightarrow> jdict" where
  "control_binding revision img = [(''schema'', JStr CONTROL_SCHEMA), (''target'', JStr CONTROL_TARGET),
     (''source_repository'', JStr SOURCE_REPOSITORY), (''source_revision'', JStr revision),
     (''image_reference'', JStr (IMAGE @ ''@'' @ img)), (''image_digest'', JStr img), (''egress_policy'', JStr ''DENIED''),
     (''inference_state'', JStr ''UNAVAILABLE_UNCONFIGURED'')]"

definition legacy_space_files :: "sys \<Rightarrow> json \<Rightarrow> json \<Rightarrow> cs_error + string dict" where
  "legacy_space_files z commit dig =
     bindE (cs_exact_sha commit ''SOURCE_REVISION_INVALID'') (\<lambda>revision.
     bindE (exact_digest dig) (\<lambda>img.
       Inr [(''README.md'', utf8 (legacy_readme revision img)), (''Dockerfile'', utf8 (dockerfile img)),
            (''SOURCE_BINDING.json'', pretty_bytes z (JObj (control_binding revision img)))]))"

definition BRAND :: string where
  "BRAND = ''szl-holdings/szl-brand''"

definition artwork :: string where
  "artwork = nl @ quoted_text (''<p><img src=|https://raw.githubusercontent.com/'' @ BRAND
       @ ''/27d12e77fc0f9f1a0e5fae8b34adf2380d51d070/kit/logos/orbit-v2/suite/szl-icon-32.svg| alt=|SZL Holdings| width=|40| height=|40| /></p>'')
     @ nl @ nl @ ''Artwork: SZL Orbit '' @ [CHR 0xB7] @ '' '' @ [CHR 0xA9] @ '' 2026 SZL Holdings / Stephen Lutar '' @ [CHR 0xB7]
     @ '' [CC BY 4.0](https://github.com/'' @ BRAND @ ''/blob/27d12e77fc0f9f1a0e5fae8b34adf2380d51d070/kit/LICENSE) '' @ [CHR 0xB7]
     @ '' [Trademark notice](https://github.com/'' @ BRAND @ ''/blob/27d12e77fc0f9f1a0e5fae8b34adf2380d51d070/NOTICE).'' @ nl"

text \<open>\<open>readme.index("\n---\n", 4)\<close> plus the length of what it finds.\<close>

definition front_end :: string where "front_end = nl @ ''---'' @ nl"

definition with_artwork :: "string \<Rightarrow> string option" where
  "with_artwork readme = map_option (\<lambda>(a, b). take 4 readme @ a @ front_end @ artwork @ b) (find_sub front_end (drop 4 readme))"

text \<open>The bytes of the card are decoded again; a card without the mark would raise \<open>ValueError\<close>.\<close>

definition space_files :: "sys \<Rightarrow> json \<Rightarrow> json \<Rightarrow> cs_error + string dict" where
  "space_files z commit dig =
     bindE (legacy_space_files z commit dig) (\<lambda>files.
     bindE (cs_exact_sha commit ''SOURCE_REVISION_INVALID'') (\<lambda>revision.
     bindE (exact_digest dig) (\<lambda>img.
       case with_artwork (legacy_readme revision img) of
         None \<Rightarrow> Inl (Raised (ValueError ''substring not found''))
       | Some t \<Rightarrow> Inr (dset ''README.md'' (utf8 t) files))))"

section \<open>Preconditions\<close>

definition git_text :: "cs_world \<Rightarrow> string list \<Rightarrow> string cs_op" where
  "git_text x args = bindC (actC (Git args) (\<lambda>k. cw_git x k args)) (\<lambda>out.
     pureC (case out of None \<Rightarrow> Inl (Code ''SOURCE_GIT_UNAVAILABLE'') | Some t \<Rightarrow> Inr (strip t)))"

definition source_context :: "sys \<Rightarrow> string \<Rightarrow> bool" where
  "source_context z revision = (s_env z ''GITHUB_REPOSITORY'' = Some SOURCE_REPOSITORY \<and> s_env z ''GITHUB_REF'' = Some ''refs/heads/main''
     \<and> s_env z ''GITHUB_SHA'' = Some revision)"

definition ls_remote :: "string list" where
  "ls_remote = [''ls-remote'', ''https://github.com/szl-holdings/szl-router.git'', ''refs/heads/main'']"

text \<open>\<open>or\<close> asks for the status only when the head is the revision.\<close>

definition require_protected_main :: "cs_world \<Rightarrow> string \<Rightarrow> unit cs_op" where
  "require_protected_main x revision =
     bindC (pureC (cs_exact_sha (JStr revision) ''SOURCE_REVISION_INVALID'')) (\<lambda>_.
     bindC (checkC (source_context (cw_sys x) revision) ''SOURCE_CONTEXT_REJECTED'') (\<lambda>_.
     bindC (git_text x [''rev-parse'', ''HEAD'']) (\<lambda>head.
     bindC (checkC (head = revision) ''SOURCE_CHECKOUT_MISMATCH'') (\<lambda>_.
     bindC (git_text x [''status'', ''--porcelain=v1'']) (\<lambda>dirty.
     bindC (checkC (dirty = []) ''SOURCE_CHECKOUT_MISMATCH'') (\<lambda>_.
     bindC (git_text x ls_remote) (\<lambda>remote.
       checkC (fst (partition_at (CHR 0x09) remote) = revision) ''SOURCE_MAIN_SUPERSEDED'')))))))"

definition before_query :: "string \<Rightarrow> string" where
  "before_query url = fst (partition_at (CHR ''?'') url)"

definition read_web :: "sys \<Rightarrow> string \<Rightarrow> int \<Rightarrow> bool \<Rightarrow> web \<Rightarrow> cs_error + jdict" where
  "read_web z url status no_store answer =
     (case answer of
        WebDown \<Rightarrow> Inl (Code ''HTTP_WITNESS_UNAVAILABLE'')
      | WebOther e \<Rightarrow> Inl (Raised e)
      | WebAnswer st final hs reading \<Rightarrow>
          let unavailable = (\<lambda>e. if is_transport e \<or> is_value_error e then Code ''HTTP_WITNESS_UNAVAILABLE'' else Raised e) in
          if st \<in> {401, 403} then Inl (Code ''HTTP_AUTH_REJECTED'')
          else if st \<noteq> status \<or> before_query final \<noteq> before_query url then Inl (Code ''HTTP_WITNESS_REJECTED'')
          else if no_store \<and> \<not> str_in ''no-store'' (lower (header_first ''cache-control'' hs))
          then Inl (Code ''HTTP_CACHE_CONTRACT_REJECTED'')
          else (case reading of
              Inl e \<Rightarrow> Inl (unavailable e)
            | Inr body \<Rightarrow>
                if 131072 < int (length body) then Inl (Code ''HTTP_WITNESS_TOO_LARGE'')
                else (case s_loads z body of
                    Inl e \<Rightarrow> Inl (unavailable e)
                  | Inr (JObj d) \<Rightarrow> Inr d
                  | Inr _ \<Rightarrow> Inl (Code ''HTTP_WITNESS_MALFORMED''))))"

definition request_json :: "cs_world \<Rightarrow> string \<Rightarrow> string option \<Rightarrow> int \<Rightarrow> bool \<Rightarrow> jdict cs_op" where
  "request_json x url token status no_store =
     bindC (actC (Get url (case token of None \<Rightarrow> None | Some t \<Rightarrow> if t = [] then None else Some (''Bearer '' @ t))) (cw_get x))
       (\<lambda>answer. pureC (read_web (cw_sys x) url status no_store answer))"

definition registry_token_url :: string where
  "registry_token_url = ''https://ghcr.io/token?service=ghcr.io&scope=repository%3Aszl-holdings%2Fszl-router-control%3Apull''"

definition manifest_url :: "string \<Rightarrow> string" where
  "manifest_url img = ''https://ghcr.io/v2/szl-holdings/szl-router-control/manifests/'' @ img"

definition anonymous_image_manifest :: "cs_world \<Rightarrow> string \<Rightarrow> unit cs_op" where
  "anonymous_image_manifest x img =
     bindC (pureC (exact_digest (JStr img))) (\<lambda>_.
     bindC (request_json x registry_token_url None 200 False) (\<lambda>d.
     case dget_or_null d ''token'' of
       JStr t \<Rightarrow>
         if t = [] then pureC (Inl (Code ''IMAGE_NOT_PUBLIC''))
         else bindC (actC (HeadOf (manifest_url img) (''Bearer '' @ t)) (cw_head x)) (\<lambda>answer.
           pureC (case answer of
             Inl e \<Rightarrow> Inl (if is_transport e then Code ''IMAGE_NOT_PUBLIC'' else Raised e)
           | Inr (status, seen) \<Rightarrow>
               if status \<noteq> 200 \<or> seen \<noteq> Some img then Inl (Code ''IMAGE_PUBLIC_DIGEST_MISMATCH'') else Inr ()))
     | _ \<Rightarrow> pureC (Inl (Code ''IMAGE_NOT_PUBLIC''))))"

definition validate_card :: "cs_world \<Rightarrow> string \<Rightarrow> unit cs_op" where
  "validate_card x readme = pureC (case cw_card x readme of
     None \<Rightarrow> Inr ()
   | Some e \<Rightarrow> Inl (if is_value_error e then Code ''SPACE_CARD_METADATA_INVALID'' else Raised e))"

section \<open>What the hub holds\<close>

definition repo_identity :: "space_info \<Rightarrow> cs_error + string" where
  "repo_identity i =
     (if si_id i \<noteq> Some CONTROL_TARGET then Inl (Code ''SPACE_IDENTITY_MISMATCH'')
      else if si_sdk i \<noteq> Some ''docker'' then Inl (Code ''SPACE_SDK_MISMATCH'')
      else cs_exact_sha (si_sha i) ''SPACE_REVISION_INVALID'')"

definition not_found :: exn where "not_found = PyError ''RepositoryNotFoundError'' []"

definition hub_info :: "cs_world \<Rightarrow> space_info cs_op" where
  "hub_info x = bindC (actC RepoInfo (cw_info x)) (\<lambda>answer. pureC (case answer of
     InfoOf i \<Rightarrow> Inr i | NotFound _ \<Rightarrow> Inl (Raised not_found) | InfoFails e \<Rightarrow> Inl (Raised e)))"

definition download_bytes :: "cs_world \<Rightarrow> string \<Rightarrow> string \<Rightarrow> string cs_op" where
  "download_bytes x file revision = bindC (actC (Download file revision) (cw_download x)) (\<lambda>r.
     pureC (bindE (raising r) (\<lambda>data. if 131072 < int (length data) then Inl (Code ''SPACE_FILE_TOO_LARGE'') else Inr data)))"

definition list_files :: "cs_world \<Rightarrow> string \<Rightarrow> string set cs_op" where
  "list_files x revision = bindC (actC (ListFiles revision) (cw_files x)) (\<lambda>r. pureC (map_sum id set (raising r)))"

fun verify_bodies :: "cs_world \<Rightarrow> string \<Rightarrow> string dict \<Rightarrow> unit cs_op" where
  "verify_bodies x revision [] = pureC (Inr ())"
| "verify_bodies x revision ((file, body) # rest) =
     bindC (download_bytes x file revision) (\<lambda>data.
     bindC (checkC (data = body) ''SPACE_FILE_BYTE_MISMATCH'') (\<lambda>_. verify_bodies x revision rest))"

definition verify_files :: "cs_world \<Rightarrow> string \<Rightarrow> string dict \<Rightarrow> string \<Rightarrow> unit cs_op" where
  "verify_files x revision expected metadata =
     bindC (list_files x revision) (\<lambda>seen.
     bindC (checkC (seen = set CONTROL_FILES \<union> {PROVIDER_METADATA}) ''SPACE_FILE_SET_MISMATCH'') (\<lambda>_.
     bindC (verify_bodies x revision expected) (\<lambda>_.
     bindC (download_bytes x PROVIDER_METADATA revision) (\<lambda>data.
       checkC (data = metadata) ''SPACE_PROVIDER_METADATA_DRIFT''))))"

text \<open>\<open>except (\<dots>) as exc: raise ControlSpaceError(code)\<close>; a \<open>ControlSpaceError\<close> passes.\<close>

definition recodeC :: "(exn \<Rightarrow> bool) \<Rightarrow> string \<Rightarrow> 'a cs_op \<Rightarrow> 'a cs_op" where
  "recodeC caught code m w = (case m w of
     (Inl (Raised e), w1) \<Rightarrow> (Inl (if caught e then Code code else Raised e), w1) | r \<Rightarrow> r)"

definition os_or_value :: "exn \<Rightarrow> bool" where
  "os_or_value e = (is_transport e \<or> is_value_error e)"

definition bootstrap_error :: "exn \<Rightarrow> bool" where
  "bootstrap_error e = (os_or_value e \<or> exn_class e \<in> {''TypeError'', ''AttributeError''})"

definition BOOTSTRAP_FILES :: "string list" where
  "BOOTSTRAP_FILES = [PROVIDER_METADATA, ''README.md'']"

definition bootstrap_binding :: "cs_world \<Rightarrow> string \<Rightarrow> exn + jdict" where
  "bootstrap_binding x revision =
     bindE (cw_bootstrap x) (\<lambda>bytes. bindE (s_loads (cw_sys x) bytes) (\<lambda>j. case j of
       JObj d \<Rightarrow>
         (case dget_or_null d ''files_sha256'' of
            JObj hashes \<Rightarrow>
              if dget_or_null d ''schema'' = JStr ''szl.router-control-bootstrap/v1'' \<and> dget_or_null d ''target'' = JStr CONTROL_TARGET
                \<and> dget_or_null d ''source_repository'' = JStr SOURCE_REPOSITORY \<and> dget_or_null d ''parent_revision'' = JStr revision
                \<and> fst ` set hashes = set BOOTSTRAP_FILES
              then Inr hashes else Inl (ValueError ''bootstrap binding mismatch'')
          | _ \<Rightarrow> Inl (ValueError ''bootstrap binding mismatch''))
     | _ \<Rightarrow> Inl (PyError ''AttributeError'' [])))"

text \<open>The two files are downloaded and compared in a fixed order; the order of a Python set is not.\<close>

definition recover_bootstrap_metadata :: "cs_world \<Rightarrow> string \<Rightarrow> string cs_op" where
  "recover_bootstrap_metadata x revision =
     recodeC bootstrap_error ''EXISTING_SPACE_BOOTSTRAP_REJECTED''
       (bindC (pureC (raising (bootstrap_binding x revision))) (\<lambda>hashes.
        bindC (download_bytes x PROVIDER_METADATA revision) (\<lambda>metadata.
        bindC (download_bytes x ''README.md'' revision) (\<lambda>readme.
          pureC (if JStr (sha256_hex metadata) = dget_or_null hashes PROVIDER_METADATA \<and> JStr (sha256_hex readme) = dget_or_null hashes ''README.md''
                 then Inr metadata else Inl (Raised (ValueError ''bootstrap bytes mismatch'')))))))"

definition existing_binding :: "jdict \<Rightarrow> bool" where
  "existing_binding d = (dget_or_null d ''schema'' = JStr CONTROL_SCHEMA \<and> dget_or_null d ''target'' = JStr CONTROL_TARGET
     \<and> dget_or_null d ''source_repository'' = JStr SOURCE_REPOSITORY \<and> dget_or_null d ''egress_policy'' = JStr ''DENIED'')"

fun admit_bodies :: "cs_world \<Rightarrow> string \<Rightarrow> string \<Rightarrow> string dict \<Rightarrow> unit cs_op" where
  "admit_bodies x revision legacy_card [] = pureC (Inr ())"
| "admit_bodies x revision legacy_card ((file, body) # rest) =
     bindC (download_bytes x file revision) (\<lambda>data.
     bindC (checkC (data = body \<or> file = ''README.md'' \<and> data = legacy_card) ''EXISTING_SPACE_BYTES_REJECTED'') (\<lambda>_.
       admit_bodies x revision legacy_card rest))"

definition existing_files :: "sys \<Rightarrow> json \<Rightarrow> cs_error + string dict \<times> string" where
  "existing_files z j = (case j of
     JObj d \<Rightarrow>
       if \<not> existing_binding d then Inl (Code ''EXISTING_SPACE_BINDING_REJECTED'')
       else (let commit = dget_or_null d ''source_revision''; dig = dget_or_null d ''image_digest'' in
         case space_files z commit dig of
           Inl (Code _) \<Rightarrow> Inl (Code ''EXISTING_SPACE_BINDING_REJECTED'')
         | Inl (Raised e) \<Rightarrow> Inl (Raised e)
         | Inr old \<Rightarrow> bindE (legacy_space_files z commit dig) (\<lambda>legacy. Inr (old, the (dget legacy ''README.md''))))
   | _ \<Rightarrow> Inl (Code ''EXISTING_SPACE_BINDING_REJECTED''))"

definition existing_target_admitted :: "cs_world \<Rightarrow> string \<Rightarrow> string cs_op" where
  "existing_target_admitted x revision =
     bindC (list_files x revision) (\<lambda>seen.
     if seen = set BOOTSTRAP_FILES then recover_bootstrap_metadata x revision
     else bindC (checkC (seen = set CONTROL_FILES \<union> {PROVIDER_METADATA}) ''EXISTING_SPACE_FILE_SET_REJECTED'') (\<lambda>_.
       bindC (recodeC os_or_value ''EXISTING_SPACE_BINDING_REJECTED''
         (bindC (download_bytes x ''SOURCE_BINDING.json'' revision) (\<lambda>data. pureC (raising (s_loads (cw_sys x) data))))) (\<lambda>j.
       bindC (pureC (existing_files (cw_sys x) j)) (\<lambda>(old, legacy_card).
       bindC (admit_bodies x revision legacy_card old) (\<lambda>_. download_bytes x PROVIDER_METADATA revision)))))"

definition new_target_metadata :: "cs_world \<Rightarrow> string \<Rightarrow> string cs_op" where
  "new_target_metadata x revision =
     bindC (list_files x revision) (\<lambda>seen.
     bindC (checkC (seen \<in> {{PROVIDER_METADATA}, {PROVIDER_METADATA, ''README.md''}}) ''NEW_SPACE_SYSTEM_FILES_REJECTED'') (\<lambda>_.
       download_bytes x PROVIDER_METADATA revision))"

section \<open>The runtime\<close>

definition judge_runtime_stage :: "string \<Rightarrow> jdict \<Rightarrow> cs_error + bool" where
  "judge_runtime_stage revision runtime =
     (let stage = dget_or_null runtime ''stage''; seen = dget_or_null runtime ''sha'' in
      if seen = JNull then Inr False
      else bindE (cs_exact_sha seen ''SPACE_RUNTIME_SHA_INVALID'') (\<lambda>sha.
        if sha \<noteq> revision then Inr False
        else case stage of
          JStr t \<Rightarrow>
            if t \<in> set CS_TERMINAL \<or> t = ''NO_APP_FILE'' then Inl (Code ''SPACE_RUNTIME_TERMINAL'')
            else if t \<in> set CS_TRANSIENT \<or> t = ''PAUSED'' then Inr False
            else if t \<noteq> ''RUNNING'' then Inl (Code ''SPACE_RUNTIME_UNKNOWN'') else Inr True
        | JNull \<Rightarrow> Inr False
        | JArr _ \<Rightarrow> Inl (Raised (TypeError ''unhashable type''))
        | JObj _ \<Rightarrow> Inl (Raised (TypeError ''unhashable type''))
        | _ \<Rightarrow> Inl (Code ''SPACE_RUNTIME_UNKNOWN'')))"

definition control_runtime_url :: string where
  "control_runtime_url = ''https://huggingface.co/api/spaces/SZLHOLDINGS/szl-router-control/runtime''"

definition runtime_aligned :: "cs_world \<Rightarrow> string \<Rightarrow> string \<Rightarrow> bool cs_op" where
  "runtime_aligned x token revision =
     bindC (request_json x control_runtime_url (Some token) 200 False) (\<lambda>runtime. pureC (judge_runtime_stage revision runtime))"

definition witness_holds :: "string \<Rightarrow> jdict \<Rightarrow> jdict \<Rightarrow> jdict \<Rightarrow> bool" where
  "witness_holds revision deployment ready inference \<longleftrightarrow>
     dget_or_null deployment ''schema'' = JStr ''szl.router-deployment/v1'' \<and> dget_or_null deployment ''source_revision'' = JStr revision
     \<and> dget_or_null deployment ''egress_enabled'' = JBool False \<and> dget_or_null deployment ''registry_state'' = JStr ''UNAVAILABLE_NOT_CONFIGURED''
     \<and> dget_or_null ready ''status'' = JStr ''ready'' \<and> dget_or_null ready ''scope'' = JStr ''CONTROL_PLANE''
     \<and> dget_or_null ready ''egress_enabled'' = JBool False \<and> dget_or_null inference ''ready_for_requests'' = JBool False
     \<and> dget_or_null inference ''inference_witness'' = JStr ''UNAVAILABLE''"

text \<open>The nonce is 24 hexadecimal digits, which \<open>quote\<close> leaves alone.\<close>

definition tick_nonce :: "cs_world \<Rightarrow> string cs_op" where
  "tick_nonce x w = (Inr (quote ''/'' (cw_nonce x (cs_ticks w))), w\<lparr>cs_ticks := Suc (cs_ticks w)\<rparr>)"

definition witness_space :: "cs_world \<Rightarrow> string \<Rightarrow> unit cs_op" where
  "witness_space x revision =
     bindC (tick_nonce x) (\<lambda>nonce.
     bindC (request_json x (ENDPOINT @ ''/deployment.json?nonce='' @ nonce) None 200 True) (\<lambda>deployment.
     bindC (request_json x (ENDPOINT @ ''/readyz?nonce='' @ nonce) None 200 True) (\<lambda>ready.
     bindC (request_json x (ENDPOINT @ ''/readyz/inference?nonce='' @ nonce) None 503 True) (\<lambda>inference.
       checkC (witness_holds revision deployment ready inference) ''SPACE_RUNTIME_CONTRACT_MISMATCH''))))"

section \<open>Publishing\<close>

text \<open>The receipt is changed, then saved; what saving raises goes on.\<close>

definition recordC :: "cs_world \<Rightarrow> jdict \<Rightarrow> unit cs_op" where
  "recordC x changes w =
     ((case cw_save x (cs_saves w) of None \<Rightarrow> Inr () | Some e \<Rightarrow> Inl (Raised e)),
      w\<lparr>cs_receipt := dupdate (cs_receipt w) changes, cs_saves := Suc (cs_saves w)\<rparr>)"

definition doC :: "cs_action \<Rightarrow> (nat \<Rightarrow> exn option) \<Rightarrow> unit cs_op" where
  "doC a f = bindC (actC a f) (\<lambda>r. pureC (case r of None \<Rightarrow> Inr () | Some e \<Rightarrow> Inl (Raised e)))"

definition preflight :: "cs_world \<Rightarrow> string \<Rightarrow> string \<Rightarrow> string \<Rightarrow> string dict cs_op" where
  "preflight x token commit img =
     bindC (recordC x [(''schema'', JStr CONTROL_SCHEMA), (''status'', JStr ''BLOCKED''), (''target'', JStr CONTROL_TARGET),
       (''endpoint'', JStr ENDPOINT), (''source_repository'', JStr SOURCE_REPOSITORY), (''source_revision'', JStr commit),
       (''image_digest'', JStr img), (''image_reference'', JStr (IMAGE @ ''@'' @ img)), (''phase'', JStr ''PREFLIGHT''),
       (''write_outcome'', JStr ''NOT_ATTEMPTED''), (''creation_outcome'', JStr ''NOT_ATTEMPTED''),
       (''credential_value_recorded'', JBool False)]) (\<lambda>_.
     bindC (checkC (strip token \<noteq> []) ''HF_TOKEN_MISSING'') (\<lambda>_.
     bindC (pureC (space_files (cw_sys x) (JStr commit) (JStr img))) (\<lambda>expected.
     bindC (require_protected_main x commit) (\<lambda>_.
     bindC (anonymous_image_manifest x img) (\<lambda>_.
     bindC (validate_card x (the (dget expected ''README.md''))) (\<lambda>_.
     bindC (recordC x [(''card_validation'', JStr ''MEASURED'')]) (\<lambda>_. pureC (Inr expected))))))))"

definition create_target :: "cs_world \<Rightarrow> space_info cs_op" where
  "create_target x =
     bindC (recordC x [(''phase'', JStr ''CREATE_REQUESTED''), (''creation_outcome'', JStr ''UNKNOWN'')]) (\<lambda>_.
     bindC (doC CreateRepo (cw_act x)) (\<lambda>_.
     bindC (recordC x [(''phase'', JStr ''CREATED''), (''space_created'', JBool True), (''creation_outcome'', JStr ''MEASURED'')]) (\<lambda>_.
       hub_info x)))"

definition open_target :: "cs_world \<Rightarrow> (space_info \<times> bool) cs_op" where
  "open_target x = bindC (actC RepoInfo (cw_info x)) (\<lambda>answer. case answer of
     InfoOf i \<Rightarrow> pureC (Inr (i, False))
   | InfoFails e \<Rightarrow> pureC (Inl (Raised e))
   | NotFound status \<Rightarrow>
       if status \<noteq> Some 404 then pureC (Inl (Code ''SPACE_ACCESS_REJECTED''))
       else bindC (create_target x) (\<lambda>i. pureC (Inr (i, True))))"

definition admit_target :: "cs_world \<Rightarrow> space_info \<Rightarrow> bool \<Rightarrow> (string \<times> string) cs_op" where
  "admit_target x before created =
     bindC (pureC (repo_identity before)) (\<lambda>parent.
     bindC (recordC x [(''parent_revision'', JStr parent), (''space_created'', JBool created)]) (\<lambda>_.
     bindC (checkC (si_private before = Some False) ''SPACE_VISIBILITY_REJECTED'') (\<lambda>_.
     bindC (doC AuthCheck (cw_act x)) (\<lambda>_.
     bindC (if created then new_target_metadata x parent else existing_target_admitted x parent) (\<lambda>metadata.
       pureC (Inr (parent, metadata)))))))"

definition deploy_message :: "string \<Rightarrow> string \<Rightarrow> string" where
  "deploy_message commit img = ''deploy: router control '' @ commit @ '' '' @ img"

definition upload_target :: "cs_world \<Rightarrow> string \<Rightarrow> string \<Rightarrow> string dict \<Rightarrow> string \<Rightarrow> string \<Rightarrow> string cs_op" where
  "upload_target x commit img expected parent metadata =
     bindC (require_protected_main x commit) (\<lambda>_.
     bindC (pureC (case cw_folder x of None \<Rightarrow> Inr () | Some e \<Rightarrow> Inl (Raised e))) (\<lambda>_.
     bindC (recordC x [(''phase'', JStr ''UPLOAD_REQUESTED''), (''write_outcome'', JStr ''UNKNOWN'')]) (\<lambda>_.
     bindC (actC (Upload expected (deploy_message commit img) parent) (cw_upload x)) (\<lambda>oid.
     bindC (pureC (bindE (raising oid) (\<lambda>v. cs_exact_sha v ''SPACE_PUBLISH_SHA_INVALID''))) (\<lambda>published.
     bindC (recordC x [(''phase'', JStr ''UPLOADED''), (''published_revision'', JStr published), (''write_outcome'', JStr ''MEASURED''),
       (''provider_metadata_sha256'', JStr (sha256_hex metadata))]) (\<lambda>_. pureC (Inr published)))))))"

definition check_published :: "cs_world \<Rightarrow> string \<Rightarrow> unit cs_op" where
  "check_published x published = bindC (hub_info x) (\<lambda>after. bindC (pureC (repo_identity after)) (\<lambda>r.
     checkC (r = published \<and> si_private after = Some False) ''SPACE_PUBLISH_READBACK_MISMATCH''))"

definition read_back_files :: "cs_world \<Rightarrow> string \<Rightarrow> string dict \<Rightarrow> string \<Rightarrow> unit cs_op" where
  "read_back_files x published expected metadata =
     bindC (check_published x published) (\<lambda>_.
     bindC (verify_files x published expected metadata) (\<lambda>_.
       recordC x [(''phase'', JStr ''FILES_VERIFIED''), (''file_readback'', JStr ''MEASURED'')]))"

text \<open>Two codes of the web only mean that the Space is not there yet.\<close>

definition softC :: "bool cs_op \<Rightarrow> bool cs_op" where
  "softC m w = (case m w of
     (Inl (Code c), w1) \<Rightarrow> (if c \<in> {''HTTP_WITNESS_REJECTED'', ''HTTP_WITNESS_UNAVAILABLE''} then Inr False else Inl (Code c), w1)
   | r \<Rightarrow> r)"

definition cs_clock :: "cs_world \<Rightarrow> rat cs_op" where
  "cs_clock x w = (Inr (cw_clock x (cs_ticks w) + cs_slept w), w\<lparr>cs_ticks := Suc (cs_ticks w)\<rparr>)"

definition cs_sleep :: "rat \<Rightarrow> unit cs_op" where
  "cs_sleep d w = (Inr (), w\<lparr>cs_slept := cs_slept w + d\<rparr>)"

text \<open>The end of a round that has not seen the Space run.\<close>

definition rest_round :: "cs_world \<Rightarrow> rat \<Rightarrow> bool cs_op" where
  "rest_round x deadline =
     bindC (cs_clock x) (\<lambda>t.
     bindC (checkC (t < deadline) ''SPACE_RUNTIME_TIMEOUT'') (\<lambda>_.
     bindC (cs_clock x) (\<lambda>t2.
     bindC (cs_sleep (min 10 (max 0 (deadline - t2)))) (\<lambda>_. pureC (Inr False)))))"

definition converge_round :: "cs_world \<Rightarrow> string \<Rightarrow> string \<Rightarrow> string \<Rightarrow> rat \<Rightarrow> bool cs_op" where
  "converge_round x token commit published deadline =
     bindC (check_published x published) (\<lambda>_.
     bindC (softC (runtime_aligned x token published)) (\<lambda>aligned.
     bindC (if aligned then softC (bindC (witness_space x commit) (\<lambda>_. pureC (Inr True))) else pureC (Inr False)) (\<lambda>seen.
       if seen then pureC (Inr True) else rest_round x deadline)))"

fun converge :: "nat \<Rightarrow> cs_world \<Rightarrow> string \<Rightarrow> string \<Rightarrow> string \<Rightarrow> rat \<Rightarrow> cspace \<Rightarrow> ((cs_error + unit) \<times> cspace) option" where
  "converge 0 x token commit published deadline w = None"
| "converge (Suc k) x token commit published deadline w =
     (case converge_round x token commit published deadline w of
        (Inl e, w1) \<Rightarrow> Some (Inl e, w1)
      | (Inr True, w1) \<Rightarrow> Some (Inr (), w1)
      | (Inr False, w1) \<Rightarrow> converge k x token commit published deadline w1)"

definition converge_fuel :: nat where "converge_fuel = 91"

definition publish_prefix :: "cs_world \<Rightarrow> string \<Rightarrow> string \<Rightarrow> string \<Rightarrow> string cs_op" where
  "publish_prefix x token commit img =
     bindC (preflight x token commit img) (\<lambda>expected.
     bindC (open_target x) (\<lambda>(before, created).
     bindC (admit_target x before created) (\<lambda>(parent, metadata).
     bindC (upload_target x commit img expected parent metadata) (\<lambda>published.
     bindC (read_back_files x published expected metadata) (\<lambda>_. pureC (Inr published))))))"

definition publish_suffix :: "cs_world \<Rightarrow> string \<Rightarrow> unit cs_op" where
  "publish_suffix x commit =
     bindC (require_protected_main x commit) (\<lambda>_.
       recordC x [(''status'', JStr ''MEASURED''), (''phase'', JStr ''RUNTIME_VERIFIED''), (''provider_stage'', JStr ''RUNNING''),
         (''control_readiness'', JStr ''MEASURED''), (''inference'', JStr ''UNAVAILABLE''),
         (''inference_reason'', JStr ''UNCONFIGURED_EGRESS_DENIED'')])"

definition publish_control :: "cs_world \<Rightarrow> string \<Rightarrow> string \<Rightarrow> string \<Rightarrow> cspace \<Rightarrow> ((cs_error + unit) \<times> cspace) option" where
  "publish_control x token commit img w =
     (case publish_prefix x token commit img w of
        (Inl e, w1) \<Rightarrow> Some (Inl e, w1)
      | (Inr published, w1) \<Rightarrow>
          let t = cw_clock x (cs_ticks w1) + cs_slept w1; w2 = w1\<lparr>cs_ticks := Suc (cs_ticks w1)\<rparr> in
          (case converge converge_fuel x token commit published (t + 900) w2 of
             None \<Rightarrow> None
           | Some (Inl e, w3) \<Rightarrow> Some (Inl e, w3)
           | Some (Inr _, w3) \<Rightarrow> Some (publish_suffix x commit w3)))"

definition first_receipt :: "string \<Rightarrow> string \<Rightarrow> jdict" where
  "first_receipt commit img = [(''schema'', JStr CONTROL_SCHEMA), (''status'', JStr ''BLOCKED''), (''target'', JStr CONTROL_TARGET),
     (''endpoint'', JStr ENDPOINT), (''source_repository'', JStr SOURCE_REPOSITORY), (''source_revision'', JStr commit),
     (''image_digest'', JStr img), (''phase'', JStr ''PREFLIGHT''), (''write_outcome'', JStr ''NOT_ATTEMPTED''),
     (''creation_outcome'', JStr ''NOT_ATTEMPTED''), (''credential_value_recorded'', JBool False)]"

definition conclude_control :: "cs_error + unit \<Rightarrow> jdict \<Rightarrow> jdict" where
  "conclude_control r receipt = (case r of
     Inr _ \<Rightarrow> receipt
   | Inl (Code c) \<Rightarrow> dupdate receipt [(''status'', JStr ''BLOCKED''), (''failure_code'', JStr c)]
   | Inl (Raised e) \<Rightarrow> dupdate receipt [(''status'', JStr ''UNKNOWN''), (''failure_code'', JStr (exn_class e))])"

text \<open>How the process ends, the last receipt and the log.\<close>

definition control_main :: "cs_world \<Rightarrow> string \<Rightarrow> string \<Rightarrow> ((exn + int) \<times> jdict \<times> cs_action list) option" where
  "control_main x commit img =
     (let w = \<lparr>cs_log = [], cs_receipt = first_receipt commit img, cs_saves = 1, cs_ticks = 0, cs_slept = 0\<rparr> in
      case cw_save x 0 of
        Some e \<Rightarrow> Some (Inl e, cs_receipt w, [])
      | None \<Rightarrow> map_option (\<lambda>(r, v). let receipt = conclude_control r (cs_receipt v) in
          ((case cw_save x (cs_saves v) of
              Some e \<Rightarrow> Inl e
            | None \<Rightarrow> Inr (if dget receipt ''status'' = Some (JStr ''MEASURED'') then 0 else 1)), receipt, cs_log v))
          (publish_control x (env_get (s_env (cw_sys x)) ''HF_TOKEN'' []) commit img w))"

end
