(* ===== verification/ControlSpaceSafety.thy ===== *)
theory ControlSpaceSafety
  imports ControlSpace
begin

text \<open>
  What the publisher of the control Space guarantees. \<open>spec E P m Q\<close> says that \<open>m\<close>, started where \<open>P\<close>
  holds, ends with a value and a state in \<open>Q\<close>, or fails where \<open>E\<close> holds. Operations that only ask
  (\<open>quiet\<close>) extend the log by actions that write nothing and leave the receipt alone.

  The properties: the receipt tells the truth about what was written, on every path; exit code 0 means
  that everything the receipt calls measured was seen; the wait ends; the control plane of
  \<open>ControlPages\<close> is what the publisher requires of the Space.
\<close>

section \<open>Specifications\<close>

definition spec :: "(cspace \<Rightarrow> bool) \<Rightarrow> (cspace \<Rightarrow> bool) \<Rightarrow> 'a cs_op \<Rightarrow> ('a \<Rightarrow> cspace \<Rightarrow> bool) \<Rightarrow> bool" where
  "spec E P m Q \<longleftrightarrow> (\<forall>w r v. P w \<and> m w = (r, v) \<longrightarrow> (case r of Inr a \<Rightarrow> Q a v | Inl _ \<Rightarrow> E v))"

lemma spec_bind: "spec E P m Q \<Longrightarrow> (\<And>a. spec E (Q a) (f a) S) \<Longrightarrow> spec E P (bindC m f) S"
  unfolding spec_def bindC_def by (fastforce split: prod.splits sum.splits)

lemma spec_pure: "(\<And>w a. P w \<Longrightarrow> r = Inr a \<Longrightarrow> Q a w) \<Longrightarrow> (\<And>w. P w \<Longrightarrow> E w) \<Longrightarrow> spec E P (pureC r) Q"
  by (auto simp: spec_def pureC_def split: sum.splits)

lemma spec_weaken: "spec E P m Q \<Longrightarrow> (\<And>w. P' w \<Longrightarrow> P w) \<Longrightarrow> (\<And>a w. Q a w \<Longrightarrow> Q' a w) \<Longrightarrow> spec E P' m Q'"
  unfolding spec_def by (fastforce split: sum.splits)

definition is_write :: "cs_action \<Rightarrow> bool" where
  "is_write a = (case a of CreateRepo \<Rightarrow> True | Upload _ _ _ \<Rightarrow> True | _ \<Rightarrow> False)"

definition quiet_step :: "cspace \<Rightarrow> cspace \<Rightarrow> bool" where
  "quiet_step w v \<longleftrightarrow> (\<exists>asked. cs_log v = cs_log w @ asked \<and> list_all (\<lambda>a. \<not> is_write a) asked) \<and> cs_receipt v = cs_receipt w"

definition quiet :: "'a cs_op \<Rightarrow> bool" where
  "quiet m \<longleftrightarrow> (\<forall>w. quiet_step w (snd (m w)))"

definition stable :: "(cspace \<Rightarrow> bool) \<Rightarrow> bool" where
  "stable P \<longleftrightarrow> (\<forall>w v. P w \<longrightarrow> quiet_step w v \<longrightarrow> P v)"

lemma quiet_step_refl: "quiet_step w w"
  by (simp add: quiet_step_def)

lemma quiet_step_trans: "quiet_step w v \<Longrightarrow> quiet_step v u \<Longrightarrow> quiet_step w u"
  by (auto simp: quiet_step_def)

lemma quiet_bind: "quiet m \<Longrightarrow> (\<And>a. quiet (f a)) \<Longrightarrow> quiet (bindC m f)"
  unfolding quiet_def bindC_def
  by (auto split: prod.splits sum.splits) (metis quiet_step_trans snd_conv)+

lemma quiet_basic: "quiet (pureC r)" "quiet (checkC b c)" "quiet (cs_clock x)" "quiet (cs_sleep d)" "quiet (tick_nonce x)"
  "\<not> is_write a \<Longrightarrow> quiet (actC a f)"
  by (simp_all add: quiet_def quiet_step_def pureC_def checkC_def cs_clock_def cs_sleep_def tick_nonce_def actC_def)

lemma quiet_recode: "quiet m \<Longrightarrow> quiet (recodeC p c m)" "quiet n \<Longrightarrow> quiet (softC n)"
  unfolding quiet_def recodeC_def softC_def by (auto split: prod.splits sum.splits cs_error.splits) (metis snd_conv)+

named_theorems quiet_ops

lemmas quiet_intros = quiet_bind quiet_basic quiet_recode

lemma quiet_web [quiet_ops]: "quiet (git_text x args)" "quiet (request_json x url token st ns)" "quiet (hub_info x)" "quiet (list_files x r)"
  "quiet (download_bytes x f r)" "quiet (validate_card x t)"
  by (auto simp: git_text_def request_json_def hub_info_def list_files_def download_bytes_def validate_card_def is_write_def
      intro!: quiet_intros)

lemma quiet_main [quiet_ops]: "quiet (require_protected_main x r)" "quiet (anonymous_image_manifest x img)"
  unfolding require_protected_main_def anonymous_image_manifest_def
  by (auto simp: is_write_def intro!: quiet_intros quiet_ops split: json.splits)

lemma quiet_bodies [quiet_ops]: "quiet (verify_bodies x r files)" "quiet (admit_bodies x r old_card files)"
  by (induction files) (auto intro!: quiet_intros quiet_ops)

lemma quiet_hub [quiet_ops]: "quiet (verify_files x r files m)" "quiet (recover_bootstrap_metadata x r)" "quiet (existing_target_admitted x r)"
  "quiet (new_target_metadata x r)" "quiet (runtime_aligned x token r)" "quiet (witness_space x r)" "quiet (check_published x r)"
  unfolding verify_files_def recover_bootstrap_metadata_def existing_target_admitted_def new_target_metadata_def runtime_aligned_def
    witness_space_def check_published_def
  by (auto intro!: quiet_intros quiet_ops split: prod.splits)

lemma quiet_round [quiet_ops]: "quiet (rest_round x d)" "quiet (converge_round x token c r d)"
  unfolding rest_round_def converge_round_def by (auto intro!: quiet_intros quiet_ops)

lemma quiet_auth [quiet_ops]: "quiet (doC AuthCheck f)"
  unfolding doC_def by (auto simp: is_write_def intro!: quiet_intros)

lemma quietD: "quiet m \<Longrightarrow> m w = (r, v) \<Longrightarrow> quiet_step w v"
  unfolding quiet_def by (metis snd_conv)

lemma spec_quiet: "quiet m \<Longrightarrow> stable P \<Longrightarrow> (\<And>w. P w \<Longrightarrow> E w) \<Longrightarrow> spec E P m (\<lambda>_. P)"
  unfolding spec_def stable_def by (metis (no_types, lifting) quietD sum.case_eq_if)

text \<open>With what the value says about the state it was found in.\<close>

lemma spec_quiet_fact:
  "quiet m \<Longrightarrow> stable P \<Longrightarrow> (\<And>w. P w \<Longrightarrow> E w) \<Longrightarrow> (\<And>w a v. m w = (Inr a, v) \<Longrightarrow> F a v) \<Longrightarrow> spec E P m (\<lambda>a w. P w \<and> F a w)"
  unfolding spec_def stable_def by (auto split: sum.splits dest: quietD)

section \<open>What the receipt says\<close>

definition is_upload :: "cs_action \<Rightarrow> bool" where
  "is_upload a = (case a of Upload _ _ _ \<Rightarrow> True | _ \<Rightarrow> False)"

definition uploads :: "cs_action list \<Rightarrow> cs_action list" where
  "uploads acts = filter is_upload acts"

definition creates :: "cs_action list \<Rightarrow> nat" where
  "creates acts = length (filter (\<lambda>a. a = CreateRepo) acts)"

text \<open>What an outcome of the receipt tells of the number of attempts.\<close>

definition tells :: "json option \<Rightarrow> nat \<Rightarrow> bool" where
  "tells v n \<longleftrightarrow> v = Some (JStr ''NOT_ATTEMPTED'') \<and> n = 0 \<or> v = Some (JStr ''UNKNOWN'') \<and> n \<le> 1 \<or> v = Some (JStr ''MEASURED'') \<and> n = 1"

definition stage :: "string \<Rightarrow> cs_action list \<Rightarrow> string \<Rightarrow> nat \<Rightarrow> cspace \<Rightarrow> bool" where
  "stage wrote us created n w \<longleftrightarrow> dget (cs_receipt w) ''write_outcome'' = Some (JStr wrote) \<and> uploads (cs_log w) = us
     \<and> dget (cs_receipt w) ''creation_outcome'' = Some (JStr created) \<and> creates (cs_log w) = n"

text \<open>An upload that the code may make.\<close>

definition due_upload :: "cs_world \<Rightarrow> string \<Rightarrow> string \<Rightarrow> cs_action \<Rightarrow> bool" where
  "due_upload x commit img a \<longleftrightarrow> (\<exists>files parent k i. a = Upload files (deploy_message commit img) parent
     \<and> space_files (cw_sys x) (JStr commit) (JStr img) = Inr files
     \<and> cw_info x k = InfoOf i \<and> repo_identity i = Inr parent \<and> si_private i = Some False)"

definition honest :: "cs_world \<Rightarrow> string \<Rightarrow> string \<Rightarrow> cspace \<Rightarrow> bool" where
  "honest x commit img w \<longleftrightarrow> tells (dget (cs_receipt w) ''write_outcome'') (length (uploads (cs_log w)))
     \<and> tells (dget (cs_receipt w) ''creation_outcome'') (creates (cs_log w)) \<and> list_all (due_upload x commit img) (uploads (cs_log w))"

lemma quiet_counts: "quiet_step w v \<Longrightarrow> uploads (cs_log v) = uploads (cs_log w) \<and> creates (cs_log v) = creates (cs_log w)"
proof -
  assume "quiet_step w v"
  then obtain asked where l: "cs_log v = cs_log w @ asked" "list_all (\<lambda>a. \<not> is_write a) asked" by (auto simp: quiet_step_def)
  from l(2) have "filter is_upload asked = []" "filter (\<lambda>a. a = CreateRepo) asked = []"
    by (auto simp: list_all_iff filter_empty_conv is_write_def is_upload_def split: cs_action.splits)
  with l(1) show ?thesis by (simp add: uploads_def creates_def)
qed

lemma stable_stage [intro]: "stable (stage wrote us created n)"
  using quiet_counts by (auto simp: stable_def stage_def quiet_step_def)

lemma stable_conj [intro]: "stable P \<Longrightarrow> stable Q \<Longrightarrow> stable (\<lambda>w. P w \<and> Q w)"
  by (auto simp: stable_def)

lemma stage_honest:
  "stage wrote us created n w \<Longrightarrow> tells (Some (JStr wrote)) (length us) \<Longrightarrow> tells (Some (JStr created)) n
     \<Longrightarrow> list_all (due_upload x commit img) us \<Longrightarrow> honest x commit img w"
  by (simp add: stage_def honest_def)

lemma tells_facts: "tells (Some (JStr ''NOT_ATTEMPTED'')) 0" "tells (Some (JStr ''UNKNOWN'')) 0" "tells (Some (JStr ''UNKNOWN'')) (Suc 0)"
  "tells (Some (JStr ''MEASURED'')) (Suc 0)"
  by (simp_all add: tells_def)

lemma spec_record:
  assumes "\<And>w. P w \<Longrightarrow> Q (w\<lparr>cs_receipt := dupdate (cs_receipt w) changes, cs_saves := Suc (cs_saves w)\<rparr>)" "\<And>w. Q w \<Longrightarrow> E w"
  shows "spec E P (recordC x changes) (\<lambda>_. Q)"
  using assms by (auto simp: spec_def recordC_def split: sum.splits option.splits)

lemma spec_step: "quiet m \<Longrightarrow> stable P \<Longrightarrow> (\<And>w. P w \<Longrightarrow> E w) \<Longrightarrow> (\<And>a. spec E P (f a) S) \<Longrightarrow> spec E P (bindC m f) S"
  by (rule spec_bind [OF spec_quiet])

lemma spec_step_fact:
  "quiet m \<Longrightarrow> stable P \<Longrightarrow> (\<And>w. P w \<Longrightarrow> E w) \<Longrightarrow> (\<And>w a v. m w = (Inr a, v) \<Longrightarrow> F a v)
     \<Longrightarrow> (\<And>a. spec E (\<lambda>w. P w \<and> F a w) (f a) S) \<Longrightarrow> spec E P (bindC m f) S"
  by (rule spec_bind [OF spec_quiet_fact])

lemma spec_step_pure:
  "(\<And>w. P w \<Longrightarrow> E w) \<Longrightarrow> (\<And>a. r = Inr a \<Longrightarrow> spec E P (f a) S) \<Longrightarrow> spec E P (bindC (pureC r) f) S"
  unfolding spec_def bindC_def pureC_def by (auto split: sum.splits)

lemma spec_step_check:
  "(\<And>w. P w \<Longrightarrow> E w) \<Longrightarrow> (b \<Longrightarrow> spec E P (f ()) S) \<Longrightarrow> spec E P (bindC (checkC b c) f) S"
  unfolding checkC_def by (rule spec_step_pure) (auto split: if_splits)

lemma spec_step_record:
  "(\<And>w. P w \<Longrightarrow> Q (w\<lparr>cs_receipt := dupdate (cs_receipt w) changes, cs_saves := Suc (cs_saves w)\<rparr>)) \<Longrightarrow> (\<And>w. Q w \<Longrightarrow> E w)
     \<Longrightarrow> spec E Q (f ()) S \<Longrightarrow> spec E P (bindC (recordC x changes) f) S"
  by (rule spec_bind [OF spec_record]) auto

lemma spec_return: "(\<And>w. P w \<Longrightarrow> Q a w) \<Longrightarrow> spec E P (pureC (Inr a)) Q"
  by (auto simp: spec_def pureC_def)

text \<open>Facts about the log.\<close>

definition logged :: "(nat \<Rightarrow> cs_action \<Rightarrow> bool) \<Rightarrow> cspace \<Rightarrow> bool" where
  "logged f w \<longleftrightarrow> (\<exists>k < length (cs_log w). f k (cs_log w ! k))"

lemma logged_grows: "cs_log v = cs_log w @ asked \<Longrightarrow> logged f w \<Longrightarrow> logged f v"
  unfolding logged_def by (metis length_append nth_append trans_less_add1)

lemma logged_quiet: "quiet_step w v \<Longrightarrow> logged f w \<Longrightarrow> logged f v"
  by (auto simp: quiet_step_def intro: logged_grows)

lemma stable_logged [intro]: "stable (logged f)"
  by (auto simp: stable_def intro: logged_quiet)

lemma bindC_Inr: "bindC m f w = (Inr b, u) \<longleftrightarrow> (\<exists>a v. m w = (Inr a, v) \<and> f a v = (Inr b, u))"
  by (auto simp: bindC_def split: prod.splits sum.splits)

lemma actC_logged: "actC a f w = (Inr r, v) \<Longrightarrow> logged (\<lambda>k a'. a' = a \<and> f k = r) v"
  by (auto simp: actC_def logged_def)

lemma pureC_Inr: "pureC r w = (Inr a, v) \<longleftrightarrow> r = Inr a \<and> v = w" "checkC b c w = (Inr (), v) \<longleftrightarrow> b \<and> v = w"
  by (auto simp: pureC_def checkC_def)

section \<open>The stages\<close>

lemma preflight_spec:
  "spec (honest x commit img) (stage ''NOT_ATTEMPTED'' [] ''NOT_ATTEMPTED'' 0) (preflight x token commit img)
     (\<lambda>files w. stage ''NOT_ATTEMPTED'' [] ''NOT_ATTEMPTED'' 0 w \<and> space_files (cw_sys x) (JStr commit) (JStr img) = Inr files)"
proof -
  let ?P = "stage ''NOT_ATTEMPTED'' [] ''NOT_ATTEMPTED'' 0"
  have h: "?P w \<Longrightarrow> honest x commit img w" for w by (erule stage_honest) (simp_all add: tells_facts)
  show ?thesis
    unfolding preflight_def
    by (intro spec_step_record [where Q = ?P] spec_step_check spec_step_pure spec_step [where P = ?P] spec_return quiet_ops stable_stage h)
      (auto simp: stage_def)
qed

text \<open>Before the upload: nothing uploaded, and the Space created once or not at all.\<close>

definition before_upload :: "bool \<Rightarrow> cspace \<Rightarrow> bool" where
  "before_upload created = stage ''NOT_ATTEMPTED'' [] (if created then ''MEASURED'' else ''NOT_ATTEMPTED'') (if created then 1 else 0)"

lemma stable_before [intro]: "stable (before_upload created)"
  by (auto simp: before_upload_def)

lemma before_honest: "before_upload created w \<Longrightarrow> honest x commit img w"
  unfolding before_upload_def by (erule stage_honest) (auto simp: tells_facts)

definition found_info :: "cs_world \<Rightarrow> space_info \<Rightarrow> bool" where
  "found_info x i \<longleftrightarrow> (\<exists>k. cw_info x k = InfoOf i)"

lemma hub_info_found: "hub_info x w = (Inr i, v) \<Longrightarrow> found_info x i"
  by (auto simp: hub_info_def found_info_def bindC_Inr actC_def pureC_def split: info_answer.splits)

lemma create_spec:
  "spec (honest x commit img) (before_upload False) (create_target x) (\<lambda>i w. before_upload True w \<and> found_info x i)"
proof -
  let ?U = "stage ''NOT_ATTEMPTED'' [] ''UNKNOWN''"
  have h: "n \<le> 1 \<Longrightarrow> ?U n w \<Longrightarrow> honest x commit img w" for n w
    by (erule stage_honest) (auto simp: tells_def)
  have create: "spec (honest x commit img) (?U 0) (doC CreateRepo f) (\<lambda>_. ?U 1)" for f
    unfolding doC_def
    by (rule spec_bind [where Q = "\<lambda>_. ?U 1"])
      (auto simp: spec_def actC_def pureC_def stage_def uploads_def creates_def is_upload_def honest_def tells_def split: option.splits)
  show ?thesis
    unfolding create_target_def
    by (intro spec_step_record [where Q = "?U 0"] spec_bind [OF create] spec_step_record [where Q = "before_upload True"]
        spec_quiet_fact quiet_ops stable_before)
      (auto simp: stage_def before_upload_def intro: h before_honest [unfolded before_upload_def] hub_info_found)
qed

lemma open_spec:
  "spec (honest x commit img) (before_upload False) (open_target x) (\<lambda>(i, created) w. before_upload created w \<and> found_info x i)"
  unfolding open_target_def
proof (rule spec_step_fact [where F = "\<lambda>answer _. \<exists>k. cw_info x k = answer"])
  show "quiet (actC RepoInfo (cw_info x))" by (auto simp: is_write_def intro: quiet_basic)
  fix answer
  show "spec (honest x commit img) (\<lambda>w. before_upload False w \<and> (\<exists>k. cw_info x k = answer))
     (case answer of InfoOf i \<Rightarrow> pureC (Inr (i, False)) | NotFound status \<Rightarrow>
        if status \<noteq> Some 404 then pureC (Inl (Code ''SPACE_ACCESS_REJECTED''))
        else bindC (create_target x) (\<lambda>i. pureC (Inr (i, True)))
      | InfoFails e \<Rightarrow> pureC (Inl (Raised e))) (\<lambda>(i, created) w. before_upload created w \<and> found_info x i)"
  proof (cases answer)
    case (NotFound status)
    have "spec (honest x commit img) (\<lambda>w. before_upload False w \<and> (\<exists>k. cw_info x k = answer))
        (bindC (create_target x) (\<lambda>i. pureC (Inr (i, True)))) (\<lambda>(i, created) w. before_upload created w \<and> found_info x i)"
      by (rule spec_bind [where Q = "\<lambda>i w. before_upload True w \<and> found_info x i"], rule spec_weaken [OF create_spec])
        (auto intro: spec_return)
    with NotFound show ?thesis by (auto intro!: spec_pure intro: before_honest)
  qed (auto intro!: spec_pure simp: found_info_def intro: before_honest)
qed (auto simp: actC_def intro: before_honest)

lemma admit_spec:
  "spec (honest x commit img) (before_upload created) (admit_target x i created)
     (\<lambda>(parent, metadata) w. before_upload created w \<and> repo_identity i = Inr parent \<and> si_private i = Some False)"
  unfolding admit_target_def
  by (intro spec_step_pure spec_step_record [where Q = "before_upload created"] spec_step_check
      spec_step [where P = "before_upload created"] spec_return quiet_ops stable_before)
    (auto simp: before_upload_def stage_def intro: before_honest [unfolded before_upload_def] quiet_ops)

text \<open>After the upload: what was uploaded onto what, and what the hub called it.\<close>

definition uploaded :: "cs_world \<Rightarrow> cs_action \<Rightarrow> string \<Rightarrow> cspace \<Rightarrow> bool" where
  "uploaded x a published w \<longleftrightarrow> (\<exists>created n. stage ''MEASURED'' [a] created n w \<and> tells (Some (JStr created)) n)
     \<and> logged (\<lambda>k b. b = a \<and> cw_upload x k = Inr (JStr published)) w \<and> exact_sha published"

lemma stable_ex [intro]: "(\<And>a. stable (P a)) \<Longrightarrow> stable (\<lambda>w. \<exists>a. P a w)"
  unfolding stable_def by blast

lemma stable_const [intro]: "stable (\<lambda>_. b)"
  by (simp add: stable_def)

lemma stable_all [intro]: "(\<And>a. stable (P a)) \<Longrightarrow> stable (\<lambda>w. \<forall>a. P a w)"
  unfolding stable_def by blast

lemma stable_uploaded [intro]: "stable (uploaded x a published)"
  unfolding uploaded_def by (intro stable_conj stable_ex stable_const stable_stage stable_logged)

lemma uploaded_honest: "due_upload x commit img a \<Longrightarrow> uploaded x a published w \<Longrightarrow> honest x commit img w"
  by (auto simp: uploaded_def tells_facts elim!: stage_honest)

lemma upload_spec:
  assumes due: "due_upload x commit img a" and a: "a = Upload files (deploy_message commit img) parent"
  shows "spec (honest x commit img) (before_upload created) (upload_target x commit img files parent metadata)
    (\<lambda>published. uploaded x a published)"
proof -
  let ?c = "if created then ''MEASURED'' else ''NOT_ATTEMPTED''" and ?n = "if created then 1 else 0 :: nat"
  let ?U = "\<lambda>us. stage ''UNKNOWN'' us ?c ?n"
  have h: "?U us w \<Longrightarrow> us = [] \<or> us = [a] \<Longrightarrow> honest x commit img w" for us w
    by (erule stage_honest) (use due in \<open>auto simp: tells_def\<close>)
  have up: "spec (honest x commit img) (?U []) (actC a (cw_upload x))
      (\<lambda>r w. ?U [a] w \<and> logged (\<lambda>k b. b = a \<and> cw_upload x k = r) w)"
    using a by (auto simp: spec_def actC_def stage_def uploads_def creates_def is_upload_def logged_def)
  have published: "bindE (raising r) (\<lambda>v. cs_exact_sha v code) = Inr p \<Longrightarrow> r = Inr (JStr p) \<and> exact_sha p" for r code p
    by (auto simp: raising_def cs_exact_sha_def bindE_Inr_iff map_sum_def split: sum.splits json.splits if_splits)
  have done1: "uploaded x a p w" if "stage ''MEASURED'' [a] ?c ?n w" "logged (\<lambda>k b. b = a \<and> cw_upload x k = Inr (JStr p)) w" "exact_sha p" for p w
    using that by (auto simp: uploaded_def tells_def split: if_splits)
  show ?thesis
    unfolding upload_target_def a [symmetric]
  proof (rule spec_step, rule quiet_main, rule stable_before, erule before_honest, rule spec_step_pure, erule before_honest,
      rule spec_step_record [where Q = "?U []"])
    show "before_upload created w \<Longrightarrow> ?U [] (w\<lparr>cs_receipt := dupdate (cs_receipt w)
        [(''phase'', JStr ''UPLOAD_REQUESTED''), (''write_outcome'', JStr ''UNKNOWN'')], cs_saves := Suc (cs_saves w)\<rparr>)" for w
      by (simp add: before_upload_def stage_def)
    show "?U [] w \<Longrightarrow> honest x commit img w" for w by (erule h) simp
    show "spec (honest x commit img) (?U []) (bindC (actC a (cw_upload x)) (\<lambda>oid.
        bindC (pureC (bindE (raising oid) (\<lambda>v. cs_exact_sha v ''SPACE_PUBLISH_SHA_INVALID''))) (\<lambda>published.
        bindC (recordC x [(''phase'', JStr ''UPLOADED''), (''published_revision'', JStr published), (''write_outcome'', JStr ''MEASURED''),
          (''provider_metadata_sha256'', JStr (sha256_hex metadata))]) (\<lambda>_. pureC (Inr published))))) (\<lambda>published. uploaded x a published)"
    proof (rule spec_bind [OF up], rule spec_step_pure)
      fix r p
      assume p: "bindE (raising r) (\<lambda>v. cs_exact_sha v ''SPACE_PUBLISH_SHA_INVALID'') = Inr p"
      show "spec (honest x commit img) (\<lambda>w. ?U [a] w \<and> logged (\<lambda>k b. b = a \<and> cw_upload x k = r) w)
        (bindC (recordC x [(''phase'', JStr ''UPLOADED''), (''published_revision'', JStr p), (''write_outcome'', JStr ''MEASURED''),
          (''provider_metadata_sha256'', JStr (sha256_hex metadata))]) (\<lambda>_. pureC (Inr p))) (\<lambda>published. uploaded x a published)"
      proof (rule spec_step_record [where Q = "uploaded x a p"])
        fix w
        assume "?U [a] w \<and> logged (\<lambda>k b. b = a \<and> cw_upload x k = r) w"
        with published [OF p] show "uploaded x a p (w\<lparr>cs_receipt := dupdate (cs_receipt w) [(''phase'', JStr ''UPLOADED''),
            (''published_revision'', JStr p), (''write_outcome'', JStr ''MEASURED''),
            (''provider_metadata_sha256'', JStr (sha256_hex metadata))], cs_saves := Suc (cs_saves w)\<rparr>)"
          by (intro done1) (simp_all add: stage_def logged_def)
      qed (auto intro: uploaded_honest [OF due] spec_return)
    qed (auto intro: h)
  qed
qed

text \<open>What was read back.\<close>

definition read_back_file :: "cs_world \<Rightarrow> string \<Rightarrow> string \<times> string \<Rightarrow> cspace \<Rightarrow> bool" where
  "read_back_file x published p = logged (\<lambda>k a. a = Download (fst p) published \<and> cw_download x k = Inr (snd p))"

lemma download_read: "download_bytes x f r w = (Inr data, v) \<Longrightarrow> read_back_file x r (f, data) v"
  by (auto simp: download_bytes_def bindC_Inr pureC_def actC_def read_back_file_def logged_def raising_def bindE_Inr_iff map_sum_def
      split: sum.splits if_splits)

lemma verify_bodies_read:
  "verify_bodies x r files w = (Inr (), v) \<Longrightarrow> \<forall>p \<in> set files. read_back_file x r p v"
proof (induction files arbitrary: w)
  case Nil
  then show ?case by simp
next
  case (Cons p files)
  obtain f b where p: "p = (f, b)" by (cases p)
  with Cons.prems obtain data u where d: "download_bytes x f r w = (Inr data, u)" "data = b" "verify_bodies x r files u = (Inr (), v)"
    by (auto simp: bindC_Inr pureC_Inr)
  have "read_back_file x r (f, b) v"
    using download_read [OF d(1)] d(2) logged_quiet [OF quietD [OF quiet_bodies(1) d(3)]] by (simp add: read_back_file_def)
  with Cons.IH [OF d(3)] p show ?case by simp
qed

lemma verify_files_read:
  assumes "verify_files x r files metadata w = (Inr (), v)"
  shows "\<forall>p \<in> set files. read_back_file x r p v"
proof -
  from assms obtain w1 w2 data w3 where v: "verify_bodies x r files w1 = (Inr (), w2)"
    "download_bytes x PROVIDER_METADATA r w2 = (Inr data, w3)" "v = w3"
    by (auto simp: verify_files_def bindC_Inr pureC_Inr)
  from verify_bodies_read [OF v(1)] logged_quiet [OF quietD [OF quiet_web(5) v(2)]] v(3) show ?thesis
    by (auto simp: read_back_file_def)
qed

definition published_ok :: "cs_world \<Rightarrow> cs_action \<Rightarrow> string dict \<Rightarrow> string \<Rightarrow> cspace \<Rightarrow> bool" where
  "published_ok x a files published w \<longleftrightarrow> uploaded x a published w \<and> (\<forall>p. p \<in> set files \<longrightarrow> read_back_file x published p w)"

lemma stable_published [intro]: "stable (published_ok x a files published)"
  by (auto simp: stable_def published_ok_def read_back_file_def intro: logged_quiet stable_uploaded [unfolded stable_def, rule_format])

lemma published_honest: "due_upload x commit img a \<Longrightarrow> published_ok x a files published w \<Longrightarrow> honest x commit img w"
  by (auto simp: published_ok_def intro: uploaded_honest)

lemma read_back_spec:
  assumes "due_upload x commit img a"
  shows "spec (honest x commit img) (uploaded x a published) (read_back_files x published files metadata)
    (\<lambda>_. published_ok x a files published)"
  unfolding read_back_files_def
proof (rule spec_step, rule quiet_hub(7), rule stable_uploaded, erule uploaded_honest [OF assms],
    rule spec_step_fact [where F = "\<lambda>_ w. \<forall>p \<in> set files. read_back_file x published p w"],
    rule quiet_hub(1), rule stable_uploaded, erule uploaded_honest [OF assms])
  show "spec (honest x commit img) (\<lambda>w. uploaded x a published w \<and> (\<forall>p \<in> set files. read_back_file x published p w))
      (recordC x [(''phase'', JStr ''FILES_VERIFIED''), (''file_readback'', JStr ''MEASURED'')]) (\<lambda>_. published_ok x a files published)"
  proof (rule spec_record)
    show "published_ok x a files published w \<Longrightarrow> honest x commit img w" for w by (rule published_honest [OF assms])
  qed (auto simp: published_ok_def uploaded_def read_back_file_def stage_def logged_def)
qed (simp add: verify_files_read)

section \<open>The wait\<close>

text \<open>What a round has seen when it ends the wait: a running revision and the three pages.\<close>

definition got :: "cs_world \<Rightarrow> string \<Rightarrow> string option \<Rightarrow> int \<Rightarrow> bool \<Rightarrow> jdict \<Rightarrow> cspace \<Rightarrow> bool" where
  "got x url auth status no_store d = logged (\<lambda>k a. a = Get url auth \<and> read_web (cw_sys x) url status no_store (cw_get x k) = Inr d)"

definition runs :: "cs_world \<Rightarrow> string \<Rightarrow> string \<Rightarrow> cspace \<Rightarrow> bool" where
  "runs x token published w \<longleftrightarrow> (\<exists>auth runtime. got x control_runtime_url auth 200 False runtime w
     \<and> judge_runtime_stage published runtime = Inr True)"

definition witnessed :: "cs_world \<Rightarrow> string \<Rightarrow> cspace \<Rightarrow> bool" where
  "witnessed x commit w \<longleftrightarrow> (\<exists>nonce d r i. got x (ENDPOINT @ ''/deployment.json?nonce='' @ nonce) None 200 True d w
     \<and> got x (ENDPOINT @ ''/readyz?nonce='' @ nonce) None 200 True r w
     \<and> got x (ENDPOINT @ ''/readyz/inference?nonce='' @ nonce) None 503 True i w \<and> witness_holds commit d r i)"

lemma stable_seen [intro]: "stable (got x url auth st ns d)" "stable (runs x token published)" "stable (witnessed x commit)"
  unfolding got_def [abs_def] runs_def [abs_def] witnessed_def [abs_def]
  by (intro stable_ex stable_conj stable_const stable_logged)+

lemma request_json_got:
  "request_json x url token st ns w = (Inr d, v) \<Longrightarrow> \<exists>auth. got x url auth st ns d v \<and> (token = None \<longrightarrow> auth = None)"
  unfolding request_json_def bindC_Inr got_def pureC_Inr
  by (auto dest!: actC_logged simp: logged_def
      intro!: exI [of _ "case token of None \<Rightarrow> None | Some t \<Rightarrow> if t = [] then None else Some (''Bearer '' @ t)"])

lemma runtime_aligned_runs: "runtime_aligned x token published w = (Inr True, v) \<Longrightarrow> runs x token published v"
  unfolding runtime_aligned_def bindC_Inr runs_def pureC_Inr by (blast dest: request_json_got)

lemma witness_space_witnessed: "witness_space x commit w = (Inr (), v) \<Longrightarrow> witnessed x commit v"
proof -
  assume "witness_space x commit w = (Inr (), v)"
  then obtain nonce w0 d w1 r w2 i where w: "request_json x (ENDPOINT @ ''/deployment.json?nonce='' @ nonce) None 200 True w0 = (Inr d, w1)"
    "request_json x (ENDPOINT @ ''/readyz?nonce='' @ nonce) None 200 True w1 = (Inr r, w2)"
    "request_json x (ENDPOINT @ ''/readyz/inference?nonce='' @ nonce) None 503 True w2 = (Inr i, v)" "witness_holds commit d r i"
    unfolding witness_space_def bindC_Inr pureC_Inr by blast
  note q = quietD [OF quiet_web(2) w(2)] quietD [OF quiet_web(2) w(3)]
  from request_json_got [OF w(1)] q have "got x (ENDPOINT @ ''/deployment.json?nonce='' @ nonce) None 200 True d v"
    by (auto simp: got_def intro: logged_quiet)
  moreover from request_json_got [OF w(2)] q have "got x (ENDPOINT @ ''/readyz?nonce='' @ nonce) None 200 True r v"
    by (auto simp: got_def intro: logged_quiet)
  moreover from request_json_got [OF w(3)] have "got x (ENDPOINT @ ''/readyz/inference?nonce='' @ nonce) None 503 True i v" by auto
  ultimately show ?thesis using w(4) unfolding witnessed_def by blast
qed

lemma softC_True: "softC m w = (Inr True, v) \<Longrightarrow> m w = (Inr True, v)"
  by (auto simp: softC_def split: prod.splits sum.splits cs_error.splits if_splits)

lemma rest_round_false: "rest_round x d w = (Inr b, v) \<Longrightarrow> \<not> b"
  by (auto simp: rest_round_def bindC_Inr pureC_Inr)

lemma converge_round_seen:
  assumes "converge_round x token commit published d w = (Inr True, v)"
  shows "runs x token published v \<and> witnessed x commit v"
proof -
  from assms obtain w1 w2 where r: "softC (runtime_aligned x token published) w1 = (Inr True, w2)"
    "softC (bindC (witness_space x commit) (\<lambda>_. pureC (Inr True))) w2 = (Inr True, v)"
    unfolding converge_round_def bindC_Inr
    by (auto simp: pureC_Inr split: if_splits dest: rest_round_false)
  from softC_True [OF r(2)] have w: "witness_space x commit w2 = (Inr (), v)" by (auto simp: bindC_Inr pureC_Inr)
  from runtime_aligned_runs [OF softC_True [OF r(1)]] have "runs x token published v"
    using stable_seen(2) quietD [OF quiet_hub(6) w] unfolding stable_def by blast
  with witness_space_witnessed [OF w] show ?thesis by blast
qed

lemma converge_quiet:
  "converge k x token commit published d w = Some (r, v) \<Longrightarrow> quiet_step w v \<and> (r = Inr () \<longrightarrow> runs x token published v \<and> witnessed x commit v)"
proof (induction k arbitrary: w)
  case 0
  then show ?case by simp
next
  case (Suc k)
  obtain q u where u: "converge_round x token commit published d w = (q, u)" by fastforce
  then have s: "quiet_step w u" by (rule quietD [OF quiet_round(2)])
  show ?case
  proof (cases q)
    case (Inl e)
    with Suc.prems u s show ?thesis by auto
  next
    case (Inr b)
    show ?thesis
    proof (cases b)
      case True
      with Suc.prems u s Inr converge_round_seen show ?thesis by auto
    next
      case False
      with Suc.prems u Inr have "converge k x token commit published d u = Some (r, v)" by simp
      from Suc.IH [OF this] s show ?thesis by (blast intro: quiet_step_trans)
    qed
  qed
qed

section \<open>The receipt\<close>

lemma prefix_spec:
  "spec (honest x commit img) (stage ''NOT_ATTEMPTED'' [] ''NOT_ATTEMPTED'' 0) (publish_prefix x token commit img)
     (\<lambda>published w. \<exists>files parent. space_files (cw_sys x) (JStr commit) (JStr img) = Inr files
        \<and> due_upload x commit img (Upload files (deploy_message commit img) parent)
        \<and> published_ok x (Upload files (deploy_message commit img) parent) files published w)"
proof -
  let ?E = "honest x commit img"
  have tail: "spec ?E (\<lambda>w. before_upload created w \<and> repo_identity i = Inr parent \<and> si_private i = Some False)
      (bindC (upload_target x commit img files parent metadata) (\<lambda>published.
       bindC (read_back_files x published files metadata) (\<lambda>_. pureC (Inr published))))
      (\<lambda>published w. \<exists>files parent. space_files (cw_sys x) (JStr commit) (JStr img) = Inr files
        \<and> due_upload x commit img (Upload files (deploy_message commit img) parent)
        \<and> published_ok x (Upload files (deploy_message commit img) parent) files published w)"
    if files: "space_files (cw_sys x) (JStr commit) (JStr img) = Inr files" and info: "found_info x i" for files i created parent metadata
  proof (cases "repo_identity i = Inr parent \<and> si_private i = Some False")
    case True
    let ?a = "Upload files (deploy_message commit img) parent"
    have due: "due_upload x commit img ?a" using files info True by (auto simp: due_upload_def found_info_def)
    have "spec ?E (before_upload created) (bindC (upload_target x commit img files parent metadata) (\<lambda>published.
       bindC (read_back_files x published files metadata) (\<lambda>_. pureC (Inr published)))) (\<lambda>published. published_ok x ?a files published)"
      by (rule spec_bind [OF upload_spec [OF due refl]], rule spec_bind [OF read_back_spec [OF due]], rule spec_return)
    with True files due show ?thesis by (auto elim!: spec_weaken)
  qed (auto simp: spec_def)
  show ?thesis
    unfolding publish_prefix_def
  proof (rule spec_bind [OF preflight_spec], rule spec_bind [where Q = "\<lambda>(i, created) w. before_upload created w \<and> found_info x i
      \<and> space_files (cw_sys x) (JStr commit) (JStr img) = Inr files" for files])
    fix files
    let ?f = "space_files (cw_sys x) (JStr commit) (JStr img) = Inr files"
    show "spec ?E (\<lambda>w. stage ''NOT_ATTEMPTED'' [] ''NOT_ATTEMPTED'' 0 w \<and> ?f) (open_target x)
      (\<lambda>(i, created) w. before_upload created w \<and> found_info x i \<and> ?f)"
    proof (cases ?f)
      case True
      have "before_upload False = stage ''NOT_ATTEMPTED'' [] ''NOT_ATTEMPTED'' 0" by (simp add: before_upload_def)
      from open_spec [of x commit img, unfolded this] show ?thesis
        by (rule spec_weaken) (auto simp: True)
    qed (simp add: spec_def)
    fix y :: "space_info \<times> bool"
    obtain i created where y: "y = (i, created)" by (cases y)
    show "spec ?E (case y of (i, created) \<Rightarrow> \<lambda>w. before_upload created w \<and> found_info x i \<and> ?f)
      (case y of (before, created) \<Rightarrow> bindC (admit_target x before created) (\<lambda>(parent, metadata).
        bindC (upload_target x commit img files parent metadata) (\<lambda>published.
        bindC (read_back_files x published files metadata) (\<lambda>_. pureC (Inr published)))))
      (\<lambda>published w. \<exists>files parent. space_files (cw_sys x) (JStr commit) (JStr img) = Inr files
        \<and> due_upload x commit img (Upload files (deploy_message commit img) parent)
        \<and> published_ok x (Upload files (deploy_message commit img) parent) files published w)"
    proof (cases "found_info x i \<and> ?f")
      case True
      then have files: ?f and info: "found_info x i" by auto
      have admit: "spec ?E (\<lambda>w. before_upload created w \<and> found_info x i \<and> ?f) (admit_target x i created)
          (\<lambda>(parent, metadata) w. before_upload created w \<and> repo_identity i = Inr parent \<and> si_private i = Some False)"
        by (rule spec_weaken [OF admit_spec]) auto
      show ?thesis
        unfolding y prod.case
      proof (rule spec_bind [OF admit])
        fix z :: "string \<times> string"
        obtain parent metadata where z: "z = (parent, metadata)" by (cases z)
        show "spec ?E (case z of (parent, metadata) \<Rightarrow> \<lambda>w. before_upload created w \<and> repo_identity i = Inr parent \<and> si_private i = Some False)
          (case z of (parent, metadata) \<Rightarrow> bindC (upload_target x commit img files parent metadata) (\<lambda>published.
            bindC (read_back_files x published files metadata) (\<lambda>_. pureC (Inr published))))
          (\<lambda>published w. \<exists>files parent. space_files (cw_sys x) (JStr commit) (JStr img) = Inr files
            \<and> due_upload x commit img (Upload files (deploy_message commit img) parent)
            \<and> published_ok x (Upload files (deploy_message commit img) parent) files published w)"
          unfolding z prod.case by (rule tail [OF files info])
      qed
    qed (auto simp: y spec_def)
  qed
qed

text \<open>What holds when everything has been seen.\<close>

definition all_seen :: "cs_world \<Rightarrow> string \<Rightarrow> string \<Rightarrow> string \<Rightarrow> string dict \<Rightarrow> string \<Rightarrow> string \<Rightarrow> cspace \<Rightarrow> bool" where
  "all_seen x token commit img files parent published w \<longleftrightarrow> published_ok x (Upload files (deploy_message commit img) parent) files published w
     \<and> runs x token published w \<and> witnessed x commit w"

lemma stable_all_seen [intro]: "stable (all_seen x token commit img files parent published)"
  unfolding all_seen_def [abs_def] by (intro stable_conj stable_published stable_seen)

lemma all_seen_record:
  "all_seen x token commit img files parent published w \<Longrightarrow> dget d ''write_outcome'' = dget (cs_receipt w) ''write_outcome''
     \<Longrightarrow> dget d ''creation_outcome'' = dget (cs_receipt w) ''creation_outcome''
     \<Longrightarrow> all_seen x token commit img files parent published (w\<lparr>cs_receipt := d, cs_saves := n\<rparr>)"
  by (auto simp: all_seen_def published_ok_def uploaded_def stage_def logged_def read_back_file_def runs_def witnessed_def got_def)

lemma protected_main_context: "require_protected_main x commit w = (Inr (), v) \<Longrightarrow> exact_sha commit \<and> source_context (cw_sys x) commit"
  by (auto simp: require_protected_main_def bindC_Inr pureC_Inr cs_exact_sha_def split: if_splits)

lemma suffix_spec:
  assumes due: "due_upload x commit img (Upload files (deploy_message commit img) parent)"
  shows "spec (honest x commit img) (all_seen x token commit img files parent published) (publish_suffix x commit)
    (\<lambda>_ w. all_seen x token commit img files parent published w \<and> exact_sha commit \<and> source_context (cw_sys x) commit)"
proof -
  let ?P = "all_seen x token commit img files parent published"
  have h: "?P w \<Longrightarrow> honest x commit img w" for w
    using published_honest [OF due] by (auto simp: all_seen_def)
  show ?thesis
    unfolding publish_suffix_def
  proof (rule spec_step_fact [where F = "\<lambda>_ _. exact_sha commit \<and> source_context (cw_sys x) commit"])
    show "spec (honest x commit img) (\<lambda>w. ?P w \<and> exact_sha commit \<and> source_context (cw_sys x) commit)
      (recordC x [(''status'', JStr ''MEASURED''), (''phase'', JStr ''RUNTIME_VERIFIED''), (''provider_stage'', JStr ''RUNNING''),
         (''control_readiness'', JStr ''MEASURED''), (''inference'', JStr ''UNAVAILABLE''),
         (''inference_reason'', JStr ''UNCONFIGURED_EGRESS_DENIED'')])
      (\<lambda>_ w. ?P w \<and> exact_sha commit \<and> source_context (cw_sys x) commit)"
      by (rule spec_record) (auto intro!: all_seen_record h)
  qed (auto intro: quiet_ops h dest: protected_main_context)
qed

lemma publish_outcome:
  assumes run: "publish_control x token commit img w = Some (r, v)" and start: "stage ''NOT_ATTEMPTED'' [] ''NOT_ATTEMPTED'' 0 w"
  shows "honest x commit img v \<and> (r = Inr () \<longrightarrow> (\<exists>files parent published. space_files (cw_sys x) (JStr commit) (JStr img) = Inr files
    \<and> all_seen x token commit img files parent published v \<and> exact_sha commit \<and> source_context (cw_sys x) commit))"
proof -
  obtain q w1 where q: "publish_prefix x token commit img w = (q, w1)" by fastforce
  note p = prefix_spec [of x commit img token, unfolded spec_def, rule_format, OF conjI, OF start q]
  show ?thesis
  proof (cases q)
    case (Inl e)
    with p run q show ?thesis by (auto simp: publish_control_def)
  next
    case (Inr published)
    with p obtain files parent where f: "space_files (cw_sys x) (JStr commit) (JStr img) = Inr files"
      "due_upload x commit img (Upload files (deploy_message commit img) parent)"
      "published_ok x (Upload files (deploy_message commit img) parent) files published w1" by auto
    let ?a = "Upload files (deploy_message commit img) parent"
    define w2 where "w2 = w1\<lparr>cs_ticks := Suc (cs_ticks w1)\<rparr>"
    let ?d = "cw_clock x (cs_ticks w1) + cs_slept w1 + 900"
    have "quiet_step w1 w2" by (simp add: w2_def quiet_step_def)
    with f(3) stable_published have p2: "published_ok x ?a files published w2" unfolding stable_def by blast
    from run q Inr obtain c w3 where c: "converge converge_fuel x token commit published ?d w2 = Some (c, w3)"
      and end1: "c = Inr () \<Longrightarrow> publish_suffix x commit w3 = (r, v)" and end2: "c \<noteq> Inr () \<Longrightarrow> \<exists>e. r = Inl e \<and> v = w3"
      by (auto simp: publish_control_def Let_def w2_def split: option.splits sum.splits)
    note s = converge_quiet [OF c]
    from s p2 stable_published have p3: "published_ok x ?a files published w3" unfolding stable_def by blast
    show ?thesis
    proof (cases "c = Inr ()")
      case True
      with s p3 have "all_seen x token commit img files parent published w3" by (simp add: all_seen_def)
      from suffix_spec [OF f(2), unfolded spec_def, rule_format, OF conjI, OF this end1 [OF True]] f(1)
      show ?thesis using published_honest [OF f(2)] by (auto simp: all_seen_def split: sum.splits)
    next
      case False
      from end2 [OF False] published_honest [OF f(2) p3] show ?thesis by auto
    qed
  qed
qed

lemma main_outcome:
  assumes "control_main x commit img = Some (code, receipt, acts)"
  obtains (unsaved) e where "code = Inl e" "receipt = first_receipt commit img" "acts = []"
  | (ran_out) r v w where "publish_control x (env_get (s_env (cw_sys x)) ''HF_TOKEN'' []) commit img w = Some (r, v)"
      "stage ''NOT_ATTEMPTED'' [] ''NOT_ATTEMPTED'' 0 w" "receipt = conclude_control r (cs_receipt v)" "acts = cs_log v"
      "\<And>n. code = Inr n \<Longrightarrow> (n = 0 \<longleftrightarrow> dget receipt ''status'' = Some (JStr ''MEASURED''))" "\<And>n. code = Inr n \<Longrightarrow> n = 0 \<or> n = 1"
proof (cases "cw_save x 0")
  case (Some e)
  with assms show thesis by (intro unsaved) (auto simp: control_main_def Let_def)
next
  case None
  let ?w = "\<lparr>cs_log = [], cs_receipt = first_receipt commit img, cs_saves = 1, cs_ticks = 0, cs_slept = 0\<rparr>"
  from assms None obtain r v where run: "publish_control x (env_get (s_env (cw_sys x)) ''HF_TOKEN'' []) commit img ?w = Some (r, v)"
    "receipt = conclude_control r (cs_receipt v)" "acts = cs_log v"
    "code = (case cw_save x (cs_saves v) of Some e \<Rightarrow> Inl e | None \<Rightarrow> Inr (if dget receipt ''status'' = Some (JStr ''MEASURED'') then 0 else 1))"
    by (auto simp: control_main_def Let_def)
  show thesis
    by (rule ran_out [OF run(1) _ run(2,3)]) (use run(4) in \<open>auto simp: stage_def first_receipt_def uploads_def creates_def split: option.splits if_splits\<close>)
qed

lemma conclude_outcomes:
  "dget (conclude_control r d) ''write_outcome'' = dget d ''write_outcome''" "dget (conclude_control r d) ''creation_outcome'' = dget d ''creation_outcome''"
  "dget (conclude_control (Inl e) d) ''status'' \<noteq> Some (JStr ''MEASURED'')"
  by (auto simp: conclude_control_def split: sum.splits cs_error.splits)

section \<open>The three files\<close>

lemma find_sub_append: "find_sub p t = Some (a, b) \<Longrightarrow> find_sub p (t @ u) = Some (a, b @ u)"
proof (induction t arbitrary: a)
  case (Cons c t)
  from find_sub_Some [OF Cons.prems] have len: "length p \<le> length (c # t)" by (metis length_append le_add1 le_add2 order_trans)
  then have "startswith p ((c # t) @ u) \<longleftrightarrow> startswith p (c # t)" "drop (length p) ((c # t) @ u) = drop (length p) (c # t) @ u"
    by (simp_all add: startswith_def del: append_Cons)
  with Cons show ?case by (auto split: if_splits)
next
  case Nil
  then show ?case by (cases u) (auto simp: startswith_def split: if_splits)
qed

lemma card_front: "\<exists>a. find_sub front_end (drop 4 card_yaml) = Some (a, []) \<and> take 4 card_yaml @ a @ front_end = card_yaml"
proof -
  have "case find_sub front_end (drop 4 card_yaml) of Some (a, b) \<Rightarrow> b = [] \<and> take 4 card_yaml @ a @ front_end = card_yaml | None \<Rightarrow> False"
    by code_simp
  then show ?thesis by (auto split: option.splits prod.splits)
qed

lemma card_long: "4 \<le> length card_yaml"
  by (simp add: card_yaml_def nl_def)

lemma with_artwork_card: "with_artwork (card_yaml @ body) = Some (card_yaml @ artwork @ body)"
proof -
  obtain a where a: "find_sub front_end (drop 4 card_yaml) = Some (a, [])" "take 4 card_yaml @ a @ front_end = card_yaml"
    using card_front by blast
  from find_sub_append [OF a(1)] a(2) card_long show ?thesis
    by (simp add: with_artwork_def flip: append_assoc)
qed

text \<open>The card is the original front matter, the artwork, and the original body, each byte for byte.\<close>

lemma three_files:
  assumes "exact_sha commit" "digest_ok img"
  shows "space_files z (JStr commit) (JStr img) = Inr
    [(''README.md'', utf8 (card_yaml @ artwork @ card_body commit img)), (''Dockerfile'', utf8 (dockerfile img)),
     (''SOURCE_BINDING.json'', pretty_bytes z (JObj (control_binding commit img)))]"
  using assms by (simp add: space_files_def legacy_space_files_def cs_exact_sha_def exact_digest_def legacy_readme_def with_artwork_card)

section \<open>The wait ends\<close>

text \<open>Operations that do not sleep, and never turn the clock back.\<close>

definition steady :: "'a cs_op \<Rightarrow> bool" where
  "steady m \<longleftrightarrow> (\<forall>w. cs_ticks w \<le> cs_ticks (snd (m w)) \<and> cs_slept (snd (m w)) = cs_slept w)"

named_theorems steady_ops

lemma steady_bind: "steady m \<Longrightarrow> (\<And>a. steady (f a)) \<Longrightarrow> steady (bindC m f)"
  unfolding steady_def bindC_def by (auto split: prod.splits sum.splits) (metis le_trans snd_conv)+

lemma steady_basic: "steady (pureC r)" "steady (checkC b c)" "steady (cs_clock x)" "steady (tick_nonce x)" "steady (actC a f)"
  by (simp_all add: steady_def pureC_def checkC_def cs_clock_def tick_nonce_def actC_def)

lemma steady_soft: "steady n \<Longrightarrow> steady (softC n)"
  unfolding steady_def softC_def by (auto split: prod.splits sum.splits cs_error.splits) (metis snd_conv)+

lemmas steady_intros = steady_bind steady_basic steady_soft

lemma steady_web [steady_ops]: "steady (request_json x url token st ns)" "steady (hub_info x)"
  by (auto simp: request_json_def hub_info_def intro!: steady_intros)

lemma steady_round [steady_ops]: "steady (check_published x r)" "steady (runtime_aligned x token r)" "steady (witness_space x c)"
  unfolding check_published_def runtime_aligned_def witness_space_def by (auto intro!: steady_intros steady_ops)

definition cs_now :: "cs_world \<Rightarrow> cspace \<Rightarrow> rat" where
  "cs_now x w = cw_clock x (cs_ticks w) + cs_slept w"

lemma steady_now: "mono (cw_clock x) \<Longrightarrow> steady m \<Longrightarrow> m w = (r, v) \<Longrightarrow> cs_now x w \<le> cs_now x v"
  unfolding steady_def cs_now_def by (metis add_mono monoD order_refl snd_conv)

text \<open>A round that does not end the wait began before the deadline, and ends at it or ten seconds later.\<close>

lemma rest_round_later:
  assumes "mono (cw_clock x)" "rest_round x d w = (Inr b, v)"
  shows "cs_now x w < d \<and> min d (cs_now x w + 10) \<le> cs_now x v"
proof -
  let ?t = "\<lambda>k. cw_clock x (k + cs_ticks w)"
  have m: "?t 0 \<le> ?t 1" "?t 1 \<le> ?t 2" using assms(1) by (simp_all add: mono_def)
  from assms(2) have "?t 0 + cs_slept w < d" "cs_now x v = ?t 2 + cs_slept w + min 10 (max 0 (d - (?t 1 + cs_slept w)))"
    by (auto simp: rest_round_def bindC_def checkC_def pureC_def cs_clock_def cs_sleep_def cs_now_def numeral_2_eq_2 split: if_splits)
  with m show ?thesis by (simp add: cs_now_def min_def max_def)
qed

lemma round_later:
  assumes "mono (cw_clock x)" "converge_round x token commit published d w = (Inr False, v)"
  shows "cs_now x w < d \<and> min d (cs_now x w + 10) \<le> cs_now x v"
proof -
  let ?see = "\<lambda>aligned. if aligned then softC (bindC (witness_space x commit) (\<lambda>_. pureC (Inr True))) else pureC (Inr False)"
  from assms(2) obtain w1 w2 aligned w3 where r: "check_published x published w = (Inr (), w1)"
    "softC (runtime_aligned x token published) w1 = (Inr aligned, w2)" "?see aligned w2 = (Inr False, w3)" "rest_round x d w3 = (Inr False, v)"
    unfolding converge_round_def bindC_Inr by (auto simp: pureC_Inr split: if_splits)
  have "steady (?see aligned)" by (auto intro!: steady_intros steady_ops)
  note s = steady_now [OF assms(1) steady_round(1) r(1)] steady_now [OF assms(1) steady_soft [OF steady_round(2)] r(2)]
    steady_now [OF assms(1) this r(3)]
  from s rest_round_later [OF assms(1) r(4)] show ?thesis by (simp add: min_def split: if_splits)
qed

lemma converge_ends:
  assumes "mono (cw_clock x)" "d - cs_now x w \<le> 10 * of_nat k"
  shows "\<exists>r. converge (Suc k) x token commit published d w = Some r"
  using assms(2)
proof (induction k arbitrary: w)
  case 0
  obtain q v where q: "converge_round x token commit published d w = (q, v)" by fastforce
  with round_later [OF assms(1), of token commit published d w v] 0 have "q \<noteq> Inr False" by auto
  with q show ?case by (cases q) auto
next
  case (Suc k)
  obtain q v where q: "converge_round x token commit published d w = (q, v)" by fastforce
  show ?case
  proof (cases "q = Inr False")
    case True
    with round_later [OF assms(1)] q have "min d (cs_now x w + 10) \<le> cs_now x v" by blast
    with Suc.prems have "d - cs_now x v \<le> 10 * of_nat k" by (auto simp: min_def algebra_simps split: if_splits)
    from Suc.IH [OF this] q True show ?thesis by simp
  qed (use q in \<open>cases q; auto\<close>)
qed

lemma publish_ends:
  assumes "mono (cw_clock x)"
  shows "\<exists>r. publish_control x token commit img w = Some r"
proof -
  obtain q w1 where q: "publish_prefix x token commit img w = (q, w1)" by fastforce
  let ?w2 = "w1\<lparr>cs_ticks := Suc (cs_ticks w1)\<rparr>" and ?d = "cw_clock x (cs_ticks w1) + cs_slept w1 + 900"
  have "?d - cs_now x ?w2 \<le> 10 * of_nat 90" using monoD [OF assms, of "cs_ticks w1" "Suc (cs_ticks w1)"] by (simp add: cs_now_def)
  from converge_ends [OF assms this] have e: "\<exists>r. converge converge_fuel x token commit p ?d ?w2 = Some r" for p
    by (simp add: converge_fuel_def)
  show ?thesis
  proof (cases q)
    case (Inr p)
    from e [of p] obtain c w3 where "converge converge_fuel x token commit p ?d ?w2 = Some (c, w3)" by (metis surj_pair)
    with q Inr show ?thesis by (cases c) (auto simp: publish_control_def Let_def)
  qed (use q in \<open>simp add: publish_control_def\<close>)
qed

section \<open>A run that creates the Space\<close>

definition pub_commit :: string where "pub_commit = replicate 40 (CHR ''a'')"
definition pub_digest :: string where "pub_digest = ''sha256:'' @ replicate 64 (CHR ''b'')"
definition pub_parent :: string where "pub_parent = replicate 40 (CHR ''c'')"
definition pub_revision :: string where "pub_revision = replicate 40 (CHR ''d'')"

definition pub_replies :: "(string \<times> jdict) list" where
  "pub_replies = [(''token'', [(''token'', JStr ''t'')]),
     (''runtime'', [(''stage'', JStr ''RUNNING''), (''sha'', JStr pub_revision)]),
     (''deployment'', [(''schema'', JStr ''szl.router-deployment/v1''), (''source_revision'', JStr pub_commit),
        (''egress_enabled'', JBool False), (''registry_state'', JStr ''UNAVAILABLE_NOT_CONFIGURED'')]),
     (''ready'', [(''status'', JStr ''ready''), (''scope'', JStr ''CONTROL_PLANE''), (''egress_enabled'', JBool False)]),
     (''inference'', [(''ready_for_requests'', JBool False), (''inference_witness'', JStr ''UNAVAILABLE'')])]"

definition pub_sys :: sys where
  "pub_sys = small_sys\<lparr>s_env := (\<lambda>k. if k = ''HF_TOKEN'' then Some ''h'' else if k = ''GITHUB_REPOSITORY'' then Some SOURCE_REPOSITORY
       else if k = ''GITHUB_REF'' then Some ''refs/heads/main'' else if k = ''GITHUB_SHA'' then Some pub_commit else None),
     s_loads := (\<lambda>t. case map_of pub_replies t of Some d \<Rightarrow> Inr (JObj d) | None \<Rightarrow> Inl (ValueError t))\<rparr>"

definition pub_files :: "string dict" where
  "pub_files = (case space_files pub_sys (JStr pub_commit) (JStr pub_digest) of Inr files \<Rightarrow> files | Inl _ \<Rightarrow> [])"

text \<open>The Space is created, and runs at once.\<close>

definition pub_get :: "nat \<Rightarrow> web" where
  "pub_get k = (let page = (\<lambda>status path b. WebAnswer status path [(''cache-control'', ''no-store'')] (Inr b)) in
     if k = 3 then page 200 ''https://ghcr.io/token'' ''token'' else if k = 22 then page 200 control_runtime_url ''runtime''
     else if k = 23 then page 200 (ENDPOINT @ ''/deployment.json'') ''deployment'' else if k = 24 then page 200 (ENDPOINT @ ''/readyz'') ''ready''
     else page 503 (ENDPOINT @ ''/readyz/inference'') ''inference'')"

definition pub_info :: "json \<Rightarrow> info_answer" where
  "pub_info sha = InfoOf \<lparr>si_id = Some CONTROL_TARGET, si_sdk = Some ''docker'', si_sha = sha, si_private = Some False\<rparr>"

definition pub_world :: cs_world where
  "pub_world = \<lparr>cw_sys = pub_sys, cw_git = (\<lambda>_ args. Some (if args = [''status'', ''--porcelain=v1''] then [] else pub_commit)), cw_get = pub_get,
     cw_head = (\<lambda>_. Inr (200, Some pub_digest)),
     cw_info = (\<lambda>k. if k = 5 then NotFound (Some 404) else pub_info (JStr (if k = 7 then pub_parent else pub_revision))),
     cw_act = (\<lambda>_. None), cw_files = (\<lambda>k. Inr (if k = 9 then [PROVIDER_METADATA] else PROVIDER_METADATA # CONTROL_FILES)),
     cw_download = (\<lambda>k. Inr (if k = 17 then snd (pub_files ! 0) else if k = 18 then snd (pub_files ! 1) else if k = 19 then snd (pub_files ! 2) else ''lfs'')),
     cw_upload = (\<lambda>_. Inr (JStr pub_revision)), cw_card = (\<lambda>_. None), cw_folder = None, cw_save = (\<lambda>_. None), cw_bootstrap = Inr [],
     cw_clock = (\<lambda>k. of_nat k), cw_nonce = (\<lambda>_. ''00'')\<rparr>"



lemma utf8_longer: "length (utf8 t) \<le> 2 * length t"
  by (induction t) (auto simp: utf8_def Let_def)

lemma pub_names: "exact_sha pub_commit" "exact_sha pub_parent" "exact_sha pub_revision" "digest_ok pub_digest" "strip pub_commit = pub_commit"
     "fst (partition_at (CHR 0x09) pub_commit) = pub_commit"
    by code_simp+

lemma pub_binding: "length (pretty_bytes pub_sys (JObj (control_binding pub_commit pub_digest))) < 5000"
  by code_simp

lemma pub_card: "length (utf8 (card_yaml @ artwork @ card_body pub_commit pub_digest)) < 5000" (is "length (utf8 ?t) < _")
proof -
  have "length ?t < 2500" by (simp add: card_yaml_def artwork_def card_body_def nl_def quoted_text_def pub_commit_def pub_digest_def IMAGE_def BRAND_def)
  with utf8_longer [of ?t] show ?thesis by linarith
qed

lemma pub_docker: "length (utf8 (dockerfile pub_digest)) < 5000" (is "length (utf8 ?t) < _")
proof -
  have "length ?t < 2500" by (simp add: dockerfile_def nl_def quoted_text_def pub_digest_def IMAGE_def)
  with utf8_longer [of ?t] show ?thesis by linarith
qed

lemma pub_files_three:
  obtains r d b where "space_files pub_sys (JStr pub_commit) (JStr pub_digest) = Inr [(''README.md'', r), (''Dockerfile'', d), (''SOURCE_BINDING.json'', b)]"
  "length r < 5000" "length d < 5000" "length b < 5000"
  using three_files [OF pub_names(1,4), of pub_sys] pub_card pub_docker pub_binding by blast

lemmas run_rules = bindC_def pureC_def checkC_def recordC_def actC_def doC_def raising_def

lemma pub_fields:
  "cw_sys pub_world = pub_sys" "cw_get pub_world = pub_get" "cw_head pub_world k = Inr (200, Some pub_digest)"
  "cw_info pub_world k = (if k = 5 then NotFound (Some 404) else pub_info (JStr (if k = 7 then pub_parent else pub_revision)))"
  "cw_act pub_world k = None" "cw_files pub_world k = Inr (if k = 9 then [PROVIDER_METADATA] else PROVIDER_METADATA # CONTROL_FILES)"
  "cw_download pub_world k = Inr (if k = 17 then snd (pub_files ! 0) else if k = 18 then snd (pub_files ! 1) else if k = 19 then snd (pub_files ! 2) else ''lfs'')"
  "cw_upload pub_world k = Inr (JStr pub_revision)" "cw_card pub_world t = None" "cw_folder pub_world = None" "cw_save pub_world k = None"
  "cw_clock pub_world k = of_nat k" "cw_nonce pub_world k = ''00''"
  by (simp_all add: pub_world_def)

lemma pub_env: "env_get (s_env pub_sys) ''HF_TOKEN'' [] = ''h''" "strip ''h'' = ''h''" "source_context pub_sys pub_commit" by code_simp+

lemma pub_read:
  "read_web pub_sys registry_token_url 200 False (pub_get 3) = Inr [(''token'', JStr ''t'')]"
  "read_web pub_sys control_runtime_url 200 False (pub_get 22) = Inr [(''stage'', JStr ''RUNNING''), (''sha'', JStr pub_revision)]"
  by code_simp+

lemma pub_reads: "k = 3 \<Longrightarrow> read_web pub_sys registry_token_url 200 False (pub_get k) = Inr [(''token'', JStr ''t'')]"
  "k = 22 \<Longrightarrow> read_web pub_sys control_runtime_url 200 False (pub_get k) = Inr [(''stage'', JStr ''RUNNING''), (''sha'', JStr pub_revision)]"
  by (simp_all only: pub_read)

lemma pub_pages: "\<exists>d r i. read_web pub_sys (ENDPOINT @ ''/deployment.json?nonce=00'') 200 True (pub_get 23) = Inr d
  \<and> read_web pub_sys (ENDPOINT @ ''/readyz?nonce=00'') 200 True (pub_get 24) = Inr r
  \<and> read_web pub_sys (ENDPOINT @ ''/readyz/inference?nonce=00'') 503 True (pub_get 25) = Inr i \<and> witness_holds pub_commit d r i"
proof -
  have "case (read_web pub_sys (ENDPOINT @ ''/deployment.json?nonce=00'') 200 True (pub_get 23), read_web pub_sys (ENDPOINT @ ''/readyz?nonce=00'') 200 True (pub_get 24),
    read_web pub_sys (ENDPOINT @ ''/readyz/inference?nonce=00'') 503 True (pub_get 25)) of (Inr d, Inr r, Inr i) \<Rightarrow> witness_holds pub_commit d r i | _ \<Rightarrow> False"
    by code_simp
  then show ?thesis by (auto split: sum.splits)
qed

lemma pub_facts: "quote ''/'' ''00'' = ''00''" "repo_identity \<lparr>si_id = Some CONTROL_TARGET, si_sdk = Some ''docker'', si_sha = JStr pub_parent, si_private = Some False\<rparr> = Inr pub_parent"
   "repo_identity \<lparr>si_id = Some CONTROL_TARGET, si_sdk = Some ''docker'', si_sha = JStr pub_revision, si_private = Some False\<rparr> = Inr pub_revision"
   "judge_runtime_stage pub_revision [(''stage'', JStr ''RUNNING''), (''sha'', JStr pub_revision)] = Inr True"
   "set (PROVIDER_METADATA # CONTROL_FILES) = set CONTROL_FILES \<union> {PROVIDER_METADATA}"
  by code_simp+

lemma pub_main: "require_protected_main pub_world pub_commit w = (Inr (), w\<lparr>cs_log := cs_log w @ [Git [''rev-parse'', ''HEAD''], Git [''status'', ''--porcelain=v1''], Git ls_remote]\<rparr>)"
  using pub_names pub_env by (simp add: require_protected_main_def run_rules git_text_def pub_world_def cs_exact_sha_def strip_def strip_by_def rstrip_by_def ls_remote_def)



lemma pub_run: "\<exists>receipt acts. control_main pub_world pub_commit pub_digest = Some (Inr 0, receipt, acts) \<and> length acts = 29"
proof -
  obtain r d b where f: "space_files pub_sys (JStr pub_commit) (JStr pub_digest) = Inr [(''README.md'', r), (''Dockerfile'', d), (''SOURCE_BINDING.json'', b)]"
    and len: "length r < 5000" "length d < 5000" "length b < 5000" using pub_files_three .
  then have parts: "pub_files ! 0 = (''README.md'', r)" "pub_files ! Suc 0 = (''Dockerfile'', d)" "pub_files ! 2 = (''SOURCE_BINDING.json'', b)" 
     "\<not> 131072 < length r" "\<not> 131072 < length d" "\<not> 131072 < length b"
    by (simp_all add: pub_files_def)
  obtain dp rp ip where pages: "read_web pub_sys (ENDPOINT @ ''/deployment.json?nonce=00'') 200 True (pub_get 23) = Inr dp"
    "read_web pub_sys (ENDPOINT @ ''/readyz?nonce=00'') 200 True (pub_get 24) = Inr rp"
    "read_web pub_sys (ENDPOINT @ ''/readyz/inference?nonce=00'') 503 True (pub_get 25) = Inr ip" "witness_holds pub_commit dp rp ip" using pub_pages by blast
  have fuel: "converge converge_fuel y token c p e u = (case converge_round y token c p e u of
        (Inl e, w1) \<Rightarrow> Some (Inl e, w1) | (Inr True, w1) \<Rightarrow> Some (Inr (), w1) | (Inr False, w1) \<Rightarrow> converge 90 y token c p e w1)" for y token c p e u
    using converge.simps(2) [of 90 y token c p e u] by (simp add: converge_fuel_def)
  let ?w = "\<lparr>cs_log = [], cs_receipt = first_receipt pub_commit pub_digest, cs_saves = Suc 0, cs_ticks = 0, cs_slept = 0\<rparr>"
  note rules = dget_or_null_def run_rules pub_env f pub_main pub_fields pub_names pub_facts parts
  obtain rc acts n where prefix: "publish_prefix pub_world ''h'' pub_commit pub_digest ?w
      = (Inr pub_revision, \<lparr>cs_log = acts, cs_receipt = rc, cs_saves = n, cs_ticks = 0, cs_slept = 0\<rparr>)" "length acts = 21"
    by (atomize_elim) (simp add: rules publish_prefix_def preflight_def anonymous_image_manifest_def request_json_def pub_reads exact_digest_def
       validate_card_def open_target_def create_target_def hub_info_def pub_info_def admit_target_def new_target_metadata_def list_files_def
       download_bytes_def upload_target_def read_back_files_def check_published_def verify_files_def cs_exact_sha_def)
  have at: "k = 23 \<Longrightarrow> read_web pub_sys (ENDPOINT @ ''/deployment.json?nonce=00'') 200 True (pub_get k) = Inr dp"
     "k = 24 \<Longrightarrow> read_web pub_sys (ENDPOINT @ ''/readyz?nonce=00'') 200 True (pub_get k) = Inr rp"
     "k = 25 \<Longrightarrow> read_web pub_sys (ENDPOINT @ ''/readyz/inference?nonce=00'') 503 True (pub_get k) = Inr ip" for k
    using pages by simp_all
  obtain v where "publish_control pub_world ''h'' pub_commit pub_digest ?w = Some (Inr (), v)" "length (cs_log v) = 29"
    "dget (cs_receipt v) ''status'' = Some (JStr ''MEASURED'')"
    by (atomize_elim) (simp add: publish_control_def prefix Let_def fuel converge_round_def check_published_def hub_info_def pub_info_def
       runtime_aligned_def request_json_def pub_reads softC_def witness_space_def tick_nonce_def at pages(4) publish_suffix_def rules)
  then show ?thesis
    by (simp add: control_main_def Let_def conclude_control_def pub_env pub_fields)
qed

section \<open>Properties\<close>

text \<open>The publisher ends, with a receipt: if the monotonic clock never goes back, a wait of 900 seconds with rests of up to
  ten takes at most 91 rounds.\<close>

lemma control_ends:
  assumes "mono (cw_clock x)"
  shows "\<exists>code receipt acts. control_main x commit img = Some (code, receipt, acts)"
proof (cases "cw_save x 0")
  case None
  let ?w = "\<lparr>cs_log = [], cs_receipt = first_receipt commit img, cs_saves = 1, cs_ticks = 0, cs_slept = 0\<rparr>"
  obtain r v where "publish_control x (env_get (s_env (cw_sys x)) ''HF_TOKEN'' []) commit img ?w = Some (r, v)"
    using publish_ends [OF assms] by (metis surj_pair)
  with None show ?thesis by (simp add: control_main_def Let_def)
qed (simp add: control_main_def Let_def)

lemma control_ends_witness:
  "\<exists>code receipt acts. control_main (pub_world\<lparr>cw_upload := \<lambda>_. Inl (PyError ''HfHubHTTPError'' [])\<rparr>) pub_commit pub_digest = Some (code, receipt, acts)"
  by (rule control_ends) (simp add: mono_def pub_fields)

text \<open>C36. The receipt tells the truth of what was written, whatever git, the web, the hub or the disk answer and wherever the
  run stops: \<open>NOT_ATTEMPTED\<close> means that nothing was uploaded (or created), \<open>MEASURED\<close> that it was, once, and \<open>UNKNOWN\<close> at most
  once. Every upload is of the generated files, onto the revision read from the public Space of that name.\<close>

lemma control_receipt_honest:
  assumes "control_main x commit img = Some (code, receipt, acts)"
  shows "tells (dget receipt ''write_outcome'') (length (uploads acts)) \<and> tells (dget receipt ''creation_outcome'') (creates acts)
    \<and> list_all (due_upload x commit img) (uploads acts)"
  using assms
proof (cases rule: main_outcome)
  case (unsaved e)
  then show ?thesis by (simp add: first_receipt_def uploads_def creates_def tells_facts)
next
  case (ran_out r v w)
  from publish_outcome [OF ran_out(1,2)] ran_out(3,4) show ?thesis
    by (simp add: honest_def conclude_outcomes)
qed

lemma control_receipt_honest_witness:
  "\<exists>receipt acts. control_main pub_world pub_commit pub_digest = Some (Inr 0, receipt, acts) \<and> length acts = 29
    \<and> tells (dget receipt ''write_outcome'') (length (uploads acts)) \<and> tells (dget receipt ''creation_outcome'') (creates acts)"
  using pub_run control_receipt_honest [of pub_world pub_commit pub_digest] by blast

text \<open>C37. Exit code 0 means that everything the receipt calls measured was seen: the upload happened and the hub named its
  revision, every file was read back from that revision byte for byte, the runtime ran it, and the three pages answered as a control
  plane of this source revision with inference closed.\<close>

lemma control_success_seen:
  assumes "control_main x commit img = Some (Inr 0, receipt, acts)"
  shows "\<exists>files parent published w. space_files (cw_sys x) (JStr commit) (JStr img) = Inr files \<and> cs_log w = acts
    \<and> all_seen x (env_get (s_env (cw_sys x)) ''HF_TOKEN'' []) commit img files parent published w
    \<and> exact_sha commit \<and> source_context (cw_sys x) commit"
  using assms
proof (cases rule: main_outcome)
  case (ran_out r v w)
  then have "r = Inr ()" using conclude_outcomes(3) by (cases r) auto
  with publish_outcome [OF ran_out(1,2)] ran_out(4) show ?thesis by blast
qed simp

lemma control_success_seen_witness:
  "\<exists>files parent published w. space_files pub_sys (JStr pub_commit) (JStr pub_digest) = Inr files
    \<and> all_seen pub_world ''h'' pub_commit pub_digest files parent published w \<and> length (cs_log w) = 29"
proof -
  obtain receipt acts where r: "control_main pub_world pub_commit pub_digest = Some (Inr 0, receipt, acts)" "length acts = 29" using pub_run by blast
  from control_success_seen [OF r(1)] r(2) show ?thesis by (auto simp: pub_env pub_fields)
qed



end
