(* ===== verification/StagingBundle.thy ===== *)
theory StagingBundle
  imports ControlSpace Spend
begin

text \<open>
  Two scripts that prepare what others publish. \<open>scripts/hf_space_bootstrap.py\<close> creates the one public
  Space when the hub says that it is absent. \<open>scripts/router_inference_bundle.py\<close> writes a staging
  bundle whose fixed command starts the control plane with a disabled provider and without egress.

  Git, the hub, the file system and the typed reading of the registry are parameters; what depends on
  the moment is indexed by the number of actions so far. The lemmas: the bootstrap creates at most once and
  only what is absent; the manifest of a bundle is written last, over the files that are there; a
  control plane started by the bundle's command is up, and closed.
\<close>

section \<open>The bootstrap\<close>

datatype boot_info = BootFound json bool | BootMissing | BootFails exn

datatype boot_call = BootInfo | BootCreate

record boot_hub =
  bo_info :: "nat \<Rightarrow> boot_info"       \<comment> \<open>revision, and \<open>private\<close> as a truth value\<close>
  bo_create :: "nat \<Rightarrow> exn option"

definition protected_revision :: "string \<Rightarrow> string \<Rightarrow> string \<Rightarrow> exn + string" where
  "protected_revision ref workflow_sha source =
     (let commit = lower (strip source) in
      if ref \<noteq> ''refs/heads/main'' then Inl (system_exit ''Router Space bootstrap is restricted to refs/heads/main.'')
      else if \<not> exact_sha commit then Inl (system_exit ''Router Space bootstrap requires an exact 40-character source SHA.'')
      else if lower (strip workflow_sha) \<noteq> commit
      then Inl (system_exit ''Router Space bootstrap source revision does not match GITHUB_SHA.'')
      else Inr commit)"

definition boot_revision :: "json \<Rightarrow> exn + string" where
  "boot_revision v = (let commit = sha_text v in
     if exact_sha commit then Inr commit
     else Inl (system_exit ''Canonical Router Space has no exact immutable revision after bootstrap.''))"

definition boot_report :: "bool \<Rightarrow> json \<Rightarrow> bool \<Rightarrow> exn + jdict" where
  "boot_report created sha private = bindE (boot_revision sha) (\<lambda>commit.
     Inr [(''repo_id'', JStr SPACE_ID), (''space_created'', JBool created), (''observed_revision'', JStr commit),
       (''private'', JBool private)])"

text \<open>A Space that is still missing when it is read back raises the hub's error.\<close>

definition ensure_canonical_space :: "boot_hub \<Rightarrow> string \<Rightarrow> (exn + jdict) \<times> boot_call list" where
  "ensure_canonical_space h repo_id =
     (if strip repo_id \<noteq> SPACE_ID then (Inl (system_exit (''Bootstrap may create only '' @ SPACE_ID @ ''.'')), [])
      else case bo_info h 0 of
        BootFound sha private \<Rightarrow> (boot_report False sha private, [BootInfo])
      | BootFails e \<Rightarrow> (Inl e, [BootInfo])
      | BootMissing \<Rightarrow>
          (case bo_create h 1 of
             Some e \<Rightarrow> (Inl e, [BootInfo, BootCreate])
           | None \<Rightarrow>
               ((case bo_info h 2 of
                   BootFound sha private \<Rightarrow> boot_report True sha private
                 | BootMissing \<Rightarrow> Inl not_found
                 | BootFails e \<Rightarrow> Inl e), [BootInfo, BootCreate, BootInfo])))"

definition boot_main :: "boot_hub \<Rightarrow> env \<Rightarrow> string \<Rightarrow> string \<Rightarrow> string \<Rightarrow> (exn + jdict) \<times> boot_call list" where
  "boot_main h e repo_id source token =
     (case protected_revision (env_get e ''GITHUB_REF'' []) (env_get e ''GITHUB_SHA'' []) source of
        Inl x \<Rightarrow> (Inl x, [])
      | Inr commit \<Rightarrow>
          if strip token = [] then (Inl (system_exit ''HF_TOKEN is required for canonical Router Space bootstrap.''), [])
          else (case ensure_canonical_space h repo_id of (r, calls) \<Rightarrow>
            (bindE r (\<lambda>d. Inr (d @ [(''schema'', JStr ''szl.router-space-bootstrap/v1''), (''source_revision'', JStr commit),
               (''exact_target_only'', JBool True), (''hardware_changed'', JBool False), (''visibility_changed'', JBool False),
               (''credential_value_recorded'', JBool False)])), calls)))"

section \<open>The bundle's files\<close>

definition BUNDLE_SCHEMA :: string where "BUNDLE_SCHEMA = ''szl.router-inference-staging/v1''"
definition BUNDLE_MANIFEST :: string where "BUNDLE_MANIFEST = ''BUNDLE_MANIFEST.json''"
definition SECRET_NAMES :: "string list" where "SECRET_NAMES = [''SZL_ROUTER_TOKEN'', ''SZL_ROUTER_OPENAI_TOKEN'']"

definition ORIGINS :: "string list" where
  "ORIGINS = [''https://github.com/szl-holdings/szl-router'', ''https://github.com/szl-holdings/szl-router.git'',
     ''git@github.com:szl-holdings/szl-router'', ''git@github.com:szl-holdings/szl-router.git'']"

definition image_reference_ok :: "string \<Rightarrow> bool" where
  "image_reference_ok t = (startswith (IMAGE @ ''@'') t \<and> digest_ok (drop (length (IMAGE @ ''@'')) t))"

definition validate_inputs :: "string \<Rightarrow> string \<Rightarrow> cs_error + unit" where
  "validate_inputs commit img = (if \<not> exact_sha commit then Inl (Code ''SOURCE_REVISION_INVALID'')
     else if \<not> image_reference_ok img then Inl (Code ''IMAGE_REFERENCE_INVALID'') else Inr ())"

definition disabled_candidate :: jdict where
  "disabled_candidate = [(''providers'', JArr [JObj [
     (''id'', JStr ''openai-dedicated-project''), (''provider_type'', JStr ''openai_https''),
     (''base_url'', JStr ''https://api.openai.com/v1''), (''models'', JObj [(''szl-astra'', JStr ''gpt-6-astra'')]),
     (''token_env'', JStr ''SZL_ROUTER_OPENAI_TOKEN''), (''priority'', JInt 100), (''sovereignty'', JInt 0),
     (''cost_tier'', JInt 10), (''classifications'', JArr [JStr ''public'']), (''enabled'', JBool False)]])]"

definition disabled_registry :: "(json \<Rightarrow> exn + provider_record list) \<Rightarrow> cs_error + jdict" where
  "disabled_registry typed =
     bindE (raising (bindE (typed (JObj disabled_candidate)) validate_registry)) (\<lambda>rs. case rs of
       [] \<Rightarrow> Inl (Raised (PyError ''IndexError'' []))
     | r # _ \<Rightarrow>
         if pr_enabled r \<or> pr_classes r \<noteq> [''public''] then Inl (Code ''DISABLED_REGISTRY_INVALID'')
         else case pr_base_url r of
           None \<Rightarrow> Inl (Raised (PyError ''AttributeError'' []))
         | Some u \<Rightarrow> bindE (raising (validate_base_url u [''api.openai.com''])) (\<lambda>v.
             if v \<noteq> u then Inl (Code ''DISABLED_REGISTRY_INVALID'') else Inr disabled_candidate))"

text \<open>An exclamation mark stands for a single quote; \<open>py_quoted\<close> is \<open>repr\<close> of a text without quotes or backslashes.\<close>

definition ticked :: "string \<Rightarrow> string" where
  "ticked t = map (\<lambda>c. if c = CHR ''!'' then CHR 0x27 else c) t"

definition py_quoted :: "string \<Rightarrow> string" where
  "py_quoted t = [CHR 0x27] @ t @ [CHR 0x27]"

definition launch_environment :: "sys \<Rightarrow> jdict \<Rightarrow> string dict" where
  "launch_environment z registry = [(''SZL_ROUTER_ENABLE_EGRESS'', ''0''), (''SZL_ROUTER_ALLOWED_HOSTS'', ''api.openai.com''),
     (''SZL_ROUTER_PROVIDERS_JSON'', dumps (compact_sorted (s_frepr z)) (JObj registry))]"

definition launch_text :: "string dict \<Rightarrow> string" where
  "launch_text environment = ''import os,sys;''
     @ concat (map (\<lambda>n. ''os.environ.pop('' @ py_quoted n @ '',None);'') SECRET_NAMES)
     @ ''os.environ.update({'' @ join '', '' (map (\<lambda>(k, v). py_quoted k @ '': '' @ py_quoted v) environment) @ ''});''
     @ ticked (''os.execv(sys.executable,[sys.executable,!-I!,!-m!,!uvicorn!,!router_control.app:app!,''
         @ ''!--app-dir!,!/app!,!--host!,!0.0.0.0!,!--port!,!7860!,!--workers!,!1!,!--no-access-log!])'')"

text \<open>What the command does to the environment it is started in.\<close>

definition launched :: "string dict \<Rightarrow> env \<Rightarrow> env" where
  "launched environment e k = (if k \<in> set SECRET_NAMES then None
     else case dget environment k of Some v \<Rightarrow> Some v | None \<Rightarrow> e k)"

definition bundle_dockerfile :: "sys \<Rightarrow> string \<Rightarrow> string \<Rightarrow> string" where
  "bundle_dockerfile z img launch = ''FROM '' @ img @ nl @ ''ENV SZL_ROUTER_ENABLE_EGRESS=0'' @ nl @ ''CMD ''
     @ dumps (default_opts (s_frepr z)) (JArr (map JStr [''python'', ''-I'', ''-c'', launch])) @ nl"

definition bundle_binding :: "string \<Rightarrow> string \<Rightarrow> jdict" where
  "bundle_binding commit img = [(''schema'', JStr BUNDLE_SCHEMA), (''evidence_class'', JStr ''DECLARED''), (''mode'', JStr ''PREPARE_ONLY''),
     (''source_repository'', JStr SOURCE_REPOSITORY), (''source_revision'', JStr commit),
     (''source_authenticity'', JStr ''UNKNOWN''), (''remote_main_admission'', JStr ''UNKNOWN''),
     (''image_reference'', JStr img), (''image_authenticity'', JStr ''UNKNOWN''), (''image_source_alignment'', JStr ''UNKNOWN''),
     (''target'', JNull), (''deployment_authorized'', JBool False), (''inference_state'', JStr ''UNAVAILABLE''),
     (''egress_enabled'', JBool False), (''provider_enabled'', JBool False),
     (''required_secret_names'', JArr (map JStr SECRET_NAMES)), (''secret_values_included'', JBool False),
     (''preserved_targets'', JArr [JStr ''SZLHOLDINGS/szl-router-control'', JStr ''SZLHOLDINGS/llm-router-live'']),
     (''spend_admission'', JStr ''BLOCKED''), (''cost_tier_is_usd_cap'', JBool False), (''model_identity'', JStr ''UNKNOWN''),
     (''runtime_witness'', JStr ''UNAVAILABLE''),
     (''activation'', JStr ''Requires a separately reviewed artifact; environment overrides cannot activate this command'')]"

definition bundle_readme :: string where
  "bundle_readme = join nl [''# Disabled Router Inference Staging Bundle'', '''',
     ''DECLARED preparation only. This directory is not a deployment or activation.'',
     ticked ''The referenced image!s signature, provenance, source alignment and current-main'',
     ''admission are UNKNOWN until independently verified by the release workflow.'', '''',
     ''The fixed default command replaces inherited registry and host configuration,'',
     ''forces egress off, and unsets the two named dedicated credentials before launch.'',
     ''The sole registry candidate is disabled, public-data-only OpenAI text routing.'',
     ''No prompt, provider request, paid operation, remote write, or secret read occurs'',
     ''during preparation. Cost tier 10 is an ordinal, not a dollar cap.'', '''',
     ''No Space target is selected. Do not upload this bundle to the existing control'',
     ''or status Spaces. Their publishers and runtime policies remain unchanged.'',
     ''Runtime readiness is not provider reachability, model identity or an answer.'',
     ''Only an exact-source, separately governed deployment and authorized acceptance'',
     ''can establish those facts. No model-quality or production claim is made here.'', '''',
     ''Only a directory with BUNDLE_MANIFEST.json and matching file hashes is complete.'',
     ''Preparation reserves a new directory and never overwrites it. Failed preparation'',
     ''may retain a partial directory without that completion manifest; preserve it.'',
     ''Changing the image, command, entrypoint, mounted code, or container privileges is'',
     ''outside this disabled-command contract. It is not a tamper-proof boundary.''] @ nl"

definition bundle_files :: "sys \<Rightarrow> (json \<Rightarrow> exn + provider_record list) \<Rightarrow> string \<Rightarrow> string \<Rightarrow> cs_error + string dict" where
  "bundle_files z typed commit img =
     bindE (validate_inputs commit img) (\<lambda>_.
     bindE (disabled_registry typed) (\<lambda>registry.
       Inr [(''Dockerfile'', utf8 (bundle_dockerfile z img (launch_text (launch_environment z registry)))), (''README.md'', utf8 bundle_readme),
         (''providers.disabled.json'', pretty_bytes z (JObj registry)),
         (''SOURCE_BINDING.json'', pretty_bytes z (JObj (bundle_binding commit img)))]))"

section \<open>Preparation\<close>

datatype lstat_answer = NoStat | NotPlain | Plain "int \<times> int"   \<comment> \<open>device and inode\<close>

datatype mkdir_answer = Made | Exists | MkdirFails

datatype stage_action = StageGit "string list" | Lstat "string list" | Mkdir "string list" | WriteNew string

record stage_world =
  sw_sys :: sys
  sw_typed :: "json \<Rightarrow> exn + provider_record list"
  sw_git :: "nat \<Rightarrow> string list \<Rightarrow> string option"
  sw_is_root :: "string \<Rightarrow> bool"        \<comment> \<open>\<open>Path(t).resolve() == ROOT.resolve()\<close>\<close>
  sw_root :: "string list"             \<comment> \<open>the parts of \<open>ROOT.resolve()\<close>\<close>
  sw_absolute :: "string list \<Rightarrow> string list"
  sw_lstat :: "nat \<Rightarrow> lstat_answer"
  sw_mkdir :: "nat \<Rightarrow> mkdir_answer"
  sw_write :: "nat \<Rightarrow> bool"

record staging =
  sg_log :: "stage_action list"
  sg_disk :: "string dict"             \<comment> \<open>the files written into the new directory\<close>

definition stageC :: "stage_action \<Rightarrow> (nat \<Rightarrow> 'a) \<Rightarrow> staging \<Rightarrow> (cs_error + 'a) \<times> staging" where
  "stageC a f w = (Inr (f (length (sg_log w))), w\<lparr>sg_log := sg_log w @ [a]\<rparr>)"

definition stage_git :: "stage_world \<Rightarrow> string list \<Rightarrow> staging \<Rightarrow> (cs_error + string) \<times> staging" where
  "stage_git x args = bindC (stageC (StageGit args) (\<lambda>k. sw_git x k args)) (\<lambda>out.
     pureC (case out of None \<Rightarrow> Inl (Code ''LOCAL_SOURCE_UNAVAILABLE'') | Some t \<Rightarrow> Inr (strip t)))"

definition require_source :: "stage_world \<Rightarrow> string \<Rightarrow> staging \<Rightarrow> (cs_error + unit) \<times> staging" where
  "require_source x commit =
     bindC (stage_git x [''remote'', ''get-url'', ''origin'']) (\<lambda>origin.
     bindC (checkC (origin \<in> set ORIGINS) ''LOCAL_SOURCE_MISMATCH'') (\<lambda>_.
     bindC (stage_git x [''rev-parse'', ''--show-toplevel'']) (\<lambda>top.
     bindC (checkC (sw_is_root x top) ''LOCAL_SOURCE_MISMATCH'') (\<lambda>_.
     bindC (stage_git x [''rev-parse'', ''HEAD'']) (\<lambda>head.
     bindC (checkC (head = commit) ''LOCAL_SOURCE_MISMATCH'') (\<lambda>_.
     bindC (stage_git x [''status'', ''--porcelain=v1'', ''--untracked-files=all'']) (\<lambda>dirty.
       checkC (dirty = []) ''LOCAL_SOURCE_DIRTY'')))))))"

text \<open>The directory and its parents, from the root down; each has to be a directory that is no link.\<close>

fun plain_all :: "stage_world \<Rightarrow> string list list \<Rightarrow> int \<times> int \<Rightarrow> staging \<Rightarrow> (cs_error + int \<times> int) \<times> staging" where
  "plain_all x [] seen = pureC (Inr seen)"
| "plain_all x (p # ps) seen = bindC (stageC (Lstat p) (sw_lstat x)) (\<lambda>answer. case answer of
     NoStat \<Rightarrow> pureC (Inl (Code ''OUTPUT_PARENT_UNAVAILABLE''))
   | NotPlain \<Rightarrow> pureC (Inl (Code ''OUTPUT_LINK_OR_NON_DIRECTORY''))
   | Plain i \<Rightarrow> plain_all x ps i)"

definition path_chain :: "string list \<Rightarrow> string list list" where
  "path_chain p = map (\<lambda>n. take n p) [1..<Suc (length p)]"

definition plain_directory :: "stage_world \<Rightarrow> string list \<Rightarrow> staging \<Rightarrow> (cs_error + int \<times> int) \<times> staging" where
  "plain_directory x p = plain_all x (path_chain p) (0, 0)"

definition new_output :: "stage_world \<Rightarrow> string list \<Rightarrow> staging \<Rightarrow> (cs_error + string list \<times> (int \<times> int)) \<times> staging" where
  "new_output x parts =
     bindC (checkC (''..'' \<notin> set parts) ''OUTPUT_TRAVERSAL_REJECTED'') (\<lambda>_.
     let p = sw_absolute x parts in
     bindC (checkC (take (length (sw_root x)) p \<noteq> sw_root x) ''OUTPUT_INSIDE_SOURCE_REJECTED'') (\<lambda>_.
     bindC (plain_directory x (if length p \<le> 1 then p else butlast p)) (\<lambda>_.
     bindC (stageC (Mkdir p) (sw_mkdir x)) (\<lambda>answer.
     bindC (pureC (case answer of Made \<Rightarrow> Inr () | Exists \<Rightarrow> Inl (Code ''OUTPUT_ALREADY_EXISTS'')
       | MkdirFails \<Rightarrow> Inl (Code ''OUTPUT_CREATE_FAILED''))) (\<lambda>_.
     bindC (plain_directory x p) (\<lambda>i. pureC (Inr (p, i))))))))"

text \<open>A file is created exclusively; a write that fails leaves nothing that counts.\<close>

definition write_new :: "stage_world \<Rightarrow> string list \<Rightarrow> int \<times> int \<Rightarrow> string \<Rightarrow> string \<Rightarrow> staging \<Rightarrow> (cs_error + unit) \<times> staging" where
  "write_new x p identity name body =
     bindC (plain_directory x p) (\<lambda>i.
     bindC (checkC (i = identity) ''OUTPUT_DIRECTORY_CHANGED'') (\<lambda>_.
     bindC (stageC (WriteNew name) (sw_write x)) (\<lambda>ok. \<lambda>w.
       if ok \<and> \<not> has_key (sg_disk w) name then (Inr (), w\<lparr>sg_disk := sg_disk w @ [(name, body)]\<rparr>)
       else (Inl (Code ''OUTPUT_WRITE_FAILED''), w))))"

fun write_files :: "stage_world \<Rightarrow> string list \<Rightarrow> int \<times> int \<Rightarrow> string dict \<Rightarrow> staging \<Rightarrow> (cs_error + unit) \<times> staging" where
  "write_files x p identity [] = pureC (Inr ())"
| "write_files x p identity ((name, body) # rest) =
     bindC (write_new x p identity name body) (\<lambda>_. write_files x p identity rest)"

definition bundle_manifest :: "string \<Rightarrow> string \<Rightarrow> string dict \<Rightarrow> jdict" where
  "bundle_manifest commit img files = [(''schema'', JStr BUNDLE_SCHEMA), (''evidence_class'', JStr ''MEASURED''),
     (''operation'', JStr ''LOCAL_PREPARATION''), (''source_revision'', JStr commit), (''local_checkout_match'', JBool True),
     (''image_reference'', JStr img), (''image_authenticity'', JStr ''UNKNOWN''), (''source_authenticity'', JStr ''UNKNOWN''),
     (''remote_main_admission'', JStr ''UNKNOWN''), (''deployment_authorized'', JBool False), (''remote_writes'', JInt 0),
     (''inference_calls'', JInt 0), (''file_sha256'', JObj (map (\<lambda>(n, body). (n, JStr (sha256_hex body))) (sort_key fst files)))]"

definition prepare_bundle :: "stage_world \<Rightarrow> string \<Rightarrow> string \<Rightarrow> string list \<Rightarrow> staging \<Rightarrow> (cs_error + jdict) \<times> staging" where
  "prepare_bundle x commit img parts =
     bindC (pureC (validate_inputs commit img)) (\<lambda>_.
     bindC (require_source x commit) (\<lambda>_.
     bindC (pureC (bundle_files (sw_sys x) (sw_typed x) commit img)) (\<lambda>files.
     bindC (new_output x parts) (\<lambda>(p, identity).
     bindC (write_files x p identity files) (\<lambda>_.
     bindC (require_source x commit) (\<lambda>_.
     let manifest = bundle_manifest commit img files in
     bindC (write_new x p identity BUNDLE_MANIFEST (pretty_bytes (sw_sys x) (JObj manifest))) (\<lambda>_. pureC (Inr manifest))))))))"

text \<open>The exit code and what is printed.\<close>

definition bundle_main :: "stage_world \<Rightarrow> string \<Rightarrow> string \<Rightarrow> string list \<Rightarrow> (int \<times> jdict) \<times> staging" where
  "bundle_main x commit img parts =
     (case prepare_bundle x commit img parts \<lparr>sg_log = [], sg_disk = []\<rparr> of
        (Inr manifest, w) \<Rightarrow> ((0, manifest), w)
      | (Inl e, w) \<Rightarrow> ((1, [(''evidence_class'', JStr ''BLOCKED''),
          (''code'', JStr (case e of Code c \<Rightarrow> c | Raised _ \<Rightarrow> ''PREPARATION_FAILED'')), (''deployment_authorized'', JBool False)]), w))"

section \<open>The bootstrap creates only what is absent\<close>

lemma bootstrap_creates_absent:
  assumes "boot_main h e repo_id source token = (r, calls)" "BootCreate \<in> set calls"
  shows "bo_info h 0 = BootMissing \<and> strip repo_id = SPACE_ID \<and> env_get e ''GITHUB_REF'' [] = ''refs/heads/main''
    \<and> lower (strip (env_get e ''GITHUB_SHA'' [])) = lower (strip source) \<and> exact_sha (lower (strip source))
    \<and> length (filter (\<lambda>c. c = BootCreate) calls) = 1"
  using assms
  by (auto simp: boot_main_def protected_revision_def ensure_canonical_space_def Let_def
      split: sum.splits boot_info.splits option.splits if_splits prod.splits)

section \<open>The manifest is written last\<close>

definition still :: "(staging \<Rightarrow> (cs_error + 'a) \<times> staging) \<Rightarrow> bool" where
  "still m \<longleftrightarrow> (\<forall>w. sg_disk (snd (m w)) = sg_disk w)"

lemma still_bind: "still m \<Longrightarrow> (\<And>a. still (f a)) \<Longrightarrow> still (bindC m f)"
  unfolding still_def bindC_def by (auto split: prod.splits sum.splits) (metis snd_conv)+

lemma still_basic: "still (pureC r)" "still (checkC b c)" "still (stageC a f)"
  by (simp_all add: still_def pureC_def checkC_def stageC_def)

lemmas still_intros = still_bind still_basic

lemma still_plain: "still (plain_all x ps seen)"
  by (induction ps arbitrary: seen) (auto intro!: still_intros split: lstat_answer.splits)

lemma still_ops: "still (require_source x commit)" "still (plain_directory x p)" "still (new_output x parts)"
  by (auto simp: require_source_def stage_git_def plain_directory_def new_output_def Let_def intro!: still_intros still_plain)

lemma still_disk: "still m \<Longrightarrow> m w = (r, v) \<Longrightarrow> sg_disk v = sg_disk w"
  unfolding still_def by (metis snd_conv)

lemma bindC_result:
  assumes "bindC m f w = (r, v)"
  obtains (failed) e where "m w = (Inl e, v)" "r = Inl e" | (went_on) a u where "m w = (Inr a, u)" "f a u = (r, v)"
  using assms by (auto simp: bindC_def split: prod.splits sum.splits)

lemma write_new_disk:
  assumes "write_new x p identity name body w = (r, v)"
  shows "if r = Inr () then sg_disk v = sg_disk w @ [(name, body)] \<and> \<not> has_key (sg_disk w) name else sg_disk v = sg_disk w"
proof -
  let ?f = "\<lambda>ok w. if ok \<and> \<not> has_key (sg_disk w) name then (Inr (), w\<lparr>sg_disk := sg_disk w @ [(name, body)]\<rparr>)
       else (Inl (Code ''OUTPUT_WRITE_FAILED''), w)"
  from assms show ?thesis
    unfolding write_new_def
  proof (cases rule: bindC_result)
    case (failed e)
    then show ?thesis using still_disk [OF still_ops(2)] by auto
  next
    case (went_on i u)
    note d = still_disk [OF still_ops(2) went_on(1)]
    from went_on(2) show ?thesis
    proof (cases rule: bindC_result)
      case (failed e)
      then show ?thesis using still_disk [OF still_basic(2)] d by auto
    next
      case (went_on a u')
      then show ?thesis
        using d by (auto simp: bindC_def stageC_def checkC_def pureC_def split: if_splits)
    qed
  qed
qed

lemma write_files_disk:
  "write_files x p identity files w = (r, v) \<Longrightarrow>
     if r = Inr () then sg_disk v = sg_disk w @ files else (\<exists>n. sg_disk v = sg_disk w @ take n files)"
proof (induction files arbitrary: w)
  case Nil
  then show ?case by (auto simp: pureC_def)
next
  case (Cons f files)
  obtain name body where f: "f = (name, body)" by (cases f)
  from Cons.prems [unfolded f, simplified] show ?case
  proof (cases rule: bindC_result)
    case (failed e)
    with write_new_disk [OF failed(1)] show ?thesis by (auto intro: exI [of _ 0])
  next
    case (went_on a u)
    with write_new_disk [OF went_on(1)] Cons.IH [OF went_on(2)] f show ?thesis
      by (auto split: if_splits intro: exI [of _ "Suc n" for n])
  qed
qed

lemma bundle_names: "bundle_files z typed commit img = Inr files \<Longrightarrow> BUNDLE_MANIFEST \<notin> set (map fst files)"
  by (auto simp: bundle_files_def bindE_Inr_iff BUNDLE_MANIFEST_def)

text \<open>The disk after a preparation that began with an empty directory.\<close>

definition prepared :: "stage_world \<Rightarrow> string \<Rightarrow> string \<Rightarrow> cs_error + jdict \<Rightarrow> staging \<Rightarrow> bool" where
  "prepared x commit img r v \<longleftrightarrow> (case r of
     Inl _ \<Rightarrow> BUNDLE_MANIFEST \<notin> set (map fst (sg_disk v))
   | Inr manifest \<Rightarrow> (\<exists>files. bundle_files (sw_sys x) (sw_typed x) commit img = Inr files \<and> manifest = bundle_manifest commit img files
       \<and> sg_disk v = files @ [(BUNDLE_MANIFEST, pretty_bytes (sw_sys x) (JObj manifest))]))"

lemma prepared_untouched: "sg_disk v = [] \<Longrightarrow> prepared x commit img (Inl e) v"
  by (simp add: prepared_def)

lemma written_prepared:
  assumes files: "bundle_files (sw_sys x) (sw_typed x) commit img = Inr files" and u: "sg_disk u = []"
    and run: "bindC (write_files x p identity files) (\<lambda>_. bindC (require_source x commit) (\<lambda>_.
      let manifest = bundle_manifest commit img files in
      bindC (write_new x p identity BUNDLE_MANIFEST (pretty_bytes (sw_sys x) (JObj manifest))) (\<lambda>_. pureC (Inr manifest)))) u = (r, v)"
  shows "prepared x commit img r v"
proof -
  note names = bundle_names [OF files]
  have part: "BUNDLE_MANIFEST \<notin> set (map fst (take n files))" for n using names set_take_subset [of n files] by auto
  from run show ?thesis
  proof (cases rule: bindC_result)
    case (failed e)
    then obtain n where "sg_disk v = take n files" using write_files_disk [OF failed(1)] u by auto
    with failed(2) part [of n] show ?thesis by (simp add: prepared_def)
  next
    case (went_on a u2)
    then have d2: "sg_disk u2 = files" using write_files_disk [OF went_on(1)] u by simp
    from went_on(2) show ?thesis
    proof (cases rule: bindC_result)
      case (failed e)
      with still_disk [OF still_ops(1) failed(1)] d2 names show ?thesis by (auto simp: prepared_def)
    next
      case (went_on b u3)
      have d3: "sg_disk u3 = files" using still_disk [OF still_ops(1) went_on(1)] d2 by simp
      from went_on(2) [unfolded Let_def] show ?thesis
      proof (cases rule: bindC_result)
        case (failed e)
        with write_new_disk [OF failed(1)] d3 names show ?thesis by (auto simp: prepared_def)
      next
        case (went_on c u4)
        with write_new_disk [OF went_on(1)] d3 files show ?thesis by (auto simp: prepared_def pureC_def)
      qed
    qed
  qed
qed

lemma prepare_prepared:
  assumes "prepare_bundle x commit img parts w = (r, v)" "sg_disk w = []"
  shows "prepared x commit img r v"
  using assms(1) unfolding prepare_bundle_def
proof (cases rule: bindC_result)
  case (failed e)
  then show ?thesis using assms(2) by (auto simp: pureC_def prepared_untouched)
next
  case (went_on a u)
  then have u: "sg_disk u = []" using assms(2) by (auto simp: pureC_def)
  from went_on(2) show ?thesis
  proof (cases rule: bindC_result)
    case (failed e)
    then show ?thesis using still_disk [OF still_ops(1) failed(1)] u by (simp add: prepared_untouched)
  next
    case (went_on a u2)
    note d2 = still_disk [OF still_ops(1) went_on(1)]
    from went_on(2) show ?thesis
    proof (cases rule: bindC_result)
      case (failed e)
      then show ?thesis using d2 u by (auto simp: pureC_def prepared_untouched)
    next
      case (went_on files u3)
      then have files: "bundle_files (sw_sys x) (sw_typed x) commit img = Inr files" and u3: "sg_disk u3 = []"
        using d2 u by (auto simp: pureC_def)
      from went_on(2) show ?thesis
      proof (cases rule: bindC_result)
        case (failed e)
        then show ?thesis using still_disk [OF still_ops(3) failed(1)] u3 by (simp add: prepared_untouched)
      next
        case (went_on y u4)
        obtain p identity where y: "y = (p, identity)" by (cases y)
        have u4: "sg_disk u4 = []" using still_disk [OF still_ops(3) went_on(1)] u3 by simp
        from went_on(2) [unfolded y prod.case] show ?thesis by (rule written_prepared [OF files u4])
      qed
    qed
  qed
qed

section \<open>The command starts a closed control plane\<close>

definition staged_record :: provider_record where
  "staged_record = \<lparr>pr_id = ''openai-dedicated-project'', pr_type = OpenaiHttps, pr_base_url = Some ''https://api.openai.com/v1'',
     pr_models = [(''szl-astra'', ''gpt-6-astra'')], pr_digests = [], pr_weights = [], pr_token_env = Some ''SZL_ROUTER_OPENAI_TOKEN'',
     pr_priority = 100, pr_sovereignty = 0, pr_cost_tier = 10, pr_classes = [''public''], pr_enabled = False\<rparr>"

definition registry_text :: "sys \<Rightarrow> string" where
  "registry_text z = dumps (compact_sorted (s_frepr z)) (JObj disabled_candidate)"

lemma registry_text_stripped: "strip (registry_text z) = registry_text z \<and> registry_text z \<noteq> []"
proof -
  obtain m where "registry_text z = CHR ''{'' # m @ [CHR ''}'']"
    by (simp add: registry_text_def dumps_def compact_sorted_def disabled_candidate_def)
  then show ?thesis by (simp add: strip_braces)
qed

lemma staged_registry: "validate_registry [staged_record] = Inr [staged_record]"
  "normalize_provider e [''api.openai.com''] staged_record = Inr staged_record"
proof -
  show "validate_registry [staged_record] = Inr [staged_record]" by code_simp
  have "validate_base_url ''https://api.openai.com/v1'' [''api.openai.com''] = Inr ''https://api.openai.com/v1''" by code_simp
  then show "normalize_provider e [''api.openai.com''] staged_record = Inr staged_record"
    by (simp add: normalize_provider_def staged_record_def)
qed

lemma launched_values:
  fixes z :: sys and e :: env
  defines "e' \<equiv> launched (launch_environment z disabled_candidate) e"
  shows "env_get e' ''SZL_ROUTER_PROVIDERS_JSON'' [] = registry_text z" "parse_allowed_hosts e' = [''api.openai.com'']"
    "\<not> enabled e' ''SZL_ROUTER_ENABLE_EGRESS''" "e' ''SZL_ROUTER_TOKEN'' = None" "e' ''SZL_ROUTER_OPENAI_TOKEN'' = None"
proof -
  have v: "e' ''SZL_ROUTER_PROVIDERS_JSON'' = Some (registry_text z)" "e' ''SZL_ROUTER_ALLOWED_HOSTS'' = Some ''api.openai.com''"
    "e' ''SZL_ROUTER_ENABLE_EGRESS'' = Some ''0''" "e' ''SZL_ROUTER_TOKEN'' = None" "e' ''SZL_ROUTER_OPENAI_TOKEN'' = None"
    by (simp_all add: e'_def launched_def launch_environment_def SECRET_NAMES_def registry_text_def)
  from v(4,5) show "e' ''SZL_ROUTER_TOKEN'' = None" "e' ''SZL_ROUTER_OPENAI_TOKEN'' = None" .
  from v(1) show "env_get e' ''SZL_ROUTER_PROVIDERS_JSON'' [] = registry_text z" by (simp add: env_get_def)
  have "remdups (filter (\<lambda>h. h \<noteq> []) (map normalize_host (split_on (CHR '','') ''api.openai.com''))) = [''api.openai.com'']" by code_simp
  with v(2) show "parse_allowed_hosts e' = [''api.openai.com'']" by (simp add: parse_allowed_hosts_def env_get_def)
  have "lower (strip ''0'') \<notin> {''1'', ''true'', ''yes'', ''on''}" by code_simp
  with v(3) show "\<not> enabled e' ''SZL_ROUTER_ENABLE_EGRESS''" by (simp add: enabled_def env_get_def)
qed

text \<open>
  The control plane that the bundle's command starts is up and closed, whatever the environment it is started in:
  its registry is the disabled candidate, egress is off, readiness answers 200 and inference readiness 503,
  and no caller token is set. \<open>json.loads\<close> and the typed reading are taken to read back what was written.
\<close>

lemma bundle_starts_closed:
  assumes "s_loads z (registry_text z) = Inr (JObj disabled_candidate)" "typed (JObj disabled_candidate) = Inr [staged_record]"
    and "s_env z = launched (launch_environment z disabled_candidate) e"
  shows "\<exists>st. load_settings z typed = Inr st \<and> st_registry st = [staged_record] \<and> st_state st = ''VALIDATED'' \<and> \<not> st_egress st
    \<and> fst (readyz (s_env z) True st) = 200 \<and> fst (readyz_inference (s_env z) st) = 503
    \<and> check_caller_auth (s_env z) authorization = Some (503, ''CALLER_AUTH_NOT_CONFIGURED'')"
proof -
  note v = launched_values [of z e, folded assms(3)]
  have load: "load_settings z typed = Inr \<lparr>st_registry = [staged_record], st_hosts = [''api.openai.com''], st_egress = False,
      st_state = ''VALIDATED'', st_error = None\<rparr>"
    using assms(1,2) v registry_text_stripped [of z] by (simp add: load_settings_def Let_def staged_registry)
  have "strip [] = []" by (simp add: strip_def strip_by_def rstrip_by_def)
  with load v(4) show ?thesis
    by (simp add: readyz_def readyz_inference_def inference_readiness_def dget_or_null_def check_caller_auth_def env_get_def Let_def)
qed

section \<open>A preparation\<close>

definition staging_demo :: stage_world where
  "staging_demo = \<lparr>sw_sys = small_sys, sw_typed = (\<lambda>_. Inr [staged_record]),
     sw_git = (\<lambda>_ args. Some (if args = [''remote'', ''get-url'', ''origin''] then hd ORIGINS
       else if args = [''rev-parse'', ''--show-toplevel''] then ''/src''
       else if args = [''rev-parse'', ''HEAD''] then replicate 40 (CHR ''a'') else [])),
     sw_is_root = (\<lambda>t. t = ''/src''), sw_root = [''/'', ''src''], sw_absolute = (\<lambda>p. p), sw_lstat = (\<lambda>_. Plain (1, 2)),
     sw_mkdir = (\<lambda>_. Made), sw_write = (\<lambda>_. True)\<rparr>"

definition staging_image :: string where
  "staging_image = IMAGE @ ''@sha256:'' @ replicate 64 (CHR ''b'')"

lemma staging_inputs: "validate_inputs (replicate 40 (CHR ''a'')) staging_image = Inr ()"
  by code_simp

lemma staging_candidate: "disabled_registry (\<lambda>_. Inr [staged_record]) = Inr disabled_candidate"
proof -
  have "validate_base_url ''https://api.openai.com/v1'' [''api.openai.com''] = Inr ''https://api.openai.com/v1''" by code_simp
  then show ?thesis by (simp add: disabled_registry_def staged_registry raising_def) (simp add: staged_record_def raising_def)
qed

lemma staging_source: "require_source staging_demo (replicate 40 (CHR ''a'')) w = (Inr (), snd (require_source staging_demo (replicate 40 (CHR ''a'')) w))"
proof -
  have "strip (hd ORIGINS) \<in> set ORIGINS" "strip ''/src'' = ''/src''" "strip [] = []"
    "strip (replicate 40 (CHR ''a'')) = replicate 40 (CHR ''a'')"
    by code_simp+
  then show ?thesis
    by (simp add: require_source_def stage_git_def staging_demo_def bindC_def stageC_def pureC_def checkC_def)
qed

lemma staging_fields: "sw_sys staging_demo = small_sys" "sw_typed staging_demo = (\<lambda>_. Inr [staged_record])" "sw_root staging_demo = [''/'', ''src'']"
  "sw_absolute staging_demo p = p" "sw_lstat staging_demo k = Plain (1, 2)" "sw_mkdir staging_demo k = Made" "sw_write staging_demo k"
  by (simp_all add: staging_demo_def)

lemma staging_plain: "\<exists>v. plain_all staging_demo ps seen w = (Inr (if ps = [] then seen else (1, 2)), v)"
proof (induction ps arbitrary: seen w)
  case (Cons p ps)
  from Cons.IH [of "(1, 2)" "w\<lparr>sg_log := sg_log w @ [Lstat p]\<rparr>"] show ?case
    by (auto simp: bindC_def stageC_def staging_fields)
qed (simp add: pureC_def)

lemma staging_directory: "p \<noteq> [] \<Longrightarrow> \<exists>v. plain_directory staging_demo p w = (Inr (1, 2), v)"
  using staging_plain [of "path_chain p" "(0, 0)" w] by (cases p) (auto simp: plain_directory_def path_chain_def)

lemma staging_output: "\<exists>v. new_output staging_demo [''/'', ''out''] w = (Inr ([''/'', ''out''], (1, 2)), v)"
proof -
  obtain u where u: "plain_directory staging_demo [''/''] w = (Inr (1, 2), u)" using staging_directory by blast
  obtain v where v: "plain_directory staging_demo [''/'', ''out''] (u\<lparr>sg_log := sg_log u @ [Mkdir [''/'', ''out'']]\<rparr>) = (Inr (1, 2), v)"
    using staging_directory by blast
  from u v show ?thesis
    by (simp add: new_output_def staging_fields bindC_def stageC_def pureC_def checkC_def Let_def)
qed

lemma staging_write:
  assumes "\<not> has_key (sg_disk w) name"
  shows "\<exists>v. write_new staging_demo [''/'', ''out''] (1, 2) name body w = (Inr (), v)"
proof -
  obtain u where u: "plain_directory staging_demo [''/'', ''out''] w = (Inr (1, 2), u)" using staging_directory by blast
  with still_disk [OF still_ops(2) u] assms show ?thesis
    by (simp add: write_new_def staging_fields bindC_def stageC_def checkC_def pureC_def)
qed

lemma staging_write_files:
  assumes "distinct (map fst (sg_disk w @ files))"
  shows "\<exists>v. write_files staging_demo [''/'', ''out''] (1, 2) files w = (Inr (), v)"
  using assms
proof (induction files arbitrary: w)
  case Nil
  then show ?case by (simp add: pureC_def)
next
  case (Cons f files)
  obtain name body where f: "f = (name, body)" by (cases f)
  with Cons.prems have "\<not> has_key (sg_disk w) name" by auto
  then obtain u where u: "write_new staging_demo [''/'', ''out''] (1, 2) name body w = (Inr (), u)" using staging_write by blast
  with write_new_disk [OF u] Cons.prems f have "distinct (map fst (sg_disk u @ files))" by auto
  from Cons.IH [OF this] u f show ?case by (simp add: bindC_def)
qed

lemma staging_run: "\<exists>report v. bundle_main staging_demo (replicate 40 (CHR ''a'')) staging_image [''/'', ''out''] = ((0, report), v)"
proof -
  let ?c = "replicate 40 (CHR ''a'')" and ?w0 = "\<lparr>sg_log = [], sg_disk = []\<rparr>"
  obtain files where files: "bundle_files small_sys (\<lambda>_. Inr [staged_record]) ?c staging_image = Inr files" "distinct (map fst files)"
    "BUNDLE_MANIFEST \<notin> set (map fst files)"
    using bundle_names [of small_sys "\<lambda>_. Inr [staged_record]" ?c staging_image]
    by (simp add: bundle_files_def staging_inputs staging_candidate)
  obtain w1 where w1: "require_source staging_demo ?c ?w0 = (Inr (), w1)" using staging_source by blast
  obtain w2 where w2: "new_output staging_demo [''/'', ''out''] w1 = (Inr ([''/'', ''out''], (1, 2)), w2)" using staging_output by blast
  have d2: "sg_disk w2 = []" using still_disk [OF still_ops(1) w1] still_disk [OF still_ops(3) w2] by simp
  with files(2) obtain w3 where w3: "write_files staging_demo [''/'', ''out''] (1, 2) files w2 = (Inr (), w3)"
    using staging_write_files [of w2 files] by auto
  obtain w4 where w4: "require_source staging_demo ?c w3 = (Inr (), w4)" using staging_source by blast
  have "sg_disk w4 = files" using write_files_disk [OF w3] still_disk [OF still_ops(1) w4] d2 by simp
  with files(3) have "\<not> has_key (sg_disk w4) BUNDLE_MANIFEST" by simp
  then obtain w5 where w5: "write_new staging_demo [''/'', ''out''] (1, 2) BUNDLE_MANIFEST
      (pretty_bytes small_sys (JObj (bundle_manifest ?c staging_image files))) w4 = (Inr (), w5)" using staging_write by blast
  have "prepare_bundle staging_demo ?c staging_image [''/'', ''out''] ?w0 = (Inr (bundle_manifest ?c staging_image files), w5)"
    by (simp add: prepare_bundle_def staging_fields staging_inputs files(1) bindC_def pureC_def w1 w2 w3 w4 w5 Let_def)
  then show ?thesis by (simp add: bundle_main_def)
qed

section \<open>Property\<close>



end
