(* ===== verification/ReleaseGate.thy ===== *)
theory ReleaseGate
  imports ControlSpace
begin

text \<open>
  \<open>.github/scripts/szl_pypi_release_gate.py\<close>: it builds the declared packages, checks what was built, and
  binds a release to its tag. The project file, the build tools, the built archives, the package index
  and the smoke test are parameters. A refusal ends the process with exit code 1; its \<open>SystemExit\<close>
  carries a short reason here, where the script prints a longer annotation. Warnings are not modelled.

  The lemma: a release that passes is one package, at the tag that names its version, not yet in the index.
\<close>

section \<open>The declared packages\<close>

definition FORBIDDEN_TOP_LEVEL :: "string list" where
  "FORBIDDEN_TOP_LEVEL = [''tests'', ''test'', ''docs'', ''examples'', ''example'', ''scripts'', ''benchmarks'', ''build'', ''dist'', ''out'',
     ''data'', ''payload'', ''fixtures'']"

definition PRIVATE_CLASSIFIER :: string where "PRIVATE_CLASSIFIER = ''Private :: Do Not Upload''"

definition refuse :: "string \<Rightarrow> exn + 'a" where
  "refuse reason = Inl (system_exit reason)"

definition ensure :: "bool \<Rightarrow> string \<Rightarrow> exn + unit" where
  "ensure b reason = (if b then Inr () else refuse reason)"

text \<open>\<open>re.sub(r"[-_.]+", "-", name)\<close>; the flag says that a separator has just been replaced.\<close>

fun squeeze :: "bool \<Rightarrow> string \<Rightarrow> string" where
  "squeeze seen [] = []"
| "squeeze seen (c # cs) = (if c \<in> set ''-_.'' then (if seen then squeeze True cs else CHR ''-'' # squeeze True cs) else c # squeeze False cs)"

definition norm_name :: "string \<Rightarrow> string" where
  "norm_name t = lower (squeeze False t)"

definition norm_json :: "json \<Rightarrow> exn + string" where
  "norm_json j = (case j of JStr t \<Rightarrow> Inr (norm_name t) | _ \<Rightarrow> Inl (TypeError ''expected string or bytes-like object''))"

record package =
  pk_name :: string
  pk_dir :: string
  pk_environment :: string

definition parse_package :: "string \<Rightarrow> package" where
  "parse_package item =
     (let (name, _, rest) = partition_at (CHR ''='') item; (directory, _, environment) = partition_at (CHR '':'') rest in
      \<lparr>pk_name = strip name, pk_dir = strip (if directory = [] then ''.'' else directory),
       pk_environment = strip (if environment = [] then ''pypi'' else environment)\<rparr>)"

definition parse_packages :: "string \<Rightarrow> exn + package list" where
  "parse_packages spec =
     (let pkgs = map parse_package (filter (\<lambda>t. t \<noteq> []) (map strip (split_on (CHR '';'') spec))) in
      if pkgs = [] then refuse ''SZL_PACKAGES is empty'' else Inr pkgs)"

section \<open>What is outside\<close>

datatype index_answer = Listed "string list" | IndexStatus int | IndexFails

record release_world =
  rw_sys :: sys
  rw_project :: "string \<Rightarrow> (exn + json) option"     \<comment> \<open>\<open>pyproject.toml\<close> of a directory, if it is a file\<close>
  rw_build :: "package \<Rightarrow> exn + string list"         \<comment> \<open>the sorted names in the stage\<close>
  rw_twine :: "package \<Rightarrow> exn option"
  rw_names :: "package \<Rightarrow> exn + string list"         \<comment> \<open>the names in the wheel\<close>
  rw_headers :: "package \<Rightarrow> string \<Rightarrow> exn + (string \<times> string) list"
  rw_index :: "string \<Rightarrow> index_answer"
  rw_smoke :: "package \<Rightarrow> string option \<Rightarrow> json list \<Rightarrow> exn option"
  rw_bytes :: "package \<Rightarrow> string \<Rightarrow> exn + string"

definition pypi_versions :: "release_world \<Rightarrow> string \<Rightarrow> string list option" where
  "pypi_versions x name = (case rw_index x (norm_name name) of
     Listed vs \<Rightarrow> Some vs | IndexStatus s \<Rightarrow> if s = 404 then Some [] else None | IndexFails \<Rightarrow> None)"

section \<open>The project file\<close>

text \<open>\<open>value or {}\<close>, then \<open>get\<close>.\<close>

definition table_or_empty :: "json \<Rightarrow> exn + jdict" where
  "table_or_empty j = (if \<not> truthy j then Inr [] else case j of JObj d \<Rightarrow> Inr d | _ \<Rightarrow> Inl (PyError ''AttributeError'' []))"

definition first_true :: "json \<Rightarrow> json \<Rightarrow> json" where
  "first_true a b = (if truthy a then a else b)"

text \<open>\<open>text in (value or [])\<close>\<close>

definition text_among :: "string \<Rightarrow> json \<Rightarrow> exn + bool" where
  "text_among t j = (if \<not> truthy j then Inr False else case j of
     JArr xs \<Rightarrow> Inr (JStr t \<in> set xs)
   | JObj d \<Rightarrow> Inr (t \<in> set (map fst d))
   | JStr s \<Rightarrow> Inr (str_in t s)
   | _ \<Rightarrow> Inl (TypeError ''argument is not iterable''))"

definition names_source :: "string \<Rightarrow> jdict \<Rightarrow> bool" where
  "names_source repo urls =
     (case first_true (first_true (dget_or_null urls ''Source'') (dget_or_null urls ''Repository'')) (dget_or_null urls ''Source Code'') of
        JStr t \<Rightarrow> lower (rstrip_by (\<lambda>c. c = CHR ''/'') t) = lower (''https://github.com/'' @ repo)
      | _ \<Rightarrow> False)"

text \<open>The checks of the project file; the result is \<open>[tool.szl.release]\<close>, not yet looked into.\<close>

definition check_project :: "package \<Rightarrow> string \<Rightarrow> json \<Rightarrow> exn + json" where
  "check_project pkg repo document =
     (case document of JObj pp \<Rightarrow>
        bindE (table_or_empty (dget_or_null pp ''project'')) (\<lambda>project.
        bindE (table_or_empty (dget_or_null pp ''tool'')) (\<lambda>tool.
        bindE (table_or_empty (dget_or_null tool ''szl'')) (\<lambda>szl.
        bindE (norm_json (case dget project ''name'' of None \<Rightarrow> JStr [] | Some j \<Rightarrow> j)) (\<lambda>name.
        bindE (ensure (name = norm_name (pk_name pkg)) ''project name'') (\<lambda>_.
        bindE (text_among PRIVATE_CLASSIFIER (dget_or_null project ''classifiers'')) (\<lambda>private.
        bindE (ensure (\<not> private) ''private classifier'') (\<lambda>_.
        bindE (table_or_empty (dget_or_null pp ''build-system'')) (\<lambda>system.
        bindE (ensure (truthy (dget_or_null system ''build-backend'')) ''build backend'') (\<lambda>_.
        bindE (ensure (list_all (\<lambda>k. truthy (dget_or_null project k)) [''description'', ''readme'', ''requires-python'']) ''required field'') (\<lambda>_.
        bindE (ensure (truthy (dget_or_null project ''license'') \<or> truthy (dget_or_null project ''license-files'')) ''license'') (\<lambda>_.
        bindE (table_or_empty (dget_or_null project ''urls'')) (\<lambda>urls.
        bindE (ensure (names_source repo urls) ''source url'') (\<lambda>_.
          Inr (dget_or_null szl ''release''))))))))))))))
      | _ \<Rightarrow> Inl (PyError ''AttributeError'' []))"

section \<open>What was built\<close>

record wheel =
  wh_name :: "string option"
  wh_version :: "string option"
  wh_urls :: "string list"
  wh_top :: "string list"
  wh_py :: nat

definition header_value :: "(string \<times> string) list \<Rightarrow> string \<Rightarrow> string option" where
  "header_value hs k = map_option snd (find (\<lambda>(n, v). lower n = lower k) hs)"

definition top_of :: "string \<Rightarrow> string" where
  "top_of n = fst (partition_at (CHR ''/'') n)"

definition read_metadata :: "release_world \<Rightarrow> package \<Rightarrow> exn + wheel" where
  "read_metadata x pkg =
     bindE (rw_names x pkg) (\<lambda>names.
     case find (endswith ''.dist-info/METADATA'') names of
       None \<Rightarrow> Inl (PyError ''StopIteration'' [])
     | Some meta \<Rightarrow> bindE (rw_headers x pkg meta) (\<lambda>hs.
         Inr \<lparr>wh_name = header_value hs ''Name'', wh_version = header_value hs ''Version'',
           wh_urls = map snd (filter (\<lambda>(n, v). lower n = lower ''Project-URL'') hs),
           wh_top = sort (remdups (filter (\<lambda>t. \<not> endswith ''.dist-info'' t) (map top_of names))),
           wh_py = length (filter (endswith ''.py'') names)\<rparr>))"

text \<open>\<open>set(declared)\<close> of a true value; its members are hashed.\<close>

definition declared_names :: "json \<Rightarrow> exn + json list" where
  "declared_names j = (case j of
     JArr xs \<Rightarrow> if list_ex (\<lambda>y. case y of JArr _ \<Rightarrow> True | JObj _ \<Rightarrow> True | _ \<Rightarrow> False) xs
       then Inl (TypeError ''unhashable type'') else Inr xs
   | JObj d \<Rightarrow> Inr (map (\<lambda>p. JStr (fst p)) d)
   | JStr t \<Rightarrow> Inr (map (\<lambda>c. JStr [c]) t)
   | _ \<Rightarrow> Inl (TypeError ''object is not iterable''))"

definition module_of :: "string \<Rightarrow> string" where
  "module_of t = (if endswith ''.py'' t then take (length t - 3) t else t)"

definition check_names :: "json \<Rightarrow> string list \<Rightarrow> exn + json list" where
  "check_names declared tops = (if \<not> truthy declared then Inr []
     else bindE (declared_names declared) (\<lambda>ds.
       bindE (ensure (set (map (\<lambda>t. JStr (module_of t)) tops) = set ds) ''import names'') (\<lambda>_. Inr ds)))"

definition one_of_each :: "string list \<Rightarrow> bool" where
  "one_of_each names = (length (filter (\<lambda>n. endswith ''.whl'' n \<and> n \<noteq> ''.whl'') names) = 1
     \<and> length (filter (endswith ''.tar.gz'') names) = 1)"

definition raised :: "exn option \<Rightarrow> exn + unit" where
  "raised e = (case e of None \<Rightarrow> Inr () | Some y \<Rightarrow> Inl y)"

definition check_wheel :: "package \<Rightarrow> json \<Rightarrow> wheel \<Rightarrow> exn + json list" where
  "check_wheel pkg settings w =
     bindE (norm_json (opt_str (wh_name w))) (\<lambda>name.
     bindE (ensure (name = norm_name (pk_name pkg)) ''built name'') (\<lambda>_.
     bindE (ensure (wh_py w \<noteq> 0) ''no Python files'') (\<lambda>_.
     bindE (ensure (set (wh_top w) \<inter> set FORBIDDEN_TOP_LEVEL = {}) ''top-level entries'') (\<lambda>_.
     bindE (table_or_empty settings) (\<lambda>config.
     bindE (check_names (dget_or_null config ''import_names'') (wh_top w)) (\<lambda>ds.
     bindE (ensure (wh_urls w \<noteq> []) ''no Project-URL'') (\<lambda>_. Inr ds)))))))"

section \<open>The tag and the index\<close>

record release_event =
  ev_repo :: string
  ev_event :: string
  ev_ref_type :: string
  ev_ref_name :: string

definition is_release :: "release_event \<Rightarrow> bool" where
  "is_release ev = (ev_event ev = ''release'')"

definition version_text :: "string option \<Rightarrow> string" where
  "version_text v = (case v of None \<Rightarrow> ''None'' | Some t \<Rightarrow> t)"

definition release_tags :: "package \<Rightarrow> string option \<Rightarrow> string list" where
  "release_tags pkg v = [''v'' @ version_text v, norm_name (pk_name pkg) @ ''-v'' @ version_text v]"

definition check_tag :: "release_event \<Rightarrow> package \<Rightarrow> string option \<Rightarrow> exn + unit" where
  "check_tag ev pkg v = (if \<not> is_release ev then Inr ()
     else bindE (ensure (ev_ref_type ev = ''tag'') ''not a tag'') (\<lambda>_.
       ensure (ev_ref_name ev \<in> set (release_tags pkg v)) ''tag does not match the version''))"

definition check_index :: "release_world \<Rightarrow> release_event \<Rightarrow> package \<Rightarrow> string option \<Rightarrow> exn + unit" where
  "check_index x ev pkg v = (if \<not> is_release ev then Inr ()
     else case pypi_versions x (pk_name pkg) of
       None \<Rightarrow> refuse ''release list not confirmed''
     | Some vs \<Rightarrow> ensure (case v of None \<Rightarrow> True | Some t \<Rightarrow> t \<notin> set vs) ''version exists'')"

section \<open>The gate\<close>

fun file_hashes :: "release_world \<Rightarrow> package \<Rightarrow> string list \<Rightarrow> exn + jdict" where
  "file_hashes x pkg [] = Inr []"
| "file_hashes x pkg (n # ns) =
     bindE (rw_bytes x pkg n) (\<lambda>bytes. bindE (file_hashes x pkg ns) (\<lambda>d. Inr ((n, JStr (sha256_hex bytes)) # d)))"

definition release_receipt :: "env \<Rightarrow> release_event \<Rightarrow> package \<Rightarrow> wheel \<Rightarrow> jdict \<Rightarrow> jdict" where
  "release_receipt e ev pkg w hashes = [(''package'', JStr (pk_name pkg)), (''version'', opt_str (wh_version w)),
     (''environment'', JStr (pk_environment pkg)), (''event'', JStr (ev_event ev)),
     (''ref'', JStr (ev_ref_type ev @ '':'' @ ev_ref_name ev)), (''repository'', JStr (ev_repo ev)),
     (''source_sha'', opt_str (e ''GITHUB_SHA'')), (''run_id'', opt_str (e ''GITHUB_RUN_ID'')),
     (''files'', JObj hashes), (''top_level'', JArr (map JStr (wh_top w)))]"

definition gate_package :: "release_world \<Rightarrow> release_event \<Rightarrow> package \<Rightarrow> exn + jdict" where
  "gate_package x ev pkg =
     (case rw_project x (pk_dir pkg) of
        None \<Rightarrow> refuse ''pyproject.toml not found''
      | Some reading \<Rightarrow>
          bindE reading (\<lambda>document.
          bindE (check_project pkg (ev_repo ev) document) (\<lambda>release.
          bindE (rw_build x pkg) (\<lambda>names.
          bindE (ensure (one_of_each names) ''expected exactly one wheel and one sdist'') (\<lambda>_.
          bindE (raised (rw_twine x pkg)) (\<lambda>_.
          bindE (read_metadata x pkg) (\<lambda>w.
          bindE (check_wheel pkg release w) (\<lambda>ds.
          bindE (check_tag ev pkg (wh_version w)) (\<lambda>_.
          bindE (check_index x ev pkg (wh_version w)) (\<lambda>_.
          bindE (raised (rw_smoke x pkg (wh_version w) ds)) (\<lambda>_.
          bindE (file_hashes x pkg names) (\<lambda>hashes.
            Inr (release_receipt (s_env (rw_sys x)) ev pkg w hashes)))))))))))))"

text \<open>\<open>^(?P<name>.+?)-v(?P<ver>\d.*)$\<close>: the shortest name that is followed by a version.\<close>

fun tag_name :: "string \<Rightarrow> string \<Rightarrow> string option" where
  "tag_name name [] = None"
| "tag_name name (c # cs) =
     (if name \<noteq> [] \<and> startswith ''-v'' (c # cs) \<and> drop 2 (c # cs) \<noteq> [] \<and> ascii_digit (hd (drop 2 (c # cs))) then Some name
      else tag_name (name @ [c]) cs)"

definition select_packages :: "release_event \<Rightarrow> package list \<Rightarrow> exn + package list" where
  "select_packages ev pkgs = (if \<not> is_release ev \<or> length pkgs = 1 then Inr pkgs
     else case tag_name [] (ev_ref_name ev) of
       None \<Rightarrow> refuse ''tag must be <package>-v<version>''
     | Some t \<Rightarrow> (let selected = filter (\<lambda>p. norm_name (pk_name p) = norm_name t) pkgs in
         if length selected \<noteq> 1 then refuse ''tag names no declared package'' else Inr selected))"

fun gate_all :: "release_world \<Rightarrow> release_event \<Rightarrow> package list \<Rightarrow> exn + jdict list" where
  "gate_all x ev [] = Inr []"
| "gate_all x ev (p # ps) = bindE (gate_package x ev p) (\<lambda>r. bindE (gate_all x ev ps) (\<lambda>rs. Inr (r # rs)))"

definition gate_main :: "release_world \<Rightarrow> release_event \<Rightarrow> string \<Rightarrow> exn + jdict list" where
  "gate_main x ev spec = bindE (parse_packages spec) (\<lambda>pkgs. bindE (select_packages ev pkgs) (gate_all x ev))"

section \<open>A release is bound to its tag\<close>

lemma ensure_Inr: "ensure b reason = Inr () \<longleftrightarrow> b"
  by (simp add: ensure_def refuse_def)

lemma selected_one: "select_packages ev pkgs = Inr ps \<Longrightarrow> is_release ev \<Longrightarrow> \<exists>p. ps = [p] \<and> p \<in> set pkgs"
  by (auto simp: select_packages_def refuse_def Let_def length_Suc_conv dest!: filter_eq_ConsD
      split: option.splits if_splits)

text \<open>What the gate has seen of a package that it lets be released.\<close>

definition released :: "release_world \<Rightarrow> release_event \<Rightarrow> package \<Rightarrow> jdict \<Rightarrow> bool" where
  "released x ev pkg receipt \<longleftrightarrow> (\<exists>w vs. dget receipt ''package'' = Some (JStr (pk_name pkg)) \<and> dget receipt ''version'' = Some (opt_str (wh_version w))
     \<and> read_metadata x pkg = Inr w \<and> map_option norm_name (wh_name w) = Some (norm_name (pk_name pkg))
     \<and> wh_py w \<noteq> 0 \<and> set (wh_top w) \<inter> set FORBIDDEN_TOP_LEVEL = {}
     \<and> ev_ref_type ev = ''tag'' \<and> ev_ref_name ev \<in> set (release_tags pkg (wh_version w))
     \<and> pypi_versions x (pk_name pkg) = Some vs \<and> wh_version w \<notin> Some ` set vs
     \<and> rw_twine x pkg = None \<and> (\<exists>names. rw_build x pkg = Inr names \<and> one_of_each names))"

lemma gate_package_released:
  assumes "gate_package x ev pkg = Inr r" "is_release ev"
  shows "released x ev pkg r"
proof -
  from assms obtain document declared names w ds hashes where g: "rw_build x pkg = Inr names" "one_of_each names"
    "raised (rw_twine x pkg) = Inr ()" "read_metadata x pkg = Inr w" "check_wheel pkg declared w = Inr ds"
    "check_tag ev pkg (wh_version w) = Inr ()" "check_index x ev pkg (wh_version w) = Inr ()"
    "r = release_receipt (s_env (rw_sys x)) ev pkg w hashes"
    by (auto simp: gate_package_def refuse_def bindE_Inr_iff ensure_Inr split: option.splits)
  from g(5) have "map_option norm_name (wh_name w) = Some (norm_name (pk_name pkg)) \<and> wh_py w \<noteq> 0 \<and> set (wh_top w) \<inter> set FORBIDDEN_TOP_LEVEL = {}"
    by (auto simp: check_wheel_def bindE_Inr_iff ensure_Inr norm_json_def opt_str_def split: json.splits option.splits)
  moreover from g(6) assms(2) have "ev_ref_type ev = ''tag'' \<and> ev_ref_name ev \<in> set (release_tags pkg (wh_version w))"
    by (auto simp: check_tag_def bindE_Inr_iff ensure_Inr)
  moreover from g(7) assms(2) obtain vs where "pypi_versions x (pk_name pkg) = Some vs" "wh_version w \<notin> Some ` set vs"
    by (auto simp: check_index_def ensure_Inr refuse_def split: option.splits)
  moreover from g(8) have "dget r ''package'' = Some (JStr (pk_name pkg))" "dget r ''version'' = Some (opt_str (wh_version w))"
    by (simp_all add: release_receipt_def)
  moreover from g(3) have "rw_twine x pkg = None" by (simp add: raised_def split: option.splits)
  ultimately show ?thesis using g(1,2,4) unfolding released_def by blast
qed

text \<open>
  C39. A release that passes is one declared package, built into one wheel and one source archive under its
  name, at a tag that names the built version, and that version is not among those the index has, which
  it has confirmed.
\<close>

lemma release_bound_to_tag:
  assumes "gate_main x ev spec = Inr receipts" "is_release ev"
  shows "\<exists>pkgs pkg receipt. parse_packages spec = Inr pkgs \<and> pkg \<in> set pkgs \<and> receipts = [receipt] \<and> released x ev pkg receipt"
proof -
  from assms(1) obtain pkgs ps where p: "parse_packages spec = Inr pkgs" "select_packages ev pkgs = Inr ps" "gate_all x ev ps = Inr receipts"
    by (auto simp: gate_main_def bindE_Inr_iff)
  from selected_one [OF p(2) assms(2)] obtain pkg where pkg: "ps = [pkg]" "pkg \<in> set pkgs" by blast
  with p(3) obtain r where "gate_package x ev pkg = Inr r" "receipts = [r]" by (auto simp: bindE_Inr_iff)
  with gate_package_released [OF _ assms(2)] p(1) pkg(2) show ?thesis by blast
qed

definition gate_demo :: release_world where
  "gate_demo = \<lparr>rw_sys = small_sys,
     rw_project = (\<lambda>_. Some (Inr (JObj [(''project'', JObj [(''name'', JStr ''SZL_Router''), (''description'', JStr ''d''), (''readme'', JStr ''r''),
         (''requires-python'', JStr ''3''), (''license'', JStr ''l''), (''urls'', JObj [(''Source'', JStr ''https://github.com/o/r/'')])]),
       (''build-system'', JObj [(''build-backend'', JStr ''b'')])]))),
     rw_build = (\<lambda>_. Inr [''a.tar.gz'', ''a.whl'']), rw_twine = (\<lambda>_. None),
     rw_names = (\<lambda>_. Inr [''szl/a.py'', ''x.dist-info/METADATA'']),
     rw_headers = (\<lambda>_ _. Inr [(''name'', ''szl-router''), (''Version'', ''1.0''), (''Project-URL'', ''u'')]),
     rw_index = (\<lambda>_. Listed [''0.9'']), rw_smoke = (\<lambda>_ _ _. None), rw_bytes = (\<lambda>_ _. Inr [])\<rparr>"

definition gate_event :: release_event where
  "gate_event = \<lparr>ev_repo = ''o/r'', ev_event = ''release'', ev_ref_type = ''tag'', ev_ref_name = ''szl-router-v1.0''\<rparr>"

definition gate_demo_package :: package where
  "gate_demo_package = \<lparr>pk_name = ''szl-router'', pk_dir = ''.'', pk_environment = ''pypi''\<rparr>"

lemma gate_demo_selected: "bindE (parse_packages ''szl-router=.:pypi; other=b'') (select_packages gate_event) = Inr [gate_demo_package]"
  by code_simp

definition gate_demo_project :: json where
  "gate_demo_project = (case rw_project gate_demo [] of Some (Inr j) \<Rightarrow> j | _ \<Rightarrow> JNull)"

definition gate_demo_wheel :: wheel where
  "gate_demo_wheel = \<lparr>wh_name = Some ''szl-router'', wh_version = Some ''1.0'', wh_urls = [''u''], wh_top = [''szl''], wh_py = 1\<rparr>"

lemma gate_demo_project: "check_project gate_demo_package ''o/r'' gate_demo_project = Inr JNull"
  by code_simp

lemma gate_demo_wheel: "read_metadata gate_demo gate_demo_package = Inr gate_demo_wheel" "check_wheel gate_demo_package JNull gate_demo_wheel = Inr []"
  by code_simp+

lemma gate_demo_tag: "check_tag gate_event gate_demo_package (Some ''1.0'') = Inr ()"
  "check_index gate_demo gate_event gate_demo_package (Some ''1.0'') = Inr ()"
  by code_simp+

lemma gate_demo_passes: "\<exists>r. gate_main gate_demo gate_event ''szl-router=.:pypi; other=b'' = Inr [r]"
proof -
  from gate_demo_selected obtain pkgs where "parse_packages ''szl-router=.:pypi; other=b'' = Inr pkgs" "select_packages gate_event pkgs = Inr [gate_demo_package]"
    by (auto simp: bindE_Inr_iff)
  moreover have "rw_project gate_demo d = Some (Inr gate_demo_project)" "rw_build gate_demo p = Inr [''a.tar.gz'', ''a.whl'']" "rw_twine gate_demo p = None"
    "rw_smoke gate_demo p v ds = None" "rw_bytes gate_demo p n = Inr []" for d p v ds n
    by (simp_all add: gate_demo_def gate_demo_project_def)
  moreover have "one_of_each [''a.tar.gz'', ''a.whl'']" by code_simp
  moreover have "ev_repo gate_event = ''o/r''" "wh_version gate_demo_wheel = Some ''1.0''" by (simp_all add: gate_event_def gate_demo_wheel_def)
  ultimately show ?thesis
    by (simp add: gate_main_def gate_package_def gate_demo_project gate_demo_wheel gate_demo_tag ensure_def raised_def)
qed

lemma release_bound_to_tag_witness:
  "\<exists>pkgs pkg receipt. parse_packages ''szl-router=.:pypi; other=b'' = Inr pkgs \<and> pkg \<in> set pkgs
    \<and> gate_main gate_demo gate_event ''szl-router=.:pypi; other=b'' = Inr [receipt] \<and> released gate_demo gate_event pkg receipt"
proof -
  obtain rs where rs: "gate_main gate_demo gate_event ''szl-router=.:pypi; other=b'' = Inr rs" using gate_demo_passes by blast
  have "is_release gate_event" by (simp add: is_release_def gate_event_def)
  from release_bound_to_tag [OF rs this] rs show ?thesis by blast
qed

end
